(* ===== verification/Prelude.thy ===== *)
theory Prelude
  imports Main "HOL-Library.Word"
begin

text \<open>
  What every component of the development shares: the result type of fallible Rust code
  and its \<open>?\<close> operator, the statements the code runs against its PostgreSQL tables (a table
  is the list of its rows), ordered association lists for \<open>BTreeMap\<close>, text as Unicode scalar
  values, and the contracts that several components provide: tables with a unique key
  (\<open>keyed_table\<close>), and operations that keep an invariant (\<open>guarded_machine\<close>, \<open>total_machine\<close>).
\<close>

named_theorems row_simps \<open>facts about the table statements\<close>
named_theorems result_simps \<open>inversion of fallible computations\<close>

type_synonym uid = int \<comment> \<open>\<open>i32\<close> user ids: only compared\<close>
type_synonym snowflake = int \<comment> \<open>\<open>i64\<close> chat, message, request ids: only compared\<close>
type_synonym timestamp = int \<comment> \<open>an instant, in nanoseconds since the Unix epoch (\<open>chrono\<close>)\<close>
type_synonym u8 = "8 word"
type_synonym u32 = "32 word"
type_synonym u64 = "64 word"

section \<open>Fallible code\<close>

text \<open>\<open>Result<T, E>\<close> is \<open>'e + 'a\<close>; \<open>x?\<close> followed by the rest of the body is \<open>and_then\<close>.\<close>

definition and_then :: "'e + 'a \<Rightarrow> ('a \<Rightarrow> 'e + 'b) \<Rightarrow> 'e + 'b" where
  "and_then r k = (case r of Inl e \<Rightarrow> Inl e | Inr x \<Rightarrow> k x)"

lemma and_then_simps [simp]:
  "and_then (Inl e) k = Inl e"
  "and_then (Inr x) k = k x"
  by (simp_all add: and_then_def)

lemma and_then_eq_Inr [result_simps]:
  "and_then r k = Inr y \<longleftrightarrow> (\<exists>x. r = Inr x \<and> k x = Inr y)"
  by (cases r) simp_all

lemma and_then_eq_Inl [result_simps]:
  "and_then r k = Inl e \<longleftrightarrow> r = Inl e \<or> (\<exists>x. r = Inr x \<and> k x = Inl e)"
  by (cases r) auto

definition ok_or :: "'a option \<Rightarrow> 'e \<Rightarrow> 'e + 'a" where
  "ok_or o' e = (case o' of None \<Rightarrow> Inl e | Some x \<Rightarrow> Inr x)"

lemma ok_or_simps [simp]:
  "ok_or None e = Inl e"
  "ok_or (Some x) e = Inr x"
  by (simp_all add: ok_or_def)

lemma ok_or_eq_Inr [result_simps]: "ok_or o' e = Inr x \<longleftrightarrow> o' = Some x"
  by (cases o') simp_all

lemma ok_or_eq_Inl [result_simps]: "ok_or o' e = Inl e' \<longleftrightarrow> o' = None \<and> e' = e"
  by (cases o') auto

definition guard_or :: "bool \<Rightarrow> 'e \<Rightarrow> 'e + unit" where
  "guard_or b e = (if b then Inr () else Inl e)"

lemma guard_or_simps [simp]:
  "guard_or True e = Inr ()"
  "guard_or False e = Inl e"
  by (simp_all add: guard_or_def)

lemma guard_or_eq_Inr [result_simps]: "guard_or b e = Inr x \<longleftrightarrow> b"
  by (simp add: guard_or_def)

lemma guard_or_eq_Inl [result_simps]: "guard_or b e = Inl e' \<longleftrightarrow> \<not> b \<and> e' = e"
  by (auto simp: guard_or_def)

section \<open>Statements on tables\<close>

text \<open>
  A table is the list of its rows. \<open>WHERE\<close> is a predicate on rows; \<open>first\<close> returns the first
  row that satisfies it, and \<open>optional()\<close> turns "no row" into \<open>None\<close>; the other statements
  change every row that satisfies it. \<open>ON CONFLICT DO NOTHING\<close> and \<open>ON CONFLICT DO UPDATE\<close>
  look for a row with the conflicting key first.
\<close>

definition select_rows :: "('r \<Rightarrow> bool) \<Rightarrow> 'r list \<Rightarrow> 'r list" where
  "select_rows P rows = filter P rows"

definition first_row :: "('r \<Rightarrow> bool) \<Rightarrow> 'r list \<Rightarrow> 'r option" where
  "first_row P rows = find P rows"

definition exists_row :: "('r \<Rightarrow> bool) \<Rightarrow> 'r list \<Rightarrow> bool" where
  "exists_row P rows = list_ex P rows"

definition count_rows :: "('r \<Rightarrow> bool) \<Rightarrow> 'r list \<Rightarrow> nat" where
  "count_rows P rows = length (filter P rows)"

definition update_rows :: "('r \<Rightarrow> bool) \<Rightarrow> ('r \<Rightarrow> 'r) \<Rightarrow> 'r list \<Rightarrow> 'r list" where
  "update_rows P f rows = map (\<lambda>r. if P r then f r else r) rows"

definition delete_rows :: "('r \<Rightarrow> bool) \<Rightarrow> 'r list \<Rightarrow> 'r list" where
  "delete_rows P rows = filter (\<lambda>r. \<not> P r) rows"

definition insert_or_ignore :: "('r \<Rightarrow> bool) \<Rightarrow> 'r \<Rightarrow> 'r list \<Rightarrow> 'r list" where
  "insert_or_ignore P r rows = (if exists_row P rows then rows else rows @ [r])"

definition upsert_row :: "('r \<Rightarrow> bool) \<Rightarrow> 'r \<Rightarrow> ('r \<Rightarrow> 'r) \<Rightarrow> 'r list \<Rightarrow> 'r list" where
  "upsert_row P r f rows = (if exists_row P rows then update_rows P f rows else rows @ [r])"

lemma set_select_rows [row_simps]: "set (select_rows P rows) = {r \<in> set rows. P r}"
  by (simp add: select_rows_def)

lemma exists_row_iff [row_simps]: "exists_row P rows \<longleftrightarrow> (\<exists>r \<in> set rows. P r)"
  by (simp add: exists_row_def list_ex_iff)

lemma count_rows_pos [row_simps]: "0 < count_rows P rows \<longleftrightarrow> (\<exists>r \<in> set rows. P r)"
  by (auto simp: count_rows_def filter_empty_conv)

lemma count_rows_eq_0 [row_simps]: "count_rows P rows = 0 \<longleftrightarrow> (\<forall>r \<in> set rows. \<not> P r)"
  by (simp add: count_rows_def filter_empty_conv)

lemma set_update_rows [row_simps]:
  "set (update_rows P f rows) = (\<lambda>r. if P r then f r else r) ` set rows"
  by (simp add: update_rows_def)

lemma set_delete_rows [row_simps]: "set (delete_rows P rows) = {r \<in> set rows. \<not> P r}"
  by (simp add: delete_rows_def)

lemma first_row_Some: "first_row P rows = Some r \<Longrightarrow> r \<in> set rows \<and> P r"
  by (auto simp: first_row_def find_Some_iff)

lemma first_row_None [row_simps]: "first_row P rows = None \<longleftrightarrow> (\<forall>r \<in> set rows. \<not> P r)"
  by (auto simp: first_row_def find_None_iff)

lemma first_row_simps [simp]:
  "first_row P [] = None"
  "first_row P (r # rows) = (if P r then Some r else first_row P rows)"
  by (simp_all add: first_row_def)

lemma first_row_append:
  "first_row P (xs @ ys) = (case first_row P xs of None \<Rightarrow> first_row P ys | Some r \<Rightarrow> Some r)"
  by (induction xs) simp_all

lemma first_row_unique:
  assumes "r \<in> set rows" and "P r" and "\<And>r'. r' \<in> set rows \<Longrightarrow> P r' \<Longrightarrow> r' = r"
  shows "first_row P rows = Some r"
proof (cases "first_row P rows")
  case None
  with assms(1,2) show ?thesis by (simp add: first_row_None)
next
  case (Some r')
  with first_row_Some [OF Some] have "r' = r" by (intro assms(3)) simp_all
  with Some show ?thesis by simp
qed

lemma exists_row_first: "exists_row P rows \<longleftrightarrow> first_row P rows \<noteq> None"
  by (simp add: exists_row_iff first_row_None)

lemma map_update_rows:
  assumes "\<And>r. P r \<Longrightarrow> g (f r) = g r"
  shows "map g (update_rows P f rows) = map g rows"
  using assms by (induction rows) (simp_all add: update_rows_def)

lemma length_update_rows [simp]: "length (update_rows P f rows) = length rows"
  by (simp add: update_rows_def)

lemma update_rows_noop: "\<forall>r \<in> set rows. \<not> P r \<Longrightarrow> update_rows P f rows = rows"
  by (simp add: update_rows_def map_idI)

section \<open>Tables with a unique key\<close>

text \<open>
  The contract a component relies on when it addresses one row of a table: \<open>matches k\<close> is the
  \<open>WHERE\<close> clause (or conflict target) the code writes for the key \<open>k\<close>, and it selects exactly
  the rows whose \<open>key\<close> is \<open>k\<close>. A table is well formed when its keys are distinct (the primary
  key or unique index of the migration).
\<close>

definition distinct_keys :: "('r \<Rightarrow> 'k) \<Rightarrow> 'r list \<Rightarrow> bool" where
  "distinct_keys key rows \<longleftrightarrow> distinct (map key rows)"

lemma distinct_keys_eq:
  "distinct_keys key rows \<Longrightarrow> r \<in> set rows \<Longrightarrow> r' \<in> set rows \<Longrightarrow> key r = key r' \<Longrightarrow> r = r'"
  unfolding distinct_keys_def distinct_map by (metis inj_onD)

lemma distinct_keys_delete: "distinct_keys key rows \<Longrightarrow> distinct_keys key (delete_rows P rows)"
  by (auto simp: distinct_keys_def delete_rows_def distinct_map inj_on_def)

lemma distinct_keys_update:
  "(\<And>r. P r \<Longrightarrow> key (f r) = key r) \<Longrightarrow>
   distinct_keys key (update_rows P f rows) = distinct_keys key rows"
  by (simp add: distinct_keys_def map_update_rows)

locale keyed_table =
  fixes key :: "'r \<Rightarrow> 'k"
    and matches :: "'k \<Rightarrow> 'r \<Rightarrow> bool"
  assumes matches_iff: "matches k r \<longleftrightarrow> key r = k"
begin

lemma matches_eq: "matches k = (\<lambda>r. key r = k)"
  by (simp add: fun_eq_iff matches_iff)

lemma find_unique:
  assumes "distinct_keys key rows"
  shows "first_row (matches k) rows = Some r \<longleftrightarrow> r \<in> set rows \<and> key r = k"
proof
  assume "first_row (matches k) rows = Some r"
  from first_row_Some [OF this] show "r \<in> set rows \<and> key r = k" by (simp add: matches_iff)
next
  assume "r \<in> set rows \<and> key r = k"
  with assms show "first_row (matches k) rows = Some r"
    by (auto intro!: first_row_unique simp: matches_iff dest: distinct_keys_eq)
qed

lemma distinct_insert:
  "distinct_keys key rows \<Longrightarrow> key r = k \<Longrightarrow> distinct_keys key (insert_or_ignore (matches k) r rows)"
  by (auto simp: insert_or_ignore_def distinct_keys_def row_simps matches_iff)

lemma distinct_upsert:
  assumes "distinct_keys key rows" and "key r = k" and "\<And>r. key (f r) = key r"
  shows "distinct_keys key (upsert_row (matches k) r f rows)"
  using assms
  by (auto simp: upsert_row_def distinct_keys_def row_simps matches_iff map_update_rows)

lemma find_insert:
  "first_row (matches k) (insert_or_ignore (matches k) r rows) =
   (case first_row (matches k) rows of None \<Rightarrow> if key r = k then Some r else None | Some r' \<Rightarrow> Some r')"
  by (cases "first_row (matches k) rows")
     (simp_all add: insert_or_ignore_def exists_row_first first_row_append matches_eq)

lemma find_update:
  "(\<And>r. key (f r) = key r) \<Longrightarrow>
   first_row (matches k) (update_rows (matches k') f rows) =
   (if k = k' then map_option f (first_row (matches k) rows) else first_row (matches k) rows)"
  unfolding matches_eq by (induction rows) (auto simp: update_rows_def)

lemma find_update_any:
  "(\<And>r. key (f r) = key r) \<Longrightarrow>
   first_row (matches k) (update_rows P f rows) =
   map_option (\<lambda>r. if P r then f r else r) (first_row (matches k) rows)"
  unfolding matches_eq by (induction rows) (auto simp: update_rows_def)

lemma find_upsert:
  assumes "key r = k" and "\<And>r. key (f r) = key r"
  shows "first_row (matches k) (upsert_row (matches k) r f rows) =
    Some (case first_row (matches k) rows of None \<Rightarrow> r | Some r' \<Rightarrow> f r')"
proof (cases "first_row (matches k) rows")
  case None
  then have "\<not> exists_row (matches k) rows" by (simp add: row_simps)
  with None assms(1) show ?thesis by (simp add: upsert_row_def first_row_append matches_iff)
next
  case (Some r')
  then have "exists_row (matches k) rows" by (auto simp: row_simps dest: first_row_Some)
  with Some assms(2) show ?thesis by (simp add: upsert_row_def find_update)
qed

lemma find_upsert_other:
  assumes "k' \<noteq> k" and "key r = k" and "\<And>r. key (f r) = key r"
  shows "first_row (matches k') (upsert_row (matches k) r f rows) = first_row (matches k') rows"
proof -
  from assms(1,2) have "first_row (matches k') (rows @ [r]) = first_row (matches k') rows"
    by (simp add: first_row_append matches_iff split: option.split)
  with assms(1,3) show ?thesis by (simp add: upsert_row_def find_update)
qed

text \<open>The same for an update that rewrites the row of a key, whatever it would do to others.\<close>

lemma find_upsert_rewrite:
  assumes "key r = k" and "\<And>r. key r = k \<Longrightarrow> key (f r) = k"
  shows "first_row (matches k') (upsert_row (matches k) r f rows) =
    (if k' = k then Some (case first_row (matches k) rows of None \<Rightarrow> r | Some x \<Rightarrow> f x)
     else first_row (matches k') rows)"
proof -
  have "first_row (matches k') (update_rows (matches k) f rows) =
      (if k' = k then map_option f (first_row (matches k) rows) else first_row (matches k') rows)"
    unfolding matches_eq by (induction rows) (auto simp: update_rows_def assms(2))
  then show ?thesis
    using assms(1)
    by (cases "first_row (matches k) rows")
      (auto simp: upsert_row_def exists_row_first first_row_append matches_iff split: option.split)
qed

lemma distinct_upsert_rewrite:
  assumes "distinct_keys key rows" and "key r = k" and "\<And>r. key r = k \<Longrightarrow> key (f r) = k"
  shows "distinct_keys key (upsert_row (matches k) r f rows)"
proof -
  have "map key (update_rows (matches k) f rows) = map key rows"
    by (rule map_update_rows) (simp add: matches_iff assms(3))
  then show ?thesis
    using assms(1,2) by (auto simp: upsert_row_def distinct_keys_def row_simps matches_iff)
qed

lemma find_delete:
  "first_row (matches k) (delete_rows (matches k') rows) =
   (if k = k' then None else first_row (matches k) rows)"
  unfolding matches_eq by (induction rows) (auto simp: delete_rows_def)

end

section \<open>Guarded operations\<close>

text \<open>
  An operation either fails, and then leaves the state as it was (a rejected request or a
  rolled-back transaction), or returns a value and the next state. A component whose
  operations all keep an invariant keeps it over every sequence of requests.
\<close>

fun run_ops :: "('op \<Rightarrow> 's \<Rightarrow> 'e + ('r \<times> 's)) \<Rightarrow> 'op list \<Rightarrow> 's \<Rightarrow> 's" where
  "run_ops exec [] s = s"
| "run_ops exec (x # xs) s =
     (case exec x s of Inl e \<Rightarrow> run_ops exec xs s | Inr (r, s') \<Rightarrow> run_ops exec xs s')"

lemma run_ops_append: "run_ops exec (xs @ ys) s = run_ops exec ys (run_ops exec xs s)"
  by (induction xs arbitrary: s) (auto split: sum.splits prod.splits)

locale guarded_machine =
  fixes exec :: "'op \<Rightarrow> 's \<Rightarrow> 'e + ('r \<times> 's)"
    and inv :: "'s \<Rightarrow> bool"
  assumes exec_inv: "inv s \<Longrightarrow> exec x s = Inr (r, s') \<Longrightarrow> inv s'"
begin

lemma run_inv: "inv s \<Longrightarrow> inv (run_ops exec xs s)"
proof (induction xs arbitrary: s)
  case Nil
  then show ?case by simp
next
  case (Cons x xs)
  then show ?case by (auto split: sum.splits prod.splits dest: exec_inv)
qed

lemma run_prefix_inv: "inv s \<Longrightarrow> inv (run_ops exec (take n xs) s)"
  by (rule run_inv)

end

text \<open>
  A background component whose steps always succeed, with what every run of it keeps or never
  increases.
\<close>

locale total_machine =
  fixes step :: "'op \<Rightarrow> 's \<Rightarrow> 's"
    and inv :: "'s \<Rightarrow> bool"
  assumes step_inv: "inv s \<Longrightarrow> inv (step x s)"
begin

lemma run_inv: "inv s \<Longrightarrow> inv (fold step xs s)"
  by (induction xs arbitrary: s) (simp_all add: step_inv)

lemma run_keeps:
  assumes "\<And>x s. inv s \<Longrightarrow> Q s \<Longrightarrow> Q (step x s)"
  shows "inv s \<Longrightarrow> Q s \<Longrightarrow> Q (fold step xs s)"
  by (induction xs arbitrary: s) (simp_all add: step_inv assms)

lemma run_never_increases:
  assumes "\<And>x s. inv s \<Longrightarrow> (m (step x s) :: int) \<le> m s"
  shows "inv s \<Longrightarrow> m (fold step xs s) \<le> m s"
proof (induction xs arbitrary: s)
  case Nil
  then show ?case by simp
next
  case (Cons x xs)
  from Cons.IH [OF step_inv [OF Cons.prems]] assms [OF Cons.prems, of x] show ?case
    by (metis fold_Cons comp_apply order_trans)
qed

end

section \<open>Ordered association lists\<close>

text \<open>\<open>BTreeMap\<close>: keys in ascending order, each once.\<close>

fun ol_update :: "'k::linorder \<Rightarrow> ('v option \<Rightarrow> 'v) \<Rightarrow> ('k \<times> 'v) list \<Rightarrow> ('k \<times> 'v) list" where
  "ol_update k f [] = [(k, f None)]"
| "ol_update k f ((k', v) # kvs) =
     (if k < k' then (k, f None) # (k', v) # kvs
      else if k = k' then (k, f (Some v)) # kvs
      else (k', v) # ol_update k f kvs)"

definition ol_delete :: "'k \<Rightarrow> ('k \<times> 'v) list \<Rightarrow> ('k \<times> 'v) list" where
  "ol_delete k kvs = filter (\<lambda>kv. fst kv \<noteq> k) kvs"

definition ol_sorted :: "('k::linorder \<times> 'v) list \<Rightarrow> bool" where
  "ol_sorted kvs \<longleftrightarrow> sorted_wrt (<) (map fst kvs)"

lemma ol_sorted_Nil [simp]: "ol_sorted []"
  by (simp add: ol_sorted_def)

lemma ol_sorted_Cons [simp]:
  "ol_sorted ((k, v) # kvs) \<longleftrightarrow> (\<forall>k' \<in> fst ` set kvs. k < k') \<and> ol_sorted kvs"
  by (simp add: ol_sorted_def)

lemma map_of_ol_update:
  "ol_sorted kvs \<Longrightarrow> map_of (ol_update k f kvs) = (map_of kvs)(k \<mapsto> f (map_of kvs k))"
proof (induction kvs)
  case Nil
  then show ?case by (simp add: fun_eq_iff)
next
  case (Cons kv kvs)
  obtain k' v where kv: "kv = (k', v)" by (cases kv)
  have none: "k < k' \<Longrightarrow> map_of kvs k = None"
    using Cons.prems kv by (fastforce simp: map_of_eq_None_iff)
  from Cons none show ?case by (auto simp: kv fun_eq_iff)
qed

lemma keys_ol_update [simp]: "fst ` set (ol_update k f kvs) = insert k (fst ` set kvs)"
  by (induction k f kvs rule: ol_update.induct) (simp_all add: insert_commute)

lemma ol_sorted_update: "ol_sorted kvs \<Longrightarrow> ol_sorted (ol_update k f kvs)"
proof (induction kvs)
  case Nil
  then show ?case by simp
next
  case (Cons kv kvs)
  obtain k' v where kv: "kv = (k', v)" by (cases kv)
  from Cons show ?case by (auto simp: kv ball_Un intro: less_trans)
qed

lemma map_of_ol_delete [simp]: "map_of (ol_delete k kvs) = (map_of kvs)(k := None)"
  by (induction kvs) (auto simp: ol_delete_def fun_eq_iff)

lemma ol_sorted_delete: "ol_sorted kvs \<Longrightarrow> ol_sorted (ol_delete k kvs)"
  by (induction kvs) (auto simp: ol_delete_def)

lemma ol_sorted_distinct: "ol_sorted kvs \<Longrightarrow> distinct (map fst kvs)"
  by (simp add: ol_sorted_def strict_sorted_iff)

lemma map_of_mem: "ol_sorted kvs \<Longrightarrow> map_of kvs k = Some v \<longleftrightarrow> (k, v) \<in> set kvs"
  by (simp add: ol_sorted_distinct)

section \<open>Text\<close>

text \<open>
  User text is a sequence of Unicode scalar values. \<open>str::trim\<close> removes the scalar values
  with the \<open>White_Space\<close> property at both ends.
\<close>

type_synonym ustr = "nat list"

definition ascii :: "string \<Rightarrow> ustr" where
  "ascii s = map of_char s"

definition is_whitespace :: "nat \<Rightarrow> bool" where
  "is_whitespace c \<longleftrightarrow> 9 \<le> c \<and> c \<le> 13 \<or> c = 32 \<or> c = 133 \<or> c = 160 \<or> c = 5760 \<or>
     8192 \<le> c \<and> c \<le> 8202 \<or> c = 8232 \<or> c = 8233 \<or> c = 8239 \<or> c = 8287 \<or> c = 12288"

definition trim_end :: "ustr \<Rightarrow> ustr" where
  "trim_end s = rev (dropWhile is_whitespace (rev s))"

definition trim :: "ustr \<Rightarrow> ustr" where
  "trim s = trim_end (dropWhile is_whitespace s)"

text \<open>\<open>x.and_then(|t| { let t = t.trim(); if t.is_empty() { None } else { Some(t) } })\<close>\<close>

definition trimmed_nonempty :: "ustr option \<Rightarrow> ustr option" where
  "trimmed_nonempty x =
     (case x of None \<Rightarrow> None | Some t \<Rightarrow> (if trim t = [] then None else Some (trim t)))"

lemma dropWhile_rev_dropWhile_idem:
  "dropWhile P (rev (dropWhile P (rev (dropWhile P xs)))) = rev (dropWhile P (rev (dropWhile P xs)))"
proof (cases "dropWhile P xs")
  case Nil
  show ?thesis unfolding Nil by simp
next
  case (Cons y ys)
  then have "\<not> P y" by (metis dropWhile_eq_Cons_conv)
  then have "rev (dropWhile P (rev (y # ys))) \<noteq> [] \<and> hd (rev (dropWhile P (rev (y # ys)))) = y"
    by (simp add: dropWhile_append hd_rev)
  with Cons \<open>\<not> P y\<close> show ?thesis
    by (cases "rev (dropWhile P (rev (y # ys)))") simp_all
qed

lemma trim_trim [simp]: "trim (trim s) = trim s"
  by (simp add: trim_def trim_end_def dropWhile_rev_dropWhile_idem)

lemma trimmed_nonempty_Some:
  "trimmed_nonempty x = Some t \<Longrightarrow> t \<noteq> [] \<and> trim t = t"
  by (auto simp: trimmed_nonempty_def split: option.splits if_splits)

end
