(* ===== verification/Models.thy ===== *)
theory Models
  imports Prelude Complex_Main
begin

text \<open>
  The data of the backend: the enums and row structs of \<open>backend/src/models.rs\<close>, the errors
  of \<open>backend/src/errors.rs\<close>, and the tables the modelled components read and write.
  A field carries its struct's prefix (\<open>fr_status\<close> is \<open>FriendRequest::status\<close>). Where a table of
  \<open>backend/src/schema/primary.rs\<close> has columns that the struct does not select, the row is a
  record extension of the struct. The insertable \<open>New...\<close> structs are turned into rows with
  the column defaults of the migrations.
\<close>

section \<open>Enums\<close>

datatype membership_message_visibility = VisMembers | VisAdmins | VisNobody

datatype group_visibility = Public | SemiPublic | Private

datatype group_kind = Group | Dm

datatype group_join_reason = JoinOther | JoinCreator | JoinInviteCode | JoinDirectInvite

datatype group_role = Member | Admin

definition membership_messages_allowed ::
  "membership_message_visibility \<Rightarrow> group_role option \<Rightarrow> bool" where
  "membership_messages_allowed v role =
     (case v of VisMembers \<Rightarrow> role \<noteq> None | VisAdmins \<Rightarrow> role = Some Admin | VisNobody \<Rightarrow> False)"

text \<open>Ordered from least to most restrictive (derived \<open>Ord\<close>).\<close>

datatype speaking_mode = Unrestricted | ThreadsOnly | RepliesOnly | ReadOnly

fun speaking_rank :: "speaking_mode \<Rightarrow> nat" where
  "speaking_rank Unrestricted = 0"
| "speaking_rank ThreadsOnly = 1"
| "speaking_rank RepliesOnly = 2"
| "speaking_rank ReadOnly = 3"

lemma speaking_rank_inject [simp]: "speaking_rank a = speaking_rank b \<longleftrightarrow> a = b"
  by (cases a; cases b) simp_all

instantiation speaking_mode :: linorder
begin

definition less_eq_speaking_mode :: "speaking_mode \<Rightarrow> speaking_mode \<Rightarrow> bool" where
  "a \<le> b \<longleftrightarrow> speaking_rank a \<le> speaking_rank b"

definition less_speaking_mode :: "speaking_mode \<Rightarrow> speaking_mode \<Rightarrow> bool" where
  "a < b \<longleftrightarrow> speaking_rank a < speaking_rank b"

instance
proof
  fix a b c :: speaking_mode
  show "a < b \<longleftrightarrow> a \<le> b \<and> \<not> b \<le> a"
    by (auto simp: less_eq_speaking_mode_def less_speaking_mode_def)
  show "a \<le> a" by (simp add: less_eq_speaking_mode_def)
  show "a \<le> b \<Longrightarrow> b \<le> c \<Longrightarrow> a \<le> c" by (simp add: less_eq_speaking_mode_def)
  show "a \<le> b \<Longrightarrow> b \<le> a \<Longrightarrow> a = b"
    by (simp add: less_eq_speaking_mode_def flip: speaking_rank_inject)
  show "a \<le> b \<or> b \<le> a" by (auto simp: less_eq_speaking_mode_def)
qed

end

datatype message_type =
    Text | Audio | File | Sticker | Invite | System | Forwarded | Placeholder

datatype system_message_kind =
    MemberJoined | MemberLeft | MemberAdded | MemberRemoved | MessagePinned | MessageUnpinned
  | ThreadMessagePinned | ThreadMessageUnpinned | FriendRequestAccepted | UnknownSystem

definition is_membership :: "system_message_kind \<Rightarrow> bool" where
  "is_membership k \<longleftrightarrow> k \<in> {MemberJoined, MemberLeft, MemberAdded, MemberRemoved}"

datatype forward_placeholder = PendingAudio | NestedForward

definition placeholder_code :: "forward_placeholder \<Rightarrow> string" where
  "placeholder_code p = (case p of PendingAudio \<Rightarrow> ''pendingAudio'' | NestedForward \<Rightarrow> ''nestedForward'')"

definition placeholder_of_code :: "string \<Rightarrow> forward_placeholder option" where
  "placeholder_of_code c =
     (if c = ''pendingAudio'' then Some PendingAudio
      else if c = ''nestedForward'' then Some NestedForward else None)"

definition placeholder_text :: "forward_placeholder \<Rightarrow> string" where
  "placeholder_text p =
     (case p of PendingAudio \<Rightarrow> ''[Pending voice message]'' | NestedForward \<Rightarrow> ''[Chat history]'')"

datatype transcode_status = TranscodeNone | TranscodePending | TranscodeDone | TranscodeFailed

datatype push_provider = WebPush | Apns

datatype push_environment = Sandbox | Production

datatype policy_subject_type = SubjectUser | SubjectDiscuzGroup | SubjectServiceToken

datatype permission_resource_type = GlobalResource | ChatResource

datatype friend_request_status = Pending | Archived | Accepted | Rejected

datatype friend_add_verification_mode = Direct | NeedMessage | Forbid | Question

datatype presence_visibility = Everyone | Friends | Nobody

datatype read_receipt_visibility = ReceiptFriends | ReceiptNobody

datatype friend_presence_override = InheritPresence | SharePresence | HidePresence

datatype friend_read_receipt_override = InheritReceipts | ShareReceipts | HideReceipts

section \<open>Errors\<close>

text \<open>
  \<open>diesel::result::Error\<close> as far as the code tells its cases apart: a query for one row that
  found none, a violated unique index, anything else.
\<close>

datatype db_error = DbNotFound | DbUniqueViolation | DbOther

datatype app_error =
    DbPool
  | DbQuery db_error
  | BadRequest string
  | PayloadTooLarge string
  | Unauthorized string
  | Forbidden string
  | SpeakingRestricted speaking_mode
  | NotFound string
  | Conflict string
  | Gone string
  | ServiceUnavailable string
  | Internal string

text \<open>
  JSON values (\<open>serde_json::Value\<close>). A \<open>Number\<close> is an integer (\<open>i64\<close> or \<open>u64\<close>) or a finite
  \<open>f64\<close>, kept apart by \<open>is_f64\<close>; a finite double is a rational. An object lists its entries, each
  key once.
\<close>

datatype number = Integer int | Float rat

datatype json =
    JNull | JBool bool | JNumber number | JStr ustr | JArr "json list" | JObj "(ustr \<times> json) list"

definition json_as_str :: "json \<Rightarrow> ustr option" where
  "json_as_str v = (case v of JStr s \<Rightarrow> Some s | _ \<Rightarrow> None)"

section \<open>Chats and memberships\<close>

record group_row =
  g_id :: snowflake
  g_name :: ustr
  g_description :: "ustr option"
  g_avatar_image_id :: "snowflake option"
  g_created_at :: timestamp
  g_visibility :: group_visibility
  g_last_message_id :: "snowflake option"
  g_last_message_at :: "timestamp option"
  g_kind :: group_kind
  g_dm_uid1 :: "uid option"
  g_dm_uid2 :: "uid option"
  g_membership_message_visibility :: membership_message_visibility
  g_speaking_mode :: speaking_mode

record new_group =
  ng_id :: snowflake
  ng_name :: ustr
  ng_description :: "ustr option"
  ng_avatar_image_id :: "snowflake option"
  ng_created_at :: timestamp
  ng_visibility :: group_visibility
  ng_kind :: group_kind
  ng_dm_uid1 :: "uid option"
  ng_dm_uid2 :: "uid option"

definition group_row_of :: "new_group \<Rightarrow> group_row" where
  "group_row_of n =
     \<lparr>g_id = ng_id n, g_name = ng_name n, g_description = ng_description n,
      g_avatar_image_id = ng_avatar_image_id n, g_created_at = ng_created_at n,
      g_visibility = ng_visibility n, g_last_message_id = None, g_last_message_at = None,
      g_kind = ng_kind n, g_dm_uid1 = ng_dm_uid1 n, g_dm_uid2 = ng_dm_uid2 n,
      g_membership_message_visibility = VisMembers, g_speaking_mode = Unrestricted\<rparr>"

record group_membership =
  gm_chat_id :: snowflake
  gm_uid :: uid
  gm_role :: group_role
  gm_joined_at :: timestamp
  gm_last_read_message_id :: "snowflake option"
  gm_muted_until :: "timestamp option"
  gm_join_reason :: group_join_reason
  gm_join_reason_extra :: "json option"
  gm_mute_override :: "bool option"
  gm_speaking_mode :: speaking_mode

record membership_row = group_membership +
  gm_archived :: bool
  gm_last_reactions_read_at :: timestamp
  gm_last_read_receipt_message_id :: "snowflake option"

record new_group_membership =
  ngm_chat_id :: snowflake
  ngm_uid :: uid
  ngm_role :: group_role
  ngm_joined_at :: timestamp
  ngm_join_reason :: group_join_reason
  ngm_join_reason_extra :: "json option"
  ngm_last_read_message_id :: "snowflake option"

text \<open>\<open>db_now\<close> is PostgreSQL's \<open>NOW()\<close>, the default of \<open>last_reactions_read_at\<close>.\<close>

definition membership_row_of :: "timestamp \<Rightarrow> new_group_membership \<Rightarrow> membership_row" where
  "membership_row_of db_now n =
     \<lparr>gm_chat_id = ngm_chat_id n, gm_uid = ngm_uid n, gm_role = ngm_role n,
      gm_joined_at = ngm_joined_at n, gm_last_read_message_id = ngm_last_read_message_id n,
      gm_muted_until = None, gm_join_reason = ngm_join_reason n,
      gm_join_reason_extra = ngm_join_reason_extra n, gm_mute_override = None,
      gm_speaking_mode = Unrestricted, gm_archived = False,
      gm_last_reactions_read_at = db_now, gm_last_read_receipt_message_id = None\<rparr>"

section \<open>Messages\<close>

record message_row =
  m_id :: snowflake
  m_message :: "ustr option"
  m_message_type :: message_type
  m_reply_to_id :: "snowflake option"
  m_reply_root_id :: "snowflake option"
  m_client_generated_id :: ustr
  m_sender_uid :: uid
  m_chat_id :: snowflake
  m_created_at :: timestamp
  m_updated_at :: "timestamp option"
  m_deleted_at :: "timestamp option"
  m_has_attachments :: bool
  m_has_thread :: bool
  m_has_reactions :: bool
  m_sticker_id :: "snowflake option"
  m_is_published :: bool
  m_transcode_status :: transcode_status
  m_forwarded_bundle_id :: "snowflake option"
  m_forwarded_from_message_id :: "snowflake option"
  m_system_kind :: "system_message_kind option"

section \<open>Policies\<close>

record policy_permission =
  pp_id :: snowflake
  pp_policy_id :: snowflake
  pp_action :: string
  pp_resource_type :: permission_resource_type
  pp_resource_id :: "snowflake option"
  pp_created_at :: timestamp

record policy_assignment =
  pa_id :: snowflake
  pa_subject_type :: policy_subject_type
  pa_subject_id :: int
  pa_policy_id :: snowflake
  pa_created_at :: timestamp
  pa_updated_at :: timestamp

section \<open>Social graph\<close>

text \<open>Canonical friendship row: \<open>uid1 < uid2\<close>, so each pair is stored once.\<close>

record friendship =
  fs_uid1 :: uid
  fs_uid2 :: uid
  fs_initiated_by :: uid
  fs_created_at :: timestamp
  fs_uid1_shares_presence :: "bool option"
  fs_uid2_shares_presence :: "bool option"

record friendship_row = friendship +
  fs_uid1_shares_read_receipts :: "bool option"
  fs_uid2_shares_read_receipts :: "bool option"

record new_friendship =
  nfs_uid1 :: uid
  nfs_uid2 :: uid
  nfs_initiated_by :: uid
  nfs_created_at :: timestamp
  nfs_uid1_shares_presence :: "bool option"
  nfs_uid2_shares_presence :: "bool option"

definition friendship_row_of :: "new_friendship \<Rightarrow> friendship_row" where
  "friendship_row_of n =
     \<lparr>fs_uid1 = nfs_uid1 n, fs_uid2 = nfs_uid2 n, fs_initiated_by = nfs_initiated_by n,
      fs_created_at = nfs_created_at n, fs_uid1_shares_presence = nfs_uid1_shares_presence n,
      fs_uid2_shares_presence = nfs_uid2_shares_presence n,
      fs_uid1_shares_read_receipts = None, fs_uid2_shares_read_receipts = None\<rparr>"

record friend_request =
  fr_id :: snowflake
  fr_from_uid :: uid
  fr_to_uid :: uid
  fr_status :: friend_request_status
  fr_created_at :: timestamp
  fr_decided_at :: "timestamp option"
  fr_message :: "ustr option"
  fr_question :: "ustr option"

record new_friend_request =
  nfr_id :: snowflake
  nfr_from_uid :: uid
  nfr_to_uid :: uid
  nfr_status :: friend_request_status
  nfr_created_at :: timestamp
  nfr_message :: "ustr option"
  nfr_question :: "ustr option"

definition friend_request_of :: "new_friend_request \<Rightarrow> friend_request" where
  "friend_request_of n =
     \<lparr>fr_id = nfr_id n, fr_from_uid = nfr_from_uid n, fr_to_uid = nfr_to_uid n,
      fr_status = nfr_status n, fr_created_at = nfr_created_at n, fr_decided_at = None,
      fr_message = nfr_message n, fr_question = nfr_question n\<rparr>"

record block =
  bl_blocker_uid :: uid
  bl_blocked_uid :: uid
  bl_created_at :: timestamp

section \<open>Users and clients\<close>

record user_extra =
  ux_uid :: uid
  ux_first_seen_at :: timestamp
  ux_last_seen_at :: timestamp
  ux_sticker_pack_order :: json
  ux_verification_mode :: friend_add_verification_mode
  ux_verification_question :: "ustr option"
  ux_token_gen :: int
  ux_presence_visibility :: presence_visibility
  ux_mute_group_chats_by_default :: bool
  ux_mute_direct_chats_by_default :: bool
  ux_show_membership_messages :: bool

record user_extra_row = user_extra +
  ux_read_receipt_visibility :: read_receipt_visibility

record new_user_extra =
  nux_uid :: uid
  nux_first_seen_at :: timestamp
  nux_last_seen_at :: timestamp
  nux_sticker_pack_order :: json
  nux_verification_mode :: friend_add_verification_mode
  nux_verification_question :: "ustr option"
  nux_presence_visibility :: presence_visibility

definition new_user_extra_new :: "uid \<Rightarrow> timestamp \<Rightarrow> new_user_extra" where
  "new_user_extra_new uid now =
     \<lparr>nux_uid = uid, nux_first_seen_at = now, nux_last_seen_at = now,
      nux_sticker_pack_order = JArr [], nux_verification_mode = Direct,
      nux_verification_question = None, nux_presence_visibility = Everyone\<rparr>"

definition user_extra_row_of :: "new_user_extra \<Rightarrow> user_extra_row" where
  "user_extra_row_of n =
     \<lparr>ux_uid = nux_uid n, ux_first_seen_at = nux_first_seen_at n,
      ux_last_seen_at = nux_last_seen_at n, ux_sticker_pack_order = nux_sticker_pack_order n,
      ux_verification_mode = nux_verification_mode n,
      ux_verification_question = nux_verification_question n, ux_token_gen = 0,
      ux_presence_visibility = nux_presence_visibility n,
      ux_mute_group_chats_by_default = False, ux_mute_direct_chats_by_default = False,
      ux_show_membership_messages = True, ux_read_receipt_visibility = ReceiptFriends\<rparr>"

record activity_daily_metric =
  adm_day :: int
  adm_active_users :: int
  adm_new_users :: int
  adm_active_clients :: int
  adm_new_clients :: int
  adm_client_rebinds :: int
  adm_stale_clients_purged :: int
  adm_legacy_subscriptions_purged :: int
  adm_updated_at :: timestamp

record client_record =
  cl_client_id :: ustr
  cl_created_at :: timestamp
  cl_last_active :: timestamp
  cl_last_active_uid :: uid
  cl_last_app_version :: "ustr option"

record push_subscription =
  ps_id :: snowflake
  ps_user_id :: uid
  ps_provider :: push_provider
  ps_endpoint :: "ustr option"
  ps_device_token :: "ustr option"
  ps_apns_environment :: "push_environment option"
  ps_provider_data :: json
  ps_created_at :: timestamp
  ps_client_id :: "ustr option"
  ps_delivery_failure_count :: int
  ps_last_delivery_error :: "ustr option"
  ps_last_delivery_error_at :: "timestamp option"

section \<open>Tables\<close>

text \<open>The tables of \<open>backend/src/schema/primary.rs\<close> that the modelled components use.\<close>

record tables =
  groups :: "group_row list"
  memberships :: "membership_row list"
  friendships :: "friendship_row list"
  friend_requests :: "friend_request list"
  blocks :: "block list"
  user_extras :: "user_extra_row list"
  clients :: "client_record list"
  push_subscriptions :: "push_subscription list"
  daily_metrics :: "activity_daily_metric list"
  policy_permissions :: "policy_permission list"
  policy_assignments :: "policy_assignment list"

definition empty_tables :: tables where
  "empty_tables =
     \<lparr>groups = [], memberships = [], friendships = [], friend_requests = [], blocks = [],
      user_extras = [], clients = [], push_subscriptions = [], daily_metrics = [],
      policy_permissions = [], policy_assignments = []\<rparr>"

section \<open>Keys\<close>

definition membership_key :: "membership_row \<Rightarrow> snowflake \<times> uid" where
  "membership_key r = (gm_chat_id r, gm_uid r)"

definition is_membership_of :: "snowflake \<times> uid \<Rightarrow> membership_row \<Rightarrow> bool" where
  "is_membership_of k r \<longleftrightarrow> gm_chat_id r = fst k \<and> gm_uid r = snd k"

interpretation membership_table: keyed_table membership_key is_membership_of
  by unfold_locales (auto simp: membership_key_def is_membership_of_def)

interpretation group_table: keyed_table g_id "\<lambda>k r. g_id r = k"
  by unfold_locales simp

interpretation user_extra_table: keyed_table ux_uid "\<lambda>k r. ux_uid r = k"
  by unfold_locales simp

lemma placeholder_round_trip: "placeholder_of_code c = Some p \<longleftrightarrow> c = placeholder_code p"
  by (cases p) (auto simp: placeholder_of_code_def placeholder_code_def)

end
