(* ===== verification/Dto_Ws.thy ===== *)
theory Dto_Ws
  imports Models
begin

text \<open>
  The WebSocket event type \<open>ServerWsMessage\<close> of \<open>backend/src/dto/ws.rs\<close> with the payloads
  that modelled components build (\<open>dto/ws.rs\<close>, \<open>dto/speaking.rs\<close>, \<open>dto/groups.rs\<close>). The
  payloads assembled elsewhere (message bodies, reaction summaries, pins, conversation
  snapshots) are the type parameter \<open>'p\<close>: the modelled code only passes them on.
\<close>

datatype online_client_status = ClientActive | ClientInactive

datatype last_seen_bucket = Recently | WithinWeek | WithinMonth | LongAgo

record user_presence_response =
  up_uid :: uid
  up_online :: bool
  up_away :: "bool option"
  up_last_seen_at :: "timestamp option"
  up_last_seen_bucket :: "last_seen_bucket option"

record group_presence_response =
  gp_chat_id :: snowflake
  gp_member_count :: u32
  gp_online_count :: u32

record presence_snapshot_payload =
  snap_request_id :: "u64 option"
  snap_users :: "user_presence_response list"
  snap_groups :: "group_presence_response list"

record chat_archive_state_changed_payload =
  as_chat_id :: snowflake
  as_archived :: bool
  as_muted_until :: "timestamp option"

record chat_notification_setting_response =
  ns_chat_id :: snowflake
  ns_kind :: group_kind
  ns_archived :: bool
  ns_muted_until :: "timestamp option"
  ns_mute_override :: "bool option"
  ns_is_muted :: bool

record group_speaking_mode_response =
  gsm_chat_id :: snowflake
  gsm_speaking_mode :: speaking_mode

record member_speaking_mode_response =
  msm_chat_id :: snowflake
  msm_uid :: uid
  msm_role :: group_role
  msm_speaking_mode :: speaking_mode
  msm_group_speaking_mode :: speaking_mode
  msm_effective_speaking_mode :: speaking_mode

datatype 'p server_ws_message =
    WsChatMembershipChanged snowflake
  | WsMembershipMessagePolicyChanged snowflake
  | WsMessage 'p
  | WsMessageUpdated 'p
  | WsMessageDeleted 'p
  | WsMessagesBulkDeleted 'p
  | WsReactionUpdated 'p
  | WsPresenceUpdate u32
  | WsPresenceSnapshot presence_snapshot_payload
  | WsConversationUnread 'p
  | WsConversationStates 'p
  | WsConversationStatesError 'p
  | WsConversationUnreadError 'p
  | WsThreadUpdate 'p
  | WsThreadMembershipChanged 'p
  | WsChatArchiveStateChanged chat_archive_state_changed_payload
  | WsNotificationExceptionsCleared group_kind "snowflake list"
  | WsNotificationSettingsChanged bool bool
  | WsChatNotificationSettingChanged chat_notification_setting_response
  | WsGroupSpeakingModeChanged group_speaking_mode_response
  | WsMemberSpeakingModeChanged member_speaking_mode_response
  | WsReadReceiptChanged 'p
  | WsPinAdded 'p
  | WsThreadPinAdded 'p
  | WsPinRemoved 'p
  | WsThreadPinRemoved 'p
  | WsStickerPackOrderUpdated 'p
  | WsFriendRequestReceived uid
  | WsFriendRequestResolved snowflake friend_request_status uid
  | WsFriendshipRemoved uid
  | WsNotification 'p

fun message_type :: "'p server_ws_message \<Rightarrow> string" where
  "message_type (WsChatMembershipChanged _) = ''chatMembershipChanged''"
| "message_type (WsMembershipMessagePolicyChanged _) = ''membershipMessagePolicyChanged''"
| "message_type (WsMessage _) = ''message''"
| "message_type (WsMessageUpdated _) = ''messageUpdated''"
| "message_type (WsMessageDeleted _) = ''messageDeleted''"
| "message_type (WsMessagesBulkDeleted _) = ''messagesBulkDeleted''"
| "message_type (WsReactionUpdated _) = ''reactionUpdated''"
| "message_type (WsPresenceUpdate _) = ''presenceUpdate''"
| "message_type (WsPresenceSnapshot _) = ''presenceSnapshot''"
| "message_type (WsConversationUnread _) = ''conversationUnread''"
| "message_type (WsConversationStates _) = ''conversationStates''"
| "message_type (WsConversationStatesError _) = ''conversationStatesError''"
| "message_type (WsConversationUnreadError _) = ''conversationUnreadError''"
| "message_type (WsThreadUpdate _) = ''threadUpdate''"
| "message_type (WsThreadMembershipChanged _) = ''threadMembershipChanged''"
| "message_type (WsChatArchiveStateChanged _) = ''chatArchiveStateChanged''"
| "message_type (WsNotificationExceptionsCleared _ _) = ''notificationExceptionsCleared''"
| "message_type (WsNotificationSettingsChanged _ _) = ''notificationSettingsChanged''"
| "message_type (WsChatNotificationSettingChanged _) = ''chatNotificationSettingChanged''"
| "message_type (WsGroupSpeakingModeChanged _) = ''groupSpeakingModeChanged''"
| "message_type (WsMemberSpeakingModeChanged _) = ''memberSpeakingModeChanged''"
| "message_type (WsReadReceiptChanged _) = ''readReceiptChanged''"
| "message_type (WsPinAdded _) = ''pinAdded''"
| "message_type (WsThreadPinAdded _) = ''threadPinAdded''"
| "message_type (WsPinRemoved _) = ''pinRemoved''"
| "message_type (WsThreadPinRemoved _) = ''threadPinRemoved''"
| "message_type (WsStickerPackOrderUpdated _) = ''stickerPackOrderUpdated''"
| "message_type (WsFriendRequestReceived _) = ''friendRequestReceived''"
| "message_type (WsFriendRequestResolved _ _ _) = ''friendRequestResolved''"
| "message_type (WsFriendshipRemoved _) = ''friendshipRemoved''"
| "message_type (WsNotification _) = ''notification''"

end
