(* ===== verification/Ws_Registry.thy ===== *)
theory Ws_Registry
  imports Dto_Ws
begin

unbundle bit_operations_syntax

text \<open>
  \<open>backend/src/services/ws_registry/mod.rs\<close>: the process-local registry of WebSocket
  connections. A connection owns a bounded queue to its socket task, sticky invalidation
  flags and two atomics: the last ping, and the app state packed with the time of the last
  active-to-inactive transition. \<open>DashMap<i32, Vec<Arc<ConnectionEntry>>>\<close> is an ordered
  association list (its iteration order is unspecified; nothing proved here depends on it).
  Wall-clock seconds are an argument.
\<close>

section \<open>Channels\<close>

text \<open>
  \<open>tokio::sync::mpsc::channel(256)\<close>: \<open>try_send\<close> fails when the receiver is gone or the
  buffer is full. \<open>Notify::notify_one\<close> stores one coalescing permit.
\<close>

record 'p channel =
  ch_queue :: "'p server_ws_message list"
  ch_closed :: bool

definition channel_capacity :: nat where
  "channel_capacity = 256"

definition can_send :: "'p channel \<Rightarrow> bool" where
  "can_send ch \<longleftrightarrow> \<not> ch_closed ch \<and> length (ch_queue ch) < channel_capacity"

definition try_send :: "'p server_ws_message \<Rightarrow> 'p channel \<Rightarrow> 'p channel" where
  "try_send m ch = (if can_send ch then ch\<lparr>ch_queue := ch_queue ch @ [m]\<rparr> else ch)"

section \<open>Connection entries\<close>

datatype app_presence_state = Active | Inactive

definition state_u8 :: "app_presence_state \<Rightarrow> u8" where
  "state_u8 s = (case s of Active \<Rightarrow> 1 | Inactive \<Rightarrow> 2)"

definition app_presence_state_of :: "online_client_status \<Rightarrow> app_presence_state" where
  "app_presence_state_of s = (case s of ClientActive \<Rightarrow> Active | ClientInactive \<Rightarrow> Inactive)"

definition state_from_u8 :: "u8 \<Rightarrow> app_presence_state" where
  "state_from_u8 v = (if v = state_u8 Inactive then Inactive else Active)"

definition pack_state :: "app_presence_state \<Rightarrow> u64 \<Rightarrow> u64" where
  "pack_state s transition_at = (push_bit 8 transition_at) OR (ucast (state_u8 s))"

definition unpack_state :: "u64 \<Rightarrow> app_presence_state \<times> u64" where
  "unpack_state v = (state_from_u8 (ucast v), drop_bit 8 v)"

record 'p connection_entry =
  ce_conn_id :: u64
  ce_client_id :: ustr
  ce_tx :: "'p channel"
  ce_unread_changed :: bool
  ce_states_changed :: bool
  ce_lagged :: bool
  ce_last_ping_at :: u64
  ce_state_and_last_transition_at :: u64

definition saturating_sub :: "u64 \<Rightarrow> u64 \<Rightarrow> u64" where
  "saturating_sub a b = (if b \<le> a then a - b else 0)"

text \<open>
  The value the compare-exchange loop of \<open>update_app_state_at\<close> tries to store when it has
  observed \<open>current\<close>.
\<close>

definition next_state_word :: "app_presence_state \<Rightarrow> u64 \<Rightarrow> u64 \<Rightarrow> u64" where
  "next_state_word state now current =
     (let (previous_state, previous_at) = unpack_state current;
          transition_at =
            (if previous_state = Active \<and> state = Inactive then now
             else if state = Active then 0
             else previous_at)
      in pack_state state transition_at)"

text \<open>
  The loop itself. \<open>observed\<close> lists the values that failing exchanges return, oldest first:
  the writes of other threads between the load and the exchange (or a spurious failure, which
  returns the unchanged value). The exchange succeeds once the list is used up.
\<close>

fun cas_loop :: "app_presence_state \<Rightarrow> u64 \<Rightarrow> u64 \<Rightarrow> u64 list \<Rightarrow> u64" where
  "cas_loop state now current [] = next_state_word state now current"
| "cas_loop state now current (v # observed) = cas_loop state now v observed"

definition update_app_state_at ::
  "app_presence_state \<Rightarrow> u64 \<Rightarrow> u64 list \<Rightarrow> 'p connection_entry \<Rightarrow> 'p connection_entry" where
  "update_app_state_at state now observed e =
     e\<lparr>ce_last_ping_at := now,
       ce_state_and_last_transition_at :=
         cas_loop state now (ce_state_and_last_transition_at e) observed\<rparr>"

definition entry_app_state :: "'p connection_entry \<Rightarrow> app_presence_state" where
  "entry_app_state e = fst (unpack_state (ce_state_and_last_transition_at e))"

section \<open>The registry\<close>

record ws_metrics =
  wm_connections_opened :: nat
  wm_connected_users :: nat
  wm_active_connections :: nat
  wm_inactive_connections :: nat
  wm_messages_pushed :: "string \<Rightarrow> nat"
  wm_messages_dropped :: "string \<Rightarrow> nat"

record 'p registry =
  rg_inner :: "(uid \<times> 'p connection_entry list) list"
  rg_next_conn_id :: u64
  rg_metrics :: ws_metrics

definition stale_connection_timeout_secs :: u64 where
  "stale_connection_timeout_secs = 300"

definition away_timeout_secs :: u64 where
  "away_timeout_secs = 300"

definition registry_new :: "'p registry" where
  "registry_new =
     \<lparr>rg_inner = [], rg_next_conn_id = 0,
      rg_metrics = \<lparr>wm_connections_opened = 0, wm_connected_users = 0,
        wm_active_connections = 0, wm_inactive_connections = 0,
        wm_messages_pushed = (\<lambda>_. 0), wm_messages_dropped = (\<lambda>_. 0)\<rparr>\<rparr>"

definition entries_of :: "'p registry \<Rightarrow> uid \<Rightarrow> 'p connection_entry list" where
  "entries_of r uid = (case map_of (rg_inner r) uid of None \<Rightarrow> [] | Some es \<Rightarrow> es)"

definition all_entries :: "'p registry \<Rightarrow> 'p connection_entry list" where
  "all_entries r = concat (map snd (rg_inner r))"

text \<open>Entries are shared by reference: a method that iterates over \<open>inner.get(&uid)\<close> and
  signals each entry changes them in place.\<close>

definition map_entries ::
  "uid \<Rightarrow> ('p connection_entry \<Rightarrow> 'p connection_entry) \<Rightarrow> 'p registry \<Rightarrow> 'p registry" where
  "map_entries uid f r =
     r\<lparr>rg_inner := map (\<lambda>(u, es). (u, if u = uid then map f es else es)) (rg_inner r)\<rparr>"

definition update_metrics :: "'p registry \<Rightarrow> 'p registry" where
  "update_metrics r =
     r\<lparr>rg_metrics := (rg_metrics r)
        \<lparr>wm_connected_users := length (rg_inner r),
         wm_active_connections := count_rows (\<lambda>e. entry_app_state e = Active) (all_entries r),
         wm_inactive_connections := count_rows (\<lambda>e. entry_app_state e = Inactive) (all_entries r)\<rparr>\<rparr>"

definition send_to_entry :: "'p server_ws_message \<Rightarrow> 'p connection_entry \<Rightarrow> 'p connection_entry" where
  "send_to_entry m e = e\<lparr>ce_tx := try_send m (ce_tx e)\<rparr>"

definition broadcast_presence_to_user :: "uid \<Rightarrow> 'p registry \<Rightarrow> 'p registry" where
  "broadcast_presence_to_user uid r =
     (case map_of (rg_inner r) uid of
        None \<Rightarrow> r
      | Some es \<Rightarrow> map_entries uid (send_to_entry (WsPresenceUpdate (of_nat (length es)))) r)"

definition new_entry :: "u64 \<Rightarrow> ustr \<Rightarrow> u64 \<Rightarrow> 'p connection_entry" where
  "new_entry conn_id client_id now =
     \<lparr>ce_conn_id = conn_id, ce_client_id = client_id,
      ce_tx = \<lparr>ch_queue = [], ch_closed = False\<rparr>,
      ce_unread_changed = False, ce_states_changed = False, ce_lagged = False,
      ce_last_ping_at = now, ce_state_and_last_transition_at = pack_state Inactive 0\<rparr>"

definition register :: "uid \<Rightarrow> ustr \<Rightarrow> u64 \<Rightarrow> 'p registry \<Rightarrow> u64 \<times> 'p registry" where
  "register uid client_id now r =
     (let conn_id = rg_next_conn_id r;
          entry = new_entry conn_id client_id now;
          r1 = r\<lparr>rg_next_conn_id := conn_id + 1,
                 rg_inner := ol_update uid (\<lambda>es. (case es of None \<Rightarrow> [] | Some es \<Rightarrow> es) @ [entry])
                   (rg_inner r),
                 rg_metrics := (rg_metrics r)
                   \<lparr>wm_connections_opened := Suc (wm_connections_opened (rg_metrics r))\<rparr>\<rparr>
      in (conn_id, broadcast_presence_to_user uid (update_metrics r1)))"

text \<open>\<open>retain\<close> on the occupied entry of \<open>uid\<close>, dropping the key with its last connection.\<close>

definition retain_entries ::
  "uid \<Rightarrow> ('p connection_entry \<Rightarrow> bool) \<Rightarrow> 'p registry \<Rightarrow> 'p registry" where
  "retain_entries uid keep r =
     (case map_of (rg_inner r) uid of
        None \<Rightarrow> r
      | Some es \<Rightarrow>
          (if filter keep es = [] then r\<lparr>rg_inner := ol_delete uid (rg_inner r)\<rparr>
           else r\<lparr>rg_inner := map (\<lambda>(u, es). (u, if u = uid then filter keep es else es)) (rg_inner r)\<rparr>))"

definition remove_connection :: "uid \<Rightarrow> u64 \<Rightarrow> 'p registry \<Rightarrow> 'p registry" where
  "remove_connection uid conn_id r =
     broadcast_presence_to_user uid
       (update_metrics (retain_entries uid (\<lambda>e. ce_conn_id e \<noteq> conn_id) r))"

fun invalidates_unread :: "'p server_ws_message \<Rightarrow> bool" where
  "invalidates_unread (WsReactionUpdated _) = True"
| "invalidates_unread (WsMessage _) = True"
| "invalidates_unread (WsMessageUpdated _) = True"
| "invalidates_unread (WsMessageDeleted _) = True"
| "invalidates_unread (WsMessagesBulkDeleted _) = True"
| "invalidates_unread (WsThreadUpdate _) = True"
| "invalidates_unread (WsThreadMembershipChanged _) = True"
| "invalidates_unread (WsChatMembershipChanged _) = True"
| "invalidates_unread (WsChatArchiveStateChanged _) = True"
| "invalidates_unread (WsNotificationExceptionsCleared _ _) = True"
| "invalidates_unread (WsNotificationSettingsChanged _ _) = True"
| "invalidates_unread (WsChatNotificationSettingChanged _) = True"
| "invalidates_unread (WsFriendRequestResolved _ _ _) = True"
| "invalidates_unread (WsFriendshipRemoved _) = True"
| "invalidates_unread (WsNotification _) = True"
| "invalidates_unread _ = False"

definition notify_unread :: "'p connection_entry \<Rightarrow> 'p connection_entry" where
  "notify_unread e = e\<lparr>ce_unread_changed := True, ce_states_changed := True\<rparr>"

fun invalidate_unread :: "uid list \<Rightarrow> 'p registry \<Rightarrow> 'p registry" where
  "invalidate_unread [] r = r"
| "invalidate_unread (uid # uids) r = invalidate_unread uids (map_entries uid notify_unread r)"

definition deliver :: "'p server_ws_message \<Rightarrow> 'p connection_entry \<Rightarrow> 'p connection_entry" where
  "deliver m e =
     (if can_send (ce_tx e) then send_to_entry m e else e\<lparr>ce_lagged := True\<rparr>)"

definition deliver_to_uid :: "'p server_ws_message \<Rightarrow> uid \<Rightarrow> 'p registry \<Rightarrow> 'p registry" where
  "deliver_to_uid m uid r =
     (let es = entries_of r uid;
          dropped = count_rows (\<lambda>e. \<not> can_send (ce_tx e)) es;
          pushed = count_rows (\<lambda>e. can_send (ce_tx e)) es;
          t = message_type m;
          ms = rg_metrics r
      in (map_entries uid (deliver m) r)
           \<lparr>rg_metrics := ms
              \<lparr>wm_messages_dropped := (wm_messages_dropped ms)(t := wm_messages_dropped ms t + dropped),
               wm_messages_pushed := (wm_messages_pushed ms)(t := wm_messages_pushed ms t + pushed)\<rparr>\<rparr>)"

fun deliver_all :: "'p server_ws_message \<Rightarrow> uid list \<Rightarrow> 'p registry \<Rightarrow> 'p registry" where
  "deliver_all m [] r = r"
| "deliver_all m (uid # uids) r = deliver_all m uids (deliver_to_uid m uid r)"

definition broadcast_to_uids :: "uid list \<Rightarrow> 'p server_ws_message \<Rightarrow> 'p registry \<Rightarrow> 'p registry" where
  "broadcast_to_uids uids m r =
     deliver_all m uids (if invalidates_unread m then invalidate_unread uids r else r)"

section \<open>Queries\<close>

definition is_fresh :: "u64 \<Rightarrow> 'p connection_entry \<Rightarrow> bool" where
  "is_fresh now e \<longleftrightarrow> \<not> ch_closed (ce_tx e) \<and>
     saturating_sub now (ce_last_ping_at e) \<le> stale_connection_timeout_secs"

definition should_suppress_push :: "uid \<Rightarrow> u64 \<Rightarrow> u64 \<Rightarrow> 'p registry \<Rightarrow> bool" where
  "should_suppress_push uid freshness_secs now r =
     list_ex (\<lambda>e. saturating_sub now (ce_last_ping_at e) \<le> freshness_secs \<and> entry_app_state e = Active)
       (entries_of r uid)"

definition is_online_at :: "uid \<Rightarrow> u64 \<Rightarrow> 'p registry \<Rightarrow> bool" where
  "is_online_at uid now r = list_ex (is_fresh now) (entries_of r uid)"

definition count_online :: "uid list \<Rightarrow> u64 \<Rightarrow> 'p registry \<Rightarrow> u32" where
  "count_online member_uids now r =
     of_nat (count_rows (\<lambda>uid. is_online_at uid now r) member_uids)"

fun personal_scan :: "u64 \<Rightarrow> bool \<Rightarrow> 'p connection_entry list \<Rightarrow> app_presence_state option" where
  "personal_scan now away [] = (if away then Some Inactive else None)"
| "personal_scan now away (e # es) =
     (if is_fresh now e then
        (let (state, transition_at) = unpack_state (ce_state_and_last_transition_at e) in
         if state = Active then Some Active
         else personal_scan now
           (away \<or> transition_at \<noteq> 0 \<and> saturating_sub now transition_at < away_timeout_secs) es)
      else personal_scan now away es)"

definition personal_presence_at :: "uid \<Rightarrow> u64 \<Rightarrow> 'p registry \<Rightarrow> app_presence_state option" where
  "personal_presence_at uid now r =
     (case map_of (rg_inner r) uid of None \<Rightarrow> None | Some es \<Rightarrow> personal_scan now False es)"

record online_connection =
  oc_connection_id :: u64
  oc_client_id :: ustr
  oc_app_state :: app_presence_state

definition online_connections :: "uid \<Rightarrow> u64 \<Rightarrow> 'p registry \<Rightarrow> online_connection list" where
  "online_connections uid now r =
     map (\<lambda>e. \<lparr>oc_connection_id = ce_conn_id e, oc_client_id = ce_client_id e,
               oc_app_state = entry_app_state e\<rparr>)
       (filter (is_fresh now) (entries_of r uid))"

section \<open>Pruning\<close>

definition is_stale :: "u64 \<Rightarrow> u64 \<Rightarrow> 'p connection_entry \<Rightarrow> bool" where
  "is_stale max_age_secs now e \<longleftrightarrow> max_age_secs < saturating_sub now (ce_last_ping_at e)"

text \<open>First pass: the users with stale connections and the ids of those connections.\<close>

definition uids_to_trim :: "u64 \<Rightarrow> u64 \<Rightarrow> 'p registry \<Rightarrow> (uid \<times> u64 list) list" where
  "uids_to_trim max_age_secs now r =
     filter (\<lambda>(uid, ids). ids \<noteq> [])
       (map (\<lambda>(uid, es). (uid, map ce_conn_id (filter (is_stale max_age_secs now) es))) (rg_inner r))"

fun trim_entries :: "(uid \<times> u64 list) list \<Rightarrow> 'p registry \<Rightarrow> 'p registry" where
  "trim_entries [] r = r"
| "trim_entries ((uid, ids) # rest) r =
     trim_entries rest (retain_entries uid (\<lambda>e. ce_conn_id e \<notin> set ids) r)"

fun broadcast_presence_all :: "uid list \<Rightarrow> 'p registry \<Rightarrow> 'p registry" where
  "broadcast_presence_all [] r = r"
| "broadcast_presence_all (uid # uids) r =
     broadcast_presence_all uids (broadcast_presence_to_user uid r)"

definition prune_stale :: "u64 \<Rightarrow> u64 \<Rightarrow> 'p registry \<Rightarrow> 'p registry" where
  "prune_stale max_age_secs now r =
     (let trims = uids_to_trim max_age_secs now r
      in broadcast_presence_all (map fst trims) (update_metrics (trim_entries trims r)))"

section \<open>The atomic state word\<close>

lemma pack_unpack:
  assumes "unat t < 2 ^ 56"
  shows "unpack_state (pack_state s t) = (s, t)"
proof -
  have small: "\<not> bit t n" if "56 \<le> n" for n
  proof -
    from assms have "take_bit 56 (unat t) = unat t" by (rule take_bit_nat_eq_self)
    with that have "\<not> bit (unat t) n" by (metis bit_take_bit_iff not_le)
    then show ?thesis by (auto simp: bit_unsigned_iff possible_bit_def dest: bit_imp_le_length)
  qed
  have "drop_bit 8 (push_bit 8 t OR ucast (state_u8 s)) = t"
  proof (rule bit_word_eqI)
    fix n
    assume "n < LENGTH(64)"
    show "bit (drop_bit 8 (push_bit 8 t OR ucast (state_u8 s))) n = bit t n"
      using small [of n] by (cases "n < 56") (auto simp: bit_simps dest: bit_imp_le_length)
  qed
  moreover have "(ucast (push_bit 8 t OR ucast (state_u8 s) :: u64) :: u8) = state_u8 s"
    by (rule bit_word_eqI) (auto simp: bit_simps)
  moreover have "state_from_u8 (state_u8 s) = s"
    by (cases s) (simp_all add: state_from_u8_def state_u8_def)
  ultimately show ?thesis by (simp add: pack_state_def unpack_state_def)
qed

lemma unpack_bound: "unat (snd (unpack_state v)) < 2 ^ 56"
proof -
  have "unat (drop_bit 8 v) = drop_bit 8 (unat v)" by (rule unat_drop_bit_eq)
  also have "\<dots> = unat v div 2 ^ 8" by (rule drop_bit_eq_div)
  finally have "unat (drop_bit 8 v) = unat v div 2 ^ 8" .
  moreover have "unat v < 2 ^ LENGTH(64)" by (rule unsigned_less)
  ultimately show ?thesis by (simp add: unpack_state_def)
qed

lemma unpack_next_state_word:
  assumes "unat now < 2 ^ 56"
  shows "unpack_state (next_state_word state now w) =
    (state, if fst (unpack_state w) = Active \<and> state = Inactive then now
            else if state = Active then 0 else snd (unpack_state w))"
  using assms unpack_bound [of w]
  by (cases "unpack_state w") (simp add: next_state_word_def pack_unpack)

lemma cas_loop_last: "cas_loop state now current observed = next_state_word state now (last (current # observed))"
  by (induction observed arbitrary: current) simp_all

text \<open>The history of the updates of one connection, as the abstract specification sees it:
  inactive since the first inactive report after the last active one.\<close>

definition away_since :: "(app_presence_state \<times> u64) list \<Rightarrow> u64" where
  "away_since us =
     (let tail = takeWhile (\<lambda>u. fst u = Inactive) (rev us)
      in if tail = [] \<or> length tail = length us then 0 else snd (last tail))"

definition last_state :: "(app_presence_state \<times> u64) list \<Rightarrow> app_presence_state" where
  "last_state us = (if us = [] then Inactive else fst (last us))"

definition run_updates :: "(app_presence_state \<times> u64) list \<Rightarrow> u64 \<Rightarrow> u64" where
  "run_updates us w = fold (\<lambda>(state, now) w. next_state_word state now w) us w"

lemma away_since_snoc:
  "away_since (us @ [(s, now)]) =
     (if s = Active then 0
      else if us \<noteq> [] \<and> last_state us = Active then now else away_since us)"
proof (cases us rule: rev_cases)
  case Nil
  then show ?thesis by (cases s) (simp_all add: away_since_def)
next
  case (snoc vs v)
  have len: "length (takeWhile P xs) = length xs \<longleftrightarrow> takeWhile P xs = xs"
    for P and xs :: "(app_presence_state \<times> u64) list"
    by (metis takeWhile_eq_take take_all_iff length_take min.cobounded1 order_refl min_def)
  show ?thesis
    using snoc by (cases s; cases "fst v") (auto simp: away_since_def last_state_def Let_def)
qed

lemma run_updates_away_since:
  assumes "\<forall>u \<in> set us. unat (snd u) < 2 ^ 56"
  shows "unpack_state (run_updates us (pack_state Inactive 0)) = (last_state us, away_since us)"
  using assms
proof (induction us rule: rev_induct)
  case Nil
  then show ?case by (simp add: run_updates_def pack_unpack last_state_def away_since_def)
next
  case (snoc u us)
  obtain s now where u: "u = (s, now)" by (cases u)
  from snoc have IH: "unpack_state (run_updates us (pack_state Inactive 0)) = (last_state us, away_since us)"
    and now: "unat now < 2 ^ 56" by (auto simp: u)
  have "run_updates (us @ [u]) (pack_state Inactive 0) =
      next_state_word s now (run_updates us (pack_state Inactive 0))"
    by (simp add: run_updates_def u)
  with IH show ?case
    by (cases s) (auto simp: u unpack_next_state_word [OF now] away_since_snoc last_state_def)
qed

section \<open>Entries of a user under the registry's methods\<close>

lemma map_of_map_pointwise:
  "map_of (map (\<lambda>(u, x). (u, g u x)) kvs) k = map_option (g k) (map_of kvs k)"
  by (induction kvs) auto

lemma entries_of_map_entries [simp]:
  "entries_of (map_entries uid f r) u = (if u = uid then map f (entries_of r u) else entries_of r u)"
  by (auto simp: entries_of_def map_entries_def map_of_map_pointwise split: option.splits)

lemma entries_of_metrics [simp]:
  "entries_of (r\<lparr>rg_metrics := m\<rparr>) u = entries_of r u"
  "entries_of (update_metrics r) u = entries_of r u"
  "rg_next_conn_id (update_metrics r) = rg_next_conn_id r"
  by (simp_all add: entries_of_def update_metrics_def)

lemma next_id_map_entries [simp]: "rg_next_conn_id (map_entries uid f r) = rg_next_conn_id r"
  by (simp add: map_entries_def)

lemma entries_of_retain [simp]:
  "entries_of (retain_entries uid keep r) u =
     (if u = uid then filter keep (entries_of r u) else entries_of r u)"
  by (auto simp: entries_of_def retain_entries_def map_of_map_pointwise split: option.splits)

lemma next_id_retain [simp]: "rg_next_conn_id (retain_entries uid keep r) = rg_next_conn_id r"
  by (simp add: retain_entries_def split: option.split)

lemma entries_of_presence:
  "entries_of (broadcast_presence_to_user uid r) u =
     (if u = uid then map (send_to_entry (WsPresenceUpdate (of_nat (length (entries_of r uid))))) (entries_of r u)
      else entries_of r u)"
  by (auto simp: broadcast_presence_to_user_def entries_of_def map_entries_def map_of_map_pointwise
      split: option.splits)

lemma entries_of_trim:
  "distinct (map fst trims) \<Longrightarrow> entries_of (trim_entries trims r) u =
     (case map_of trims u of None \<Rightarrow> entries_of r u
      | Some ids \<Rightarrow> filter (\<lambda>e. ce_conn_id e \<notin> set ids) (entries_of r u))"
proof (induction trims arbitrary: r)
  case Nil
  then show ?case by simp
next
  case (Cons t trims)
  obtain uid ids where t: "t = (uid, ids)" by (cases t)
  from Cons.prems have "uid \<notin> fst ` set trims" by (simp add: t)
  then have "map_of trims uid = None" by (simp add: map_of_eq_None_iff)
  with Cons show ?case by (auto simp: t split: option.splits)
qed

section \<open>The well-formed registry\<close>

text \<open>
  Keys are in order, no user is listed without a connection, and a connection id was handed
  out once: it is below the counter, and it belongs to one connection of one user.
\<close>

definition ids_of :: "'p registry \<Rightarrow> uid \<Rightarrow> u64 list" where
  "ids_of r u = map ce_conn_id (entries_of r u)"

definition shape_ok :: "(uid \<times> 'e list) list \<Rightarrow> bool" where
  "shape_ok kvs \<longleftrightarrow> ol_sorted kvs \<and> (\<forall>kv \<in> set kvs. snd kv \<noteq> [])"

definition registry_ok :: "'p registry \<Rightarrow> bool" where
  "registry_ok r \<longleftrightarrow> shape_ok (rg_inner r) \<and>
     (\<forall>u. distinct (ids_of r u)) \<and>
     (\<forall>u v. u \<noteq> v \<longrightarrow> set (ids_of r u) \<inter> set (ids_of r v) = {}) \<and>
     (\<forall>u. \<forall>i \<in> set (ids_of r u). i < rg_next_conn_id r)"

lemma keys_map_pointwise: "map fst (map (\<lambda>(u, x). (u, g u x)) kvs) = map fst kvs"
  by (induction kvs) auto

lemma shape_ok_map:
  assumes "shape_ok kvs" and "\<And>u es. es \<noteq> [] \<Longrightarrow> (u, es) \<in> set kvs \<Longrightarrow> g u es \<noteq> []"
  shows "shape_ok (map (\<lambda>(u, es). (u, g u es)) kvs)"
  using assms unfolding shape_ok_def ol_sorted_def keys_map_pointwise by fastforce

lemma shape_ok_map_entries: "shape_ok (rg_inner r) \<Longrightarrow> shape_ok (rg_inner (map_entries uid f r))"
  unfolding map_entries_def by (auto intro!: shape_ok_map split: if_splits)

lemma shape_ok_retain: "shape_ok (rg_inner r) \<Longrightarrow> shape_ok (rg_inner (retain_entries uid keep r))"
proof (cases "map_of (rg_inner r) uid")
  case None
  then show "shape_ok (rg_inner r) \<Longrightarrow> ?thesis" by (simp add: retain_entries_def)
next
  case (Some es)
  assume ok: "shape_ok (rg_inner r)"
  show ?thesis
  proof (cases "filter keep es = []")
    case True
    with Some ok show ?thesis
      by (simp add: retain_entries_def shape_ok_def ol_sorted_delete) (simp add: ol_delete_def)
  next
    case False
    from ok have "ol_sorted (rg_inner r)" by (simp add: shape_ok_def)
    with Some have "(uid, es') \<in> set (rg_inner r) \<Longrightarrow> es' = es" for es'
      by (simp flip: map_of_mem)
    with False have "shape_ok (map (\<lambda>(u, es). (u, if u = uid then filter keep es else es)) (rg_inner r))"
      by (intro shape_ok_map ok) auto
    with Some False show ?thesis by (simp add: retain_entries_def)
  qed
qed

lemma shape_ok_update:
  "shape_ok kvs \<Longrightarrow> (\<And>x. f x \<noteq> []) \<Longrightarrow> shape_ok (ol_update k f kvs)"
proof -
  assume ok: "shape_ok kvs" and f: "\<And>x. f x \<noteq> []"
  have "\<forall>kv \<in> set (ol_update k f kvs). snd kv \<noteq> []"
    using ok f by (induction k f kvs rule: ol_update.induct) (auto simp: shape_ok_def)
  with ok show ?thesis by (simp add: shape_ok_def ol_sorted_update)
qed

lemma shape_ok_presence: "shape_ok (rg_inner r) \<Longrightarrow> shape_ok (rg_inner (broadcast_presence_to_user uid r))"
  by (simp add: broadcast_presence_to_user_def shape_ok_map_entries split: option.split)

lemma ids_of_map_entries [simp]:
  "(\<And>e. ce_conn_id (f e) = ce_conn_id e) \<Longrightarrow> ids_of (map_entries uid f r) u = ids_of r u"
  by (simp add: ids_of_def)

lemma conn_id_simps [simp]:
  "ce_conn_id (send_to_entry m e) = ce_conn_id e"
  "ce_conn_id (deliver m e) = ce_conn_id e"
  "ce_conn_id (notify_unread e) = ce_conn_id e"
  "ce_conn_id (update_app_state_at s now vs e) = ce_conn_id e"
  "ce_conn_id (new_entry i c now) = i"
  by (simp_all add: send_to_entry_def deliver_def notify_unread_def update_app_state_at_def
      new_entry_def)

lemma ids_of_simps [simp]:
  "ids_of (update_metrics r) u = ids_of r u"
  "ids_of (r\<lparr>rg_metrics := m\<rparr>) u = ids_of r u"
  "ids_of (broadcast_presence_to_user uid r) u = ids_of r u"
  by (simp_all add: ids_of_def entries_of_presence)

lemma ids_of_retain:
  "ids_of (retain_entries uid keep r) u =
     (if u = uid then map ce_conn_id (filter keep (entries_of r u)) else ids_of r u)"
  by (simp add: ids_of_def)

lemma next_id_presence [simp]:
  "rg_next_conn_id (broadcast_presence_to_user uid r) = rg_next_conn_id r"
  by (simp add: broadcast_presence_to_user_def split: option.split)

lemma registry_ok_map_entries:
  "(\<And>e. ce_conn_id (f e) = ce_conn_id e) \<Longrightarrow> registry_ok r \<Longrightarrow> registry_ok (map_entries uid f r)"
  by (simp add: registry_ok_def shape_ok_map_entries)

lemma registry_ok_metrics:
  "registry_ok r \<Longrightarrow> registry_ok (r\<lparr>rg_metrics := m\<rparr>)"
  "registry_ok r \<Longrightarrow> registry_ok (update_metrics r)"
  by (simp_all add: registry_ok_def, simp_all add: update_metrics_def)

lemma registry_ok_presence: "registry_ok r \<Longrightarrow> registry_ok (broadcast_presence_to_user uid r)"
  by (simp add: registry_ok_def shape_ok_presence)

lemma registry_ok_retain: "registry_ok r \<Longrightarrow> registry_ok (retain_entries uid keep r)"
proof -
  assume ok: "registry_ok r"
  have sub: "set (ids_of (retain_entries uid keep r) u) \<subseteq> set (ids_of r u)" for u
    by (auto simp: ids_of_def)
  have dist: "distinct (ids_of (retain_entries uid keep r) u)" for u
    using ok by (auto simp: registry_ok_def ids_of_def distinct_map_filter)
  from ok sub dist show ?thesis unfolding registry_ok_def
    by (auto simp: shape_ok_retain dest!: subsetD) blast+
qed

lemma entries_of_register:
  assumes "ol_sorted (rg_inner r)"
  shows "map ce_conn_id (entries_of (snd (register uid client_id now r)) u) =
    ids_of r u @ (if u = uid then [rg_next_conn_id r] else [])"
proof -
  have "entries_of (r\<lparr>rg_next_conn_id := n, rg_inner := ol_update uid
            (\<lambda>es. (case es of None \<Rightarrow> [] | Some es \<Rightarrow> es) @ [e]) (rg_inner r)\<rparr>) v =
        entries_of r v @ (if v = uid then [e] else [])" for n e v
    using assms by (simp add: entries_of_def map_of_ol_update split: option.split)
  then show ?thesis
    by (simp add: register_def Let_def entries_of_presence ids_of_def comp_def)
qed

lemma next_id_register:
  "rg_next_conn_id (snd (register uid client_id now r)) = rg_next_conn_id r + 1"
  by (simp add: register_def Let_def)

lemma shape_ok_register: "shape_ok (rg_inner r) \<Longrightarrow> shape_ok (rg_inner (snd (register uid client_id now r)))"
  unfolding register_def Let_def snd_conv
  by (rule shape_ok_presence) (simp add: update_metrics_def shape_ok_update)

lemma registry_ok_register:
  assumes ok: "registry_ok r" and room: "unat (rg_next_conn_id r) + 1 < 2 ^ 64"
  shows "registry_ok (snd (register uid client_id now r))"
proof -
  let ?r = "snd (register uid client_id now r)"
  have sorted: "ol_sorted (rg_inner r)" using ok by (simp add: registry_ok_def shape_ok_def)
  have ids: "ids_of ?r u = ids_of r u @ (if u = uid then [rg_next_conn_id r] else [])" for u
    by (simp add: ids_of_def [of ?r] entries_of_register [OF sorted])
  have succ: "i < rg_next_conn_id r + 1 \<longleftrightarrow> i \<le> rg_next_conn_id r" for i
    using room by (auto simp: word_less_nat_alt word_le_nat_alt unat_word_ariths)
  have fresh: "rg_next_conn_id r \<notin> set (ids_of r u)" for u
    using ok by (auto simp: registry_ok_def)
  show ?thesis
    unfolding registry_ok_def next_id_register
  proof (intro conjI allI ballI impI)
    show "shape_ok (rg_inner ?r)" using ok by (simp add: registry_ok_def shape_ok_register)
    show "distinct (ids_of ?r u)" for u
      using ok fresh by (simp add: ids registry_ok_def)
    show "set (ids_of ?r u) \<inter> set (ids_of ?r v) = {}" if "u \<noteq> v" for u v
    proof -
      from ok that have "set (ids_of r u) \<inter> set (ids_of r v) = {}" by (simp add: registry_ok_def)
      with fresh that show ?thesis by (auto simp: ids)
    qed
    show "i < rg_next_conn_id r + 1" if "i \<in> set (ids_of ?r u)" for u i
      using ok that by (fastforce simp: ids succ registry_ok_def split: if_splits)
  qed
qed

section \<open>Runs of the registry\<close>

text \<open>
  The methods in any order, interleaved with what the socket tasks do to the shared entries:
  pings and app-state reports, taking a message off a queue, dropping the receiver.
\<close>

datatype 'p registry_op =
    OpRegister uid ustr u64
  | OpRemove uid u64
  | OpBroadcast "uid list" "'p server_ws_message"
  | OpInvalidate "uid list"
  | OpPrune u64 u64
  | OpAppState uid u64 app_presence_state u64 "u64 list"
  | OpReceive uid u64
  | OpClose uid u64

definition on_entry ::
  "uid \<Rightarrow> u64 \<Rightarrow> ('p connection_entry \<Rightarrow> 'p connection_entry) \<Rightarrow> 'p registry \<Rightarrow> 'p registry" where
  "on_entry uid conn_id f = map_entries uid (\<lambda>e. if ce_conn_id e = conn_id then f e else e)"

fun registry_step :: "'p registry_op \<Rightarrow> 'p registry \<Rightarrow> 'p registry" where
  "registry_step (OpRegister uid client_id now) r = snd (register uid client_id now r)"
| "registry_step (OpRemove uid conn_id) r = remove_connection uid conn_id r"
| "registry_step (OpBroadcast uids m) r = broadcast_to_uids uids m r"
| "registry_step (OpInvalidate uids) r = invalidate_unread uids r"
| "registry_step (OpPrune max_age now) r = prune_stale max_age now r"
| "registry_step (OpAppState uid conn_id state now observed) r =
     on_entry uid conn_id (update_app_state_at state now observed) r"
| "registry_step (OpReceive uid conn_id) r =
     on_entry uid conn_id (\<lambda>e. e\<lparr>ce_tx := (ce_tx e)\<lparr>ch_queue := tl (ch_queue (ce_tx e))\<rparr>\<rparr>) r"
| "registry_step (OpClose uid conn_id) r =
     on_entry uid conn_id (\<lambda>e. e\<lparr>ce_tx := (ce_tx e)\<lparr>ch_closed := True\<rparr>\<rparr>) r"

lemma registry_ok_on_entry:
  "(\<And>e. ce_conn_id (f e) = ce_conn_id e) \<Longrightarrow> registry_ok r \<Longrightarrow> registry_ok (on_entry uid conn_id f r)"
  unfolding on_entry_def by (rule registry_ok_map_entries) auto

lemma registry_ok_invalidate: "registry_ok r \<Longrightarrow> registry_ok (invalidate_unread uids r)"
  by (induction uids arbitrary: r) (simp_all add: registry_ok_map_entries)

lemma registry_ok_deliver_all: "registry_ok r \<Longrightarrow> registry_ok (deliver_all m uids r)"
  by (induction uids arbitrary: r)
     (simp_all add: deliver_to_uid_def Let_def registry_ok_metrics registry_ok_map_entries)

lemma registry_ok_trim: "registry_ok r \<Longrightarrow> registry_ok (trim_entries trims r)"
  by (induction trims r rule: trim_entries.induct) (simp_all add: registry_ok_retain)

lemma registry_ok_presence_all: "registry_ok r \<Longrightarrow> registry_ok (broadcast_presence_all uids r)"
  by (induction uids arbitrary: r) (simp_all add: registry_ok_presence)

lemmas registry_ok_intros =
  registry_ok_on_entry registry_ok_invalidate registry_ok_deliver_all registry_ok_trim
  registry_ok_presence_all registry_ok_presence registry_ok_metrics registry_ok_retain
  registry_ok_register

lemma next_id_loops [simp]:
  "rg_next_conn_id (invalidate_unread uids r) = rg_next_conn_id r"
  "rg_next_conn_id (deliver_all m uids r) = rg_next_conn_id r"
  "rg_next_conn_id (trim_entries trims r) = rg_next_conn_id r"
  "rg_next_conn_id (broadcast_presence_all uids r) = rg_next_conn_id r"
proof -
  show "rg_next_conn_id (invalidate_unread uids r) = rg_next_conn_id r"
    by (induction uids arbitrary: r) simp_all
  show "rg_next_conn_id (deliver_all m uids r) = rg_next_conn_id r"
    by (induction uids arbitrary: r) (simp_all add: deliver_to_uid_def Let_def)
  show "rg_next_conn_id (trim_entries trims r) = rg_next_conn_id r"
    by (induction trims r rule: trim_entries.induct) simp_all
  show "rg_next_conn_id (broadcast_presence_all uids r) = rg_next_conn_id r"
    by (induction uids arbitrary: r) simp_all
qed

lemma registry_step_ok:
  assumes "registry_ok r" and "unat (rg_next_conn_id r) + 1 < 2 ^ 64"
  shows "registry_ok (registry_step x r)"
  using assms
  by (cases x)
     (auto simp: remove_connection_def broadcast_to_uids_def prune_stale_def Let_def
           intro!: registry_ok_intros)

lemma registry_step_next:
  assumes "unat (rg_next_conn_id r) + 1 < 2 ^ 64"
  shows "unat (rg_next_conn_id (registry_step x r)) \<le> Suc (unat (rg_next_conn_id r))"
  using assms
  by (cases x)
     (auto simp: next_id_register remove_connection_def broadcast_to_uids_def prune_stale_def
        Let_def on_entry_def unat_word_ariths)

lemma registry_run_ok:
  "registry_ok r \<Longrightarrow> unat (rg_next_conn_id r) + length xs < 2 ^ 64 \<Longrightarrow>
   registry_ok (fold registry_step xs r)"
proof (induction xs arbitrary: r)
  case Nil
  then show ?case by simp
next
  case (Cons x xs)
  then have room: "unat (rg_next_conn_id r) + 1 < 2 ^ 64" by simp
  from Cons.prems registry_step_next [OF room, of x]
  have "unat (rg_next_conn_id (registry_step x r)) + length xs < 2 ^ 64" by simp
  with Cons.IH registry_step_ok [OF Cons.prems(1) room] show ?case by simp
qed

lemma registry_ok_new: "registry_ok registry_new"
  by (simp add: registry_ok_def registry_new_def shape_ok_def ids_of_def entries_of_def)

section \<open>Delivery\<close>

lemma entries_of_invalidate:
  "entries_of (invalidate_unread uids r) u =
     (if u \<in> set uids then map notify_unread (entries_of r u) else entries_of r u)"
proof (induction uids arbitrary: r)
  case Nil
  then show ?case by simp
next
  case (Cons uid uids)
  have "notify_unread (notify_unread e) = notify_unread e" for e :: "'a connection_entry"
    by (simp add: notify_unread_def)
  with Cons show ?case by simp
qed

lemma entries_of_deliver_all:
  "distinct uids \<Longrightarrow> entries_of (deliver_all m uids r) u =
     (if u \<in> set uids then map (deliver m) (entries_of r u) else entries_of r u)"
  by (induction uids arbitrary: r) (auto simp: deliver_to_uid_def Let_def)

definition delivered :: "'p server_ws_message \<Rightarrow> 'p connection_entry \<Rightarrow> 'p connection_entry" where
  "delivered m e =
     e\<lparr>ce_tx := (ce_tx e)\<lparr>ch_queue := ch_queue (ce_tx e) @ (if can_send (ce_tx e) then [m] else [])\<rparr>,
       ce_lagged := ce_lagged e \<or> \<not> can_send (ce_tx e),
       ce_unread_changed := ce_unread_changed e \<or> invalidates_unread m,
       ce_states_changed := ce_states_changed e \<or> invalidates_unread m\<rparr>"

lemma entries_of_broadcast:
  assumes "distinct uids"
  shows "entries_of (broadcast_to_uids uids m r) u =
    (if u \<in> set uids then map (delivered m) (entries_of r u) else entries_of r u)"
proof -
  have "deliver m (notify_unread e) = delivered m e" if "invalidates_unread m" for e
    using that by (simp add: deliver_def delivered_def notify_unread_def send_to_entry_def try_send_def)
  moreover have "deliver m e = delivered m e" if "\<not> invalidates_unread m" for e
    using that by (simp add: deliver_def delivered_def send_to_entry_def try_send_def)
  ultimately show ?thesis
    using assms by (simp add: broadcast_to_uids_def entries_of_deliver_all entries_of_invalidate)
qed

lemma pushed_deliver_all:
  assumes "distinct uids"
  shows "wm_messages_pushed (rg_metrics (deliver_all m uids r)) t =
      wm_messages_pushed (rg_metrics r) t +
      (if t = message_type m
       then sum_list (map (\<lambda>u. count_rows (\<lambda>e. can_send (ce_tx e)) (entries_of r u)) uids) else 0)"
    and "wm_messages_dropped (rg_metrics (deliver_all m uids r)) t =
      wm_messages_dropped (rg_metrics r) t +
      (if t = message_type m
       then sum_list (map (\<lambda>u. count_rows (\<lambda>e. \<not> can_send (ce_tx e)) (entries_of r u)) uids) else 0)"
proof -
  have other: "map (\<lambda>u. count_rows P (entries_of (deliver_to_uid m uid r) u)) us =
      map (\<lambda>u. count_rows P (entries_of r u)) us" if "uid \<notin> set us" for uid us P and r :: "'a registry"
    using that by (auto simp: deliver_to_uid_def Let_def)
  have metrics: "rg_metrics (map_entries uid f r) = rg_metrics r" for uid f and r :: "'a registry"
    by (simp add: map_entries_def)
  from assms show "wm_messages_pushed (rg_metrics (deliver_all m uids r)) t =
      wm_messages_pushed (rg_metrics r) t +
      (if t = message_type m
       then sum_list (map (\<lambda>u. count_rows (\<lambda>e. can_send (ce_tx e)) (entries_of r u)) uids) else 0)"
    by (induction uids arbitrary: r) (simp_all add: other, simp_all add: deliver_to_uid_def Let_def metrics)
  from assms show "wm_messages_dropped (rg_metrics (deliver_all m uids r)) t =
      wm_messages_dropped (rg_metrics r) t +
      (if t = message_type m
       then sum_list (map (\<lambda>u. count_rows (\<lambda>e. \<not> can_send (ce_tx e)) (entries_of r u)) uids) else 0)"
    by (induction uids arbitrary: r) (simp_all add: other, simp_all add: deliver_to_uid_def Let_def metrics)
qed

lemma metrics_invalidate [simp]: "rg_metrics (invalidate_unread uids r) = rg_metrics r"
  by (induction uids arbitrary: r) (simp_all add: map_entries_def)

section \<open>Personal presence\<close>

definition away_entry :: "u64 \<Rightarrow> 'p connection_entry \<Rightarrow> bool" where
  "away_entry now e \<longleftrightarrow>
     (let t = snd (unpack_state (ce_state_and_last_transition_at e))
      in t \<noteq> 0 \<and> saturating_sub now t < away_timeout_secs)"

lemma personal_scan_eq:
  "personal_scan now away es =
     (if \<exists>e \<in> set es. is_fresh now e \<and> entry_app_state e = Active then Some Active
      else if away \<or> (\<exists>e \<in> set es. is_fresh now e \<and> away_entry now e) then Some Inactive
      else None)"
proof (induction es arbitrary: away)
  case Nil
  then show ?case by simp
next
  case (Cons e es)
  obtain st t where w: "unpack_state (ce_state_and_last_transition_at e) = (st, t)"
    by fastforce
  show ?case
    by (simp only: personal_scan.simps Cons.IH)
       (auto simp: w entry_app_state_def away_entry_def)
qed

lemma personal_presence_eq:
  "personal_presence_at uid now r = personal_scan now False (entries_of r uid)"
  by (simp add: personal_presence_at_def entries_of_def split: option.split)

section \<open>Pruning keeps exactly the connections that still ping\<close>

lemma map_of_uids_to_trim:
  assumes "ol_sorted (rg_inner r)"
  shows "map_of (uids_to_trim max_age now r) u =
    (let ids = map ce_conn_id (filter (is_stale max_age now) (entries_of r u))
     in if ids = [] then None else Some ids)"
proof -
  have *: "map_of (filter (\<lambda>(uid, ids). ids \<noteq> []) (map (\<lambda>(uid, es). (uid, g es)) kvs)) u =
      (case map_of kvs u of None \<Rightarrow> None | Some es \<Rightarrow> if g es = [] then None else Some (g es))"
    if "ol_sorted kvs" for g :: "'a connection_entry list \<Rightarrow> u64 list" and kvs
    using that
  proof (induction kvs)
    case Nil
    then show ?case by simp
  next
    case (Cons kv kvs)
    obtain k es where kv: "kv = (k, es)" by (cases kv)
    from Cons.prems have "map_of kvs k = None" by (fastforce simp: kv map_of_eq_None_iff)
    with Cons show ?case by (auto simp: kv)
  qed
  show ?thesis
    using assms by (simp add: uids_to_trim_def * entries_of_def Let_def split: option.split)
qed

lemma distinct_uids_to_trim:
  assumes "ol_sorted (rg_inner r)"
  shows "distinct (map fst (uids_to_trim max_age now r))"
proof -
  have "distinct (map fst (map (\<lambda>(uid, es). (uid, map ce_conn_id (filter (is_stale max_age now) es))) (rg_inner r)))"
    unfolding keys_map_pointwise by (rule ol_sorted_distinct [OF assms])
  then show ?thesis unfolding uids_to_trim_def by (rule distinct_map_filter)
qed

lemma entries_of_prune_trims:
  assumes ok: "registry_ok r"
  shows "entries_of (trim_entries (uids_to_trim max_age now r) r) u =
    filter (\<lambda>e. \<not> is_stale max_age now e) (entries_of r u)"
proof -
  have sorted: "ol_sorted (rg_inner r)" using ok by (simp add: registry_ok_def shape_ok_def)
  have inj: "inj_on ce_conn_id (set (entries_of r u))"
    using ok by (simp add: registry_ok_def ids_of_def distinct_map)
  have "filter (\<lambda>e. ce_conn_id e \<notin> ce_conn_id ` {e \<in> set (entries_of r u). is_stale max_age now e})
      (entries_of r u) = filter (\<lambda>e. \<not> is_stale max_age now e) (entries_of r u)"
    using inj by (intro filter_cong) (auto dest: inj_onD)
  moreover have "filter (is_stale max_age now) (entries_of r u) = [] \<Longrightarrow>
      filter (\<lambda>e. \<not> is_stale max_age now e) (entries_of r u) = entries_of r u"
    by (simp add: filter_empty_conv)
  ultimately show ?thesis
    using distinct_uids_to_trim [OF sorted]
    by (simp add: entries_of_trim map_of_uids_to_trim [OF sorted] Let_def)
qed

lemma ids_of_presence_all [simp]: "ids_of (broadcast_presence_all uids r) u = ids_of r u"
  by (induction uids arbitrary: r) simp_all

lemma is_stale_send [simp]: "is_stale max_age now (send_to_entry m e) = is_stale max_age now e"
  by (simp add: is_stale_def send_to_entry_def)

lemma stale_presence_all:
  "(\<exists>e \<in> set (entries_of (broadcast_presence_all uids r) u). is_stale max_age now e) \<longleftrightarrow>
   (\<exists>e \<in> set (entries_of r u). is_stale max_age now e)"
  by (induction uids arbitrary: r) (simp_all add: entries_of_presence)

lemma registry_ok_prune: "registry_ok r \<Longrightarrow> registry_ok (prune_stale max_age now r)"
  by (auto simp: prune_stale_def Let_def intro!: registry_ok_intros)

text \<open>A registry with one connection, for the examples below.\<close>

definition one_connection :: "unit registry" where
  "one_connection = snd (register 7 [97] 10 registry_new)"

lemma entries_of_one_connection:
  "entries_of one_connection 7 = [send_to_entry (WsPresenceUpdate 1) (new_entry 0 [97] 10)]"
  by (simp add: one_connection_def register_def Let_def entries_of_presence registry_new_def)
     (simp add: entries_of_def)

lemma registry_ok_one_connection: "registry_ok one_connection"
  unfolding one_connection_def
  by (rule registry_ok_register [OF registry_ok_new]) (simp add: registry_new_def)

section \<open>Properties\<close>

text \<open>C25: Whatever the order of registrations, removals, broadcasts, pruning and socket-task
  activity since start-up, the registry stays well formed: a connection id is never handed out
  twice or shared between users, every listed user has a connection, and each id is below the
  counter (the counter has 64 bits, so this is for fewer than \<open>2 ^ 64\<close> operations).\<close>

theorem ws_registry_run_ok:
  assumes "length xs < 2 ^ 64"
  shows "registry_ok (fold registry_step xs registry_new)"
  using assms by (intro registry_run_ok registry_ok_new) (simp add: registry_new_def)

lemma ws_registry_run_ok_witness:
  "registry_ok (fold registry_step
     [OpRegister 7 [97] 10, OpRegister 7 [98] 20, OpBroadcast [7, 8] (WsMessage ()),
      OpPrune 300 315, OpRemove 7 1] registry_new)"
  by (rule ws_registry_run_ok) simp

text \<open>C21: The packed state word and its compare-exchange loop implement the away clock: after
  any sequence of app-state reports (with clocks below \<open>2 ^ 56\<close> seconds) a connection's decoded
  state is the last report, and its decoded time is that of the first inactive report after the
  last active one (0 while active, and before any active report).\<close>

theorem ws_away_clock:
  fixes us :: "(app_presence_state \<times> u64) list"
  assumes "\<forall>u \<in> set us. unat (snd u) < 2 ^ 56"
  shows "unpack_state (ce_state_and_last_transition_at
      (fold (\<lambda>(state, now). update_app_state_at state now []) us (new_entry i c t))) =
    (last_state us, away_since us)"
proof -
  have "ce_state_and_last_transition_at
      (fold (\<lambda>(state, now). update_app_state_at state now []) vs e) =
      run_updates vs (ce_state_and_last_transition_at e)" for vs and e :: "'a connection_entry"
    by (induction vs arbitrary: e) (auto simp: run_updates_def update_app_state_at_def)
  then show ?thesis using run_updates_away_since [OF assms] by (simp add: new_entry_def)
qed

lemma ws_away_clock_witness:
  "unpack_state (ce_state_and_last_transition_at
      (fold (\<lambda>(state, now). update_app_state_at state now [])
        [(Active, 100), (Inactive, 130), (Inactive, 160)] (new_entry 0 [99] 90))) = (Inactive, 130)"
  by (subst ws_away_clock) (simp_all add: last_state_def away_since_def)

text \<open>Under interference the loop is one atomic transition from the value it last observed:
  whatever other writers stored meanwhile, the pair that ends up in the word is this report
  applied to the newest of those values.\<close>

theorem ws_cas_loop_atomic:
  assumes "unat now < 2 ^ 56"
  shows "unpack_state (ce_state_and_last_transition_at (update_app_state_at state now observed e)) =
    (let (previous, since) = unpack_state (last (ce_state_and_last_transition_at e # observed))
     in (state, if state = Active then 0 else if previous = Active then now else since))"
  using unpack_next_state_word [OF assms, of state "last (ce_state_and_last_transition_at e # observed)"]
  by (cases state)
     (simp_all add: update_app_state_at_def cas_loop_last split: prod.split)

lemma ws_cas_loop_atomic_witness:
  "unpack_state (ce_state_and_last_transition_at
      (update_app_state_at Inactive 50 [pack_state Inactive 40] (new_entry 0 [99] 9))) = (Inactive, 40)"
  by (subst ws_cas_loop_atomic) (simp_all add: pack_unpack)

text \<open>A broadcast reaches every connection of every addressed user exactly once: the message
  is appended to the connection's queue, or, when the queue is full or closed, the connection is
  flagged for reconnect calibration; events that change unread counts also set both
  invalidation flags; connections of other users are untouched.\<close>

theorem ws_broadcast_delivery:
  assumes "distinct uids"
  shows "entries_of (broadcast_to_uids uids m r) u =
    (if u \<in> set uids then
       map (\<lambda>e. e\<lparr>ce_tx := (ce_tx e)\<lparr>ch_queue := ch_queue (ce_tx e) @ (if can_send (ce_tx e) then [m] else [])\<rparr>,
              ce_lagged := ce_lagged e \<or> \<not> can_send (ce_tx e),
              ce_unread_changed := ce_unread_changed e \<or> invalidates_unread m,
              ce_states_changed := ce_states_changed e \<or> invalidates_unread m\<rparr>)
         (entries_of r u)
     else entries_of r u)"
  using entries_of_broadcast [OF assms, of m r u] by (simp add: delivered_def)

lemma ws_broadcast_delivery_witness:
  "map (ch_queue \<circ> ce_tx) (entries_of
     (broadcast_to_uids [8, 7] (WsMessage ()) one_connection) 7) =
   [[WsPresenceUpdate 1, WsMessage ()]]"
proof -
  have d: "distinct [8, 7 :: int]" by simp
  show ?thesis
    by (simp add: ws_broadcast_delivery [OF d] entries_of_one_connection)
       (simp add: new_entry_def can_send_def channel_capacity_def send_to_entry_def try_send_def)
qed

text \<open>Every delivery attempt is counted once, under the wire name of the event: pushed for
  the connections with room, dropped for the others.\<close>

theorem ws_broadcast_counted:
  assumes "distinct uids"
  shows "wm_messages_pushed (rg_metrics (broadcast_to_uids uids m r)) (message_type m) +
      wm_messages_dropped (rg_metrics (broadcast_to_uids uids m r)) (message_type m) =
    wm_messages_pushed (rg_metrics r) (message_type m) +
      wm_messages_dropped (rg_metrics r) (message_type m) +
      (\<Sum>u \<leftarrow> uids. length (entries_of r u))"
proof -
  have split: "count_rows P es + count_rows (\<lambda>e. \<not> P e) es = length es"
    for P and es :: "'a connection_entry list"
    by (simp add: count_rows_def sum_length_filter_compl)
  have "(\<Sum>u \<leftarrow> uids. count_rows P (f u)) + (\<Sum>u \<leftarrow> uids. count_rows (\<lambda>e. \<not> P e) (f u)) =
      (\<Sum>u \<leftarrow> uids. length (f u))" for P and f :: "int \<Rightarrow> 'a connection_entry list"
    by (simp add: split flip: sum_list_addf)
  moreover have "(\<Sum>u \<leftarrow> uids. length (entries_of (invalidate_unread vs r) u)) =
      (\<Sum>u \<leftarrow> uids. length (entries_of r u))" for vs
    by (intro arg_cong [where f = sum_list] map_cong) (simp_all add: entries_of_invalidate)
  ultimately show ?thesis
    using assms by (simp add: broadcast_to_uids_def pushed_deliver_all)
qed

lemma ws_broadcast_counted_witness:
  "wm_messages_pushed (rg_metrics (broadcast_to_uids [7] (WsMessage ()) one_connection)) ''message'' +
   wm_messages_dropped (rg_metrics (broadcast_to_uids [7] (WsMessage ()) one_connection)) ''message'' =
   wm_messages_pushed (rg_metrics one_connection) ''message'' +
   wm_messages_dropped (rg_metrics one_connection) ''message'' + 1"
proof -
  have d: "distinct [7 :: int]" by simp
  show ?thesis using ws_broadcast_counted [OF d, of "WsMessage ()" one_connection]
    by (simp add: entries_of_one_connection)
qed

text \<open>Pruning removes exactly the connections whose last ping is older than the limit: the
  survivors keep their order, none of them is stale, the registry stays well formed, and users
  left without a connection are no longer listed.\<close>

theorem ws_prune_exact:
  assumes "registry_ok r"
  shows "ids_of (prune_stale max_age now r) u =
      map ce_conn_id (filter (\<lambda>e. \<not> is_stale max_age now e) (entries_of r u)) \<and>
    (\<forall>e \<in> set (entries_of (prune_stale max_age now r) u). \<not> is_stale max_age now e) \<and>
    registry_ok (prune_stale max_age now r)"
proof -
  have "entries_of (update_metrics (trim_entries (uids_to_trim max_age now r) r)) u =
      filter (\<lambda>e. \<not> is_stale max_age now e) (entries_of r u)"
    using entries_of_prune_trims [OF assms] by simp
  then show ?thesis
    using registry_ok_prune [OF assms]
      stale_presence_all [of "map fst (uids_to_trim max_age now r)"
        "update_metrics (trim_entries (uids_to_trim max_age now r) r)" u max_age now]
    by (simp add: prune_stale_def Let_def) (simp add: ids_of_def)
qed

lemma ws_prune_exact_witness: "ids_of (prune_stale 300 315 one_connection) 7 = []"
  using ws_prune_exact [OF registry_ok_one_connection, of 300 315 7]
  by (simp add: entries_of_one_connection) (simp add: new_entry_def is_stale_def saturating_sub_def)

text \<open>A user's personal presence aggregates the fresh connections: active when one of them is
  active; otherwise away when one of them went inactive less than five minutes ago; otherwise
  nothing. It is only ever shown for users the group counts consider online.\<close>

theorem ws_personal_presence:
  "personal_presence_at uid now r =
     (if list_ex (\<lambda>e. is_fresh now e \<and> entry_app_state e = Active) (entries_of r uid) then Some Active
      else if list_ex (\<lambda>e. is_fresh now e \<and> away_entry now e) (entries_of r uid) then Some Inactive
      else None) \<and>
   (is_online_at uid now r \<or> personal_presence_at uid now r = None)"
  by (auto simp: personal_presence_eq personal_scan_eq is_online_at_def list_ex_iff)

end
