(* ===== verification/Speaking.thy ===== *)
theory Speaking
  imports Ws_Registry
begin

text \<open>
  \<open>backend/src/services/speaking.rs\<close>: speaking restrictions of a group and of its members.
  Every operation below runs in one transaction that holds the chat's advisory lock
  (\<open>lock_chat\<close>), so an operation is one atomic step from \<open>tables\<close> to \<open>tables\<close>; a failing
  transaction changes nothing.
\<close>

section \<open>Modes and actions\<close>

datatype speaking_action = ChatMessage | CreateThread | ThreadReply

definition effective_mode :: "group_role \<Rightarrow> speaking_mode \<Rightarrow> speaking_mode \<Rightarrow> speaking_mode" where
  "effective_mode role group_mode member_mode =
     (if role = Admin then Unrestricted else max group_mode member_mode)"

definition allows :: "speaking_mode \<Rightarrow> speaking_action \<Rightarrow> bool" where
  "allows mode action =
     (case mode of
        Unrestricted \<Rightarrow> True
      | ThreadsOnly \<Rightarrow> action \<noteq> ChatMessage
      | RepliesOnly \<Rightarrow> action = ThreadReply
      | ReadOnly \<Rightarrow> False)"

text \<open>\<open>(chat_id ^ (chat_id >> 32)) as i32\<close>; the shift of an \<open>i64\<close> copies the sign bit.\<close>

definition lock_key :: "64 word \<Rightarrow> 32 word" where
  "lock_key chat_id = ucast (chat_id XOR signed_drop_bit 32 chat_id)"

section \<open>Operations\<close>

definition joined_chats :: "tables \<Rightarrow> (group_row \<times> membership_row) list" where
  "joined_chats db =
     concat (map (\<lambda>g. map (Pair g) (filter (\<lambda>m. gm_chat_id m = g_id g) (memberships db))) (groups db))"

definition joined_member ::
  "tables \<Rightarrow> snowflake \<Rightarrow> uid \<Rightarrow> (group_row \<times> membership_row) option" where
  "joined_member db chat_id uid =
     first_row (\<lambda>(g, m). g_id g = chat_id \<and> gm_uid m = uid) (joined_chats db)"

definition require_edit :: "tables \<Rightarrow> message_row \<Rightarrow> uid \<Rightarrow> app_error + unit" where
  "require_edit db message uid =
     (let action = (if m_reply_root_id message \<noteq> None then ThreadReply else ChatMessage)
      in and_then (ok_or (joined_member db (m_chat_id message) uid)
            (Forbidden ''Not a member of this chat'')) (\<lambda>(g, m).
         let mode = effective_mode (gm_role m) (g_speaking_mode g) (gm_speaking_mode m)
         in if g_kind g = Group \<and> \<not> allows mode action
            then Inl (SpeakingRestricted mode) else Inr ()))"

definition require_group_admin :: "tables \<Rightarrow> snowflake \<Rightarrow> uid \<Rightarrow> app_error + speaking_mode" where
  "require_group_admin db chat_id uid =
     and_then (ok_or (joined_member db chat_id uid) (Forbidden ''Not a member of this chat''))
       (\<lambda>(g, m).
         if g_kind g = Dm
         then Inl (BadRequest ''Speaking restrictions are not supported in DM chats'')
         else if gm_role m \<noteq> Admin then Inl (Forbidden ''Admin role required'')
         else Inr (g_speaking_mode g))"

definition update_group_mode ::
  "snowflake \<Rightarrow> uid \<Rightarrow> speaking_mode \<Rightarrow> tables \<Rightarrow>
   app_error + group_speaking_mode_response \<times> tables" where
  "update_group_mode chat_id requester_uid mode db =
     and_then (require_group_admin db chat_id requester_uid) (\<lambda>_.
       Inr (\<lparr>gsm_chat_id = chat_id, gsm_speaking_mode = mode\<rparr>,
            db\<lparr>groups := update_rows (\<lambda>g. g_id g = chat_id)
                 (\<lambda>g. g\<lparr>g_speaking_mode := mode\<rparr>) (groups db)\<rparr>))"

definition member_state ::
  "snowflake \<Rightarrow> uid \<Rightarrow> group_role \<Rightarrow> speaking_mode \<Rightarrow> speaking_mode \<Rightarrow>
   member_speaking_mode_response" where
  "member_state chat_id uid role group_mode mode =
     \<lparr>msm_chat_id = chat_id, msm_uid = uid, msm_role = role, msm_speaking_mode = mode,
      msm_group_speaking_mode = group_mode,
      msm_effective_speaking_mode = effective_mode role group_mode mode\<rparr>"

definition find_membership :: "tables \<Rightarrow> snowflake \<Rightarrow> uid \<Rightarrow> membership_row option" where
  "find_membership db chat_id uid = first_row (is_membership_of (chat_id, uid)) (memberships db)"

definition update_member_mode ::
  "snowflake \<Rightarrow> uid \<Rightarrow> uid \<Rightarrow> speaking_mode \<Rightarrow> tables \<Rightarrow>
   app_error + member_speaking_mode_response \<times> tables" where
  "update_member_mode chat_id requester_uid target_uid mode db =
     and_then (require_group_admin db chat_id requester_uid) (\<lambda>group_mode.
     and_then (ok_or (find_membership db chat_id target_uid) (NotFound ''Member not found''))
       (\<lambda>m.
         if gm_role m = Admin
         then Inl (BadRequest ''Administrators cannot have personal speaking restrictions'')
         else Inr (member_state chat_id target_uid (gm_role m) group_mode mode,
                db\<lparr>memberships := update_rows (is_membership_of (chat_id, target_uid))
                     (\<lambda>m. m\<lparr>gm_speaking_mode := mode\<rparr>) (memberships db)\<rparr>)))"

definition update_member_role ::
  "snowflake \<Rightarrow> uid \<Rightarrow> uid \<Rightarrow> group_role \<Rightarrow> tables \<Rightarrow> app_error + group_membership \<times> tables" where
  "update_member_role chat_id requester_uid target_uid role db =
     and_then (require_group_admin db chat_id requester_uid) (\<lambda>_.
       if requester_uid = target_uid then Inl (BadRequest ''Cannot change your own role'')
       else and_then (ok_or (find_membership db chat_id target_uid) (NotFound ''Member not found''))
         (\<lambda>member.
           let mode = (if role = Admin then Unrestricted else gm_speaking_mode member);
               set_row = (\<lambda>m. m\<lparr>gm_role := role, gm_speaking_mode := mode\<rparr>)
           in Inr (group_membership.truncate (set_row member),
                db\<lparr>memberships := update_rows (is_membership_of (chat_id, target_uid))
                     set_row (memberships db)\<rparr>)))"

section \<open>Broadcasts\<close>

definition member_uids :: "tables \<Rightarrow> snowflake \<Rightarrow> (membership_row \<Rightarrow> bool) \<Rightarrow> uid list" where
  "member_uids db chat_id P =
     map gm_uid (select_rows (\<lambda>m. gm_chat_id m = chat_id \<and> P m) (memberships db))"

definition broadcast_group_mode ::
  "tables \<Rightarrow> snowflake \<Rightarrow> 'p registry \<Rightarrow> app_error + 'p registry" where
  "broadcast_group_mode db chat_id r =
     and_then (ok_or (first_row (\<lambda>g. g_id g = chat_id) (groups db)) (DbQuery DbNotFound)) (\<lambda>g.
       Inr (broadcast_to_uids (member_uids db chat_id (\<lambda>_. True))
              (WsGroupSpeakingModeChanged
                 \<lparr>gsm_chat_id = chat_id, gsm_speaking_mode = g_speaking_mode g\<rparr>) r))"

definition broadcast_member_mode ::
  "tables \<Rightarrow> snowflake \<Rightarrow> uid \<Rightarrow> 'p registry \<Rightarrow> app_error + 'p registry" where
  "broadcast_member_mode db chat_id uid r =
     (case joined_member db chat_id uid of
        None \<Rightarrow> Inr r
      | Some (g, m) \<Rightarrow>
          Inr (broadcast_to_uids
                 (member_uids db chat_id (\<lambda>m. gm_role m = Admin \<or> gm_uid m = uid))
                 (WsMemberSpeakingModeChanged
                    (member_state chat_id uid (gm_role m) (g_speaking_mode g) (gm_speaking_mode m))) r))"

section \<open>Reading one member\<close>

definition chats_ok :: "tables \<Rightarrow> bool" where
  "chats_ok db \<longleftrightarrow> distinct_keys g_id (groups db) \<and> distinct_keys membership_key (memberships db)"

lemma joined_member_Some:
  "joined_member db chat_id uid = Some (g, m) \<Longrightarrow>
   g \<in> set (groups db) \<and> g_id g = chat_id \<and> m \<in> set (memberships db) \<and>
   gm_chat_id m = chat_id \<and> gm_uid m = uid"
  by (auto simp: joined_member_def joined_chats_def dest!: first_row_Some)

lemma joined_member_None:
  "joined_member db chat_id uid = None \<longleftrightarrow>
   (\<forall>g \<in> set (groups db). g_id g = chat_id \<longrightarrow>
      (\<forall>m \<in> set (memberships db). \<not> (gm_chat_id m = chat_id \<and> gm_uid m = uid)))"
  by (auto simp: joined_member_def joined_chats_def first_row_None)

lemma joined_member_iff:
  assumes "chats_ok db"
  shows "joined_member db chat_id uid = Some (g, m) \<longleftrightarrow>
    g \<in> set (groups db) \<and> g_id g = chat_id \<and> m \<in> set (memberships db) \<and>
    membership_key m = (chat_id, uid)"
proof
  assume "joined_member db chat_id uid = Some (g, m)"
  then show "g \<in> set (groups db) \<and> g_id g = chat_id \<and> m \<in> set (memberships db) \<and>
      membership_key m = (chat_id, uid)"
    by (auto simp: membership_key_def dest: joined_member_Some)
next
  assume *: "g \<in> set (groups db) \<and> g_id g = chat_id \<and> m \<in> set (memberships db) \<and>
      membership_key m = (chat_id, uid)"
  then have "joined_member db chat_id uid \<noteq> None"
    by (auto simp: joined_member_None membership_key_def)
  then obtain g' m' where j: "joined_member db chat_id uid = Some (g', m')" by auto
  from joined_member_Some [OF j]
  have in': "g' \<in> set (groups db)" "g_id g' = g_id g" "m' \<in> set (memberships db)"
    "membership_key m' = membership_key m"
    using * by (auto simp: membership_key_def)
  have "g' = g" and "m' = m"
    using assms * in' distinct_keys_eq [of g_id "groups db" g' g]
      distinct_keys_eq [of membership_key "memberships db" m' m]
    by (auto simp: chats_ok_def)
  with j show "joined_member db chat_id uid = Some (g, m)" by simp
qed

lemma find_membership_iff:
  "chats_ok db \<Longrightarrow>
   find_membership db chat_id uid = Some m \<longleftrightarrow> m \<in> set (memberships db) \<and> membership_key m = (chat_id, uid)"
  by (simp add: find_membership_def chats_ok_def membership_table.find_unique)

lemma require_group_admin_Inr [result_simps]:
  "require_group_admin db chat_id uid = Inr mode \<longleftrightarrow>
   (\<exists>g m. joined_member db chat_id uid = Some (g, m) \<and> g_kind g = Group \<and> gm_role m = Admin \<and>
      mode = g_speaking_mode g)"
proof (cases "joined_member db chat_id uid")
  case None
  then show ?thesis by (simp add: require_group_admin_def)
next
  case (Some gm)
  then show ?thesis
    by (cases gm; cases "g_kind (fst gm)") (auto simp: require_group_admin_def)
qed

section \<open>The invariant\<close>

text \<open>The unique keys and the two \<open>CHECK\<close> constraints of the migration
  \<open>add_group_speaking_modes\<close>.\<close>

definition modes_ok :: "tables \<Rightarrow> bool" where
  "modes_ok db \<longleftrightarrow> chats_ok db \<and>
     (\<forall>g \<in> set (groups db). g_kind g = Dm \<longrightarrow> g_speaking_mode g = Unrestricted) \<and>
     (\<forall>m \<in> set (memberships db). gm_role m = Admin \<longrightarrow> gm_speaking_mode m = Unrestricted)"

datatype speaking_op =
    SetGroupMode snowflake uid speaking_mode
  | SetMemberMode snowflake uid uid speaking_mode
  | SetMemberRole snowflake uid uid group_role

fun speaking_exec :: "speaking_op \<Rightarrow> tables \<Rightarrow> app_error + unit \<times> tables" where
  "speaking_exec (SetGroupMode c u mode) db = map_sum id (\<lambda>(_, db'). ((), db')) (update_group_mode c u mode db)"
| "speaking_exec (SetMemberMode c u t mode) db =
     map_sum id (\<lambda>(_, db'). ((), db')) (update_member_mode c u t mode db)"
| "speaking_exec (SetMemberRole c u t role) db =
     map_sum id (\<lambda>(_, db'). ((), db')) (update_member_role c u t role db)"

lemma update_group_mode_ok:
  assumes "modes_ok db" and "update_group_mode c u mode db = Inr (resp, db')"
  shows "modes_ok db'"
proof -
  obtain g m where g: "joined_member db c u = Some (g, m)" "g_kind g = Group"
    and db': "db' = db\<lparr>groups := update_rows (\<lambda>g. g_id g = c) (\<lambda>g. g\<lparr>g_speaking_mode := mode\<rparr>) (groups db)\<rparr>"
    using assms(2) by (auto simp: update_group_mode_def result_simps)
  have "g_kind g' = Group" if "g' \<in> set (groups db)" "g_id g' = c" for g'
    using that g joined_member_Some [OF g(1)] assms(1)
      distinct_keys_eq [of g_id "groups db" g' g]
    by (auto simp: modes_ok_def chats_ok_def)
  with assms(1) show ?thesis
    by (auto simp: modes_ok_def chats_ok_def db' row_simps distinct_keys_update)
qed

lemma update_membership_ok:
  assumes "modes_ok db" and "\<And>m. membership_key (f m) = membership_key m"
    and "\<And>m. m \<in> set (memberships db) \<Longrightarrow> P m \<Longrightarrow> gm_role (f m) = Admin \<Longrightarrow>
      gm_speaking_mode (f m) = Unrestricted"
  shows "modes_ok (db\<lparr>memberships := update_rows P f (memberships db)\<rparr>)"
  using assms by (auto simp: modes_ok_def chats_ok_def row_simps distinct_keys_update)

lemma update_member_mode_ok:
  assumes "modes_ok db" and "update_member_mode c u t mode db = Inr (resp, db')"
  shows "modes_ok db'"
proof -
  obtain m where m: "find_membership db c t = Some m" "gm_role m \<noteq> Admin"
    and db': "db' = db\<lparr>memberships := update_rows (is_membership_of (c, t))
        (\<lambda>m. m\<lparr>gm_speaking_mode := mode\<rparr>) (memberships db)\<rparr>"
    using assms(2) by (auto simp: update_member_mode_def result_simps split: if_splits)
  have ok: "chats_ok db" using assms(1) by (simp add: modes_ok_def)
  have "m' = m" if "m' \<in> set (memberships db)" "is_membership_of (c, t) m'" for m'
    using that m(1) ok distinct_keys_eq [of membership_key "memberships db" m' m]
    by (simp add: find_membership_iff membership_table.matches_iff chats_ok_def)
  with m(2) assms(1) show ?thesis
    by (auto simp: db' membership_key_def intro!: update_membership_ok)
qed

lemma update_member_role_Inr:
  "update_member_role c u t role db = Inr (resp, db') \<longleftrightarrow>
   (\<exists>mode m. require_group_admin db c u = Inr mode \<and> u \<noteq> t \<and> find_membership db c t = Some m \<and>
      resp = group_membership.truncate (m\<lparr>gm_role := role,
        gm_speaking_mode := if role = Admin then Unrestricted else gm_speaking_mode m\<rparr>) \<and>
      db' = db\<lparr>memberships := update_rows (is_membership_of (c, t))
        (\<lambda>x. x\<lparr>gm_role := role,
          gm_speaking_mode := if role = Admin then Unrestricted else gm_speaking_mode m\<rparr>)
        (memberships db)\<rparr>)"
  by (cases "require_group_admin db c u"; cases "find_membership db c t")
     (auto simp: update_member_role_def Let_def)

lemma update_member_role_ok:
  assumes "modes_ok db" and "update_member_role c u t role db = Inr (resp, db')"
  shows "modes_ok db'"
proof -
  obtain m :: membership_row where
    db': "db' = db\<lparr>memberships := update_rows (is_membership_of (c, t))
        (\<lambda>x. x\<lparr>gm_role := role,
          gm_speaking_mode := if role = Admin then Unrestricted else gm_speaking_mode m\<rparr>)
        (memberships db)\<rparr>"
    using assms(2) unfolding update_member_role_Inr by (elim exE conjE) (rule that)
  show ?thesis
    unfolding db' by (rule update_membership_ok [OF assms(1)]) (simp_all add: membership_key_def)
qed

lemma speaking_exec_ok:
  "modes_ok db \<Longrightarrow> speaking_exec x db = Inr (r, db') \<Longrightarrow> modes_ok db'"
  by (cases x)
     (auto simp: map_sum_def split: sum.splits
       dest: update_group_mode_ok update_member_mode_ok update_member_role_ok)

interpretation speaking: guarded_machine speaking_exec modes_ok
  by unfold_locales (rule speaking_exec_ok)

section \<open>Properties\<close>

text \<open>A group (chat 1) with the admin 10 and the restricted member 20, and a direct chat.\<close>

definition sample_member :: "snowflake \<Rightarrow> uid \<Rightarrow> group_role \<Rightarrow> speaking_mode \<Rightarrow> membership_row" where
  "sample_member chat uid role mode =
     (membership_row_of 0 \<lparr>ngm_chat_id = chat, ngm_uid = uid, ngm_role = role, ngm_joined_at = 0,
        ngm_join_reason = JoinOther, ngm_join_reason_extra = None,
        ngm_last_read_message_id = None\<rparr>)\<lparr>gm_speaking_mode := mode\<rparr>"

definition sample_group :: "snowflake \<Rightarrow> group_kind \<Rightarrow> speaking_mode \<Rightarrow> group_row" where
  "sample_group chat kind mode =
     (group_row_of \<lparr>ng_id = chat, ng_name = [], ng_description = None, ng_avatar_image_id = None,
        ng_created_at = 0, ng_visibility = Public, ng_kind = kind, ng_dm_uid1 = None,
        ng_dm_uid2 = None\<rparr>)\<lparr>g_speaking_mode := mode\<rparr>"

definition sample_chats :: tables where
  "sample_chats = empty_tables
     \<lparr>groups := [sample_group 1 Group ThreadsOnly, sample_group 2 Dm Unrestricted],
      memberships := [sample_member 1 10 Admin Unrestricted, sample_member 1 20 Member ReadOnly,
        sample_member 2 20 Member Unrestricted]\<rparr>"

lemmas sample_simps = sample_chats_def sample_group_def sample_member_def empty_tables_def
  group_row_of_def membership_row_of_def

lemma modes_ok_sample: "modes_ok sample_chats"
  by (simp add: modes_ok_def chats_ok_def distinct_keys_def membership_key_def sample_simps)

lemma joined_sample:
  "joined_member sample_chats 1 10 = Some (sample_group 1 Group ThreadsOnly, sample_member 1 10 Admin Unrestricted)"
  "joined_member sample_chats 1 20 = Some (sample_group 1 Group ThreadsOnly, sample_member 1 20 Member ReadOnly)"
  by (simp_all add: joined_member_def joined_chats_def sample_simps)

text \<open>The restriction lattice: an administrator may do anything; any other member may do
  exactly what both the group's mode and the personal mode allow; and a stricter mode never
  allows more.\<close>

theorem effective_mode_meets_both:
  "allows (effective_mode Admin group_mode member_mode) action \<and>
   (allows (effective_mode Member group_mode member_mode) action \<longleftrightarrow>
      allows group_mode action \<and> allows member_mode action) \<and>
   allows (max group_mode member_mode) action \<le> allows group_mode action"
  by (cases group_mode; cases member_mode; cases action)
     (simp_all add: effective_mode_def allows_def max_def less_eq_speaking_mode_def)

text \<open>C24: Whatever requests administrators and others send, in any order, the restrictions stay
  well formed: no row is duplicated, direct chats stay unrestricted, and no administrator has a
  personal restriction, so the migration's \<open>CHECK\<close> constraints never fire.\<close>

theorem speaking_run_ok:
  assumes "modes_ok db"
  shows "modes_ok (run_ops speaking_exec xs db)"
  using assms by (rule speaking.run_inv)

lemma speaking_run_ok_witness:
  "modes_ok (run_ops speaking_exec
     [SetMemberMode 1 10 20 RepliesOnly, SetMemberRole 1 10 20 Admin, SetGroupMode 2 20 ReadOnly]
     sample_chats)"
  by (rule speaking_run_ok [OF modes_ok_sample])

lemma find_membership_update:
  assumes "\<And>m. membership_key (f m) = membership_key m"
  shows "find_membership (db\<lparr>memberships := update_rows (is_membership_of k) f (memberships db)\<rparr>) c u =
    (if k = (c, u) then map_option f (find_membership db c u) else find_membership db c u)"
  using membership_table.find_update [of f "(c, u)" k "memberships db"] assms
  by (auto simp: find_membership_def)

text \<open>Promotion clears the personal limit for good: a member who is promoted and later
  demoted (by whatever administrators) comes back unrestricted, whatever limit was set before.\<close>

theorem demotion_never_revives_limit:
  assumes "update_member_role c u1 t Admin db = Inr (resp1, db1)"
    and "update_member_role c u2 t Member db1 = Inr (resp2, db2)"
  shows "gm_speaking_mode resp2 = Unrestricted \<and>
    map_option (\<lambda>m. (gm_role m, gm_speaking_mode m)) (find_membership db2 c t) =
      Some (Member, Unrestricted)"
proof -
  obtain m where m: "find_membership db c t = Some m" and
    db1: "db1 = db\<lparr>memberships := update_rows (is_membership_of (c, t))
      (\<lambda>x. x\<lparr>gm_role := Admin, gm_speaking_mode := Unrestricted\<rparr>) (memberships db)\<rparr>"
    using assms(1) unfolding update_member_role_Inr by auto
  have m1: "find_membership db1 c t = Some (m\<lparr>gm_role := Admin, gm_speaking_mode := Unrestricted\<rparr>)"
    unfolding db1 by (subst find_membership_update) (simp_all add: membership_key_def m)
  with assms(2) have
    db2: "db2 = db1\<lparr>memberships := update_rows (is_membership_of (c, t))
      (\<lambda>x. x\<lparr>gm_role := Member, gm_speaking_mode := Unrestricted\<rparr>) (memberships db1)\<rparr>"
    and resp2: "gm_speaking_mode resp2 = Unrestricted"
    unfolding update_member_role_Inr by (auto simp: group_membership.defs)
  show ?thesis
    unfolding db2 by (subst find_membership_update) (simp_all add: membership_key_def m1 resp2)
qed

lemma demotion_never_revives_limit_witness:
  "map_option gm_speaking_mode (find_membership (run_ops speaking_exec
     [SetMemberRole 1 10 20 Admin, SetMemberRole 1 10 20 Member] sample_chats) 1 20) = Some Unrestricted"
proof -
  let ?step = "\<lambda>role db. update_member_role 1 10 20 role db"
  obtain r1 d1 where 1: "?step Admin sample_chats = Inr (r1, d1)"
    by (simp add: update_member_role_def require_group_admin_def joined_sample Let_def)
       (simp add: find_membership_def is_membership_of_def sample_simps)
  obtain r2 d2 where 2: "?step Member d1 = Inr (r2, d2)"
    using 1 by (simp add: update_member_role_def require_group_admin_def joined_sample Let_def)
       (auto simp: find_membership_def is_membership_of_def joined_member_def joined_chats_def
          update_rows_def sample_simps)
  from demotion_never_revives_limit [OF 1 2] show ?thesis by (auto simp: 1 2)
qed

text \<open>An edit is accepted exactly for members, in a direct chat always and in a group when the
  effective mode allows what the persisted message is (a thread reply or a chat message, never
  what the request claims); a stranger and a restricted member get different errors, and the
  latter carries the effective mode.\<close>

theorem require_edit_exact:
  assumes "chats_ok db"
  defines "member_of \<equiv> \<lambda>msg uid g m. g \<in> set (groups db) \<and> g_id g = m_chat_id msg \<and>
      m \<in> set (memberships db) \<and> membership_key m = (m_chat_id msg, uid)"
    and "mode_of \<equiv> \<lambda>g m. effective_mode (gm_role m) (g_speaking_mode g) (gm_speaking_mode m)"
    and "action \<equiv> \<lambda>msg. if m_reply_root_id msg = None then ChatMessage else ThreadReply"
  shows "(require_edit db msg uid = Inr () \<longleftrightarrow>
      (\<exists>g m. member_of msg uid g m \<and> (g_kind g = Dm \<or> allows (mode_of g m) (action msg)))) \<and>
    (require_edit db msg uid = Inl (Forbidden ''Not a member of this chat'') \<longleftrightarrow>
      \<not> (\<exists>g m. member_of msg uid g m)) \<and>
    (require_edit db msg uid = Inl (SpeakingRestricted mode) \<longleftrightarrow>
      (\<exists>g m. member_of msg uid g m \<and> g_kind g = Group \<and> mode = mode_of g m \<and>
        \<not> allows mode (action msg)))"
proof -
  have iff: "member_of msg uid g m \<longleftrightarrow> joined_member db (m_chat_id msg) uid = Some (g, m)" for g m
    using joined_member_iff [OF assms(1)] by (simp add: member_of_def)
  show ?thesis
  proof (cases "joined_member db (m_chat_id msg) uid")
    case None
    then show ?thesis by (simp add: iff require_edit_def)
  next
    case (Some gm)
    obtain g m where gm: "gm = (g, m)" by (cases gm)
    have "require_edit db msg uid =
        (if g_kind g = Group \<and> \<not> allows (mode_of g m) (action msg)
         then Inl (SpeakingRestricted (mode_of g m)) else Inr ())"
      using Some by (cases "m_reply_root_id msg")
        (simp_all add: gm require_edit_def Let_def mode_of_def action_def)
    with Some show ?thesis by (cases "g_kind g") (auto simp: iff gm)
  qed
qed

lemma chats_ok_sample: "chats_ok sample_chats"
  using modes_ok_sample by (simp add: modes_ok_def)

definition sample_message :: message_row where
  "sample_message = \<lparr>m_id = 5, m_message = None, m_message_type = Text, m_reply_to_id = None,
     m_reply_root_id = None, m_client_generated_id = [], m_sender_uid = 20, m_chat_id = 1,
     m_created_at = 0, m_updated_at = None, m_deleted_at = None, m_has_attachments = False,
     m_has_thread = False, m_has_reactions = False, m_sticker_id = None, m_is_published = True,
     m_transcode_status = TranscodeNone, m_forwarded_bundle_id = None,
     m_forwarded_from_message_id = None, m_system_kind = None\<rparr>"

lemma require_edit_exact_witness:
  "require_edit sample_chats sample_message 20 = Inl (SpeakingRestricted ReadOnly)"
  by (subst require_edit_exact [OF chats_ok_sample],
      rule exI [of _ "sample_group 1 Group ThreadsOnly"],
      rule exI [of _ "sample_member 1 20 Member ReadOnly"])
     (simp add: sample_simps sample_message_def membership_key_def effective_mode_def allows_def
       max_def less_eq_speaking_mode_def)

text \<open>A member-mode announcement goes to the administrators and the member concerned, to each
  of their connections with room, and carries the mode in force in the database at that time,
  not the one that was requested; a member who was removed meanwhile is not announced.\<close>

theorem member_mode_announced:
  assumes "chats_ok db"
  shows "\<exists>r'. broadcast_member_mode db c u r = Inr r' \<and>
    map (ch_queue \<circ> ce_tx) (entries_of r' v) =
    map (\<lambda>e. ch_queue (ce_tx e) @
      (case joined_member db c u of
         Some (g, m) \<Rightarrow>
           if can_send (ce_tx e) \<and> (\<exists>x \<in> set (memberships db). membership_key x = (c, v) \<and>
               (gm_role x = Admin \<or> v = u))
           then [WsMemberSpeakingModeChanged (member_state c u (gm_role m) (g_speaking_mode g)
             (gm_speaking_mode m))] else []
       | None \<Rightarrow> [])) (entries_of r v)"
proof (cases "joined_member db c u")
  case None
  then show ?thesis by (simp add: broadcast_member_mode_def)
next
  case (Some gm)
  obtain g m where gm: "gm = (g, m)" by (cases gm)
  let ?uids = "member_uids db c (\<lambda>m. gm_role m = Admin \<or> gm_uid m = u)"
  have "inj_on gm_uid {m \<in> set (memberships db). gm_chat_id m = c}"
    using assms by (auto intro!: inj_onI dest: distinct_keys_eq simp: chats_ok_def membership_key_def)
  moreover have "distinct (memberships db)"
    using assms by (auto simp: chats_ok_def distinct_keys_def distinct_map)
  ultimately have "distinct ?uids"
    by (auto simp: member_uids_def select_rows_def distinct_map intro: inj_on_subset)
  moreover have "v \<in> set ?uids \<longleftrightarrow> (\<exists>x \<in> set (memberships db). membership_key x = (c, v) \<and>
      (gm_role x = Admin \<or> v = u))"
    by (auto simp: member_uids_def row_simps membership_key_def)
  ultimately show ?thesis using Some
    by (simp add: gm broadcast_member_mode_def entries_of_broadcast delivered_def)
qed

lemma member_mode_announced_witness:
  "\<exists>r'. broadcast_member_mode (sample_chats\<lparr>memberships := sample_member 1 7 Member ReadOnly #
        memberships sample_chats\<rparr>) 1 7 one_connection = Inr r' \<and>
     map (ch_queue \<circ> ce_tx) (entries_of r' 7) =
       [[WsPresenceUpdate 1, WsMemberSpeakingModeChanged (member_state 1 7 Member ThreadsOnly ReadOnly)]]"
proof -
  let ?db = "sample_chats\<lparr>memberships := sample_member 1 7 Member ReadOnly # memberships sample_chats\<rparr>"
  have ok: "chats_ok ?db"
    by (simp add: chats_ok_def distinct_keys_def membership_key_def sample_simps)
  have j: "joined_member ?db 1 7 = Some (sample_group 1 Group ThreadsOnly, sample_member 1 7 Member ReadOnly)"
    by (simp add: joined_member_def joined_chats_def sample_simps)
  show ?thesis
    using member_mode_announced [OF ok, of 1 7 one_connection 7] unfolding j
    by (simp add: entries_of_one_connection)
       (simp add: new_entry_def can_send_def channel_capacity_def send_to_entry_def try_send_def
          sample_simps membership_key_def)
qed

text \<open>The advisory lock key is the exclusive or of the two halves of the chat id, so the
  operations on one chat always contend for the same lock.\<close>

theorem lock_key_xor_halves:
  "lock_key chat_id = ucast chat_id XOR ucast (drop_bit 32 chat_id)"
  by (rule bit_word_eqI)
     (auto simp: lock_key_def bit_simps)

end
