(* ===== verification/Social.thy ===== *)
theory Social
  imports Models
begin

text \<open>
  \<open>backend/src/services/social.rs\<close>, the parts that are about a pair of users: friendships and
  their per-friend overrides, blocks, the gates for direct messages, the account settings on
  the \<open>user_extra\<close> row, and \<open>peer_relationships\<close>. Friend requests are in \<open>Friend_Requests\<close>.
\<close>

section \<open>Pairs\<close>

definition canonical_pair :: "uid \<Rightarrow> uid \<Rightarrow> uid \<times> uid" where
  "canonical_pair a b = (if a < b then (a, b) else (b, a))"

definition friendship_key :: "friendship_row \<Rightarrow> uid \<times> uid" where
  "friendship_key r = (fs_uid1 r, fs_uid2 r)"

definition is_friendship_of :: "uid \<times> uid \<Rightarrow> friendship_row \<Rightarrow> bool" where
  "is_friendship_of p r \<longleftrightarrow> fs_uid1 r = fst p \<and> fs_uid2 r = snd p"

definition block_key :: "block \<Rightarrow> uid \<times> uid" where
  "block_key r = (bl_blocker_uid r, bl_blocked_uid r)"

definition is_block_of :: "uid \<times> uid \<Rightarrow> block \<Rightarrow> bool" where
  "is_block_of p r \<longleftrightarrow> bl_blocker_uid r = fst p \<and> bl_blocked_uid r = snd p"

interpretation friendship_table: keyed_table friendship_key is_friendship_of
  by unfold_locales (auto simp: friendship_key_def is_friendship_of_def)

interpretation block_table: keyed_table block_key is_block_of
  by unfold_locales (auto simp: block_key_def is_block_of_def)

definition are_mutual_friends :: "tables \<Rightarrow> uid \<Rightarrow> uid \<Rightarrow> bool" where
  "are_mutual_friends db a b =
     (0 < count_rows (is_friendship_of (canonical_pair a b)) (friendships db))"

definition is_blocked_either_direction :: "tables \<Rightarrow> uid \<Rightarrow> uid \<Rightarrow> bool" where
  "is_blocked_either_direction db a b =
     (0 < count_rows (\<lambda>r. bl_blocker_uid r = a \<and> bl_blocked_uid r = b \<or>
        bl_blocker_uid r = b \<and> bl_blocked_uid r = a) (blocks db))"

definition unresolved :: "friend_request \<Rightarrow> bool" where
  "unresolved r \<longleftrightarrow> fr_status r = Pending \<or> fr_status r = Archived"

definition find_unresolved_request_between :: "tables \<Rightarrow> uid \<Rightarrow> uid \<Rightarrow> friend_request option" where
  "find_unresolved_request_between db a b =
     (let (u1, u2) = canonical_pair a b
      in first_row (\<lambda>r. unresolved r \<and>
           (fr_from_uid r = u1 \<and> fr_to_uid r = u2 \<or> fr_from_uid r = u2 \<and> fr_to_uid r = u1))
         (friend_requests db))"

section \<open>Gates for direct messages\<close>

datatype dm_send_authorization_error = CannotMessageSelf | FriendshipRequired | Blocked

definition app_error_of_dm :: "dm_send_authorization_error \<Rightarrow> app_error" where
  "app_error_of_dm e =
     (case e of
        CannotMessageSelf \<Rightarrow> BadRequest ''Cannot send a message to yourself''
      | FriendshipRequired \<Rightarrow> Forbidden ''You can only direct-message mutual friends''
      | Blocked \<Rightarrow> Forbidden ''Cannot direct-message this user'')"

definition require_dm_writable :: "tables \<Rightarrow> uid \<Rightarrow> uid \<Rightarrow> app_error + unit" where
  "require_dm_writable db uid peer =
     (if is_blocked_either_direction db uid peer
      then Inl (Forbidden ''This chat is read-only because a block is in place'')
      else if \<not> are_mutual_friends db uid peer
      then Inl (Forbidden ''This chat is read-only because the friendship has ended'')
      else Inr ())"

definition require_chat_writable :: "tables \<Rightarrow> snowflake \<Rightarrow> uid \<Rightarrow> app_error + unit" where
  "require_chat_writable db chat_id uid =
     and_then (ok_or (first_row (\<lambda>g. g_id g = chat_id) (groups db)) (DbQuery DbNotFound)) (\<lambda>g.
       if g_kind g \<noteq> Dm then Inr ()
       else and_then
         (case (g_dm_uid1 g, g_dm_uid2 g) of
            (Some uid1, Some uid2) \<Rightarrow>
              (if uid1 = uid then Inr uid2
               else if uid2 = uid then Inr uid1
               else Inl (Forbidden ''Not a participant of this chat''))
          | _ \<Rightarrow> Inl (Forbidden ''Not a participant of this chat''))
         (\<lambda>peer. require_dm_writable db uid peer))"

definition check_can_dm :: "tables \<Rightarrow> uid \<Rightarrow> uid \<Rightarrow> dm_send_authorization_error + unit" where
  "check_can_dm db sender peer =
     (if sender = peer then Inl CannotMessageSelf
      else if \<not> are_mutual_friends db sender peer then Inl FriendshipRequired
      else if is_blocked_either_direction db sender peer then Inl Blocked
      else Inr ())"

section \<open>Lists\<close>

definition list_friends_with_since :: "tables \<Rightarrow> uid \<Rightarrow> (uid \<times> timestamp) list" where
  "list_friends_with_since db uid =
     map (\<lambda>r. (if fs_uid1 r = uid then fs_uid2 r else fs_uid1 r, fs_created_at r))
       (select_rows (\<lambda>r. fs_uid1 r = uid \<or> fs_uid2 r = uid) (friendships db))"

definition list_blocks_with_since :: "tables \<Rightarrow> uid \<Rightarrow> (uid \<times> timestamp) list" where
  "list_blocks_with_since db blocker =
     map (\<lambda>r. (bl_blocked_uid r, bl_created_at r))
       (sort_key (\<lambda>r. - bl_created_at r) (select_rows (\<lambda>r. bl_blocker_uid r = blocker) (blocks db)))"

section \<open>Friendship rows\<close>

definition remove_friendship :: "uid \<Rightarrow> uid \<Rightarrow> tables \<Rightarrow> bool \<times> tables" where
  "remove_friendship a b db =
     (let p = canonical_pair a b
      in (0 < count_rows (is_friendship_of p) (friendships db),
          db\<lparr>friendships := delete_rows (is_friendship_of p) (friendships db)\<rparr>))"

definition insert_friendship :: "uid \<Rightarrow> uid \<Rightarrow> uid \<Rightarrow> timestamp \<Rightarrow> tables \<Rightarrow> tables" where
  "insert_friendship a b initiated_by now db =
     (let (u1, u2) = canonical_pair a b
      in db\<lparr>friendships := insert_or_ignore (is_friendship_of (u1, u2))
           (friendship_row_of \<lparr>nfs_uid1 = u1, nfs_uid2 = u2, nfs_initiated_by = initiated_by,
              nfs_created_at = now, nfs_uid1_shares_presence = None,
              nfs_uid2_shares_presence = None\<rparr>) (friendships db)\<rparr>)"

definition friend_presence_override_from_db :: "bool option \<Rightarrow> friend_presence_override" where
  "friend_presence_override_from_db v =
     (case v of None \<Rightarrow> InheritPresence | Some True \<Rightarrow> SharePresence | Some False \<Rightarrow> HidePresence)"

definition friend_presence_override_to_db :: "friend_presence_override \<Rightarrow> bool option" where
  "friend_presence_override_to_db v =
     (case v of InheritPresence \<Rightarrow> None | SharePresence \<Rightarrow> Some True | HidePresence \<Rightarrow> Some False)"

definition friend_read_receipt_override_from_db :: "bool option \<Rightarrow> friend_read_receipt_override" where
  "friend_read_receipt_override_from_db v =
     (case v of None \<Rightarrow> InheritReceipts | Some True \<Rightarrow> ShareReceipts | Some False \<Rightarrow> HideReceipts)"

definition friend_read_receipt_override_to_db :: "friend_read_receipt_override \<Rightarrow> bool option" where
  "friend_read_receipt_override_to_db v =
     (case v of InheritReceipts \<Rightarrow> None | ShareReceipts \<Rightarrow> Some True | HideReceipts \<Rightarrow> Some False)"

definition get_friend_presence_settings ::
  "tables \<Rightarrow> uid \<Rightarrow> uid \<Rightarrow> app_error + friend_presence_override" where
  "get_friend_presence_settings db uid peer_uid =
     (let (uid1, uid2) = canonical_pair uid peer_uid;
          row = first_row (is_friendship_of (uid1, uid2)) (friendships db)
      in and_then
           (ok_or (if uid = uid1 then map_option fs_uid1_shares_presence row
                   else map_option fs_uid2_shares_presence row) (NotFound ''Friendship not found''))
           (\<lambda>v. Inr (friend_presence_override_from_db v)))"

definition update_friend_presence_settings ::
  "uid \<Rightarrow> uid \<Rightarrow> friend_presence_override \<Rightarrow> tables \<Rightarrow>
   app_error + friend_presence_override \<times> tables" where
  "update_friend_presence_settings uid peer_uid v db =
     (let (uid1, uid2) = canonical_pair uid peer_uid;
          shares = friend_presence_override_to_db v
      in if count_rows (is_friendship_of (uid1, uid2)) (friendships db) = 0
         then Inl (NotFound ''Friendship not found'')
         else Inr (v, db\<lparr>friendships := update_rows (is_friendship_of (uid1, uid2))
           (\<lambda>r. if uid = uid1 then r\<lparr>fs_uid1_shares_presence := shares\<rparr>
                else r\<lparr>fs_uid2_shares_presence := shares\<rparr>) (friendships db)\<rparr>))"

definition get_friend_read_receipt_settings ::
  "tables \<Rightarrow> uid \<Rightarrow> uid \<Rightarrow> app_error + friend_read_receipt_override" where
  "get_friend_read_receipt_settings db uid peer_uid =
     (let (uid1, uid2) = canonical_pair uid peer_uid;
          row = first_row (is_friendship_of (uid1, uid2)) (friendships db)
      in and_then
           (ok_or (if uid = uid1 then map_option fs_uid1_shares_read_receipts row
                   else map_option fs_uid2_shares_read_receipts row)
             (NotFound ''Friendship not found''))
           (\<lambda>v. Inr (friend_read_receipt_override_from_db v)))"

definition update_friend_read_receipt_settings ::
  "uid \<Rightarrow> uid \<Rightarrow> friend_read_receipt_override \<Rightarrow> tables \<Rightarrow>
   app_error + friend_read_receipt_override \<times> tables" where
  "update_friend_read_receipt_settings uid peer_uid v db =
     (let (uid1, uid2) = canonical_pair uid peer_uid;
          shares = friend_read_receipt_override_to_db v
      in if count_rows (is_friendship_of (uid1, uid2)) (friendships db) = 0
         then Inl (NotFound ''Friendship not found'')
         else Inr (v, db\<lparr>friendships := update_rows (is_friendship_of (uid1, uid2))
           (\<lambda>r. if uid = uid1 then r\<lparr>fs_uid1_shares_read_receipts := shares\<rparr>
                else r\<lparr>fs_uid2_shares_read_receipts := shares\<rparr>) (friendships db)\<rparr>))"

section \<open>Account settings\<close>

definition find_user_extra :: "tables \<Rightarrow> uid \<Rightarrow> user_extra_row option" where
  "find_user_extra db uid = first_row (\<lambda>r. ux_uid r = uid) (user_extras db)"

definition get_presence_settings :: "tables \<Rightarrow> uid \<Rightarrow> presence_visibility" where
  "get_presence_settings db uid =
     (case find_user_extra db uid of None \<Rightarrow> Everyone | Some r \<Rightarrow> ux_presence_visibility r)"

definition update_presence_settings ::
  "uid \<Rightarrow> presence_visibility \<Rightarrow> timestamp \<Rightarrow> tables \<Rightarrow> presence_visibility \<times> tables" where
  "update_presence_settings uid v now db =
     (v, db\<lparr>user_extras := upsert_row (\<lambda>r. ux_uid r = uid)
        (user_extra_row_of ((new_user_extra_new uid now)\<lparr>nux_presence_visibility := v\<rparr>))
        (\<lambda>r. r\<lparr>ux_presence_visibility := v\<rparr>) (user_extras db)\<rparr>)"

definition get_read_receipt_settings :: "tables \<Rightarrow> uid \<Rightarrow> read_receipt_visibility" where
  "get_read_receipt_settings db uid =
     (case find_user_extra db uid of None \<Rightarrow> ReceiptFriends | Some r \<Rightarrow> ux_read_receipt_visibility r)"

text \<open>The \<open>INSERT\<close> does not name \<open>read_receipt_visibility\<close>, so a new row takes the column
  default whatever was requested, and \<open>RETURNING\<close> gives back what the row holds.\<close>

definition update_read_receipt_settings ::
  "uid \<Rightarrow> read_receipt_visibility \<Rightarrow> timestamp \<Rightarrow> tables \<Rightarrow> read_receipt_visibility \<times> tables" where
  "update_read_receipt_settings uid v now db =
     (let rows = upsert_row (\<lambda>r. ux_uid r = uid) (user_extra_row_of (new_user_extra_new uid now))
            (\<lambda>r. r\<lparr>ux_read_receipt_visibility := v\<rparr>) (user_extras db)
      in (case find_user_extra db uid of None \<Rightarrow> ReceiptFriends | Some _ \<Rightarrow> v,
          db\<lparr>user_extras := rows\<rparr>))"

definition get_friend_settings ::
  "tables \<Rightarrow> uid \<Rightarrow> friend_add_verification_mode \<times> ustr option" where
  "get_friend_settings db uid =
     (case find_user_extra db uid of
        Some r \<Rightarrow> (ux_verification_mode r, ux_verification_question r)
      | None \<Rightarrow> (Direct, None))"

definition upsert_friend_settings ::
  "uid \<Rightarrow> friend_add_verification_mode \<Rightarrow> ustr option \<Rightarrow> timestamp \<Rightarrow> tables \<Rightarrow>
   app_error + (friend_add_verification_mode \<times> ustr option) \<times> tables" where
  "upsert_friend_settings uid mode question now db =
     (let trimmed_question = trimmed_nonempty question
      in and_then
           (if mode = Question
            then guard_or (trimmed_question \<noteq> None)
              (BadRequest ''A question is required for question verification mode'')
            else guard_or (trimmed_question = None)
              (BadRequest ''Question must be empty unless mode is question''))
           (\<lambda>_. Inr ((mode, trimmed_question),
             db\<lparr>user_extras := upsert_row (\<lambda>r. ux_uid r = uid)
               (user_extra_row_of ((new_user_extra_new uid now)
                  \<lparr>nux_verification_mode := mode, nux_verification_question := trimmed_question\<rparr>))
               (\<lambda>r. r\<lparr>ux_verification_mode := mode, ux_verification_question := trimmed_question\<rparr>)
               (user_extras db)\<rparr>)))"

section \<open>Blocks\<close>

definition block_user :: "uid \<Rightarrow> uid \<Rightarrow> timestamp \<Rightarrow> tables \<Rightarrow> app_error + unit \<times> tables" where
  "block_user blocker blocked now db =
     (if blocker = blocked then Inl (BadRequest ''Cannot block yourself'')
      else Inr ((), db\<lparr>blocks := insert_or_ignore (is_block_of (blocker, blocked))
        \<lparr>bl_blocker_uid = blocker, bl_blocked_uid = blocked, bl_created_at = now\<rparr> (blocks db)\<rparr>))"

definition unblock_user :: "uid \<Rightarrow> uid \<Rightarrow> tables \<Rightarrow> bool \<times> tables" where
  "unblock_user blocker blocked db =
     (0 < count_rows (is_block_of (blocker, blocked)) (blocks db),
      db\<lparr>blocks := delete_rows (is_block_of (blocker, blocked)) (blocks db)\<rparr>)"

section \<open>Relationship facts for many peers\<close>

record peer_relationship =
  pr_friends_since :: "timestamp option"
  pr_dm_chat_id :: "snowflake option"
  pr_blocking :: bool
  pr_blocked_by :: bool
  pr_shares_presence :: "bool option"
  pr_peer_shares_presence :: "bool option"
  pr_pending_request :: "(snowflake \<times> bool \<times> timestamp) option"

definition default_relationship :: peer_relationship where
  "default_relationship =
     \<lparr>pr_friends_since = None, pr_dm_chat_id = None, pr_blocking = False, pr_blocked_by = False,
      pr_shares_presence = None, pr_peer_shares_presence = None, pr_pending_request = None\<rparr>"

definition directional_presence_overrides ::
  "bool \<Rightarrow> bool option \<Rightarrow> bool option \<Rightarrow> bool option \<times> bool option" where
  "directional_presence_overrides viewer_is_uid1 s1 s2 = (if viewer_is_uid1 then (s1, s2) else (s2, s1))"

text \<open>\<open>relationships.entry(peer).or_default()\<close> and an assignment to the entry.\<close>

definition entry_update ::
  "uid \<Rightarrow> (peer_relationship \<Rightarrow> peer_relationship) \<Rightarrow> (uid \<rightharpoonup> peer_relationship) \<Rightarrow>
   (uid \<rightharpoonup> peer_relationship)" where
  "entry_update peer f m =
     m(peer \<mapsto> f (case m peer of None \<Rightarrow> default_relationship | Some r \<Rightarrow> r))"

definition friendship_entry ::
  "uid \<Rightarrow> bool option \<times> bool option \<Rightarrow> timestamp \<Rightarrow> (uid \<rightharpoonup> peer_relationship) \<Rightarrow>
   (uid \<rightharpoonup> peer_relationship)" where
  "friendship_entry peer shares created_at =
     entry_update peer (\<lambda>r. r\<lparr>pr_friends_since := Some created_at,
       pr_shares_presence := fst shares, pr_peer_shares_presence := snd shares\<rparr>)"

definition dm_entry ::
  "uid option \<Rightarrow> snowflake \<Rightarrow> (uid \<rightharpoonup> peer_relationship) \<Rightarrow> (uid \<rightharpoonup> peer_relationship)" where
  "dm_entry peer chat_id m =
     (case peer of None \<Rightarrow> m | Some p \<Rightarrow> entry_update p (\<lambda>r. r\<lparr>pr_dm_chat_id := Some chat_id\<rparr>) m)"

definition greater_half ::
  "tables \<Rightarrow> uid \<Rightarrow> uid list \<Rightarrow> (uid \<rightharpoonup> peer_relationship) \<Rightarrow> (uid \<rightharpoonup> peer_relationship)" where
  "greater_half db uid greater_peers m =
     (if greater_peers = [] then m
      else fold (\<lambda>g. dm_entry (g_dm_uid2 g) (g_id g))
        (select_rows (\<lambda>g. g_kind g = Dm \<and> g_dm_uid1 g = Some uid \<and>
           (\<exists>p \<in> set greater_peers. g_dm_uid2 g = Some p)) (groups db))
       (fold (\<lambda>f. friendship_entry (fs_uid2 f)
           (directional_presence_overrides True (fs_uid1_shares_presence f)
             (fs_uid2_shares_presence f)) (fs_created_at f))
        (select_rows (\<lambda>f. fs_uid1 f = uid \<and> fs_uid2 f \<in> set greater_peers) (friendships db)) m))"

definition lesser_half ::
  "tables \<Rightarrow> uid \<Rightarrow> uid list \<Rightarrow> (uid \<rightharpoonup> peer_relationship) \<Rightarrow> (uid \<rightharpoonup> peer_relationship)" where
  "lesser_half db uid lesser_peers m =
     (if lesser_peers = [] then m
      else fold (\<lambda>g. dm_entry (g_dm_uid1 g) (g_id g))
        (select_rows (\<lambda>g. g_kind g = Dm \<and> g_dm_uid2 g = Some uid \<and>
           (\<exists>p \<in> set lesser_peers. g_dm_uid1 g = Some p)) (groups db))
       (fold (\<lambda>f. friendship_entry (fs_uid1 f)
           (directional_presence_overrides False (fs_uid1_shares_presence f)
             (fs_uid2_shares_presence f)) (fs_created_at f))
        (select_rows (\<lambda>f. fs_uid2 f = uid \<and> fs_uid1 f \<in> set lesser_peers) (friendships db)) m))"

definition peer_relationships :: "tables \<Rightarrow> uid \<Rightarrow> uid list \<Rightarrow> (uid \<rightharpoonup> peer_relationship)" where
  "peer_relationships db uid peers =
     (let greater_peers = filter (\<lambda>peer. peer > uid) peers;
          lesser_peers = filter (\<lambda>peer. peer < uid) peers;
          m0 = map_of (map (\<lambda>peer. (peer, default_relationship)) peers);
          m1 = lesser_half db uid lesser_peers (greater_half db uid greater_peers m0);
          m2 = fold (\<lambda>b. entry_update (bl_blocked_uid b) (\<lambda>r. r\<lparr>pr_blocking := True\<rparr>))
            (select_rows (\<lambda>b. bl_blocker_uid b = uid \<and> bl_blocked_uid b \<in> set peers) (blocks db)) m1;
          m3 = fold (\<lambda>b. entry_update (bl_blocker_uid b) (\<lambda>r. r\<lparr>pr_blocked_by := True\<rparr>))
            (select_rows (\<lambda>b. bl_blocked_uid b = uid \<and> bl_blocker_uid b \<in> set peers) (blocks db)) m2;
          m4 = fold (\<lambda>q. entry_update (fr_to_uid q)
              (\<lambda>r. r\<lparr>pr_pending_request := Some (fr_id q, True, fr_created_at q)\<rparr>))
            (select_rows (\<lambda>q. unresolved q \<and> fr_from_uid q = uid \<and> fr_to_uid q \<in> set peers)
              (friend_requests db)) m3
      in fold (\<lambda>q. entry_update (fr_from_uid q)
              (\<lambda>r. r\<lparr>pr_pending_request := Some (fr_id q, False, fr_created_at q)\<rparr>))
            (select_rows (\<lambda>q. unresolved q \<and> fr_to_uid q = uid \<and> fr_from_uid q \<in> set peers)
              (friend_requests db)) m4)"

section \<open>Constraints of the schema\<close>

text \<open>The primary keys, unique indexes and \<open>CHECK\<close> constraints of the migration
  \<open>add_social_graph_and_direct_messages\<close> (the index on pending requests was later extended to
  archived ones).\<close>

definition friendships_ok :: "tables \<Rightarrow> bool" where
  "friendships_ok db \<longleftrightarrow> distinct_keys friendship_key (friendships db) \<and>
     (\<forall>r \<in> set (friendships db). fs_uid1 r < fs_uid2 r \<and> fs_initiated_by r \<in> {fs_uid1 r, fs_uid2 r})"

definition blocks_ok :: "tables \<Rightarrow> bool" where
  "blocks_ok db \<longleftrightarrow> distinct_keys block_key (blocks db) \<and>
     (\<forall>r \<in> set (blocks db). bl_blocker_uid r \<noteq> bl_blocked_uid r)"

definition request_pair :: "friend_request \<Rightarrow> uid \<times> uid" where
  "request_pair r = canonical_pair (fr_from_uid r) (fr_to_uid r)"

definition requests_ok :: "tables \<Rightarrow> bool" where
  "requests_ok db \<longleftrightarrow> distinct_keys fr_id (friend_requests db) \<and>
     distinct_keys request_pair (select_rows unresolved (friend_requests db)) \<and>
     (\<forall>r \<in> set (friend_requests db). fr_from_uid r \<noteq> fr_to_uid r \<and>
        (fr_question r \<noteq> None \<longrightarrow> fr_message r \<noteq> None))"

definition dm_pair :: "group_row \<Rightarrow> uid option \<times> uid option" where
  "dm_pair g = (g_dm_uid1 g, g_dm_uid2 g)"

definition is_dm_of :: "uid \<times> uid \<Rightarrow> group_row \<Rightarrow> bool" where
  "is_dm_of p g \<longleftrightarrow> g_kind g = Dm \<and> g_dm_uid1 g = Some (fst p) \<and> g_dm_uid2 g = Some (snd p)"

definition dms_ok :: "tables \<Rightarrow> bool" where
  "dms_ok db \<longleftrightarrow> distinct_keys g_id (groups db) \<and>
     distinct_keys dm_pair (select_rows (\<lambda>g. g_kind g = Dm) (groups db)) \<and>
     (\<forall>g \<in> set (groups db).
        case (g_kind g, g_dm_uid1 g, g_dm_uid2 g) of
          (Dm, Some u1, Some u2) \<Rightarrow> u1 < u2
        | (Group, None, None) \<Rightarrow> True
        | _ \<Rightarrow> False)"

definition verification_ok :: "tables \<Rightarrow> bool" where
  "verification_ok db \<longleftrightarrow> distinct_keys ux_uid (user_extras db) \<and>
     (\<forall>r \<in> set (user_extras db).
        if ux_verification_mode r = Question
        then (\<exists>q. ux_verification_question r = Some q \<and> trim q \<noteq> [])
        else ux_verification_question r = None)"

section \<open>Facts about pairs\<close>

lemma canonical_pair_comm: "a \<noteq> b \<Longrightarrow> canonical_pair a b = canonical_pair b a"
  by (simp add: canonical_pair_def)

lemma canonical_pair_less: "a \<noteq> b \<Longrightarrow> fst (canonical_pair a b) < snd (canonical_pair a b)"
  by (simp add: canonical_pair_def)

lemma canonical_pair_eq:
  "canonical_pair a b = canonical_pair c d \<longleftrightarrow> (a = c \<and> b = d) \<or> (a = d \<and> b = c)"
  by (auto simp: canonical_pair_def split: if_splits)

lemma mutual_friends_iff:
  "are_mutual_friends db a b \<longleftrightarrow> (\<exists>r \<in> set (friendships db). friendship_key r = canonical_pair a b)"
  by (simp add: are_mutual_friends_def row_simps friendship_table.matches_iff)

lemma mutual_friends_comm: "are_mutual_friends db a b = are_mutual_friends db b a"
  by (cases "a = b") (simp_all add: mutual_friends_iff canonical_pair_comm)

lemma mutual_friends_self: "friendships_ok db \<Longrightarrow> \<not> are_mutual_friends db a a"
  by (auto simp: mutual_friends_iff friendships_ok_def friendship_key_def canonical_pair_def)

lemma blocked_iff:
  "is_blocked_either_direction db a b \<longleftrightarrow>
   (\<exists>r \<in> set (blocks db). block_key r = (a, b) \<or> block_key r = (b, a))"
  by (auto simp: is_blocked_either_direction_def row_simps block_key_def)

lemma blocked_comm: "is_blocked_either_direction db a b = is_blocked_either_direction db b a"
  by (auto simp: blocked_iff)

lemma unresolved_pair_iff:
  "fr_from_uid r = fst p \<and> fr_to_uid r = snd p \<or> fr_from_uid r = snd p \<and> fr_to_uid r = fst p \<longleftrightarrow>
   request_pair r = canonical_pair (fst p) (snd p)"
  by (auto simp: request_pair_def canonical_pair_eq)

lemma find_unresolved_eq:
  "find_unresolved_request_between db a b =
   first_row (\<lambda>r. unresolved r \<and> request_pair r = canonical_pair a b) (friend_requests db)"
proof -
  have "canonical_pair (fst (canonical_pair a b)) (snd (canonical_pair a b)) = canonical_pair a b"
    by (auto simp: canonical_pair_def)
  then show ?thesis
    using unresolved_pair_iff [of _ "canonical_pair a b"]
    by (simp add: find_unresolved_request_between_def split_beta)
qed

section \<open>Batched relationships\<close>

lemma first_row_select: "first_row P (select_rows Q rows) = first_row (\<lambda>r. Q r \<and> P r) rows"
  by (induction rows) (simp_all add: select_rows_def)

lemma first_row_cong:
  "(\<And>r. r \<in> set rows \<Longrightarrow> P r = Q r) \<Longrightarrow> first_row P rows = first_row Q rows"
  by (induction rows) simp_all

lemma first_row_const: "first_row (\<lambda>r. c \<and> P r) rows = (if c then first_row P rows else None)"
  by (cases c) (simp_all add: first_row_None)

lemma first_row_False [simp]: "first_row (\<lambda>r. False) rows = None"
  by (simp add: first_row_None)

lemma entry_update_apply:
  "m p = Some x \<Longrightarrow> entry_update q f m p = Some (if p = q then f x else x)"
  by (auto simp: entry_update_def)

lemma fold_entry_update:
  assumes "distinct (map k rows)" and "m p = Some x"
  shows "fold (\<lambda>r. entry_update (k r) (f r)) rows m p =
    Some (case first_row (\<lambda>r. k r = p) rows of None \<Rightarrow> x | Some r \<Rightarrow> f r x)"
  using assms
proof (induction rows arbitrary: m x)
  case Nil
  then show ?case by simp
next
  case (Cons r rows)
  then have "k r = p \<Longrightarrow> first_row (\<lambda>r. k r = p) rows = None"
    by (auto simp: first_row_None image_iff)
  with Cons show ?case by (auto simp: entry_update_apply)
qed

lemma fold_dm_entry:
  assumes "distinct (map k rows)" and "\<forall>r \<in> set rows. k r \<noteq> None" and "m p = Some x"
  shows "fold (\<lambda>g. dm_entry (k g) (g_id g)) rows m p =
    Some (case first_row (\<lambda>g. k g = Some p) rows of None \<Rightarrow> x | Some g \<Rightarrow> x\<lparr>pr_dm_chat_id := Some (g_id g)\<rparr>)"
  using assms
proof (induction rows arbitrary: m x)
  case Nil
  then show ?case by simp
next
  case (Cons r rows)
  then have "k r = Some p \<Longrightarrow> first_row (\<lambda>r. k r = Some p) rows = None"
    by (auto simp: first_row_None image_iff)
  with Cons show ?case by (auto simp: entry_update_apply dm_entry_def)
qed

lemma distinct_select:
  assumes "distinct_keys key rows" and "\<And>r r'. Q r \<Longrightarrow> Q r' \<Longrightarrow> k r = k r' \<Longrightarrow> key r = key r'"
  shows "distinct (map k (select_rows Q rows))"
  using assms by (auto simp: distinct_keys_def select_rows_def distinct_map inj_on_def)

lemma half_value:
  assumes "distinct (map kf (select_rows F fs))" and "distinct (map kg (select_rows G gs))"
    and "\<forall>g. G g \<longrightarrow> kg g \<noteq> None" and "m p = Some x"
  shows "fold (\<lambda>g. dm_entry (kg g) (g_id g)) (select_rows G gs)
      (fold (\<lambda>f. friendship_entry (kf f) (sh f) (fs_created_at f)) (select_rows F fs) m) p = Some
    (let x' = (case first_row (\<lambda>f. F f \<and> kf f = p) fs of None \<Rightarrow> x
           | Some f \<Rightarrow> x\<lparr>pr_friends_since := Some (fs_created_at f),
               pr_shares_presence := fst (sh f), pr_peer_shares_presence := snd (sh f)\<rparr>)
     in case first_row (\<lambda>g. G g \<and> kg g = Some p) gs of None \<Rightarrow> x'
        | Some g \<Rightarrow> x'\<lparr>pr_dm_chat_id := Some (g_id g)\<rparr>)"
proof -
  let ?m1 = "fold (\<lambda>f. friendship_entry (kf f) (sh f) (fs_created_at f)) (select_rows F fs) m"
  let ?x1 = "case first_row (\<lambda>f. F f \<and> kf f = p) fs of None \<Rightarrow> x
     | Some f \<Rightarrow> x\<lparr>pr_friends_since := Some (fs_created_at f),
         pr_shares_presence := fst (sh f), pr_peer_shares_presence := snd (sh f)\<rparr>"
  have nG: "\<forall>g \<in> set (select_rows G gs). kg g \<noteq> None" using assms(3) by (auto simp: row_simps)
  have "?m1 p = Some ?x1"
    using fold_entry_update [where k = kf and m = m and p = p and x = x and
      f = "\<lambda>f r. r\<lparr>pr_friends_since := Some (fs_created_at f), pr_shares_presence := fst (sh f),
        pr_peer_shares_presence := snd (sh f)\<rparr>", OF assms(1,4)]
    by (simp only: first_row_select friendship_entry_def)
  then have "fold (\<lambda>g. dm_entry (kg g) (g_id g)) (select_rows G gs) ?m1 p =
      Some (case first_row (\<lambda>g. kg g = Some p) (select_rows G gs) of None \<Rightarrow> ?x1
        | Some g \<Rightarrow> ?x1\<lparr>pr_dm_chat_id := Some (g_id g)\<rparr>)"
    by (rule fold_dm_entry [OF assms(2) nG])
  then show ?thesis by (simp only: first_row_select Let_def)
qed

lemma distinct_dm_half:
  assumes "dms_ok db" and "\<And>g. G g \<Longrightarrow> g_kind g = Dm"
    and "\<And>g g'. G g \<Longrightarrow> G g' \<Longrightarrow> kg g = kg g' \<Longrightarrow> dm_pair g = dm_pair g'"
  shows "distinct (map kg (select_rows G (groups db)))"
proof -
  have "select_rows G (groups db) = select_rows G (select_rows (\<lambda>g. g_kind g = Dm) (groups db))"
    unfolding select_rows_def filter_filter by (rule filter_cong) (auto dest: assms(2))
  moreover have "distinct (map kg (select_rows G (select_rows (\<lambda>g. g_kind g = Dm) (groups db))))"
    using assms(1) by (intro distinct_select [where key = dm_pair, OF _ assms(3)]) (simp_all add: dms_ok_def)
  ultimately show ?thesis by simp
qed

definition half_result ::
  "bool \<Rightarrow> uid \<times> uid \<Rightarrow> bool \<Rightarrow> tables \<Rightarrow> peer_relationship \<Rightarrow> peer_relationship" where
  "half_result selected pair first db x =
     (if \<not> selected then x
      else let x' = (case first_row (is_friendship_of pair) (friendships db) of None \<Rightarrow> x
           | Some f \<Rightarrow> x\<lparr>pr_friends_since := Some (fs_created_at f),
               pr_shares_presence := (if first then fs_uid1_shares_presence f else fs_uid2_shares_presence f),
               pr_peer_shares_presence := (if first then fs_uid2_shares_presence f else fs_uid1_shares_presence f)\<rparr>)
     in case first_row (is_dm_of pair) (groups db) of None \<Rightarrow> x'
        | Some g \<Rightarrow> x'\<lparr>pr_dm_chat_id := Some (g_id g)\<rparr>)"

lemma greater_half_value:
  assumes "friendships_ok db" and "dms_ok db" and "m p = Some x"
  shows "greater_half db uid (filter (\<lambda>peer. uid < peer) peers) m p =
    Some (half_result (uid < p \<and> p \<in> set peers) (uid, p) True db x)"
proof -
  let ?gp = "filter (\<lambda>peer. uid < peer) peers"
  let ?F = "\<lambda>f. fs_uid1 f = uid \<and> fs_uid2 f \<in> set ?gp"
  let ?G = "\<lambda>g. g_kind g = Dm \<and> g_dm_uid1 g = Some uid \<and> (\<exists>p \<in> set ?gp. g_dm_uid2 g = Some p)"
  have dF: "distinct (map fs_uid2 (select_rows ?F (friendships db)))"
    using assms(1) by (intro distinct_select [where key = friendship_key])
      (auto simp: friendships_ok_def friendship_key_def)
  have dG: "distinct (map g_dm_uid2 (select_rows ?G (groups db)))"
    using assms(2) by (rule distinct_dm_half) (auto simp: dm_pair_def)
  have nG: "\<forall>g. ?G g \<longrightarrow> g_dm_uid2 g \<noteq> None" by auto
  have F: "(\<lambda>r. ?F r \<and> fs_uid2 r = p) = (\<lambda>r. (uid < p \<and> p \<in> set peers) \<and> is_friendship_of (uid, p) r)"
    by (auto simp: fun_eq_iff is_friendship_of_def)
  have G: "(\<lambda>r. ?G r \<and> g_dm_uid2 r = Some p) = (\<lambda>r. (uid < p \<and> p \<in> set peers) \<and> is_dm_of (uid, p) r)"
    by (auto simp: fun_eq_iff is_dm_of_def)
  have eq: "greater_half db uid ?gp m = fold (\<lambda>g. dm_entry (g_dm_uid2 g) (g_id g))
      (select_rows ?G (groups db)) (fold (\<lambda>f. friendship_entry (fs_uid2 f)
        (directional_presence_overrides True (fs_uid1_shares_presence f) (fs_uid2_shares_presence f))
        (fs_created_at f)) (select_rows ?F (friendships db)) m)"
    by (cases "?gp = []") (simp_all only: greater_half_def if_False if_True,
      simp add: select_rows_def)
  note half = half_value [where kf = fs_uid2 and F = ?F and kg = g_dm_uid2 and G = ?G and
      fs = "friendships db" and gs = "groups db" and m = m and p = p and x = x and
      sh = "\<lambda>f. directional_presence_overrides True (fs_uid1_shares_presence f)
        (fs_uid2_shares_presence f)", OF dF dG nG assms(3)]
  show ?thesis
    unfolding eq half [unfolded F G]
    by (simp add: half_result_def first_row_const directional_presence_overrides_def Let_def
        split: option.split)
qed

lemma lesser_half_value:
  assumes "friendships_ok db" and "dms_ok db" and "m p = Some x"
  shows "lesser_half db uid (filter (\<lambda>peer. peer < uid) peers) m p =
    Some (half_result (p < uid \<and> p \<in> set peers) (p, uid) False db x)"
proof -
  let ?lp = "filter (\<lambda>peer. peer < uid) peers"
  let ?F = "\<lambda>f. fs_uid2 f = uid \<and> fs_uid1 f \<in> set ?lp"
  let ?G = "\<lambda>g. g_kind g = Dm \<and> g_dm_uid2 g = Some uid \<and> (\<exists>p \<in> set ?lp. g_dm_uid1 g = Some p)"
  have dF: "distinct (map fs_uid1 (select_rows ?F (friendships db)))"
    using assms(1) by (intro distinct_select [where key = friendship_key])
      (auto simp: friendships_ok_def friendship_key_def)
  have dG: "distinct (map g_dm_uid1 (select_rows ?G (groups db)))"
    using assms(2) by (rule distinct_dm_half) (auto simp: dm_pair_def)
  have nG: "\<forall>g. ?G g \<longrightarrow> g_dm_uid1 g \<noteq> None" by auto
  have F: "(\<lambda>r. ?F r \<and> fs_uid1 r = p) = (\<lambda>r. (p < uid \<and> p \<in> set peers) \<and> is_friendship_of (p, uid) r)"
    by (auto simp: fun_eq_iff is_friendship_of_def)
  have G: "(\<lambda>r. ?G r \<and> g_dm_uid1 r = Some p) = (\<lambda>r. (p < uid \<and> p \<in> set peers) \<and> is_dm_of (p, uid) r)"
    by (auto simp: fun_eq_iff is_dm_of_def)
  have eq: "lesser_half db uid ?lp m = fold (\<lambda>g. dm_entry (g_dm_uid1 g) (g_id g))
      (select_rows ?G (groups db)) (fold (\<lambda>f. friendship_entry (fs_uid1 f)
        (directional_presence_overrides False (fs_uid1_shares_presence f) (fs_uid2_shares_presence f))
        (fs_created_at f)) (select_rows ?F (friendships db)) m)"
    by (cases "?lp = []") (simp_all only: lesser_half_def if_False if_True,
      simp add: select_rows_def)
  note half = half_value [where kf = fs_uid1 and F = ?F and kg = g_dm_uid1 and G = ?G and
      fs = "friendships db" and gs = "groups db" and m = m and p = p and x = x and
      sh = "\<lambda>f. directional_presence_overrides False (fs_uid1_shares_presence f)
        (fs_uid2_shares_presence f)", OF dF dG nG assms(3)]
  show ?thesis
    unfolding eq half [unfolded F G]
    by (simp add: half_result_def first_row_const directional_presence_overrides_def Let_def
        split: option.split)
qed

text \<open>What one peer's entry means, in terms of the single-pair queries.\<close>

definition relationship_with :: "tables \<Rightarrow> uid \<Rightarrow> uid \<Rightarrow> peer_relationship" where
  "relationship_with db uid peer =
     (let friend = first_row (is_friendship_of (canonical_pair uid peer)) (friendships db);
          shares = (\<lambda>mine r. if mine = (uid < peer) then fs_uid1_shares_presence r
            else fs_uid2_shares_presence r)
      in \<lparr>pr_friends_since = map_option fs_created_at friend,
          pr_dm_chat_id = map_option g_id (first_row (is_dm_of (canonical_pair uid peer)) (groups db)),
          pr_blocking = exists_row (is_block_of (uid, peer)) (blocks db),
          pr_blocked_by = exists_row (is_block_of (peer, uid)) (blocks db),
          pr_shares_presence = Option.bind friend (shares True),
          pr_peer_shares_presence = Option.bind friend (shares False),
          pr_pending_request = map_option (\<lambda>q. (fr_id q, fr_from_uid q = uid, fr_created_at q))
            (find_unresolved_request_between db uid peer)\<rparr>)"

lemma halves_value:
  assumes "friendships_ok db" and "dms_ok db" and "m p = Some default_relationship"
    and "p \<in> set peers" and "p \<noteq> uid"
  shows "lesser_half db uid (filter (\<lambda>peer. peer < uid) peers)
      (greater_half db uid (filter (\<lambda>peer. uid < peer) peers) m) p = Some
    ((relationship_with db uid p)\<lparr>pr_blocking := False, pr_blocked_by := False,
       pr_pending_request := None\<rparr>)"
proof -
  have step: "lesser_half db uid (filter (\<lambda>peer. peer < uid) peers)
      (greater_half db uid (filter (\<lambda>peer. uid < peer) peers) m) p = Some
    (half_result (p < uid \<and> p \<in> set peers) (p, uid) False db
      (half_result (uid < p \<and> p \<in> set peers) (uid, p) True db default_relationship))"
    by (intro lesser_half_value greater_half_value assms(1-3))
  from assms(5) consider "uid < p" | "p < uid" by linarith
  then show ?thesis
    by cases (simp_all add: step assms(4) half_result_def relationship_with_def default_relationship_def
      canonical_pair_def Let_def split: option.split)
qed

lemma fold_selected:
  assumes "distinct (map k (select_rows Q rows))" and "m p = Some x"
  shows "fold (\<lambda>r. entry_update (k r) (f r)) (select_rows Q rows) m p =
    Some (case first_row (\<lambda>r. Q r \<and> k r = p) rows of None \<Rightarrow> x | Some r \<Rightarrow> f r x)"
  using fold_entry_update [where k = k and m = m and p = p and x = x and f = f, OF assms]
  by (simp only: first_row_select)

lemma distinct_requests:
  assumes "requests_ok db" and "\<And>q. Q q \<Longrightarrow> unresolved q"
    and "\<And>q q'. Q q \<Longrightarrow> Q q' \<Longrightarrow> k q = k q' \<Longrightarrow> request_pair q = request_pair q'"
  shows "distinct (map k (select_rows Q (friend_requests db)))"
proof -
  have "select_rows Q (friend_requests db) = select_rows Q (select_rows unresolved (friend_requests db))"
    unfolding select_rows_def filter_filter by (rule filter_cong) (auto dest: assms(2))
  moreover have "distinct (map k (select_rows Q (select_rows unresolved (friend_requests db))))"
    using assms(1) by (intro distinct_select [where key = request_pair, OF _ assms(3)])
      (simp_all add: requests_ok_def)
  ultimately show ?thesis by simp
qed

lemma pending_value:
  assumes "requests_ok db" and "p \<noteq> uid"
  shows "(case first_row (\<lambda>q. (unresolved q \<and> fr_to_uid q = uid \<and> fr_from_uid q \<in> set peers) \<and>
        fr_from_uid q = p) (friend_requests db) of
      None \<Rightarrow> (case first_row (\<lambda>q. (unresolved q \<and> fr_from_uid q = uid \<and> fr_to_uid q \<in> set peers) \<and>
          fr_to_uid q = p) (friend_requests db) of
        None \<Rightarrow> None | Some q \<Rightarrow> Some (fr_id q, True, fr_created_at q))
    | Some q \<Rightarrow> Some (fr_id q, False, fr_created_at q)) =
    (if p \<in> set peers then map_option (\<lambda>q. (fr_id q, fr_from_uid q = uid, fr_created_at q))
      (find_unresolved_request_between db uid p) else None)"
  (is "(case ?in of None \<Rightarrow> (case ?out of None \<Rightarrow> None | Some q \<Rightarrow> _ q) | Some q \<Rightarrow> _ q) = _")
proof (cases "p \<in> set peers")
  case False
  then have "?in = None" and "?out = None" by (auto simp: first_row_None)
  with False show ?thesis by simp
next
  case True
  let ?un = "find_unresolved_request_between db uid p"
  have uniq: "q = q'" if "q \<in> set (friend_requests db)" "q' \<in> set (friend_requests db)"
    "unresolved q" "unresolved q'" "request_pair q = request_pair q'" for q q'
    using assms(1) that distinct_keys_eq [of request_pair "select_rows unresolved (friend_requests db)" q q']
    by (simp add: requests_ok_def row_simps)
  have pair: "request_pair q = canonical_pair uid p \<longleftrightarrow>
      fr_from_uid q = uid \<and> fr_to_uid q = p \<or> fr_to_uid q = uid \<and> fr_from_uid q = p" for q
    by (auto simp: request_pair_def canonical_pair_eq)
  show ?thesis
  proof (cases ?un)
    case None
    then have "?in = None" and "?out = None" by (auto simp: find_unresolved_eq first_row_None pair)
    with None show ?thesis by simp
  next
    case (Some q)
    have q: "q \<in> set (friend_requests db)" "unresolved q" "request_pair q = canonical_pair uid p"
      using first_row_Some [OF Some [unfolded find_unresolved_eq]] by auto
    have only: "q' = q" if "q' \<in> set (friend_requests db)" "unresolved q'"
      "fr_from_uid q' = uid \<and> fr_to_uid q' = p \<or> fr_to_uid q' = uid \<and> fr_from_uid q' = p" for q'
      using uniq [of q' q] that q pair by metis
    show ?thesis
    proof (cases "fr_from_uid q = uid")
      case True
      have "?out = Some q" using q True \<open>p \<in> set peers\<close> assms(2)
        by (intro first_row_unique only) (simp_all add: pair)
      moreover have "?in = None" using True assms(2) by (auto simp: first_row_None dest: only)
      ultimately show ?thesis using Some True \<open>p \<in> set peers\<close> by simp
    next
      case False
      have "?in = Some q" using q False \<open>p \<in> set peers\<close> assms(2)
        by (intro first_row_unique only) (simp_all add: pair)
      then show ?thesis using Some False \<open>p \<in> set peers\<close> by simp
    qed
  qed
qed

lemma peer_relationships_value:
  assumes "friendships_ok db" and "dms_ok db" and "blocks_ok db" and "requests_ok db"
    and "peer \<in> set peers" and "peer \<noteq> uid"
  shows "peer_relationships db uid peers peer = Some (relationship_with db uid peer)"
proof -
  let ?B = "\<lambda>b. bl_blocker_uid b = uid \<and> bl_blocked_uid b \<in> set peers"
  let ?C = "\<lambda>b. bl_blocked_uid b = uid \<and> bl_blocker_uid b \<in> set peers"
  let ?O = "\<lambda>q. unresolved q \<and> fr_from_uid q = uid \<and> fr_to_uid q \<in> set peers"
  let ?I = "\<lambda>q. unresolved q \<and> fr_to_uid q = uid \<and> fr_from_uid q \<in> set peers"
  have B: "distinct (map bl_blocked_uid (select_rows ?B (blocks db)))"
    and C: "distinct (map bl_blocker_uid (select_rows ?C (blocks db)))"
    using assms(3) by (auto intro!: distinct_select [where key = block_key]
      simp: blocks_ok_def block_key_def)
  have O: "distinct (map fr_to_uid (select_rows ?O (friend_requests db)))"
    and I: "distinct (map fr_from_uid (select_rows ?I (friend_requests db)))"
    by (auto intro!: distinct_requests [OF assms(4)] simp: request_pair_def)
  have FB: "(case first_row (\<lambda>b. ?B b \<and> bl_blocked_uid b = peer) (blocks db) of None \<Rightarrow> x | Some b \<Rightarrow> x\<lparr>pr_blocking := True\<rparr>) =
      (if exists_row (is_block_of (uid, peer)) (blocks db) then x\<lparr>pr_blocking := True\<rparr> else x)" for x
    using assms(5) by (auto simp: row_simps is_block_of_def split: option.split dest!: first_row_Some)
  have FC: "(case first_row (\<lambda>b. ?C b \<and> bl_blocker_uid b = peer) (blocks db) of None \<Rightarrow> x | Some b \<Rightarrow> x\<lparr>pr_blocked_by := True\<rparr>) =
      (if exists_row (is_block_of (peer, uid)) (blocks db) then x\<lparr>pr_blocked_by := True\<rparr> else x)" for x
    using assms(5) by (auto simp: row_simps is_block_of_def split: option.split dest!: first_row_Some)
  let ?m0 = "map_of (map (\<lambda>peer. (peer, default_relationship)) peers)"
  let ?m1 = "lesser_half db uid (filter (\<lambda>peer. peer < uid) peers)
      (greater_half db uid (filter (\<lambda>peer. uid < peer) peers) ?m0)"
  let ?m2 = "fold (\<lambda>b. entry_update (bl_blocked_uid b) (\<lambda>r. r\<lparr>pr_blocking := True\<rparr>))
      (select_rows ?B (blocks db)) ?m1"
  let ?m3 = "fold (\<lambda>b. entry_update (bl_blocker_uid b) (\<lambda>r. r\<lparr>pr_blocked_by := True\<rparr>))
      (select_rows ?C (blocks db)) ?m2"
  let ?m4 = "fold (\<lambda>q. entry_update (fr_to_uid q)
        (\<lambda>r. r\<lparr>pr_pending_request := Some (fr_id q, True, fr_created_at q)\<rparr>))
      (select_rows ?O (friend_requests db)) ?m3"
  let ?m5 = "fold (\<lambda>q. entry_update (fr_from_uid q)
        (\<lambda>r. r\<lparr>pr_pending_request := Some (fr_id q, False, fr_created_at q)\<rparr>))
      (select_rows ?I (friend_requests db)) ?m4"
  let ?R = "relationship_with db uid peer"
  have "?m0 peer = Some default_relationship" using assms(5) by (induction peers) auto
  then have "?m1 peer = Some (?R\<lparr>pr_blocking := False, pr_blocked_by := False, pr_pending_request := None\<rparr>)"
    by (intro halves_value assms)
  then have "?m2 peer = Some (?R\<lparr>pr_blocked_by := False, pr_pending_request := None\<rparr>)"
    by (subst fold_selected [where k = bl_blocked_uid and p = peer, OF B], assumption)
      (simp only: FB, simp add: relationship_with_def Let_def)
  then have "?m3 peer = Some (?R\<lparr>pr_pending_request := None\<rparr>)"
    by (subst fold_selected [where k = bl_blocker_uid and p = peer, OF C], assumption)
      (simp only: FC, simp add: relationship_with_def Let_def)
  then have "?m4 peer = Some (case first_row (\<lambda>q. ?O q \<and> fr_to_uid q = peer) (friend_requests db) of
      None \<Rightarrow> ?R\<lparr>pr_pending_request := None\<rparr>
    | Some q \<Rightarrow> ?R\<lparr>pr_pending_request := Some (fr_id q, True, fr_created_at q)\<rparr>)"
    by (subst fold_selected [where k = fr_to_uid and p = peer, OF O], assumption)
      (simp split: option.split)
  then have "?m5 peer = Some ?R"
    by (subst fold_selected [where k = fr_from_uid and p = peer, OF I], assumption)
      (use pending_value [OF assms(4,6), of peers] assms(5) in
        \<open>auto simp: relationship_with_def Let_def split: option.splits\<close>)
  then show ?thesis by (simp only: peer_relationships_def Let_def)
qed

section \<open>Updates of single rows\<close>

lemma find_user_extra_upsert:
  assumes "ux_uid r = uid" and "\<And>r. ux_uid (f r) = ux_uid r"
  shows "find_user_extra (db\<lparr>user_extras := upsert_row (\<lambda>r. ux_uid r = uid) r f (user_extras db)\<rparr>) u =
    (if u = uid then Some (case find_user_extra db uid of None \<Rightarrow> r | Some x \<Rightarrow> f x) else find_user_extra db u)"
  using user_extra_table.find_upsert [of r uid f] user_extra_table.find_upsert_other [of u uid r f] assms
  by (simp add: find_user_extra_def)

lemma friendship_row_update:
  assumes "\<And>r. friendship_key (f r) = friendship_key r"
  shows "first_row (is_friendship_of p)
      (update_rows (is_friendship_of q) f rows) =
    (if p = q then map_option f (first_row (is_friendship_of p) rows)
     else first_row (is_friendship_of p) rows)"
  using friendship_table.find_update [of f p q] assms by simp

lemma presence_override_round_trip [simp]:
  "friend_presence_override_from_db (friend_presence_override_to_db v) = v"
  by (cases v) (simp_all add: friend_presence_override_from_db_def friend_presence_override_to_db_def)

lemma read_receipt_override_round_trip [simp]:
  "friend_read_receipt_override_from_db (friend_read_receipt_override_to_db v) = v"
  by (cases v)
    (simp_all add: friend_read_receipt_override_from_db_def friend_read_receipt_override_to_db_def)

section \<open>Properties\<close>

text \<open>Users 1 and 2 are friends with a direct chat 9; user 3 asked 1 and was blocked by 2.\<close>

definition sample_social :: tables where
  "sample_social = empty_tables
     \<lparr>friendships := [friendship_row_of \<lparr>nfs_uid1 = 1, nfs_uid2 = 2, nfs_initiated_by = 2,
        nfs_created_at = 50, nfs_uid1_shares_presence = Some False, nfs_uid2_shares_presence = None\<rparr>],
      friend_requests := [\<lparr>fr_id = 70, fr_from_uid = 3, fr_to_uid = 1, fr_status = Pending,
        fr_created_at = 60, fr_decided_at = None, fr_message = None, fr_question = None\<rparr>],
      blocks := [\<lparr>bl_blocker_uid = 2, bl_blocked_uid = 3, bl_created_at = 61\<rparr>],
      groups := [group_row_of \<lparr>ng_id = 9, ng_name = [], ng_description = None,
        ng_avatar_image_id = None, ng_created_at = 50, ng_visibility = Private, ng_kind = Dm,
        ng_dm_uid1 = Some 1, ng_dm_uid2 = Some 2\<rparr>]\<rparr>"

lemmas sample_social_simps = sample_social_def empty_tables_def friendship_row_of_def group_row_of_def

lemma sample_social_ok:
  "friendships_ok sample_social" "dms_ok sample_social" "blocks_ok sample_social"
  "requests_ok sample_social"
  by (simp_all add: sample_social_simps friendships_ok_def dms_ok_def blocks_ok_def requests_ok_def
      distinct_keys_def select_rows_def)

lemma relationship_with_facts:
  assumes "peer \<noteq> uid"
  shows "pr_friends_since (relationship_with db uid peer) \<noteq> None \<longleftrightarrow> are_mutual_friends db uid peer"
    and "pr_blocking (relationship_with db uid peer) \<or> pr_blocked_by (relationship_with db uid peer) \<longleftrightarrow>
      is_blocked_either_direction db uid peer"
    and "are_mutual_friends db uid peer \<Longrightarrow> get_friend_presence_settings db uid peer =
      Inr (friend_presence_override_from_db (pr_shares_presence (relationship_with db uid peer)))"
    and "are_mutual_friends db uid peer \<Longrightarrow> get_friend_presence_settings db peer uid =
      Inr (friend_presence_override_from_db (pr_peer_shares_presence (relationship_with db uid peer)))"
    and "\<not> are_mutual_friends db uid peer \<Longrightarrow>
      pr_shares_presence (relationship_with db uid peer) = None \<and>
      pr_peer_shares_presence (relationship_with db uid peer) = None \<and>
      get_friend_presence_settings db uid peer = Inl (NotFound ''Friendship not found'') \<and>
      get_friend_presence_settings db peer uid = Inl (NotFound ''Friendship not found'')"
proof -
  let ?f = "first_row (is_friendship_of (canonical_pair uid peer)) (friendships db)"
  have comm: "canonical_pair peer uid = canonical_pair uid peer" using assms by (auto simp: canonical_pair_def)
  have friends: "?f \<noteq> None \<longleftrightarrow> are_mutual_friends db uid peer"
    by (auto simp: first_row_None mutual_friends_iff friendship_table.matches_iff)
  then show "pr_friends_since (relationship_with db uid peer) \<noteq> None \<longleftrightarrow> are_mutual_friends db uid peer"
    by (auto simp: relationship_with_def Let_def)
  have "exists_row (is_block_of (uid, peer)) (blocks db) \<or> exists_row (is_block_of (peer, uid)) (blocks db) \<longleftrightarrow>
      is_blocked_either_direction db uid peer"
    by (auto simp: row_simps blocked_iff block_table.matches_iff)
  then show "pr_blocking (relationship_with db uid peer) \<or> pr_blocked_by (relationship_with db uid peer) \<longleftrightarrow>
      is_blocked_either_direction db uid peer"
    by (simp add: relationship_with_def Let_def)
  have settings: "get_friend_presence_settings db uid peer = Inr (friend_presence_override_from_db
        (if uid < peer then fs_uid1_shares_presence r else fs_uid2_shares_presence r)) \<and>
      get_friend_presence_settings db peer uid = Inr (friend_presence_override_from_db
        (if uid < peer then fs_uid2_shares_presence r else fs_uid1_shares_presence r))"
    if "?f = Some r" for r
    using that assms by (auto simp: get_friend_presence_settings_def canonical_pair_def)
  show "get_friend_presence_settings db uid peer =
      Inr (friend_presence_override_from_db (pr_shares_presence (relationship_with db uid peer)))"
    if "are_mutual_friends db uid peer"
    using settings friends that by (cases ?f) (simp_all add: relationship_with_def Let_def)
  show "get_friend_presence_settings db peer uid =
      Inr (friend_presence_override_from_db (pr_peer_shares_presence (relationship_with db uid peer)))"
    if "are_mutual_friends db uid peer"
    using settings friends that by (cases ?f) (simp_all add: relationship_with_def Let_def)
  show "pr_shares_presence (relationship_with db uid peer) = None \<and>
      pr_peer_shares_presence (relationship_with db uid peer) = None \<and>
      get_friend_presence_settings db uid peer = Inl (NotFound ''Friendship not found'') \<and>
      get_friend_presence_settings db peer uid = Inl (NotFound ''Friendship not found'')"
    if "\<not> are_mutual_friends db uid peer"
    using friends that assms
    by (auto simp: relationship_with_def Let_def get_friend_presence_settings_def comm split: prod.split)
qed

text \<open>The batched query behind friend lists and profiles, which splits the peers into two
  halves and folds six result sets into one map, gives for every requested peer what the
  single-pair functions say: friendship, blocks in both directions, the unresolved request and
  who sent it, and each side's own presence override.\<close>

theorem peer_relationships_exact:
  assumes "friendships_ok db" and "dms_ok db" and "blocks_ok db" and "requests_ok db"
    and "peer \<in> set peers" and "peer \<noteq> uid"
  shows "\<exists>rel. peer_relationships db uid peers peer = Some rel \<and>
    (pr_friends_since rel \<noteq> None \<longleftrightarrow> are_mutual_friends db uid peer) \<and>
    (pr_blocking rel \<or> pr_blocked_by rel \<longleftrightarrow> is_blocked_either_direction db uid peer) \<and>
    pr_pending_request rel = map_option (\<lambda>q. (fr_id q, fr_from_uid q = uid, fr_created_at q))
      (find_unresolved_request_between db uid peer) \<and>
    (are_mutual_friends db uid peer \<longrightarrow>
      get_friend_presence_settings db uid peer =
        Inr (friend_presence_override_from_db (pr_shares_presence rel)) \<and>
      get_friend_presence_settings db peer uid =
        Inr (friend_presence_override_from_db (pr_peer_shares_presence rel)))"
  using relationship_with_facts [OF assms(6), of db]
  by (auto simp: peer_relationships_value [OF assms])
    (simp_all add: relationship_with_def Let_def)

lemma peer_relationships_exact_witness:
  "\<exists>rel. peer_relationships sample_social 1 [3, 2] 2 = Some rel \<and> pr_friends_since rel \<noteq> None \<and>
     pr_pending_request rel = None \<and>
     friend_presence_override_from_db (pr_shares_presence rel) = HidePresence"
  using peer_relationships_exact [OF sample_social_ok, of 2 "[3, 2]" 1]
  by (auto simp: sample_social_simps are_mutual_friends_def is_friendship_of_def canonical_pair_def
      count_rows_def find_unresolved_request_between_def get_friend_presence_settings_def
      friend_presence_override_from_db_def)

text \<open>The gate for sending a direct message and the gate for the other writes in a direct chat
  agree: either participant may write exactly while the two are mutual friends and no block is
  in place, and nobody else may.\<close>

theorem dm_gates_agree:
  assumes "dms_ok db" and "g \<in> set (groups db)" and "g_kind g = Dm"
    and "g_dm_uid1 g = Some u1" and "g_dm_uid2 g = Some u2"
  shows "(require_chat_writable db (g_id g) uid = Inr () \<longleftrightarrow>
      (uid = u1 \<or> uid = u2) \<and> are_mutual_friends db u1 u2 \<and> \<not> is_blocked_either_direction db u1 u2) \<and>
    (require_chat_writable db (g_id g) u1 = Inr () \<longleftrightarrow> check_can_dm db u1 u2 = Inr ()) \<and>
    (require_chat_writable db (g_id g) u2 = Inr () \<longleftrightarrow> check_can_dm db u2 u1 = Inr ())"
proof -
  have "first_row (\<lambda>x. g_id x = g_id g) (groups db) = Some g"
    using assms(1,2) by (intro first_row_unique) (auto simp: dms_ok_def dest: distinct_keys_eq)
  moreover have "u1 < u2" using assms by (auto simp: dms_ok_def dest!: bspec)
  ultimately show ?thesis
    using assms(3-5) mutual_friends_comm [of db u1 u2] blocked_comm [of db u1 u2]
    by (auto simp: require_chat_writable_def require_dm_writable_def check_can_dm_def)
qed

lemma dm_gates_agree_witness: "require_chat_writable sample_social 9 2 = Inr () \<and>
    require_chat_writable sample_social 9 3 \<noteq> Inr ()"
  using dm_gates_agree [OF sample_social_ok(2), of "hd (groups sample_social)" 1 2 2]
    dm_gates_agree [OF sample_social_ok(2), of "hd (groups sample_social)" 1 2 3]
  by (simp add: sample_social_simps are_mutual_friends_def is_friendship_of_def canonical_pair_def
      count_rows_def is_blocked_either_direction_def)

text \<open>A presence override belongs to one side of one friendship: after an update the owner reads
  back the value, the peer's own override and every other pair's are what they were, and the
  update fails exactly when the two are not friends.\<close>

theorem presence_override_directional:
  assumes "uid \<noteq> peer"
  shows "case update_friend_presence_settings uid peer v db of
      Inl e \<Rightarrow> e = NotFound ''Friendship not found'' \<and> \<not> are_mutual_friends db uid peer
    | Inr (w, db') \<Rightarrow> w = v \<and> are_mutual_friends db uid peer \<and>
        get_friend_presence_settings db' uid peer = Inr v \<and>
        (\<forall>a b. a \<noteq> b \<and> (a, b) \<noteq> (uid, peer) \<longrightarrow>
          get_friend_presence_settings db' a b = get_friend_presence_settings db a b)"
proof (cases "are_mutual_friends db uid peer")
  case False
  then show ?thesis
    by (simp add: update_friend_presence_settings_def are_mutual_friends_def split_beta)
next
  case True
  let ?p = "canonical_pair uid peer"
  let ?set = "\<lambda>r. if uid = fst ?p then r\<lparr>fs_uid1_shares_presence := friend_presence_override_to_db v\<rparr>
    else r\<lparr>fs_uid2_shares_presence := friend_presence_override_to_db v\<rparr>"
  let ?db' = "db\<lparr>friendships := update_rows (is_friendship_of ?p) ?set (friendships db)\<rparr>"
  have up: "update_friend_presence_settings uid peer v db = Inr (v, ?db')"
    using True by (simp add: update_friend_presence_settings_def are_mutual_friends_def split_beta Let_def)
  have row: "first_row (is_friendship_of q) (update_rows (is_friendship_of ?p) ?set (friendships db)) =
      (if q = ?p then map_option ?set (first_row (is_friendship_of q) (friendships db))
       else first_row (is_friendship_of q) (friendships db))" for q
    by (simp add: friendship_row_update friendship_key_def)
  have "first_row (is_friendship_of ?p) (friendships db) \<noteq> None"
    using True by (auto simp: first_row_None mutual_friends_iff friendship_table.matches_iff)
  then have own: "get_friend_presence_settings ?db' uid peer = Inr v"
    by (auto simp: get_friend_presence_settings_def row split_beta)
  have "get_friend_presence_settings ?db' a b = get_friend_presence_settings db a b"
    if "a \<noteq> b" "(a, b) \<noteq> (uid, peer)" for a b
  proof (cases "canonical_pair a b = ?p")
    case False
    then show ?thesis by (simp add: get_friend_presence_settings_def row split_beta)
  next
    case same: True
    then have "a = peer" and "b = uid" using that by (auto simp: canonical_pair_eq)
    with assms show ?thesis
      by (cases "first_row (is_friendship_of ?p) (friendships db)")
        (auto simp: get_friend_presence_settings_def friendship_row_update friendship_key_def
          split_beta canonical_pair_def)
  qed
  with True own show ?thesis by (simp add: up)
qed

lemma presence_override_directional_witness:
  "case update_friend_presence_settings 2 1 SharePresence sample_social of Inl e \<Rightarrow> False
   | Inr (w, db') \<Rightarrow> get_friend_presence_settings db' 2 1 = Inr SharePresence"
  using presence_override_directional [where uid = 2 and peer = 1 and v = SharePresence and db = sample_social]
  by (simp add: are_mutual_friends_def is_friendship_of_def canonical_pair_def count_rows_def
      sample_social_simps split: sum.splits prod.splits)

text \<open>The read-receipt setting of a user who has no activity row yet is not stored: whatever is
  requested, the new row and the response say "friends". For everybody else the request is
  stored, and other users are not affected.\<close>

theorem read_receipt_setting_of_new_user_lost:
  "(case update_read_receipt_settings uid v now db of (w, db') \<Rightarrow>
     w = get_read_receipt_settings db' uid \<and>
     get_read_receipt_settings db' uid = (if find_user_extra db uid = None then ReceiptFriends else v) \<and>
     (\<forall>u. u \<noteq> uid \<longrightarrow> get_read_receipt_settings db' u = get_read_receipt_settings db u))"
  by (simp add: update_read_receipt_settings_def get_read_receipt_settings_def Let_def
      find_user_extra_upsert user_extra_row_of_def new_user_extra_new_def split: option.split)

lemma read_receipt_setting_of_new_user_lost_witness:
  "fst (update_read_receipt_settings 7 ReceiptNobody 5 empty_tables) = ReceiptFriends"
  using read_receipt_setting_of_new_user_lost [where uid = 7 and v = ReceiptNobody and now = 5
    and db = empty_tables]
  by (simp add: find_user_extra_def empty_tables_def split: prod.splits)

end
