(* ===== verification/Users.thy ===== *)
theory Users
  imports Models
begin

text \<open>
  \<open>backend/src/services/user.rs\<close>: the account's chat settings, the user search query and the
  profile lookup in the forum's (Discuz) tables, which the backend only reads. The SQL searches
  by username prefix are not modelled: they rest on PostgreSQL's locale-dependent \<open>LOWER\<close>.
\<close>

section \<open>Chat settings\<close>

record membership_message_policy =
  mp_visibility :: membership_message_visibility
  mp_can_view :: bool

definition load_chat_settings :: "tables \<Rightarrow> uid \<Rightarrow> bool" where
  "load_chat_settings db uid =
     (case first_row (\<lambda>r. ux_uid r = uid) (user_extras db) of
        None \<Rightarrow> True | Some r \<Rightarrow> ux_show_membership_messages r)"

text \<open>One query: the group, left-joined with the account row and the membership.\<close>

definition load_chat_settings_for_chat ::
  "tables \<Rightarrow> uid \<Rightarrow> snowflake \<Rightarrow> db_error + bool \<times> group_kind \<times> membership_message_policy" where
  "load_chat_settings_for_chat db uid chat_id =
     and_then (ok_or (first_row (\<lambda>g. g_id g = chat_id) (groups db)) DbNotFound) (\<lambda>g.
       let show = map_option ux_show_membership_messages
             (first_row (\<lambda>r. ux_uid r = uid) (user_extras db));
           role = map_option gm_role (first_row (is_membership_of (chat_id, uid)) (memberships db));
           visibility = g_membership_message_visibility g
       in Inr (case show of None \<Rightarrow> True | Some b \<Rightarrow> b, g_kind g,
            \<lparr>mp_visibility = visibility,
             mp_can_view = (g_kind g = Dm \<or> membership_messages_allowed visibility role)\<rparr>))"

definition save_chat_settings :: "uid \<Rightarrow> bool \<Rightarrow> timestamp \<Rightarrow> tables \<Rightarrow> bool \<times> tables" where
  "save_chat_settings uid show now db =
     (show, db\<lparr>user_extras := upsert_row (\<lambda>r. ux_uid r = uid)
        ((user_extra_row_of (new_user_extra_new uid now))\<lparr>ux_show_membership_messages := show\<rparr>)
        (\<lambda>r. r\<lparr>ux_show_membership_messages := show\<rparr>) (user_extras db)\<rparr>)"

section \<open>Profiles\<close>

record discuz_member =
  cm_uid :: uid
  cm_username :: ustr
  cm_groupid :: int

record usergroup_extra =
  uge_groupid :: int
  uge_chat_group_color :: "ustr option"
  uge_chat_group_color_dark :: "ustr option"

record discuz_tables =
  common_member :: "discuz_member list"
  common_member_profile :: "(uid \<times> int) list" \<comment> \<open>\<open>uid\<close>, \<open>gender\<close>\<close>
  common_usergroup :: "(int \<times> ustr) list" \<comment> \<open>\<open>groupid\<close>, \<open>grouptitle\<close>\<close>
  usergroup_extras :: "usergroup_extra list"

record user_group_tag_info =
  ug_group_id :: int
  ug_name :: "ustr option"
  ug_chat_group_color :: "ustr option"
  ug_chat_group_color_dark :: "ustr option"

record user_profile =
  upr_username :: "ustr option"
  upr_gender :: int
  upr_user_group :: "user_group_tag_info option"

definition normalize_discuz_username :: "ustr \<Rightarrow> ustr" where
  "normalize_discuz_username username = trim_end username"

definition left_join :: "('b \<Rightarrow> bool) \<Rightarrow> 'b list \<Rightarrow> 'b option list" where
  "left_join P rows = (case select_rows P rows of [] \<Rightarrow> [None] | xs \<Rightarrow> map Some xs)"

definition profile_rows ::
  "discuz_tables \<Rightarrow> uid list \<Rightarrow>
   (discuz_member \<times> (uid \<times> int) option \<times> (int \<times> ustr) option \<times> usergroup_extra option) list" where
  "profile_rows d uids =
     concat (map (\<lambda>cm. concat (map (\<lambda>cmp. concat (map (\<lambda>cug. map (\<lambda>uge. (cm, cmp, cug, uge))
         (left_join (\<lambda>g. uge_groupid g = cm_groupid cm) (usergroup_extras d)))
         (left_join (\<lambda>g. fst g = cm_groupid cm) (common_usergroup d))))
         (left_join (\<lambda>p. fst p = cm_uid cm) (common_member_profile d))))
       (select_rows (\<lambda>cm. cm_uid cm \<in> set uids) (common_member d)))"

definition lookup_user_profiles :: "discuz_tables \<Rightarrow> uid list \<Rightarrow> (uid \<rightharpoonup> user_profile)" where
  "lookup_user_profiles d uids =
     (if uids = [] then Map.empty
      else fold (\<lambda>(cm, cmp, cug, uge) m. m(cm_uid cm \<mapsto>
          \<lparr>upr_username = Some (normalize_discuz_username (cm_username cm)),
           upr_gender = (case cmp of None \<Rightarrow> 0 | Some p \<Rightarrow> snd p),
           upr_user_group = Some \<lparr>ug_group_id = cm_groupid cm, ug_name = map_option snd cug,
             ug_chat_group_color = Option.bind uge uge_chat_group_color,
             ug_chat_group_color_dark = Option.bind uge uge_chat_group_color_dark\<rparr>\<rparr>))
        (profile_rows d uids) Map.empty)"

section \<open>The search query\<close>

datatype user_search_mode = Autocomplete | Submitted

record parsed_user_search =
  us_username_prefix :: ustr
  us_exact_uid :: "int option"

text \<open>\<open>str::parse\<close> of a signed integer: an optional sign and at least one ASCII digit, in range.\<close>

definition is_digit :: "nat \<Rightarrow> bool" where
  "is_digit c \<longleftrightarrow> 48 \<le> c \<and> c \<le> 57"

definition digits_value :: "ustr \<Rightarrow> int" where
  "digits_value ds = foldl (\<lambda>n c. 10 * n + (int c - 48)) 0 ds"

definition parse_signed :: "int \<Rightarrow> ustr \<Rightarrow> int option" where
  "parse_signed bound s =
     (let (negative, ds) = (case s of [] \<Rightarrow> (False, [])
            | c # cs \<Rightarrow> if c = 45 then (True, cs) else if c = 43 then (False, cs) else (False, s));
          v = (if negative then - digits_value ds else digits_value ds)
      in if ds \<noteq> [] \<and> list_all is_digit ds \<and> - bound \<le> v \<and> v < bound then Some v else None)"

definition parse_i32 :: "ustr \<Rightarrow> int option" where
  "parse_i32 = parse_signed (2 ^ 31)"

definition parse_i64 :: "ustr \<Rightarrow> int option" where
  "parse_i64 = parse_signed (2 ^ 63)"

definition parse_user_search_query ::
  "ustr option \<Rightarrow> user_search_mode \<Rightarrow> parsed_user_search option" where
  "parse_user_search_query raw mode =
     (case raw of None \<Rightarrow> None
      | Some raw \<Rightarrow>
          (let query = trim raw
           in if query = [] then None
              else Some \<lparr>us_username_prefix = query,
                us_exact_uid = (if mode = Submitted then parse_i32 query else None)\<rparr>))"

section \<open>Lemmas\<close>

definition profile_username :: "discuz_tables \<Rightarrow> uid list \<Rightarrow> uid \<Rightarrow> ustr option" where
  "profile_username d uids uid = Option.bind (lookup_user_profiles d uids uid) upr_username"

text \<open>Membership notices: an account without a row shows them; the group's policy applies to
  groups only (direct chats always show them), and to the requester's current role.\<close>

theorem chat_settings_for_chat_exact:
  assumes "distinct_keys g_id (groups db)" and "distinct_keys membership_key (memberships db)"
    and "g \<in> set (groups db)" and "g_id g = chat_id"
  shows "\<exists>policy. load_chat_settings_for_chat db uid chat_id =
      Inr (load_chat_settings db uid, g_kind g, policy) \<and>
    mp_visibility policy = g_membership_message_visibility g \<and>
    (mp_can_view policy \<longleftrightarrow> g_kind g = Dm \<or>
      (\<exists>m \<in> set (memberships db). membership_key m = (chat_id, uid) \<and>
        (mp_visibility policy = VisMembers \<or> mp_visibility policy = VisAdmins \<and> gm_role m = Admin)))"
proof -
  have g: "first_row (\<lambda>g. g_id g = chat_id) (groups db) = Some g"
    using assms(1,3,4) by (intro first_row_unique) (auto dest: distinct_keys_eq)
  have m: "membership_messages_allowed v (map_option gm_role (first_row (is_membership_of (chat_id, uid))
      (memberships db))) \<longleftrightarrow> (\<exists>m \<in> set (memberships db). membership_key m = (chat_id, uid) \<and>
        (v = VisMembers \<or> v = VisAdmins \<and> gm_role m = Admin))" for v
  proof (cases "first_row (is_membership_of (chat_id, uid)) (memberships db)")
    case None
    then show ?thesis
      by (cases v) (simp_all add: membership_messages_allowed_def None,
        auto simp: None [unfolded first_row_None] membership_table.matches_iff
          dest: None [unfolded first_row_None, THEN bspec])
  next
    case (Some m)
    then have "m \<in> set (memberships db) \<and> membership_key m = (chat_id, uid)"
      using membership_table.find_unique [OF assms(2)] by simp
    then show ?thesis using Some assms(2)
      by (cases v) (auto simp: membership_messages_allowed_def dest: distinct_keys_eq)
  qed
  show ?thesis
    by (simp add: load_chat_settings_for_chat_def load_chat_settings_def g m Let_def split: option.split)
qed

lemma chat_settings_for_chat_exact_witness:
  "\<exists>policy. load_chat_settings_for_chat (empty_tables\<lparr>groups := [(group_row_of \<lparr>ng_id = 1, ng_name = [],
       ng_description = None, ng_avatar_image_id = None, ng_created_at = 0, ng_visibility = Public,
       ng_kind = Group, ng_dm_uid1 = None, ng_dm_uid2 = None\<rparr>)\<lparr>g_membership_message_visibility := VisAdmins\<rparr>]\<rparr>) 5 1 =
     Inr (True, Group, policy) \<and> \<not> mp_can_view policy"
  (is "\<exists>policy. load_chat_settings_for_chat ?db 5 1 = _ policy \<and> _ policy")
  using chat_settings_for_chat_exact [of ?db "hd (groups ?db)" 1 5]
  by (auto simp: distinct_keys_def empty_tables_def group_row_of_def load_chat_settings_def)

end
