(* ===== verification/Friend_Requests.thy ===== *)
theory Friend_Requests
  imports Social Users "HOL-Library.Product_Lexorder"
begin

text \<open>
  \<open>backend/src/services/social.rs\<close>, friend requests: creating, accepting, rejecting, archiving
  and listing them, and the direct chat that an accepted friendship gets.

  \<open>create_friend_request\<close> reads outside any transaction and commits in one, so between its
  reads and its commit other requests may commit. The model gives it two database states:
  \<open>seen\<close>, what its reads returned (each table possibly at another moment), and \<open>db\<close>, the state
  its transaction runs on. \<open>seen = db\<close> is the undisturbed run. The forum's user tables, the
  clock, PostgreSQL's \<open>NOW()\<close> and the snowflake generator (\<open>None\<close> when it fails) are arguments.
  What the caller does after the commit is returned as a list of effects.
\<close>

section \<open>The direct chat of a friendship\<close>

definition dm_group :: "snowflake \<Rightarrow> ustr \<Rightarrow> timestamp \<Rightarrow> uid \<times> uid \<Rightarrow> group_row" where
  "dm_group gid name now p = group_row_of
     \<lparr>ng_id = gid, ng_name = name, ng_description = None, ng_avatar_image_id = None,
      ng_created_at = now, ng_visibility = Private, ng_kind = Dm,
      ng_dm_uid1 = Some (fst p), ng_dm_uid2 = Some (snd p)\<rparr>"

definition dm_member ::
  "timestamp \<Rightarrow> snowflake \<Rightarrow> uid \<Rightarrow> timestamp \<Rightarrow> group_join_reason \<Rightarrow> membership_row" where
  "dm_member db_now gid uid now reason = membership_row_of db_now
     \<lparr>ngm_chat_id = gid, ngm_uid = uid, ngm_role = Member, ngm_joined_at = now,
      ngm_join_reason = reason, ngm_join_reason_extra = None, ngm_last_read_message_id = None\<rparr>"

definition create_dm_for_friendship ::
  "snowflake \<Rightarrow> uid \<Rightarrow> uid \<Rightarrow> timestamp \<Rightarrow> timestamp \<Rightarrow> discuz_tables \<Rightarrow> tables \<Rightarrow>
   app_error + (snowflake \<times> group_kind) \<times> tables" where
  "create_dm_for_friendship gid user_a user_b now db_now d db =
     (let (u1, u2) = canonical_pair user_a user_b;
          missing = Internal ''DM participant username missing''
      in and_then (ok_or (profile_username d [u1, u2] u1) missing) (\<lambda>username_a.
         and_then (ok_or (profile_username d [u1, u2] u2) missing) (\<lambda>username_b.
         if exists_row (\<lambda>g. g_id g = gid \<or> is_dm_of (u1, u2) g) (groups db)
         then and_then (ok_or (first_row (is_dm_of (u1, u2)) (groups db))
             (Internal ''Concurrent DM disappeared'')) (\<lambda>g. Inr ((g_id g, g_kind g), db))
         else if exists_row (\<lambda>m. membership_key m \<in> {(gid, user_a), (gid, user_b)}) (memberships db)
         then Inl (DbQuery DbUniqueViolation)
         else Inr ((gid, Dm),
           db\<lparr>groups := groups db @
                [dm_group gid (username_a @ ascii '' - '' @ username_b) now (u1, u2)],
              memberships := memberships db @
                [dm_member db_now gid user_a now JoinCreator,
                 dm_member db_now gid user_b now JoinDirectInvite]\<rparr>))))"

section \<open>Creating a request\<close>

datatype social_effect =
    PairPolicyChanged uid uid
  | AnnounceAccepted uid uid snowflake group_kind

datatype create_request_outcome =
    Created friend_request
  | AutoAccepted friend_request
  | AlreadyPending
  | AlreadyFriends

text \<open>The three messages of \<open>normalize_request_message\<close>, in UTF-8.\<close>

definition friend_requests_refused :: string where
  "friend_requests_refused = [CHR 0xE5, CHR 0xAF, CHR 0xB9, CHR 0xE6, CHR 0x96, CHR 0xB9, CHR 0xE5,
     CHR 0xB7, CHR 0xB2, CHR 0xE8, CHR 0xAE, CHR 0xBE, CHR 0xE7, CHR 0xBD, CHR 0xAE, CHR 0xE6,
     CHR 0x8B, CHR 0x92, CHR 0xE7, CHR 0xBB, CHR 0x9D, CHR 0xE6, CHR 0xB7, CHR 0xBB, CHR 0xE5,
     CHR 0x8A, CHR 0xA0, CHR 0xE5, CHR 0xA5, CHR 0xBD, CHR 0xE5, CHR 0x8F, CHR 0x8B]"

definition verification_message_empty :: string where
  "verification_message_empty = [CHR 0xE9, CHR 0xAA, CHR 0x8C, CHR 0xE8, CHR 0xAF, CHR 0x81,
     CHR 0xE6, CHR 0xB6, CHR 0x88, CHR 0xE6, CHR 0x81, CHR 0xAF, CHR 0xE4, CHR 0xB8, CHR 0x8D,
     CHR 0xE8, CHR 0x83, CHR 0xBD, CHR 0xE4, CHR 0xB8, CHR 0xBA, CHR 0xE7, CHR 0xA9, CHR 0xBA]"

definition answer_required :: string where
  "answer_required = [CHR 0xE8, CHR 0xAF, CHR 0xB7, CHR 0xE5, CHR 0x9B, CHR 0x9E, CHR 0xE7,
     CHR 0xAD, CHR 0x94, CHR 0xE9, CHR 0x97, CHR 0xAE, CHR 0xE9, CHR 0xA2, CHR 0x98]"

definition normalize_request_message ::
  "friend_add_verification_mode \<Rightarrow> ustr option \<Rightarrow> ustr option \<Rightarrow>
   app_error + ustr option \<times> ustr option" where
  "normalize_request_message mode message target_question =
     (let trimmed = trimmed_nonempty message
      in case mode of
           Forbid \<Rightarrow> Inl (Forbidden friend_requests_refused)
         | Direct \<Rightarrow> Inr (None, None)
         | NeedMessage \<Rightarrow>
             and_then (ok_or trimmed (BadRequest verification_message_empty))
               (\<lambda>m. Inr (Some m, None))
         | Question \<Rightarrow>
             and_then (ok_or trimmed (BadRequest answer_required)) (\<lambda>answer.
             and_then (ok_or target_question (Internal ''Question missing for question mode''))
               (\<lambda>q. Inr (Some answer, Some q))))"

definition decide :: "friend_request_status \<Rightarrow> timestamp \<Rightarrow> friend_request \<Rightarrow> friend_request" where
  "decide status now r = r\<lparr>fr_status := status, fr_decided_at := Some now\<rparr>"

text \<open>The transaction that accepts a reciprocal request.\<close>

definition auto_accept ::
  "snowflake \<Rightarrow> uid \<Rightarrow> uid \<Rightarrow> timestamp \<Rightarrow> snowflake \<Rightarrow> timestamp \<Rightarrow> discuz_tables \<Rightarrow> tables \<Rightarrow>
   app_error + (friend_request \<times> snowflake \<times> group_kind) \<times> tables" where
  "auto_accept existing_id from_uid to_uid now gid db_now d db =
     (let P = (\<lambda>r. fr_id r = existing_id \<and> fr_from_uid r = to_uid \<and> fr_to_uid r = from_uid \<and> unresolved r)
      in and_then (ok_or (map_option (decide Accepted now) (first_row P (friend_requests db)))
           (Conflict ''Friend request is no longer pending'')) (\<lambda>updated.
         let db1 = db\<lparr>friend_requests := update_rows P (decide Accepted now) (friend_requests db)\<rparr>
         in and_then (create_dm_for_friendship gid from_uid to_uid now db_now d
              (insert_friendship from_uid to_uid from_uid now db1))
              (\<lambda>(dm, db'). Inr ((updated, dm), db'))))"

text \<open>The transaction that stores a new request; the primary key and the unique index on
  unresolved pairs reject it as a conflict.\<close>

definition insert_request ::
  "new_friend_request \<Rightarrow> tables \<Rightarrow> app_error + friend_request \<times> tables" where
  "insert_request n db =
     (if exists_row (\<lambda>r. fr_id r = nfr_id n \<or>
           unresolved r \<and> request_pair r = canonical_pair (nfr_from_uid n) (nfr_to_uid n))
         (friend_requests db)
      then Inl (Conflict ''Friend request already pending'')
      else Inr (friend_request_of n,
        db\<lparr>friend_requests := friend_requests db @ [friend_request_of n]\<rparr>))"

definition create_friend_request ::
  "tables \<Rightarrow> uid \<Rightarrow> uid \<Rightarrow> ustr option \<Rightarrow> timestamp \<Rightarrow> snowflake option \<Rightarrow> snowflake option \<Rightarrow>
   timestamp \<Rightarrow> discuz_tables \<Rightarrow> tables \<Rightarrow>
   app_error + (create_request_outcome \<times> social_effect list) \<times> tables" where
  "create_friend_request seen from_uid to_uid message now gid new_id db_now d db =
     (if from_uid = to_uid then Inl (BadRequest ''Cannot send a friend request to yourself'')
      else if is_blocked_either_direction seen from_uid to_uid
      then Inl (Forbidden ''Cannot send a friend request to a blocked user'')
      else if are_mutual_friends seen from_uid to_uid then Inr ((AlreadyFriends, []), db)
      else case find_unresolved_request_between seen from_uid to_uid of
          Some existing \<Rightarrow>
            (if fr_from_uid existing = from_uid then Inr ((AlreadyPending, []), db)
             else and_then (ok_or gid (Internal ''Failed to generate id'')) (\<lambda>gid.
               and_then (auto_accept (fr_id existing) from_uid to_uid now gid db_now d db)
                 (\<lambda>((request, chat_id, kind), db').
                   Inr ((AutoAccepted request, [PairPolicyChanged from_uid to_uid,
                     AnnounceAccepted from_uid to_uid chat_id kind]), db'))))
        | None \<Rightarrow>
            (let (mode, target_question) = get_friend_settings seen to_uid
             in and_then (normalize_request_message mode message target_question)
                  (\<lambda>(message, question).
                and_then (ok_or new_id (Internal ''Failed to generate id'')) (\<lambda>new_id.
                and_then (insert_request
                    \<lparr>nfr_id = new_id, nfr_from_uid = from_uid, nfr_to_uid = to_uid,
                     nfr_status = Pending, nfr_created_at = now, nfr_message = message,
                     nfr_question = question\<rparr> db)
                  (\<lambda>(request, db'). Inr ((Created request, []), db'))))))"

section \<open>Resolving a request\<close>

datatype resolve_outcome = Resolved friend_request | RejectedWhileFriends friend_request

definition resolve_outcome_request :: "resolve_outcome \<Rightarrow> friend_request" where
  "resolve_outcome_request o' = (case o' of Resolved r \<Rightarrow> r | RejectedWhileFriends r \<Rightarrow> r)"

text \<open>\<open>gid\<close> is the id generated before an acceptance.\<close>

definition resolve_transaction ::
  "uid \<Rightarrow> snowflake \<Rightarrow> snowflake option \<Rightarrow> friend_request_status \<Rightarrow> timestamp \<Rightarrow> timestamp \<Rightarrow>
   discuz_tables \<Rightarrow> tables \<Rightarrow>
   app_error + (resolve_outcome \<times> (snowflake \<times> group_kind) option) \<times> tables" where
  "resolve_transaction resolver_uid request_id gid new_status now db_now d db =
     (let P = (\<lambda>r. fr_id r = request_id \<and> fr_to_uid r = resolver_uid \<and> unresolved r);
          db1 = db\<lparr>friend_requests := update_rows P (decide new_status now) (friend_requests db)\<rparr>
      in case map_option (decide new_status now) (first_row P (friend_requests db)) of
           None \<Rightarrow>
             (case map_option fr_to_uid (first_row (\<lambda>r. fr_id r = request_id) (friend_requests db)) of
                None \<Rightarrow> Inl (NotFound ''Friend request not found'')
              | Some to_uid \<Rightarrow>
                  if to_uid \<noteq> resolver_uid
                  then Inl (Forbidden ''Only the recipient can respond to this friend request'')
                  else Inl (Conflict ''Friend request is no longer pending''))
         | Some request \<Rightarrow>
             (case gid of
                Some gid \<Rightarrow>
                  and_then (create_dm_for_friendship gid (fr_from_uid request) (fr_to_uid request)
                      now db_now d
                      (insert_friendship (fr_from_uid request) (fr_to_uid request)
                         (fr_from_uid request) now db1))
                    (\<lambda>(dm, db'). Inr ((Resolved request, Some dm), db'))
              | None \<Rightarrow>
                  if are_mutual_friends db1 (fr_from_uid request) (fr_to_uid request)
                  then Inr ((RejectedWhileFriends request, None), db1)
                  else Inr ((Resolved request, None), db1)))"

definition resolve_friend_request ::
  "uid \<Rightarrow> snowflake \<Rightarrow> bool \<Rightarrow> timestamp \<Rightarrow> snowflake option \<Rightarrow> timestamp \<Rightarrow> discuz_tables \<Rightarrow> tables \<Rightarrow>
   app_error + (resolve_outcome \<times> social_effect list) \<times> tables" where
  "resolve_friend_request resolver_uid request_id accept now new_gid db_now d db =
     and_then
       (if accept
        then and_then (ok_or new_gid (Internal ''Failed to generate id'')) (\<lambda>g. Inr (Some g))
        else Inr None) (\<lambda>gid.
     and_then (resolve_transaction resolver_uid request_id gid
        (if accept then Accepted else Rejected) now db_now d db) (\<lambda>((outcome, dm), db').
       Inr ((outcome,
         (case dm of
            None \<Rightarrow> []
          | Some (chat_id, kind) \<Rightarrow>
              (let request = resolve_outcome_request outcome
               in [PairPolicyChanged (fr_from_uid request) (fr_to_uid request),
                   AnnounceAccepted resolver_uid (fr_from_uid request) chat_id kind]))), db')))"

definition archive_friend_request :: "uid \<Rightarrow> snowflake \<Rightarrow> tables \<Rightarrow> app_error + unit \<times> tables" where
  "archive_friend_request uid request_id db =
     (let P = (\<lambda>r. fr_id r = request_id \<and> fr_to_uid r = uid \<and> fr_status r = Pending)
      in if count_rows P (friend_requests db) = 0
         then Inl (NotFound ''Pending friend request not found'')
         else Inr ((), db\<lparr>friend_requests :=
           update_rows P (\<lambda>r. r\<lparr>fr_status := Archived\<rparr>) (friend_requests db)\<rparr>))"

section \<open>History\<close>

definition newest_first :: "friend_request list \<Rightarrow> friend_request list" where
  "newest_first rs = sort_key (\<lambda>r. (- fr_created_at r, - fr_id r)) rs"

definition list_incoming_request_history :: "tables \<Rightarrow> uid \<Rightarrow> bool option \<Rightarrow> friend_request list" where
  "list_incoming_request_history db uid archived =
     newest_first (select_rows (\<lambda>r. fr_to_uid r = uid \<and>
        (case archived of
           Some False \<Rightarrow> fr_status r = Pending
         | Some True \<Rightarrow> fr_status r \<noteq> Pending
         | None \<Rightarrow> True)) (friend_requests db))"

definition list_outgoing_request_history :: "tables \<Rightarrow> uid \<Rightarrow> bool option \<Rightarrow> friend_request list" where
  "list_outgoing_request_history db uid archived =
     (if archived = Some False then []
      else newest_first (select_rows (\<lambda>r. fr_from_uid r = uid) (friend_requests db)))"

definition merge_request_history :: "friend_request list \<Rightarrow> friend_request list \<Rightarrow> friend_request list" where
  "merge_request_history incoming outgoing = newest_first (incoming @ outgoing)"

definition list_friend_request_history :: "tables \<Rightarrow> uid \<Rightarrow> bool option \<Rightarrow> friend_request list" where
  "list_friend_request_history db uid archived =
     merge_request_history (list_incoming_request_history db uid archived)
       (list_outgoing_request_history db uid archived)"

definition count_pending_incoming_requests :: "tables \<Rightarrow> uid \<Rightarrow> nat" where
  "count_pending_incoming_requests db uid =
     count_rows (\<lambda>r. fr_to_uid r = uid \<and> fr_status r = Pending) (friend_requests db)"

section \<open>The invariant\<close>

text \<open>Every friendship has its direct chat, and both participants are members of it.\<close>

definition friendships_have_dm :: "tables \<Rightarrow> bool" where
  "friendships_have_dm db \<longleftrightarrow>
     (\<forall>f \<in> set (friendships db). \<exists>g \<in> set (groups db). is_dm_of (friendship_key f) g)"

definition dms_have_members :: "tables \<Rightarrow> bool" where
  "dms_have_members db \<longleftrightarrow>
     (\<forall>g \<in> set (groups db). \<forall>p. is_dm_of p g \<longrightarrow>
        (g_id g, fst p) \<in> membership_key ` set (memberships db) \<and>
        (g_id g, snd p) \<in> membership_key ` set (memberships db))"

definition social_ok :: "tables \<Rightarrow> bool" where
  "social_ok db \<longleftrightarrow> friendships_ok db \<and> blocks_ok db \<and> requests_ok db \<and> dms_ok db \<and>
     verification_ok db \<and> distinct_keys membership_key (memberships db) \<and>
     friendships_have_dm db \<and> dms_have_members db"

lemmas social_ok_unfold = social_ok_def friendships_have_dm_def dms_have_members_def

text \<open>Each predicate depends on its own tables only.\<close>

lemma pieces_frame [simp]:
  "friendships_ok (db\<lparr>friend_requests := x\<rparr>) = friendships_ok db"
  "blocks_ok (db\<lparr>friend_requests := x\<rparr>) = blocks_ok db"
  "dms_ok (db\<lparr>friend_requests := x\<rparr>) = dms_ok db"
  "verification_ok (db\<lparr>friend_requests := x\<rparr>) = verification_ok db"
  "requests_ok (db\<lparr>friendships := f\<rparr>) = requests_ok db"
  "blocks_ok (db\<lparr>friendships := f\<rparr>) = blocks_ok db"
  "dms_ok (db\<lparr>friendships := f\<rparr>) = dms_ok db"
  "verification_ok (db\<lparr>friendships := f\<rparr>) = verification_ok db"
  "requests_ok (db\<lparr>groups := g, memberships := m\<rparr>) = requests_ok db"
  "blocks_ok (db\<lparr>groups := g, memberships := m\<rparr>) = blocks_ok db"
  "friendships_ok (db\<lparr>groups := g, memberships := m\<rparr>) = friendships_ok db"
  "verification_ok (db\<lparr>groups := g, memberships := m\<rparr>) = verification_ok db"
  "requests_ok (db\<lparr>blocks := b\<rparr>) = requests_ok db"
  "friendships_ok (db\<lparr>blocks := b\<rparr>) = friendships_ok db"
  "dms_ok (db\<lparr>blocks := b\<rparr>) = dms_ok db"
  "verification_ok (db\<lparr>blocks := b\<rparr>) = verification_ok db"
  "requests_ok (db\<lparr>user_extras := u\<rparr>) = requests_ok db"
  "friendships_ok (db\<lparr>user_extras := u\<rparr>) = friendships_ok db"
  "dms_ok (db\<lparr>user_extras := u\<rparr>) = dms_ok db"
  "blocks_ok (db\<lparr>user_extras := u\<rparr>) = blocks_ok db"
  by (simp_all add: friendships_ok_def blocks_ok_def dms_ok_def verification_ok_def requests_ok_def)

lemma distinct_filter_map:
  assumes "\<And>r. Q (g r) \<Longrightarrow> Q r" and "\<And>r. k (g r) = k r" and "distinct (map k (filter Q rows))"
  shows "distinct (map k (filter Q (map g rows)))"
  using assms(3)
proof (induction rows)
  case Nil
  then show ?case by simp
next
  case (Cons r rows)
  have "k ` set (filter Q (map g rows)) \<subseteq> k ` set (filter Q rows)"
  proof
    fix x
    assume "x \<in> k ` set (filter Q (map g rows))"
    then obtain r' where "r' \<in> set rows" and "Q (g r')" and "x = k (g r')" by auto
    with assms(1,2) have "r' \<in> set (filter Q rows)" and "x = k r'" by auto
    then show "x \<in> k ` set (filter Q rows)" by blast
  qed
  with Cons assms(1) [of r] assms(2) [of r] show ?case
    by (cases "Q (g r)") (auto split: if_splits)
qed

lemma request_update_ok:
  assumes "requests_ok db"
    and "\<And>r. P r \<Longrightarrow> fr_id (f r) = fr_id r \<and> fr_from_uid (f r) = fr_from_uid r \<and>
      fr_to_uid (f r) = fr_to_uid r \<and> fr_message (f r) = fr_message r \<and> fr_question (f r) = fr_question r"
    and "\<And>r. P r \<Longrightarrow> unresolved r"
  shows "requests_ok (db\<lparr>friend_requests := update_rows P f (friend_requests db)\<rparr>)"
proof -
  have pair: "request_pair (if P r then f r else r) = request_pair r" for r
    using assms(2) by (simp add: request_pair_def)
  have sub: "unresolved (if P r then f r else r) \<Longrightarrow> unresolved r" for r
    using assms(3) by (auto split: if_splits)
  have "distinct (map request_pair (filter unresolved (update_rows P f (friend_requests db))))"
    unfolding update_rows_def
    by (rule distinct_filter_map, rule sub, assumption, rule pair)
      (use assms(1) in \<open>simp_all add: requests_ok_def distinct_keys_def select_rows_def\<close>)
  moreover have "distinct_keys fr_id (update_rows P f (friend_requests db))"
    using assms(1,2) by (simp add: requests_ok_def distinct_keys_update)
  ultimately show ?thesis
    using assms(1,2) by (auto simp: requests_ok_def distinct_keys_def select_rows_def row_simps)
qed

lemma social_ok_request_update:
  assumes "social_ok db" and "requests_ok (db\<lparr>friend_requests := rows\<rparr>)"
  shows "social_ok (db\<lparr>friend_requests := rows\<rparr>)"
  using assms by (simp add: social_ok_unfold)

lemma decide_ok:
  assumes "social_ok db" and "\<And>r. P r \<Longrightarrow> unresolved r"
  shows "social_ok (db\<lparr>friend_requests := update_rows P (decide status now) (friend_requests db)\<rparr>)"
  using assms
  by (intro social_ok_request_update request_update_ok) (simp_all add: social_ok_def decide_def)

lemma archive_ok:
  assumes "social_ok db" and "archive_friend_request uid i db = Inr (r, db')"
  shows "social_ok db'"
proof -
  have "db' = db\<lparr>friend_requests := update_rows
      (\<lambda>r. fr_id r = i \<and> fr_to_uid r = uid \<and> fr_status r = Pending)
      (\<lambda>r. r\<lparr>fr_status := Archived\<rparr>) (friend_requests db)\<rparr>"
    using assms(2) by (simp add: archive_friend_request_def Let_def split: if_splits)
  with assms(1) show ?thesis
    by (simp only:, intro social_ok_request_update request_update_ok)
      (simp_all add: social_ok_def unresolved_def)
qed

lemma insert_request_ok:
  assumes "social_ok db" and "insert_request n db = Inr (r, db')"
    and "nfr_from_uid n \<noteq> nfr_to_uid n" and "nfr_question n \<noteq> None \<longrightarrow> nfr_message n \<noteq> None"
  shows "social_ok db'"
proof -
  have "db' = db\<lparr>friend_requests := friend_requests db @ [friend_request_of n]\<rparr>"
    and "\<forall>r \<in> set (friend_requests db). fr_id r \<noteq> nfr_id n \<and>
      \<not> (unresolved r \<and> request_pair r = canonical_pair (nfr_from_uid n) (nfr_to_uid n))"
    using assms(2) by (auto simp: insert_request_def row_simps split: if_splits)
  with assms show ?thesis
    by (simp only:, intro social_ok_request_update)
      (auto simp: social_ok_def requests_ok_def distinct_keys_def select_rows_def friend_request_of_def
        request_pair_def)
qed

section \<open>Accepting\<close>

text \<open>What creating the direct chat of a pair does.\<close>

lemma create_dm_cases:
  assumes "create_dm_for_friendship gid a b now db_now d db = Inr ((i, kind), db')"
  obtains (existing) g where "g \<in> set (groups db)" and "is_dm_of (canonical_pair a b) g"
      and "i = g_id g" and "kind = Dm" and "db' = db"
    | (fresh) name where "i = gid" and "kind = Dm"
      and "\<forall>g \<in> set (groups db). g_id g \<noteq> gid \<and> \<not> is_dm_of (canonical_pair a b) g"
      and "\<forall>m \<in> set (memberships db). membership_key m \<notin> {(gid, a), (gid, b)}"
      and "db' = db\<lparr>groups := groups db @ [dm_group gid name now (canonical_pair a b)],
        memberships := memberships db @
          [dm_member db_now gid a now JoinCreator, dm_member db_now gid b now JoinDirectInvite]\<rparr>"
proof (cases "exists_row (\<lambda>g. g_id g = gid \<or> is_dm_of (canonical_pair a b) g) (groups db)")
  case True
  with assms obtain g where "first_row (is_dm_of (canonical_pair a b)) (groups db) = Some g"
    and "i = g_id g" and "kind = g_kind g" and "db' = db"
    by (auto simp: create_dm_for_friendship_def split_beta Let_def result_simps)
  with first_row_Some [OF this(1)] show ?thesis by (intro existing) (auto simp: is_dm_of_def)
next
  case no_group: False
  show ?thesis
  proof (cases "exists_row (\<lambda>m. membership_key m \<in> {(gid, a), (gid, b)}) (memberships db)")
    case True
    with assms no_group show ?thesis
      by (auto simp: create_dm_for_friendship_def split_beta Let_def result_simps)
  next
    case False
    from assms False no_group obtain name where "i = gid" and "kind = Dm"
      and "db' = db\<lparr>groups := groups db @ [dm_group gid name now (canonical_pair a b)],
        memberships := memberships db @
          [dm_member db_now gid a now JoinCreator, dm_member db_now gid b now JoinDirectInvite]\<rparr>"
      by (auto simp: create_dm_for_friendship_def split_beta Let_def result_simps)
    with False no_group show ?thesis by (intro fresh) (auto simp: row_simps)
  qed
qed

lemma is_dm_of_dm_group [simp]: "is_dm_of p (dm_group gid name now q) \<longleftrightarrow> p = q"
  by (cases p; cases q) (auto simp: is_dm_of_def dm_group_def group_row_of_def)

lemma dm_group_fields [simp]:
  "g_id (dm_group gid name now q) = gid" "g_kind (dm_group gid name now q) = Dm"
  "g_dm_uid1 (dm_group gid name now q) = Some (fst q)"
  "g_dm_uid2 (dm_group gid name now q) = Some (snd q)"
  by (simp_all add: dm_group_def group_row_of_def)

lemma membership_key_dm_member [simp]:
  "membership_key (dm_member db_now gid uid now reason) = (gid, uid)"
  by (simp add: dm_member_def membership_row_of_def membership_key_def)

lemma insert_friendship_frame:
  "insert_friendship a b i now db =
   db\<lparr>friendships := friendships (insert_friendship a b i now db)\<rparr>"
  by (simp add: insert_friendship_def split_beta)

lemma keys_insert_friendship:
  "friendship_key ` set (friendships (insert_friendship a b i now db)) =
   insert (canonical_pair a b) (friendship_key ` set (friendships db))"
proof (cases "exists_row (is_friendship_of (canonical_pair a b)) (friendships db)")
  case True
  then have "canonical_pair a b \<in> friendship_key ` set (friendships db)"
    by (simp add: row_simps friendship_table.matches_iff) (metis image_eqI)
  with True show ?thesis
    by (simp add: insert_friendship_def split_beta insert_or_ignore_def insert_absorb)
next
  case False
  then show ?thesis
    by (simp add: insert_friendship_def split_beta insert_or_ignore_def friendship_key_def
        friendship_row_of_def)
qed

lemma friendships_ok_insert:
  assumes "friendships_ok db" and "a \<noteq> b" and "i = a \<or> i = b"
  shows "friendships_ok (insert_friendship a b i now db)"
proof -
  have "distinct_keys friendship_key (friendships (insert_friendship a b i now db))"
    using assms(1) friendship_table.distinct_insert [of "friendships db" _ "canonical_pair a b"]
    by (simp add: insert_friendship_def split_beta friendships_ok_def friendship_key_def
        friendship_row_of_def)
  then show ?thesis
    using assms
    by (auto simp: friendships_ok_def insert_friendship_def split_beta insert_or_ignore_def
        friendship_row_of_def canonical_pair_def split: if_splits)
qed

text \<open>The core of an acceptance: the friendship row, then its direct chat.\<close>

lemma befriend:
  assumes "social_ok db" and "a \<noteq> b" and "i = a \<or> i = b"
    and "create_dm_for_friendship gid a b now db_now d (insert_friendship a b i now db) =
      Inr ((chat, kind), db')"
  shows "social_ok db'" and "are_mutual_friends db' a b" and "kind = Dm"
    and "\<exists>g \<in> set (groups db'). g_id g = chat \<and> is_dm_of (canonical_pair a b) g"
    and "friend_requests db' = friend_requests db" and "blocks db' = blocks db"
    and "user_extras db' = user_extras db"
proof -
  let ?db1 = "insert_friendship a b i now db"
  have frame: "groups ?db1 = groups db" "memberships ?db1 = memberships db"
    "friend_requests ?db1 = friend_requests db" "blocks ?db1 = blocks db" "user_extras ?db1 = user_extras db"
    by (simp_all add: insert_friendship_def split_beta)
  have pieces: "friendships_ok ?db1" "requests_ok ?db1" "blocks_ok ?db1" "dms_ok ?db1" "verification_ok ?db1"
    using assms(1-3) by (simp add: social_ok_def friendships_ok_insert)
      (subst insert_friendship_frame, use assms(1) in \<open>simp add: social_ok_def\<close>)+
  have keys: "canonical_pair a b \<in> friendship_key ` set (friendships ?db1)"
    by (simp add: keys_insert_friendship)
  have friends: "are_mutual_friends db'' a b" if "friendships db'' = friendships ?db1" for db''
    using keys that by (auto simp: mutual_friends_iff)
  have have_dm: "\<exists>g \<in> set (groups db). is_dm_of (friendship_key f) g"
    if "f \<in> set (friendships ?db1)" "friendship_key f \<noteq> canonical_pair a b" for f
  proof -
    from that have "friendship_key f \<in> friendship_key ` set (friendships db)"
      using keys_insert_friendship [of a b i now db] by blast
    with assms(1) show ?thesis by (auto simp: social_ok_unfold)
  qed
  let ?rest = "are_mutual_friends db' a b \<and> kind = Dm \<and>
    (\<exists>g \<in> set (groups db'). g_id g = chat \<and> is_dm_of (canonical_pair a b) g) \<and>
    friend_requests db' = friend_requests db \<and> blocks db' = blocks db \<and>
    user_extras db' = user_extras db"
  from assms(4) have "social_ok db' \<and> ?rest"
  proof (cases rule: create_dm_cases)
    case (existing g)
    then have "\<forall>f \<in> set (friendships ?db1). \<exists>g \<in> set (groups db). is_dm_of (friendship_key f) g"
      using have_dm frame(1) by metis
    with existing pieces assms(1) have "social_ok db'" by (simp add: social_ok_unfold frame)
    moreover have ?rest using existing by (auto simp: friends frame)
    ultimately show ?thesis ..
  next
    case (fresh name)
    have dm_ok: "dms_ok db'"
      using assms(1,2) fresh(3) canonical_pair_less [OF assms(2)]
      by (auto simp: fresh(5) frame social_ok_def dms_ok_def distinct_keys_def select_rows_def dm_pair_def
          is_dm_of_def)
    have members: "distinct_keys membership_key (memberships db')"
      using assms(1,2) fresh(4)
      by (auto simp: fresh(5) frame social_ok_def distinct_keys_def)
    have dm_members: "dms_have_members db'"
      using assms(1) by (auto simp: fresh(5) frame social_ok_unfold canonical_pair_def)
    have "friendships_have_dm db'"
      using have_dm by (auto simp: friendships_have_dm_def fresh(5) frame)
    with dm_ok members dm_members pieces have "social_ok db'"
      by (simp add: social_ok_def) (simp add: fresh(5))
    moreover have ?rest using fresh by (auto simp: friends frame)
    ultimately show ?thesis ..
  qed
  then show "social_ok db'" and "are_mutual_friends db' a b" and "kind = Dm"
    and "\<exists>g \<in> set (groups db'). g_id g = chat \<and> is_dm_of (canonical_pair a b) g"
    and "friend_requests db' = friend_requests db" and "blocks db' = blocks db"
    and "user_extras db' = user_extras db"
    by simp_all
qed

section \<open>Each operation keeps the invariant\<close>

lemma auto_accept_Inr:
  assumes "auto_accept i a b now gid db_now d db = Inr ((q, chat, kind), db')"
  defines "P \<equiv> \<lambda>r. fr_id r = i \<and> fr_from_uid r = b \<and> fr_to_uid r = a \<and> unresolved r"
  obtains r where "first_row P (friend_requests db) = Some r" and "q = decide Accepted now r"
    and "create_dm_for_friendship gid a b now db_now d (insert_friendship a b a now
      (db\<lparr>friend_requests := update_rows P (decide Accepted now) (friend_requests db)\<rparr>)) =
      Inr ((chat, kind), db')"
  using assms by (auto simp: auto_accept_def Let_def result_simps)

lemma auto_accept_ok:
  assumes "social_ok db" and "a \<noteq> b" and "auto_accept i a b now gid db_now d db = Inr ((q, chat, kind), db')"
  shows "social_ok db'"
  using assms(3)
proof (rule auto_accept_Inr)
  fix r
  assume dm: "create_dm_for_friendship gid a b now db_now d (insert_friendship a b a now
      (db\<lparr>friend_requests := update_rows (\<lambda>r. fr_id r = i \<and> fr_from_uid r = b \<and> fr_to_uid r = a \<and>
        unresolved r) (decide Accepted now) (friend_requests db)\<rparr>)) = Inr ((chat, kind), db')"
  show ?thesis
    by (rule befriend(1) [OF _ assms(2) _ dm], rule decide_ok [OF assms(1)]) simp_all
qed

lemma normalize_question:
  "normalize_request_message mode m q = Inr (m', q') \<Longrightarrow> q' \<noteq> None \<Longrightarrow> m' \<noteq> None"
  by (auto simp: normalize_request_message_def Let_def result_simps
      split: friend_add_verification_mode.splits)

lemma create_friend_request_ok:
  assumes "social_ok db"
    and "create_friend_request seen a b message now gid new_id db_now d db = Inr (r, db')"
  shows "social_ok db'"
proof (cases "find_unresolved_request_between seen a b")
  case None
  show ?thesis
  proof (cases "db' = db")
    case False
    with assms(2) None obtain m q i req where "a \<noteq> b"
      and "normalize_request_message (fst (get_friend_settings seen b)) message
        (snd (get_friend_settings seen b)) = Inr (m, q)"
      and "insert_request \<lparr>nfr_id = i, nfr_from_uid = a, nfr_to_uid = b, nfr_status = Pending,
        nfr_created_at = now, nfr_message = m, nfr_question = q\<rparr> db = Inr (req, db')"
      by (auto simp: create_friend_request_def split_beta Let_def result_simps split: if_splits)
    then show ?thesis
      using normalize_question by (intro insert_request_ok [OF assms(1)]) auto
  qed (use assms(1) in simp)
next
  case (Some existing)
  show ?thesis
  proof (cases "db' = db")
    case False
    with assms(2) Some obtain g q chat kind where "a \<noteq> b"
      and "auto_accept (fr_id existing) a b now g db_now d db = Inr ((q, chat, kind), db')"
      by (auto simp: create_friend_request_def split_beta Let_def result_simps split: if_splits)
    then show ?thesis by (intro auto_accept_ok [OF assms(1)])
  qed (use assms(1) in simp)
qed

lemma resolve_transaction_ok:
  assumes "social_ok db"
    and "resolve_transaction uid i gid status now db_now d db = Inr (out, db')"
  shows "social_ok db'"
proof -
  let ?P = "\<lambda>r. fr_id r = i \<and> fr_to_uid r = uid \<and> unresolved r"
  let ?db1 = "db\<lparr>friend_requests := update_rows ?P (decide status now) (friend_requests db)\<rparr>"
  have db1: "social_ok ?db1" by (rule decide_ok [OF assms(1)]) simp
  obtain q where q: "first_row ?P (friend_requests db) = Some q"
    using assms(2) by (cases "first_row ?P (friend_requests db)")
      (auto simp: resolve_transaction_def Let_def split: option.splits if_splits)
  then have neq: "fr_from_uid q \<noteq> fr_to_uid q"
    using assms(1) first_row_Some [OF q] by (auto simp: social_ok_def requests_ok_def)
  show ?thesis
  proof (cases gid)
    case None
    with assms(2) q have "db' = ?db1"
      by (auto simp: resolve_transaction_def Let_def split: if_splits)
    with db1 show ?thesis by simp
  next
    case (Some g)
    with assms(2) q obtain dm where dm: "create_dm_for_friendship g (fr_from_uid q) (fr_to_uid q) now db_now d
        (insert_friendship (fr_from_uid q) (fr_to_uid q) (fr_from_uid q) now ?db1) = Inr (dm, db')"
      by (auto simp: resolve_transaction_def Let_def result_simps decide_def)
    obtain chat kind where "dm = (chat, kind)" by (cases dm)
    with dm have dm': "create_dm_for_friendship g (fr_from_uid q) (fr_to_uid q) now db_now d
        (insert_friendship (fr_from_uid q) (fr_to_uid q) (fr_from_uid q) now ?db1) =
        Inr ((chat, kind), db')" by simp
    show ?thesis by (rule befriend(1) [OF db1 neq _ dm']) simp
  qed
qed

lemma resolve_ok:
  assumes "social_ok db" and "resolve_friend_request uid i accept now gid db_now d db = Inr (r, db')"
  shows "social_ok db'"
  using assms(2) resolve_transaction_ok [OF assms(1)]
  by (auto simp: resolve_friend_request_def result_simps split_beta split: if_splits)

lemma remove_friendship_ok:
  assumes "social_ok db"
  shows "social_ok (snd (remove_friendship a b db))"
  using assms
  by (auto simp: remove_friendship_def Let_def social_ok_unfold friendships_ok_def row_simps
      distinct_keys_delete)

lemma friendship_update_ok:
  assumes "social_ok db" and "\<And>r. friendship_key (f r) = friendship_key r \<and> fs_initiated_by (f r) = fs_initiated_by r"
  shows "social_ok (db\<lparr>friendships := update_rows P f (friendships db)\<rparr>)"
proof -
  have fields: "fs_uid1 (f r) = fs_uid1 r" "fs_uid2 (f r) = fs_uid2 r" for r
    using assms(2) [of r] by (simp_all add: friendship_key_def)
  show ?thesis
    using assms by (auto simp: social_ok_unfold friendships_ok_def row_simps distinct_keys_update fields)
qed

lemma update_overrides_ok:
  assumes "social_ok db"
  shows "update_friend_presence_settings a b v db = Inr (x, db') \<Longrightarrow> social_ok db'"
    and "update_friend_read_receipt_settings a b w db = Inr (y, db'') \<Longrightarrow> social_ok db''"
  using assms
  by (auto simp: update_friend_presence_settings_def update_friend_read_receipt_settings_def split_beta
      Let_def friendship_key_def split: if_splits intro!: friendship_update_ok)

definition user_row_ok :: "user_extra_row \<Rightarrow> bool" where
  "user_row_ok r \<longleftrightarrow>
     (if ux_verification_mode r = Question
      then (\<exists>q. ux_verification_question r = Some q \<and> trim q \<noteq> [])
      else ux_verification_question r = None)"

lemma verification_ok_iff:
  "verification_ok db \<longleftrightarrow> distinct_keys ux_uid (user_extras db) \<and> (\<forall>r \<in> set (user_extras db). user_row_ok r)"
  by (simp add: verification_ok_def user_row_ok_def)

lemma upsert_user_ok:
  assumes "social_ok db" and "ux_uid r = uid" and "\<And>r. ux_uid (f r) = ux_uid r"
    and "\<And>r. user_row_ok r \<Longrightarrow> user_row_ok (f r)" and "user_row_ok r"
  shows "social_ok (db\<lparr>user_extras := upsert_row (\<lambda>r. ux_uid r = uid) r f (user_extras db)\<rparr>)"
proof -
  have "distinct_keys ux_uid (upsert_row (\<lambda>r. ux_uid r = uid) r f (user_extras db))"
    using assms(1-3) by (intro user_extra_table.distinct_upsert) (simp_all add: social_ok_def verification_ok_def)
  moreover have "\<forall>x \<in> set (upsert_row (\<lambda>r. ux_uid r = uid) r f (user_extras db)). user_row_ok x"
    using assms(1,4,5) by (auto simp: upsert_row_def row_simps social_ok_def verification_ok_iff)
  ultimately have "verification_ok (db\<lparr>user_extras := upsert_row (\<lambda>r. ux_uid r = uid) r f (user_extras db)\<rparr>)"
    by (simp add: verification_ok_iff)
  with assms(1) show ?thesis by (simp add: social_ok_unfold)
qed

lemma update_settings_ok:
  assumes "social_ok db"
  shows "social_ok (snd (update_presence_settings uid v now db))"
    and "social_ok (snd (update_read_receipt_settings uid w now db))"
    and "upsert_friend_settings uid mode q now db = Inr (x, db') \<Longrightarrow> social_ok db'"
proof -
  note user_defs = user_row_ok_def user_extra_row_of_def new_user_extra_new_def
  show "social_ok (snd (update_presence_settings uid v now db))"
    unfolding update_presence_settings_def snd_conv
    by (rule upsert_user_ok [OF assms]) (simp_all add: user_defs)
  show "social_ok (snd (update_read_receipt_settings uid w now db))"
    unfolding update_read_receipt_settings_def snd_conv Let_def
    by (rule upsert_user_ok [OF assms]) (simp_all add: user_defs)
  show "social_ok db'" if up: "upsert_friend_settings uid mode q now db = Inr (x, db')"
  proof -
    let ?q = "trimmed_nonempty q"
    have mode: "if mode = Question then \<exists>t. ?q = Some t \<and> trim t \<noteq> [] else ?q = None"
      using up trimmed_nonempty_Some [of q]
      by (auto simp: upsert_friend_settings_def Let_def result_simps split: if_splits)
    have "db' = db\<lparr>user_extras := upsert_row (\<lambda>r. ux_uid r = uid)
        (user_extra_row_of ((new_user_extra_new uid now)
           \<lparr>nux_verification_mode := mode, nux_verification_question := ?q\<rparr>))
        (\<lambda>r. r\<lparr>ux_verification_mode := mode, ux_verification_question := ?q\<rparr>) (user_extras db)\<rparr>"
      using up by (auto simp: upsert_friend_settings_def Let_def result_simps)
    then show ?thesis
      using mode by (simp only:) (rule upsert_user_ok [OF assms], auto simp: user_defs split: if_splits)
  qed
qed

lemma block_ok:
  assumes "social_ok db"
  shows "block_user a b now db = Inr (x, db') \<Longrightarrow> social_ok db'"
    and "social_ok (snd (unblock_user a b db))"
proof -
  show "social_ok (snd (unblock_user a b db))"
    using assms
    by (auto simp: unblock_user_def social_ok_unfold blocks_ok_def row_simps distinct_keys_delete)
  show "social_ok db'" if "block_user a b now db = Inr (x, db')"
    using that assms block_table.distinct_insert [of "blocks db" _ "(a, b)"]
    by (auto simp: block_user_def social_ok_unfold blocks_ok_def block_key_def insert_or_ignore_def
        split: if_splits)
qed

datatype social_op =
    CreateRequest tables uid uid "ustr option" timestamp "snowflake option" "snowflake option" timestamp
  | ResolveRequest uid snowflake bool timestamp "snowflake option" timestamp
  | ArchiveRequest uid snowflake
  | RemoveFriendship uid uid
  | SetFriendPresence uid uid friend_presence_override
  | SetFriendReceipts uid uid friend_read_receipt_override
  | SetPresence uid presence_visibility timestamp
  | SetReceipts uid read_receipt_visibility timestamp
  | SetFriendSettings uid friend_add_verification_mode "ustr option" timestamp
  | BlockUser uid uid timestamp
  | UnblockUser uid uid

fun social_exec :: "discuz_tables \<Rightarrow> social_op \<Rightarrow> tables \<Rightarrow> app_error + social_effect list \<times> tables" where
  "social_exec d (CreateRequest seen a b m now gid i db_now) db =
     map_sum id (apfst snd) (create_friend_request seen a b m now gid i db_now d db)"
| "social_exec d (ResolveRequest u i accept now gid db_now) db =
     map_sum id (apfst snd) (resolve_friend_request u i accept now gid db_now d db)"
| "social_exec d (ArchiveRequest u i) db = map_sum id (apfst (\<lambda>_. [])) (archive_friend_request u i db)"
| "social_exec d (RemoveFriendship a b) db = Inr ([], snd (remove_friendship a b db))"
| "social_exec d (SetFriendPresence a b v) db =
     map_sum id (apfst (\<lambda>_. [])) (update_friend_presence_settings a b v db)"
| "social_exec d (SetFriendReceipts a b v) db =
     map_sum id (apfst (\<lambda>_. [])) (update_friend_read_receipt_settings a b v db)"
| "social_exec d (SetPresence u v now) db = Inr ([], snd (update_presence_settings u v now db))"
| "social_exec d (SetReceipts u v now) db = Inr ([], snd (update_read_receipt_settings u v now db))"
| "social_exec d (SetFriendSettings u mode q now) db =
     map_sum id (apfst (\<lambda>_. [])) (upsert_friend_settings u mode q now db)"
| "social_exec d (BlockUser a b now) db = map_sum id (apfst (\<lambda>_. [])) (block_user a b now db)"
| "social_exec d (UnblockUser a b) db = Inr ([], snd (unblock_user a b db))"

lemma map_sum_Inr: "map_sum id f r = Inr y \<longleftrightarrow> (\<exists>x. r = Inr x \<and> f x = y)"
  by (cases r) auto

lemma social_exec_ok: "social_ok db \<Longrightarrow> social_exec d x db = Inr (r, db') \<Longrightarrow> social_ok db'"
  by (cases x)
    (auto simp: map_sum_Inr remove_friendship_ok update_settings_ok block_ok(2)
      dest: create_friend_request_ok resolve_ok archive_ok update_overrides_ok(1)
        update_overrides_ok(2) update_settings_ok(3) block_ok(1))

interpretation social: guarded_machine "social_exec d" social_ok for d
  by unfold_locales (rule social_exec_ok)

section \<open>Properties\<close>

definition sample_friends :: tables where
  "sample_friends = sample_social\<lparr>memberships :=
     [dm_member 0 9 1 50 JoinCreator, dm_member 0 9 2 50 JoinDirectInvite]\<rparr>"

definition sample_forum :: discuz_tables where
  "sample_forum = \<lparr>common_member = [\<lparr>cm_uid = 1, cm_username = ascii ''ann '', cm_groupid = 1\<rparr>,
       \<lparr>cm_uid = 3, cm_username = ascii ''bob'', cm_groupid = 1\<rparr>],
     common_member_profile = [], common_usergroup = [], usergroup_extras = []\<rparr>"

lemma sample_friends_ok: "social_ok sample_friends"
  using sample_social_ok
  by (simp add: social_ok_unfold sample_friends_def sample_social_simps friendships_ok_def dms_ok_def
      blocks_ok_def requests_ok_def verification_ok_def distinct_keys_def membership_key_def dm_member_def
      membership_row_of_def is_dm_of_def friendship_key_def select_rows_def)

text \<open>C14: Whatever requests, answers, unfriendings, blocks and settings changes the users send, in
  any order and with any interleaving of the reads of \<open>create_friend_request\<close> with other
  commits, the social graph stays well formed: canonical friendship rows, at most one
  unresolved request per pair, one direct chat per pair, no self-requests or self-blocks, a
  question only with an answer; and every friendship has its direct chat with both members.\<close>

theorem social_run_ok:
  assumes "social_ok db"
  shows "social_ok (run_ops (social_exec d) xs db)"
  using assms by (rule social.run_inv)

lemma social_run_ok_witness:
  "social_ok (run_ops (social_exec sample_forum)
     [CreateRequest sample_friends 1 3 None 100 (Some 5) (Some 6) 100, BlockUser 1 2 101,
      CreateRequest sample_friends 3 1 None 102 None (Some 7) 102, RemoveFriendship 1 3] sample_friends)"
  by (rule social_run_ok [OF sample_friends_ok])

text \<open>C26: What a successful call did. A created request is pending, is the only change, and is the
  pair's unresolved request afterwards. An automatic acceptance turns the peer's request into
  an accepted one, makes the two friends, and announces the pair's direct chat. The other two
  outcomes change nothing.\<close>

theorem create_friend_request_effect:
  assumes "social_ok db"
    and "create_friend_request seen a b message now gid new_id db_now d db = Inr ((out, effects), db')"
  shows "case out of
      Created q \<Rightarrow> db' = db\<lparr>friend_requests := friend_requests db @ [q]\<rparr> \<and> fr_status q = Pending \<and>
        fr_from_uid q = a \<and> fr_to_uid q = b \<and> effects = [] \<and>
        find_unresolved_request_between db a b = None \<and> find_unresolved_request_between db' a b = Some q
    | AutoAccepted q \<Rightarrow> fr_from_uid q = b \<and> fr_to_uid q = a \<and> fr_status q = Accepted \<and>
        fr_decided_at q = Some now \<and> q \<in> set (friend_requests db') \<and> are_mutual_friends db' a b \<and>
        (\<exists>g \<in> set (groups db'). is_dm_of (canonical_pair a b) g \<and>
           effects = [PairPolicyChanged a b, AnnounceAccepted a b (g_id g) Dm])
    | _ \<Rightarrow> db' = db \<and> effects = []"
proof (cases out)
  case AlreadyPending
  with assms(2) show ?thesis
    by (auto simp: create_friend_request_def split_beta Let_def result_simps split: if_splits option.splits)
next
  case AlreadyFriends
  with assms(2) show ?thesis
    by (auto simp: create_friend_request_def split_beta Let_def result_simps split: if_splits option.splits)
next
  case (Created q)
  with assms(2) obtain n where n: "insert_request n db = Inr (q, db')" "nfr_status n = Pending"
    "nfr_from_uid n = a" "nfr_to_uid n = b" and "effects = []"
    by (auto simp: create_friend_request_def split_beta Let_def result_simps split: if_splits option.splits)
  moreover from n have q: "q = friend_request_of n" "db' = db\<lparr>friend_requests := friend_requests db @ [q]\<rparr>"
    and none: "\<forall>r \<in> set (friend_requests db). \<not> (unresolved r \<and> request_pair r = canonical_pair a b)"
    by (auto simp: insert_request_def row_simps split: if_splits)
  moreover from none have "find_unresolved_request_between db a b = None"
    by (simp add: find_unresolved_eq first_row_None)
  ultimately show ?thesis
    by (simp add: Created friend_request_of_def find_unresolved_eq first_row_append request_pair_def
        unresolved_def)
next
  case (AutoAccepted q)
  with assms(2) obtain i g chat kind where neq: "a \<noteq> b"
    and acc: "auto_accept i a b now g db_now d db = Inr ((q, chat, kind), db')"
    and eff: "effects = [PairPolicyChanged a b, AnnounceAccepted a b chat kind]"
    by (auto simp: create_friend_request_def split_beta Let_def result_simps split: if_splits option.splits)
  let ?P = "\<lambda>r. fr_id r = i \<and> fr_from_uid r = b \<and> fr_to_uid r = a \<and> unresolved r"
  let ?db1 = "db\<lparr>friend_requests := update_rows ?P (decide Accepted now) (friend_requests db)\<rparr>"
  obtain r where r: "first_row ?P (friend_requests db) = Some r" and q: "q = decide Accepted now r"
    and dm: "create_dm_for_friendship g a b now db_now d (insert_friendship a b a now ?db1) =
      Inr ((chat, kind), db')"
    using acc by (rule auto_accept_Inr)
  have ok: "social_ok ?db1" by (rule decide_ok [OF assms(1)]) simp
  note made = befriend [OF ok neq _ dm, simplified]
  have "q \<in> set (friend_requests ?db1)"
    using first_row_Some [OF r] by (force simp: q row_simps)
  then have "q \<in> set (friend_requests db')" using made(5) by simp
  moreover have "fr_from_uid q = b \<and> fr_to_uid q = a \<and> fr_status q = Accepted \<and> fr_decided_at q = Some now"
    using first_row_Some [OF r] by (simp add: q decide_def)
  ultimately show ?thesis
    using made(2-4) by (auto simp: AutoAccepted eff)
qed

lemma create_friend_request_effect_witness:
  "\<exists>q db'. create_friend_request sample_friends 1 3 None 100 (Some 5) None 100 sample_forum sample_friends =
       Inr ((AutoAccepted q, [PairPolicyChanged 1 3, AnnounceAccepted 1 3 5 Dm]), db') \<and>
     are_mutual_friends db' 1 3"
proof -
  have run: "\<exists>q db'. create_friend_request sample_friends 1 3 None 100 (Some 5) None 100 sample_forum sample_friends =
      Inr ((AutoAccepted q, [PairPolicyChanged 1 3, AnnounceAccepted 1 3 5 Dm]), db')"
    by (simp add: create_friend_request_def sample_friends_def sample_social_simps
        is_blocked_either_direction_def are_mutual_friends_def is_friendship_of_def canonical_pair_def
        count_rows_def find_unresolved_request_between_def unresolved_def auto_accept_def
        create_dm_for_friendship_def profile_username_def lookup_user_profiles_def profile_rows_def
        select_rows_def sample_forum_def left_join_def insert_friendship_def row_simps is_dm_of_def
        dm_member_def membership_row_of_def membership_key_def decide_def)
  then obtain q db' where eq: "create_friend_request sample_friends 1 3 None 100 (Some 5) None 100
      sample_forum sample_friends =
      Inr ((AutoAccepted q, [PairPolicyChanged 1 3, AnnounceAccepted 1 3 5 Dm]), db')" by blast
  then show ?thesis using create_friend_request_effect [OF sample_friends_ok eq] by simp
qed

lemma resolve_Inr:
  assumes "resolve_friend_request uid i accept now gid db_now d db = Inr ((out, effects), db')"
  defines "P \<equiv> \<lambda>r. fr_id r = i \<and> fr_to_uid r = uid \<and> unresolved r"
    and "status \<equiv> if accept then Accepted else Rejected"
  obtains r q where "first_row P (friend_requests db) = Some r" and "q = decide status now r"
    and "let db1 = db\<lparr>friend_requests := update_rows P (decide status now) (friend_requests db)\<rparr>
         in if accept then \<exists>g chat kind. out = Resolved q \<and>
              effects = [PairPolicyChanged (fr_from_uid r) uid, AnnounceAccepted uid (fr_from_uid r) chat kind] \<and>
              create_dm_for_friendship g (fr_from_uid r) uid now db_now d
                (insert_friendship (fr_from_uid r) uid (fr_from_uid r) now db1) = Inr ((chat, kind), db')
            else out = (if are_mutual_friends db (fr_from_uid r) uid then RejectedWhileFriends q else Resolved q) \<and>
              effects = [] \<and> db' = db1"
proof (cases "first_row P (friend_requests db)")
  case None
  with assms show ?thesis
    by (auto simp: resolve_friend_request_def resolve_transaction_def Let_def result_simps
        split: if_splits option.splits)
next
  case (Some r)
  have to: "fr_to_uid r = uid" using first_row_Some [OF Some] by (simp add: P_def)
  let ?goal = "let db1 = db\<lparr>friend_requests := update_rows P (decide status now) (friend_requests db)\<rparr>
         in if accept then \<exists>g chat kind. out = Resolved (decide status now r) \<and>
              effects = [PairPolicyChanged (fr_from_uid r) uid, AnnounceAccepted uid (fr_from_uid r) chat kind] \<and>
              create_dm_for_friendship g (fr_from_uid r) uid now db_now d
                (insert_friendship (fr_from_uid r) uid (fr_from_uid r) now db1) = Inr ((chat, kind), db')
            else out = (if are_mutual_friends db (fr_from_uid r) uid then RejectedWhileFriends (decide status now r)
              else Resolved (decide status now r)) \<and> effects = [] \<and> db' = db1"
  show ?thesis
  proof (rule that [OF Some refl], cases accept)
    case True
    with assms Some to show ?goal
      by (auto simp: resolve_friend_request_def resolve_transaction_def Let_def result_simps decide_def
          resolve_outcome_request_def) (rule exI, assumption)
  next
    case False
    with assms Some to show ?goal
      by (auto simp: resolve_friend_request_def resolve_transaction_def Let_def result_simps decide_def
          are_mutual_friends_def split: if_splits)
  qed
qed

text \<open>Resolving: an acceptance marks exactly this request accepted, makes the two friends and
  yields a direct chat that both belong to and may write in unless one of them blocked the
  other; a rejection changes nothing but the request, and reports the anomaly when the two were
  friends already.\<close>

theorem resolve_effect:
  assumes "social_ok db"
    and "resolve_friend_request uid i accept now gid db_now d db = Inr ((out, effects), db')"
  shows "\<exists>q peer. q \<in> set (friend_requests db') \<and> fr_id q = i \<and> fr_from_uid q = peer \<and> fr_to_uid q = uid \<and>
    fr_decided_at q = Some now \<and> {r \<in> set (friend_requests db'). fr_id r \<noteq> i} =
      {r \<in> set (friend_requests db). fr_id r \<noteq> i} \<and>
    (if accept
     then out = Resolved q \<and> fr_status q = Accepted \<and>
       (check_can_dm db' uid peer = Inr () \<longleftrightarrow> \<not> is_blocked_either_direction db uid peer) \<and>
       (\<exists>g \<in> set (groups db'). is_dm_of (canonical_pair peer uid) g \<and>
         (g_id g, uid) \<in> membership_key ` set (memberships db') \<and>
         (g_id g, peer) \<in> membership_key ` set (memberships db') \<and>
         effects = [PairPolicyChanged peer uid, AnnounceAccepted uid peer (g_id g) Dm])
     else fr_status q = Rejected \<and> effects = [] \<and> friendships db' = friendships db \<and>
       out = (if are_mutual_friends db peer uid then RejectedWhileFriends q else Resolved q))"
  using assms(2)
proof (rule resolve_Inr)
  fix r q
  let ?P = "\<lambda>r. fr_id r = i \<and> fr_to_uid r = uid \<and> unresolved r"
  let ?status = "if accept then Accepted else Rejected"
  let ?db1 = "db\<lparr>friend_requests := update_rows ?P (decide ?status now) (friend_requests db)\<rparr>"
  assume r: "first_row ?P (friend_requests db) = Some r" and q: "q = decide ?status now r"
    and rest: "let db1 = ?db1
         in if accept then \<exists>g chat kind. out = Resolved q \<and>
              effects = [PairPolicyChanged (fr_from_uid r) uid, AnnounceAccepted uid (fr_from_uid r) chat kind] \<and>
              create_dm_for_friendship g (fr_from_uid r) uid now db_now d
                (insert_friendship (fr_from_uid r) uid (fr_from_uid r) now db1) = Inr ((chat, kind), db')
            else out = (if are_mutual_friends db (fr_from_uid r) uid then RejectedWhileFriends q else Resolved q) \<and>
              effects = [] \<and> db' = db1"
  let ?peer = "fr_from_uid r"
  have ok: "social_ok ?db1" by (rule decide_ok [OF assms(1)]) simp
  have neq: "?peer \<noteq> uid"
    using first_row_Some [OF r] assms(1) by (auto simp: social_ok_def requests_ok_def)
  have "q \<in> set (friend_requests ?db1)" using first_row_Some [OF r] by (force simp: q row_simps)
  moreover have "fr_id q = i \<and> fr_from_uid q = ?peer \<and> fr_to_uid q = uid \<and> fr_decided_at q = Some now \<and>
      fr_status q = ?status"
    using first_row_Some [OF r] by (simp add: q decide_def)
  moreover have "{x \<in> set (friend_requests ?db1). fr_id x \<noteq> i} = {x \<in> set (friend_requests db). fr_id x \<noteq> i}"
    by (auto simp: row_simps decide_def image_iff)
  moreover have "friend_requests db' = friend_requests ?db1 \<and>
    (if accept
     then out = Resolved q \<and>
       (check_can_dm db' uid ?peer = Inr () \<longleftrightarrow> \<not> is_blocked_either_direction db uid ?peer) \<and>
       (\<exists>g \<in> set (groups db'). is_dm_of (canonical_pair ?peer uid) g \<and>
         (g_id g, uid) \<in> membership_key ` set (memberships db') \<and>
         (g_id g, ?peer) \<in> membership_key ` set (memberships db') \<and>
         effects = [PairPolicyChanged ?peer uid, AnnounceAccepted uid ?peer (g_id g) Dm])
     else effects = [] \<and> friendships db' = friendships db \<and>
       out = (if are_mutual_friends db ?peer uid then RejectedWhileFriends q else Resolved q))"
  proof (cases accept)
    case False
    with rest show ?thesis by (simp add: Let_def)
  next
    case True
    with rest obtain g chat kind where out: "out = Resolved q"
      and eff: "effects = [PairPolicyChanged ?peer uid, AnnounceAccepted uid ?peer chat kind]"
      and dm: "create_dm_for_friendship g ?peer uid now db_now d (insert_friendship ?peer uid ?peer now ?db1) =
        Inr ((chat, kind), db')"
      by (auto simp: Let_def)
    note made = befriend [OF ok neq _ dm, simplified]
    obtain g' where g': "g' \<in> set (groups db')" "g_id g' = chat" "is_dm_of (canonical_pair ?peer uid) g'"
      using made(4) by auto
    have "(g_id g', uid) \<in> membership_key ` set (memberships db') \<and>
        (g_id g', ?peer) \<in> membership_key ` set (memberships db')"
      using made(1) g' by (auto simp: social_ok_def dms_have_members_def canonical_pair_def split: if_splits)
    moreover have "check_can_dm db' uid ?peer = Inr () \<longleftrightarrow> \<not> is_blocked_either_direction db uid ?peer"
      using made(2,6) neq
      by (auto simp: check_can_dm_def mutual_friends_comm [of db' uid] is_blocked_either_direction_def)
    ultimately show ?thesis
      using True out made(3,5) g' by (auto simp: eff)
  qed
  ultimately show ?thesis by (intro exI [of _ q] exI [of _ ?peer]) (cases accept; simp)
qed

lemma resolve_effect_witness:
  "\<exists>out effects db'. resolve_friend_request 1 70 False 100 None 100 sample_forum sample_friends =
       Inr ((out, effects), db') \<and> (\<exists>q \<in> set (friend_requests db'). fr_id q = 70 \<and> fr_status q = Rejected)"
proof -
  obtain out effects db' where eq: "resolve_friend_request 1 70 False 100 None 100 sample_forum sample_friends =
      Inr ((out, effects), db')"
    by (simp add: resolve_friend_request_def resolve_transaction_def sample_friends_def sample_social_simps
        unresolved_def are_mutual_friends_def count_rows_def is_friendship_of_def canonical_pair_def decide_def)
  then show ?thesis using resolve_effect [OF sample_friends_ok eq] by auto
qed

text \<open>C27: Which error a resolution gets says exactly what is wrong with the request: unknown,
  addressed to someone else, or settled already; and none of these changes anything.\<close>

theorem resolve_errors_exact:
  fixes uid i now db_now d
  assumes "social_ok db" and "accept \<longrightarrow> gid \<noteq> None"
  defines "result \<equiv> resolve_friend_request uid i accept now gid db_now d db"
  shows "(result = Inl (NotFound ''Friend request not found'') \<longleftrightarrow>
      (\<forall>r \<in> set (friend_requests db). fr_id r \<noteq> i)) \<and>
    (result = Inl (Forbidden ''Only the recipient can respond to this friend request'') \<longleftrightarrow>
      (\<exists>r \<in> set (friend_requests db). fr_id r = i \<and> fr_to_uid r \<noteq> uid)) \<and>
    (result = Inl (Conflict ''Friend request is no longer pending'') \<longleftrightarrow>
      (\<exists>r \<in> set (friend_requests db). fr_id r = i \<and> fr_to_uid r = uid \<and> \<not> unresolved r))"
proof -
  have dm: "create_dm_for_friendship g a b now db_now d db1 = Inl e \<Longrightarrow>
      e \<in> {Internal ''DM participant username missing'', Internal ''Concurrent DM disappeared'',
        DbQuery DbUniqueViolation}" for g a b db1 e
    by (auto simp: create_dm_for_friendship_def split_beta Let_def result_simps split: if_splits)
  show ?thesis
  proof (cases "first_row (\<lambda>r. fr_id r = i) (friend_requests db)")
    case None
    then have "first_row (\<lambda>r. fr_id r = i \<and> fr_to_uid r = uid \<and> unresolved r) (friend_requests db) = None"
      by (simp add: first_row_None)
    with None assms(2) have "result = Inl (NotFound ''Friend request not found'')"
      by (auto simp: result_def resolve_friend_request_def resolve_transaction_def)
    with None show ?thesis by (auto simp: first_row_None)
  next
    case (Some r)
    note r = first_row_Some [OF Some]
    have only: "r' = r" if "r' \<in> set (friend_requests db)" "fr_id r' = i" for r'
      using assms(1) r that by (auto simp: social_ok_def requests_ok_def dest: distinct_keys_eq)
    have in_db: "(\<exists>r \<in> set (friend_requests db). fr_id r = i \<and> Q r) \<longleftrightarrow> Q r" for Q
      using r only by blast
    have nf: "\<not> (\<forall>r \<in> set (friend_requests db). fr_id r \<noteq> i)" using r by auto
    show ?thesis
    proof (cases "fr_to_uid r = uid \<and> unresolved r")
      case False
      then have "first_row (\<lambda>r. fr_id r = i \<and> fr_to_uid r = uid \<and> unresolved r) (friend_requests db) = None"
        using only by (auto simp: first_row_None)
      with Some assms(2) False have "result = (if fr_to_uid r \<noteq> uid
          then Inl (Forbidden ''Only the recipient can respond to this friend request'')
          else Inl (Conflict ''Friend request is no longer pending''))"
        by (auto simp: result_def resolve_friend_request_def resolve_transaction_def)
      with False nf show ?thesis unfolding in_db by auto
    next
      case True
      then have first: "first_row (\<lambda>r. fr_id r = i \<and> fr_to_uid r = uid \<and> unresolved r) (friend_requests db) = Some r"
        using r only by (intro first_row_unique) auto
      have "result = Inl e \<Longrightarrow> e \<in> {Internal ''DM participant username missing'',
          Internal ''Concurrent DM disappeared'', DbQuery DbUniqueViolation}" for e
        using first assms(2) dm
        by (auto simp: result_def resolve_friend_request_def resolve_transaction_def Let_def result_simps
            split: if_splits dest: dm)
      then show ?thesis using True nf unfolding in_db by force
    qed
  qed
qed

lemma resolve_errors_exact_witness:
  "resolve_friend_request 2 70 True 100 (Some 8) 100 sample_forum sample_friends =
     Inl (Forbidden ''Only the recipient can respond to this friend request'')"
  by (subst resolve_errors_exact [OF sample_friends_ok])
    (simp_all add: sample_friends_def sample_social_simps)

lemma decided_kept:
  assumes "\<not> unresolved r" and "r \<in> set (friend_requests db)" and "\<And>q. P q \<Longrightarrow> unresolved q"
  shows "r \<in> set (update_rows P f (friend_requests db))"
  using assms by (force simp: row_simps)

lemma dm_friend_requests:
  "create_dm_for_friendship g a b now db_now d db = Inr (x, db') \<Longrightarrow>
   friend_requests db' = friend_requests db \<and> set (groups db) \<subseteq> set (groups db')"
  by (cases x) (auto elim!: create_dm_cases)

lemma social_exec_monotone:
  assumes "social_exec d x db = Inr (e, db')"
  shows "set (groups db) \<subseteq> set (groups db') \<and>
    (\<forall>r \<in> set (friend_requests db). \<not> unresolved r \<longrightarrow> r \<in> set (friend_requests db'))"
proof -
  have ins: "friend_requests (insert_friendship a b i now db0) = friend_requests db0"
    "groups (insert_friendship a b i now db0) = groups db0" for a b i now db0
    by (simp_all add: insert_friendship_def split_beta)
  have acc: "set (groups db) \<subseteq> set (groups db') \<and>
      (\<forall>r \<in> set (friend_requests db). \<not> unresolved r \<longrightarrow> r \<in> set (friend_requests db'))"
    if "auto_accept i a b now g db_now d db = Inr (y, db')" for i a b now g db_now y
  proof -
    obtain q chat kind where "y = (q, chat, kind)" by (cases y)
    then have "auto_accept i a b now g db_now d db = Inr ((q, chat, kind), db')" using that by simp
    then show ?thesis
      by (rule auto_accept_Inr) (auto dest!: dm_friend_requests simp: ins intro!: decided_kept)
  qed
  have res: "set (groups db) \<subseteq> set (groups db') \<and>
      (\<forall>r \<in> set (friend_requests db). \<not> unresolved r \<longrightarrow> r \<in> set (friend_requests db'))"
    if "resolve_friend_request u i accept now gid db_now d db = Inr ((out, eff), db')"
    for u i accept now gid db_now out eff
    using that by (rule resolve_Inr)
      (auto dest!: dm_friend_requests simp: ins Let_def intro!: decided_kept split: if_splits)
  show ?thesis
  proof (cases x)
    case (CreateRequest seen a b m now gid i db_now)
    with assms show ?thesis
      by (auto simp: map_sum_Inr create_friend_request_def split_beta Let_def result_simps insert_request_def
          split: if_splits option.splits dest!: acc)
  next
    case (ResolveRequest u i accept now gid db_now)
    with assms show ?thesis by (auto simp: map_sum_Inr dest: res)
  next
    case (ArchiveRequest u i)
    with assms show ?thesis
      by (auto simp: map_sum_Inr archive_friend_request_def Let_def unresolved_def split: if_splits
          intro!: decided_kept)
  qed (use assms in \<open>auto simp: map_sum_Inr remove_friendship_def update_friend_presence_settings_def
      update_friend_read_receipt_settings_def update_presence_settings_def update_read_receipt_settings_def
      upsert_friend_settings_def block_user_def unblock_user_def Let_def split_beta result_simps
      split: if_splits\<close>)
qed

interpretation history: guarded_machine "social_exec d"
    "\<lambda>db. set gs \<subseteq> set (groups db) \<and> (\<forall>r \<in> set rs. r \<in> set (friend_requests db) \<and> \<not> unresolved r)"
  for d gs rs
  by unfold_locales (blast dest: social_exec_monotone)


text \<open>An old decision for the example: user 2 once rejected user 1.\<close>

definition sample_decided :: friend_request where
  "sample_decided = \<lparr>fr_id = 60, fr_from_uid = 1, fr_to_uid = 2, fr_status = Rejected,
     fr_created_at = 40, fr_decided_at = Some 41, fr_message = None, fr_question = None\<rparr>"

definition sample_refriend :: tables where
  "sample_refriend = sample_friends\<lparr>friend_requests := [sample_decided]\<rparr>"

definition sample_forum2 :: discuz_tables where
  "sample_forum2 = sample_forum\<lparr>common_member := \<lparr>cm_uid = 2, cm_username = ascii ''cat'', cm_groupid = 1\<rparr> #
     common_member sample_forum\<rparr>"


lemma sorted_newest: "sorted (map (\<lambda>r. (- fr_created_at r, - fr_id r)) (newest_first rs))"
  by (simp add: newest_first_def)

text \<open>The request history shows every request of the user exactly once, incoming ones according
  to the archive filter and outgoing ones unless only open ones are asked for, newest first
  with ties broken by descending id; and the badge counts the open incoming ones.\<close>

theorem request_history_complete_sorted:
  assumes "requests_ok db"
  shows "set (list_friend_request_history db uid archived) =
      {r \<in> set (friend_requests db).
         fr_to_uid r = uid \<and> (archived = Some False \<longrightarrow> fr_status r = Pending) \<and>
           (archived = Some True \<longrightarrow> fr_status r \<noteq> Pending) \<or>
         fr_from_uid r = uid \<and> archived \<noteq> Some False} \<and>
    distinct (list_friend_request_history db uid archived) \<and>
    sorted_wrt (\<lambda>r q. fr_created_at q < fr_created_at r \<or>
        fr_created_at q = fr_created_at r \<and> fr_id q < fr_id r) (list_friend_request_history db uid archived) \<and>
    length (list_friend_request_history db uid (Some False)) = count_pending_incoming_requests db uid"
proof -
  let ?l = "list_friend_request_history db uid archived"
  have ids: "distinct_keys fr_id (friend_requests db)" and self: "\<And>r. r \<in> set (friend_requests db) \<Longrightarrow> fr_to_uid r = fr_from_uid r \<Longrightarrow> False"
    using assms by (auto simp: requests_ok_def)
  have dist: "distinct (friend_requests db)" using ids by (auto simp: distinct_keys_def distinct_map)
  have set: "set ?l = {r \<in> set (friend_requests db).
         fr_to_uid r = uid \<and> (archived = Some False \<longrightarrow> fr_status r = Pending) \<and>
           (archived = Some True \<longrightarrow> fr_status r \<noteq> Pending) \<or>
         fr_from_uid r = uid \<and> archived \<noteq> Some False}"
    by (cases archived rule: option.exhaust; cases "the archived")
      (auto simp: list_friend_request_history_def merge_request_history_def newest_first_def
        list_incoming_request_history_def list_outgoing_request_history_def row_simps)
  have d: "distinct ?l"
    using dist
    by (auto simp: list_friend_request_history_def merge_request_history_def newest_first_def
        list_incoming_request_history_def list_outgoing_request_history_def row_simps dest: self)
      (auto simp: select_rows_def)
  have "sorted_wrt (\<lambda>r q. (- fr_created_at r, - fr_id r) \<le> (- fr_created_at q, - fr_id q)) ?l"
    using sorted_newest [of "list_incoming_request_history db uid archived @ list_outgoing_request_history db uid archived"]
    by (simp add: list_friend_request_history_def merge_request_history_def sorted_map)
  then have "sorted_wrt (\<lambda>r q. r \<noteq> q \<and> (- fr_created_at r, - fr_id r) \<le> (- fr_created_at q, - fr_id q)) ?l"
    using d by (induction ?l) (auto simp: sorted_wrt_iff_nth_less distinct_conv_nth)
  then have S: "sorted_wrt (\<lambda>r q. fr_created_at q < fr_created_at r \<or>
        fr_created_at q = fr_created_at r \<and> fr_id q < fr_id r) ?l"
  proof (rule sorted_wrt_mono_rel [rotated])
    fix r q
    assume in_l: "r \<in> set ?l" "q \<in> set ?l"
      and le: "r \<noteq> q \<and> (- fr_created_at r, - fr_id r) \<le> (- fr_created_at q, - fr_id q)"
    then have "fr_id r \<noteq> fr_id q" using ids unfolding set by (auto dest: distinct_keys_eq)
    with le show "fr_created_at q < fr_created_at r \<or>
        fr_created_at q = fr_created_at r \<and> fr_id q < fr_id r" by auto
  qed
  have L: "length (list_friend_request_history db uid (Some False)) = count_pending_incoming_requests db uid"
    by (simp add: list_friend_request_history_def merge_request_history_def newest_first_def
        list_incoming_request_history_def list_outgoing_request_history_def
        count_pending_incoming_requests_def count_rows_def select_rows_def)
  show ?thesis by (rule conjI [OF set conjI [OF d conjI [OF S L]]])
qed

lemma request_history_complete_sorted_witness:
  "set (list_friend_request_history sample_social 1 (Some False)) = set (friend_requests sample_social)"
  unfolding request_history_complete_sorted [OF sample_social_ok(4), THEN conjunct1]
  by (auto simp: sample_social_simps)

text \<open>The target's verification mode, as last saved, decides what a new request must carry:
  none can be created when requests are refused; a message or an answer is trimmed and not
  blank; the request keeps the question it answered.\<close>

theorem saved_mode_governs_requests:
  assumes "upsert_friend_settings b mode question t db = Inr (r, db1)"
    and "create_friend_request db1 a b message now gid new_id db_now d db1 = Inr ((Created q, effects), db2)"
  shows "mode \<noteq> Forbid \<and>
    fr_message q = (if mode = Direct then None else trimmed_nonempty message) \<and>
    fr_question q = (if mode = Question then trimmed_nonempty question else None) \<and>
    (mode \<noteq> Direct \<longrightarrow> fr_message q \<noteq> None) \<and> (mode = Question \<longrightarrow> fr_question q \<noteq> None)"
proof -
  have settings: "get_friend_settings db1 b = (mode, trimmed_nonempty question)"
    using assms(1)
    by (auto simp: upsert_friend_settings_def Let_def result_simps get_friend_settings_def
        find_user_extra_upsert user_extra_row_of_def new_user_extra_new_def split: option.split)
  have valid: "mode = Question \<longrightarrow> trimmed_nonempty question \<noteq> None"
    using assms(1) by (auto simp: upsert_friend_settings_def Let_def result_simps)
  obtain m k n where "normalize_request_message mode message (trimmed_nonempty question) = Inr (m, k)"
    and "insert_request n db1 = Inr (q, db2)" and "nfr_message n = m" and "nfr_question n = k"
    using assms(2)
    by (auto simp: create_friend_request_def settings Let_def result_simps split: if_splits option.splits)
  with valid show ?thesis
    by (cases mode)
      (auto simp: normalize_request_message_def Let_def result_simps insert_request_def
        friend_request_of_def dest: sym split: if_splits)
qed

lemma saved_mode_governs_requests_witness:
  "\<exists>r db1 q e db2. upsert_friend_settings 2 Question (Some (ascii '' why? '')) 5 empty_tables = Inr (r, db1) \<and>
     create_friend_request db1 1 2 (Some (ascii ''so'')) 6 None (Some 77) 6 sample_forum db1 =
       Inr ((Created q, e), db2) \<and> fr_question q = trimmed_nonempty (Some (ascii '' why? ''))"
proof -
  have trims: "trimmed_nonempty (Some (ascii '' why? '')) = Some (ascii ''why?'')"
    "trimmed_nonempty (Some (ascii ''so'')) = Some (ascii ''so'')"
    by (simp_all add: trimmed_nonempty_def trim_def trim_end_def ascii_def is_whitespace_def)
  obtain r db1 where 1: "upsert_friend_settings 2 Question (Some (ascii '' why? '')) 5 empty_tables = Inr (r, db1)"
    by (simp add: upsert_friend_settings_def trims Let_def)
  then have db1: "db1 = empty_tables\<lparr>user_extras := [user_extra_row_of ((new_user_extra_new 2 5)
      \<lparr>nux_verification_mode := Question, nux_verification_question := Some (ascii ''why?'')\<rparr>)]\<rparr>"
    by (simp add: upsert_friend_settings_def trims Let_def upsert_row_def exists_row_def empty_tables_def)
  obtain q e db2 where 2: "create_friend_request db1 1 2 (Some (ascii ''so'')) 6 None (Some 77) 6 sample_forum db1 =
      Inr ((Created q, e), db2)"
    by (simp add: db1 create_friend_request_def is_blocked_either_direction_def are_mutual_friends_def
        find_unresolved_request_between_def canonical_pair_def count_rows_def empty_tables_def
        get_friend_settings_def find_user_extra_def user_extra_row_of_def new_user_extra_new_def
        normalize_request_message_def trims insert_request_def exists_row_def)
  from saved_mode_governs_requests [OF 1 2] 1 2 show ?thesis by auto
qed

end
