(* ===== verification/Notification_Prefs.thy ===== *)
theory Notification_Prefs
  imports Speaking Social "HOL-Library.Multiset"
begin

text \<open>
  \<open>backend/src/services/notification_preferences.rs\<close> with its transport layer
  \<open>backend/src/services/api/notification_preferences.rs\<close>: account defaults, per-chat settings
  and commands (modern and legacy), the list of exceptions, and the events that announce
  changes. \<open>lock_notification_update\<close> serialises the write and the announcement of one account,
  so each operation is one step. Avatar keys live in the \<open>media\<close> table, of which only the
  columns used here are modelled.
\<close>

section \<open>Account defaults\<close>

record notification_defaults =
  nd_group_chats_muted :: bool
  nd_direct_chats_muted :: bool

definition default_notification_defaults :: notification_defaults where
  "default_notification_defaults = \<lparr>nd_group_chats_muted = False, nd_direct_chats_muted = False\<rparr>"

definition defaults_of :: "user_extra_row \<Rightarrow> notification_defaults" where
  "defaults_of r = \<lparr>nd_group_chats_muted = ux_mute_group_chats_by_default r,
     nd_direct_chats_muted = ux_mute_direct_chats_by_default r\<rparr>"

definition load_notification_defaults :: "tables \<Rightarrow> uid \<Rightarrow> notification_defaults" where
  "load_notification_defaults db uid =
     (case find_user_extra db uid of None \<Rightarrow> default_notification_defaults | Some r \<Rightarrow> defaults_of r)"

definition load_notification_defaults_for_users ::
  "tables \<Rightarrow> uid list \<Rightarrow> (uid \<rightharpoonup> notification_defaults)" where
  "load_notification_defaults_for_users db uids =
     (if uids = [] then Map.empty
      else fold (\<lambda>r m. m(ux_uid r \<mapsto> defaults_of r))
        (select_rows (\<lambda>r. ux_uid r \<in> set uids) (user_extras db)) Map.empty)"

record update_notification_settings_request =
  un_mute_group_chats_by_default :: "bool option"
  un_mute_direct_chats_by_default :: "bool option"

definition or_else :: "'a option \<Rightarrow> 'a \<Rightarrow> 'a" where
  "or_else o' x = (case o' of None \<Rightarrow> x | Some y \<Rightarrow> y)"

lemma or_else_simps [simp]: "or_else None x = x" "or_else (Some y) x = y"
  by (simp_all add: or_else_def)

definition apply_patch :: "update_notification_settings_request \<Rightarrow> user_extra_row \<Rightarrow> user_extra_row" where
  "apply_patch p r = r
     \<lparr>ux_mute_group_chats_by_default := or_else (un_mute_group_chats_by_default p)
        (ux_mute_group_chats_by_default r),
      ux_mute_direct_chats_by_default := or_else (un_mute_direct_chats_by_default p)
        (ux_mute_direct_chats_by_default r)\<rparr>"

definition update_notification_defaults ::
  "uid \<Rightarrow> update_notification_settings_request \<Rightarrow> timestamp \<Rightarrow> tables \<Rightarrow>
   app_error + notification_defaults \<times> tables" where
  "update_notification_defaults uid patch now db =
     (if un_mute_group_chats_by_default patch = None \<and> un_mute_direct_chats_by_default patch = None
      then Inl (BadRequest ''At least one notification default is required'')
      else let inserted = (user_extra_row_of (new_user_extra_new uid now))
                 \<lparr>ux_mute_group_chats_by_default := or_else (un_mute_group_chats_by_default patch) False,
                  ux_mute_direct_chats_by_default := or_else (un_mute_direct_chats_by_default patch) False\<rparr>;
               db' = db\<lparr>user_extras := upsert_row (\<lambda>r. ux_uid r = uid) inserted (apply_patch patch)
                 (user_extras db)\<rparr>
           in Inr (case find_user_extra db uid of
                     None \<Rightarrow> defaults_of inserted
                   | Some r \<Rightarrow> defaults_of (apply_patch patch r), db'))"

section \<open>Settings of one chat\<close>

record chat_notification_setting =
  cns_muted_until :: "timestamp option"
  cns_mute_override :: "bool option"

definition is_muted ::
  "chat_notification_setting \<Rightarrow> group_kind \<Rightarrow> notification_defaults \<Rightarrow> timestamp \<Rightarrow> bool" where
  "is_muted s kind defaults now =
     ((case cns_muted_until s of None \<Rightarrow> False | Some until \<Rightarrow> until > now) \<or>
      or_else (cns_mute_override s)
        (case kind of Group \<Rightarrow> nd_group_chats_muted defaults | Dm \<Rightarrow> nd_direct_chats_muted defaults))"

definition setting_of :: "membership_row \<Rightarrow> chat_notification_setting" where
  "setting_of m = \<lparr>cns_muted_until = gm_muted_until m, cns_mute_override = gm_mute_override m\<rparr>"

definition joined_memberships :: "tables \<Rightarrow> (membership_row \<times> group_row) list" where
  "joined_memberships db =
     concat (map (\<lambda>m. map (Pair m) (filter (\<lambda>g. g_id g = gm_chat_id m) (groups db))) (memberships db))"

definition load_chat_notification_setting ::
  "tables \<Rightarrow> snowflake \<Rightarrow> uid \<Rightarrow> timestamp \<Rightarrow> app_error + chat_notification_setting_response" where
  "load_chat_notification_setting db chat_id uid now =
     and_then (ok_or (first_row (\<lambda>(m, g). gm_chat_id m = chat_id \<and> gm_uid m = uid)
         (joined_memberships db)) (DbQuery DbNotFound)) (\<lambda>(m, g).
       Inr \<lparr>ns_chat_id = chat_id, ns_kind = g_kind g, ns_archived = gm_archived m,
         ns_muted_until = gm_muted_until m, ns_mute_override = gm_mute_override m,
         ns_is_muted = is_muted (setting_of m) (g_kind g) (load_notification_defaults db uid) now\<rparr>)"

definition set_chat_archived :: "snowflake \<Rightarrow> uid \<Rightarrow> bool \<Rightarrow> tables \<Rightarrow> tables" where
  "set_chat_archived chat_id uid archived db =
     db\<lparr>memberships := update_rows (is_membership_of (chat_id, uid))
        (\<lambda>m. m\<lparr>gm_archived := archived\<rparr>) (memberships db)\<rparr>"

definition publish_chat_notification_setting ::
  "uid \<Rightarrow> chat_notification_setting_response \<Rightarrow> 'p registry \<Rightarrow> 'p registry" where
  "publish_chat_notification_setting uid setting r =
     broadcast_to_uids [uid] (WsChatNotificationSettingChanged setting)
       (broadcast_to_uids [uid] (WsChatArchiveStateChanged
          \<lparr>as_chat_id = ns_chat_id setting, as_archived = ns_archived setting,
           as_muted_until = ns_muted_until setting\<rparr>) r)"

section \<open>Commands\<close>

definition max_temporary_mute_seconds :: int where
  "max_temporary_mute_seconds = 7 * 24 * 60 * 60"

definition seconds :: "int \<Rightarrow> timestamp" where
  "seconds n = n * 1000000000"

text \<open>9999-12-31T23:59:59Z\<close>

definition indefinite_mute_until :: timestamp where
  "indefinite_mute_until = seconds 253402300799"

datatype notification_setting_mode = ModeInherit | ModeAlwaysMuted | ModeAlwaysUnmuted | ModeTemporarilyMuted

record update_notification_setting_request =
  uns_mode :: notification_setting_mode
  uns_duration_seconds :: "int option"

datatype chat_notification_command =
    Inherit
  | AlwaysMuted
  | AlwaysUnmuted
  | TemporarilyMuted int
  | LegacyMute "int option"
  | LegacyUnmuteAndUnarchive

definition command_of_request ::
  "update_notification_setting_request \<Rightarrow> app_error + chat_notification_command" where
  "command_of_request req =
     (if uns_mode req = ModeTemporarilyMuted
      then and_then (ok_or (uns_duration_seconds req) (BadRequest ''Duration is required''))
        (\<lambda>d. Inr (TemporarilyMuted d))
      else if uns_duration_seconds req \<noteq> None
      then Inl (BadRequest ''Duration is only valid for temporary mute'')
      else Inr (case uns_mode req of
          ModeAlwaysMuted \<Rightarrow> AlwaysMuted | ModeAlwaysUnmuted \<Rightarrow> AlwaysUnmuted | _ \<Rightarrow> Inherit))"

text \<open>The outer option distinguishes "leave unchanged" from "clear".\<close>

record notification_changes =
  nc_muted_until :: "timestamp option option"
  nc_mute_override :: "bool option option"
  nc_archived :: "bool option"

definition changes :: "chat_notification_command \<Rightarrow> timestamp \<Rightarrow> app_error + notification_changes" where
  "changes cmd now =
     (let c = \<lparr>nc_muted_until = Some None, nc_mute_override = Some None, nc_archived = None\<rparr>
      in case cmd of
           Inherit \<Rightarrow> Inr c
         | AlwaysMuted \<Rightarrow> Inr (c\<lparr>nc_mute_override := Some (Some True)\<rparr>)
         | AlwaysUnmuted \<Rightarrow> Inr (c\<lparr>nc_mute_override := Some (Some False)\<rparr>)
         | TemporarilyMuted d \<Rightarrow>
             (if \<not> (1 \<le> d \<and> d \<le> max_temporary_mute_seconds)
              then Inl (BadRequest ''Duration must be between 1 second and 7 days'')
              else Inr (c\<lparr>nc_muted_until := Some (Some (now + seconds d)), nc_mute_override := None\<rparr>))
         | LegacyMute d \<Rightarrow>
             (let s = or_else d 0
              in if s > max_temporary_mute_seconds
                 then Inl (BadRequest ''Duration exceeds 7 day maximum'')
                 else if s > 0 then Inr (c\<lparr>nc_muted_until := Some (Some (now + seconds s))\<rparr>)
                 else Inr (c\<lparr>nc_muted_until := Some (Some indefinite_mute_until),
                             nc_mute_override := Some (Some True)\<rparr>))
         | LegacyUnmuteAndUnarchive \<Rightarrow>
             Inr (c\<lparr>nc_mute_override := Some (Some False), nc_archived := Some False\<rparr>))"

definition apply_changes :: "notification_changes \<Rightarrow> membership_row \<Rightarrow> membership_row" where
  "apply_changes c m = m
     \<lparr>gm_muted_until := or_else (nc_muted_until c) (gm_muted_until m),
      gm_mute_override := or_else (nc_mute_override c) (gm_mute_override m),
      gm_archived := or_else (nc_archived c) (gm_archived m)\<rparr>"

definition update_chat_notification_setting ::
  "snowflake \<Rightarrow> uid \<Rightarrow> chat_notification_command \<Rightarrow> timestamp \<Rightarrow> tables \<Rightarrow>
   app_error + chat_notification_setting \<times> tables" where
  "update_chat_notification_setting chat_id uid cmd now db =
     and_then (changes cmd now) (\<lambda>c.
     and_then (ok_or (first_row (is_membership_of (chat_id, uid)) (memberships db)) (DbQuery DbNotFound))
       (\<lambda>m. Inr (setting_of (apply_changes c m),
          db\<lparr>memberships := update_rows (is_membership_of (chat_id, uid)) (apply_changes c)
            (memberships db)\<rparr>)))"

section \<open>Exceptions\<close>

record media_row =
  md_id :: snowflake
  md_storage_key :: string
  md_deleted_at :: "timestamp option"

record exception_row =
  ex_chat_id :: snowflake
  ex_name :: ustr
  ex_avatar_key :: "string option"
  ex_kind :: group_kind
  ex_dm_uid1 :: "uid option"
  ex_dm_uid2 :: "uid option"
  ex_archived :: bool
  ex_setting :: chat_notification_setting

record exception_page =
  ep_rows :: "exception_row list"
  ep_total_count :: nat
  ep_next_cursor :: "snowflake option"

definition clear_notification_exceptions :: "uid \<Rightarrow> group_kind \<Rightarrow> tables \<Rightarrow> snowflake list \<times> tables" where
  "clear_notification_exceptions uid kind db =
     (let P = (\<lambda>m. gm_uid m = uid \<and> gm_mute_override m \<noteq> None \<and>
            gm_chat_id m \<in> set (map g_id (select_rows (\<lambda>g. g_kind g = kind) (groups db))))
      in (map gm_chat_id (select_rows P (memberships db)),
          db\<lparr>memberships := update_rows P
            (\<lambda>m. m\<lparr>gm_mute_override := None, gm_muted_until := None\<rparr>) (memberships db)\<rparr>))"

definition is_exception :: "uid \<Rightarrow> group_kind \<Rightarrow> membership_row \<times> group_row \<Rightarrow> bool" where
  "is_exception uid kind mg \<longleftrightarrow>
     gm_uid (fst mg) = uid \<and> g_kind (snd mg) = kind \<and> gm_mute_override (fst mg) \<noteq> None"

definition exception_of :: "media_row list \<Rightarrow> membership_row \<times> group_row \<Rightarrow> exception_row" where
  "exception_of media mg =
     (let (m, g) = mg
      in \<lparr>ex_chat_id = g_id g, ex_name = g_name g,
          ex_avatar_key = map_option md_storage_key
            (first_row (\<lambda>a. g_avatar_image_id g = Some (md_id a) \<and> md_deleted_at a = None) media),
          ex_kind = g_kind g, ex_dm_uid1 = g_dm_uid1 g, ex_dm_uid2 = g_dm_uid2 g,
          ex_archived = gm_archived m, ex_setting = setting_of m\<rparr>)"

definition list_notification_exceptions ::
  "tables \<Rightarrow> media_row list \<Rightarrow> uid \<Rightarrow> group_kind \<Rightarrow> snowflake option \<Rightarrow> nat \<Rightarrow> exception_page" where
  "list_notification_exceptions db media uid kind after limit =
     (let matching = select_rows (is_exception uid kind) (joined_memberships db);
          total_count = length matching;
          wanted = select_rows (\<lambda>mg. case after of None \<Rightarrow> True | Some a \<Rightarrow> gm_chat_id (fst mg) > a) matching;
          rows = take (limit + 1)
            (map (exception_of media) (sort_key (\<lambda>mg. gm_chat_id (fst mg)) wanted));
          more = length rows > limit;
          rows = take limit rows
      in \<lparr>ep_rows = rows, ep_total_count = total_count,
          ep_next_cursor = (if more \<and> rows \<noteq> [] then Some (ex_chat_id (last rows)) else None)\<rparr>)"

section \<open>Transport operations\<close>

definition patch_settings ::
  "uid \<Rightarrow> update_notification_settings_request \<Rightarrow> timestamp \<Rightarrow> tables \<times> 'p registry \<Rightarrow>
   app_error + notification_defaults \<times> tables \<times> 'p registry" where
  "patch_settings uid body now s =
     and_then (update_notification_defaults uid body now (fst s)) (\<lambda>(saved, db').
       Inr (saved, db', broadcast_to_uids [uid] (WsNotificationSettingsChanged
         (nd_group_chats_muted saved) (nd_direct_chats_muted saved)) (snd s)))"

definition clear_exceptions ::
  "uid \<Rightarrow> group_kind \<Rightarrow> tables \<times> 'p registry \<Rightarrow> snowflake list \<times> tables \<times> 'p registry" where
  "clear_exceptions uid kind s =
     (let (chat_ids, db') = clear_notification_exceptions uid kind (fst s)
      in (chat_ids, db', broadcast_to_uids [uid] (WsNotificationExceptionsCleared kind chat_ids) (snd s)))"

text \<open>\<open>UPDATE_LOCKS[uid as usize % UPDATE_LOCKS.len()]\<close>: the cast extends the sign.\<close>

definition lock_stripe :: "32 word \<Rightarrow> nat" where
  "lock_stripe uid = unat ((scast uid :: u64) mod 64)"

section \<open>Lemmas\<close>

lemma find_membership_row_update:
  assumes "\<And>m. membership_key (f m) = membership_key m"
  shows "first_row (is_membership_of k) (update_rows (is_membership_of k') f rows) =
    (if k = k' then map_option f (first_row (is_membership_of k) rows)
     else first_row (is_membership_of k) rows)"
  using membership_table.find_update [of f k k'] assms by simp

lemma apply_changes_key: "membership_key (apply_changes c m) = membership_key m"
  by (simp add: apply_changes_def membership_key_def)

lemma changes_cases [simp]:
  "changes Inherit now = Inr \<lparr>nc_muted_until = Some None, nc_mute_override = Some None, nc_archived = None\<rparr>"
  by (simp add: changes_def)

definition patched_row ::
  "uid \<Rightarrow> update_notification_settings_request \<Rightarrow> timestamp \<Rightarrow> user_extra_row option \<Rightarrow> user_extra_row" where
  "patched_row uid p now old =
     (case old of
        Some r \<Rightarrow> apply_patch p r
      | None \<Rightarrow> (user_extra_row_of (new_user_extra_new uid now))
          \<lparr>ux_mute_group_chats_by_default := or_else (un_mute_group_chats_by_default p) False,
           ux_mute_direct_chats_by_default := or_else (un_mute_direct_chats_by_default p) False\<rparr>)"

lemma update_notification_defaults_effect:
  assumes "update_notification_defaults uid p now db = Inr (s, db')"
  shows "find_user_extra db' u =
      (if u = uid then Some (patched_row uid p now (find_user_extra db uid)) else find_user_extra db u)"
    and "s = defaults_of (patched_row uid p now (find_user_extra db uid))"
proof -
  have key: "ux_uid (apply_patch p r) = ux_uid r" for r by (simp add: apply_patch_def)
  have ins: "ux_uid (patched_row uid p now None) = uid"
    by (simp add: patched_row_def user_extra_row_of_def new_user_extra_new_def)
  have db': "db' = db\<lparr>user_extras := upsert_row (\<lambda>r. ux_uid r = uid) (patched_row uid p now None) (apply_patch p)
      (user_extras db)\<rparr>"
    and "s = defaults_of (patched_row uid p now (find_user_extra db uid))"
    using assms
    by (auto simp: update_notification_defaults_def Let_def patched_row_def split: if_splits option.splits)
  then show "s = defaults_of (patched_row uid p now (find_user_extra db uid))" by simp
  show "find_user_extra db' u =
      (if u = uid then Some (patched_row uid p now (find_user_extra db uid)) else find_user_extra db u)"
    unfolding db' by (subst find_user_extra_upsert [OF ins key])
      (simp add: patched_row_def split: option.split)
qed

section \<open>Paging by the last chat id\<close>

lemma filter_after_last:
  assumes "sorted_wrt (\<lambda>x y. k x < (k y :: int)) ys" and "0 < n" and "n < length ys"
  shows "filter (\<lambda>x. k (last (take n ys)) < k x) ys = drop n ys"
proof -
  have last: "last (take n ys) = ys ! (n - 1)" using assms(2,3) by (subst last_conv_nth) auto
  have less: "i < j \<Longrightarrow> j < length ys \<Longrightarrow> k (ys ! i) < k (ys ! j)" for i j
    using assms(1) by (rule sorted_wrt_nth_less)
  have "\<not> k (ys ! (n - 1)) < k x" if "x \<in> set (take n ys)" for x
  proof -
    obtain i where i: "i < n" "x = ys ! i" using \<open>x \<in> set (take n ys)\<close> by (auto simp: in_set_conv_nth)
    then have "i = n - 1 \<or> i < n - 1 \<and> n - 1 < length ys" using assms(2,3) by linarith
    then show ?thesis using less [of i "n - 1"] i(2) by auto
  qed
  moreover have "k (ys ! (n - 1)) < k x" if "x \<in> set (drop n ys)" for x
  proof -
    obtain i where "i < length (drop n ys)" "x = drop n ys ! i"
      using \<open>x \<in> set (drop n ys)\<close> by (auto simp: in_set_conv_nth)
    then have "n + i < length ys" "x = ys ! (n + i)" by simp_all
    then show ?thesis using less [of "n - 1" "n + i"] assms(2) by simp
  qed
  ultimately have "filter (\<lambda>x. k (ys ! (n - 1)) < k x) (take n ys @ drop n ys) = drop n ys"
    unfolding filter_append by (simp add: filter_empty_conv)
  then show ?thesis by (simp add: last)
qed

definition beyond :: "snowflake option \<Rightarrow> int \<Rightarrow> bool" where
  "beyond after i \<longleftrightarrow> (case after of None \<Rightarrow> True | Some a \<Rightarrow> i > a)"

text \<open>What a client does: follow the cursors, at most \<open>fuel\<close> requests.\<close>

fun collect_pages :: "(snowflake option \<Rightarrow> exception_page) \<Rightarrow> nat \<Rightarrow> snowflake option \<Rightarrow> exception_row list" where
  "collect_pages page 0 after = []"
| "collect_pages page (Suc fuel) after =
     ep_rows (page after) @
     (case ep_next_cursor (page after) of None \<Rightarrow> [] | Some c \<Rightarrow> collect_pages page fuel (Some c))"

lemma collect_pages_all:
  assumes "sorted_wrt (\<lambda>x y. ex_chat_id x < ex_chat_id y) all" and "0 < limit"
    and "\<And>after. page after =
      (let rows = filter (\<lambda>x. beyond after (ex_chat_id x)) all
       in \<lparr>ep_rows = take limit rows, ep_total_count = n,
           ep_next_cursor = (if length rows > limit then Some (ex_chat_id (last (take limit rows))) else None)\<rparr>)"
    and "length (filter (\<lambda>x. beyond after (ex_chat_id x)) all) < fuel"
  shows "collect_pages page fuel after = filter (\<lambda>x. beyond after (ex_chat_id x)) all"
  using assms(4)
proof (induction fuel arbitrary: after)
  case 0
  then show ?case by simp
next
  case (Suc fuel)
  let ?rows = "filter (\<lambda>x. beyond after (ex_chat_id x)) all"
  have sorted: "sorted_wrt (\<lambda>x y. ex_chat_id x < ex_chat_id y) ?rows"
    using assms(1) by (rule sorted_wrt_filter)
  show ?case
  proof (cases "length ?rows > limit")
    case False
    then show ?thesis by (simp add: assms(3) Let_def)
  next
    case True
    let ?c = "ex_chat_id (last (take limit ?rows))"
    have "last (take limit ?rows) \<in> set ?rows"
      using True assms(2) by (intro in_set_takeD [OF last_in_set]) auto
    then have "beyond after ?c" by simp
    then have "filter (\<lambda>x. beyond (Some ?c) (ex_chat_id x)) all = filter (\<lambda>x. ?c < ex_chat_id x) ?rows"
      unfolding filter_filter by (intro filter_cong) (auto simp: beyond_def split: option.splits)
    also have "\<dots> = drop limit ?rows" by (rule filter_after_last [OF sorted assms(2) True])
    finally have rest: "filter (\<lambda>x. beyond (Some ?c) (ex_chat_id x)) all = drop limit ?rows" .
    have "collect_pages page fuel (Some ?c) = drop limit ?rows"
      using Suc.IH [of "Some ?c"] Suc.prems assms(2) True by (simp only: rest) simp
    then have "take limit ?rows @ collect_pages page fuel (Some ?c) = ?rows" by simp
    moreover have "ep_rows (page after) = take limit ?rows" and "ep_next_cursor (page after) = Some ?c"
      using True by (simp_all add: assms(3) Let_def)
    ultimately show ?thesis by simp
  qed
qed

definition exceptions_of :: "tables \<Rightarrow> uid \<Rightarrow> group_kind \<Rightarrow> (membership_row \<times> group_row) list" where
  "exceptions_of db uid kind =
     sort_key (\<lambda>mg. gm_chat_id (fst mg)) (select_rows (is_exception uid kind) (joined_memberships db))"

lemma set_joined_memberships:
  "(m, g) \<in> set (joined_memberships db) \<longleftrightarrow>
   m \<in> set (memberships db) \<and> g \<in> set (groups db) \<and> g_id g = gm_chat_id m"
  by (auto simp: joined_memberships_def)

lemma disjoint_images: "A \<subseteq> {x} \<Longrightarrow> B \<subseteq> C \<Longrightarrow> x \<notin> C \<Longrightarrow> A \<inter> B = {}"
  by blast

lemma distinct_joined_memberships:
  assumes "chats_ok db"
  shows "distinct (map (\<lambda>mg. membership_key (fst mg)) (joined_memberships db))"
proof -
  let ?k = "\<lambda>mg. membership_key (fst mg)"
  let ?F = "\<lambda>m. map (Pair m) (filter (\<lambda>g. g_id g = gm_chat_id m) (groups db))"
  have one: "length (filter (\<lambda>g. g_id g = i) gs) \<le> 1" if "distinct (map g_id gs)" for i gs
    using that by (induction gs) (auto simp: filter_empty_conv image_iff Suc_le_eq)
  have "distinct (map ?k (concat (map ?F ms)))" if "distinct (map membership_key ms)" for ms
    using that
  proof (induction ms)
    case Nil
    then show ?case by simp
  next
    case (Cons m ms)
    have "length (filter (\<lambda>g. g_id g = gm_chat_id m) (groups db)) \<le> 1"
      using one [of "groups db" "gm_chat_id m"] assms by (simp add: chats_ok_def distinct_keys_def)
    then have "distinct (map ?k (?F m))"
      by (cases "filter (\<lambda>g. g_id g = gm_chat_id m) (groups db)") auto
    moreover have "?k ` set (?F m) \<inter> ?k ` set (concat (map ?F ms)) = {}"
    proof (rule disjoint_images)
      show "?k ` set (?F m) \<subseteq> {membership_key m}" by auto
      show "?k ` set (concat (map ?F ms)) \<subseteq> membership_key ` set ms" by auto
      show "membership_key m \<notin> membership_key ` set ms" using Cons.prems by simp
    qed
    moreover have "distinct (map ?k (concat (map ?F ms)))" using Cons by simp
    ultimately show ?case by (simp only: list.map concat.simps map_append distinct_append set_map)
  qed
  then show ?thesis using assms by (simp add: joined_memberships_def chats_ok_def distinct_keys_def)
qed

lemma exceptions_sorted:
  assumes "chats_ok db"
  shows "sorted_wrt (\<lambda>x y. ex_chat_id x < ex_chat_id y) (map (exception_of media) (exceptions_of db uid kind))"
proof -
  let ?xs = "select_rows (is_exception uid kind) (joined_memberships db)"
  have "inj_on (\<lambda>mg. gm_chat_id (fst mg)) (set ?xs)"
    using distinct_joined_memberships [OF assms]
    by (auto simp: distinct_map row_simps is_exception_def membership_key_def inj_on_def)
  moreover have "distinct ?xs"
    using distinct_joined_memberships [OF assms] by (auto simp: distinct_map select_rows_def)
  ultimately have "distinct (map (\<lambda>mg. gm_chat_id (fst mg)) (exceptions_of db uid kind))"
    by (simp add: exceptions_of_def distinct_map)
  moreover have "sorted (map (\<lambda>mg. gm_chat_id (fst mg)) (exceptions_of db uid kind))"
    by (simp add: exceptions_of_def)
  ultimately have "sorted_wrt (<) (map (\<lambda>mg. gm_chat_id (fst mg)) (exceptions_of db uid kind))"
    by (simp add: strict_sorted_iff)
  moreover have "map ex_chat_id (map (exception_of media) (exceptions_of db uid kind)) =
      map (\<lambda>mg. gm_chat_id (fst mg)) (exceptions_of db uid kind)"
    by (auto simp: exceptions_of_def row_simps exception_of_def set_joined_memberships split: prod.split)
  ultimately have "sorted_wrt (<) (map ex_chat_id (map (exception_of media) (exceptions_of db uid kind)))"
    by (simp only:)
  then show ?thesis by (simp only: sorted_wrt_map)
qed

lemma list_exceptions_page:
  "list_notification_exceptions db media uid kind after limit =
   (let rows = filter (\<lambda>x. beyond after (ex_chat_id x)) (map (exception_of media) (exceptions_of db uid kind))
    in \<lparr>ep_rows = take limit rows,
        ep_total_count = length (select_rows (is_exception uid kind) (joined_memberships db)),
        ep_next_cursor = (if length rows > limit \<and> 0 < limit then Some (ex_chat_id (last (take limit rows))) else None)\<rparr>)"
proof -
  let ?matching = "select_rows (is_exception uid kind) (joined_memberships db)"
  have "filter (\<lambda>x. beyond after (ex_chat_id x)) (map (exception_of media) (exceptions_of db uid kind)) =
      map (exception_of media) (filter (\<lambda>mg. beyond after (gm_chat_id (fst mg))) (exceptions_of db uid kind))"
    unfolding filter_map
    by (auto intro!: arg_cong [where f = "map (exception_of media)"] filter_cong
        simp: exceptions_of_def row_simps exception_of_def set_joined_memberships split: prod.split)
  also have "filter (\<lambda>mg. beyond after (gm_chat_id (fst mg))) (exceptions_of db uid kind) =
      sort_key (\<lambda>mg. gm_chat_id (fst mg))
        (select_rows (\<lambda>mg. case after of None \<Rightarrow> True | Some a \<Rightarrow> gm_chat_id (fst mg) > a) ?matching)"
    by (simp add: exceptions_of_def filter_sort select_rows_def beyond_def)
  moreover have "sort_key f xs = [] \<longleftrightarrow> xs = []" for f :: "membership_row \<times> group_row \<Rightarrow> int" and xs
    by (metis length_0_conv length_sort)
  ultimately show ?thesis
    by (auto simp: list_notification_exceptions_def Let_def take_map min_def)
qed

section \<open>Properties\<close>

text \<open>What a command means for every later moment: "inherit" follows the account default,
  "always" settings do not expire, a temporary mute silences the chat until its end and then
  gives way to the earlier override or the default, a legacy mute without a positive duration
  is permanent, and only the legacy unmute touches the archive flag.\<close>

theorem command_meaning:
  assumes "update_chat_notification_setting c u cmd now db = Inr (s, db')"
    and "now \<le> t" and "t < indefinite_mute_until"
  shows "\<exists>m m'. first_row (is_membership_of (c, u)) (memberships db) = Some m \<and>
    first_row (is_membership_of (c, u)) (memberships db') = Some m' \<and> s = setting_of m' \<and>
    gm_archived m' = (gm_archived m \<and> cmd \<noteq> LegacyUnmuteAndUnarchive) \<and>
    is_muted s kind d t =
      (let default = (case kind of Group \<Rightarrow> nd_group_chats_muted d | Dm \<Rightarrow> nd_direct_chats_muted d)
       in case cmd of
            Inherit \<Rightarrow> default
          | AlwaysMuted \<Rightarrow> True
          | AlwaysUnmuted \<Rightarrow> False
          | TemporarilyMuted n \<Rightarrow> t < now + seconds n \<or> or_else (gm_mute_override m) default
          | LegacyMute n \<Rightarrow> (case n of Some k \<Rightarrow> k \<le> 0 \<or> t < now + seconds k \<or> default | None \<Rightarrow> True)
          | LegacyUnmuteAndUnarchive \<Rightarrow> False)"
proof -
  obtain m ch where m: "first_row (is_membership_of (c, u)) (memberships db) = Some m"
    and ch: "changes cmd now = Inr ch" and s: "s = setting_of (apply_changes ch m)"
    and db': "db' = db\<lparr>memberships := update_rows (is_membership_of (c, u)) (apply_changes ch) (memberships db)\<rparr>"
    using assms(1) by (auto simp: update_chat_notification_setting_def result_simps)
  have m': "first_row (is_membership_of (c, u)) (memberships db') = Some (apply_changes ch m)"
    by (simp add: db' find_membership_row_update apply_changes_key m)
  show ?thesis
    using ch assms(2,3)
    by (cases cmd)
      (auto simp: m m' s changes_def Let_def apply_changes_def setting_of_def is_muted_def
        split: if_splits option.splits group_kind.splits)
qed

lemma command_meaning_witness:
  "\<exists>s db'. update_chat_notification_setting 1 20 (TemporarilyMuted 60) 0 sample_chats = Inr (s, db') \<and>
     is_muted s Group default_notification_defaults (seconds 59) \<and>
     \<not> is_muted s Group default_notification_defaults (seconds 60)"
proof -
  obtain s db' where run: "update_chat_notification_setting 1 20 (TemporarilyMuted 60) 0 sample_chats = Inr (s, db')"
    by (simp add: update_chat_notification_setting_def changes_def Let_def max_temporary_mute_seconds_def
        sample_simps is_membership_of_def)
  show ?thesis
    using command_meaning [OF run, of "seconds 59" Group default_notification_defaults]
      command_meaning [OF run, of "seconds 60" Group default_notification_defaults] run
    by (auto simp: seconds_def indefinite_mute_until_def default_notification_defaults_def sample_simps
        is_membership_of_def)
qed

text \<open>Clearing the exceptions of a kind returns exactly the chats that had one, removes exactly
  those, keeps inherited temporary mutes, archive flags and everybody else's settings, and
  leaves an empty list.\<close>

theorem clear_exceptions_exact:
  assumes "chats_ok db" and "clear_notification_exceptions uid kind db = (ids, db')"
  shows "set ids = (\<lambda>mg. gm_chat_id (fst mg)) ` {mg \<in> set (joined_memberships db). is_exception uid kind mg} \<and>
    ep_total_count (list_notification_exceptions db' media uid kind after limit) = 0 \<and>
    (\<forall>c u. case first_row (is_membership_of (c, u)) (memberships db) of
        None \<Rightarrow> first_row (is_membership_of (c, u)) (memberships db') = None
      | Some m \<Rightarrow> first_row (is_membership_of (c, u)) (memberships db') =
          Some (if u = uid \<and> c \<in> set ids then m\<lparr>gm_mute_override := None, gm_muted_until := None\<rparr> else m))"
proof -
  let ?P = "\<lambda>m. gm_uid m = uid \<and> gm_mute_override m \<noteq> None \<and>
    gm_chat_id m \<in> set (map g_id (select_rows (\<lambda>g. g_kind g = kind) (groups db)))"
  let ?f = "\<lambda>m :: membership_row. m\<lparr>gm_mute_override := None, gm_muted_until := None\<rparr>"
  have ids: "ids = map gm_chat_id (select_rows ?P (memberships db))"
    and db': "db' = db\<lparr>memberships := update_rows ?P ?f (memberships db)\<rparr>"
    using assms(2) by (auto simp: clear_notification_exceptions_def Let_def)
  have ms: "memberships (db\<lparr>memberships := rows\<rparr>) = rows" for rows by simp
  have row: "first_row (is_membership_of k) (memberships db') =
      map_option (\<lambda>m. if ?P m then ?f m else m) (first_row (is_membership_of k) (memberships db))" for k
    unfolding db' ms by (rule membership_table.find_update_any) (simp add: membership_key_def)
  have set_ids: "set ids = (\<lambda>mg. gm_chat_id (fst mg)) ` {mg \<in> set (joined_memberships db). is_exception uid kind mg}"
    (is "_ = _ ` ?X")
  proof (rule set_eqI, rule iffI)
    fix i
    assume "i \<in> set ids"
    then obtain m where m: "m \<in> set (memberships db)" "?P m" "gm_chat_id m = i"
      by (auto simp: ids row_simps)
    then obtain g where "g \<in> set (groups db)" "g_kind g = kind" "g_id g = gm_chat_id m"
      by (auto simp: row_simps)
    with m have "(m, g) \<in> ?X" by (simp add: set_joined_memberships is_exception_def)
    with m(3) show "i \<in> (\<lambda>mg. gm_chat_id (fst mg)) ` ?X" by force
  next
    fix i
    assume "i \<in> (\<lambda>mg. gm_chat_id (fst mg)) ` ?X"
    then obtain m g where "(m, g) \<in> ?X" and i: "gm_chat_id m = i" by auto
    then have "m \<in> set (select_rows ?P (memberships db))"
      by (auto simp: row_simps set_joined_memberships is_exception_def image_iff)
    with i show "i \<in> set ids" by (auto simp: ids)
  qed
  have "\<not> is_exception uid kind (m, g)" if "(m, g) \<in> set (joined_memberships db')" for m g
  proof
    assume "is_exception uid kind (m, g)"
    then have m: "gm_uid m = uid" "gm_mute_override m \<noteq> None" and kind: "g_kind g = kind"
      by (simp_all add: is_exception_def)
    have g: "g \<in> set (groups db)" "g_id g = gm_chat_id m"
      and "m \<in> set (update_rows ?P ?f (memberships db))"
      using that by (simp_all add: set_joined_memberships db')
    then obtain m0 where m0: "m = (if ?P m0 then ?f m0 else m0)" by (auto simp only: set_update_rows)
    then have "\<not> ?P m0" using m(2) by auto
    with m0 have "\<not> ?P m" by simp
    moreover have "gm_chat_id m \<in> set (map g_id (select_rows (\<lambda>g. g_kind g = kind) (groups db)))"
      using g kind by (auto simp: row_simps image_iff)
    ultimately show False using m by blast
  qed
  then have none: "select_rows (is_exception uid kind) (joined_memberships db') = []"
    unfolding select_rows_def filter_empty_conv by (metis surj_pair)
  have mem: "?P m \<longleftrightarrow> u = uid \<and> c \<in> set ids"
    if "first_row (is_membership_of (c, u)) (memberships db) = Some m" for c u m
  proof -
    have m: "m \<in> set (memberships db)" "gm_chat_id m = c" "gm_uid m = u"
      using first_row_Some [OF that] by (simp_all add: is_membership_of_def)
    have unique: "m' = m" if "m' \<in> set (memberships db)" "gm_chat_id m' = c" "gm_uid m' = u" for m'
      using assms(1) m that distinct_keys_eq [of membership_key "memberships db" m' m]
      by (simp add: chats_ok_def membership_key_def)
    show ?thesis
    proof
      assume "?P m"
      then have "m \<in> set (select_rows ?P (memberships db))" using m(1) by (simp only: set_select_rows) simp
      then show "u = uid \<and> c \<in> set ids" using \<open>?P m\<close> m(2,3) by (auto simp only: ids set_map)
    next
      assume cu: "u = uid \<and> c \<in> set ids"
      then obtain m' where m': "m' \<in> set (select_rows ?P (memberships db))" "gm_chat_id m' = c"
        by (auto simp only: ids set_map)
      then have "m' \<in> set (memberships db) \<and> ?P m'" unfolding set_select_rows by blast
      then have "m' \<in> set (memberships db)" and P: "?P m'" by blast+
      then have "m' = m" using unique m'(2) cu by blast
      with P show "?P m" by blast
    qed
  qed
  have "case first_row (is_membership_of (c, u)) (memberships db) of
        None \<Rightarrow> first_row (is_membership_of (c, u)) (memberships db') = None
      | Some m \<Rightarrow> first_row (is_membership_of (c, u)) (memberships db') =
          Some (if u = uid \<and> c \<in> set ids then ?f m else m)" for c u
    using mem [of c u] row [of "(c, u)"]
    by (cases "first_row (is_membership_of (c, u)) (memberships db)") (simp_all only: option.simps)
  with set_ids none show ?thesis by (simp add: list_exceptions_page Let_def)
qed

text \<open>Paging is complete: following the cursors from the start returns every exception exactly
  once, in the order of chat ids, whatever the page size, and needs no more requests than there
  are exceptions.\<close>

theorem exception_pages_complete:
  assumes "chats_ok db" and "0 < limit"
    and "ep_total_count (list_notification_exceptions db media uid kind None limit) < fuel"
  shows "collect_pages (\<lambda>after. list_notification_exceptions db media uid kind after limit) fuel None =
      map (exception_of media) (exceptions_of db uid kind) \<and>
    distinct (map ex_chat_id (map (exception_of media) (exceptions_of db uid kind))) \<and>
    mset (exceptions_of db uid kind) = mset (filter (is_exception uid kind) (joined_memberships db))"
proof -
  let ?all = "map (exception_of media) (exceptions_of db uid kind)"
  have "collect_pages (\<lambda>after. list_notification_exceptions db media uid kind after limit) fuel None =
      filter (\<lambda>x. beyond None (ex_chat_id x)) ?all"
    by (rule collect_pages_all [where n = "length (select_rows (is_exception uid kind) (joined_memberships db))"])
      (use assms exceptions_sorted [OF assms(1)] in
        \<open>simp_all add: list_exceptions_page Let_def exceptions_of_def beyond_def\<close>)
  moreover have "distinct (map ex_chat_id ?all)"
    using exceptions_sorted [OF assms(1), of media uid kind]
    unfolding sorted_wrt_map [of "(<)" ex_chat_id, symmetric] strict_sorted_iff by simp
  ultimately show ?thesis by (simp add: beyond_def exceptions_of_def select_rows_def)
qed

text \<open>A chat with an explicit exception for user 20.\<close>

definition sample_exception :: tables where
  "sample_exception = sample_chats\<lparr>memberships := map (\<lambda>m. if gm_chat_id m = 1 \<and> gm_uid m = 20
     then m\<lparr>gm_mute_override := Some True\<rparr> else m) (memberships sample_chats)\<rparr>"

lemma sample_exception_ok: "chats_ok sample_exception"
  by (simp add: sample_exception_def chats_ok_def distinct_keys_def membership_key_def sample_simps)

lemma clear_exceptions_exact_witness:
  "set (fst (clear_notification_exceptions 20 Group sample_exception)) = {1}"
proof -
  obtain ids db' where run: "clear_notification_exceptions 20 Group sample_exception = (ids, db')" by fastforce
  have "{mg \<in> set (joined_memberships sample_exception). is_exception 20 Group mg} =
      set (filter (is_exception 20 Group) (joined_memberships sample_exception))"
    by auto
  also have "(\<lambda>mg. gm_chat_id (fst mg)) ` \<dots> = {1}"
    by (simp add: sample_exception_def sample_simps joined_memberships_def is_exception_def)
  finally show ?thesis
    using clear_exceptions_exact [OF sample_exception_ok run] by (simp add: run)
qed

lemma exception_pages_complete_witness:
  "map ex_chat_id (collect_pages
     (\<lambda>after. list_notification_exceptions sample_exception [] 20 Group after 1) 2 None) = [1]"
proof -
  have "ep_total_count (list_notification_exceptions sample_exception [] 20 Group None 1) < 2"
    by (simp add: list_exceptions_page Let_def sample_exception_def sample_simps joined_memberships_def
        is_exception_def select_rows_def)
  then show ?thesis
    using exception_pages_complete [OF sample_exception_ok, of 1 "[]" 20 Group 2]
    by (simp add: exceptions_of_def sample_exception_def sample_simps joined_memberships_def is_exception_def
        select_rows_def exception_of_def)
qed

text \<open>Edits of the two account defaults are independent: whatever the order in which two devices
  change different categories, both changes survive, and no other setting of the account moves.\<close>

theorem default_patches_commute:
  assumes "update_notification_defaults uid
      \<lparr>un_mute_group_chats_by_default = Some a, un_mute_direct_chats_by_default = None\<rparr> t db = Inr (r1, db1)"
    and "update_notification_defaults uid
      \<lparr>un_mute_group_chats_by_default = None, un_mute_direct_chats_by_default = Some b\<rparr> t' db1 = Inr (r2, db2)"
    and "update_notification_defaults uid
      \<lparr>un_mute_group_chats_by_default = None, un_mute_direct_chats_by_default = Some b\<rparr> t db = Inr (r3, db3)"
    and "update_notification_defaults uid
      \<lparr>un_mute_group_chats_by_default = Some a, un_mute_direct_chats_by_default = None\<rparr> t' db3 = Inr (r4, db4)"
  shows "load_notification_defaults db2 uid = \<lparr>nd_group_chats_muted = a, nd_direct_chats_muted = b\<rparr> \<and>
    r2 = load_notification_defaults db2 uid \<and>
    (\<forall>u. find_user_extra db4 u = find_user_extra db2 u) \<and>
    (\<forall>u. u \<noteq> uid \<longrightarrow> find_user_extra db2 u = find_user_extra db u) \<and>
    get_presence_settings db2 uid = get_presence_settings db uid \<and>
    get_friend_settings db2 uid = get_friend_settings db uid"
proof -
  note steps = update_notification_defaults_effect [OF assms(1)] update_notification_defaults_effect [OF assms(2)]
    update_notification_defaults_effect [OF assms(3)] update_notification_defaults_effect [OF assms(4)]
  show ?thesis
    by (cases "find_user_extra db uid")
      (simp_all add: steps load_notification_defaults_def get_presence_settings_def get_friend_settings_def
        defaults_of_def patched_row_def apply_patch_def user_extra_row_of_def new_user_extra_new_def)
qed

lemma default_patches_commute_witness:
  "\<exists>db2. load_notification_defaults db2 7 = \<lparr>nd_group_chats_muted = True, nd_direct_chats_muted = False\<rparr> \<and>
     get_friend_settings db2 7 = (Direct, None)"
proof -
  let ?up = "\<lambda>g d t db. update_notification_defaults 7
      \<lparr>un_mute_group_chats_by_default = g, un_mute_direct_chats_by_default = d\<rparr> t db"
  obtain r1 db1 where 1: "?up (Some True) None 5 empty_tables = Inr (r1, db1)"
    by (simp add: update_notification_defaults_def Let_def)
  obtain r2 db2 where 2: "?up None (Some False) 6 db1 = Inr (r2, db2)"
    by (simp add: update_notification_defaults_def Let_def)
  obtain r3 db3 where 3: "?up None (Some False) 5 empty_tables = Inr (r3, db3)"
    by (simp add: update_notification_defaults_def Let_def)
  obtain r4 db4 where 4: "?up (Some True) None 6 db3 = Inr (r4, db4)"
    by (simp add: update_notification_defaults_def Let_def)
  from default_patches_commute [OF 1 2 3 4] show ?thesis
    by (auto simp: get_friend_settings_def find_user_extra_def empty_tables_def)
qed

end
