(* ===== verification/Push_Policy.thy ===== *)
theory Push_Policy
  imports Notification_Prefs
begin

text \<open>
  \<open>backend/src/services/push/policy.rs\<close>: whether one recipient of a message gets a push
  notification. The recipient's context is computed by the delivery worker; the decision is the
  pure function modelled here. The mute state of the chat is the one of \<open>Notification_Prefs\<close>.
\<close>

section \<open>The policy\<close>

datatype thread_push_state = NotThreadMessage | NoSubscription | ActiveSubscription | ArchivedSubscription

record push_recipient_context =
  pr_uid :: uid
  pr_is_sender :: bool
  pr_is_mentioned :: bool
  pr_is_reply_target :: bool
  pr_chat_archived :: bool
  pr_notification_setting :: chat_notification_setting
  pr_chat_kind :: group_kind
  pr_notification_defaults :: notification_defaults
  pr_thread_state :: thread_push_state
  pr_has_active_presence :: bool

datatype push_skip_reason =
    SkipSender
  | SkipChatArchived
  | SkipActivePresence
  | SkipGroupMuted
  | SkipThreadArchived
  | SkipNoThreadSubscription

datatype push_decision = Send | SendOneOffMention | Skip push_skip_reason

definition should_send_push :: "push_recipient_context \<Rightarrow> timestamp \<Rightarrow> push_decision" where
  "should_send_push r now =
     (if pr_is_sender r then Skip SkipSender
      else if pr_has_active_presence r then Skip SkipActivePresence
      else if pr_is_reply_target r \<and> pr_thread_state r = NotThreadMessage then Send
      else if pr_chat_archived r then Skip SkipChatArchived
      else case pr_thread_state r of
          NotThreadMessage \<Rightarrow>
            if pr_is_mentioned r \<or>
               \<not> is_muted (pr_notification_setting r) (pr_chat_kind r) (pr_notification_defaults r) now
            then Send else Skip SkipGroupMuted
        | ActiveSubscription \<Rightarrow> Send
        | ArchivedSubscription \<Rightarrow>
            if pr_is_mentioned r \<or> pr_is_reply_target r then SendOneOffMention else Skip SkipThreadArchived
        | NoSubscription \<Rightarrow>
            if pr_is_mentioned r \<or> pr_is_reply_target r then SendOneOffMention
            else Skip SkipNoThreadSubscription)"

definition should_send_web_push :: "push_recipient_context \<Rightarrow> bool \<Rightarrow> timestamp \<Rightarrow> push_decision" where
  "should_send_web_push r is_dm now =
     (if is_dm then should_send_push (r\<lparr>pr_is_mentioned := False, pr_is_reply_target := False\<rparr>) now
      else should_send_push r now)"

section \<open>What the policy promises\<close>

text \<open>A push is delivered for both sending decisions; the worker treats them alike.\<close>

definition delivers :: "push_decision \<Rightarrow> bool" where
  "delivers d \<longleftrightarrow> (case d of Skip _ \<Rightarrow> False | _ \<Rightarrow> True)"

text \<open>
  The contract in the words of the product: nobody is notified about an own message or while the
  app is in front; a top-level reply to the recipient always notifies; other messages of archived
  chats never do; then either the recipient is addressed directly, or follows the thread, or has
  not muted the chat.
\<close>

definition addressed :: "push_recipient_context \<Rightarrow> bool" where
  "addressed r \<longleftrightarrow> pr_is_mentioned r \<or> pr_is_reply_target r"

definition wants_push :: "push_recipient_context \<Rightarrow> timestamp \<Rightarrow> bool" where
  "wants_push r now \<longleftrightarrow>
     (pr_is_reply_target r \<and> pr_thread_state r = NotThreadMessage) \<or>
     (\<not> pr_chat_archived r \<and>
      (addressed r \<or> pr_thread_state r = ActiveSubscription \<or>
       (pr_thread_state r = NotThreadMessage \<and>
        \<not> is_muted (pr_notification_setting r) (pr_chat_kind r) (pr_notification_defaults r) now)))"

lemma delivers_iff:
  "delivers (should_send_push r now) \<longleftrightarrow>
   \<not> pr_is_sender r \<and> \<not> pr_has_active_presence r \<and> wants_push r now"
  by (cases "pr_thread_state r")
    (auto simp: delivers_def should_send_push_def wants_push_def addressed_def)

lemma first_joined_membership:
  assumes "distinct_keys membership_key (memberships db)"
    and "first_row (\<lambda>(m, g). gm_chat_id m = c \<and> gm_uid m = u) (joined_memberships db) = Some (m, g)"
  shows "first_row (is_membership_of (c, u)) (memberships db) = Some m"
proof -
  have m: "(m, g) \<in> set (joined_memberships db)" "gm_chat_id m = c" "gm_uid m = u"
    using first_row_Some [OF assms(2)] by simp_all
  show ?thesis
  proof (rule first_row_unique)
    show member: "m \<in> set (memberships db)" using m(1) by (simp add: set_joined_memberships)
    show "is_membership_of (c, u) m" using m by (simp add: is_membership_of_def)
    show "m' = m" if "m' \<in> set (memberships db)" "is_membership_of (c, u) m'" for m'
      using distinct_keys_eq [OF assms(1) that(1) member] that(2) m(2,3)
      by (simp add: is_membership_of_def membership_key_def)
  qed
qed

section \<open>Properties\<close>

text \<open>The policy delivers a push exactly when its contract asks for one, and a one-off push is
  sent exactly to a directly addressed recipient who does not follow the thread.\<close>

theorem push_policy_exact:
  "(delivers (should_send_push r now) \<longleftrightarrow>
      \<not> pr_is_sender r \<and> \<not> pr_has_active_presence r \<and> wants_push r now) \<and>
   (should_send_push r now = SendOneOffMention \<longleftrightarrow>
      delivers (should_send_push r now) \<and> addressed r \<and>
      pr_thread_state r \<in> {NoSubscription, ArchivedSubscription})"
  using delivers_iff [of r now]
  by (cases "pr_thread_state r") (auto simp: should_send_push_def delivers_def addressed_def)

text \<open>Being addressed, unarchiving the chat or clearing its mute never takes a push away, and
  the browser is never notified of a direct message that the native apps are not notified of;
  in group chats both agree.\<close>

theorem push_policy_monotone:
  "(delivers (should_send_push r now) \<longrightarrow>
      delivers (should_send_push (r\<lparr>pr_is_mentioned := True\<rparr>) now) \<and>
      delivers (should_send_push (r\<lparr>pr_is_reply_target := True\<rparr>) now) \<and>
      delivers (should_send_push (r\<lparr>pr_chat_archived := False\<rparr>) now) \<and>
      delivers (should_send_push (r\<lparr>pr_notification_setting :=
        \<lparr>cns_muted_until = None, cns_mute_override = Some False\<rparr>\<rparr>) now)) \<and>
   (delivers (should_send_web_push r is_dm now) \<longrightarrow> delivers (should_send_push r now)) \<and>
   (\<not> is_dm \<longrightarrow> should_send_web_push r is_dm now = should_send_push r now)"
  by (auto simp: delivers_iff wants_push_def addressed_def is_muted_def should_send_web_push_def)

definition sample_recipient :: push_recipient_context where
  "sample_recipient = \<lparr>pr_uid = 20, pr_is_sender = False, pr_is_mentioned = False,
     pr_is_reply_target = False, pr_chat_archived = False,
     pr_notification_setting = \<lparr>cns_muted_until = None, cns_mute_override = None\<rparr>,
     pr_chat_kind = Group, pr_notification_defaults = default_notification_defaults,
     pr_thread_state = NotThreadMessage, pr_has_active_presence = False\<rparr>"

lemma push_policy_monotone_witness:
  "delivers (should_send_push (sample_recipient\<lparr>pr_is_mentioned := True\<rparr>) 0) \<and>
   should_send_web_push sample_recipient False 0 = Send"
proof -
  have "should_send_push sample_recipient 0 = Send"
    by (simp add: should_send_push_def sample_recipient_def is_muted_def default_notification_defaults_def)
  then show ?thesis
    using push_policy_monotone [of sample_recipient 0 False] by (simp add: delivers_def)
qed



end
