(* ===== verification/Activity_Metrics.thy ===== *)
theory Activity_Metrics
  imports Models
begin

text \<open>
  The daily activity rollup of \<open>backend/src/services/client_tracking/mod.rs\<close> and the metrics of
  \<open>client_tracking/metrics.rs\<close> that follow it. A prometheus counter vector is a function from
  label values to counts, a gauge is its value; registering and rendering them is left out.
  The \<open>BIGINT\<close> counters are unbounded integers.
\<close>

section \<open>Days\<close>

definition nanos_per_day :: int where
  "nanos_per_day = 86400 * 1000000000"

text \<open>\<open>NaiveDateTime::date\<close> and SQL's \<open>::DATE\<close>, as the number of days since the epoch.\<close>

definition day_of :: "timestamp \<Rightarrow> int" where
  "day_of t = t div nanos_per_day"

lemma day_of_mono: "s \<le> t \<Longrightarrow> day_of s \<le> day_of t"
  by (simp add: day_of_def nanos_per_day_def zdiv_mono1)

section \<open>Metrics\<close>

record activity_today_snapshot =
  at_active_users :: int
  at_new_users :: int
  at_active_clients :: int
  at_new_clients :: int
  at_client_rebinds :: int
  at_stale_clients_purged :: int
  at_legacy_subscriptions_purged :: int

definition zero_snapshot :: activity_today_snapshot where
  "zero_snapshot = \<lparr>at_active_users = 0, at_new_users = 0, at_active_clients = 0, at_new_clients = 0,
     at_client_rebinds = 0, at_stale_clients_purged = 0, at_legacy_subscriptions_purged = 0\<rparr>"

record tracking_metrics =
  tm_activity_writes_total :: "string \<Rightarrow> nat"
  tm_activity_writes_skipped_total :: "string \<Rightarrow> nat"
  tm_rebinds_total :: nat
  tm_purge_total :: "string \<Rightarrow> nat"
  tm_daily_rollup_updates_total :: "string \<Rightarrow> nat"
  tm_today :: activity_today_snapshot
  tm_app_version_active_clients :: "ustr \<rightharpoonup> int"

definition empty_metrics :: tracking_metrics where
  "empty_metrics = \<lparr>tm_activity_writes_total = (\<lambda>_. 0), tm_activity_writes_skipped_total = (\<lambda>_. 0),
     tm_rebinds_total = 0, tm_purge_total = (\<lambda>_. 0), tm_daily_rollup_updates_total = (\<lambda>_. 0),
     tm_today = zero_snapshot, tm_app_version_active_clients = Map.empty\<rparr>"

definition inc_by :: "nat \<Rightarrow> string \<Rightarrow> (string \<Rightarrow> nat) \<Rightarrow> (string \<Rightarrow> nat)" where
  "inc_by n label c = c(label := c label + n)"

definition record_activity_write :: "string \<Rightarrow> tracking_metrics \<Rightarrow> tracking_metrics" where
  "record_activity_write result m =
     m\<lparr>tm_activity_writes_total := inc_by 1 result (tm_activity_writes_total m)\<rparr>"

definition record_activity_write_skipped :: "string \<Rightarrow> tracking_metrics \<Rightarrow> tracking_metrics" where
  "record_activity_write_skipped reason m =
     m\<lparr>tm_activity_writes_skipped_total := inc_by 1 reason (tm_activity_writes_skipped_total m)\<rparr>"

definition record_rebind :: "tracking_metrics \<Rightarrow> tracking_metrics" where
  "record_rebind m = m\<lparr>tm_rebinds_total := tm_rebinds_total m + 1\<rparr>"

definition record_purge :: "string \<Rightarrow> nat \<Rightarrow> tracking_metrics \<Rightarrow> tracking_metrics" where
  "record_purge kind count m = m\<lparr>tm_purge_total := inc_by count kind (tm_purge_total m)\<rparr>"

definition record_daily_rollup_update :: "string \<Rightarrow> tracking_metrics \<Rightarrow> tracking_metrics" where
  "record_daily_rollup_update result m =
     m\<lparr>tm_daily_rollup_updates_total := inc_by 1 result (tm_daily_rollup_updates_total m)\<rparr>"

definition set_app_version_active_clients ::
  "(ustr \<rightharpoonup> int) \<Rightarrow> tracking_metrics \<Rightarrow> tracking_metrics" where
  "set_app_version_active_clients snapshot m = m\<lparr>tm_app_version_active_clients := snapshot\<rparr>"

definition set_activity_today :: "activity_today_snapshot \<Rightarrow> tracking_metrics \<Rightarrow> tracking_metrics" where
  "set_activity_today snapshot m = m\<lparr>tm_today := snapshot\<rparr>"

section \<open>The daily rollup\<close>

record daily_metric_delta =
  dm_day :: int
  dm_active_users :: int
  dm_new_users :: int
  dm_active_clients :: int
  dm_new_clients :: int
  dm_client_rebinds :: int
  dm_stale_clients_purged :: int
  dm_legacy_subscriptions_purged :: int

definition is_zero :: "daily_metric_delta \<Rightarrow> bool" where
  "is_zero d \<longleftrightarrow> dm_active_users d = 0 \<and> dm_new_users d = 0 \<and> dm_active_clients d = 0 \<and>
     dm_new_clients d = 0 \<and> dm_client_rebinds d = 0 \<and> dm_stale_clients_purged d = 0 \<and>
     dm_legacy_subscriptions_purged d = 0"

definition as_activity_today_snapshot :: "daily_metric_delta \<Rightarrow> activity_today_snapshot" where
  "as_activity_today_snapshot d =
     \<lparr>at_active_users = dm_active_users d, at_new_users = dm_new_users d,
      at_active_clients = dm_active_clients d, at_new_clients = dm_new_clients d,
      at_client_rebinds = dm_client_rebinds d, at_stale_clients_purged = dm_stale_clients_purged d,
      at_legacy_subscriptions_purged = dm_legacy_subscriptions_purged d\<rparr>"

definition metric_of_row :: "activity_daily_metric \<Rightarrow> daily_metric_delta" where
  "metric_of_row r =
     \<lparr>dm_day = adm_day r, dm_active_users = adm_active_users r, dm_new_users = adm_new_users r,
      dm_active_clients = adm_active_clients r, dm_new_clients = adm_new_clients r,
      dm_client_rebinds = adm_client_rebinds r, dm_stale_clients_purged = adm_stale_clients_purged r,
      dm_legacy_subscriptions_purged = adm_legacy_subscriptions_purged r\<rparr>"

definition upsert_daily_metrics ::
  "daily_metric_delta \<Rightarrow> timestamp \<Rightarrow> tables \<Rightarrow> db_error + activity_today_snapshot option \<times> tables" where
  "upsert_daily_metrics delta now db =
     (if is_zero delta then Inr (None, db)
      else let new_row = \<lparr>adm_day = dm_day delta, adm_active_users = dm_active_users delta,
                 adm_new_users = dm_new_users delta, adm_active_clients = dm_active_clients delta,
                 adm_new_clients = dm_new_clients delta, adm_client_rebinds = dm_client_rebinds delta,
                 adm_stale_clients_purged = dm_stale_clients_purged delta,
                 adm_legacy_subscriptions_purged = dm_legacy_subscriptions_purged delta,
                 adm_updated_at = now\<rparr>;
               add = (\<lambda>r. r\<lparr>adm_active_users := adm_active_users r + dm_active_users delta,
                 adm_new_users := adm_new_users r + dm_new_users delta,
                 adm_active_clients := adm_active_clients r + dm_active_clients delta,
                 adm_new_clients := adm_new_clients r + dm_new_clients delta,
                 adm_client_rebinds := adm_client_rebinds r + dm_client_rebinds delta,
                 adm_stale_clients_purged := adm_stale_clients_purged r + dm_stale_clients_purged delta,
                 adm_legacy_subscriptions_purged :=
                   adm_legacy_subscriptions_purged r + dm_legacy_subscriptions_purged delta,
                 adm_updated_at := now\<rparr>);
               db' = db\<lparr>daily_metrics :=
                 upsert_row (\<lambda>r. adm_day r = dm_day delta) new_row add (daily_metrics db)\<rparr>
           in and_then (ok_or (first_row (\<lambda>r. adm_day r = dm_day delta) (daily_metrics db')) DbNotFound)
                (\<lambda>r. Inr (Some (as_activity_today_snapshot (metric_of_row r)), db')))"

definition refresh_today_metrics_gauges :: "int \<Rightarrow> tables \<Rightarrow> tracking_metrics \<Rightarrow> tracking_metrics" where
  "refresh_today_metrics_gauges today db m =
     (case first_row (\<lambda>r. adm_day r = today) (daily_metrics db) of
        Some r \<Rightarrow> set_activity_today (as_activity_today_snapshot (metric_of_row r)) m
      | None \<Rightarrow> set_activity_today zero_snapshot m)"

section \<open>Lemmas\<close>

interpretation metric_table: keyed_table adm_day "\<lambda>k r. adm_day r = k"
  by unfold_locales simp

text \<open>A counter of the rollup, of one day and over all days.\<close>

definition metric_on :: "(activity_daily_metric \<Rightarrow> int) \<Rightarrow> tables \<Rightarrow> int \<Rightarrow> int" where
  "metric_on field db day =
     (case first_row (\<lambda>r. adm_day r = day) (daily_metrics db) of None \<Rightarrow> 0 | Some r \<Rightarrow> field r)"

definition metric_total :: "(activity_daily_metric \<Rightarrow> int) \<Rightarrow> tables \<Rightarrow> int" where
  "metric_total field db = sum_list (map field (daily_metrics db))"

definition metrics_ok :: "tables \<Rightarrow> bool" where
  "metrics_ok db \<longleftrightarrow> distinct_keys adm_day (daily_metrics db)"

lemma upsert_daily_metrics_never_fails: "upsert_daily_metrics delta now db \<noteq> Inl e"
  by (auto simp: upsert_daily_metrics_def Let_def metric_table.find_upsert)

lemma upsert_daily_metrics_tables:
  assumes "upsert_daily_metrics delta now db = Inr (s, db')"
  shows "\<exists>rows. db' = db\<lparr>daily_metrics := rows\<rparr>"
  using assms
  by (auto simp: upsert_daily_metrics_def Let_def result_simps split: if_splits
      intro!: exI [of _ "daily_metrics db'"])

lemma upsert_daily_metrics_ok:
  assumes "metrics_ok db" and "upsert_daily_metrics delta now db = Inr (s, db')"
  shows "metrics_ok db'"
  using assms
  by (auto simp: upsert_daily_metrics_def Let_def result_simps metrics_ok_def
      intro!: metric_table.distinct_upsert split: if_splits)

lemma sum_list_update_one:
  fixes field :: "'r \<Rightarrow> int"
  assumes "distinct_keys key rows" and "r \<in> set rows" and "\<And>x. P x \<longleftrightarrow> key x = key r"
    and "field (f r) = field r + d"
  shows "sum_list (map field (update_rows P f rows)) = sum_list (map field rows) + d"
  using assms(1,2)
proof (induction rows)
  case Nil
  then show ?case by simp
next
  case (Cons x rows)
  show ?case
  proof (cases "x = r")
    case True
    with Cons.prems have "\<forall>y \<in> set rows. \<not> P y" by (auto simp: distinct_keys_def assms(3) image_iff)
    then have "map (\<lambda>y. if P y then f y else y) rows = rows" by (simp add: map_idI)
    with True assms(3,4) show ?thesis by (simp add: update_rows_def)
  next
    case False
    then have "r \<in> set rows" using Cons.prems by simp
    with Cons.prems have "key x \<noteq> key r" by (auto simp: distinct_keys_def)
    with Cons \<open>r \<in> set rows\<close> show ?thesis by (simp add: update_rows_def distinct_keys_def assms(3))
  qed
qed

lemma sum_list_upsert:
  fixes field :: "'r \<Rightarrow> int"
  assumes "distinct_keys key rows" and "\<And>x. P x \<longleftrightarrow> key x = k"
    and "field new = d" and "\<And>r. field (f r) = field r + d"
  shows "sum_list (map field (upsert_row P new f rows)) = sum_list (map field rows) + d"
proof (cases "\<exists>r \<in> set rows. P r")
  case True
  then obtain r where "r \<in> set rows" "key r = k" using assms(2) by auto
  with sum_list_update_one [OF assms(1), of r P field f d] assms(2,4) True show ?thesis
    by (auto simp: upsert_row_def exists_row_iff)
qed (simp add: upsert_row_def exists_row_iff assms(3))

text \<open>The counters and the delta fields they follow.\<close>

definition counters :: "((activity_daily_metric \<Rightarrow> int) \<times> (daily_metric_delta \<Rightarrow> int)) set" where
  "counters = {(adm_active_users, dm_active_users), (adm_new_users, dm_new_users),
     (adm_active_clients, dm_active_clients), (adm_new_clients, dm_new_clients),
     (adm_client_rebinds, dm_client_rebinds), (adm_stale_clients_purged, dm_stale_clients_purged),
     (adm_legacy_subscriptions_purged, dm_legacy_subscriptions_purged)}"

lemma upsert_metric_total:
  assumes "metrics_ok db" and "(field, dfield) \<in> counters"
    and "upsert_daily_metrics delta now db = Inr (s, db')"
  shows "metric_total field db' = metric_total field db + dfield delta"
proof (cases "is_zero delta")
  case True
  with assms(2,3) show ?thesis by (auto simp: upsert_daily_metrics_def counters_def is_zero_def)
next
  case False
  with assms(3) obtain new add where db': "db' = db\<lparr>daily_metrics :=
      upsert_row (\<lambda>r. adm_day r = dm_day delta) new add (daily_metrics db)\<rparr>"
    and "\<forall>p \<in> counters. fst p new = snd p delta \<and> (\<forall>r. fst p (add r) = fst p r + snd p delta)"
    by (auto simp: upsert_daily_metrics_def Let_def result_simps counters_def)
  then have "field new = dfield delta" "\<And>r. field (add r) = field r + dfield delta"
    using assms(2) by auto
  then show ?thesis
    using assms(1) by (simp add: db' metric_total_def metrics_ok_def sum_list_upsert [where k = "dm_day delta"])
qed

lemma upsert_metric_on:
  assumes "(field, dfield) \<in> counters"
    and "upsert_daily_metrics delta now db = Inr (s, db')"
  shows "metric_on field db' day = metric_on field db day + (if day = dm_day delta then dfield delta else 0)"
proof (cases "is_zero delta")
  case True
  with assms show ?thesis by (auto simp: upsert_daily_metrics_def counters_def is_zero_def)
next
  case False
  with assms(2) obtain new add where db': "db' = db\<lparr>daily_metrics :=
      upsert_row (\<lambda>r. adm_day r = dm_day delta) new add (daily_metrics db)\<rparr>"
    and fields: "\<forall>p \<in> counters. fst p new = snd p delta \<and> (\<forall>r. fst p (add r) = fst p r + snd p delta)"
    and keys: "adm_day new = dm_day delta" "\<And>r. adm_day (add r) = adm_day r"
    by (auto simp: upsert_daily_metrics_def Let_def result_simps counters_def)
  then have "field new = dfield delta" "\<And>r. field (add r) = field r + dfield delta"
    using assms(1) by auto
  then show ?thesis
    using metric_table.find_upsert [OF keys, of "daily_metrics db"]
      metric_table.find_upsert_other [OF _ keys, of day "daily_metrics db"]
    by (auto simp: metric_on_def db' split: option.split)
qed

end
