(* ===== verification/Last_Seen.thy ===== *)
theory Last_Seen
  imports Activity_Metrics
begin

text \<open>
  \<open>backend/src/services/client_tracking/last_seen.rs\<close>: last-seen observations are kept in memory
  by UTC day and user, and written in batches. The pending map is a \<open>BTreeMap\<close> of \<open>HashMap\<close>s; the
  inner map is only ever read by key or sorted by user, so it is an ordered association list too.
  Requests record observations while a flush runs, so the worker's flush is a sequence of steps
  (\<open>ls_step\<close>) between which anything may be recorded; \<open>flush\<close> is the uninterrupted run.
\<close>

section \<open>The buffer\<close>

type_synonym observations = "(uid \<times> timestamp) list"
type_synonym pending = "(int \<times> observations) list"

definition record_seen :: "uid \<Rightarrow> timestamp \<Rightarrow> pending \<Rightarrow> pending" where
  "record_seen uid ts pending =
     ol_update (day_of ts)
       (\<lambda>obs. ol_update uid (\<lambda>known. case known of None \<Rightarrow> ts | Some t \<Rightarrow> max t ts)
          (case obs of None \<Rightarrow> [] | Some xs \<Rightarrow> xs)) pending"

definition latest :: "pending \<Rightarrow> uid \<Rightarrow> timestamp option \<Rightarrow> timestamp option" where
  "latest pending uid persisted =
     fold (\<lambda>(_, obs) best. case map_of obs uid of
         None \<Rightarrow> best
       | Some observed \<Rightarrow> Some (case best of None \<Rightarrow> observed | Some known \<Rightarrow> max known observed))
       pending persisted"

definition acknowledge :: "int \<Rightarrow> observations \<Rightarrow> pending \<Rightarrow> pending" where
  "acknowledge day persisted pending =
     (case map_of pending day of
        None \<Rightarrow> pending
      | Some current \<Rightarrow>
          (let current' = fold (\<lambda>(uid, persisted_at) xs.
                 (case map_of xs uid of
                    Some known \<Rightarrow> if known \<le> persisted_at then ol_delete uid xs else xs
                  | None \<Rightarrow> xs)) persisted current
           in if current' = [] then ol_delete day pending
              else map (\<lambda>(d, xs). (d, if d = day then current' else xs)) pending))"

section \<open>Persisting one day\<close>

text \<open>\<open>candidates\<close>: user, previous timestamp and incoming timestamp of the rows to advance.\<close>

definition candidates :: "user_extra_row list \<Rightarrow> observations \<Rightarrow> (uid \<times> timestamp \<times> timestamp) list" where
  "candidates rows incoming =
     concat (map (\<lambda>r. map (\<lambda>(_, ts). (ux_uid r, ux_last_seen_at r, ts))
       (filter (\<lambda>(uid, ts). uid = ux_uid r \<and> ux_last_seen_at r < ts) incoming)) rows)"

definition advance :: "observations \<Rightarrow> user_extra_row \<Rightarrow> user_extra_row" where
  "advance incoming r =
     (case map_of incoming (ux_uid r) of
        Some ts \<Rightarrow> r\<lparr>ux_last_seen_at := max (ux_last_seen_at r) ts\<rparr>
      | None \<Rightarrow> r)"

definition flush_day ::
  "int \<Rightarrow> observations \<Rightarrow> timestamp \<Rightarrow> tables \<Rightarrow> db_error + activity_today_snapshot option \<times> tables" where
  "flush_day day observations flushed_at db =
     (let cands = candidates (user_extras db) observations;
          db' = db\<lparr>user_extras := update_rows (\<lambda>r. ux_uid r \<in> fst ` set cands) (advance observations)
            (user_extras db)\<rparr>;
          active_users = length (filter (\<lambda>(_, previous, _). day_of previous \<noteq> day) cands)
      in upsert_daily_metrics
           \<lparr>dm_day = day, dm_active_users = int active_users, dm_new_users = 0, dm_active_clients = 0,
            dm_new_clients = 0, dm_client_rebinds = 0, dm_stale_clients_purged = 0,
            dm_legacy_subscriptions_purged = 0\<rparr> flushed_at db')"

section \<open>The flush as steps\<close>

text \<open>
  The batch of the running flush: the days that remain, their observations and the time of the
  flush. After a day has been committed its acknowledgement is the next step.
\<close>

record flush_state =
  fl_days :: pending
  fl_committed :: "(int \<times> observations \<times> activity_today_snapshot option) option"
  fl_flushed_at :: timestamp

record ls_state =
  ls_pending :: pending
  ls_flush :: "flush_state option"
  ls_db :: tables
  ls_metrics :: tracking_metrics

text \<open>
  \<open>Connect ok\<close> takes the snapshot and the connection, \<open>Commit ok\<close> runs the transaction of the next
  day (\<open>ok = False\<close>: it fails and the flush stops), \<open>Settle today\<close> acknowledges it and publishes the
  metrics, \<open>Finish\<close> ends the flush. \<open>Seen\<close> is a concurrent observation. A step that is not
  possible in the current state is skipped.
\<close>

datatype ls_step = Seen uid timestamp | Connect bool timestamp | Commit bool | Settle int | Finish

definition settle_metrics ::
  "int \<Rightarrow> int \<Rightarrow> activity_today_snapshot option \<Rightarrow> tracking_metrics \<Rightarrow> tracking_metrics" where
  "settle_metrics day today snapshot m =
     (case snapshot of
        None \<Rightarrow> m
      | Some s \<Rightarrow>
          (let m' = record_daily_rollup_update ''success'' m
           in if day = today then set_activity_today s m' else m'))"

definition fail_flush :: "ls_state \<Rightarrow> ls_state" where
  "fail_flush s = s\<lparr>ls_flush := None,
     ls_metrics := record_daily_rollup_update ''error'' (ls_metrics s)\<rparr>"

fun ls_exec :: "ls_step \<Rightarrow> ls_state \<Rightarrow> ls_state" where
  "ls_exec (Seen uid ts) s = s\<lparr>ls_pending := record_seen uid ts (ls_pending s)\<rparr>"
| "ls_exec (Connect ok flushed_at) s =
     (case ls_flush s of
        Some _ \<Rightarrow> s
      | None \<Rightarrow>
          if ls_pending s = [] then s
          else if \<not> ok then fail_flush s
          else s\<lparr>ls_flush := Some \<lparr>fl_days = ls_pending s, fl_committed = None,
                 fl_flushed_at = flushed_at\<rparr>\<rparr>)"
| "ls_exec (Commit ok) s =
     (case ls_flush s of
        None \<Rightarrow> s
      | Some f \<Rightarrow>
          (case (fl_committed f, fl_days f) of
             (None, (day, obs) # rest) \<Rightarrow>
               if \<not> ok then fail_flush s
               else (case flush_day day obs (fl_flushed_at f) (ls_db s) of
                   Inl _ \<Rightarrow> fail_flush s
                 | Inr (snapshot, db') \<Rightarrow>
                     s\<lparr>ls_db := db', ls_flush := Some (f\<lparr>fl_days := rest,
                       fl_committed := Some (day, obs, snapshot)\<rparr>)\<rparr>)
           | _ \<Rightarrow> s))"
| "ls_exec (Settle today) s =
     (case ls_flush s of
        None \<Rightarrow> s
      | Some f \<Rightarrow>
          (case fl_committed f of
             None \<Rightarrow> s
           | Some (day, obs, snapshot) \<Rightarrow>
               s\<lparr>ls_pending := acknowledge day obs (ls_pending s),
                 ls_flush := Some (f\<lparr>fl_committed := None\<rparr>),
                 ls_metrics := settle_metrics day today snapshot (ls_metrics s)\<rparr>))"
| "ls_exec Finish s =
     (case ls_flush s of
        Some f \<Rightarrow> if fl_days f = [] \<and> fl_committed f = None then s\<lparr>ls_flush := None\<rparr> else s
      | None \<Rightarrow> s)"

definition ls_run :: "ls_step list \<Rightarrow> ls_state \<Rightarrow> ls_state" where
  "ls_run steps s = fold ls_exec steps s"

section \<open>The uninterrupted flush\<close>

text \<open>\<open>day_ok\<close> tells which transactions succeed; \<open>today\<close> is the date when a day is published.\<close>

fun flush_days ::
  "(int \<Rightarrow> bool) \<Rightarrow> (int \<Rightarrow> int) \<Rightarrow> timestamp \<Rightarrow> pending \<Rightarrow> pending \<times> tables \<times> tracking_metrics \<Rightarrow>
   (string + unit) \<times> pending \<times> tables \<times> tracking_metrics" where
  "flush_days day_ok today flushed_at [] s = (Inr (), s)"
| "flush_days day_ok today flushed_at ((day, obs) # rest) (pending, db, m) =
     (if \<not> day_ok day
      then (Inl ''failed to flush last-seen observations'', pending, db, record_daily_rollup_update ''error'' m)
      else (case flush_day day obs flushed_at db of
          Inl _ \<Rightarrow> (Inl ''failed to flush last-seen observations'', pending, db,
            record_daily_rollup_update ''error'' m)
        | Inr (snapshot, db') \<Rightarrow>
            flush_days day_ok today flushed_at rest
              (acknowledge day obs pending, db', settle_metrics day (today day) snapshot m)))"

definition flush ::
  "bool \<Rightarrow> (int \<Rightarrow> bool) \<Rightarrow> (int \<Rightarrow> int) \<Rightarrow> timestamp \<Rightarrow> pending \<times> tables \<times> tracking_metrics \<Rightarrow>
   (string + unit) \<times> pending \<times> tables \<times> tracking_metrics" where
  "flush conn_ok day_ok today flushed_at s =
     (case s of (pending, db, m) \<Rightarrow>
        if pending = [] then (Inr (), s)
        else if \<not> conn_ok
        then (Inl ''failed to get last-seen database connection'', pending, db,
              record_daily_rollup_update ''error'' m)
        else flush_days day_ok today flushed_at pending s)"

section \<open>Well-formed buffers\<close>

definition observations_ok :: "int \<Rightarrow> observations \<Rightarrow> bool" where
  "observations_ok day obs \<longleftrightarrow> ol_sorted obs \<and> (\<forall>(uid, ts) \<in> set obs. day_of ts = day)"

definition pending_ok :: "pending \<Rightarrow> bool" where
  "pending_ok p \<longleftrightarrow> ol_sorted p \<and> (\<forall>(day, obs) \<in> set p. observations_ok day obs)"

lemma pending_okD:
  assumes "pending_ok p" and "map_of p day = Some obs"
  shows "ol_sorted obs" and "map_of obs uid = Some ts \<Longrightarrow> day_of ts = day"
  using assms by (auto simp: pending_ok_def observations_ok_def dest!: map_of_SomeD)

lemma pending_okI:
  assumes "ol_sorted p" and "\<And>day obs. map_of p day = Some obs \<Longrightarrow> observations_ok day obs"
  shows "pending_ok p"
  using assms by (auto simp: pending_ok_def map_of_mem [symmetric])

lemma record_seen_map:
  assumes "pending_ok p"
  shows "map_of (record_seen uid ts p) day =
    (if day = day_of ts
     then Some (ol_update uid (\<lambda>known. case known of None \<Rightarrow> ts | Some t \<Rightarrow> max t ts)
       (case map_of p day of None \<Rightarrow> [] | Some xs \<Rightarrow> xs))
     else map_of p day)"
  using assms by (simp add: record_seen_def map_of_ol_update pending_ok_def)

lemma day_of_max: "day_of s = d \<Longrightarrow> day_of t = d \<Longrightarrow> day_of (max s t) = d"
  by (simp add: max_def)

lemma observations_okI:
  assumes "ol_sorted obs" and "\<And>uid ts. map_of obs uid = Some ts \<Longrightarrow> day_of ts = day"
  shows "observations_ok day obs"
  using assms by (auto simp: observations_ok_def map_of_mem [symmetric])

lemma observations_ok_update:
  assumes "observations_ok (day_of ts) xs"
  shows "observations_ok (day_of ts)
    (ol_update uid (\<lambda>known. case known of None \<Rightarrow> ts | Some t \<Rightarrow> max t ts) xs)"
proof (rule observations_okI)
  have xs: "ol_sorted xs" "\<And>u t. map_of xs u = Some t \<Longrightarrow> day_of t = day_of ts"
    using assms by (auto simp: observations_ok_def dest: map_of_SomeD)
  then show "ol_sorted (ol_update uid (\<lambda>known. case known of None \<Rightarrow> ts | Some t \<Rightarrow> max t ts) xs)"
    by (simp add: ol_sorted_update)
  show "day_of t = day_of ts"
    if "map_of (ol_update uid (\<lambda>known. case known of None \<Rightarrow> ts | Some t \<Rightarrow> max t ts) xs) u = Some t" for u t
  proof (cases "u = uid")
    case True
    then show ?thesis
      using that xs(2) [of uid] by (cases "map_of xs uid") (auto simp: map_of_ol_update [OF xs(1)] day_of_max)
  next
    case False
    then show ?thesis using that xs(2) by (simp add: map_of_ol_update [OF xs(1)])
  qed
qed

lemma record_seen_ok:
  assumes "pending_ok p"
  shows "pending_ok (record_seen uid ts p)"
proof (rule pending_okI)
  show "ol_sorted (record_seen uid ts p)"
    using assms by (simp add: record_seen_def pending_ok_def ol_sorted_update)
next
  fix day obs
  assume obs: "map_of (record_seen uid ts p) day = Some obs"
  have old: "observations_ok d xs" if "map_of p d = Some xs" for d xs
    using assms that by (auto simp: pending_ok_def dest: map_of_SomeD)
  have "observations_ok (day_of ts) (case map_of p (day_of ts) of None \<Rightarrow> [] | Some xs \<Rightarrow> xs)"
    using old by (cases "map_of p (day_of ts)") (simp_all add: observations_ok_def)
  then show "observations_ok day obs"
    using obs old observations_ok_update by (auto simp: record_seen_map [OF assms] split: if_splits)
qed

section \<open>What is visible\<close>

definition stored_seen :: "tables \<Rightarrow> uid \<Rightarrow> timestamp option" where
  "stored_seen db uid = map_option ux_last_seen_at (first_row (\<lambda>r. ux_uid r = uid) (user_extras db))"

text \<open>The account was last seen at \<open>t\<close> or later, as far as readers can tell.\<close>

definition seen_since :: "pending \<Rightarrow> tables \<Rightarrow> uid \<Rightarrow> timestamp \<Rightarrow> bool" where
  "seen_since p db uid t \<longleftrightarrow>
     (case latest p uid (stored_seen db uid) of None \<Rightarrow> False | Some seen \<Rightarrow> t \<le> seen)"

lemma latest_at_least:
  "(case latest p uid best of None \<Rightarrow> False | Some seen \<Rightarrow> t \<le> seen) \<longleftrightarrow>
   (case best of None \<Rightarrow> False | Some seen \<Rightarrow> t \<le> seen) \<or>
   (\<exists>day obs ts. (day, obs) \<in> set p \<and> map_of obs uid = Some ts \<and> t \<le> ts)"
proof (induction p arbitrary: best)
  case Nil
  then show ?case by (simp add: latest_def)
next
  case (Cons x p)
  obtain day obs where x: "x = (day, obs)" by (cases x)
  have step: "latest (x # p) uid best = latest p uid (case map_of obs uid of None \<Rightarrow> best
      | Some observed \<Rightarrow> Some (case best of None \<Rightarrow> observed | Some known \<Rightarrow> max known observed))"
    by (simp add: latest_def x)
  show ?case
    unfolding step Cons.IH by (cases "map_of obs uid"; cases best) (auto simp: x le_max_iff_disj)
qed

lemma seen_since_iff:
  assumes "pending_ok p"
  shows "seen_since p db uid t \<longleftrightarrow>
    (case stored_seen db uid of None \<Rightarrow> False | Some seen \<Rightarrow> t \<le> seen) \<or>
    (\<exists>day obs ts. map_of p day = Some obs \<and> map_of obs uid = Some ts \<and> t \<le> ts)"
  using assms by (simp add: seen_since_def latest_at_least pending_ok_def map_of_mem)

lemma record_seen_visible:
  assumes "pending_ok p"
  shows "seen_since (record_seen uid ts p) db uid ts"
    and "seen_since p db u t \<Longrightarrow> seen_since (record_seen uid ts p) db u t"
proof -
  let ?p = "record_seen uid ts p"
  let ?f = "\<lambda>known. case known of None \<Rightarrow> ts | Some t \<Rightarrow> max t ts"
  let ?old = "case map_of p (day_of ts) of None \<Rightarrow> [] | Some xs \<Rightarrow> xs"
  have sorted: "ol_sorted ?old" using pending_okD(1) [OF assms] by (auto split: option.split)
  have new: "map_of ?p (day_of ts) = Some (ol_update uid ?f ?old)" by (simp add: record_seen_map [OF assms])
  have "\<exists>ts'. map_of (ol_update uid ?f ?old) uid = Some ts' \<and> ts \<le> ts'"
    by (simp add: map_of_ol_update [OF sorted] split: option.split)
  then show "seen_since ?p db uid ts"
    unfolding seen_since_iff [OF record_seen_ok [OF assms]] using new by blast
  have keep: "\<exists>obs' ts'. map_of ?p day = Some obs' \<and> map_of obs' u = Some ts' \<and> t \<le> ts'"
    if "map_of p day = Some obs" "map_of obs u = Some a" "t \<le> a" for day obs a
  proof (cases "day = day_of ts")
    case True
    then have "?old = obs" using that(1) by simp
    moreover have "\<exists>ts'. map_of (ol_update uid ?f ?old) u = Some ts' \<and> t \<le> ts'"
      using that(2,3) calculation by (auto simp: map_of_ol_update [OF sorted] le_max_iff_disj)
    ultimately show ?thesis using new True by auto
  next
    case False
    then show ?thesis using that by (simp add: record_seen_map [OF assms])
  qed
  show "seen_since ?p db u t" if "seen_since p db u t"
    using that keep unfolding seen_since_iff [OF assms] seen_since_iff [OF record_seen_ok [OF assms]] by blast
qed

section \<open>Acknowledging\<close>

definition ack_one :: "uid \<times> timestamp \<Rightarrow> observations \<Rightarrow> observations" where
  "ack_one = (\<lambda>(uid, persisted_at) xs. case map_of xs uid of
     Some known \<Rightarrow> if known \<le> persisted_at then ol_delete uid xs else xs
   | None \<Rightarrow> xs)"

lemma ack_one_ok: "ol_sorted xs \<Longrightarrow> ol_sorted (ack_one p xs)"
  by (cases p) (simp add: ack_one_def ol_sorted_delete split: option.split)

lemma map_of_ack_one:
  "map_of (ack_one (u, t) xs) uid =
   (case map_of xs uid of None \<Rightarrow> None | Some known \<Rightarrow> if uid = u \<and> known \<le> t then None else Some known)"
  by (auto simp: ack_one_def split: option.split)

lemma ack_fold:
  "ol_sorted xs \<Longrightarrow> ol_sorted (fold ack_one persisted xs)"
  "map_of (fold ack_one persisted xs) uid =
   (case map_of xs uid of
      None \<Rightarrow> None
    | Some known \<Rightarrow> if \<exists>ts. (uid, ts) \<in> set persisted \<and> known \<le> ts then None else Some known)"
proof (induction persisted arbitrary: xs)
  case Nil
  { case 1 then show ?case by simp }
  { case 2 show ?case by (simp split: option.split) }
next
  case (Cons x persisted)
  { case 1 then show ?case using Cons(1) [OF ack_one_ok] by simp }
  { case 2
    obtain u t where x: "x = (u, t)" by (cases x)
    show ?case by (simp only: fold_Cons o_def Cons(2)) (auto simp: x map_of_ack_one split: option.split) }
qed

lemma map_of_replace:
  "map_of (map (\<lambda>(d, xs). (d, if d = day then c else xs)) p) d =
   (if d = day then map_option (\<lambda>_. c) (map_of p d) else map_of p d)"
  by (induction p) auto

lemma ol_sorted_replace:
  "ol_sorted (map (\<lambda>(d, xs). (d, if d = day then c else xs)) p) = ol_sorted p"
proof -
  have "map fst (map (\<lambda>(d, xs). (d, if d = day then c else xs)) p) = map fst p" by (induction p) auto
  then show ?thesis by (simp only: ol_sorted_def)
qed

lemma acknowledge_map:
  "map_of (acknowledge day persisted p) d =
   (case map_of p d of
      None \<Rightarrow> None
    | Some xs \<Rightarrow>
        if d \<noteq> day then Some xs
        else if fold ack_one persisted xs = [] then None else Some (fold ack_one persisted xs))"
  unfolding acknowledge_def ack_one_def [symmetric]
  by (auto simp: Let_def map_of_replace split: option.split)

lemma acknowledge_ok:
  assumes "pending_ok p"
  shows "pending_ok (acknowledge day persisted p)"
proof (rule pending_okI)
  show "ol_sorted (acknowledge day persisted p)"
    using assms
    by (simp add: acknowledge_def Let_def pending_ok_def ol_sorted_delete ol_sorted_replace split: option.split)
next
  fix d obs
  assume "map_of (acknowledge day persisted p) d = Some obs"
  then obtain xs where xs: "map_of p d = Some xs" "obs = xs \<or> obs = fold ack_one persisted xs"
    by (auto simp: acknowledge_map split: option.splits if_splits)
  have "ol_sorted xs" "\<And>uid ts. map_of xs uid = Some ts \<Longrightarrow> day_of ts = d"
    using pending_okD [OF assms xs(1)] by auto
  then have "ol_sorted obs" "\<And>uid ts. map_of obs uid = Some ts \<Longrightarrow> day_of ts = d"
    using xs(2) by (auto simp: ack_fold split: option.splits if_splits)
  then show "observations_ok d obs" by (auto simp: observations_ok_def map_of_mem [symmetric])
qed

lemma acknowledge_visible:
  assumes "pending_ok p" and "seen_since p db uid t"
    and "\<And>ts. (uid, ts) \<in> set persisted \<Longrightarrow> \<exists>seen. stored_seen db uid = Some seen \<and> ts \<le> seen"
  shows "seen_since (acknowledge day persisted p) db uid t"
proof (cases "case stored_seen db uid of None \<Rightarrow> False | Some seen \<Rightarrow> t \<le> seen")
  case True
  then show ?thesis by (simp add: seen_since_iff [OF acknowledge_ok [OF assms(1)]])
next
  case False
  then obtain d xs ts where xs: "map_of p d = Some xs" "map_of xs uid = Some ts" "t \<le> ts"
    using assms(2) by (auto simp: seen_since_iff [OF assms(1)])
  have fresh: "map_of (fold ack_one persisted xs) uid = Some ts"
    using False assms(3) xs(2,3) by (fastforce simp: ack_fold(2))
  then have "fold ack_one persisted xs \<noteq> []" by auto
  with xs fresh have "\<exists>obs. map_of (acknowledge day persisted p) d = Some obs \<and> map_of obs uid = Some ts"
    by (simp add: acknowledge_map)
  then show ?thesis using xs(3) by (auto simp: seen_since_iff [OF acknowledge_ok [OF assms(1)]])
qed

section \<open>One transaction\<close>

lemma in_candidates:
  "uid \<in> fst ` set (candidates rows obs) \<longleftrightarrow>
   (\<exists>r \<in> set rows. ux_uid r = uid \<and> (\<exists>ts. (uid, ts) \<in> set obs \<and> ux_last_seen_at r < ts))"
  by (auto simp: candidates_def image_iff)

text \<open>What the update leaves in a row.\<close>

definition seen_after :: "observations \<Rightarrow> uid \<Rightarrow> timestamp \<Rightarrow> timestamp" where
  "seen_after obs uid seen = (case map_of obs uid of None \<Rightarrow> seen | Some ts \<Rightarrow> max seen ts)"

definition flushed_row :: "user_extra_row list \<Rightarrow> observations \<Rightarrow> user_extra_row \<Rightarrow> user_extra_row" where
  "flushed_row rows obs r = (if ux_uid r \<in> fst ` set (candidates rows obs) then advance obs r else r)"

lemma flushed_row_seen:
  assumes "ol_sorted obs" and "r \<in> set rows"
  shows "ux_last_seen_at (flushed_row rows obs r) = seen_after obs (ux_uid r) (ux_last_seen_at r)"
    and "ux_uid (flushed_row rows obs r) = ux_uid r"
proof -
  have "map_of obs (ux_uid r) = Some ts \<Longrightarrow> ux_last_seen_at r < ts \<Longrightarrow>
      ux_uid r \<in> fst ` set (candidates rows obs)" for ts
    using assms unfolding in_candidates by (auto simp: map_of_mem)
  then show "ux_last_seen_at (flushed_row rows obs r) = seen_after obs (ux_uid r) (ux_last_seen_at r)"
    by (cases "map_of obs (ux_uid r)"; cases "ux_last_seen_at r < the (map_of obs (ux_uid r))")
      (auto simp: flushed_row_def advance_def seen_after_def max_absorb1)
  show "ux_uid (flushed_row rows obs r) = ux_uid r"
    by (simp add: flushed_row_def advance_def split: option.split)
qed

lemma flush_day_rows:
  assumes "flush_day day obs t db = Inr (s, db')"
  shows "user_extras db' = map (flushed_row (user_extras db) obs) (user_extras db)"
proof -
  from assms obtain delta where "upsert_daily_metrics delta t (db\<lparr>user_extras :=
      update_rows (\<lambda>r. ux_uid r \<in> fst ` set (candidates (user_extras db) obs)) (advance obs) (user_extras db)\<rparr>)
    = Inr (s, db')"
    by (auto simp: flush_day_def Let_def)
  from upsert_daily_metrics_tables [OF this] show ?thesis
    by (auto simp: update_rows_def flushed_row_def)
qed

lemma flush_day_never_fails: "flush_day day obs t db \<noteq> Inl e"
  by (simp add: flush_day_def Let_def upsert_daily_metrics_never_fails)

lemma stored_seen_flush:
  assumes "ol_sorted obs" and "flush_day day obs t db = Inr (s, db')"
  shows "stored_seen db' uid = map_option (seen_after obs uid) (stored_seen db uid)"
proof -
  have "map_option ux_last_seen_at (first_row (\<lambda>r. ux_uid r = uid) (map (flushed_row rows obs) rs)) =
      map_option (seen_after obs uid) (map_option ux_last_seen_at (first_row (\<lambda>r. ux_uid r = uid) rs))"
    if "set rs \<subseteq> set rows" for rs rows
    using that by (induction rs) (auto simp: flushed_row_seen [OF assms(1)])
  then show ?thesis by (simp add: stored_seen_def flush_day_rows [OF assms(2)])
qed

lemma seen_after_ge: "seen \<le> seen_after obs uid seen"
  by (simp add: seen_after_def split: option.split)

lemma seen_after_covers: "ol_sorted obs \<Longrightarrow> (uid, ts) \<in> set obs \<Longrightarrow> ts \<le> seen_after obs uid seen"
  by (simp add: seen_after_def map_of_mem [symmetric])

lemma flush_day_visible:
  assumes "pending_ok p" and "ol_sorted obs" and "flush_day day obs t db = Inr (s, db')"
    and "seen_since p db uid time"
  shows "seen_since p db' uid time"
  using assms(4) order_trans [OF _ seen_after_ge]
  unfolding seen_since_iff [OF assms(1)] stored_seen_flush [OF assms(2,3)]
  by (auto split: option.splits)

section \<open>Counting active users\<close>

text \<open>The number of accounts whose stored day is before \<open>day\<close>.\<close>

definition not_yet_seen :: "tables \<Rightarrow> int \<Rightarrow> nat" where
  "not_yet_seen db day = length (filter (\<lambda>r. day_of (ux_last_seen_at r) < day) (user_extras db))"

lemma candidate_of_row:
  assumes "ol_sorted obs"
  shows "filter (\<lambda>(uid, ts). uid = u \<and> seen < ts) obs =
    (case map_of obs u of Some ts \<Rightarrow> if seen < ts then [(u, ts)] else [] | None \<Rightarrow> [])"
  using assms
proof (induction obs)
  case Nil
  then show ?case by simp
next
  case (Cons x obs)
  obtain u' ts where x: "x = (u', ts)" by (cases x)
  have "u \<notin> fst ` set obs" if "u' = u" using Cons.prems that by (auto simp: x)
  then have "u' = u \<Longrightarrow> map_of obs u = None" by (simp add: map_of_eq_None_iff)
  with Cons show ?case by (auto simp: x)
qed

definition counted :: "int \<Rightarrow> observations \<Rightarrow> user_extra_row \<Rightarrow> bool" where
  "counted day obs r \<longleftrightarrow> (\<exists>ts. map_of obs (ux_uid r) = Some ts \<and> ux_last_seen_at r < ts) \<and>
     day_of (ux_last_seen_at r) \<noteq> day"

lemma active_users_counted:
  assumes "ol_sorted obs"
  shows "length (filter (\<lambda>(_, previous, _). day_of previous \<noteq> day) (candidates rows obs)) =
    length (filter (counted day obs) rows)"
proof (induction rows)
  case Nil
  then show ?case by (simp add: candidates_def)
next
  case (Cons r rows)
  have "candidates (r # rows) obs = candidates [r] obs @ candidates rows obs" by (simp add: candidates_def)
  moreover have "length (filter (\<lambda>(_, previous, _). day_of previous \<noteq> day) (candidates [r] obs)) =
      (if counted day obs r then 1 else 0)"
    by (auto simp: candidates_def candidate_of_row [OF assms] counted_def split: option.split)
  ultimately show ?case using Cons by simp
qed

lemma flush_day_metric:
  assumes "ol_sorted obs" and "flush_day day obs t db = Inr (s, db')"
  shows "metric_on adm_active_users db' d =
    metric_on adm_active_users db d + (if d = day then int (length (filter (counted day obs) (user_extras db))) else 0)"
proof -
  have field: "(adm_active_users, dm_active_users) \<in> counters" by (simp add: counters_def)
  have same: "metric_on adm_active_users (db\<lparr>user_extras := rows\<rparr>) d = metric_on adm_active_users db d" for rows
    by (simp add: metric_on_def)
  from assms(2) show ?thesis
    unfolding flush_day_def Let_def active_users_counted [OF assms(1)]
    by (drule_tac upsert_metric_on [OF field, where day = d]) (simp add: same)
qed

lemma counted_is_late:
  assumes "observations_ok day obs" and "counted day obs r"
  shows "day_of (ux_last_seen_at r) < day"
    and "day_of (seen_after obs (ux_uid r) (ux_last_seen_at r)) = day"
proof -
  obtain ts where ts: "map_of obs (ux_uid r) = Some ts" "ux_last_seen_at r < ts"
    using assms(2) by (auto simp: counted_def)
  have "day_of ts = day" using assms(1) map_of_SomeD [OF ts(1)] by (auto simp: observations_ok_def)
  then show "day_of (ux_last_seen_at r) < day"
    using day_of_mono [of "ux_last_seen_at r" ts] ts(2) assms(2) by (simp add: counted_def)
  show "day_of (seen_after obs (ux_uid r) (ux_last_seen_at r)) = day"
    using ts \<open>day_of ts = day\<close> by (simp add: seen_after_def max_def)
qed

lemma length_filter_map_le:
  assumes "\<And>r. r \<in> set rows \<Longrightarrow> (P (f r) \<longrightarrow> P r) \<and> (Q r \<longrightarrow> P r \<and> \<not> P (f r))"
  shows "length (filter P (map f rows)) + length (filter Q rows) \<le> length (filter P rows)"
  using assms by (induction rows) (simp, fastforce)

lemma flush_day_potential:
  assumes "observations_ok day obs" and "flush_day day obs t db = Inr (s, db')"
  shows "metric_on adm_active_users db' d + int (not_yet_seen db' d) \<le>
    metric_on adm_active_users db d + int (not_yet_seen db d)"
proof -
  let ?rows = "user_extras db" and ?P = "\<lambda>r. day_of (ux_last_seen_at r) < d"
  let ?Q = "\<lambda>r. d = day \<and> counted day obs r"
  have sorted: "ol_sorted obs" using assms(1) by (simp add: observations_ok_def)
  have "length (filter ?P (map (flushed_row ?rows obs) ?rows)) + length (filter ?Q ?rows) \<le> length (filter ?P ?rows)"
  proof (rule length_filter_map_le)
    fix r
    assume "r \<in> set ?rows"
    note new = flushed_row_seen(1) [OF sorted this]
    show "(?P (flushed_row ?rows obs r) \<longrightarrow> ?P r) \<and> (?Q r \<longrightarrow> ?P r \<and> \<not> ?P (flushed_row ?rows obs r))"
      using day_of_mono [OF seen_after_ge, of "ux_last_seen_at r" obs "ux_uid r"] counted_is_late [OF assms(1), of r]
      unfolding new by auto
  qed
  then show ?thesis
    using flush_day_metric [OF sorted assms(2), of d]
    by (cases "d = day") (simp_all add: not_yet_seen_def flush_day_rows [OF assms(2)])
qed

section \<open>Every interleaving\<close>

definition batch_ok :: "tables \<Rightarrow> flush_state \<Rightarrow> bool" where
  "batch_ok db f \<longleftrightarrow> pending_ok (fl_days f) \<and>
     (case fl_committed f of
        None \<Rightarrow> True
      | Some (day, obs, _) \<Rightarrow>
          \<forall>uid ts seen. (uid, ts) \<in> set obs \<longrightarrow> stored_seen db uid = Some seen \<longrightarrow> ts \<le> seen)"

definition ls_ok :: "ls_state \<Rightarrow> bool" where
  "ls_ok s \<longleftrightarrow> pending_ok (ls_pending s) \<and>
     (case ls_flush s of None \<Rightarrow> True | Some f \<Rightarrow> batch_ok (ls_db s) f)"

lemma pending_ok_Cons:
  "pending_ok ((day, obs) # rest) \<longleftrightarrow>
   (\<forall>d \<in> fst ` set rest. day < d) \<and> pending_ok rest \<and> observations_ok day obs"
  by (auto simp: pending_ok_def)

lemma ls_exec_ok: "ls_ok s \<Longrightarrow> ls_ok (ls_exec x s)"
proof (cases x)
  case (Commit ok)
  assume ok: "ls_ok s"
  show ?thesis
  proof (cases "ls_flush s")
    case None
    with ok Commit show ?thesis by simp
  next
    case (Some f)
    show ?thesis
    proof (cases "fl_days f")
      case Nil
      with ok Commit Some show ?thesis by (auto split: option.split)
    next
      case (Cons d rest)
      obtain day obs where d: "d = (day, obs)" by (cases d)
      have batch: "pending_ok ((day, obs) # rest)" using ok Some Cons d by (simp add: ls_ok_def batch_ok_def)
      then have sorted: "ol_sorted obs" by (simp add: pending_ok_Cons observations_ok_def)
      obtain snapshot db' where day: "flush_day day obs (fl_flushed_at f) (ls_db s) = Inr (snapshot, db')"
        using flush_day_never_fails by (metis sum.exhaust prod.exhaust)
      show ?thesis
      proof (cases "fl_committed f")
        case None
        have "ts \<le> seen" if "(uid, ts) \<in> set obs" "stored_seen db' uid = Some seen" for uid ts seen
          using that seen_after_covers [OF sorted] by (auto simp: stored_seen_flush [OF sorted day])
        then show ?thesis
          using ok Commit Some Cons d batch day None
          by (auto simp: ls_ok_def batch_ok_def pending_ok_Cons fail_flush_def)
      next
        case (Some c)
        then have "ls_exec x s = s" using Commit \<open>ls_flush s = Some f\<close> Cons by simp
        then show ?thesis using ok by simp
      qed
    qed
  qed
next
  case (Settle today)
  then show "ls_ok s \<Longrightarrow> ls_ok (ls_exec x s)"
    by (auto simp: ls_ok_def batch_ok_def acknowledge_ok split: option.splits prod.splits)
qed (auto simp: ls_ok_def batch_ok_def record_seen_ok fail_flush_def split: option.splits)

interpretation last_seen: total_machine ls_exec ls_ok
  by unfold_locales (rule ls_exec_ok)

text \<open>What readers see of an account that has a row.\<close>

definition account_seen :: "uid \<Rightarrow> timestamp \<Rightarrow> ls_state \<Rightarrow> bool" where
  "account_seen uid t s \<longleftrightarrow> stored_seen (ls_db s) uid \<noteq> None \<and> seen_since (ls_pending s) (ls_db s) uid t"

lemma account_seen_step:
  assumes "ls_ok s" and "account_seen uid t s"
  shows "account_seen uid t (ls_exec x s)"
proof (cases x)
  case (Seen u ts)
  with assms show ?thesis by (simp add: account_seen_def ls_ok_def record_seen_visible(2))
next
  case (Connect ok time)
  then have "ls_pending (ls_exec x s) = ls_pending s" "ls_db (ls_exec x s) = ls_db s"
    by (auto simp: fail_flush_def split: option.split)
  with assms(2) show ?thesis by (simp add: account_seen_def)
next
  case (Commit ok)
  show ?thesis
  proof (cases "\<exists>f day obs rest. ls_flush s = Some f \<and> fl_committed f = None \<and> fl_days f = (day, obs) # rest")
    case False
    then have "ls_exec x s = s" using Commit by (auto split: option.split list.split)
    with assms(2) show ?thesis by simp
  next
    case True
    then obtain f day obs rest where f: "ls_flush s = Some f" "fl_committed f = None" "fl_days f = (day, obs) # rest"
      by blast
    then have ok': "pending_ok (ls_pending s)" "ol_sorted obs"
      using assms(1) by (simp_all add: ls_ok_def batch_ok_def pending_ok_Cons observations_ok_def)
    obtain snapshot db' where day: "flush_day day obs (fl_flushed_at f) (ls_db s) = Inr (snapshot, db')"
      using flush_day_never_fails by (metis sum.exhaust prod.exhaust)
    show ?thesis
      using assms(2) flush_day_visible [OF ok' day, of uid t]
      by (simp add: Commit f day account_seen_def stored_seen_flush [OF ok'(2) day] fail_flush_def)
  qed
next
  case (Settle today)
  show ?thesis
  proof (cases "\<exists>f day obs snapshot. ls_flush s = Some f \<and> fl_committed f = Some (day, obs, snapshot)")
    case False
    then have "ls_exec x s = s" using Settle by (auto split: option.split)
    with assms(2) show ?thesis by simp
  next
    case True
    then obtain f day obs snapshot where f: "ls_flush s = Some f" "fl_committed f = Some (day, obs, snapshot)"
      by blast
    have "seen_since (acknowledge day obs (ls_pending s)) (ls_db s) uid t"
      by (rule acknowledge_visible) (use assms f in \<open>auto simp: ls_ok_def batch_ok_def account_seen_def\<close>)
    then show ?thesis using assms(2) by (simp add: Settle f account_seen_def)
  qed
next
  case Finish
  with assms show ?thesis by (simp add: account_seen_def split: option.split)
qed

lemma potential_step:
  assumes "ls_ok s"
  shows "metric_on adm_active_users (ls_db (ls_exec x s)) d + int (not_yet_seen (ls_db (ls_exec x s)) d) \<le>
    metric_on adm_active_users (ls_db s) d + int (not_yet_seen (ls_db s) d)"
proof (cases x)
  case (Commit ok)
  show ?thesis
  proof (cases "\<exists>f day obs rest. ls_flush s = Some f \<and> fl_committed f = None \<and> fl_days f = (day, obs) # rest")
    case False
    then have "ls_exec x s = s" using Commit by (auto split: option.split list.split)
    then show ?thesis by simp
  next
    case True
    then obtain f day obs rest where f: "ls_flush s = Some f" "fl_committed f = None" "fl_days f = (day, obs) # rest"
      by blast
    then have "observations_ok day obs" using assms by (simp add: ls_ok_def batch_ok_def pending_ok_Cons)
    then show ?thesis
      using flush_day_never_fails flush_day_potential
      by (auto simp: Commit f fail_flush_def split: sum.split)
  qed
qed (auto simp: fail_flush_def split: option.splits prod.splits)

lemma account_seen_run:
  assumes "ls_ok s" and "account_seen uid t s"
  shows "account_seen uid t (fold ls_exec xs s)"
  by (rule last_seen.run_keeps [where Q = "account_seen uid t"]) (use account_seen_step assms in blast)+

section \<open>The uninterrupted flush refines the steps\<close>

fun flush_steps :: "(int \<Rightarrow> bool) \<Rightarrow> (int \<Rightarrow> int) \<Rightarrow> pending \<Rightarrow> ls_step list" where
  "flush_steps day_ok today [] = [Finish]"
| "flush_steps day_ok today ((day, _) # rest) =
     Commit (day_ok day) # Settle (today day) # flush_steps day_ok today rest"

lemma idle_flush_steps:
  "ls_flush s = None \<Longrightarrow> fold ls_exec (flush_steps day_ok today days) s = s"
  by (induction day_ok today days rule: flush_steps.induct) simp_all

lemma flush_days_steps:
  assumes "ls_flush s = Some \<lparr>fl_days = days, fl_committed = None, fl_flushed_at = t\<rparr>"
    and "flush_days day_ok today t days (ls_pending s, ls_db s, ls_metrics s) = (r, p', db', m')"
  shows "fold ls_exec (flush_steps day_ok today days) s =
    s\<lparr>ls_pending := p', ls_db := db', ls_metrics := m', ls_flush := None\<rparr>"
  using assms
proof (induction days arbitrary: s)
  case Nil
  then show ?case by simp
next
  case (Cons d days)
  obtain day obs where d: "d = (day, obs)" by (cases d)
  show ?case
  proof (cases "day_ok day")
    case False
    then show ?thesis using Cons.prems by (simp add: d fail_flush_def idle_flush_steps)
  next
    case True
    obtain snapshot db1 where day: "flush_day day obs t (ls_db s) = Inr (snapshot, db1)"
      using flush_day_never_fails by (metis sum.exhaust prod.exhaust)
    let ?s = "s\<lparr>ls_pending := acknowledge day obs (ls_pending s), ls_db := db1,
      ls_metrics := settle_metrics day (today day) snapshot (ls_metrics s),
      ls_flush := Some \<lparr>fl_days = days, fl_committed = None, fl_flushed_at = t\<rparr>\<rparr>"
    have "fold ls_exec (flush_steps day_ok today days) ?s =
        ?s\<lparr>ls_pending := p', ls_db := db', ls_metrics := m', ls_flush := None\<rparr>"
      by (rule Cons.IH) (use Cons.prems(2) True day in \<open>simp_all add: d\<close>)
    moreover have "ls_exec (Settle (today day)) (ls_exec (Commit (day_ok day)) s) = ?s"
      using Cons.prems(1) True day by (simp add: d)
    ultimately show ?thesis by (simp add: d del: ls_exec.simps)
  qed
qed

lemma flush_steps_from_idle:
  assumes "ls_flush s = None"
    and "flush conn_ok day_ok today t (ls_pending s, ls_db s, ls_metrics s) = (r, p', db', m')"
  shows "fold ls_exec (Connect conn_ok t # flush_steps day_ok today (ls_pending s)) s =
    s\<lparr>ls_pending := p', ls_db := db', ls_metrics := m'\<rparr>"
proof (cases "ls_pending s = [] \<or> \<not> conn_ok")
  case True
  then show ?thesis using assms by (auto simp: flush_def fail_flush_def idle_flush_steps split: if_splits)
next
  case False
  let ?s = "s\<lparr>ls_flush := Some \<lparr>fl_days = ls_pending s, fl_committed = None, fl_flushed_at = t\<rparr>\<rparr>"
  have "fold ls_exec (flush_steps day_ok today (ls_pending s)) ?s =
      ?s\<lparr>ls_pending := p', ls_db := db', ls_metrics := m', ls_flush := None\<rparr>"
    by (rule flush_days_steps) (use False assms(2) in \<open>simp_all add: flush_def\<close>)
  with False assms(1) show ?thesis by simp
qed

section \<open>What a flush achieves\<close>

lemma acknowledge_whole_day:
  assumes "pending_ok ((day, obs) # rest)"
  shows "acknowledge day obs ((day, obs) # rest) = rest"
proof -
  have "ol_sorted obs" using assms by (simp add: pending_ok_Cons observations_ok_def)
  then have "map_of (fold ack_one obs obs) uid = None" for uid
    by (auto simp: ack_fold(2) map_of_mem split: option.split)
  then have "fold ack_one obs obs = []" by (metis map_of_eq_empty_iff ext)
  moreover have "ol_delete day ((day, obs) # rest) = rest"
    using assms by (auto simp: ol_delete_def pending_ok_Cons filter_id_conv)
  ultimately show ?thesis by (simp add: acknowledge_def ack_one_def [symmetric])
qed

lemma latest_Cons:
  "latest ((day, obs) # p) uid (Some seen) = latest p uid (Some (seen_after obs uid seen))"
  by (simp add: latest_def seen_after_def split: option.split)

lemma flush_days_exact:
  assumes "pending_ok p" and "flush_days day_ok today t p (p, db, m) = (r, p', db', m')"
  shows "p' = dropWhile (\<lambda>(day, _). day_ok day) p \<and> (r = Inr () \<longleftrightarrow> p' = []) \<and>
    stored_seen db' uid = (case stored_seen db uid of None \<Rightarrow> None
      | Some seen \<Rightarrow> latest (takeWhile (\<lambda>(day, _). day_ok day) p) uid (Some seen))"
  using assms
proof (induction p arbitrary: db m)
  case Nil
  then show ?case by (auto simp: latest_def split: option.split)
next
  case (Cons d p)
  obtain day obs where d: "d = (day, obs)" by (cases d)
  show ?case
  proof (cases "day_ok day")
    case False
    with Cons.prems(2) show ?thesis by (auto simp: d latest_def split: option.split)
  next
    case True
    have ok: "pending_ok ((day, obs) # p)" using Cons.prems(1) by (simp add: d)
    then have sorted: "ol_sorted obs" "pending_ok p" by (simp_all add: pending_ok_Cons observations_ok_def)
    obtain snapshot db1 where day: "flush_day day obs t db = Inr (snapshot, db1)"
      using flush_day_never_fails by (metis sum.exhaust prod.exhaust)
    have "flush_days day_ok today t p (p, db1, settle_metrics day (today day) snapshot m) = (r, p', db', m')"
      using Cons.prems(2) True day acknowledge_whole_day [OF ok] by (simp add: d)
    from Cons.IH [OF sorted(2) this] show ?thesis
      using True by (simp add: d stored_seen_flush [OF sorted(1) day] latest_Cons split: option.split)
  qed
qed

section \<open>Properties\<close>


text \<open>The daily number of active users counts an account at most once per day: over any run of
  the worker, with failures and retries, the counter of a day grows by no more than the number
  of accounts that were not yet seen that day.\<close>

theorem active_users_counted_once:
  assumes "ls_ok s"
  shows "metric_on adm_active_users (ls_db (ls_run steps s)) day \<le>
    metric_on adm_active_users (ls_db s) day + int (not_yet_seen (ls_db s) day)"
proof -
  have "metric_on adm_active_users (ls_db (ls_run steps s)) day + int (not_yet_seen (ls_db (ls_run steps s)) day) \<le>
      metric_on adm_active_users (ls_db s) day + int (not_yet_seen (ls_db s) day)"
    unfolding ls_run_def by (rule last_seen.run_never_increases [OF potential_step]) (use assms in simp_all)
  then show ?thesis by simp
qed

text \<open>C30: An uninterrupted flush is one interleaving of the worker's steps: it leaves exactly the
  days from the first failing transaction on in the buffer, reports success exactly when none is
  left, and stores for every account the latest observation of the committed days.\<close>

theorem flush_exact:
  assumes "ls_ok s" and "ls_flush s = None"
    and "flush True day_ok today t (ls_pending s, ls_db s, ls_metrics s) = (r, p', db', m')"
  shows "ls_run (Connect True t # flush_steps day_ok today (ls_pending s)) s =
      s\<lparr>ls_pending := p', ls_db := db', ls_metrics := m'\<rparr> \<and>
    p' = dropWhile (\<lambda>(day, _). day_ok day) (ls_pending s) \<and> (r = Inr () \<longleftrightarrow> p' = []) \<and>
    stored_seen db' uid = (case stored_seen (ls_db s) uid of None \<Rightarrow> None
      | Some seen \<Rightarrow> latest (takeWhile (\<lambda>(day, _). day_ok day) (ls_pending s)) uid (Some seen))"
proof -
  have "flush_days day_ok today t (ls_pending s) (ls_pending s, ls_db s, ls_metrics s) = (r, p', db', m')"
    using assms(3) by (auto simp: flush_def split: if_splits)
  moreover have "pending_ok (ls_pending s)" using assms(1) by (simp add: ls_ok_def)
  ultimately show ?thesis
    using flush_days_exact flush_steps_from_idle [OF assms(2,3)] unfolding ls_run_def by blast
qed

section \<open>Examples\<close>

text \<open>Account 7 was stored on day 0; an observation of day 1 waits.\<close>

definition sample_worker :: ls_state where
  "sample_worker = \<lparr>ls_pending = [(1, [(7, nanos_per_day + 5)])], ls_flush = None,
     ls_db = empty_tables\<lparr>user_extras := [user_extra_row_of (new_user_extra_new 7 3)]\<rparr>,
     ls_metrics = empty_metrics\<rparr>"

lemma sample_worker_ok: "ls_ok sample_worker"
  by (simp add: ls_ok_def sample_worker_def pending_ok_def observations_ok_def day_of_def nanos_per_day_def)

lemma sample_worker_row: "stored_seen (ls_db sample_worker) 7 = Some 3"
  by (simp add: sample_worker_def stored_seen_def user_extra_row_of_def new_user_extra_new_def)


lemma active_users_counted_once_witness:
  "metric_on adm_active_users (ls_db (ls_run [Connect True 9, Commit True, Settle 1, Finish,
     Seen 7 (nanos_per_day + 8), Connect True 9, Commit True] sample_worker)) 1 \<le> 1"
  using active_users_counted_once [OF sample_worker_ok, of _ 1]
  by (simp add: sample_worker_def metric_on_def not_yet_seen_def user_extra_row_of_def new_user_extra_new_def
      day_of_def nanos_per_day_def empty_tables_def)

lemma flush_exact_witness:
  "\<exists>db' m'. flush True (\<lambda>_. True) (\<lambda>_. 1) 9
     (ls_pending sample_worker, ls_db sample_worker, ls_metrics sample_worker) = (Inr (), [], db', m') \<and>
     stored_seen db' 7 = Some (nanos_per_day + 5)"
proof -
  obtain r p' db' m' where run: "flush True (\<lambda>_. True) (\<lambda>_. 1) 9
      (ls_pending sample_worker, ls_db sample_worker, ls_metrics sample_worker) = (r, p', db', m')"
    using prod_cases4 by blast
  have idle: "ls_flush sample_worker = None" by (simp add: sample_worker_def)
  have "takeWhile (\<lambda>(day, _). True) (ls_pending sample_worker) = ls_pending sample_worker"
    "dropWhile (\<lambda>(day, _). True) (ls_pending sample_worker) = []"
    by (simp_all add: sample_worker_def)
  then show ?thesis
    using flush_exact [OF sample_worker_ok idle run, of 7] run
    by (simp add: sample_worker_row) (simp add: latest_def sample_worker_def nanos_per_day_def)
qed

end
