(* ===== verification/Client_Tracking.thy ===== *)
theory Client_Tracking
  imports Last_Seen
begin

text \<open>
  \<open>ClientTrackingService\<close> of \<open>backend/src/services/client_tracking/mod.rs\<close>: the activity of a
  client is written at most once per five minutes (\<open>recent_writes\<close>), a client that is used by
  another account takes its push subscriptions along, every write feeds the daily rollup, and
  clients unused for 45 days are purged in batches. Connection and transaction failures are
  branches (\<open>conn_ok\<close>, \<open>tx_ok\<close>); a failed transaction is rolled back. \<open>Instant\<close>s are nanoseconds
  of the monotonic clock. The delete of a purge batch and the removal of its cache entries are
  one step, and no other transaction locks the rows of the batch.
\<close>

section \<open>State\<close>

record cached_activity =
  ca_last_written_at :: int
  ca_uid :: uid
  ca_day :: int
  ca_last_app_version :: "ustr option"

record tracking_state =
  ct_pending :: pending
  ct_db :: tables
  ct_metrics :: tracking_metrics
  ct_recent_writes :: "ustr \<rightharpoonup> cached_activity"

definition activity_write_throttle :: int where
  "activity_write_throttle = 5 * 60 * 1000000000"

definition purge_batch_size :: nat where
  "purge_batch_size = 500"

definition stale_client_retention :: int where
  "stale_client_retention = 45 * nanos_per_day"

section \<open>Recording activity\<close>

definition app_version_changed :: "ustr option \<Rightarrow> cached_activity \<Rightarrow> bool" where
  "app_version_changed app_version entry =
     (case app_version of None \<Rightarrow> False | Some v \<Rightarrow> ca_last_app_version entry \<noteq> Some v)"

definition throttled :: "uid \<Rightarrow> ustr option \<Rightarrow> int \<Rightarrow> int \<Rightarrow> cached_activity \<Rightarrow> bool" where
  "throttled uid app_version today instant entry \<longleftrightarrow>
     ca_uid entry = uid \<and> \<not> app_version_changed app_version entry \<and> ca_day entry = today \<and>
     max 0 (instant - ca_last_written_at entry) < activity_write_throttle"

abbreviation client_of :: "tables \<Rightarrow> ustr \<Rightarrow> client_record option" where
  "client_of db client_id \<equiv> first_row (\<lambda>c. cl_client_id c = client_id) (clients db)"

definition recorded_client ::
  "uid \<Rightarrow> ustr \<Rightarrow> ustr option \<Rightarrow> timestamp \<Rightarrow> client_record option \<Rightarrow> client_record" where
  "recorded_client uid client_id app_version now existing =
     \<lparr>cl_client_id = client_id,
      cl_created_at = (case existing of None \<Rightarrow> now | Some c \<Rightarrow> cl_created_at c),
      cl_last_active = now, cl_last_active_uid = uid,
      cl_last_app_version = (case app_version of Some v \<Rightarrow> Some v
        | None \<Rightarrow> (case existing of None \<Rightarrow> None | Some c \<Rightarrow> cl_last_app_version c))\<rparr>"

text \<open>The \<open>INSERT ... ON CONFLICT DO UPDATE ... RETURNING last_app_version\<close>.\<close>

definition upsert_client ::
  "uid \<Rightarrow> ustr \<Rightarrow> ustr option \<Rightarrow> timestamp \<Rightarrow> tables \<Rightarrow> ustr option \<times> tables" where
  "upsert_client uid client_id app_version now db =
     (let existing = client_of db client_id;
          new_client = recorded_client uid client_id app_version now existing;
          on_conflict = (\<lambda>c. case app_version of
              Some v \<Rightarrow> c\<lparr>cl_last_active := now, cl_last_active_uid := uid, cl_last_app_version := Some v\<rparr>
            | None \<Rightarrow> c\<lparr>cl_last_active := now, cl_last_active_uid := uid\<rparr>)
      in (cl_last_app_version (case existing of None \<Rightarrow> new_client | Some c \<Rightarrow> on_conflict c),
          db\<lparr>clients := upsert_row (\<lambda>c. cl_client_id c = client_id) new_client on_conflict (clients db)\<rparr>))"

definition activity_delta :: "int \<Rightarrow> uid \<Rightarrow> client_record option \<Rightarrow> bool \<Rightarrow> daily_metric_delta" where
  "activity_delta today uid existing new_user =
     \<lparr>dm_day = today, dm_active_users = of_bool new_user, dm_new_users = of_bool new_user,
      dm_active_clients = of_bool (case existing of
        None \<Rightarrow> True | Some c \<Rightarrow> day_of (cl_last_active c) \<noteq> today),
      dm_new_clients = of_bool (existing = None),
      dm_client_rebinds = of_bool (case existing of
        None \<Rightarrow> False | Some c \<Rightarrow> cl_last_active_uid c \<noteq> uid),
      dm_stale_clients_purged = 0, dm_legacy_subscriptions_purged = 0\<rparr>"

text \<open>
  The body of the transaction: the recorded version, today's metrics, and whether the client
  moved to another account.
\<close>

definition record_activity_tx ::
  "uid \<Rightarrow> ustr \<Rightarrow> ustr option \<Rightarrow> timestamp \<Rightarrow> tables \<Rightarrow>
   db_error + (ustr option \<times> activity_today_snapshot option \<times> bool) \<times> tables" where
  "record_activity_tx uid client_id app_version now db =
     (let existing = client_of db client_id;
          moved = (case existing of None \<Rightarrow> False | Some c \<Rightarrow> cl_last_active_uid c \<noteq> uid);
          db1 = (if moved
                 then db\<lparr>push_subscriptions := update_rows (\<lambda>s. ps_client_id s = Some client_id)
                   (\<lambda>s. s\<lparr>ps_user_id := uid\<rparr>) (push_subscriptions db)\<rparr>
                 else db);
          (last_app_version, db2) = upsert_client uid client_id app_version now db1;
          new_user = (\<not> exists_row (\<lambda>r. ux_uid r = uid) (user_extras db2));
          db3 = db2\<lparr>user_extras := insert_or_ignore (\<lambda>r. ux_uid r = uid)
            (user_extra_row_of (new_user_extra_new uid now)) (user_extras db2)\<rparr>
      in and_then (upsert_daily_metrics (activity_delta (day_of now) uid existing new_user) now db3)
           (\<lambda>(today_metrics, db4). Inr ((last_app_version, today_metrics, moved), db4)))"

text \<open>
  \<open>instant\<close> is read by the throttle check, \<open>written_at\<close> when the cache entry is stored.
\<close>

definition record_client_activity ::
  "uid \<Rightarrow> ustr \<Rightarrow> ustr option \<Rightarrow> timestamp \<Rightarrow> int \<Rightarrow> int \<Rightarrow> bool \<Rightarrow> bool \<Rightarrow> tracking_state \<Rightarrow>
   (app_error + unit) \<times> tracking_state" where
  "record_client_activity uid client_id app_version now instant written_at conn_ok tx_ok s =
     (if (case ct_recent_writes s client_id of
            None \<Rightarrow> False | Some entry \<Rightarrow> throttled uid app_version (day_of now) instant entry)
      then (Inr (), s\<lparr>ct_metrics := record_activity_write_skipped ''throttled'' (ct_metrics s)\<rparr>)
      else if \<not> conn_ok
      then (Inl (Internal ''Database connection failed''),
            s\<lparr>ct_metrics := record_activity_write ''error'' (ct_metrics s)\<rparr>)
      else
        let failed = (Inl (Internal ''Failed to record client activity''),
              s\<lparr>ct_metrics := record_daily_rollup_update ''error''
                (record_activity_write ''error'' (ct_metrics s))\<rparr>)
        in if \<not> tx_ok then failed
           else case record_activity_tx uid client_id app_version now (ct_db s) of
               Inl _ \<Rightarrow> failed
             | Inr ((recorded_app_version, today_metrics, recorded_rebind), db') \<Rightarrow>
                 let m1 = record_activity_write ''success'' (ct_metrics s);
                     m2 = (case today_metrics of
                         Some t \<Rightarrow> record_daily_rollup_update ''success'' (set_activity_today t m1)
                       | None \<Rightarrow> m1);
                     m3 = (if recorded_rebind then Activity_Metrics.record_rebind m2 else m2)
                 in (Inr (), s\<lparr>ct_db := db', ct_metrics := m3,
                       ct_recent_writes := (ct_recent_writes s)(client_id \<mapsto>
                         \<lparr>ca_last_written_at = written_at, ca_uid = uid, ca_day = day_of now,
                          ca_last_app_version = recorded_app_version\<rparr>)\<rparr>))"

definition record_activity ::
  "uid \<Rightarrow> ustr \<Rightarrow> ustr option \<Rightarrow> timestamp \<Rightarrow> timestamp \<Rightarrow> int \<Rightarrow> int \<Rightarrow> bool \<Rightarrow> bool \<Rightarrow> tracking_state \<Rightarrow>
   (app_error + unit) \<times> tracking_state" where
  "record_activity uid client_id app_version seen_at now instant written_at conn_ok tx_ok s =
     record_client_activity uid client_id app_version now instant written_at conn_ok tx_ok
       (s\<lparr>ct_pending := record_seen uid seen_at (ct_pending s)\<rparr>)"

section \<open>Versions\<close>

definition version_label :: "ustr option \<Rightarrow> ustr" where
  "version_label version =
     (case version of None \<Rightarrow> ascii ''unknown'' | Some v \<Rightarrow> if trim v = [] then ascii ''unknown'' else v)"

definition active_app_version_snapshot :: "timestamp \<Rightarrow> tables \<Rightarrow> (ustr \<rightharpoonup> int)" where
  "active_app_version_snapshot now db =
     (let active = select_rows (\<lambda>c. cl_last_active c \<ge> now - nanos_per_day) (clients db);
          rows = map (\<lambda>version. (version, int (count_rows (\<lambda>c. cl_last_app_version c = version) active)))
            (remdups (map cl_last_app_version active))
      in fold (\<lambda>(version, n) snapshot. snapshot(version_label version \<mapsto>
           (case snapshot (version_label version) of None \<Rightarrow> 0 | Some k \<Rightarrow> k) + n)) rows Map.empty)"

definition refresh_app_version_snapshot :: "timestamp \<Rightarrow> tables \<Rightarrow> tracking_metrics \<Rightarrow> tracking_metrics" where
  "refresh_app_version_snapshot now db m =
     set_app_version_active_clients (active_app_version_snapshot now db) m"

definition last_app_versions :: "ustr list \<Rightarrow> tables \<Rightarrow> (ustr \<rightharpoonup> ustr option)" where
  "last_app_versions client_ids db =
     (if client_ids = [] then Map.empty
      else fold (\<lambda>c m. m(cl_client_id c \<mapsto> cl_last_app_version c))
        (select_rows (\<lambda>c. cl_client_id c \<in> set client_ids) (clients db)) Map.empty)"

section \<open>Purging\<close>

record purge_batch =
  pb_stale_client_ids :: "ustr list"
  pb_deleted_subscriptions :: nat
  pb_deleted_clients :: nat
  pb_today_metrics :: "activity_today_snapshot option"

text \<open>\<open>client_id.eq_any(ids)\<close>\<close>

definition belongs_to :: "ustr set \<Rightarrow> push_subscription \<Rightarrow> bool" where
  "belongs_to ids s \<longleftrightarrow> (case ps_client_id s of None \<Rightarrow> False | Some i \<Rightarrow> i \<in> ids)"

definition purge_stale_subscriptions_batch ::
  "timestamp \<Rightarrow> int \<Rightarrow> timestamp \<Rightarrow> tables \<Rightarrow> db_error + purge_batch \<times> tables" where
  "purge_stale_subscriptions_batch now today stale_cutoff db =
     (let stale_client_ids = map cl_client_id (take purge_batch_size
            (sort_key cl_last_active (select_rows (\<lambda>c. cl_last_active c < stale_cutoff) (clients db))))
      in if stale_client_ids = []
         then Inr (\<lparr>pb_stale_client_ids = [], pb_deleted_subscriptions = 0, pb_deleted_clients = 0,
                pb_today_metrics = None\<rparr>, db)
         else
           let of_stale = belongs_to (set stale_client_ids);
               is_stale = (\<lambda>c. cl_client_id c \<in> set stale_client_ids);
               deleted_subscriptions = count_rows of_stale (push_subscriptions db);
               deleted_clients = count_rows is_stale (clients db);
               db' = db\<lparr>push_subscriptions := delete_rows of_stale (push_subscriptions db),
                 clients := delete_rows is_stale (clients db)\<rparr>
           in and_then (upsert_daily_metrics
                \<lparr>dm_day = today, dm_active_users = 0, dm_new_users = 0, dm_active_clients = 0,
                 dm_new_clients = 0, dm_client_rebinds = 0,
                 dm_stale_clients_purged = int deleted_clients, dm_legacy_subscriptions_purged = 0\<rparr>
                now db') (\<lambda>(today_metrics, db'').
              Inr (\<lparr>pb_stale_client_ids = stale_client_ids,
                pb_deleted_subscriptions = deleted_subscriptions, pb_deleted_clients = deleted_clients,
                pb_today_metrics = today_metrics\<rparr>, db'')))"

definition apply_batch :: "purge_batch \<Rightarrow> tables \<Rightarrow> tracking_state \<Rightarrow> tracking_state" where
  "apply_batch batch db' s =
     (let m1 = (case pb_today_metrics batch of
            Some t \<Rightarrow> record_daily_rollup_update ''success'' (set_activity_today t (ct_metrics s))
          | None \<Rightarrow> ct_metrics s);
          m2 = (if pb_deleted_clients batch > 0
                then record_purge ''stale_clients'' (pb_deleted_clients batch) m1 else m1)
      in s\<lparr>ct_db := db', ct_metrics := m2,
           ct_recent_writes := fold (\<lambda>i m. m(i := None)) (pb_stale_client_ids batch) (ct_recent_writes s)\<rparr>)"

text \<open>The ids a batch takes, and what it removes.\<close>

definition batch_ids :: "timestamp \<Rightarrow> tables \<Rightarrow> ustr list" where
  "batch_ids cutoff db = map cl_client_id (take purge_batch_size
     (sort_key cl_last_active (select_rows (\<lambda>c. cl_last_active c < cutoff) (clients db))))"

definition without_clients :: "ustr set \<Rightarrow> tables \<Rightarrow> tables" where
  "without_clients ids db = db
     \<lparr>push_subscriptions := delete_rows (belongs_to ids) (push_subscriptions db),
      clients := delete_rows (\<lambda>c. cl_client_id c \<in> ids) (clients db)\<rparr>"

lemma purge_batch_result:
  assumes "purge_stale_subscriptions_batch now today cutoff db = Inr (b, db')"
  shows "pb_stale_client_ids b = batch_ids cutoff db \<and>
    pb_deleted_clients b = count_rows (\<lambda>c. cl_client_id c \<in> set (batch_ids cutoff db)) (clients db) \<and>
    pb_deleted_subscriptions b = count_rows (belongs_to (set (batch_ids cutoff db))) (push_subscriptions db) \<and>
    (\<exists>delta. upsert_daily_metrics delta now (without_clients (set (batch_ids cutoff db)) db) =
        Inr (pb_today_metrics b, db') \<and> dm_day delta = today \<and> dm_new_clients delta = 0 \<and> dm_new_users delta = 0 \<and>
        dm_stale_clients_purged delta = int (pb_deleted_clients b))"
proof (cases "batch_ids cutoff db = []")
  case True
  have none: "belongs_to {} = (\<lambda>_. False)" by (simp add: fun_eq_iff belongs_to_def split: option.split)
  have zero: "upsert_daily_metrics \<lparr>dm_day = today, dm_active_users = 0, dm_new_users = 0,
      dm_active_clients = 0, dm_new_clients = 0, dm_client_rebinds = 0, dm_stale_clients_purged = 0,
      dm_legacy_subscriptions_purged = 0\<rparr> now d = Inr (None, d)" for d
    by (simp add: upsert_daily_metrics_def is_zero_def)
  from True assms have "b = \<lparr>pb_stale_client_ids = [], pb_deleted_subscriptions = 0,
      pb_deleted_clients = 0, pb_today_metrics = None\<rparr> \<and> db' = db"
    by (auto simp: purge_stale_subscriptions_batch_def batch_ids_def [symmetric] Let_def)
  with True show ?thesis
    by (auto simp: without_clients_def none delete_rows_def count_rows_def
        intro!: exI [of _ "\<lparr>dm_day = today, dm_active_users = 0, dm_new_users = 0,
      dm_active_clients = 0, dm_new_clients = 0, dm_client_rebinds = 0, dm_stale_clients_purged = 0,
      dm_legacy_subscriptions_purged = 0\<rparr>"] simp: zero)
next
  case False
  with assms show ?thesis
    by (auto simp: purge_stale_subscriptions_batch_def batch_ids_def [symmetric] Let_def result_simps
        without_clients_def intro!: exI)
qed

lemma purge_batch_tables:
  assumes "purge_stale_subscriptions_batch now today cutoff db = Inr (b, db')"
  shows "\<exists>rows. db' = (without_clients (set (batch_ids cutoff db)) db)\<lparr>daily_metrics := rows\<rparr>"
  using purge_batch_result [OF assms] upsert_daily_metrics_tables by blast

lemma purge_batch_never_fails: "purge_stale_subscriptions_batch now today cutoff db \<noteq> Inl e"
  by (auto simp: purge_stale_subscriptions_batch_def Let_def result_simps upsert_daily_metrics_never_fails)

lemma purge_batch_shrinks:
  assumes "purge_stale_subscriptions_batch now today cutoff db = Inr (b, db')"
    and "\<not> length (pb_stale_client_ids b) < purge_batch_size"
  shows "length (clients db') < length (clients db)"
proof -
  have ids: "pb_stale_client_ids b = batch_ids cutoff db" using purge_batch_result [OF assms(1)] by blast
  with assms(2) obtain i where "i \<in> set (batch_ids cutoff db)"
    by (cases "batch_ids cutoff db") (auto simp: purge_batch_size_def)
  moreover have "set (batch_ids cutoff db) \<subseteq> cl_client_id ` set (clients db)"
    by (auto simp: batch_ids_def row_simps dest!: in_set_takeD)
  ultimately obtain c where "c \<in> set (clients db)" "cl_client_id c \<in> set (batch_ids cutoff db)"
    by blast
  moreover obtain rows where "db' = (without_clients (set (batch_ids cutoff db)) db)\<lparr>daily_metrics := rows\<rparr>"
    using purge_batch_tables [OF assms(1)] by blast
  ultimately show ?thesis
    by (auto simp: without_clients_def delete_rows_def intro!: length_filter_less)
qed

text \<open>
  \<open>batch_commits n\<close>: the \<open>n\<close>th batch gets a connection and commits. The result counts the deleted
  subscriptions and clients.
\<close>

function purge_loop ::
  "(nat \<Rightarrow> bool) \<Rightarrow> nat \<Rightarrow> timestamp \<Rightarrow> int \<Rightarrow> timestamp \<Rightarrow> nat \<times> nat \<Rightarrow> tracking_state \<Rightarrow>
   (string + nat \<times> nat) \<times> tracking_state" where
  "purge_loop batch_commits n now today stale_cutoff deleted s =
     (if \<not> batch_commits n then (Inl ''failed to purge stale client batch'', s)
      else case purge_stale_subscriptions_batch now today stale_cutoff (ct_db s) of
          Inl _ \<Rightarrow> (Inl ''failed to purge stale client batch'', s)
        | Inr (batch, db') \<Rightarrow>
            let s' = apply_batch batch db' s;
                deleted' = (fst deleted + pb_deleted_subscriptions batch, snd deleted + pb_deleted_clients batch)
            in if length (pb_stale_client_ids batch) < purge_batch_size then (Inr deleted', s')
               else purge_loop batch_commits (Suc n) now today stale_cutoff deleted' s')"
  by pat_completeness auto

termination
proof (relation "measure (\<lambda>(_, _, _, _, _, _, s). length (clients (ct_db s)))", goal_cases)
  case 1
  then show ?case by simp
next
  case (2 batch_commits n now today cutoff deleted s r batch db')
  then show ?case by (auto simp: apply_batch_def Let_def dest!: purge_batch_shrinks)
qed

declare purge_loop.simps [simp del]

definition purge_stale_subscriptions ::
  "(nat \<Rightarrow> bool) \<Rightarrow> timestamp \<Rightarrow> tracking_state \<Rightarrow> (string + nat \<times> nat) \<times> tracking_state" where
  "purge_stale_subscriptions batch_commits now s =
     purge_loop batch_commits 0 now (day_of now) (now - stale_client_retention) (0, 0) s"

section \<open>What a purge removes\<close>

interpretation client_table: keyed_table cl_client_id "\<lambda>k c. cl_client_id c = k"
  by unfold_locales simp

abbreviation stale_clients :: "timestamp \<Rightarrow> tables \<Rightarrow> client_record list" where
  "stale_clients cutoff db \<equiv> select_rows (\<lambda>c. cl_last_active c < cutoff) (clients db)"

definition stale_ids :: "timestamp \<Rightarrow> tables \<Rightarrow> ustr set" where
  "stale_ids cutoff db = cl_client_id ` set (stale_clients cutoff db)"

definition clients_ok :: "tables \<Rightarrow> bool" where
  "clients_ok db \<longleftrightarrow> distinct_keys cl_client_id (clients db)"

lemma batch_ids_stale: "set (batch_ids cutoff db) \<subseteq> stale_ids cutoff db"
  by (auto simp: batch_ids_def stale_ids_def dest!: in_set_takeD)

lemma stale_unique:
  assumes "clients_ok db" and "c \<in> set (clients db)"
  shows "cl_client_id c \<in> stale_ids cutoff db \<longleftrightarrow> cl_last_active c < cutoff"
  using assms
  by (auto simp: stale_ids_def row_simps clients_ok_def dest: distinct_keys_eq)

lemma batch_ids_distinct: "clients_ok db \<Longrightarrow> distinct (batch_ids cutoff db)"
  unfolding batch_ids_def take_map [symmetric]
  by (rule distinct_take)
    (auto simp: clients_ok_def distinct_keys_def distinct_map select_rows_def inj_on_def)

lemma length_batch_ids: "length (batch_ids cutoff db) = min purge_batch_size (length (stale_clients cutoff db))"
  by (simp add: batch_ids_def min.commute)

lemma batch_ids_all:
  assumes "length (batch_ids cutoff db) < purge_batch_size"
  shows "set (batch_ids cutoff db) = stale_ids cutoff db"
proof -
  have "length (stale_clients cutoff db) \<le> purge_batch_size" using assms by (simp add: length_batch_ids)
  then show ?thesis by (simp add: batch_ids_def stale_ids_def)
qed

lemma count_batch:
  assumes "clients_ok db"
  shows "count_rows (\<lambda>c. cl_client_id c \<in> set (batch_ids cutoff db)) (clients db) = length (batch_ids cutoff db)"
proof -
  let ?rows = "filter (\<lambda>c. cl_client_id c \<in> set (batch_ids cutoff db)) (clients db)"
  have "distinct (map cl_client_id ?rows)"
    using assms by (auto simp: clients_ok_def distinct_keys_def distinct_map inj_on_def)
  moreover have "set (map cl_client_id ?rows) = set (batch_ids cutoff db)"
    using batch_ids_stale [of cutoff db] by (auto simp: stale_ids_def row_simps)
  ultimately have "length (map cl_client_id ?rows) = length (batch_ids cutoff db)"
    using batch_ids_distinct [OF assms] by (metis distinct_card)
  then show ?thesis by (simp add: count_rows_def)
qed

lemma without_clients_stale:
  assumes "ids \<subseteq> stale_ids cutoff db"
  shows "stale_ids cutoff (without_clients ids db) = stale_ids cutoff db - ids"
  by (auto simp: stale_ids_def without_clients_def row_simps)

lemma without_clients_ok: "clients_ok db \<Longrightarrow> clients_ok (without_clients ids db)"
  by (simp add: clients_ok_def without_clients_def distinct_keys_delete)

lemma length_stale_without:
  assumes "clients_ok db"
  shows "length (stale_clients cutoff (without_clients (set (batch_ids cutoff db)) db)) + length (batch_ids cutoff db) =
    length (stale_clients cutoff db)"
proof -
  let ?in = "\<lambda>c. cl_client_id c \<in> set (batch_ids cutoff db)"
  have "filter (\<lambda>c. cl_last_active c < cutoff \<and> ?in c) (clients db) = filter ?in (clients db)"
    using batch_ids_stale [of cutoff db] stale_unique [OF assms] by (intro filter_cong) auto
  then have "length (filter ?in (stale_clients cutoff db)) = length (batch_ids cutoff db)"
    using count_batch [OF assms, of cutoff] by (simp add: select_rows_def count_rows_def conj_commute)
  moreover have "stale_clients cutoff (without_clients (set (batch_ids cutoff db)) db) =
      filter (\<lambda>c. \<not> ?in c) (stale_clients cutoff db)"
    by (simp add: without_clients_def select_rows_def delete_rows_def conj_commute)
  ultimately show ?thesis
    using sum_length_filter_compl [of ?in "stale_clients cutoff db"] by simp
qed

lemma belongs_to_Un: "belongs_to (A \<union> B) s \<longleftrightarrow> belongs_to A s \<or> belongs_to B s"
  by (simp add: belongs_to_def split: option.split)

lemma without_clients_Un:
  "without_clients B ((without_clients A db)\<lparr>daily_metrics := rows\<rparr>) =
   (without_clients (A \<union> B) db)\<lparr>daily_metrics := rows\<rparr>"
  by (simp add: without_clients_def delete_rows_def belongs_to_Un)

lemma count_rows_split:
  "count_rows P rows + count_rows Q (delete_rows P rows) = count_rows (\<lambda>r. P r \<or> Q r) rows"
  by (induction rows) (auto simp: count_rows_def delete_rows_def)

lemma forget_ids: "fold (\<lambda>i m. m(i := None)) ids m = (\<lambda>i. if i \<in> set ids then None else m i)"
  by (induction ids arbitrary: m) (auto simp: fun_eq_iff)

lemma apply_batch_simps [simp]:
  "ct_db (apply_batch b db' s) = db'"
  "ct_recent_writes (apply_batch b db' s) =
    (\<lambda>i. if i \<in> set (pb_stale_client_ids b) then None else ct_recent_writes s i)"
  by (simp_all add: apply_batch_def Let_def forget_ids)

lemma purge_batch_exact:
  assumes "clients_ok db" and batch: "purge_stale_subscriptions_batch now today cutoff db = Inr (b, db')"
  shows "pb_stale_client_ids b = batch_ids cutoff db"
    and "pb_deleted_subscriptions b = count_rows (belongs_to (set (batch_ids cutoff db))) (push_subscriptions db)"
    and "pb_deleted_clients b = length (batch_ids cutoff db)"
    and "metric_on adm_stale_clients_purged db' today =
      metric_on adm_stale_clients_purged db today + int (length (batch_ids cutoff db))"
    and "stale_ids cutoff db' = stale_ids cutoff db - set (batch_ids cutoff db)"
    and "length (stale_clients cutoff db') + length (batch_ids cutoff db) = length (stale_clients cutoff db)"
    and "clients_ok db'"
proof -
  show cls: "pb_stale_client_ids b = batch_ids cutoff db"
    "pb_deleted_subscriptions b = count_rows (belongs_to (set (batch_ids cutoff db))) (push_subscriptions db)"
    "pb_deleted_clients b = length (batch_ids cutoff db)"
    using purge_batch_result [OF batch] count_batch [OF assms(1)] by auto
  obtain delta where "upsert_daily_metrics delta now (without_clients (set (batch_ids cutoff db)) db) =
      Inr (pb_today_metrics b, db')"
    "dm_day delta = today" "dm_stale_clients_purged delta = int (pb_deleted_clients b)"
    using purge_batch_result [OF batch] by blast
  then show "metric_on adm_stale_clients_purged db' today =
      metric_on adm_stale_clients_purged db today + int (length (batch_ids cutoff db))"
    using upsert_metric_on [where field = adm_stale_clients_purged and dfield = dm_stale_clients_purged]
    by (simp add: counters_def cls metric_on_def without_clients_def)
  obtain rows where db': "db' = (without_clients (set (batch_ids cutoff db)) db)\<lparr>daily_metrics := rows\<rparr>"
    using purge_batch_tables [OF batch] by blast
  show "stale_ids cutoff db' = stale_ids cutoff db - set (batch_ids cutoff db)"
    using without_clients_stale [OF batch_ids_stale, of cutoff db] by (simp add: db' stale_ids_def)
  show "length (stale_clients cutoff db') + length (batch_ids cutoff db) = length (stale_clients cutoff db)"
    using length_stale_without [OF assms(1), of cutoff] by (simp add: db')
  show "clients_ok db'"
    using without_clients_ok [OF assms(1), of "set (batch_ids cutoff db)"] by (simp add: db' clients_ok_def)
qed

lemma purge_loop_exact:
  assumes "clients_ok (ct_db s)"
    and "purge_loop (\<lambda>_. True) n now today cutoff deleted s = (r, s')"
  shows "(\<exists>rows. ct_db s' = (without_clients (stale_ids cutoff (ct_db s)) (ct_db s))\<lparr>daily_metrics := rows\<rparr>) \<and>
    r = Inr (fst deleted + count_rows (belongs_to (stale_ids cutoff (ct_db s))) (push_subscriptions (ct_db s)),
             snd deleted + length (stale_clients cutoff (ct_db s))) \<and>
    ct_recent_writes s' = (\<lambda>i. if i \<in> stale_ids cutoff (ct_db s) then None else ct_recent_writes s i) \<and>
    metric_on adm_stale_clients_purged (ct_db s') today =
      metric_on adm_stale_clients_purged (ct_db s) today + int (length (stale_clients cutoff (ct_db s)))"
  using assms
proof (induction "\<lambda>_ :: nat. True" n now today cutoff deleted s rule: purge_loop.induct)
  case (1 n now today cutoff deleted s)
  let ?db = "ct_db s"
  let ?ids = "set (batch_ids cutoff ?db)"
  obtain b db' where batch: "purge_stale_subscriptions_batch now today cutoff ?db = Inr (b, db')"
    using purge_batch_never_fails by (metis sum.exhaust prod.exhaust)
  note b = purge_batch_exact [OF "1.prems"(1) batch]
  obtain rows where db': "db' = (without_clients ?ids ?db)\<lparr>daily_metrics := rows\<rparr>"
    using purge_batch_tables [OF batch] by blast
  show ?case
  proof (cases "length (batch_ids cutoff ?db) < purge_batch_size")
    case True
    then have "r = Inr (fst deleted + pb_deleted_subscriptions b, snd deleted + pb_deleted_clients b)"
      "s' = apply_batch b db' s"
      using "1.prems"(2) batch b(1) by (simp_all add: purge_loop.simps [of _ n] Let_def)
    moreover have "length (batch_ids cutoff ?db) = length (stale_clients cutoff ?db)"
      using True by (simp add: length_batch_ids)
    ultimately show ?thesis
      unfolding batch_ids_all [OF True, symmetric]
      by (intro conjI exI [of _ rows]) (simp_all only: apply_batch_simps b db' [symmetric])
  next
    case False
    let ?rest = "stale_ids cutoff ?db - ?ids"
    let ?deleted = "(fst deleted + pb_deleted_subscriptions b, snd deleted + pb_deleted_clients b)"
    have union: "?ids \<union> stale_ids cutoff ?db = stale_ids cutoff ?db"
      using batch_ids_stale [of cutoff ?db] by blast
    have "purge_loop (\<lambda>_. True) (Suc n) now today cutoff ?deleted (apply_batch b db' s) = (r, s')"
      using "1.prems"(2) batch b(1) False by (simp add: purge_loop.simps [of _ n] Let_def)
    then have IH: "(\<exists>rows. ct_db s' = (without_clients ?rest db')\<lparr>daily_metrics := rows\<rparr>) \<and>
        r = Inr (fst ?deleted + count_rows (belongs_to ?rest) (push_subscriptions db'),
                 snd ?deleted + length (stale_clients cutoff db')) \<and>
        ct_recent_writes s' = (\<lambda>i. if i \<in> ?rest then None else if i \<in> ?ids then None else ct_recent_writes s i) \<and>
        metric_on adm_stale_clients_purged (ct_db s') today =
          metric_on adm_stale_clients_purged db' today + int (length (stale_clients cutoff db'))"
      using "1.hyps" [OF _ batch refl refl refl] b False by (simp cong: if_cong)
    have "count_rows (belongs_to ?ids) (push_subscriptions ?db) + count_rows (belongs_to ?rest) (push_subscriptions db') =
        count_rows (belongs_to (stale_ids cutoff ?db)) (push_subscriptions ?db)"
      using count_rows_split [of "belongs_to ?ids" "push_subscriptions ?db" "belongs_to ?rest"]
      unfolding belongs_to_Un [symmetric] by (simp add: db' without_clients_def union)
    moreover have "(without_clients ?rest db')\<lparr>daily_metrics := rs\<rparr> =
        (without_clients (stale_ids cutoff ?db) ?db)\<lparr>daily_metrics := rs\<rparr>" for rs
      by (simp add: db' without_clients_Un union)
    moreover have "(\<lambda>i. if i \<in> ?rest then None else if i \<in> ?ids then None else ct_recent_writes s i) =
        (\<lambda>i. if i \<in> stale_ids cutoff ?db then None else ct_recent_writes s i)"
      using batch_ids_stale [of cutoff ?db] by (auto simp: fun_eq_iff)
    moreover have "snd ?deleted + length (stale_clients cutoff db') = snd deleted + length (stale_clients cutoff ?db)"
      using b(3,6) by simp
    moreover have "metric_on adm_stale_clients_purged db' today + int (length (stale_clients cutoff db')) =
        metric_on adm_stale_clients_purged ?db today + int (length (stale_clients cutoff ?db))"
      using b(4,6) by simp
    ultimately show ?thesis using IH b(2) by (simp only: fst_conv add.assoc)
  qed
qed

section \<open>What a write records\<close>

lemma recorded_client_id [simp]: "cl_client_id (recorded_client uid i v now c) = i"
  by (simp add: recorded_client_def)

lemma upsert_client_eq:
  "upsert_client uid client_id app_version now db =
   (let new = recorded_client uid client_id app_version now
    in (cl_last_app_version (new (client_of db client_id)),
        db\<lparr>clients := upsert_row (\<lambda>c. cl_client_id c = client_id) (new (client_of db client_id))
          (\<lambda>c. new (Some c)) (clients db)\<rparr>))"
  by (cases app_version; cases "client_of db client_id")
    (auto simp: upsert_client_def Let_def recorded_client_def upsert_row_def update_rows_def)

lemma record_activity_tx_result:
  assumes "record_activity_tx uid client_id app_version now db = Inr ((version, today_metrics, moved), db')"
  obtains rows where
    "version = cl_last_app_version (recorded_client uid client_id app_version now (client_of db client_id))"
    "moved \<longleftrightarrow> (\<exists>c. client_of db client_id = Some c \<and> cl_last_active_uid c \<noteq> uid)"
    "db' = db
      \<lparr>clients := upsert_row (\<lambda>c. cl_client_id c = client_id)
         (recorded_client uid client_id app_version now (client_of db client_id))
         (\<lambda>c. recorded_client uid client_id app_version now (Some c)) (clients db),
       push_subscriptions := (if moved then update_rows (\<lambda>s. ps_client_id s = Some client_id)
         (\<lambda>s. s\<lparr>ps_user_id := uid\<rparr>) (push_subscriptions db) else push_subscriptions db),
       user_extras := insert_or_ignore (\<lambda>r. ux_uid r = uid)
         (user_extra_row_of (new_user_extra_new uid now)) (user_extras db),
       daily_metrics := rows\<rparr>"
    "upsert_daily_metrics (activity_delta (day_of now) uid (client_of db client_id)
       (\<not> exists_row (\<lambda>r. ux_uid r = uid) (user_extras db))) now (db'\<lparr>daily_metrics := daily_metrics db\<rparr>) =
       Inr (today_metrics, db')"
proof -
  let ?moved = "case client_of db client_id of None \<Rightarrow> False | Some c \<Rightarrow> cl_last_active_uid c \<noteq> uid"
  let ?db1 = "if ?moved then db\<lparr>push_subscriptions := update_rows (\<lambda>s. ps_client_id s = Some client_id)
      (\<lambda>s. s\<lparr>ps_user_id := uid\<rparr>) (push_subscriptions db)\<rparr> else db"
  have same: "clients ?db1 = clients db" "user_extras ?db1 = user_extras db" by simp_all
  let ?db3 = "?db1\<lparr>clients := upsert_row (\<lambda>c. cl_client_id c = client_id)
         (recorded_client uid client_id app_version now (client_of db client_id))
         (\<lambda>c. recorded_client uid client_id app_version now (Some c)) (clients db),
       user_extras := insert_or_ignore (\<lambda>r. ux_uid r = uid)
         (user_extra_row_of (new_user_extra_new uid now)) (user_extras db)\<rparr>"
  have up: "upsert_daily_metrics (activity_delta (day_of now) uid (client_of db client_id)
       (\<not> exists_row (\<lambda>r. ux_uid r = uid) (user_extras db))) now ?db3 = Inr (today_metrics, db')"
    and version: "version = cl_last_app_version (recorded_client uid client_id app_version now (client_of db client_id))"
    and moved: "moved = ?moved"
    using assms unfolding record_activity_tx_def Let_def upsert_client_eq same
    by (auto simp: result_simps simp del: if_split_asm)
  obtain rows where db': "db' = ?db3\<lparr>daily_metrics := rows\<rparr>" using upsert_daily_metrics_tables [OF up] by blast
  show ?thesis
  proof (rule that [OF version])
    show "moved \<longleftrightarrow> (\<exists>c. client_of db client_id = Some c \<and> cl_last_active_uid c \<noteq> uid)"
      by (simp add: moved split: option.split)
    show "db' = db
      \<lparr>clients := upsert_row (\<lambda>c. cl_client_id c = client_id)
         (recorded_client uid client_id app_version now (client_of db client_id))
         (\<lambda>c. recorded_client uid client_id app_version now (Some c)) (clients db),
       push_subscriptions := (if moved then update_rows (\<lambda>s. ps_client_id s = Some client_id)
         (\<lambda>s. s\<lparr>ps_user_id := uid\<rparr>) (push_subscriptions db) else push_subscriptions db),
       user_extras := insert_or_ignore (\<lambda>r. ux_uid r = uid)
         (user_extra_row_of (new_user_extra_new uid now)) (user_extras db),
       daily_metrics := rows\<rparr>"
      unfolding db' moved by (cases ?moved) simp_all
    have "db'\<lparr>daily_metrics := daily_metrics db\<rparr> = ?db3" unfolding db' by (cases ?moved) simp_all
    with up show "upsert_daily_metrics (activity_delta (day_of now) uid (client_of db client_id)
       (\<not> exists_row (\<lambda>r. ux_uid r = uid) (user_extras db))) now (db'\<lparr>daily_metrics := daily_metrics db\<rparr>) =
       Inr (today_metrics, db')" by (simp only:)
  qed
qed

section \<open>Runs of the service\<close>

datatype tracking_op =
    Activity uid ustr "ustr option" timestamp int int bool bool
  | Purge_Batch timestamp timestamp bool

fun ct_exec :: "tracking_op \<Rightarrow> tracking_state \<Rightarrow> tracking_state" where
  "ct_exec (Activity uid client_id app_version now instant written_at conn_ok tx_ok) s =
     snd (record_client_activity uid client_id app_version now instant written_at conn_ok tx_ok s)"
| "ct_exec (Purge_Batch now cutoff ok) s =
     (if \<not> ok then s
      else case purge_stale_subscriptions_batch now (day_of now) cutoff (ct_db s) of
          Inl _ \<Rightarrow> s | Inr (b, db') \<Rightarrow> apply_batch b db' s)"

text \<open>A cache entry repeats what the database holds for the client.\<close>

definition cache_entry_ok :: "tables \<Rightarrow> ustr \<Rightarrow> cached_activity \<Rightarrow> bool" where
  "cache_entry_ok db client_id e \<longleftrightarrow>
     (\<exists>c. client_of db client_id = Some c \<and> cl_last_active_uid c = ca_uid e \<and>
        day_of (cl_last_active c) = ca_day e \<and> cl_last_app_version c = ca_last_app_version e) \<and>
     ca_uid e \<in> ux_uid ` set (user_extras db)"

definition tracking_ok :: "tracking_state \<Rightarrow> bool" where
  "tracking_ok s \<longleftrightarrow> clients_ok (ct_db s) \<and> metrics_ok (ct_db s) \<and>
     (\<forall>client_id e. ct_recent_writes s client_id = Some e \<longrightarrow> cache_entry_ok (ct_db s) client_id e)"

lemma record_activity_tx_tables:
  assumes "record_activity_tx uid client_id app_version now db = Inr ((version, today_metrics, moved), db')"
  shows "clients db' = upsert_row (\<lambda>c. cl_client_id c = client_id)
      (recorded_client uid client_id app_version now (client_of db client_id))
      (\<lambda>c. recorded_client uid client_id app_version now (Some c)) (clients db)"
    and "push_subscriptions db' = (if moved then update_rows (\<lambda>s. ps_client_id s = Some client_id)
      (\<lambda>s. s\<lparr>ps_user_id := uid\<rparr>) (push_subscriptions db) else push_subscriptions db)"
    and "user_extras db' = insert_or_ignore (\<lambda>r. ux_uid r = uid)
      (user_extra_row_of (new_user_extra_new uid now)) (user_extras db)"
proof -
  obtain rows where db': "db' = db
      \<lparr>clients := upsert_row (\<lambda>c. cl_client_id c = client_id)
         (recorded_client uid client_id app_version now (client_of db client_id))
         (\<lambda>c. recorded_client uid client_id app_version now (Some c)) (clients db),
       push_subscriptions := (if moved then update_rows (\<lambda>s. ps_client_id s = Some client_id)
         (\<lambda>s. s\<lparr>ps_user_id := uid\<rparr>) (push_subscriptions db) else push_subscriptions db),
       user_extras := insert_or_ignore (\<lambda>r. ux_uid r = uid)
         (user_extra_row_of (new_user_extra_new uid now)) (user_extras db),
       daily_metrics := rows\<rparr>"
    by (rule record_activity_tx_result [OF assms], rule that, assumption)
  show "clients db' = upsert_row (\<lambda>c. cl_client_id c = client_id)
      (recorded_client uid client_id app_version now (client_of db client_id))
      (\<lambda>c. recorded_client uid client_id app_version now (Some c)) (clients db)"
    unfolding db' by simp
  show "push_subscriptions db' = (if moved then update_rows (\<lambda>s. ps_client_id s = Some client_id)
      (\<lambda>s. s\<lparr>ps_user_id := uid\<rparr>) (push_subscriptions db) else push_subscriptions db)"
    unfolding db' by simp
  show "user_extras db' = insert_or_ignore (\<lambda>r. ux_uid r = uid)
      (user_extra_row_of (new_user_extra_new uid now)) (user_extras db)"
    unfolding db' by simp
qed

lemma record_activity_tx_version:
  assumes "record_activity_tx uid client_id app_version now db = Inr ((version, today_metrics, moved), db')"
  shows "version = cl_last_app_version (recorded_client uid client_id app_version now (client_of db client_id))"
    and "moved \<longleftrightarrow> (\<exists>c. client_of db client_id = Some c \<and> cl_last_active_uid c \<noteq> uid)"
  by (rule record_activity_tx_result [OF assms], assumption)+

lemma client_after_tx:
  assumes "record_activity_tx uid client_id app_version now db = Inr ((version, today_metrics, moved), db')"
  shows "client_of db' i =
    (if i = client_id then Some (recorded_client uid client_id app_version now (client_of db client_id))
     else client_of db i)"
  unfolding record_activity_tx_tables(1) [OF assms]
  by (subst client_table.find_upsert_rewrite) (simp_all split: option.split)

lemma clients_ok_after_tx:
  assumes "record_activity_tx uid client_id app_version now db = Inr ((version, today_metrics, moved), db')"
    and "clients_ok db"
  shows "clients_ok db'"
  using assms(2) unfolding clients_ok_def record_activity_tx_tables(1) [OF assms(1)]
  by (rule client_table.distinct_upsert_rewrite) simp_all

lemma users_after_tx:
  assumes "record_activity_tx uid client_id app_version now db = Inr ((version, today_metrics, moved), db')"
  shows "u \<in> ux_uid ` set (user_extras db') \<longleftrightarrow> u = uid \<or> u \<in> ux_uid ` set (user_extras db)"
  by (auto simp: record_activity_tx_tables(3) [OF assms] insert_or_ignore_def exists_row_iff
      user_extra_row_of_def new_user_extra_new_def)

lemma record_activity_tx_never_fails: "record_activity_tx uid client_id app_version now db \<noteq> Inl e"
  by (auto simp: record_activity_tx_def Let_def result_simps upsert_daily_metrics_never_fails split: prod.split)

text \<open>Every step of the service is a transaction that stores its cache entry, a purged batch, or
  leaves the tables and the cache alone.\<close>

lemma ct_exec_cases:
  obtains (idle) "ct_db (ct_exec x s) = ct_db s" "ct_recent_writes (ct_exec x s) = ct_recent_writes s"
  | (stored) uid client_id app_version now written_at version today_metrics moved db' where
      "record_activity_tx uid client_id app_version now (ct_db s) = Inr ((version, today_metrics, moved), db')"
      "ct_db (ct_exec x s) = db'"
      "ct_recent_writes (ct_exec x s) = (ct_recent_writes s)(client_id \<mapsto>
         \<lparr>ca_last_written_at = written_at, ca_uid = uid, ca_day = day_of now, ca_last_app_version = version\<rparr>)"
  | (purge) now cutoff b db' where
      "purge_stale_subscriptions_batch now (day_of now) cutoff (ct_db s) = Inr (b, db')"
      "ct_exec x s = apply_batch b db' s"
proof (cases x)
  case (Activity uid client_id app_version now instant written_at conn_ok tx_ok)
  obtain version today_metrics moved db' where
    tx: "record_activity_tx uid client_id app_version now (ct_db s) = Inr ((version, today_metrics, moved), db')"
    using record_activity_tx_never_fails by (metis sum.exhaust prod.exhaust)
  have "(ct_db (ct_exec x s) = ct_db s \<and> ct_recent_writes (ct_exec x s) = ct_recent_writes s) \<or>
      (ct_db (ct_exec x s) = db' \<and> ct_recent_writes (ct_exec x s) = (ct_recent_writes s)(client_id \<mapsto>
         \<lparr>ca_last_written_at = written_at, ca_uid = uid, ca_day = day_of now, ca_last_app_version = version\<rparr>))"
    by (simp add: Activity record_client_activity_def tx Let_def)
  then show ?thesis using idle stored [OF tx] by blast
next
  case (Purge_Batch now cutoff ok)
  obtain b db' where batch: "purge_stale_subscriptions_batch now (day_of now) cutoff (ct_db s) = Inr (b, db')"
    using purge_batch_never_fails by (metis sum.exhaust prod.exhaust)
  have "ct_exec x s = s \<or> ct_exec x s = apply_batch b db' s" by (simp add: Purge_Batch batch)
  then show ?thesis using idle purge [OF batch] by metis
qed

lemma cache_after_tx:
  assumes "record_activity_tx uid client_id app_version now db = Inr ((version, today_metrics, moved), db')"
    and "cache_entry_ok db i e" and "i \<noteq> client_id"
  shows "cache_entry_ok db' i e"
proof -
  have "client_of db' i = client_of db i" using assms(3) by (simp add: client_after_tx [OF assms(1)])
  moreover have "ca_uid e \<in> ux_uid ` set (user_extras db')"
    unfolding users_after_tx [OF assms(1)] using assms(2) by (auto simp: cache_entry_ok_def)
  ultimately show ?thesis using assms(2) by (auto simp: cache_entry_ok_def)
qed

lemma new_cache_entry_ok:
  assumes "record_activity_tx uid client_id app_version now db = Inr ((version, today_metrics, moved), db')"
  shows "cache_entry_ok db' client_id
    \<lparr>ca_last_written_at = w, ca_uid = uid, ca_day = day_of now, ca_last_app_version = version\<rparr>"
proof -
  note record_activity_tx_version(1) [OF assms]
  then show ?thesis
    using users_after_tx [OF assms, of uid]
    by (auto simp: cache_entry_ok_def client_after_tx [OF assms] recorded_client_def image_iff)
qed

lemma cache_after_purge:
  assumes "purge_stale_subscriptions_batch now today cutoff db = Inr (b, db')"
    and "cache_entry_ok db i e" and "i \<notin> set (pb_stale_client_ids b)"
  shows "cache_entry_ok db' i e"
proof -
  obtain rows where db': "db' = (without_clients (set (batch_ids cutoff db)) db)\<lparr>daily_metrics := rows\<rparr>"
    using purge_batch_tables [OF assms(1)] by blast
  have "i \<notin> set (batch_ids cutoff db)" using assms(3) purge_batch_result [OF assms(1)] by simp
  moreover have "first_row (\<lambda>c. cl_client_id c = i) (delete_rows (\<lambda>c. cl_client_id c \<in> ids) rows) =
      first_row (\<lambda>c. cl_client_id c = i) rows" if "i \<notin> ids" for ids and rows :: "client_record list"
    using that by (induction rows) (auto simp: delete_rows_def)
  ultimately have "client_of db' i = client_of db i" by (simp add: db' without_clients_def)
  then show ?thesis using assms(2) by (simp add: cache_entry_ok_def db' without_clients_def)
qed

lemma tracking_ok_step: "tracking_ok s \<Longrightarrow> tracking_ok (ct_exec x s)"
proof (cases x s rule: ct_exec_cases)
  case idle
  then show "tracking_ok s \<Longrightarrow> ?thesis" by (simp add: tracking_ok_def)
next
  case (stored uid client_id app_version now written_at version today_metrics moved db')
  assume ok: "tracking_ok s"
  have "metrics_ok db'"
  proof (rule record_activity_tx_result [OF stored(1)])
    assume "upsert_daily_metrics (activity_delta (day_of now) uid (client_of (ct_db s) client_id)
        (\<not> exists_row (\<lambda>r. ux_uid r = uid) (user_extras (ct_db s)))) now
        (db'\<lparr>daily_metrics := daily_metrics (ct_db s)\<rparr>) = Inr (today_metrics, db')"
    then show ?thesis
      by (rule upsert_daily_metrics_ok [rotated]) (use ok in \<open>simp add: tracking_ok_def metrics_ok_def\<close>)
  qed
  then show ?thesis
    using ok stored(2,3) clients_ok_after_tx [OF stored(1)] new_cache_entry_ok [OF stored(1)]
      cache_after_tx [OF stored(1)]
    by (auto simp: tracking_ok_def split: if_splits)
next
  case (purge now cutoff b db')
  assume ok: "tracking_ok s"
  have "metrics_ok (without_clients (set (batch_ids cutoff (ct_db s))) (ct_db s))"
    using ok by (simp add: tracking_ok_def metrics_ok_def without_clients_def)
  then have "metrics_ok db'" using purge_batch_result [OF purge(1)] upsert_daily_metrics_ok by blast
  then show ?thesis
    using ok purge_batch_exact(7) [OF _ purge(1)] cache_after_purge [OF purge(1)]
    by (auto simp: tracking_ok_def purge(2))
qed

interpretation tracking: total_machine ct_exec tracking_ok
  by unfold_locales (rule tracking_ok_step)

section \<open>Bookkeeping of the rollup\<close>

text \<open>Clients and accounts that the counters do not account for.\<close>

definition client_balance :: "tables \<Rightarrow> int" where
  "client_balance db = metric_total adm_new_clients db - metric_total adm_stale_clients_purged db -
     int (length (clients db))"

definition user_balance :: "tables \<Rightarrow> int" where
  "user_balance db = metric_total adm_new_users db - int (length (user_extras db))"

lemma counters_mem:
  "(adm_new_clients, dm_new_clients) \<in> counters"
  "(adm_stale_clients_purged, dm_stale_clients_purged) \<in> counters"
  "(adm_new_users, dm_new_users) \<in> counters"
  by (simp_all add: counters_def)

lemma metric_total_update:
  assumes "metrics_ok db3" and "upsert_daily_metrics delta now db3 = Inr (t, db')"
    and "metric_total adm_new_clients db3 = c" "metric_total adm_stale_clients_purged db3 = p"
      "metric_total adm_new_users db3 = u"
  shows "metric_total adm_new_clients db' = c + dm_new_clients delta"
    and "metric_total adm_stale_clients_purged db' = p + dm_stale_clients_purged delta"
    and "metric_total adm_new_users db' = u + dm_new_users delta"
  using upsert_metric_total [OF assms(1) counters_mem(1) assms(2)]
    upsert_metric_total [OF assms(1) counters_mem(2) assms(2)]
    upsert_metric_total [OF assms(1) counters_mem(3) assms(2)] assms(3-5) by simp_all

lemma balance_step:
  assumes "tracking_ok s"
  shows "client_balance (ct_db (ct_exec x s)) = client_balance (ct_db s) \<and>
    user_balance (ct_db (ct_exec x s)) = user_balance (ct_db s)"
proof (cases x s rule: ct_exec_cases)
  case idle
  then show ?thesis by simp
next
  case (stored uid client_id app_version now written_at version today_metrics moved db')
  let ?db = "ct_db s"
  have up: "upsert_daily_metrics (activity_delta (day_of now) uid (client_of ?db client_id)
      (\<not> exists_row (\<lambda>r. ux_uid r = uid) (user_extras ?db))) now (db'\<lparr>daily_metrics := daily_metrics ?db\<rparr>) =
      Inr (today_metrics, db')"
    by (rule record_activity_tx_result [OF stored(1)])
  have "metrics_ok (db'\<lparr>daily_metrics := daily_metrics ?db\<rparr>)"
    using assms by (simp add: tracking_ok_def metrics_ok_def)
  note totals = metric_total_update [OF this up refl refl refl]
  have "length (clients db') = length (clients ?db) + of_bool (client_of ?db client_id = None)"
    unfolding record_activity_tx_tables(1) [OF stored(1)] by (simp add: upsert_row_def exists_row_first)
  moreover have "length (user_extras db') =
      length (user_extras ?db) + of_bool (\<not> exists_row (\<lambda>r. ux_uid r = uid) (user_extras ?db))"
    unfolding record_activity_tx_tables(3) [OF stored(1)] by (simp add: insert_or_ignore_def)
  ultimately show ?thesis
    using totals by (simp add: stored(2) client_balance_def user_balance_def activity_delta_def metric_total_def)
next
  case (purge now cutoff b db')
  let ?db = "ct_db s"
  let ?without = "without_clients (set (batch_ids cutoff ?db)) ?db"
  obtain delta where up: "upsert_daily_metrics delta now ?without = Inr (pb_today_metrics b, db')"
    and delta: "dm_new_clients delta = 0" "dm_new_users delta = 0"
      "dm_stale_clients_purged delta = int (pb_deleted_clients b)"
    and deleted: "pb_deleted_clients b = count_rows (\<lambda>c. cl_client_id c \<in> set (batch_ids cutoff ?db)) (clients ?db)"
    using purge_batch_result [OF purge(1)] by blast
  have "metrics_ok ?without" using assms by (simp add: tracking_ok_def metrics_ok_def without_clients_def)
  note totals = metric_total_update [OF this up refl refl refl]
  obtain rows where db': "db' = ?without\<lparr>daily_metrics := rows\<rparr>" using purge_batch_tables [OF purge(1)] by blast
  have "int (length (clients db')) = int (length (clients ?db)) - int (pb_deleted_clients b)"
    using sum_length_filter_compl [of "\<lambda>c. cl_client_id c \<in> set (batch_ids cutoff ?db)" "clients ?db"]
    by (simp add: db' without_clients_def delete_rows_def deleted count_rows_def)
  moreover have "user_extras db' = user_extras ?db" by (simp add: db' without_clients_def)
  ultimately show ?thesis
    using totals delta
    by (simp add: purge(2) client_balance_def user_balance_def) (simp add: metric_total_def without_clients_def)
qed

section \<open>Properties\<close>


text \<open>Throttling never loses anything but the time of last activity: after any run, the
  write that a throttled request skips would have kept account, version, rollup and push
  subscriptions as they are.\<close>

theorem throttled_write_redundant:
  assumes "tracking_ok s" and "ct_recent_writes (fold ct_exec ops s) client_id = Some e"
    and "throttled uid app_version (day_of now) instant e"
  shows "\<exists>db'. record_activity_tx uid client_id app_version now (ct_db (fold ct_exec ops s)) =
      Inr ((ca_last_app_version e, None, False), db') \<and>
    db' = (ct_db (fold ct_exec ops s))\<lparr>clients := clients db'\<rparr> \<and>
    (\<forall>i. client_of db' i = map_option (\<lambda>c. if i = client_id then c\<lparr>cl_last_active := now\<rparr> else c)
       (client_of (ct_db (fold ct_exec ops s)) i))"
proof -
  let ?db = "ct_db (fold ct_exec ops s)"
  have "tracking_ok (fold ct_exec ops s)" by (rule tracking.run_inv) (rule assms(1))
  then have "cache_entry_ok ?db client_id e" using assms(2) by (simp add: tracking_ok_def)
  then obtain c where c: "client_of ?db client_id = Some c" "cl_last_active_uid c = ca_uid e"
      "day_of (cl_last_active c) = ca_day e" "cl_last_app_version c = ca_last_app_version e"
    and user: "exists_row (\<lambda>r. ux_uid r = ca_uid e) (user_extras ?db)"
    by (auto simp: cache_entry_ok_def exists_row_iff) metis
  have e: "ca_uid e = uid" "ca_day e = day_of now"
    and version: "app_version = None \<or> app_version = ca_last_app_version e"
    using assms(3) by (auto simp: throttled_def app_version_changed_def split: option.splits)
  have id: "cl_client_id c = client_id" using first_row_Some [OF c(1)] by simp
  have new: "recorded_client uid client_id app_version now (Some c) = c\<lparr>cl_last_active := now\<rparr>"
    using c e version id by (auto simp: recorded_client_def split: option.split)
  obtain v t moved db' where tx: "record_activity_tx uid client_id app_version now ?db = Inr ((v, t, moved), db')"
    using record_activity_tx_never_fails by (metis sum.exhaust prod.exhaust)
  have moved: "moved = False" and v: "v = ca_last_app_version e"
    using record_activity_tx_version [OF tx] c e by (simp_all add: c(1) new)
  have "activity_delta (day_of now) uid (client_of ?db client_id) (\<not> exists_row (\<lambda>r. ux_uid r = uid) (user_extras ?db)) =
      activity_delta (day_of now) uid (Some c) False"
    using user by (simp add: c(1) e)
  moreover have "is_zero (activity_delta (day_of now) uid (Some c) False)"
    using c e by (simp add: is_zero_def activity_delta_def)
  moreover have "upsert_daily_metrics (activity_delta (day_of now) uid (client_of ?db client_id)
      (\<not> exists_row (\<lambda>r. ux_uid r = uid) (user_extras ?db))) now (db'\<lparr>daily_metrics := daily_metrics ?db\<rparr>) =
      Inr (t, db')"
    by (rule record_activity_tx_result [OF tx])
  ultimately have t: "t = None" and same: "db'\<lparr>daily_metrics := daily_metrics ?db\<rparr> = db'"
    by (simp_all add: upsert_daily_metrics_def)
  have "daily_metrics (db'\<lparr>daily_metrics := daily_metrics ?db\<rparr>) = daily_metrics db'" by (simp only: same)
  then have metrics: "daily_metrics db' = daily_metrics ?db" by simp
  obtain X P U rows where shape: "db' = ?db\<lparr>clients := X, push_subscriptions := P, user_extras := U, daily_metrics := rows\<rparr>"
    by (rule record_activity_tx_result [OF tx], rule that, assumption)
  have "push_subscriptions db' = push_subscriptions ?db" "user_extras db' = user_extras ?db"
    using user e by (simp_all add: record_activity_tx_tables(2,3) [OF tx] moved insert_or_ignore_def)
  then have "P = push_subscriptions ?db" "U = user_extras ?db" "rows = daily_metrics ?db" "X = clients db'"
    using metrics by (simp_all add: shape)
  then have "db' = ?db\<lparr>clients := clients db'\<rparr>"
    using shape by (cases ?db) simp
  moreover have "client_of db' i = map_option (\<lambda>c. if i = client_id then c\<lparr>cl_last_active := now\<rparr> else c)
      (client_of ?db i)" for i
    by (simp add: client_after_tx [OF tx] c(1) new option.map_ident)
  ultimately show ?thesis using tx by (simp add: moved v t)
qed

text \<open>C31: A purge returns, and removes exactly the clients unused for 45 days and their push
  subscriptions: it reports their numbers, adds the clients to today's rollup, and forgets the
  cached writes of exactly those clients.\<close>

theorem purge_exact:
  assumes "clients_ok (ct_db s)" and "purge_stale_subscriptions (\<lambda>_. True) now s = (r, s')"
  shows "clients (ct_db s') = filter (\<lambda>c. now - stale_client_retention \<le> cl_last_active c) (clients (ct_db s)) \<and>
    push_subscriptions (ct_db s') =
      filter (\<lambda>p. \<not> belongs_to (stale_ids (now - stale_client_retention) (ct_db s)) p) (push_subscriptions (ct_db s)) \<and>
    user_extras (ct_db s') = user_extras (ct_db s) \<and>
    r = Inr (length (push_subscriptions (ct_db s)) - length (push_subscriptions (ct_db s')),
             length (clients (ct_db s)) - length (clients (ct_db s'))) \<and>
    ct_recent_writes s' = ct_recent_writes s |` (- stale_ids (now - stale_client_retention) (ct_db s)) \<and>
    metric_on adm_stale_clients_purged (ct_db s') (day_of now) =
      metric_on adm_stale_clients_purged (ct_db s) (day_of now) +
      int (length (clients (ct_db s)) - length (clients (ct_db s')))"
proof -
  let ?db = "ct_db s" and ?cutoff = "now - stale_client_retention"
  let ?stale = "stale_ids ?cutoff ?db"
  note exact = purge_loop_exact [OF assms(1) assms(2) [unfolded purge_stale_subscriptions_def]]
  then obtain rows where db': "ct_db s' = (without_clients ?stale ?db)\<lparr>daily_metrics := rows\<rparr>" by blast
  have clients: "clients (ct_db s') = filter (\<lambda>c. ?cutoff \<le> cl_last_active c) (clients ?db)"
    unfolding db' using stale_unique [OF assms(1), of _ ?cutoff]
    by (auto simp: without_clients_def delete_rows_def intro!: filter_cong)
  have subs: "push_subscriptions (ct_db s') = filter (\<lambda>p. \<not> belongs_to ?stale p) (push_subscriptions ?db)"
    by (simp add: db' without_clients_def delete_rows_def)
  have "length (stale_clients ?cutoff ?db) = length (clients ?db) - length (clients (ct_db s'))"
    unfolding clients using sum_length_filter_compl [of "\<lambda>c. cl_last_active c < ?cutoff" "clients ?db"]
    by (simp add: select_rows_def not_less)
  moreover have "count_rows (belongs_to ?stale) (push_subscriptions ?db) =
      length (push_subscriptions ?db) - length (push_subscriptions (ct_db s'))"
    unfolding subs using sum_length_filter_compl [of "belongs_to ?stale" "push_subscriptions ?db"]
    by (simp add: count_rows_def)
  moreover have "user_extras (ct_db s') = user_extras ?db" by (simp add: db' without_clients_def)
  moreover have "(\<lambda>i. if i \<in> ?stale then None else ct_recent_writes s i) = ct_recent_writes s |` (- ?stale)"
    by (auto simp: fun_eq_iff restrict_map_def)
  ultimately show ?thesis using exact clients subs by simp
qed

section \<open>Examples\<close>

text \<open>Client \<open>[97]\<close> of account 7 was used on day 100 and is cached; \<open>[98]\<close> is stale.\<close>

definition sample_client :: "ustr \<Rightarrow> timestamp \<Rightarrow> client_record" where
  "sample_client i t = \<lparr>cl_client_id = i, cl_created_at = 0, cl_last_active = t, cl_last_active_uid = 7,
     cl_last_app_version = Some [49]\<rparr>"

definition sample_tracking :: tracking_state where
  "sample_tracking = \<lparr>ct_pending = [],
     ct_db = empty_tables
       \<lparr>user_extras := [user_extra_row_of (new_user_extra_new 7 0)],
        clients := [sample_client [97] (100 * nanos_per_day), sample_client [98] 0]\<rparr>,
     ct_metrics = empty_metrics,
     ct_recent_writes = [[97] \<mapsto> \<lparr>ca_last_written_at = 0, ca_uid = 7, ca_day = 100,
       ca_last_app_version = Some [49]\<rparr>]\<rparr>"

lemmas sample_tracking_simps = sample_tracking_def sample_client_def empty_tables_def user_extra_row_of_def
  new_user_extra_new_def

lemma sample_tracking_ok: "tracking_ok sample_tracking"
  by (simp add: tracking_ok_def clients_ok_def metrics_ok_def distinct_keys_def cache_entry_ok_def
      sample_tracking_simps day_of_def nanos_per_day_def)


lemma throttled_write_redundant_witness:
  "\<exists>db'. record_activity_tx 7 [97] None (100 * nanos_per_day + 9) (ct_db sample_tracking) =
     Inr ((Some [49], None, False), db') \<and>
     map_option cl_last_active (client_of db' [97]) = Some (100 * nanos_per_day + 9)"
proof -
  let ?e = "\<lparr>ca_last_written_at = 0, ca_uid = 7, ca_day = 100, ca_last_app_version = Some [49]\<rparr>"
  have entry: "ct_recent_writes (fold ct_exec [] sample_tracking) [97] = Some ?e" by (simp add: sample_tracking_def)
  have skip: "throttled 7 None (day_of (100 * nanos_per_day + 9)) 60 ?e"
    by (simp add: throttled_def app_version_changed_def activity_write_throttle_def day_of_def nanos_per_day_def)
  obtain db' where db': "record_activity_tx 7 [97] None (100 * nanos_per_day + 9) (ct_db sample_tracking) =
      Inr ((Some [49], None, False), db')"
    and found: "client_of db' [97] = map_option (\<lambda>c. c\<lparr>cl_last_active := 100 * nanos_per_day + 9\<rparr>)
      (client_of (ct_db sample_tracking) [97])"
    using throttled_write_redundant [OF sample_tracking_ok entry skip] by auto
  show ?thesis using db' by (simp add: found) (simp add: sample_tracking_simps)
qed

lemma purge_exact_witness:
  "map cl_client_id (clients (ct_db (snd (purge_stale_subscriptions (\<lambda>_. True) (100 * nanos_per_day) sample_tracking)))) =
     [[97]]"
proof -
  obtain r s' where run: "purge_stale_subscriptions (\<lambda>_. True) (100 * nanos_per_day) sample_tracking = (r, s')"
    by fastforce
  have "clients_ok (ct_db sample_tracking)" using sample_tracking_ok by (simp add: tracking_ok_def)
  from purge_exact [OF this run] show ?thesis
    by (simp add: run) (simp add: sample_tracking_simps stale_client_retention_def nanos_per_day_def)
qed

end
