(* ===== verification/Rpc_Protocol.thy ===== *)
theory Rpc_Protocol
  imports Models
begin

text \<open>
  \<open>backend/src/rpc/error.rs\<close> and \<open>backend/src/rpc/protocol.rs\<close>: the JSON-RPC 2.0 envelope of
  the session protocol. The text of a message is parsed by \<open>serde_json\<close>, a parameter
  (\<open>parse_json\<close>, \<open>None\<close> for malformed text); everything after that is here.
\<close>

section \<open>Error codes\<close>

datatype rpc_error_code =
    ParseError | InvalidRequest | MethodNotFound | InvalidParams | DispatcherInternal
  | CodeBadRequest | CodeUnauthorized | CodeForbidden | CodeNotFound | CodeConflict | CodeGone
  | CodePayloadTooLarge | CodeSpeakingRestricted | Unavailable | CodeInternal | Overloaded

definition all_codes :: "rpc_error_code list" where
  "all_codes =
     [ParseError, InvalidRequest, MethodNotFound, InvalidParams, DispatcherInternal,
      CodeBadRequest, CodeUnauthorized, CodeForbidden, CodeNotFound, CodeConflict, CodeGone,
      CodePayloadTooLarge, CodeSpeakingRestricted, Unavailable, CodeInternal, Overloaded]"

fun code_i32 :: "rpc_error_code \<Rightarrow> int" where
  "code_i32 ParseError = - 32700"
| "code_i32 InvalidRequest = - 32600"
| "code_i32 MethodNotFound = - 32601"
| "code_i32 InvalidParams = - 32602"
| "code_i32 DispatcherInternal = - 32603"
| "code_i32 CodeBadRequest = 1000"
| "code_i32 CodeUnauthorized = 1001"
| "code_i32 CodeForbidden = 1003"
| "code_i32 CodeNotFound = 1004"
| "code_i32 CodeConflict = 1009"
| "code_i32 CodeGone = 1010"
| "code_i32 CodePayloadTooLarge = 1013"
| "code_i32 CodeSpeakingRestricted = 1103"
| "code_i32 Unavailable = 1503"
| "code_i32 CodeInternal = 1500"
| "code_i32 Overloaded = 1429"

fun code_message :: "rpc_error_code \<Rightarrow> string" where
  "code_message ParseError = ''Parse error''"
| "code_message InvalidRequest = ''Invalid Request''"
| "code_message MethodNotFound = ''Method not found''"
| "code_message InvalidParams = ''Invalid params''"
| "code_message DispatcherInternal = ''Internal error''"
| "code_message CodeBadRequest = ''Bad request''"
| "code_message CodeUnauthorized = ''Unauthorized''"
| "code_message CodeForbidden = ''Forbidden''"
| "code_message CodeNotFound = ''Not found''"
| "code_message CodeConflict = ''Conflict''"
| "code_message CodeGone = ''Gone''"
| "code_message CodePayloadTooLarge = ''Payload too large''"
| "code_message CodeSpeakingRestricted = ''Speaking is restricted''"
| "code_message Unavailable = ''Service unavailable''"
| "code_message CodeInternal = ''Internal error''"
| "code_message Overloaded = ''Too many requests''"

text \<open>The HTTP status and the label a failure is counted under.\<close>

fun metric_status :: "rpc_error_code \<Rightarrow> nat" where
  "metric_status ParseError = 400"
| "metric_status InvalidRequest = 400"
| "metric_status InvalidParams = 400"
| "metric_status CodeBadRequest = 400"
| "metric_status MethodNotFound = 404"
| "metric_status CodeNotFound = 404"
| "metric_status DispatcherInternal = 500"
| "metric_status CodeInternal = 500"
| "metric_status CodeUnauthorized = 401"
| "metric_status CodeForbidden = 403"
| "metric_status CodeSpeakingRestricted = 403"
| "metric_status CodeConflict = 409"
| "metric_status CodeGone = 410"
| "metric_status CodePayloadTooLarge = 413"
| "metric_status Unavailable = 503"
| "metric_status Overloaded = 429"

fun metric_code :: "rpc_error_code \<Rightarrow> string" where
  "metric_code ParseError = ''-32700''"
| "metric_code InvalidRequest = ''-32600''"
| "metric_code MethodNotFound = ''-32601''"
| "metric_code InvalidParams = ''-32602''"
| "metric_code DispatcherInternal = ''-32603''"
| "metric_code CodeBadRequest = ''1000''"
| "metric_code CodeUnauthorized = ''1001''"
| "metric_code CodeForbidden = ''1003''"
| "metric_code CodeNotFound = ''1004''"
| "metric_code CodeConflict = ''1009''"
| "metric_code CodeGone = ''1010''"
| "metric_code CodePayloadTooLarge = ''1013''"
| "metric_code CodeSpeakingRestricted = ''1103''"
| "metric_code Unavailable = ''1503''"
| "metric_code CodeInternal = ''1500''"
| "metric_code Overloaded = ''1429''"

section \<open>Errors\<close>

datatype rpc_lifecycle_failure = Revoked | AuthLookupUnavailable

fun lifecycle_code :: "rpc_lifecycle_failure \<Rightarrow> rpc_error_code" where
  "lifecycle_code Revoked = CodeUnauthorized"
| "lifecycle_code AuthLookupUnavailable = Unavailable"

fun lifecycle_message :: "rpc_lifecycle_failure \<Rightarrow> string" where
  "lifecycle_message Revoked = ''Session revoked''"
| "lifecycle_message AuthLookupUnavailable = ''Auth lookup unavailable''"

record rpc_error =
  re_code :: rpc_error_code
  re_message :: string
  re_data :: "json option"
  re_lifecycle :: "rpc_lifecycle_failure option"

definition rpc_error_new :: "rpc_error_code \<Rightarrow> rpc_error" where
  "rpc_error_new code =
     \<lparr>re_code = code, re_message = code_message code, re_data = None, re_lifecycle = None\<rparr>"

definition rpc_error_with_message :: "rpc_error_code \<Rightarrow> string \<Rightarrow> rpc_error" where
  "rpc_error_with_message code message =
     \<lparr>re_code = code, re_message = message, re_data = None, re_lifecycle = None\<rparr>"

definition rpc_error_of_lifecycle :: "rpc_lifecycle_failure \<Rightarrow> rpc_error" where
  "rpc_error_of_lifecycle f =
     \<lparr>re_code = lifecycle_code f, re_message = lifecycle_message f, re_data = None,
      re_lifecycle = Some f\<rparr>"

fun speaking_mode_name :: "speaking_mode \<Rightarrow> string" where
  "speaking_mode_name Unrestricted = ''unrestricted''"
| "speaking_mode_name ThreadsOnly = ''threadsOnly''"
| "speaking_mode_name RepliesOnly = ''repliesOnly''"
| "speaking_mode_name ReadOnly = ''readOnly''"

fun rpc_error_of :: "app_error \<Rightarrow> rpc_error" where
  "rpc_error_of (BadRequest m) = rpc_error_with_message CodeBadRequest m"
| "rpc_error_of (Unauthorized m) = rpc_error_with_message CodeUnauthorized m"
| "rpc_error_of (Forbidden m) = rpc_error_with_message CodeForbidden m"
| "rpc_error_of (NotFound m) = rpc_error_with_message CodeNotFound m"
| "rpc_error_of (Conflict m) = rpc_error_with_message CodeConflict m"
| "rpc_error_of (Gone m) = rpc_error_with_message CodeGone m"
| "rpc_error_of (PayloadTooLarge m) = rpc_error_with_message CodePayloadTooLarge m"
| "rpc_error_of (ServiceUnavailable m) = rpc_error_with_message Unavailable m"
| "rpc_error_of (Internal m) = rpc_error_with_message CodeInternal m"
| "rpc_error_of (SpeakingRestricted mode) =
     \<lparr>re_code = CodeSpeakingRestricted, re_message = ''Speaking is restricted'',
      re_data = Some (JObj [(ascii ''code'', JStr (ascii ''speakingRestricted'')),
                            (ascii ''effectiveSpeakingMode'', JStr (ascii (speaking_mode_name mode)))]),
      re_lifecycle = None\<rparr>"
| "rpc_error_of DbPool = rpc_error_with_message CodeInternal ''Database connection failed''"
| "rpc_error_of (DbQuery _) = rpc_error_with_message CodeInternal ''Database error''"

section \<open>Envelopes\<close>

datatype rpc_id = IdString ustr | IdNumber number | IdNull

text \<open>
  \<open>number.fract() == 0.0\<close> holds for the integral rationals, and \<open>number as i64\<close> is then the
  integer itself.
\<close>

definition integral :: "rat \<Rightarrow> bool" where
  "integral q \<longleftrightarrow> of_int \<lfloor>q\<rfloor> = q"

fun rpc_id_from_value :: "json \<Rightarrow> rpc_id option" where
  "rpc_id_from_value JNull = Some IdNull"
| "rpc_id_from_value (JStr s) = Some (IdString s)"
| "rpc_id_from_value (JNumber (Integer i)) = Some (IdNumber (Integer i))"
| "rpc_id_from_value (JNumber (Float q)) =
     Some (IdNumber
       (if integral q \<and> - 9223372036854775808 \<le> q \<and> q < 9223372036854775808
        then Integer \<lfloor>q\<rfloor>
        else if integral q \<and> 0 \<le> q \<and> q < 18446744073709551616 then Integer \<lfloor>q\<rfloor>
        else Float q))"
| "rpc_id_from_value _ = None"

record rpc_call =
  rc_id :: "rpc_id option"
  rc_method :: ustr
  rc_params :: "json option"

datatype rpc_outcome = Success json | Failure rpc_error

record rpc_response =
  rr_id :: rpc_id
  rr_outcome :: rpc_outcome

datatype rpc_item = ItemCall rpc_call | ItemInvalid rpc_response | ItemResponse

datatype rpc_message = Single rpc_item | Batch "rpc_item list"

definition response_success :: "rpc_id \<Rightarrow> json \<Rightarrow> rpc_response" where
  "response_success i v = \<lparr>rr_id = i, rr_outcome = Success v\<rparr>"

definition response_error :: "rpc_id \<Rightarrow> rpc_error \<Rightarrow> rpc_response" where
  "response_error i e = \<lparr>rr_id = i, rr_outcome = Failure e\<rparr>"

definition invalid_request :: rpc_response where
  "invalid_request = response_error IdNull (rpc_error_new InvalidRequest)"

definition lifecycle_failure :: "rpc_response \<Rightarrow> rpc_lifecycle_failure option" where
  "lifecycle_failure r = (case rr_outcome r of Success _ \<Rightarrow> None | Failure e \<Rightarrow> re_lifecycle e)"

section \<open>Parsing\<close>

definition contains_key :: "(ustr \<times> json) list \<Rightarrow> string \<Rightarrow> bool" where
  "contains_key obj k \<longleftrightarrow> map_of obj (ascii k) \<noteq> None"

fun parse_item :: "json \<Rightarrow> rpc_item" where
  "parse_item (JObj obj) =
     (if \<not> contains_key obj ''method'' \<and> (contains_key obj ''result'' \<or> contains_key obj ''error'')
      then ItemResponse
      else if Option.bind (map_of obj (ascii ''jsonrpc'')) json_as_str \<noteq> Some (ascii ''2.0'')
      then ItemInvalid invalid_request
      else case map_of obj (ascii ''method'') of
        Some (JStr method) \<Rightarrow>
          (case map_of obj (ascii ''id'') of
             None \<Rightarrow> ItemCall \<lparr>rc_id = None, rc_method = method,
                               rc_params = map_of obj (ascii ''params'')\<rparr>
           | Some v \<Rightarrow>
               (case rpc_id_from_value v of
                  None \<Rightarrow> ItemInvalid invalid_request
                | Some i \<Rightarrow> ItemCall \<lparr>rc_id = Some i, rc_method = method,
                                      rc_params = map_of obj (ascii ''params'')\<rparr>))
      | _ \<Rightarrow> ItemInvalid invalid_request)"
| "parse_item _ = ItemInvalid invalid_request"

definition parse_message ::
  "('t \<Rightarrow> json option) \<Rightarrow> 't \<Rightarrow> nat \<Rightarrow> rpc_response + rpc_message" where
  "parse_message parse_json text max_batch_items =
     (case parse_json text of
        None \<Rightarrow> Inl (response_error IdNull (rpc_error_new ParseError))
      | Some (JArr items) \<Rightarrow>
          (if items = [] \<or> length items > max_batch_items then Inl invalid_request
           else Inr (Batch (map parse_item items)))
      | Some v \<Rightarrow> Inr (Single (parse_item v)))"

definition decode_params :: "(json \<Rightarrow> 'a option) \<Rightarrow> json option \<Rightarrow> rpc_error + 'a" where
  "decode_params from_value params =
     and_then
       (case params of
          None \<Rightarrow> Inr (JObj [])
        | Some (JObj obj) \<Rightarrow> Inr (JObj obj)
        | Some _ \<Rightarrow> Inl (rpc_error_new InvalidParams))
       (\<lambda>v. ok_or (from_value v) (rpc_error_new InvalidParams))"

section \<open>Serialization\<close>

text \<open>The JSON values of the \<open>Serialize\<close> instances.\<close>

fun rpc_id_json :: "rpc_id \<Rightarrow> json" where
  "rpc_id_json (IdString s) = JStr s"
| "rpc_id_json (IdNumber n) = JNumber n"
| "rpc_id_json IdNull = JNull"

definition rpc_error_json :: "rpc_error \<Rightarrow> json" where
  "rpc_error_json e =
     JObj ([(ascii ''code'', JNumber (Integer (code_i32 (re_code e)))),
            (ascii ''message'', JStr (ascii (re_message e)))] @
           (case re_data e of None \<Rightarrow> [] | Some d \<Rightarrow> [(ascii ''data'', d)]))"

definition rpc_response_json :: "rpc_response \<Rightarrow> json" where
  "rpc_response_json r =
     JObj [(ascii ''jsonrpc'', JStr (ascii ''2.0'')),
           (ascii ''id'', rpc_id_json (rr_id r)),
           (case rr_outcome r of
              Success v \<Rightarrow> (ascii ''result'', v)
            | Failure e \<Rightarrow> (ascii ''error'', rpc_error_json e))]"

section \<open>Ids\<close>

text \<open>The value a JSON number denotes, and the integers a \<open>Number\<close> can hold.\<close>

fun number_value :: "number \<Rightarrow> rat" where
  "number_value (Integer i) = of_int i"
| "number_value (Float q) = q"

fun number_ok :: "number \<Rightarrow> bool" where
  "number_ok (Integer i) \<longleftrightarrow> - 9223372036854775808 \<le> i \<and> i < 18446744073709551616"
| "number_ok (Float q) \<longleftrightarrow> True"

text \<open>The ids that \<open>from_value\<close> returns: no double that an integer could stand for.\<close>

fun canonical_id :: "rpc_id \<Rightarrow> bool" where
  "canonical_id (IdNumber (Float q)) \<longleftrightarrow>
     \<not> (integral q \<and> - 9223372036854775808 \<le> q \<and> q < 18446744073709551616)"
| "canonical_id _ \<longleftrightarrow> True"

lemma integral_of_int [simp]: "integral (of_int i)"
  by (simp add: integral_def)

lemma from_value_canonical: "rpc_id_from_value v = Some i \<Longrightarrow> canonical_id i"
  by (cases v rule: rpc_id_from_value.cases) (auto split: if_splits)

lemma from_value_id_json: "canonical_id i \<Longrightarrow> rpc_id_from_value (rpc_id_json i) = Some i"
  by (cases i rule: canonical_id.cases) auto

lemma from_value_Float:
  "rpc_id_from_value (JNumber (Float q)) =
     Some (IdNumber (if integral q \<and> - 9223372036854775808 \<le> q \<and> q < 18446744073709551616
       then Integer \<lfloor>q\<rfloor> else Float q))"
  by auto

lemma integral_floor: "integral q \<Longrightarrow> of_int \<lfloor>q\<rfloor> = q"
  by (simp add: integral_def)

lemma from_value_number:
  assumes "number_ok n"
  obtains m where "rpc_id_from_value (JNumber n) = Some (IdNumber m)"
    and "number_value m = number_value n" and "number_ok m" and "canonical_id (IdNumber m)"
proof (cases n)
  case (Integer i)
  with assms show thesis by (intro that [of n]) simp_all
next
  case (Float q)
  show thesis
  proof (cases "integral q \<and> - 9223372036854775808 \<le> q \<and> q < 18446744073709551616")
    case True
    then have q: "of_int \<lfloor>q\<rfloor> = q" by (simp add: integral_def)
    have "- 9223372036854775808 \<le> \<lfloor>q\<rfloor>" "\<lfloor>q\<rfloor> < 18446744073709551616"
      using True by (simp_all add: le_floor_iff floor_less_iff)
    with True q show thesis
      by (intro that [of "Integer \<lfloor>q\<rfloor>"]) (simp_all add: Float from_value_Float del: rpc_id_from_value.simps)
  next
    case False
    then show thesis
      by (intro that [of "Float q"]) (auto simp: Float from_value_Float simp del: rpc_id_from_value.simps)
  qed
qed

lemma canonical_numbers_eq:
  assumes "number_value m = number_value n" and "number_ok m" and "number_ok n"
    and "canonical_id (IdNumber m)" and "canonical_id (IdNumber n)"
  shows "m = n"
proof (cases m; cases n)
  fix i q assume "m = Integer i" "n = Float q"
  with assms integral_of_int [of i] show ?thesis by (auto simp del: integral_of_int)
next
  fix i q assume "m = Float q" "n = Integer i"
  with assms integral_of_int [of i] show ?thesis by (auto simp del: integral_of_int)
qed (use assms in simp_all)

lemma parse_item_call:
  assumes "parse_item v = ItemCall c" and "rc_id c = Some i"
  shows "canonical_id i"
proof -
  from assms(1) obtain obj where v: "v = JObj obj" by (cases v) simp_all
  from assms(1) obtain name where m: "map_of obj (ascii ''method'') = Some (JStr name)"
    unfolding v by (auto split: if_split_asm option.split_asm json.split_asm simp del: rpc_id_from_value.simps)
  have "(case map_of obj (ascii ''id'') of None \<Rightarrow> rc_id c = None | Some w \<Rightarrow> rpc_id_from_value w = rc_id c)"
    using assms(1) unfolding v
    by (auto simp: m split: if_split_asm option.split_asm)
  with assms(2) have "\<exists>w. rpc_id_from_value w = Some i" by (auto split: option.splits)
  then show ?thesis by (auto dest: from_value_canonical)
qed

section \<open>Properties\<close>

text \<open>C32: Numeric request ids denote values, not spellings: two JSON numbers give the same id
  exactly when they are numerically equal, however they were written (1 and 1.0), over the
  whole range of integers and doubles. So a client cannot have two outstanding calls under one
  number, and never has two different numbers confused.\<close>

theorem rpc_ids_denote_values:
  assumes "number_ok m" and "number_ok n"
  shows "rpc_id_from_value (JNumber m) = rpc_id_from_value (JNumber n) \<longleftrightarrow>
    number_value m = number_value n"
proof -
  obtain m' where m: "rpc_id_from_value (JNumber m) = Some (IdNumber m')"
    "number_value m' = number_value m" "number_ok m'" "canonical_id (IdNumber m')"
    by (rule from_value_number [OF assms(1)])
  obtain n' where n: "rpc_id_from_value (JNumber n) = Some (IdNumber n')"
    "number_value n' = number_value n" "number_ok n'" "canonical_id (IdNumber n')"
    by (rule from_value_number [OF assms(2)])
  have "m' = n' \<longleftrightarrow> number_value m = number_value n"
    using canonical_numbers_eq [of m' n'] m n by auto
  with m n show ?thesis by simp
qed

theorem rpc_ids_denote_values_witness:
  "rpc_id_from_value (JNumber (Integer 1)) = rpc_id_from_value (JNumber (Float 1)) \<and>
   rpc_id_from_value (JNumber (Integer 1)) \<noteq> rpc_id_from_value (JNumber (Float (3 / 2)))"
  using rpc_ids_denote_values [of "Integer 1" "Float 1"]
    rpc_ids_denote_values [of "Integer 1" "Float (3 / 2)"]
  by (simp del: rpc_id_from_value.simps)

text \<open>C33: Answers correlate: whatever a request's id was, the id in the serialized answer reads
  back as exactly that id, and an answer (successful or not) is itself classified as a response,
  so it is never answered when it is echoed back.\<close>

theorem response_correlates:
  assumes "parse_item v = ItemCall c" and "rc_id c = Some (rr_id r)"
  shows "(\<exists>obj. rpc_response_json r = JObj obj \<and>
      Option.bind (map_of obj (ascii ''id'')) rpc_id_from_value = rc_id c) \<and>
    parse_item (rpc_response_json r) = ItemResponse"
proof
  from from_value_id_json [OF parse_item_call [OF assms]] assms(2)
  show "\<exists>obj. rpc_response_json r = JObj obj \<and>
      Option.bind (map_of obj (ascii ''id'')) rpc_id_from_value = rc_id c"
    by (simp add: rpc_response_json_def ascii_def del: rpc_id_from_value.simps)
  show "parse_item (rpc_response_json r) = ItemResponse"
    by (cases "rr_outcome r") (simp_all add: rpc_response_json_def contains_key_def ascii_def)
qed

definition sample_call_object :: "(ustr \<times> json) list" where
  "sample_call_object =
     [(ascii ''id'', JNumber (Float 7)), (ascii ''jsonrpc'', JStr (ascii ''2.0'')),
      (ascii ''method'', JStr (ascii ''session.ping''))]"

theorem response_correlates_witness:
  "(\<exists>obj. rpc_response_json (response_success (IdNumber (Integer 7)) JNull) = JObj obj \<and>
      Option.bind (map_of obj (ascii ''id'')) rpc_id_from_value = Some (IdNumber (Integer 7))) \<and>
   parse_item (rpc_response_json (response_success (IdNumber (Integer 7)) JNull)) = ItemResponse"
proof -
  have "parse_item (JObj sample_call_object) =
      ItemCall \<lparr>rc_id = Some (IdNumber (Integer 7)), rc_method = ascii ''session.ping'', rc_params = None\<rparr>"
    by (simp add: sample_call_object_def contains_key_def ascii_def json_as_str_def integral_def)
  from response_correlates [OF this, of "response_success (IdNumber (Integer 7)) JNull"] show ?thesis
    by (simp add: response_success_def)
qed

fun message_items :: "rpc_message \<Rightarrow> rpc_item list" where
  "message_items (Single x) = [x]"
| "message_items (Batch xs) = xs"

fun item_ids :: "rpc_item \<Rightarrow> rpc_id list" where
  "item_ids (ItemCall c) = (case rc_id c of None \<Rightarrow> [] | Some i \<Rightarrow> [i])"
| "item_ids _ = []"

lemma parse_item_ids: "list_all canonical_id (item_ids (parse_item v))"
  by (cases "parse_item v") (auto dest: parse_item_call split: option.split)

text \<open>C34: Every text is classified: malformed text, and an empty or too long batch, give exactly
  one error with a null id; everything else is a message whose batch is within the limit and
  whose calls carry canonical ids, so that equality of ids is equality of their values.\<close>

theorem parse_message_well_formed:
  "case parse_message parse_json text n of
     Inl r \<Rightarrow>
       (case parse_json text of
          None \<Rightarrow> r = response_error IdNull (rpc_error_new ParseError)
        | Some (JArr items) \<Rightarrow> r = invalid_request \<and> (items = [] \<or> n < length items)
        | Some _ \<Rightarrow> False)
   | Inr m \<Rightarrow>
       list_all canonical_id (concat (map item_ids (message_items m))) \<and>
       (case m of Single _ \<Rightarrow> True | Batch xs \<Rightarrow> 0 < length xs \<and> length xs \<le> n)"
proof (cases "parse_json text")
  case None
  then show ?thesis by (simp add: parse_message_def)
next
  case (Some v)
  have batch: "list_all canonical_id (concat (map item_ids (map parse_item items)))" for items
    by (induction items) (simp_all add: parse_item_ids)
  show ?thesis
  proof (cases "\<exists>items. v = JArr items")
    case True
    then obtain items where "v = JArr items" ..
    with Some batch [of items] show ?thesis by (simp add: parse_message_def not_le)
  next
    case False
    with Some have "parse_message parse_json text n = Inr (Single (parse_item v))"
      by (cases v) (simp_all add: parse_message_def)
    then show ?thesis by (simp add: parse_item_ids)
  qed
qed

end
