(* ===== verification/Ttl_Cache.thy ===== *)
theory Ttl_Cache
  imports Prelude
begin

text \<open>
  Read-through caches with a time to live, as \<open>services/token_generation.rs\<close> and
  \<open>services/authz.rs\<close> keep them in front of the database. A miss reads the database and
  stores the answer afterwards; other requests, other instances and database changes may run
  between the two. The locale states what such a cache promises about one key; its lemma
  bounds how long an answer that the database no longer gives can still be served.
\<close>

record ('c, 'db, 'k, 'v) cache_run =
  cr_cache :: 'c
  cr_db :: 'db
  cr_now :: int
  cr_loads :: "('k \<times> 'v \<times> int) list" \<comment> \<open>answers read, with the time of reading, not stored yet\<close>

datatype ('k, 'op) cache_event =
    Pass nat       \<comment> \<open>time passes\<close>
  | Read 'k        \<comment> \<open>a request reads the database\<close>
  | Keep nat       \<comment> \<open>the request of that number stores what it read\<close>
  | Change 'op     \<comment> \<open>the database changes, by this or any other instance\<close>

definition remove_nth :: "nat \<Rightarrow> 'a list \<Rightarrow> 'a list" where
  "remove_nth i xs = take i xs @ drop (Suc i) xs"

text \<open>A request that took longer than \<open>latency\<close> between reading and storing was cancelled.\<close>

fun cache_exec ::
  "('db \<Rightarrow> 'k \<Rightarrow> 'v) \<Rightarrow> ('k \<Rightarrow> 'v \<Rightarrow> int \<Rightarrow> 'c \<Rightarrow> 'c) \<Rightarrow> ('op \<Rightarrow> 'db \<Rightarrow> 'db) \<Rightarrow> int \<Rightarrow>
   ('k, 'op) cache_event \<Rightarrow> ('c, 'db, 'k, 'v) cache_run \<Rightarrow> ('c, 'db, 'k, 'v) cache_run" where
  "cache_exec load store apply_op latency (Pass d) s = s\<lparr>cr_now := cr_now s + int d\<rparr>"
| "cache_exec load store apply_op latency (Read k) s =
     s\<lparr>cr_loads := cr_loads s @ [(k, load (cr_db s) k, cr_now s)]\<rparr>"
| "cache_exec load store apply_op latency (Keep i) s =
     (if i < length (cr_loads s)
      then let (k, v, t) = cr_loads s ! i; s' = s\<lparr>cr_loads := remove_nth i (cr_loads s)\<rparr>
           in if cr_now s \<le> t + latency
              then s'\<lparr>cr_cache := store k v (cr_now s) (cr_cache s)\<rparr> else s'
      else s)"
| "cache_exec load store apply_op latency (Change f) s = s\<lparr>cr_db := apply_op f (cr_db s)\<rparr>"

lemma set_remove_nth: "set (remove_nth i xs) \<subseteq> set xs"
  unfolding remove_nth_def by (auto dest: in_set_takeD in_set_dropD)

text \<open>
  \<open>cached k t c\<close> is the answer that cache \<open>c\<close> gives for \<open>k\<close> at time \<open>t\<close> without asking the
  database.
\<close>

locale ttl_cache =
  fixes cached :: "'k \<Rightarrow> int \<Rightarrow> 'c \<Rightarrow> 'v option"
    and store :: "'k \<Rightarrow> 'v \<Rightarrow> int \<Rightarrow> 'c \<Rightarrow> 'c"
    and ttl :: int
  assumes cached_store_same: "cached k t (store k v now c) = Some w \<Longrightarrow> w = v \<and> t \<le> now + ttl"
    and cached_store_other: "cached k t (store k' v now c) = Some w \<Longrightarrow> k \<noteq> k' \<Longrightarrow> cached k t c = Some w"
begin

definition timely :: "('c, 'db, 'k, 'v) cache_run \<Rightarrow> bool" where
  "timely s \<longleftrightarrow> (\<forall>k t v. cached k t (cr_cache s) = Some v \<longrightarrow> t \<le> cr_now s + ttl) \<and>
     (\<forall>k v t. (k, v, t) \<in> set (cr_loads s) \<longrightarrow> t \<le> cr_now s)"

text \<open>From time \<open>T\<close> on the database gives no \<open>stale\<close> answer for \<open>k\<close>.\<close>

definition expiring ::
  "('db \<Rightarrow> 'k \<Rightarrow> 'v) \<Rightarrow> int \<Rightarrow> 'k \<Rightarrow> ('v \<Rightarrow> bool) \<Rightarrow> int \<Rightarrow> ('c, 'db, 'k, 'v) cache_run \<Rightarrow> bool" where
  "expiring load latency k stale T s \<longleftrightarrow>
     (\<forall>t v. cached k t (cr_cache s) = Some v \<longrightarrow> stale v \<longrightarrow> t \<le> T + latency + ttl) \<and>
     (\<forall>v t. (k, v, t) \<in> set (cr_loads s) \<longrightarrow> stale v \<longrightarrow> t \<le> T) \<and> \<not> stale (load (cr_db s) k)"

lemma timely_expiring:
  "timely s \<Longrightarrow> 0 \<le> latency \<Longrightarrow> \<not> stale (load (cr_db s) k) \<Longrightarrow>
   expiring load latency k stale (cr_now s) s"
  by (fastforce simp: timely_def expiring_def)

lemma expiring_exec:
  assumes "expiring load latency k stale T s"
    and "\<And>f. e = Change f \<Longrightarrow> \<not> stale (load (apply_op f (cr_db s)) k)"
  shows "expiring load latency k stale T (cache_exec load store apply_op latency e s)"
proof (cases e)
  case (Keep i)
  show ?thesis
  proof (cases "i < length (cr_loads s)")
    case True
    obtain k' v t0 where load: "cr_loads s ! i = (k', v, t0)" by (cases "cr_loads s ! i")
    with True have mem: "(k', v, t0) \<in> set (cr_loads s)" by (metis nth_mem)
    have kept: "t \<le> T + latency + ttl"
      if "cr_now s \<le> t0 + latency" "cached k t (store k' v (cr_now s) (cr_cache s)) = Some w" "stale w"
      for t w
    proof (cases "k = k'")
      case True
      with that(2) have "w = v \<and> t \<le> cr_now s + ttl" using cached_store_same by blast
      moreover from this that(3) mem True assms(1) have "t0 \<le> T" by (auto simp: expiring_def)
      ultimately show ?thesis using that(1) by simp
    next
      case False
      with that assms(1) show ?thesis by (auto simp: expiring_def dest: cached_store_other)
    qed
    from True assms(1) kept set_remove_nth [of i "cr_loads s"] show ?thesis
      by (auto simp: Keep load expiring_def Let_def)
  next
    case False
    with assms(1) show ?thesis by (simp add: Keep)
  qed
qed (use assms in \<open>auto simp: expiring_def\<close>)

lemma expiring_run:
  assumes "\<And>f db. Change f \<in> set es \<Longrightarrow> \<not> stale (load db k) \<Longrightarrow> \<not> stale (load (apply_op f db) k)"
  shows "expiring load latency k stale T s \<Longrightarrow>
    expiring load latency k stale T (fold (cache_exec load store apply_op latency) es s)"
  using assms
proof (induction es arbitrary: s)
  case Nil
  then show ?case by simp
next
  case (Cons e es)
  have "expiring load latency k stale T (cache_exec load store apply_op latency e s)"
    by (rule expiring_exec [OF Cons.prems(1)])
      (use Cons.prems in \<open>auto simp: expiring_def\<close>)
  from Cons.IH [OF this] Cons.prems(2) show ?case by simp
qed

lemma stale_answers_expire:
  assumes "timely s" and "0 \<le> latency" and "\<not> stale (load (cr_db s) k)"
    and "\<And>f db. Change f \<in> set es \<Longrightarrow> \<not> stale (load db k) \<Longrightarrow> \<not> stale (load (apply_op f db) k)"
    and "s' = fold (cache_exec load store apply_op latency) es s"
    and "cr_now s + latency + ttl < cr_now s'"
  shows "\<not> stale (load (cr_db s') k) \<and> (\<forall>v. cached k (cr_now s') (cr_cache s') = Some v \<longrightarrow> \<not> stale v)"
proof -
  have "expiring load latency k stale (cr_now s) s"
    by (rule timely_expiring) (use assms(1-3) in simp_all)
  then have "expiring load latency k stale (cr_now s) s'"
    unfolding assms(5) by (rule expiring_run [rotated]) (use assms(4) in blast)
  with assms(6) show ?thesis by (fastforce simp: expiring_def)
qed

end

end
