(* ===== verification/Authentication.thy ===== *)
theory Authentication
  imports Rpc_Protocol Ttl_Cache Social "HOL-Library.Finite_Map"
begin

text \<open>
  Sessions: \<open>backend/src/services/auth_token.rs\<close> (session tokens; the JWT library is the pair
  of parameters \<open>jwt_encode\<close> and \<open>jwt_decode\<close>, from and to a key id and claims),
  \<open>services/token_generation.rs\<close> (the generation whose increment revokes a user's sessions,
  and its cache), and the session part of \<open>services/authentication.rs\<close> and
  \<open>services/api/auth.rs\<close>. A \<open>DashMap\<close> is a finite map; monotonic instants are nanoseconds.
\<close>

section \<open>Tokens\<close>

datatype token_version = Legacy | V2

record verified_session =
  vs_uid :: uid
  vs_client_id :: ustr
  vs_generation :: int
  vs_version :: token_version

datatype auth_token_error = InvalidToken | IssueFailed

fun app_error_of_token :: "auth_token_error \<Rightarrow> app_error" where
  "app_error_of_token InvalidToken = Unauthorized ''Invalid auth token''"
| "app_error_of_token IssueFailed = Internal ''Failed to create auth token''"

record legacy_claims =
  lc_uid :: uid
  lc_cid :: ustr
  lc_gen :: int

record session_claims_v2 =
  sc_ver :: int
  sc_uid :: uid
  sc_cid :: ustr
  sc_gen :: int
  sc_iat :: int

text \<open>
  Derived \<open>Deserialize\<close>: an integer type takes integer numbers within its range; a struct takes
  an object with all its fields, or an array of exactly its fields in order.
\<close>

definition json_int :: "int \<Rightarrow> int \<Rightarrow> json \<Rightarrow> int option" where
  "json_int lo hi v =
     (case v of JNumber (Integer i) \<Rightarrow> if lo \<le> i \<and> i < hi then Some i else None | _ \<Rightarrow> None)"

definition json_i32 :: "json \<Rightarrow> int option" where
  "json_i32 = json_int (- (2 ^ 31)) (2 ^ 31)"

definition struct_fields :: "string list \<Rightarrow> json \<Rightarrow> json list option" where
  "struct_fields names v =
     (case v of
        JObj obj \<Rightarrow> those (map (\<lambda>n. map_of obj (ascii n)) names)
      | JArr items \<Rightarrow> if length items = length names then Some items else None
      | _ \<Rightarrow> None)"

definition legacy_claims_of :: "json \<Rightarrow> legacy_claims option" where
  "legacy_claims_of v =
     (case struct_fields [''uid'', ''cid'', ''gen''] v of
        Some [u, c, g] \<Rightarrow>
          Option.bind (json_i32 u) (\<lambda>uid. Option.bind (json_as_str c) (\<lambda>cid.
            map_option (\<lambda>gen. \<lparr>lc_uid = uid, lc_cid = cid, lc_gen = gen\<rparr>) (json_i32 g)))
      | _ \<Rightarrow> None)"

definition session_claims_v2_of :: "json \<Rightarrow> session_claims_v2 option" where
  "session_claims_v2_of v =
     (case struct_fields [''ver'', ''uid'', ''cid'', ''gen'', ''iat''] v of
        Some [w, u, c, g, t] \<Rightarrow>
          Option.bind (json_int 0 256 w) (\<lambda>ver. Option.bind (json_i32 u) (\<lambda>uid.
          Option.bind (json_as_str c) (\<lambda>cid. Option.bind (json_i32 g) (\<lambda>gen.
            map_option (\<lambda>iat. \<lparr>sc_ver = ver, sc_uid = uid, sc_cid = cid, sc_gen = gen, sc_iat = iat\<rparr>)
              (json_int 0 (2 ^ 64) t)))))
      | _ \<Rightarrow> None)"

definition jwt_v2_key_id :: ustr where
  "jwt_v2_key_id = ascii ''v2-1''"

definition jwt_version_v2 :: int where
  "jwt_version_v2 = 2"

definition max_future_iat_seconds :: int where
  "max_future_iat_seconds = 60"

definition validate_v2_claims :: "int \<Rightarrow> session_claims_v2 \<Rightarrow> auth_token_error + unit" where
  "validate_v2_claims unix_timestamp claims =
     guard_or (\<not> (sc_ver claims \<noteq> jwt_version_v2 \<or> sc_gen claims < 0 \<or>
       sc_iat claims > min (unix_timestamp + max_future_iat_seconds) (2 ^ 64 - 1))) InvalidToken"

definition has_version :: "json \<Rightarrow> bool" where
  "has_version claims = (case claims of JObj obj \<Rightarrow> contains_key obj ''ver'' | _ \<Rightarrow> False)"

definition verify_token ::
  "('tok \<Rightarrow> (ustr option \<times> json) option) \<Rightarrow> int \<Rightarrow> 'tok \<Rightarrow> auth_token_error + verified_session" where
  "verify_token jwt_decode unix_timestamp token =
     and_then (ok_or (jwt_decode token) InvalidToken) (\<lambda>(kid, claims).
       if has_version claims then
         if kid \<noteq> Some jwt_v2_key_id then Inl InvalidToken
         else and_then (ok_or (session_claims_v2_of claims) InvalidToken) (\<lambda>c.
              and_then (validate_v2_claims unix_timestamp c) (\<lambda>_.
                Inr \<lparr>vs_uid = sc_uid c, vs_client_id = sc_cid c, vs_generation = sc_gen c,
                     vs_version = V2\<rparr>))
       else if kid = Some jwt_v2_key_id then Inl InvalidToken
       else and_then (ok_or (legacy_claims_of claims) InvalidToken) (\<lambda>c.
              Inr \<lparr>vs_uid = lc_uid c, vs_client_id = lc_cid c, vs_generation = lc_gen c,
                   vs_version = Legacy\<rparr>))"

definition issue_session ::
  "(ustr option \<Rightarrow> json \<Rightarrow> 'tok option) \<Rightarrow> int \<Rightarrow> uid \<Rightarrow> ustr \<Rightarrow> int \<Rightarrow> auth_token_error + 'tok" where
  "issue_session jwt_encode unix_timestamp uid client_id generation =
     ok_or (jwt_encode (Some jwt_v2_key_id)
       (JObj [(ascii ''ver'', JNumber (Integer jwt_version_v2)), (ascii ''uid'', JNumber (Integer uid)),
              (ascii ''cid'', JStr client_id), (ascii ''gen'', JNumber (Integer generation)),
              (ascii ''iat'', JNumber (Integer unix_timestamp))])) IssueFailed"

definition issue_legacy_session ::
  "(ustr option \<Rightarrow> json \<Rightarrow> 'tok option) \<Rightarrow> uid \<Rightarrow> ustr \<Rightarrow> int \<Rightarrow> auth_token_error + 'tok" where
  "issue_legacy_session jwt_encode uid client_id generation =
     ok_or (jwt_encode None
       (JObj [(ascii ''uid'', JNumber (Integer uid)), (ascii ''cid'', JStr client_id),
              (ascii ''gen'', JNumber (Integer generation))])) IssueFailed"

section \<open>Token generations\<close>

record cached_generation =
  cg_generation :: int
  cg_cached_at :: int

type_synonym generation_cache = "(uid, cached_generation) fmap"

definition generation_cache_ttl :: int where
  "generation_cache_ttl = 30 * 10 ^ 9"

definition generation_prune_threshold :: nat where
  "generation_prune_threshold = 4096"

definition generation_prune_max_age :: int where
  "generation_prune_max_age = 15 * 60 * 10 ^ 9"

definition load_generation :: "tables \<Rightarrow> uid \<Rightarrow> int" where
  "load_generation db uid =
     (case first_row (\<lambda>r. ux_uid r = uid) (user_extras db) of None \<Rightarrow> 0 | Some r \<Rightarrow> ux_token_gen r)"

definition prune_stale_generations :: "int \<Rightarrow> generation_cache \<Rightarrow> generation_cache" where
  "prune_stale_generations now c =
     (if fcard (fmdom c) < generation_prune_threshold then c
      else fmfilter (\<lambda>uid. \<exists>e \<in> set_option (fmlookup c uid).
             now - cg_cached_at e \<le> generation_prune_max_age) c)"

definition store_generation :: "uid \<Rightarrow> int \<Rightarrow> int \<Rightarrow> generation_cache \<Rightarrow> generation_cache" where
  "store_generation uid generation now c =
     prune_stale_generations now
       (fmupd uid \<lparr>cg_generation = generation, cg_cached_at = now\<rparr> c)"

definition cached_generation :: "uid \<Rightarrow> int \<Rightarrow> generation_cache \<Rightarrow> int option" where
  "cached_generation uid now c =
     Option.bind (fmlookup c uid) (\<lambda>e.
       if now - cg_cached_at e < generation_cache_ttl then Some (cg_generation e) else None)"

definition required_for ::
  "bool \<Rightarrow> int \<Rightarrow> tables \<Rightarrow> uid \<Rightarrow> generation_cache \<Rightarrow> (app_error + int) \<times> generation_cache" where
  "required_for conn_ok now db uid c =
     (case cached_generation uid now c of
        Some g \<Rightarrow> (Inr g, c)
      | None \<Rightarrow>
          if \<not> conn_ok then (Inl DbPool, c)
          else let generation = load_generation db uid
               in (Inr generation, store_generation uid generation now c))"

definition stored_generation :: "int \<Rightarrow> tables \<Rightarrow> uid \<Rightarrow> generation_cache \<Rightarrow> int \<times> generation_cache" where
  "stored_generation now db uid c =
     (let generation = load_generation db uid in (generation, store_generation uid generation now c))"

text \<open>\<open>token_gen + 1\<close> is an \<open>int4\<close>: the statement fails when it overflows.\<close>

definition bump_row :: "uid \<Rightarrow> timestamp \<Rightarrow> user_extra_row" where
  "bump_row uid now = (user_extra_row_of (new_user_extra_new uid now))\<lparr>ux_token_gen := 1\<rparr>"

definition bump_statement :: "uid \<Rightarrow> timestamp \<Rightarrow> tables \<Rightarrow> db_error + int \<times> tables" where
  "bump_statement uid now db =
     (if load_generation db uid + 1 \<ge> 2 ^ 31 then Inl DbOther
      else let db' = db\<lparr>user_extras := upsert_row (\<lambda>r. ux_uid r = uid) (bump_row uid now)
                 (\<lambda>r. r\<lparr>ux_token_gen := ux_token_gen r + 1\<rparr>) (user_extras db)\<rparr>
           in Inr (load_generation db' uid, db'))"

definition bump ::
  "timestamp \<Rightarrow> int \<Rightarrow> uid \<Rightarrow> tables \<times> generation_cache \<Rightarrow>
   (app_error + int) \<times> tables \<times> generation_cache" where
  "bump utc_now now uid s =
     (case bump_statement uid utc_now (fst s) of
        Inl e \<Rightarrow> (Inl (DbQuery e), s)
      | Inr (generation, db') \<Rightarrow> (Inr generation, db', store_generation uid generation now (snd s)))"

section \<open>Sessions\<close>

datatype session_generation_failure = SessionRevoked | LookupUnavailable

fun failure_app_error :: "session_generation_failure \<Rightarrow> app_error" where
  "failure_app_error SessionRevoked = Unauthorized ''Session revoked''"
| "failure_app_error LookupUnavailable = ServiceUnavailable ''Auth lookup unavailable''"

fun lifecycle_of_failure :: "session_generation_failure \<Rightarrow> rpc_lifecycle_failure" where
  "lifecycle_of_failure SessionRevoked = Revoked"
| "lifecycle_of_failure LookupUnavailable = AuthLookupUnavailable"

definition check_session_generation_cause ::
  "bool \<Rightarrow> int \<Rightarrow> tables \<Rightarrow> verified_session \<Rightarrow> generation_cache \<Rightarrow>
   (session_generation_failure + unit) \<times> generation_cache" where
  "check_session_generation_cause conn_ok now db session c =
     (let (required, c') = required_for conn_ok now db (vs_uid session) c
      in (case required of
            Inl _ \<Rightarrow> Inl LookupUnavailable
          | Inr g \<Rightarrow> guard_or (vs_generation session = g) SessionRevoked, c'))"

definition check_session_generation ::
  "bool \<Rightarrow> int \<Rightarrow> tables \<Rightarrow> verified_session \<Rightarrow> generation_cache \<Rightarrow> (app_error + unit) \<times> generation_cache" where
  "check_session_generation conn_ok now db session c =
     apfst (map_sum failure_app_error id) (check_session_generation_cause conn_ok now db session c)"

definition verify_session ::
  "('tok \<Rightarrow> (ustr option \<times> json) option) \<Rightarrow> int \<Rightarrow> bool \<Rightarrow> int \<Rightarrow> tables \<Rightarrow> 'tok \<Rightarrow> generation_cache \<Rightarrow>
   (app_error + verified_session) \<times> generation_cache" where
  "verify_session jwt_decode unix_timestamp conn_ok now db token c =
     (case verify_token jwt_decode unix_timestamp token of
        Inl e \<Rightarrow> (Inl (app_error_of_token e), c)
      | Inr session \<Rightarrow>
          apfst (map_sum id (\<lambda>_. session)) (check_session_generation conn_ok now db session c))"

definition is_valid_client_id :: "ustr \<Rightarrow> bool" where
  "is_valid_client_id v \<longleftrightarrow> v \<noteq> [] \<and> length v \<le> 64 \<and>
     list_all (\<lambda>b. 97 \<le> b \<and> b \<le> 122 \<or> 65 \<le> b \<and> b \<le> 90 \<or> 48 \<le> b \<and> b \<le> 57 \<or> b = 45 \<or> b = 95) v"

definition post_refresh ::
  "(ustr option \<Rightarrow> json \<Rightarrow> 'tok option) \<Rightarrow> int \<Rightarrow> verified_session \<Rightarrow> app_error + 'tok" where
  "post_refresh jwt_encode unix_timestamp session =
     map_sum app_error_of_token id
       (issue_session jwt_encode unix_timestamp (vs_uid session) (vs_client_id session)
          (vs_generation session))"

text \<open>\<open>uuid\<close> is the fresh \<open>Uuid::new_v4\<close>.\<close>

definition dev_session_client_id :: "ustr \<Rightarrow> ustr option \<Rightarrow> app_error + ustr" where
  "dev_session_client_id uuid value =
     and_then (ok_or value (BadRequest ''Missing X-Client-Id header'')) (\<lambda>v.
       if \<not> is_valid_client_id (trim v) then Inr uuid
       else if length (trim v) = length v then Inr v else Inr (trim v))"

definition post_dev_session ::
  "(ustr option \<Rightarrow> json \<Rightarrow> 'tok option) \<Rightarrow> int \<Rightarrow> bool \<Rightarrow> ustr \<Rightarrow> bool \<Rightarrow> int \<Rightarrow> tables \<Rightarrow>
   uid \<Rightarrow> ustr option \<Rightarrow> generation_cache \<Rightarrow>
   (app_error + 'tok \<times> verified_session) \<times> generation_cache" where
  "post_dev_session jwt_encode unix_timestamp debug_auth_enabled uuid conn_ok now db uid client_id c =
     (if \<not> debug_auth_enabled then (Inl (NotFound ''Not found''), c)
      else if uid \<le> 0 then (Inl (BadRequest ''UID must be a positive i32''), c)
      else case dev_session_client_id uuid client_id of
        Inl e \<Rightarrow> (Inl e, c)
      | Inr cid \<Rightarrow>
          let (required, c') = required_for conn_ok now db uid c
          in (and_then required (\<lambda>generation.
                let session = \<lparr>vs_uid = uid, vs_client_id = cid, vs_generation = generation,
                               vs_version = V2\<rparr>
                in and_then (post_refresh jwt_encode unix_timestamp session) (\<lambda>token.
                     Inr (token, session))), c'))"

section \<open>The cache keeps its contract\<close>

lemma lookup_store_generation:
  "fmlookup (store_generation uid g now c) k = Some e \<Longrightarrow>
   fmlookup (fmupd uid \<lparr>cg_generation = g, cg_cached_at = now\<rparr> c) k = Some e"
  by (auto simp: store_generation_def prune_stale_generations_def split: if_splits)

interpretation generation_cache: ttl_cache cached_generation store_generation generation_cache_ttl
proof
  fix k t v now c w
  show "cached_generation k t (store_generation k v now c) = Some w \<Longrightarrow>
      w = v \<and> t \<le> now + generation_cache_ttl"
    by (auto simp: cached_generation_def bind_eq_Some_conv split: if_splits
        dest!: lookup_store_generation)
next
  fix k t k' v now c w
  show "cached_generation k t (store_generation k' v now c) = Some w \<Longrightarrow> k \<noteq> k' \<Longrightarrow>
      cached_generation k t c = Some w"
    by (auto simp: cached_generation_def bind_eq_Some_conv split: if_splits
        dest!: lookup_store_generation)
qed

section \<open>Generations only grow\<close>

lemma load_generation_upsert:
  "load_generation (db\<lparr>user_extras := upsert_row (\<lambda>r. ux_uid r = uid) (bump_row uid t)
      (\<lambda>r. r\<lparr>ux_token_gen := ux_token_gen r + 1\<rparr>) (user_extras db)\<rparr>) u =
   load_generation db u + (if u = uid then 1 else 0)"
proof -
  let ?rows = "upsert_row (\<lambda>r. ux_uid r = uid) (bump_row uid t)
    (\<lambda>r. r\<lparr>ux_token_gen := ux_token_gen r + 1\<rparr>) (user_extras db)"
  have bumped: "first_row (\<lambda>r. ux_uid r = v) (map (\<lambda>r. if ux_uid r = uid then r\<lparr>ux_token_gen := ux_token_gen r + 1\<rparr> else r) rows)
      = map_option (\<lambda>r. if v = uid then r\<lparr>ux_token_gen := ux_token_gen r + 1\<rparr> else r) (first_row (\<lambda>r. ux_uid r = v) rows)"
    for v and rows :: "user_extra_row list"
    by (induction rows) auto
  have none: "first_row (\<lambda>r. ux_uid r = uid) (user_extras db) = None"
    if "\<not> exists_row (\<lambda>r. ux_uid r = uid) (user_extras db)"
    using that by (simp add: exists_row_iff first_row_None)
  have some: "first_row (\<lambda>r. ux_uid r = uid) (user_extras db) \<noteq> None"
    if "exists_row (\<lambda>r. ux_uid r = uid) (user_extras db)"
    using that by (auto simp: exists_row_iff first_row_None)
  show ?thesis
    by (cases "exists_row (\<lambda>r. ux_uid r = uid) (user_extras db)"; cases "u = uid")
      (auto simp: load_generation_def upsert_row_def update_rows_def bumped none first_row_append
        bump_row_def user_extra_row_of_def new_user_extra_new_def split: option.split dest!: some)
qed

lemma bump_statement_Inr:
  assumes "bump_statement uid t db = Inr (g, db')"
  shows "g = load_generation db uid + 1"
    and "load_generation db' u = load_generation db u + (if u = uid then 1 else 0)"
  using assms by (auto simp: bump_statement_def Let_def load_generation_upsert split: if_splits)

text \<open>A bump on any instance, as the database sees it.\<close>

definition apply_bump :: "uid \<times> timestamp \<Rightarrow> tables \<Rightarrow> tables" where
  "apply_bump b db = (case bump_statement (fst b) (snd b) db of Inl _ \<Rightarrow> db | Inr (_, db') \<Rightarrow> db')"

lemma load_generation_apply_bump: "load_generation db u \<le> load_generation (apply_bump b db) u"
proof (cases "bump_statement (fst b) (snd b) db")
  case (Inr r)
  with bump_statement_Inr(2) [of "fst b" "snd b" db "fst r" "snd r" u] show ?thesis
    by (auto simp: apply_bump_def split: prod.split)
qed (simp add: apply_bump_def)

section \<open>Properties\<close>

text \<open>Revocation is honoured everywhere within the cache's time to live: once a user's
  generation was bumped (by any instance), then after more than 30 seconds, plus the time one
  request may take between reading a generation and storing it, every instance rejects every
  session of an older generation, whatever requests, stale reads, further bumps and evictions
  happened in between.\<close>

lemma old_sessions_rejected:
  fixes s :: "(generation_cache, tables, uid, int) cache_run"
  assumes "bump_statement uid t db = Inr (g, cr_db s)"
    and "generation_cache.timely s" and "0 \<le> latency"
    and "s' = fold (cache_exec load_generation store_generation apply_bump latency) es s"
    and "cr_now s + latency + generation_cache_ttl < cr_now s'"
    and "vs_uid session = uid" and "vs_generation session < g"
  shows "fst (check_session_generation_cause True (cr_now s') (cr_db s') session (cr_cache s')) =
    Inl SessionRevoked"
proof -
  have now: "\<not> load_generation (cr_db s) uid < g"
    using bump_statement_Inr [OF assms(1)] by simp
  have "\<not> load_generation (cr_db s') uid < g \<and>
      (\<forall>v. cached_generation uid (cr_now s') (cr_cache s') = Some v \<longrightarrow> \<not> v < g)"
    by (rule generation_cache.stale_answers_expire
        [where stale = "\<lambda>v. v < g", OF assms(2,3) now _ assms(4,5)])
      (meson load_generation_apply_bump not_less order_trans)
  with assms(6,7) show ?thesis
    by (auto simp: check_session_generation_cause_def required_for_def Let_def split: option.split)
qed

text \<open>C35: Session tokens round trip: a token issued for a session verifies to exactly that
  session, as long as the verifier's clock is at most 60 seconds behind the issuer's, and a
  legacy token verifies to the same session marked as legacy. The JWT library decodes what it
  encoded.\<close>

theorem session_token_roundtrip:
  assumes "\<And>kid claims tok. jwt_encode kid claims = Some tok \<Longrightarrow> jwt_decode tok = Some (kid, claims)"
    and "- (2 ^ 31) \<le> uid" and "uid < 2 ^ 31" and "0 \<le> gen" and "gen < 2 ^ 31"
    and "0 \<le> issued_at" and "issued_at < 2 ^ 64" and "issued_at \<le> now + 60"
  shows "(\<forall>tok. issue_session jwt_encode issued_at uid cid gen = Inr tok \<longrightarrow>
      verify_token jwt_decode now tok =
        Inr \<lparr>vs_uid = uid, vs_client_id = cid, vs_generation = gen, vs_version = V2\<rparr>) \<and>
    (\<forall>tok. issue_legacy_session jwt_encode uid cid gen = Inr tok \<longrightarrow>
      verify_token jwt_decode now tok =
        Inr \<lparr>vs_uid = uid, vs_client_id = cid, vs_generation = gen, vs_version = Legacy\<rparr>)"
proof (intro conjI allI impI)
  fix tok
  assume "issue_session jwt_encode issued_at uid cid gen = Inr tok"
  then have "jwt_encode (Some jwt_v2_key_id)
      (JObj [(ascii ''ver'', JNumber (Integer 2)), (ascii ''uid'', JNumber (Integer uid)),
             (ascii ''cid'', JStr cid), (ascii ''gen'', JNumber (Integer gen)),
             (ascii ''iat'', JNumber (Integer issued_at))]) = Some tok"
    by (simp add: issue_session_def ok_or_eq_Inr jwt_version_v2_def)
  from assms(1) [OF this] assms(2-) show "verify_token jwt_decode now tok =
      Inr \<lparr>vs_uid = uid, vs_client_id = cid, vs_generation = gen, vs_version = V2\<rparr>"
    by (simp add: verify_token_def has_version_def contains_key_def ascii_def session_claims_v2_of_def
        struct_fields_def json_int_def json_i32_def json_as_str_def validate_v2_claims_def
        jwt_version_v2_def max_future_iat_seconds_def guard_or_def min_less_iff_disj)
next
  fix tok
  assume "issue_legacy_session jwt_encode uid cid gen = Inr tok"
  then have "jwt_encode None
      (JObj [(ascii ''uid'', JNumber (Integer uid)), (ascii ''cid'', JStr cid),
             (ascii ''gen'', JNumber (Integer gen))]) = Some tok"
    by (simp add: issue_legacy_session_def ok_or_eq_Inr)
  from assms(1) [OF this] assms(2-) show "verify_token jwt_decode now tok =
      Inr \<lparr>vs_uid = uid, vs_client_id = cid, vs_generation = gen, vs_version = Legacy\<rparr>"
    by (simp add: verify_token_def has_version_def contains_key_def ascii_def legacy_claims_of_def
        struct_fields_def json_int_def json_i32_def json_as_str_def)
qed

section \<open>Examples\<close>

text \<open>Account 7 was bumped while its old generation 0 is cached and once more on its way into
  the cache.\<close>

definition bumped_run :: "(generation_cache, tables, uid, int) cache_run" where
  "bumped_run =
     \<lparr>cr_cache = fmap_of_list [(7, \<lparr>cg_generation = 0, cg_cached_at = 0\<rparr>)],
      cr_db = apply_bump (7, 0) empty_tables, cr_now = 5, cr_loads = [(7, 0, 4)]\<rparr>"

definition old_session :: verified_session where
  "old_session = \<lparr>vs_uid = 7, vs_client_id = [97], vs_generation = 0, vs_version = V2\<rparr>"

theorem session_token_roundtrip_witness:
  "verify_token Some 95 (Some jwt_v2_key_id, JObj [(ascii ''ver'', JNumber (Integer 2)),
     (ascii ''uid'', JNumber (Integer 7)), (ascii ''cid'', JStr [97]), (ascii ''gen'', JNumber (Integer 3)),
     (ascii ''iat'', JNumber (Integer 100))]) =
   Inr \<lparr>vs_uid = 7, vs_client_id = [97], vs_generation = 3, vs_version = V2\<rparr>"
  using session_token_roundtrip [of "\<lambda>kid claims. Some (kid, claims)" Some 7 3 100 95 "[97]"]
  by (simp add: issue_session_def jwt_version_v2_def)

end
