(* ===== verification/Authz.thy ===== *)
theory Authz
  imports Authentication Users "HOL-Library.List_Lexorder" "HOL-Library.Char_ord"
begin

text \<open>
  \<open>backend/src/services/authz.rs\<close>: permissions granted through policies, cached for 60 seconds
  per subject and resource, and the principals of \<open>services/authentication.rs\<close> that use them.
  A cached set of actions is a set; each operation takes and returns the cache.
\<close>

section \<open>Actions and resources\<close>

datatype authz_action =
    ChatCreate | MemberViewAll | InviteCreate | OnBehalfOfSocialRead | OnBehalfOfSocialWrite
  | OnBehalfOfMessageSend | PermissionAll | ServiceTokenManage | SessionRead | SessionRevoke

fun action_str :: "authz_action \<Rightarrow> string" where
  "action_str ChatCreate = ''chat.create''"
| "action_str MemberViewAll = ''member.viewAll''"
| "action_str InviteCreate = ''invite.create''"
| "action_str OnBehalfOfSocialRead = ''onBehalfOf.socialRead''"
| "action_str OnBehalfOfSocialWrite = ''onBehalfOf.socialWrite''"
| "action_str OnBehalfOfMessageSend = ''onBehalfOf.messageSend''"
| "action_str PermissionAll = ''permission.all''"
| "action_str ServiceTokenManage = ''serviceToken.manage''"
| "action_str SessionRead = ''session.read''"
| "action_str SessionRevoke = ''session.revoke''"

datatype resource = Global | Chat snowflake

fun resource_type :: "resource \<Rightarrow> permission_resource_type" where
  "resource_type Global = GlobalResource"
| "resource_type (Chat _) = ChatResource"

fun resource_id :: "resource \<Rightarrow> snowflake option" where
  "resource_id Global = None"
| "resource_id (Chat chat_id) = Some chat_id"

datatype cache_subject = CacheUser uid "int option" | CacheServiceToken snowflake

record cache_key =
  ck_subject :: cache_subject
  ck_resource_type :: permission_resource_type
  ck_resource_id :: "snowflake option"

record cached_permission_set =
  cp_actions :: "string set"
  cp_cached_at :: int

type_synonym permission_cache = "(cache_key, cached_permission_set) fmap"

definition permission_cache_ttl :: int where
  "permission_cache_ttl = 60 * 10 ^ 9"

section \<open>Loading\<close>

definition policies_of :: "tables \<Rightarrow> policy_subject_type \<Rightarrow> int \<Rightarrow> snowflake list" where
  "policies_of db subject_type subject_id =
     map pa_policy_id (select_rows (\<lambda>a. pa_subject_type a = subject_type \<and> pa_subject_id a = subject_id)
       (policy_assignments db))"

fun subject_policies :: "tables \<Rightarrow> cache_subject \<Rightarrow> snowflake list" where
  "subject_policies db (CacheUser uid discuz_group_id) =
     policies_of db SubjectUser uid @
     (case discuz_group_id of None \<Rightarrow> [] | Some g \<Rightarrow> policies_of db SubjectDiscuzGroup g)"
| "subject_policies db (CacheServiceToken token_id) = policies_of db SubjectServiceToken token_id"

text \<open>\<open>resource_id = Some(x)\<close> is never true of a row whose \<open>resource_id\<close> is null.\<close>

definition load_actions_for_resource :: "tables \<Rightarrow> cache_subject \<Rightarrow> resource \<Rightarrow> string set" where
  "load_actions_for_resource db subject res =
     (let policy_ids = subject_policies db subject
      in if policy_ids = [] then {}
         else set (map pp_action (select_rows (\<lambda>p. pp_policy_id p \<in> set policy_ids \<and>
                pp_resource_type p = resource_type res \<and>
                (case res of Global \<Rightarrow> pp_resource_id p = None
                 | Chat chat_id \<Rightarrow> pp_resource_id p = Some chat_id)) (policy_permissions db))))"

definition key_of :: "cache_subject \<Rightarrow> resource \<Rightarrow> cache_key" where
  "key_of subject res =
     \<lparr>ck_subject = subject, ck_resource_type = resource_type res, ck_resource_id = resource_id res\<rparr>"

definition prune_stale_entries :: "int \<Rightarrow> permission_cache \<Rightarrow> permission_cache" where
  "prune_stale_entries now c =
     (if fcard (fmdom c) \<le> 1024 then c
      else fmfilter (\<lambda>k. \<not> (\<exists>e \<in> set_option (fmlookup c k). cp_cached_at e < now - 15 * 60 * 10 ^ 9)) c)"

definition cached_actions :: "cache_key \<Rightarrow> int \<Rightarrow> permission_cache \<Rightarrow> string set option" where
  "cached_actions k now c =
     Option.bind (fmlookup c k) (\<lambda>e.
       if now - cp_cached_at e \<le> permission_cache_ttl then Some (cp_actions e) else None)"

definition store_actions :: "cache_key \<Rightarrow> string set \<Rightarrow> int \<Rightarrow> permission_cache \<Rightarrow> permission_cache" where
  "store_actions k actions now c =
     prune_stale_entries now (fmupd k \<lparr>cp_actions = actions, cp_cached_at = now\<rparr> c)"

definition load_cached_actions ::
  "int \<Rightarrow> tables \<Rightarrow> cache_subject \<Rightarrow> resource \<Rightarrow> permission_cache \<Rightarrow> string set \<times> permission_cache" where
  "load_cached_actions now db subject res c =
     (case cached_actions (key_of subject res) now c of
        Some actions \<Rightarrow> (actions, c)
      | None \<Rightarrow>
          let actions = load_actions_for_resource db subject res
          in (actions, store_actions (key_of subject res) actions now c))"

definition lookup_discuz_group_id :: "discuz_tables \<Rightarrow> uid \<Rightarrow> int option" where
  "lookup_discuz_group_id d uid =
     map_option cm_groupid (first_row (\<lambda>m. cm_uid m = uid) (common_member d))"

definition load_cached_user_actions ::
  "int \<Rightarrow> discuz_tables \<Rightarrow> tables \<Rightarrow> uid \<Rightarrow> resource \<Rightarrow> permission_cache \<Rightarrow> string set \<times> permission_cache" where
  "load_cached_user_actions now d db uid res c =
     load_cached_actions now db (CacheUser uid (lookup_discuz_group_id d uid)) res c"

definition load_cached_service_token_actions ::
  "int \<Rightarrow> tables \<Rightarrow> snowflake \<Rightarrow> resource \<Rightarrow> permission_cache \<Rightarrow> string set \<times> permission_cache" where
  "load_cached_service_token_actions now db token_id res c =
     load_cached_actions now db (CacheServiceToken token_id) res c"

section \<open>Checks\<close>

definition permits :: "string set \<Rightarrow> authz_action \<Rightarrow> bool" where
  "permits actions a \<longleftrightarrow> action_str a \<in> actions \<or> action_str PermissionAll \<in> actions"

definition has_permission ::
  "int \<Rightarrow> discuz_tables \<Rightarrow> tables \<Rightarrow> uid \<Rightarrow> authz_action \<Rightarrow> resource \<Rightarrow> permission_cache \<Rightarrow>
   bool \<times> permission_cache" where
  "has_permission now d db uid a res c =
     apfst (\<lambda>actions. permits actions a) (load_cached_user_actions now d db uid res c)"

definition has_service_token_permission ::
  "int \<Rightarrow> tables \<Rightarrow> snowflake \<Rightarrow> authz_action \<Rightarrow> resource \<Rightarrow> permission_cache \<Rightarrow>
   bool \<times> permission_cache" where
  "has_service_token_permission now db token_id a res c =
     apfst (\<lambda>actions. permits actions a) (load_cached_service_token_actions now db token_id res c)"

definition list_permissions ::
  "int \<Rightarrow> discuz_tables \<Rightarrow> tables \<Rightarrow> uid \<Rightarrow> resource \<Rightarrow> permission_cache \<Rightarrow>
   string list \<times> permission_cache" where
  "list_permissions now d db uid res c =
     apfst sorted_list_of_set (load_cached_user_actions now d db uid res c)"

definition require_permission ::
  "int \<Rightarrow> discuz_tables \<Rightarrow> tables \<Rightarrow> uid \<Rightarrow> authz_action \<Rightarrow> resource \<Rightarrow> permission_cache \<Rightarrow>
   (app_error + unit) \<times> permission_cache" where
  "require_permission now d db uid a res c =
     apfst (\<lambda>ok. guard_or ok (Forbidden ''Permission required''))
       (has_permission now d db uid a res c)"

definition require_service_token_permission ::
  "int \<Rightarrow> tables \<Rightarrow> snowflake \<Rightarrow> authz_action \<Rightarrow> resource \<Rightarrow> permission_cache \<Rightarrow>
   (app_error + unit) \<times> permission_cache" where
  "require_service_token_permission now db token_id a res c =
     apfst (\<lambda>ok. guard_or ok (Forbidden ''Permission required''))
       (has_service_token_permission now db token_id a res c)"

section \<open>Principals\<close>

datatype principal =
    PrincipalUser uid
  | ServiceOnBehalfOf uid snowflake
  | PrincipalService snowflake

fun principal_uid :: "principal \<Rightarrow> uid option" where
  "principal_uid (PrincipalUser uid) = Some uid"
| "principal_uid (ServiceOnBehalfOf uid _) = Some uid"
| "principal_uid (PrincipalService _) = None"

datatype user_action_mode = DirectUser uid | Delegated uid snowflake

fun user_action_mode_of :: "principal \<Rightarrow> app_error + user_action_mode" where
  "user_action_mode_of (PrincipalUser uid) = Inr (DirectUser uid)"
| "user_action_mode_of (PrincipalService _) = Inl (BadRequest ''X-On-Behalf-Of header is required'')"
| "user_action_mode_of (ServiceOnBehalfOf uid token) = Inr (Delegated uid token)"

fun service_action_token :: "principal \<Rightarrow> app_error + snowflake" where
  "service_action_token (PrincipalUser _) = Inl (Forbidden ''Service token required'')"
| "service_action_token (ServiceOnBehalfOf _ _) =
     Inl (BadRequest ''X-On-Behalf-Of is not supported by this endpoint'')"
| "service_action_token (PrincipalService token) = Inr token"

definition authorize_token ::
  "int \<Rightarrow> tables \<Rightarrow> snowflake \<Rightarrow> authz_action \<Rightarrow> permission_cache \<Rightarrow>
   (app_error + unit) \<times> permission_cache" where
  "authorize_token now db token a c = require_service_token_permission now db token a Global c"

definition require_user_action ::
  "int \<Rightarrow> discuz_tables \<Rightarrow> tables \<Rightarrow> principal \<Rightarrow> authz_action \<Rightarrow> permission_cache \<Rightarrow>
   (app_error + uid) \<times> permission_cache" where
  "require_user_action now d db p a c =
     (case user_action_mode_of p of
        Inl e \<Rightarrow> (Inl e, c)
      | Inr (DirectUser uid) \<Rightarrow> (Inr uid, c)
      | Inr (Delegated uid token) \<Rightarrow>
          apfst (\<lambda>r. and_then r (\<lambda>_.
              if lookup_user_profiles d [uid] uid = None
              then Inl (BadRequest ''On-behalf-of user not found'') else Inr uid))
            (authorize_token now db token a c))"

definition require_service_action ::
  "int \<Rightarrow> tables \<Rightarrow> principal \<Rightarrow> authz_action \<Rightarrow> permission_cache \<Rightarrow>
   (app_error + snowflake) \<times> permission_cache" where
  "require_service_action now db p a c =
     (case service_action_token p of
        Inl e \<Rightarrow> (Inl e, c)
      | Inr token \<Rightarrow> apfst (\<lambda>r. and_then r (\<lambda>_. Inr token)) (authorize_token now db token a c))"

section \<open>The cache keeps its contract\<close>

lemma lookup_store_actions:
  "fmlookup (store_actions k' v now c) k = Some e \<Longrightarrow>
   fmlookup (fmupd k' \<lparr>cp_actions = v, cp_cached_at = now\<rparr> c) k = Some e"
  by (auto simp: store_actions_def prune_stale_entries_def split: if_splits)

interpretation permission_cache: ttl_cache cached_actions store_actions permission_cache_ttl
proof
  fix k t v now c w
  show "cached_actions k t (store_actions k v now c) = Some w \<Longrightarrow>
      w = v \<and> t \<le> now + permission_cache_ttl"
    by (auto simp: cached_actions_def bind_eq_Some_conv split: if_splits dest!: lookup_store_actions)
next
  fix k t k' v now c w
  show "cached_actions k t (store_actions k' v now c) = Some w \<Longrightarrow> k \<noteq> k' \<Longrightarrow>
      cached_actions k t c = Some w"
    by (auto simp: cached_actions_def bind_eq_Some_conv split: if_splits dest!: lookup_store_actions)
qed

section \<open>What the tables grant\<close>

text \<open>The rule itself: some policy assigned to the subject holds the action, or
  \<open>permission.all\<close>, for exactly this resource.\<close>

fun assigned :: "cache_subject \<Rightarrow> policy_assignment \<Rightarrow> bool" where
  "assigned (CacheUser uid g) a \<longleftrightarrow>
     pa_subject_type a = SubjectUser \<and> pa_subject_id a = uid \<or>
     pa_subject_type a = SubjectDiscuzGroup \<and> g = Some (pa_subject_id a)"
| "assigned (CacheServiceToken token) a \<longleftrightarrow>
     pa_subject_type a = SubjectServiceToken \<and> pa_subject_id a = token"

definition granted :: "tables \<Rightarrow> cache_subject \<Rightarrow> authz_action \<Rightarrow> resource \<Rightarrow> bool" where
  "granted db subject a res \<longleftrightarrow>
     (\<exists>asg \<in> set (policy_assignments db). \<exists>p \<in> set (policy_permissions db).
        assigned subject asg \<and> pp_policy_id p = pa_policy_id asg \<and>
        pp_action p \<in> {action_str a, ''permission.all''} \<and>
        pp_resource_type p = resource_type res \<and> pp_resource_id p = resource_id res)"

lemma subject_policies_set:
  "set (subject_policies db subject) = pa_policy_id ` {a \<in> set (policy_assignments db). assigned subject a}"
  by (cases subject) (auto simp: policies_of_def set_select_rows split: option.splits)

lemma load_actions_granted: "permits (load_actions_for_resource db subject res) a \<longleftrightarrow> granted db subject a res"
proof -
  have ids: "(case res of Global \<Rightarrow> pp_resource_id p = None | Chat chat_id \<Rightarrow> pp_resource_id p = Some chat_id)
      \<longleftrightarrow> pp_resource_id p = resource_id res" for p
    by (cases res) simp_all
  have "x \<in> load_actions_for_resource db subject res \<longleftrightarrow>
      (\<exists>p \<in> set (policy_permissions db). pp_policy_id p \<in> set (subject_policies db subject) \<and>
        pp_resource_type p = resource_type res \<and> pp_resource_id p = resource_id res \<and> pp_action p = x)" for x
    unfolding load_actions_for_resource_def Let_def ids by (auto simp: set_select_rows)
  then show ?thesis
    by (auto simp: permits_def granted_def subject_policies_set)
qed

lemma require_permission_subject:
  "fst (require_permission now d db uid a res c) =
   guard_or (permits (fst (load_cached_actions now db (CacheUser uid (lookup_discuz_group_id d uid)) res c)) a)
     (Forbidden ''Permission required'')"
  by (simp add: require_permission_def has_permission_def load_cached_user_actions_def)

lemma require_service_permission_subject:
  "fst (require_service_token_permission now db token a res c) =
   guard_or (permits (fst (load_cached_actions now db (CacheServiceToken token) res c)) a)
     (Forbidden ''Permission required'')"
  by (simp add: require_service_token_permission_def has_service_token_permission_def
      load_cached_service_token_actions_def)

definition load_key :: "tables \<Rightarrow> cache_key \<Rightarrow> string set" where
  "load_key db k =
     load_actions_for_resource db (ck_subject k)
       (case ck_resource_id k of None \<Rightarrow> Global | Some chat_id \<Rightarrow> Chat chat_id)"

lemma load_key_of [simp]: "load_key db (key_of subject res) = load_actions_for_resource db subject res"
  by (cases res) (simp_all add: load_key_def key_of_def)

section \<open>Properties\<close>

text \<open>C36: A withdrawn permission stops working everywhere within the cache's minute: once the
  policy tables no longer grant an action to an account (by its own policies or its forum
  group's) on a resource, every instance refuses it after 60 seconds plus the time one request
  may take between reading and caching, whatever else happens in between.\<close>

theorem permission_withdrawn:
  fixes s :: "(permission_cache, tables, cache_key, string set) cache_run"
  assumes "\<not> granted (cr_db s) (CacheUser uid (lookup_discuz_group_id d uid)) a res"
    and "\<And>f db. Change f \<in> set es \<Longrightarrow>
      \<not> granted db (CacheUser uid (lookup_discuz_group_id d uid)) a res \<Longrightarrow>
      \<not> granted (apply_op f db) (CacheUser uid (lookup_discuz_group_id d uid)) a res"
    and "permission_cache.timely s" and "0 \<le> latency"
    and "s' = fold (cache_exec load_key store_actions apply_op latency) es s"
    and "cr_now s + latency + permission_cache_ttl < cr_now s'"
  shows "fst (require_permission (cr_now s') d (cr_db s') uid a res (cr_cache s')) =
    Inl (Forbidden ''Permission required'')"
proof -
  let ?k = "key_of (CacheUser uid (lookup_discuz_group_id d uid)) res"
  have "\<not> permits (load_key (cr_db s') ?k) a \<and>
      (\<forall>v. cached_actions ?k (cr_now s') (cr_cache s') = Some v \<longrightarrow> \<not> permits v a)"
    by (rule permission_cache.stale_answers_expire
        [where stale = "\<lambda>v. permits v a", OF assms(3,4) _ _ assms(5,6)])
      (use assms(1,2) in \<open>simp_all add: load_actions_granted\<close>)
  then show ?thesis
    by (auto simp: require_permission_subject load_cached_actions_def Let_def split: option.split)
qed

text \<open>Who may act, exactly: a user acts directly; a service token alone is refused a user
  action; a token acting for a user needs a policy that grants it the action globally, and the
  user must exist. Service actions are refused to users and to delegated calls, and need the
  granted action. (For a cache that holds nothing for the token.)\<close>

theorem principal_actions_exact:
  assumes "\<And>token. cached_actions (key_of (CacheServiceToken token) Global) now c = None"
  shows "fst (require_user_action now d db p a c) =
      (case p of
         PrincipalUser uid \<Rightarrow> Inr uid
       | PrincipalService _ \<Rightarrow> Inl (BadRequest ''X-On-Behalf-Of header is required'')
       | ServiceOnBehalfOf uid token \<Rightarrow>
           if \<not> granted db (CacheServiceToken token) a Global then Inl (Forbidden ''Permission required'')
           else if lookup_user_profiles d [uid] uid = None
           then Inl (BadRequest ''On-behalf-of user not found'') else Inr uid) \<and>
    fst (require_service_action now db p a c) =
      (case p of
         PrincipalUser _ \<Rightarrow> Inl (Forbidden ''Service token required'')
       | ServiceOnBehalfOf _ _ \<Rightarrow> Inl (BadRequest ''X-On-Behalf-Of is not supported by this endpoint'')
       | PrincipalService token \<Rightarrow>
           if granted db (CacheServiceToken token) a Global then Inr token
           else Inl (Forbidden ''Permission required''))"
proof -
  have "fst (authorize_token now db token a c) =
      guard_or (granted db (CacheServiceToken token) a Global) (Forbidden ''Permission required'')" for token
    by (simp add: authorize_token_def require_service_permission_subject load_cached_actions_def
        assms Let_def load_actions_granted)
  then show ?thesis
    by (cases p) (simp_all add: require_user_action_def require_service_action_def guard_or_def)
qed

section \<open>Examples\<close>

text \<open>Service token 5 holds \<open>session.read\<close> through policy 1; account 7 is in the forum's
  group 3, whose right to create chats was withdrawn while it is still cached.\<close>

definition sample_policies :: tables where
  "sample_policies = empty_tables
     \<lparr>policy_assignments := [\<lparr>pa_id = 1, pa_subject_type = SubjectServiceToken, pa_subject_id = 5,
        pa_policy_id = 1, pa_created_at = 0, pa_updated_at = 0\<rparr>],
      policy_permissions := [\<lparr>pp_id = 1, pp_policy_id = 1, pp_action = ''session.read'',
        pp_resource_type = GlobalResource, pp_resource_id = None, pp_created_at = 0\<rparr>]\<rparr>"

definition sample_discuz :: discuz_tables where
  "sample_discuz =
     \<lparr>common_member = [\<lparr>cm_uid = 7, cm_username = [97], cm_groupid = 3\<rparr>],
      common_member_profile = [], common_usergroup = [], usergroup_extras = []\<rparr>"

definition withdrawn_run :: "(permission_cache, tables, cache_key, string set) cache_run" where
  "withdrawn_run =
     \<lparr>cr_cache = fmap_of_list [(key_of (CacheUser 7 (Some 3)) Global,
        \<lparr>cp_actions = {''chat.create''}, cp_cached_at = 0\<rparr>)],
      cr_db = sample_policies, cr_now = 5, cr_loads = []\<rparr>"

lemma sample_granted:
  "granted sample_policies (CacheServiceToken 5) a Global \<longleftrightarrow> a = SessionRead"
  "\<not> granted sample_policies (CacheUser uid g) a res"
  by (cases a) (auto simp: granted_def sample_policies_def)

theorem permission_withdrawn_witness:
  "fst (require_permission (10 + 60 * 10 ^ 9) sample_discuz sample_policies 7 ChatCreate Global
     (cr_cache withdrawn_run)) = Inl (Forbidden ''Permission required'')"
proof -
  let ?s' = "fold (cache_exec load_key store_actions (\<lambda>(f :: unit) db. db) 1) [Pass (5 + 60 * 10 ^ 9)] withdrawn_run"
  have timely: "permission_cache.timely withdrawn_run"
    unfolding permission_cache.timely_def
    by (auto simp: withdrawn_run_def cached_actions_def permission_cache_ttl_def split: if_splits)
  have final: "cr_now ?s' = 10 + 60 * 10 ^ 9" "cr_db ?s' = sample_policies" "cr_cache ?s' = cr_cache withdrawn_run"
    by (simp_all add: withdrawn_run_def)
  have "\<not> granted (cr_db withdrawn_run) (CacheUser 7 (lookup_discuz_group_id sample_discuz 7)) ChatCreate Global"
    by (simp add: withdrawn_run_def sample_granted)
  from permission_withdrawn [OF this _ timely _ refl, of "[Pass (5 + 60 * 10 ^ 9)]" "\<lambda>(f :: unit) db. db" 1]
  show ?thesis by (simp add: final del: fold_simps) (simp add: withdrawn_run_def permission_cache_ttl_def)
qed

theorem principal_actions_exact_witness:
  "fst (require_service_action 0 sample_policies (PrincipalService 5) SessionRead fmempty) = Inr 5 \<and>
   fst (require_user_action 0 sample_discuz sample_policies (ServiceOnBehalfOf 7 5) ChatCreate fmempty) =
     Inl (Forbidden ''Permission required'')"
  using principal_actions_exact [of 0 fmempty sample_discuz sample_policies "PrincipalService 5" SessionRead]
    principal_actions_exact [of 0 fmempty sample_discuz sample_policies "ServiceOnBehalfOf 7 5" ChatCreate]
  by (simp add: cached_actions_def sample_granted)

end
