(* ===== verification/Presence.thy ===== *)
theory Presence
  imports Speaking Social Last_Seen Users
begin

text \<open>
  \<open>backend/src/services/presence.rs\<close> and \<open>services/presence/changes.rs\<close>: the presence snapshot a
  viewer gets of the accounts and groups it watches. Who is shown follows the current tables
  and registry at every snapshot. The shared cache of group counts (\<open>moka\<close>) is the parameter
  \<open>cached\<close>: what it holds for a chat, if anything. Query, pool and task failures are left out.
\<close>

section \<open>Watches\<close>

record presence_watch =
  pw_request_id :: "u64 option"
  pw_user_ids :: "uid list"
  pw_chat_ids :: "snowflake list"

definition max_watched_users :: nat where
  "max_watched_users = 100"

definition max_watched_groups :: nat where
  "max_watched_groups = 4"

definition parse_chat_id :: "ustr \<Rightarrow> snowflake option" where
  "parse_chat_id s = Option.bind (parse_i64 s) (\<lambda>chat_id. if chat_id > 0 then Some chat_id else None)"

definition or_default :: "'a list option \<Rightarrow> 'a list" where
  "or_default xs = (case xs of None \<Rightarrow> [] | Some xs \<Rightarrow> xs)"

definition watch_of :: "u64 option \<Rightarrow> uid list \<Rightarrow> snowflake list \<Rightarrow> presence_watch option" where
  "watch_of request_id user_ids chat_ids =
     (if user_ids \<noteq> [] \<or> chat_ids \<noteq> []
      then Some \<lparr>pw_request_id = request_id, pw_user_ids = user_ids, pw_chat_ids = chat_ids\<rparr> else None)"

definition validate_presence_watch ::
  "u64 option \<Rightarrow> uid list option \<Rightarrow> ustr list option \<Rightarrow> app_error + presence_watch option" where
  "validate_presence_watch request_id user_ids chat_ids =
     (let users = or_default user_ids; chats = or_default chat_ids
      in if length users > max_watched_users \<or> length chats > max_watched_groups
         then Inl (BadRequest ''Invalid presence watch'')
         else and_then (ok_or (those (map parse_chat_id chats)) (BadRequest ''Invalid presence watch''))
           (\<lambda>parsed. Inr (watch_of request_id users parsed)))"

definition parse_legacy_presence_watch ::
  "u64 option \<Rightarrow> uid list option \<Rightarrow> ustr list option \<Rightarrow> presence_watch option option" where
  "parse_legacy_presence_watch request_id user_ids chat_ids =
     (let users = or_default user_ids; chats = or_default chat_ids
      in if length users > max_watched_users \<or> length chats > max_watched_groups then None
         else Some (watch_of request_id users (List.map_filter parse_chat_id chats)))"

section \<open>Changes\<close>

datatype presence_change = UserPolicy uid | PairPolicy uid uid

fun affects :: "presence_change \<Rightarrow> uid \<Rightarrow> uid list \<Rightarrow> bool" where
  "affects (UserPolicy uid) viewer_uid user_ids \<longleftrightarrow>
     user_ids \<noteq> [] \<and> (viewer_uid = uid \<or> uid \<in> set user_ids)"
| "affects (PairPolicy a b) viewer_uid user_ids \<longleftrightarrow>
     user_ids \<noteq> [] \<and> (viewer_uid = a \<and> b \<in> set user_ids \<or> viewer_uid = b \<and> a \<in> set user_ids)"

text \<open>What \<open>try_recv\<close> yields until the channel is empty: changes, and lag reports.\<close>

datatype received = Changed presence_change | Lagged

fun take_pending_changes :: "received list \<Rightarrow> uid \<Rightarrow> uid list \<Rightarrow> bool" where
  "take_pending_changes [] viewer_uid user_ids = False"
| "take_pending_changes (Changed c # rs) viewer_uid user_ids =
     (affects c viewer_uid user_ids \<or> take_pending_changes rs viewer_uid user_ids)"
| "take_pending_changes (Lagged # rs) viewer_uid user_ids =
     (user_ids \<noteq> [] \<or> take_pending_changes rs viewer_uid user_ids)"

text \<open>
  The retry loop, over what happens to it: a round drains the channel, takes a snapshot and then
  looks at what the channel received meanwhile. It has not returned (\<open>None\<close>) while every
  snapshot was overtaken by a change that affects it.
\<close>

fun snapshot_after_pending_changes ::
  "uid \<Rightarrow> presence_watch \<Rightarrow> (received list \<times> 's \<times> received list) list \<Rightarrow> 's option" where
  "snapshot_after_pending_changes viewer_uid watch [] = None"
| "snapshot_after_pending_changes viewer_uid watch ((drained, snapshot, received) # rounds) =
     (if take_pending_changes received viewer_uid (pw_user_ids watch)
      then snapshot_after_pending_changes viewer_uid watch rounds else Some snapshot)"

section \<open>One account\<close>

definition shares_presence :: "presence_visibility \<Rightarrow> bool \<Rightarrow> bool option \<Rightarrow> bool" where
  "shares_presence visibility is_friend override =
     (case override of Some b \<Rightarrow> b
      | None \<Rightarrow> (case visibility of Everyone \<Rightarrow> True | Friends \<Rightarrow> is_friend | Nobody \<Rightarrow> False))"

definition presence_is_visible ::
  "bool \<Rightarrow> bool \<Rightarrow> bool \<Rightarrow> presence_visibility \<Rightarrow> bool option \<Rightarrow> presence_visibility \<Rightarrow> bool option \<Rightarrow> bool" where
  "presence_is_visible is_self is_authorized is_friend viewer_visibility viewer_override
     peer_visibility peer_override \<longleftrightarrow>
     is_self \<or> is_authorized \<and> shares_presence viewer_visibility is_friend viewer_override \<and>
       shares_presence peer_visibility is_friend peer_override"

definition masked_presence :: "uid \<Rightarrow> user_presence_response" where
  "masked_presence uid =
     \<lparr>up_uid = uid, up_online = False, up_away = None, up_last_seen_at = None,
      up_last_seen_bucket = Some LongAgo\<rparr>"

definition blocked_presence :: "uid \<Rightarrow> peer_relationship \<Rightarrow> user_presence_response option" where
  "blocked_presence uid peer =
     (if pr_blocking peer \<or> pr_blocked_by peer then Some (masked_presence uid) else None)"

text \<open>\<open>Duration::num_days\<close> rounds towards zero.\<close>

definition num_days :: "int \<Rightarrow> int" where
  "num_days d = (if 0 \<le> d then d div nanos_per_day else - ((- d) div nanos_per_day))"

definition day_bucket :: "int \<Rightarrow> last_seen_bucket" where
  "day_bucket days =
     (if days < 3 then Recently else if days < 7 then WithinWeek
      else if days < 30 then WithinMonth else LongAgo)"

definition user_presence ::
  "uid \<Rightarrow> bool \<Rightarrow> app_presence_state option \<Rightarrow> timestamp option \<Rightarrow> timestamp \<Rightarrow> user_presence_response" where
  "user_presence uid exact state last_seen_at now =
     \<lparr>up_uid = uid,
      up_online = (exact \<and> state = Some Active),
      up_away = (if exact \<and> state = Some Inactive then Some True else None),
      up_last_seen_at = (if exact then last_seen_at else None),
      up_last_seen_bucket =
        (if exact then None
         else if state \<noteq> None then Some Recently
         else map_option (\<lambda>last_seen. day_bucket (num_days (now - last_seen))) last_seen_at)\<rparr>"

section \<open>The accounts of a snapshot\<close>

definition viewer_chat_ids :: "tables \<Rightarrow> uid \<Rightarrow> snowflake list" where
  "viewer_chat_ids db viewer_uid =
     map (\<lambda>(g, m). gm_chat_id m)
       (select_rows (\<lambda>(g, m). gm_uid m = viewer_uid \<and> g_kind g = Group) (joined_chats db))"

definition shared_members :: "tables \<Rightarrow> uid \<Rightarrow> uid list \<Rightarrow> uid set" where
  "shared_members db viewer_uid user_ids =
     (let chat_ids = viewer_chat_ids db viewer_uid
      in if chat_ids = [] then {}
         else set (map gm_uid (select_rows (\<lambda>m. gm_uid m \<in> set user_ids \<and> gm_chat_id m \<in> set chat_ids)
                (memberships db))))"

text \<open>\<open>Ord\<close> on \<open>Option\<close>: \<open>None\<close> is the least.\<close>

fun max_option :: "'a::linorder option \<Rightarrow> 'a option \<Rightarrow> 'a option" where
  "max_option None o' = o'"
| "max_option (Some a) None = Some a"
| "max_option (Some a) (Some b) = Some (max a b)"

definition is_candidate :: "(uid \<rightharpoonup> peer_relationship) \<Rightarrow> uid set \<Rightarrow> uid \<Rightarrow> uid \<Rightarrow> bool" where
  "is_candidate relationships shared viewer_uid uid \<longleftrightarrow>
     uid = viewer_uid \<or>
     (case relationships uid of None \<Rightarrow> False
      | Some rel \<Rightarrow> pr_friends_since rel \<noteq> None \<or> uid \<in> shared)"

text \<open>The policies are loaded once, for the candidates that no block separates from the viewer,
  and for the viewer.\<close>

definition policy_uids :: "(uid \<rightharpoonup> peer_relationship) \<Rightarrow> uid \<Rightarrow> uid list \<Rightarrow> uid list" where
  "policy_uids relationships viewer_uid watched =
     (let unblocked = filter (\<lambda>uid. \<not> (case relationships uid of None \<Rightarrow> False
            | Some peer \<Rightarrow> pr_blocking peer \<or> pr_blocked_by peer)) watched
      in if viewer_uid \<in> set unblocked then unblocked else unblocked @ [viewer_uid])"

definition presence_by_uid :: "tables \<Rightarrow> uid list \<Rightarrow> (uid \<rightharpoonup> timestamp \<times> presence_visibility)" where
  "presence_by_uid db uids uid =
     (if uid \<in> set uids
      then map_option (\<lambda>r. (ux_last_seen_at r, ux_presence_visibility r)) (find_user_extra db uid)
      else None)"

definition observed_by_uid :: "pending \<Rightarrow> uid list \<Rightarrow> (uid \<rightharpoonup> timestamp)" where
  "observed_by_uid pending uids uid = (if uid \<in> set uids then latest pending uid None else None)"

definition visibility_in :: "(uid \<rightharpoonup> timestamp \<times> presence_visibility) \<Rightarrow> uid \<Rightarrow> presence_visibility" where
  "visibility_in presence uid = (case presence uid of None \<Rightarrow> Everyone | Some (_, v) \<Rightarrow> v)"

definition visible_user ::
  "u64 \<Rightarrow> timestamp \<Rightarrow> pending \<Rightarrow> 'p registry \<Rightarrow> (uid \<rightharpoonup> peer_relationship) \<Rightarrow>
   (uid \<rightharpoonup> timestamp \<times> presence_visibility) \<Rightarrow> (uid \<rightharpoonup> timestamp) \<Rightarrow> uid \<Rightarrow> uid \<Rightarrow> user_presence_response" where
  "visible_user now_secs now pending registry relationships presence observed viewer_uid uid =
     (case Option.bind (relationships uid) (blocked_presence uid) of
        Some blocked \<Rightarrow> blocked
      | None \<Rightarrow>
          let exact = (uid = viewer_uid \<or>
                (case relationships uid of None \<Rightarrow> False
                 | Some rel \<Rightarrow> presence_is_visible False True (pr_friends_since rel \<noteq> None)
                     (visibility_in presence viewer_uid) (pr_shares_presence rel)
                     (visibility_in presence uid) (pr_peer_shares_presence rel)));
              persisted = max_option (map_option fst (presence uid)) (observed uid)
          in user_presence uid exact (personal_presence_at uid now_secs registry)
               (latest pending uid persisted) now)"

text \<open>\<open>pending\<close> is the last-seen buffer when the observations are collected, \<open>pending'\<close> when
  the rows are assembled; \<open>now_secs\<close> is the registry's clock.\<close>

definition load_visible_users ::
  "u64 \<Rightarrow> timestamp \<Rightarrow> pending \<Rightarrow> pending \<Rightarrow> 'p registry \<Rightarrow> tables \<Rightarrow> uid \<Rightarrow> uid list \<Rightarrow>
   user_presence_response list" where
  "load_visible_users now_secs now pending pending' registry db viewer_uid user_ids =
     (let peers = filter (\<lambda>uid. uid \<noteq> viewer_uid) user_ids;
          relationships = peer_relationships db viewer_uid peers;
          shared = shared_members db viewer_uid user_ids;
          watched = filter (is_candidate relationships shared viewer_uid) user_ids;
          uids = policy_uids relationships viewer_uid watched
      in if watched = [] then []
         else map (visible_user now_secs now pending' registry relationships (presence_by_uid db uids)
                (observed_by_uid pending uids) viewer_uid) watched)"

section \<open>Groups\<close>

record group_counts =
  gc_member_count :: u32
  gc_online_count :: u32

definition load_visible_group_ids :: "tables \<Rightarrow> uid \<Rightarrow> snowflake list \<Rightarrow> snowflake list" where
  "load_visible_group_ids db viewer_uid chat_ids =
     map (\<lambda>(g, m). g_id g)
       (select_rows (\<lambda>(g, m). gm_uid m = viewer_uid \<and> g_id g \<in> set chat_ids \<and> g_kind g = Group)
         (joined_chats db))"

definition refresh_group_counts :: "u64 \<Rightarrow> 'p registry \<Rightarrow> tables \<Rightarrow> snowflake \<Rightarrow> group_counts" where
  "refresh_group_counts now_secs registry db chat_id =
     (let members = map gm_uid (select_rows (\<lambda>m. gm_chat_id m = chat_id) (memberships db))
      in \<lparr>gc_member_count = of_nat (length members),
          gc_online_count = count_online members now_secs registry\<rparr>)"

definition unique_ids :: "int list \<Rightarrow> int list" where
  "unique_ids xs = sort (remdups xs)"

definition load_snapshot ::
  "u64 \<Rightarrow> timestamp \<Rightarrow> pending \<Rightarrow> pending \<Rightarrow> 'p registry \<Rightarrow> (snowflake \<Rightarrow> group_counts option) \<Rightarrow> tables \<Rightarrow>
   uid \<Rightarrow> u64 option \<Rightarrow> uid list \<Rightarrow> snowflake list \<Rightarrow> presence_snapshot_payload" where
  "load_snapshot now_secs now pending pending' registry cached db viewer_uid request_id user_ids chat_ids =
     (let users = unique_ids user_ids; chats = unique_ids chat_ids
      in \<lparr>snap_request_id = request_id,
          snap_users = (if users = [] then []
            else load_visible_users now_secs now pending pending' registry db viewer_uid users),
          snap_groups = map (\<lambda>chat_id.
              let counts = (case cached chat_id of Some c \<Rightarrow> c
                    | None \<Rightarrow> refresh_group_counts now_secs registry db chat_id)
              in \<lparr>gp_chat_id = chat_id, gp_member_count = gc_member_count counts,
                  gp_online_count = gc_online_count counts\<rparr>)
            (if chats = [] then [] else load_visible_group_ids db viewer_uid chats)\<rparr>)"

section \<open>Who sees whom\<close>

text \<open>The rule behind the code: \<open>a\<close> shares its presence with \<open>b\<close> by its override for that friend,
  or else by its account's visibility.\<close>

definition shares_with :: "tables \<Rightarrow> uid \<Rightarrow> uid \<Rightarrow> bool" where
  "shares_with db a b =
     (case get_friend_presence_settings db a b of
        Inr SharePresence \<Rightarrow> True
      | Inr HidePresence \<Rightarrow> False
      | _ \<Rightarrow> (case get_presence_settings db a of
               Everyone \<Rightarrow> True | Friends \<Rightarrow> are_mutual_friends db a b | Nobody \<Rightarrow> False))"

definition share_group :: "tables \<Rightarrow> uid \<Rightarrow> uid \<Rightarrow> bool" where
  "share_group db a b \<longleftrightarrow>
     (\<exists>g \<in> set (groups db). g_kind g = Group \<and>
        (\<exists>m \<in> set (memberships db). membership_key m = (g_id g, a)) \<and>
        (\<exists>m \<in> set (memberships db). membership_key m = (g_id g, b)))"

definition relations_ok :: "tables \<Rightarrow> bool" where
  "relations_ok db \<longleftrightarrow> friendships_ok db \<and> dms_ok db \<and> blocks_ok db \<and> requests_ok db"

definition last_seen_shown :: "pending \<Rightarrow> pending \<Rightarrow> tables \<Rightarrow> uid \<Rightarrow> timestamp option" where
  "last_seen_shown pending pending' db uid =
     latest pending' uid (max_option (map_option ux_last_seen_at (find_user_extra db uid))
       (latest pending uid None))"

lemma set_viewer_chat_ids:
  "chat_id \<in> set (viewer_chat_ids db viewer) \<longleftrightarrow>
    (\<exists>g \<in> set (groups db). g_kind g = Group \<and> g_id g = chat_id \<and>
      (\<exists>m \<in> set (memberships db). membership_key m = (chat_id, viewer)))"
  by (force simp: viewer_chat_ids_def set_select_rows joined_chats_def membership_key_def)

lemma shared_members_iff:
  assumes "uid \<in> set user_ids"
  shows "uid \<in> shared_members db viewer user_ids \<longleftrightarrow> share_group db viewer uid"
proof -
  have "uid \<in> shared_members db viewer user_ids \<longleftrightarrow>
      (\<exists>m \<in> set (memberships db). gm_uid m = uid \<and> gm_chat_id m \<in> set (viewer_chat_ids db viewer))"
    using assms by (auto simp: shared_members_def Let_def set_select_rows)
  also have "\<dots> \<longleftrightarrow> share_group db viewer uid" (is "?l \<longleftrightarrow> _")
  proof
    assume ?l
    then obtain m g m' where "m \<in> set (memberships db)" "gm_uid m = uid" "g \<in> set (groups db)"
      "g_kind g = Group" "g_id g = gm_chat_id m" "m' \<in> set (memberships db)"
      "membership_key m' = (gm_chat_id m, viewer)"
      by (auto simp: set_viewer_chat_ids)
    then show "share_group db viewer uid"
      unfolding share_group_def by (intro bexI [of _ g] conjI) (auto simp: membership_key_def)
  next
    assume "share_group db viewer uid"
    then obtain g m m' where "g \<in> set (groups db)" "g_kind g = Group" "m \<in> set (memberships db)"
      "membership_key m = (g_id g, viewer)" "m' \<in> set (memberships db)" "membership_key m' = (g_id g, uid)"
      unfolding share_group_def by blast
    then show ?l
      by (intro bexI [of _ m']) (auto simp: set_viewer_chat_ids membership_key_def)
  qed
  finally show ?thesis .
qed

lemma fold_entry_other:
  "list_all (\<lambda>r. k r \<noteq> p) rows \<Longrightarrow> fold (\<lambda>r. entry_update (k r) (f r)) rows m p = m p"
  by (induction rows arbitrary: m) (auto simp: entry_update_def)

lemma fold_dm_entry_other:
  "list_all (\<lambda>r. k r \<noteq> Some p) rows \<Longrightarrow> fold (\<lambda>g. dm_entry (k g) (i g)) rows m p = m p"
  by (induction rows arbitrary: m) (auto simp: dm_entry_def entry_update_def split: option.splits)

lemma list_all_select: "list_all P (select_rows Q rows) \<longleftrightarrow> (\<forall>r \<in> set rows. Q r \<longrightarrow> P r)"
  by (auto simp: list_all_iff set_select_rows)

lemma halves_other:
  assumes "p \<notin> set ps"
  shows "greater_half db uid ps m p = m p" and "lesser_half db uid ps m p = m p"
  unfolding greater_half_def lesser_half_def friendship_entry_def
  by (cases "ps = []", simp, subst if_not_P, assumption,
      subst fold_dm_entry_other, (use assms in \<open>force simp: list_all_select\<close>),
      subst fold_entry_other, (use assms in \<open>force simp: list_all_select\<close>), rule refl)+

lemma peer_relationships_other:
  assumes "peer \<notin> set peers"
  shows "peer_relationships db uid peers peer = None"
proof -
  have "q \<noteq> peer" if "q \<in> set peers" for q using that assms by auto
  then show ?thesis
    unfolding peer_relationships_def Let_def
    using assms by (simp add: fold_entry_other list_all_select halves_other map_of_eq_None_iff image_iff)
qed

lemma relationship_of_peer:
  assumes "relations_ok db" and "uid \<in> set user_ids"
  shows "peer_relationships db viewer (filter (\<lambda>u. u \<noteq> viewer) user_ids) uid =
    (if uid = viewer then None else Some (relationship_with db viewer uid))"
proof (cases "uid = viewer")
  case True
  then show ?thesis by (simp add: peer_relationships_other)
next
  case False
  with assms show ?thesis by (simp add: relations_ok_def peer_relationships_value)
qed

lemma presence_is_visible_iff:
  assumes "uid \<noteq> viewer"
  shows "presence_is_visible False True (pr_friends_since (relationship_with db viewer uid) \<noteq> None)
      (get_presence_settings db viewer) (pr_shares_presence (relationship_with db viewer uid))
      (get_presence_settings db uid) (pr_peer_shares_presence (relationship_with db viewer uid)) \<longleftrightarrow>
    shares_with db viewer uid \<and> shares_with db uid viewer"
proof -
  note facts = relationship_with_facts [OF assms, of db]
  have sym: "are_mutual_friends db uid viewer \<longleftrightarrow> are_mutual_friends db viewer uid"
    by (rule mutual_friends_comm)
  have shares: "shares_presence v f o' \<longleftrightarrow> (case friend_presence_override_from_db o' of
      SharePresence \<Rightarrow> True | HidePresence \<Rightarrow> False
    | InheritPresence \<Rightarrow> (case v of Everyone \<Rightarrow> True | Friends \<Rightarrow> f | Nobody \<Rightarrow> False))" for v f o'
    by (auto simp: shares_presence_def friend_presence_override_from_db_def split: option.split bool.split)
  show ?thesis
  proof (cases "are_mutual_friends db viewer uid")
    case True
    then show ?thesis
      using facts(1,3,4) sym
      by (simp add: presence_is_visible_def shares_with_def shares
          split: friend_presence_override.split presence_visibility.split)
  next
    case False
    then show ?thesis
      using facts(1,5) sym
      by (simp add: presence_is_visible_def shares_with_def shares_presence_def
          split: presence_visibility.split)
  qed
qed

lemma find_map_key:
  assumes "\<And>u. u \<in> set us \<Longrightarrow> up_uid (f u) = u"
  shows "find (\<lambda>p. up_uid p = uid) (map f us) = (if uid \<in> set us then Some (f uid) else None)"
  using assms by (induction us) auto

lemma up_uid_simps [simp]:
  "up_uid (masked_presence uid) = uid"
  "up_uid (user_presence uid exact state t now) = uid"
  by (simp_all add: masked_presence_def user_presence_def)

lemma blocked_presence_simps:
  "blocked_presence uid rel = (if pr_blocking rel \<or> pr_blocked_by rel then Some (masked_presence uid) else None)"
  by (simp add: blocked_presence_def)

lemma load_visible_users_find:
  assumes "relations_ok db"
  shows "find (\<lambda>p. up_uid p = uid) (load_visible_users now_secs now pending pending' registry db viewer user_ids) =
    (if uid \<notin> set user_ids \<or>
        uid \<noteq> viewer \<and> \<not> are_mutual_friends db viewer uid \<and> \<not> share_group db viewer uid then None
     else if uid \<noteq> viewer \<and> is_blocked_either_direction db viewer uid then Some (masked_presence uid)
     else Some (user_presence uid (uid = viewer \<or> shares_with db viewer uid \<and> shares_with db uid viewer)
       (personal_presence_at uid now_secs registry) (last_seen_shown pending pending' db uid) now))"
proof -
  define rels where "rels = peer_relationships db viewer (filter (\<lambda>u. u \<noteq> viewer) user_ids)"
  define shared where "shared = shared_members db viewer user_ids"
  define cands where "cands = filter (is_candidate rels shared viewer) user_ids"
  define policy where "policy = policy_uids rels viewer cands"
  define entry where "entry = visible_user now_secs now pending' registry rels (presence_by_uid db policy)
      (observed_by_uid pending policy) viewer"
  have rows: "load_visible_users now_secs now pending pending' registry db viewer user_ids = map entry cands"
    by (simp add: load_visible_users_def rels_def shared_def cands_def policy_def entry_def Let_def)
  have keyed: "up_uid (entry u) = u" for u
    by (auto simp: entry_def visible_user_def blocked_presence_simps Let_def split: option.split bind_split)
  have rel: "rels u = (if u = viewer then None else Some (relationship_with db viewer u))"
    if "u \<in> set user_ids" for u
    unfolding rels_def using relationship_of_peer [OF assms that] .
  have cand: "uid \<in> set cands \<longleftrightarrow> uid \<in> set user_ids \<and>
      (uid = viewer \<or> are_mutual_friends db viewer uid \<or> share_group db viewer uid)"
    using rel [of uid] relationship_with_facts(1) [of uid viewer db]
    by (cases "uid = viewer") (auto simp: cands_def is_candidate_def shared_def shared_members_iff)
  have viewer_policy: "viewer \<in> set policy" by (simp add: policy_def policy_uids_def Let_def)
  have settings: "visibility_in (presence_by_uid db policy) u = get_presence_settings db u"
    and seen: "observed_by_uid pending policy u = latest pending u None"
    and last: "map_option fst (presence_by_uid db policy u) = map_option ux_last_seen_at (find_user_extra db u)"
    if "u \<in> set policy" for u
    using that by (auto simp: visibility_in_def presence_by_uid_def observed_by_uid_def
        get_presence_settings_def option.map_comp comp_def split: option.split)
  show ?thesis
  proof (cases "uid \<in> set cands")
    case False
    then show ?thesis unfolding rows find_map_key [OF keyed] using cand by auto
  next
    case True
    then have mem: "uid \<in> set user_ids" by (simp add: cand)
    have "entry uid = (if uid \<noteq> viewer \<and> is_blocked_either_direction db viewer uid then masked_presence uid
       else user_presence uid (uid = viewer \<or> shares_with db viewer uid \<and> shares_with db uid viewer)
         (personal_presence_at uid now_secs registry) (last_seen_shown pending pending' db uid) now)"
    proof (cases "uid = viewer")
      case self: True
      then show ?thesis
        using rel [OF mem] settings [OF viewer_policy] seen [OF viewer_policy] last [OF viewer_policy]
        by (simp add: entry_def visible_user_def last_seen_shown_def)
    next
      case other: False
      note facts = relationship_with_facts [OF other, of db]
      show ?thesis
      proof (cases "is_blocked_either_direction db viewer uid")
        case blocked: True
        then show ?thesis
          using rel [OF mem] other facts(2) by (simp add: entry_def visible_user_def blocked_presence_simps)
      next
        case unblocked: False
        then have "uid \<in> set policy"
          using True rel [OF mem] other facts(2) by (auto simp: policy_def policy_uids_def Let_def)
        then show ?thesis
          using unblocked rel [OF mem] other facts(2) settings seen last viewer_policy
            presence_is_visible_iff [OF other, of db]
          by (simp add: entry_def visible_user_def blocked_presence_simps last_seen_shown_def Let_def)
      qed
    qed
    with True mem cand show ?thesis unfolding rows find_map_key [OF keyed] by auto
  qed
qed

lemma set_unique_ids [simp]: "set (unique_ids xs) = set xs"
  by (simp add: unique_ids_def)

lemma snapshot_users:
  "snap_users (load_snapshot now_secs now pending pending' registry cached db viewer request_id user_ids chat_ids) =
   (if user_ids = [] then []
    else load_visible_users now_secs now pending pending' registry db viewer (unique_ids user_ids))"
proof -
  have "unique_ids user_ids = [] \<longleftrightarrow> user_ids = []" by (metis set_unique_ids set_empty)
  then show ?thesis by (simp add: load_snapshot_def Let_def)
qed

section \<open>Properties\<close>

text \<open>C22: Presence is shown to exactly the right people. In a snapshot an account appears exactly
  when it is watched and is the viewer, a friend, or a member of a common group. If either has
  blocked the other, the entry is the constant "long ago" answer; otherwise the exact state and
  time are revealed only when both sides share with each other (by the override for that friend
  or by the account's visibility), and everybody else sees a bucket of days. Groups are listed
  exactly when they are watched, regular, and the viewer is a member.\<close>

theorem presence_snapshot_exact:
  fixes uid :: uid
  assumes "relations_ok db"
    and "snap = load_snapshot now_secs now pending pending' registry cached db viewer request_id
      user_ids chat_ids"
  shows "find (\<lambda>p. up_uid p = uid) (snap_users snap) =
      (if uid \<notin> set user_ids \<or>
          uid \<noteq> viewer \<and> \<not> are_mutual_friends db viewer uid \<and> \<not> share_group db viewer uid then None
       else if uid \<noteq> viewer \<and> is_blocked_either_direction db viewer uid then Some (masked_presence uid)
       else Some (user_presence uid (uid = viewer \<or> shares_with db viewer uid \<and> shares_with db uid viewer)
         (personal_presence_at uid now_secs registry) (last_seen_shown pending pending' db uid) now)) \<and>
    (chat_id \<in> gp_chat_id ` set (snap_groups snap) \<longleftrightarrow> chat_id \<in> set chat_ids \<and>
      (\<exists>g \<in> set (groups db). g_id g = chat_id \<and> g_kind g = Group \<and>
        (\<exists>m \<in> set (memberships db). membership_key m = (chat_id, viewer))))"
proof (intro conjI)
  show "find (\<lambda>p. up_uid p = uid) (snap_users snap) =
      (if uid \<notin> set user_ids \<or>
          uid \<noteq> viewer \<and> \<not> are_mutual_friends db viewer uid \<and> \<not> share_group db viewer uid then None
       else if uid \<noteq> viewer \<and> is_blocked_either_direction db viewer uid then Some (masked_presence uid)
       else Some (user_presence uid (uid = viewer \<or> shares_with db viewer uid \<and> shares_with db uid viewer)
         (personal_presence_at uid now_secs registry) (last_seen_shown pending pending' db uid) now))"
    unfolding assms(2) snapshot_users
    by (cases "user_ids = []") (simp_all add: load_visible_users_find [OF assms(1)])
  have chats: "unique_ids chat_ids = [] \<longleftrightarrow> chat_ids = []" by (metis set_unique_ids set_empty)
  have "gp_chat_id ` set (snap_groups snap) =
      (if chat_ids = [] then {} else set (load_visible_group_ids db viewer (unique_ids chat_ids)))"
    by (simp add: assms(2) load_snapshot_def Let_def image_image chats)
  then show "chat_id \<in> gp_chat_id ` set (snap_groups snap) \<longleftrightarrow> chat_id \<in> set chat_ids \<and>
      (\<exists>g \<in> set (groups db). g_id g = chat_id \<and> g_kind g = Group \<and>
        (\<exists>m \<in> set (memberships db). membership_key m = (chat_id, viewer)))"
    by (force simp: load_visible_group_ids_def set_select_rows joined_chats_def membership_key_def)
qed

lemma presence_snapshot_exact_witness:
  "find (\<lambda>p. up_uid p = 2) (snap_users (load_snapshot 0 172800 [] [] (registry_new :: unit registry) (\<lambda>_. None) sample_social
      1 None [2, 4] [9])) = Some (user_presence 2 False None None 172800) \<and>
    9 \<notin> gp_chat_id ` set (snap_groups (load_snapshot 0 172800 [] [] (registry_new :: unit registry) (\<lambda>_. None) sample_social
      1 None [2, 4] [9]))"
proof -
  have ok: "relations_ok sample_social" using sample_social_ok by (simp add: relations_ok_def)
  have facts: "are_mutual_friends sample_social 1 2" "\<not> shares_with sample_social 1 2"
    "\<not> is_blocked_either_direction sample_social 1 2"
    by (simp_all add: sample_social_simps are_mutual_friends_def is_friendship_of_def canonical_pair_def
        count_rows_def shares_with_def get_friend_presence_settings_def split_beta ok_or_def
        friend_presence_override_from_db_def is_blocked_either_direction_def exists_row_def is_block_of_def)
  show ?thesis
    using presence_snapshot_exact [OF ok refl, where uid = 2 and viewer = 1 and user_ids = "[2, 4]"
        and chat_ids = "[9]" and chat_id = 9 and now_secs = 0 and now = 172800 and pending = "[]"
        and pending' = "[]" and registry = "registry_new :: unit registry" and cached = "\<lambda>_. None" and request_id = None]
      facts
    by (simp add: last_seen_shown_def latest_def sample_social_simps find_user_extra_def
        personal_presence_at_def registry_new_def)
qed

end
