(* ===== verification/Presence_Changes.thy ===== *)
theory Presence_Changes
  imports Presence Friend_Requests
begin

text \<open>
  The presence changes that the API announces after a social operation
  (\<open>backend/src/services/api/friends.rs\<close>, \<open>services/api/blocks.rs\<close> and
  \<open>services/social.rs\<close>), against what those operations do to who sees whose presence.
\<close>

section \<open>Announcements\<close>

text \<open>The changes each handler sends, from what the social operation returned: \<open>delete_friend\<close> and
  \<open>unblock_user\<close> end with an error when nothing was removed.\<close>

definition user_policy_changed :: "uid \<Rightarrow> presence_change list" where
  "user_policy_changed uid = [UserPolicy uid]"

definition pair_policy_changed :: "uid \<Rightarrow> uid \<Rightarrow> presence_change list" where
  "pair_policy_changed a b = [PairPolicy a b]"

definition delete_friend_changes :: "uid \<Rightarrow> uid \<Rightarrow> bool \<Rightarrow> presence_change list" where
  "delete_friend_changes uid other removed = (if \<not> removed then [] else pair_policy_changed uid other)"

definition unblock_user_changes :: "uid \<Rightarrow> uid \<Rightarrow> bool \<Rightarrow> presence_change list" where
  "unblock_user_changes uid other removed = (if \<not> removed then [] else pair_policy_changed uid other)"

definition effect_changes :: "social_effect list \<Rightarrow> presence_change list" where
  "effect_changes effects =
     concat (map (\<lambda>e. case e of PairPolicyChanged a b \<Rightarrow> pair_policy_changed a b | _ \<Rightarrow> []) effects)"

text \<open>\<open>db\<close> is the state before the operation; \<open>effects\<close> is what creating or resolving a request
  reported.\<close>

fun announced_changes :: "social_op \<Rightarrow> tables \<Rightarrow> social_effect list \<Rightarrow> presence_change list" where
  "announced_changes (RemoveFriendship a b) db effects = delete_friend_changes a b (fst (remove_friendship a b db))"
| "announced_changes (SetPresence u v now) db effects = user_policy_changed u"
| "announced_changes (SetFriendPresence a b v) db effects = pair_policy_changed a b"
| "announced_changes (BlockUser a b now) db effects = pair_policy_changed a b"
| "announced_changes (UnblockUser a b) db effects = unblock_user_changes a b (fst (unblock_user a b db))"
| "announced_changes _ db effects = effect_changes effects"

lemmas changes_defs = user_policy_changed_def pair_policy_changed_def delete_friend_changes_def
  unblock_user_changes_def

section \<open>Who sees whom\<close>

text \<open>Whether the account is listed, masked by a block, or shown exactly to the viewer
  (\<open>presence_snapshot_exact\<close> of \<open>Presence\<close>).\<close>

definition presence_policy :: "tables \<Rightarrow> uid \<Rightarrow> uid \<Rightarrow> bool \<times> bool \<times> bool" where
  "presence_policy db viewer uid =
     (uid = viewer \<or> are_mutual_friends db viewer uid \<or> share_group db viewer uid,
      uid \<noteq> viewer \<and> is_blocked_either_direction db viewer uid,
      uid = viewer \<or> shares_with db viewer uid \<and> shares_with db uid viewer)"

text \<open>What the pair's friendship row says of presence.\<close>

definition friend_row :: "tables \<Rightarrow> uid \<Rightarrow> uid \<Rightarrow> (bool option \<times> bool option) option" where
  "friend_row db a b = map_option (\<lambda>r. (fs_uid1_shares_presence r, fs_uid2_shares_presence r))
     (first_row (is_friendship_of (canonical_pair a b)) (friendships db))"

lemma mutual_friends_row: "are_mutual_friends db a b \<longleftrightarrow> friend_row db a b \<noteq> None"
  by (auto simp: friend_row_def mutual_friends_iff first_row_None friendship_table.matches_iff)

lemma friend_settings_via_row:
  "get_friend_presence_settings db a b =
   (case friend_row db a b of None \<Rightarrow> Inl (NotFound ''Friendship not found'')
    | Some (v, w) \<Rightarrow> Inr (friend_presence_override_from_db (if a = fst (canonical_pair a b) then v else w)))"
  by (simp add: get_friend_presence_settings_def friend_row_def split_beta ok_or_def split: option.split)

lemma friend_settings_row:
  "friend_row db' a b = friend_row db a b \<Longrightarrow>
   get_friend_presence_settings db' a b = get_friend_presence_settings db a b"
  by (simp add: friend_settings_via_row)

lemma friend_row_comm: "friend_row db a b = friend_row db b a"
  by (cases "a = b") (simp_all add: friend_row_def canonical_pair_comm)

lemma shares_with_cong:
  assumes "friend_row db' a b = friend_row db a b"
    and "get_presence_settings db' a = get_presence_settings db a"
  shows "shares_with db' a b = shares_with db a b"
  unfolding shares_with_def assms(2) mutual_friends_row assms(1) friend_settings_row [OF assms(1)] ..

lemma presence_policy_cong:
  assumes "uid \<noteq> viewer \<Longrightarrow> friend_row db' viewer uid = friend_row db viewer uid"
    and "share_group db' viewer uid \<longleftrightarrow> share_group db viewer uid"
    and "uid \<noteq> viewer \<Longrightarrow>
      is_blocked_either_direction db' viewer uid \<longleftrightarrow> is_blocked_either_direction db viewer uid"
    and "uid \<noteq> viewer \<Longrightarrow> get_presence_settings db' viewer = get_presence_settings db viewer"
    and "uid \<noteq> viewer \<Longrightarrow> get_presence_settings db' uid = get_presence_settings db uid"
  shows "presence_policy db' viewer uid = presence_policy db viewer uid"
proof (cases "uid = viewer")
  case True
  then show ?thesis by (simp add: presence_policy_def)
next
  case False
  note row = assms(1) [OF False]
  then have row': "friend_row db' uid viewer = friend_row db uid viewer"
    using friend_row_comm by metis
  have "shares_with db' viewer uid = shares_with db viewer uid"
    by (rule shares_with_cong [OF row assms(4) [OF False]])
  moreover have "shares_with db' uid viewer = shares_with db uid viewer"
    by (rule shares_with_cong [OF row' assms(5) [OF False]])
  ultimately show ?thesis
    using assms(2) assms(3) [OF False] False
    by (simp add: presence_policy_def mutual_friends_row row)
qed

section \<open>What each operation leaves alone\<close>

lemma canonical_pair_eq_iff:
  "canonical_pair a b = canonical_pair c d \<longleftrightarrow> a = c \<and> b = d \<or> a = d \<and> b = c"
  by (auto simp: canonical_pair_def)

lemma unaffected_pair:
  assumes "\<not> affects (PairPolicy a b) viewer user_ids" and "uid \<in> set user_ids" and "uid \<noteq> viewer"
  shows "canonical_pair viewer uid \<noteq> canonical_pair a b"
  using assms by (auto simp: canonical_pair_eq_iff)

lemma share_group_frame:
  "groups db' = groups db \<Longrightarrow> memberships db' = memberships db \<Longrightarrow>
   share_group db' a b = share_group db a b"
  by (simp add: share_group_def)

lemma blocked_frame:
  "blocks db' = blocks db \<Longrightarrow> is_blocked_either_direction db' a b = is_blocked_either_direction db a b"
  by (simp add: is_blocked_either_direction_def)

lemma settings_frame:
  "user_extras db' = user_extras db \<Longrightarrow> get_presence_settings db' u = get_presence_settings db u"
  by (simp add: get_presence_settings_def find_user_extra_def)

lemma settings_upsert:
  assumes "ux_uid r = u" and "\<And>r. ux_uid (f r) = ux_uid r"
    and "x \<noteq> u \<or> ux_presence_visibility r = Everyone \<and>
      (\<forall>r. ux_presence_visibility (f r) = ux_presence_visibility r)"
  shows "get_presence_settings (db\<lparr>user_extras := upsert_row (\<lambda>r. ux_uid r = u) r f (user_extras db)\<rparr>) x =
    get_presence_settings db x"
proof (cases "x = u")
  case True
  then show ?thesis
    using user_extra_table.find_upsert [OF assms(1,2), of "user_extras db"] assms(3)
    by (auto simp: get_presence_settings_def find_user_extra_def split: option.split)
next
  case False
  then show ?thesis
    using user_extra_table.find_upsert_other [OF False assms(1,2), of "user_extras db"]
    by (simp add: get_presence_settings_def find_user_extra_def)
qed

lemma insert_friendship_other:
  assumes "k \<noteq> canonical_pair a b"
  shows "first_row (is_friendship_of k) (friendships (insert_friendship a b i t db)) =
    first_row (is_friendship_of k) (friendships db)"
proof -
  let ?r = "friendship_row_of \<lparr>nfs_uid1 = fst (canonical_pair a b), nfs_uid2 = snd (canonical_pair a b),
    nfs_initiated_by = i, nfs_created_at = t, nfs_uid1_shares_presence = None, nfs_uid2_shares_presence = None\<rparr>"
  have "\<not> is_friendship_of k ?r"
    using assms by (simp add: friendship_table.matches_iff) (simp add: friendship_key_def friendship_row_of_def)
  then show ?thesis
    by (simp add: insert_friendship_def split_beta insert_or_ignore_def first_row_append split: option.split)
qed

text \<open>Befriending two accounts: their friendship row, and their direct chat.\<close>

lemma befriend_policy:
  assumes "create_dm_for_friendship gid a b now db_now d (insert_friendship a b i t db1) = Inr (x, db')"
    and "groups db1 = groups db" and "memberships db1 = memberships db" and "friendships db1 = friendships db"
    and "blocks db1 = blocks db" and "user_extras db1 = user_extras db"
    and "\<not> affects (PairPolicy a b) viewer user_ids" and "uid \<in> set user_ids"
  shows "presence_policy db' viewer uid = presence_policy db viewer uid"
proof -
  let ?db1 = "insert_friendship a b i t db1"
  have frame: "groups ?db1 = groups db" "memberships ?db1 = memberships db"
    "blocks ?db1 = blocks db" "user_extras ?db1 = user_extras db"
    using assms(2-6) by (simp_all add: insert_friendship_def split_beta)
  obtain c kind where x: "x = (c, kind)" by (cases x)
  have dm: "friendships db' = friendships ?db1 \<and> blocks db' = blocks db \<and> user_extras db' = user_extras db \<and>
      (share_group db' v u \<longleftrightarrow> share_group db v u)" for v u
    using assms(1) [unfolded x]
  proof (cases rule: create_dm_cases)
    case (existing g)
    then show ?thesis using frame by (simp add: share_group_def)
  next
    case (fresh name)
    have "share_group db' v u \<longleftrightarrow> share_group db v u"
      unfolding share_group_def fresh(5)
      using frame fresh(3) by (auto simp: bex_Un)
    then show ?thesis using fresh(5) frame by simp
  qed
  have row: "friend_row db' viewer uid = friend_row db viewer uid" if "uid \<noteq> viewer"
  proof -
    have "canonical_pair viewer uid \<noteq> canonical_pair a b"
      by (rule unaffected_pair [OF assms(7,8) that])
    from insert_friendship_other [OF this, of i t db1] dm assms(4) show ?thesis
      by (simp add: friend_row_def)
  qed
  have dm': "blocks db' = blocks db" "user_extras db' = user_extras db"
    using dm by simp_all
  show ?thesis
    by (rule presence_policy_cong [OF row _ blocked_frame [OF dm'(1)] settings_frame [OF dm'(2)]
          settings_frame [OF dm'(2)]])
      (use dm in simp_all)
qed

lemma presence_policy_friendships:
  assumes "uid \<noteq> viewer \<Longrightarrow>
    friend_row (db\<lparr>friendships := x\<rparr>) viewer uid = friend_row db viewer uid"
  shows "presence_policy (db\<lparr>friendships := x\<rparr>) viewer uid = presence_policy db viewer uid"
  by (rule presence_policy_cong)
    (use assms in \<open>simp_all add: share_group_def is_blocked_either_direction_def get_presence_settings_def
      find_user_extra_def\<close>)

lemma delete_rows_none: "count_rows P rows = 0 \<Longrightarrow> delete_rows P rows = rows"
  by (induction rows) (auto simp: delete_rows_def count_rows_def split: if_splits)

lemma requests_only_policy:
  "presence_policy (db\<lparr>friend_requests := x\<rparr>) viewer uid = presence_policy db viewer uid"
  by (rule presence_policy_cong)
    (simp_all add: friend_row_def share_group_def is_blocked_either_direction_def get_presence_settings_def
      find_user_extra_def)

lemma user_extras_policy:
  assumes "get_presence_settings (db\<lparr>user_extras := x\<rparr>) viewer = get_presence_settings db viewer"
    and "get_presence_settings (db\<lparr>user_extras := x\<rparr>) uid = get_presence_settings db uid"
  shows "presence_policy (db\<lparr>user_extras := x\<rparr>) viewer uid = presence_policy db viewer uid"
  by (rule presence_policy_cong)
    (use assms in \<open>simp_all add: friend_row_def share_group_def is_blocked_either_direction_def\<close>)

lemma blocks_policy:
  assumes "\<not> affects (PairPolicy a b) viewer user_ids" and "uid \<in> set user_ids"
    and "\<And>k. k \<noteq> (a, b) \<Longrightarrow> k \<in> block_key ` set rows \<longleftrightarrow> k \<in> block_key ` set (blocks db)"
  shows "presence_policy (db\<lparr>blocks := rows\<rparr>) viewer uid = presence_policy db viewer uid"
proof -
  have "is_blocked_either_direction (db\<lparr>blocks := rows\<rparr>) viewer uid \<longleftrightarrow>
      is_blocked_either_direction db viewer uid" if "uid \<noteq> viewer"
  proof -
    have "(viewer, uid) \<noteq> (a, b)" "(uid, viewer) \<noteq> (a, b)"
      using unaffected_pair [OF assms(1,2) that] by (auto simp: canonical_pair_eq_iff)
    note keys = assms(3) [OF this(1)] assms(3) [OF this(2)]
    then show ?thesis by (auto simp: blocked_iff image_iff eq_commute)
  qed
  then show ?thesis
    by (intro presence_policy_cong)
      (simp_all add: friend_row_def share_group_def get_presence_settings_def find_user_extra_def)
qed

lemma friend_row_update:
  assumes "\<And>r. friendship_key (f r) = friendship_key r"
    and "canonical_pair viewer uid \<noteq> p \<or>
      (\<forall>r. fs_uid1_shares_presence (f r) = fs_uid1_shares_presence r \<and>
        fs_uid2_shares_presence (f r) = fs_uid2_shares_presence r)"
  shows "friend_row (db\<lparr>friendships := update_rows (is_friendship_of p) f (friendships db)\<rparr>) viewer uid =
    friend_row db viewer uid"
  using assms(2) by (auto simp: friend_row_def friendship_row_update [OF assms(1)] option.map_comp comp_def)

lemma friend_row_delete:
  assumes "canonical_pair viewer uid \<noteq> p"
  shows "friend_row (db\<lparr>friendships := delete_rows (is_friendship_of p) (friendships db)\<rparr>) viewer uid =
    friend_row db viewer uid"
  using assms friendship_table.find_delete [of "canonical_pair viewer uid" p] by (simp add: friend_row_def)

lemma unaffected_user:
  assumes "\<not> affects (UserPolicy u) viewer user_ids" and "uid \<in> set user_ids"
  shows "viewer \<noteq> u \<and> uid \<noteq> u"
  using assms by auto

lemma auto_accept_policy:
  assumes "auto_accept i a b now gid db_now d db = Inr ((q, chat, kind), db')"
    and "\<not> affects (PairPolicy a b) viewer user_ids" and "uid \<in> set user_ids"
  shows "presence_policy db' viewer uid = presence_policy db viewer uid"
  using assms(1)
proof (rule auto_accept_Inr)
  fix r
  assume "create_dm_for_friendship gid a b now db_now d (insert_friendship a b a now
      (db\<lparr>friend_requests := update_rows (\<lambda>r. fr_id r = i \<and> fr_from_uid r = b \<and> fr_to_uid r = a \<and>
        unresolved r) (decide Accepted now) (friend_requests db)\<rparr>)) = Inr ((chat, kind), db')"
  from befriend_policy [OF this, of db, OF _ _ _ _ _ assms(2,3)] show ?thesis by simp
qed

lemma resolve_policy:
  assumes "resolve_friend_request u i accept now gid db_now d db = Inr ((out, effects), db')"
    and "\<And>a b. PairPolicyChanged a b \<in> set effects \<Longrightarrow> \<not> affects (PairPolicy a b) viewer user_ids"
    and "uid \<in> set user_ids"
  shows "presence_policy db' viewer uid = presence_policy db viewer uid"
  using assms(1)
proof (rule resolve_Inr)
  fix r q
  let ?db1 = "db\<lparr>friend_requests := update_rows (\<lambda>r. fr_id r = i \<and> fr_to_uid r = u \<and> unresolved r)
    (decide (if accept then Accepted else Rejected) now) (friend_requests db)\<rparr>"
  assume *: "let db1 = ?db1
         in if accept then \<exists>g chat kind. out = Resolved q \<and>
              effects = [PairPolicyChanged (fr_from_uid r) u, AnnounceAccepted u (fr_from_uid r) chat kind] \<and>
              create_dm_for_friendship g (fr_from_uid r) u now db_now d
                (insert_friendship (fr_from_uid r) u (fr_from_uid r) now db1) = Inr ((chat, kind), db')
            else out = (if are_mutual_friends db (fr_from_uid r) u then RejectedWhileFriends q else Resolved q) \<and>
              effects = [] \<and> db' = db1"
  show ?thesis
  proof (cases accept)
    case True
    then obtain g chat kind where
      effects: "effects = [PairPolicyChanged (fr_from_uid r) u, AnnounceAccepted u (fr_from_uid r) chat kind]" and
      dm: "create_dm_for_friendship g (fr_from_uid r) u now db_now d
        (insert_friendship (fr_from_uid r) u (fr_from_uid r) now ?db1) = Inr ((chat, kind), db')"
      using * by (auto simp: Let_def)
    have "\<not> affects (PairPolicy (fr_from_uid r) u) viewer user_ids"
      by (rule assms(2)) (simp add: effects)
    from befriend_policy [OF dm, of db, OF _ _ _ _ _ this assms(3)] show ?thesis by simp
  next
    case False
    then have "db' = ?db1" using * by (simp add: Let_def)
    then show ?thesis by (simp add: requests_only_policy)
  qed
qed

lemma announced_effects:
  assumes "\<not> list_ex (\<lambda>c. affects c viewer user_ids) (effect_changes effects)"
    and "PairPolicyChanged a b \<in> set effects"
  shows "\<not> affects (PairPolicy a b) viewer user_ids"
  using assms by (force simp: list_ex_iff effect_changes_def pair_policy_changed_def)

text \<open>One operation at a time.\<close>

lemma creation_sound:
  assumes "social_exec d op db = Inr (effects, db')"
    and "uid \<in> set user_ids"
    and "\<not> list_ex (\<lambda>c. affects c viewer user_ids) (announced_changes op db effects)"
    and CreateRequest: "op = CreateRequest seen a b m now gid i db_now"
  shows "presence_policy db' viewer uid = presence_policy db viewer uid"
proof -
  from CreateRequest obtain out where created: "create_friend_request seen a b m now gid i db_now d db =
      Inr ((out, effects), db')"
    using assms(1) by (auto simp: map_sum_Inr)
  note quiet = announced_effects [OF assms(3) [unfolded CreateRequest announced_changes.simps]]
  from created quiet show ?thesis
    by (auto simp: create_friend_request_def split_beta Let_def result_simps insert_request_def
        requests_only_policy split: if_splits option.splits
        dest!: auto_accept_policy [OF _ _ assms(2)])
qed

lemma removal_sound:
  assumes "social_exec d op db = Inr (effects, db')"
    and "uid \<in> set user_ids"
    and "\<not> list_ex (\<lambda>c. affects c viewer user_ids) (announced_changes op db effects)"
    and RemoveFriendship: "op = RemoveFriendship a b"
  shows "presence_policy db' viewer uid = presence_policy db viewer uid"
proof -
  have removed: "db' = db\<lparr>friendships := delete_rows (is_friendship_of (canonical_pair a b)) (friendships db)\<rparr>"
    using assms(1) RemoveFriendship by (simp add: remove_friendship_def Let_def)
  show ?thesis
  proof (cases "are_mutual_friends db a b")
    case True
    then have quiet: "\<not> affects (PairPolicy a b) viewer user_ids"
      using assms(3) RemoveFriendship by (simp add: changes_defs remove_friendship_def are_mutual_friends_def Let_def)
    show ?thesis unfolding removed
      by (rule presence_policy_friendships) (rule friend_row_delete [OF unaffected_pair [OF quiet assms(2)]])
  next
    case False
    then have "delete_rows (is_friendship_of (canonical_pair a b)) (friendships db) = friendships db"
      by (intro delete_rows_none) (simp add: are_mutual_friends_def)
    then show ?thesis using removed by simp
  qed
qed

lemma friend_presence_sound:
  assumes "social_exec d op db = Inr (effects, db')"
    and "uid \<in> set user_ids"
    and "\<not> list_ex (\<lambda>c. affects c viewer user_ids) (announced_changes op db effects)"
    and SetFriendPresence: "op = SetFriendPresence a b v"
  shows "presence_policy db' viewer uid = presence_policy db viewer uid"
proof -
  from SetFriendPresence have quiet: "\<not> affects (PairPolicy a b) viewer user_ids" using assms(3) by (simp add: changes_defs)
  define f where "f = (\<lambda>r :: friendship_row. if a = fst (canonical_pair a b)
    then r\<lparr>fs_uid1_shares_presence := friend_presence_override_to_db v\<rparr>
    else r\<lparr>fs_uid2_shares_presence := friend_presence_override_to_db v\<rparr>)"
  from SetFriendPresence assms(1) have
    "db' = db\<lparr>friendships := update_rows (is_friendship_of (canonical_pair a b)) f (friendships db)\<rparr>"
    by (simp add: map_sum_Inr update_friend_presence_settings_def split_beta Let_def f_def split: if_splits)
  moreover have "friendship_key (f r) = friendship_key r" for r by (simp add: f_def friendship_key_def)
  ultimately show ?thesis
    by (auto intro!: presence_policy_friendships friend_row_update unaffected_pair [OF quiet assms(2)])
qed

lemma friend_receipts_sound:
  assumes "social_exec d op db = Inr (effects, db')"
    and "uid \<in> set user_ids"
    and "\<not> list_ex (\<lambda>c. affects c viewer user_ids) (announced_changes op db effects)"
    and SetFriendReceipts: "op = SetFriendReceipts a b v"
  shows "presence_policy db' viewer uid = presence_policy db viewer uid"
proof -
  define f where "f = (\<lambda>r :: friendship_row. if a = fst (canonical_pair a b)
    then r\<lparr>fs_uid1_shares_read_receipts := friend_read_receipt_override_to_db v\<rparr>
    else r\<lparr>fs_uid2_shares_read_receipts := friend_read_receipt_override_to_db v\<rparr>)"
  from SetFriendReceipts assms(1) have
    "db' = db\<lparr>friendships := update_rows (is_friendship_of (canonical_pair a b)) f (friendships db)\<rparr>"
    by (simp add: map_sum_Inr update_friend_read_receipt_settings_def split_beta Let_def f_def split: if_splits)
  moreover have "friendship_key (f r) = friendship_key r"
    "fs_uid1_shares_presence (f r) = fs_uid1_shares_presence r"
    "fs_uid2_shares_presence (f r) = fs_uid2_shares_presence r" for r
    by (simp_all add: f_def friendship_key_def)
  ultimately show ?thesis
    by (auto intro!: presence_policy_friendships friend_row_update)
qed

lemma unblock_sound:
  assumes "social_exec d op db = Inr (effects, db')"
    and "uid \<in> set user_ids"
    and "\<not> list_ex (\<lambda>c. affects c viewer user_ids) (announced_changes op db effects)"
    and UnblockUser: "op = UnblockUser a b"
  shows "presence_policy db' viewer uid = presence_policy db viewer uid"
proof -
  have removed: "db' = db\<lparr>blocks := delete_rows (is_block_of (a, b)) (blocks db)\<rparr>"
    using assms(1) UnblockUser by (simp add: unblock_user_def)
  show ?thesis
  proof (cases "count_rows (is_block_of (a, b)) (blocks db) = 0")
    case True
    then show ?thesis using removed by (simp add: delete_rows_none)
  next
    case False
    then have quiet: "\<not> affects (PairPolicy a b) viewer user_ids"
      using assms(3) UnblockUser by (simp add: changes_defs unblock_user_def)
    show ?thesis unfolding removed
      by (rule blocks_policy [OF quiet assms(2)])
        (auto simp: delete_rows_def is_block_of_def block_key_def image_iff)
  qed
qed



end
