(* ===== verification/Rpc_Methods.thy ===== *)
theory Rpc_Methods
  imports Rpc_Protocol Authentication Client_Tracking
begin

text \<open>
  The method table and the dispatcher (\<open>backend/src/rpc/methods.rs\<close>, the call context of
  \<open>rpc/mod.rs\<close>). The handlers of the registered methods, which decode their parameters and call
  the services, are a parameter, as are the generation check and the activity record in the
  world the dispatcher runs in; \<open>live_ops\<close> instantiates the two with the code of the
  authentication and client tracking components.
\<close>

section \<open>Methods\<close>

datatype execution_class = ReadCall | MutationCall | SessionCall | ControlCall

definition method_table :: "(string \<times> execution_class) list" where
  "method_table =
     [(''session.open'', SessionCall), (''auth.createDevSession'', SessionCall),
      (''auth.refresh'', SessionCall), (''session.ping'', ControlCall),
      (''session.setAppState'', ControlCall), (''presence.watch'', ControlCall),
      (''conversations.watchUnread'', ControlCall), (''conversations.watchStates'', ControlCall),
      (''messages.list'', ReadCall), (''messages.send'', MutationCall), (''messages.search'', ReadCall),
      (''messages.get'', ReadCall), (''messages.edit'', MutationCall), (''messages.delete'', MutationCall),
      (''messages.deleteMany'', MutationCall), (''messages.forward'', MutationCall),
      (''messages.forwardOne'', MutationCall), (''messages.listForwardedMessages'', ReadCall),
      (''messages.listForwardedBundleMessages'', ReadCall), (''messages.sendInThread'', MutationCall),
      (''reactions.list'', ReadCall), (''reactions.add'', MutationCall),
      (''reactions.remove'', MutationCall), (''pins.list'', ReadCall), (''pins.create'', MutationCall),
      (''pins.delete'', MutationCall), (''pins.listForThread'', ReadCall),
      (''pins.createForThread'', MutationCall), (''pins.deleteForThread'', MutationCall),
      (''savedMessages.listForChat'', ReadCall), (''savedMessages.list'', ReadCall),
      (''savedMessages.save'', MutationCall), (''savedMessages.deleteByMessage'', MutationCall),
      (''savedMessages.delete'', MutationCall), (''savedMessages.listForwardedMessages'', ReadCall),
      (''savedMessages.listForwardedBundleMessages'', ReadCall), (''chats.list'', ReadCall),
      (''chats.getTotalUnreadCount'', ReadCall), (''chats.archive'', MutationCall),
      (''chats.unarchive'', MutationCall), (''chats.markAsRead'', MutationCall),
      (''chats.markAsUnread'', MutationCall), (''chats.getUnreadCount'', ReadCall),
      (''chats.getReadReceipt'', ReadCall), (''chats.listMentions'', ReadCall),
      (''chats.listUnreadReactions'', ReadCall), (''chats.acknowledgeReactions'', MutationCall),
      (''threads.list'', ReadCall), (''threads.getUnreadCount'', ReadCall),
      (''threads.listForChat'', ReadCall), (''threads.listParticipants'', ReadCall),
      (''threads.markAsRead'', MutationCall), (''threads.getReadState'', ReadCall),
      (''threads.getSubscriptionStatus'', ReadCall), (''threads.subscribe'', MutationCall),
      (''threads.unsubscribe'', MutationCall), (''threads.archive'', MutationCall),
      (''threads.unarchive'', MutationCall), (''attachments.listForChat'', ReadCall),
      (''attachments.createUploadUrl'', MutationCall), (''attachments.getConfig'', ReadCall),
      (''groups.list'', ReadCall), (''groups.create'', MutationCall), (''groups.get'', ReadCall),
      (''groups.update'', MutationCall), (''groups.createAvatarUploadUrl'', MutationCall),
      (''groups.mute'', MutationCall), (''groups.unmute'', MutationCall),
      (''groups.updateNotificationSetting'', MutationCall), (''groups.updateSpeakingMode'', MutationCall),
      (''groups.listMembers'', ReadCall), (''groups.addMember'', MutationCall),
      (''groups.removeMember'', MutationCall), (''groups.updateMember'', MutationCall),
      (''groups.updateMemberSpeakingMode'', MutationCall), (''invites.list'', ReadCall),
      (''invites.create'', MutationCall), (''invites.send'', MutationCall), (''invites.get'', ReadCall),
      (''invites.getByCode'', ReadCall), (''invites.update'', MutationCall),
      (''invites.delete'', MutationCall), (''invites.redeem'', MutationCall), (''friends.list'', ReadCall),
      (''friends.getRelationship'', ReadCall), (''friends.remove'', MutationCall),
      (''friends.createRequest'', MutationCall), (''friends.listRequests'', ReadCall),
      (''friends.getPendingRequestCount'', ReadCall), (''friends.acceptRequest'', MutationCall),
      (''friends.rejectRequest'', MutationCall), (''friends.archiveRequest'', MutationCall),
      (''friends.getSettings'', ReadCall), (''friends.updateSettings'', MutationCall),
      (''friends.getAddInfo'', ReadCall), (''friends.getPresenceSettings'', ReadCall),
      (''friends.updatePresenceSettings'', MutationCall), (''friends.getReadReceiptSettings'', ReadCall),
      (''friends.updateReadReceiptSettings'', MutationCall), (''privacy.getPresenceSettings'', ReadCall),
      (''privacy.updatePresenceSettings'', MutationCall), (''privacy.getReadReceiptSettings'', ReadCall),
      (''privacy.updateReadReceiptSettings'', MutationCall), (''privacy.listExceptions'', ReadCall),
      (''privacy.clearExceptions'', MutationCall), (''blocks.list'', ReadCall),
      (''blocks.create'', MutationCall), (''blocks.delete'', MutationCall), (''users.getMe'', ReadCall),
      (''users.updateStickerPackOrder'', MutationCall), (''users.updateChatSettings'', MutationCall),
      (''users.search'', ReadCall), (''users.getNotificationSettings'', ReadCall),
      (''users.updateNotificationSettings'', MutationCall),
      (''users.listNotificationExceptions'', ReadCall),
      (''users.clearNotificationExceptions'', MutationCall), (''push.getVapidPublicKey'', ReadCall),
      (''push.getSubscriptionStatus'', ReadCall), (''push.subscribe'', MutationCall),
      (''push.unsubscribe'', MutationCall), (''stickers.listPacks'', ReadCall),
      (''stickers.createFromMessage'', MutationCall), (''stickers.createPack'', MutationCall),
      (''stickers.getPack'', ReadCall), (''stickers.updatePack'', MutationCall),
      (''stickers.deletePack'', MutationCall), (''stickers.listSubscribedPacks'', ReadCall),
      (''stickers.listOwnedPacks'', ReadCall), (''stickers.subscribeToPack'', MutationCall),
      (''stickers.unsubscribeFromPack'', MutationCall), (''stickers.addToPack'', MutationCall),
      (''stickers.removeFromPack'', MutationCall), (''stickers.get'', ReadCall),
      (''stickers.favorite'', MutationCall), (''stickers.unfavorite'', MutationCall),
      (''stickers.listFavorites'', ReadCall), (''serviceTokens.create'', MutationCall),
      (''serviceTokens.list'', ReadCall), (''serviceTokens.delete'', MutationCall),
      (''serviceTokens.rotate'', MutationCall), (''sessions.listClients'', ReadCall)]"

definition method_class :: "ustr \<Rightarrow> execution_class option" where
  "method_class name = map_option snd (find (\<lambda>(n, _). name = ascii n) method_table)"

definition registered_name :: "ustr \<Rightarrow> ustr" where
  "registered_name name = (if method_class name \<noteq> None then name else ascii ''unknown'')"

section \<open>Dispatching\<close>

record rpc_call_context =
  cx_session :: "verified_session option"
  cx_connection_id :: u64
  cx_rpc_id :: "rpc_id option"

definition context_session :: "rpc_call_context \<Rightarrow> app_error + verified_session" where
  "context_session ctx = ok_or (cx_session ctx) (Unauthorized ''Authentication required'')"

record 'w dispatch_ops =
  op_check :: "verified_session \<Rightarrow> 'w \<Rightarrow> (session_generation_failure + unit) \<times> 'w"
  op_activity :: "verified_session \<Rightarrow> 'w \<Rightarrow> (app_error + unit) \<times> 'w"
  op_handler :: "rpc_call_context \<Rightarrow> ustr \<Rightarrow> json option \<Rightarrow> 'w \<Rightarrow> (rpc_error + json) \<times> 'w"

definition dispatch_registered ::
  "'w dispatch_ops \<Rightarrow> rpc_call_context \<Rightarrow> ustr \<Rightarrow> json option \<Rightarrow> 'w \<Rightarrow> (rpc_error + json) \<times> 'w" where
  "dispatch_registered ops ctx name params w =
     (if method_class name \<noteq> None then op_handler ops ctx name params w
      else (Inl (rpc_error_new MethodNotFound), w))"

text \<open>Only the two calls that authenticate a connection are open to everybody.\<close>

definition opens_session :: "ustr \<Rightarrow> bool" where
  "opens_session name \<longleftrightarrow> name = ascii ''session.open'' \<or> name = ascii ''auth.createDevSession''"

definition call_refused :: "rpc_call_context \<Rightarrow> ustr \<Rightarrow> rpc_error option" where
  "call_refused ctx name =
     (if cx_session ctx = None \<and> \<not> opens_session name
      then Some (rpc_error_with_message CodeUnauthorized ''Authentication required'') else None)"

text \<open>The blocking worker of a \<open>Read\<close> or \<open>Mutation\<close>; the list holds what it sends to
  \<open>guard_failures\<close>.\<close>

definition dispatch_ordinary ::
  "'w dispatch_ops \<Rightarrow> rpc_call_context \<Rightarrow> ustr \<Rightarrow> json option \<Rightarrow> 'w \<Rightarrow>
   ((rpc_error + json) \<times> rpc_lifecycle_failure list) \<times> 'w" where
  "dispatch_ordinary ops ctx name params w =
     (case context_session ctx of
        Inl e \<Rightarrow> ((Inl (rpc_error_of e), []), w)
      | Inr session \<Rightarrow>
          (case op_check ops session w of
             (Inl cause, w1) \<Rightarrow>
               let failure = lifecycle_of_failure cause
               in ((Inl (rpc_error_of_lifecycle failure), if cx_rpc_id ctx = None then [failure] else []), w1)
           | (Inr _, w1) \<Rightarrow>
               (case op_activity ops session w1 of
                  (Inl e, w2) \<Rightarrow> ((Inl (rpc_error_of e), []), w2)
                | (Inr _, w2) \<Rightarrow>
                    (case dispatch_registered ops ctx name params w2 of (r, w3) \<Rightarrow> ((r, []), w3)))))"

definition respond :: "rpc_id option \<Rightarrow> rpc_error + json \<Rightarrow> rpc_response option" where
  "respond id_opt result =
     map_option (\<lambda>i. case result of Inr v \<Rightarrow> response_success i v | Inl e \<Rightarrow> response_error i e) id_opt"

definition result_code :: "rpc_error + json \<Rightarrow> rpc_error_code option" where
  "result_code result = (case result of Inl e \<Rightarrow> Some (re_code e) | Inr _ \<Rightarrow> None)"

definition dispatch_result ::
  "'w dispatch_ops \<Rightarrow> rpc_call_context \<Rightarrow> ustr \<Rightarrow> json option \<Rightarrow> 'w \<Rightarrow>
   ((rpc_error + json) \<times> rpc_lifecycle_failure list) \<times> 'w" where
  "dispatch_result ops ctx name params w =
     (case call_refused ctx name of
        Some e \<Rightarrow> ((Inl e, []), w)
      | None \<Rightarrow>
          (case method_class name of
             None \<Rightarrow> ((Inl (rpc_error_new MethodNotFound), []), w)
           | Some k \<Rightarrow>
               if k = ReadCall \<or> k = MutationCall then dispatch_ordinary ops ctx name params w
               else (case dispatch_registered ops ctx name params w of (r, w') \<Rightarrow> ((r, []), w'))))"

definition dispatch_call ::
  "'w dispatch_ops \<Rightarrow> rpc_call_context \<Rightarrow> rpc_call \<Rightarrow> 'w \<Rightarrow>
   (rpc_response option \<times> rpc_error_code option \<times> rpc_lifecycle_failure list) \<times> 'w" where
  "dispatch_call ops ctx call w =
     (case dispatch_result ops ctx (rc_method call) (rc_params call) w of
        ((result, failures), w') \<Rightarrow> ((respond (rc_id call) result, result_code result, failures), w'))"

section \<open>The dispatcher on the server's own state\<close>

text \<open>The generation cache, client tracking with the tables, and everything the handlers own.\<close>

record 'a live_world =
  lw_generations :: generation_cache
  lw_tracking :: tracking_state
  lw_app :: 'a

text \<open>Clock readings and connection outcomes of one dispatch.\<close>

record dispatch_env =
  de_instant :: int
  de_seen_at :: timestamp
  de_now :: timestamp
  de_tracking_instant :: int
  de_written_at :: int
  de_auth_conn_ok :: bool
  de_conn_ok :: bool
  de_tx_ok :: bool

definition live_ops ::
  "dispatch_env \<Rightarrow> (rpc_call_context \<Rightarrow> ustr \<Rightarrow> json option \<Rightarrow> 'a live_world \<Rightarrow> (rpc_error + json) \<times> 'a live_world) \<Rightarrow>
   'a live_world dispatch_ops" where
  "live_ops env handler =
     \<lparr>op_check = (\<lambda>session w.
        case check_session_generation_cause (de_auth_conn_ok env) (de_instant env) (ct_db (lw_tracking w))
            session (lw_generations w) of (r, c) \<Rightarrow> (r, w\<lparr>lw_generations := c\<rparr>)),
      op_activity = (\<lambda>session w.
        case record_activity (vs_uid session) (vs_client_id session) None (de_seen_at env) (de_now env)
            (de_tracking_instant env) (de_written_at env) (de_conn_ok env) (de_tx_ok env) (lw_tracking w) of
          (r, t) \<Rightarrow> (r, w\<lparr>lw_tracking := t\<rparr>)),
      op_handler = handler\<rparr>"

section \<open>Properties\<close>


section \<open>Example\<close>

definition late_run :: "(generation_cache, tables, uid, int) cache_run" where
  "late_run = fold (cache_exec load_generation store_generation apply_bump 1) [Keep 0, Pass (5 + 30 * 10 ^ 9)] bumped_run"

definition revoked_world :: "unit live_world" where
  "revoked_world =
     \<lparr>lw_generations = cr_cache late_run, lw_tracking = sample_tracking\<lparr>ct_db := cr_db late_run\<rparr>, lw_app = ()\<rparr>"

definition late_env :: dispatch_env where
  "late_env = \<lparr>de_instant = 10 + 30 * 10 ^ 9, de_seen_at = 0, de_now = 0, de_tracking_instant = 0,
     de_written_at = 0, de_auth_conn_ok = True, de_conn_ok = True, de_tx_ok = True\<rparr>"

definition late_call :: rpc_call where
  "late_call = \<lparr>rc_id = Some (IdString [49]), rc_method = ascii ''messages.list'', rc_params = None\<rparr>"

definition late_context :: rpc_call_context where
  "late_context = \<lparr>cx_session = Some old_session, cx_connection_id = 1, cx_rpc_id = Some (IdString [49])\<rparr>"

lemma late_call_class: "method_class (rc_method late_call) = Some ReadCall"
  by (simp add: late_call_def method_class_def method_table_def ascii_def)


end
