(* ===== verification/Rpc_Watches.thy ===== *)
theory Rpc_Watches
  imports Rpc_Methods Presence
begin

text \<open>
  The state that an RPC session shares between its tasks (\<open>SessionState\<close>, \<open>BoundSession\<close> and the
  watch subscriptions of \<open>backend/src/rpc/session.rs\<close>), with the validation of watched
  conversations (\<open>services/unread/conversations.rs\<close>, \<open>services/unread/states.rs\<close>).
\<close>

section \<open>Watched conversations\<close>

datatype conversation_category = CategoryGroup | CategoryDm | CategoryGroupThread | CategoryDmThread

record conversation_ref =
  cr_chat_id :: snowflake
  cr_thread_id :: "snowflake option"

record conversation_selector =
  cs_categories :: "conversation_category list"
  cs_include :: "conversation_ref list"
  cs_exclude :: "conversation_ref list"
  cs_archived :: bool

record conversation_view =
  cv_key :: ustr
  cv_selector :: conversation_selector

text \<open>\<open>String::len\<close>: the bytes of the UTF-8 encoding.\<close>

definition utf8_bytes :: "nat \<Rightarrow> nat" where
  "utf8_bytes c = (if c < 128 then 1 else if c < 2048 then 2 else if c < 65536 then 3 else 4)"

definition utf8_length :: "ustr \<Rightarrow> nat" where
  "utf8_length s = sum_list (map utf8_bytes s)"

definition positive_scope :: "conversation_ref \<Rightarrow> bool" where
  "positive_scope r \<longleftrightarrow> 0 < cr_chat_id r \<and> (case cr_thread_id r of None \<Rightarrow> True | Some t \<Rightarrow> 0 < t)"

fun validate_views :: "ustr list \<Rightarrow> nat \<Rightarrow> conversation_view list \<Rightarrow> app_error + unit" where
  "validate_views keys refs [] = Inr ()"
| "validate_views keys refs (v # vs) =
     (if cv_key v = [] \<or> utf8_length (cv_key v) > 128 \<or> cv_key v \<in> set keys
      then Inl (BadRequest ''View keys must be unique and contain 1 to 128 bytes'')
      else let s = cv_selector v; refs' = refs + length (cs_include s) + length (cs_exclude s)
           in if refs' > 2048 \<or> length (cs_categories s) > 4
              then Inl (BadRequest ''Too many conversation selectors'')
              else if list_ex (\<lambda>r. \<not> positive_scope r) (cs_include s @ cs_exclude s)
              then Inl (BadRequest ''Conversation IDs must be positive'')
              else validate_views (cv_key v # keys) refs' vs)"

definition validate_conversation_views :: "conversation_view list \<Rightarrow> app_error + unit" where
  "validate_conversation_views views =
     (if length views > 32 then Inl (BadRequest ''At most 32 conversation views are allowed'')
      else validate_views [] 0 views)"

definition max_scopes :: nat where
  "max_scopes = 512"

definition valid_scopes :: "conversation_ref list \<Rightarrow> bool" where
  "valid_scopes scopes \<longleftrightarrow>
     length scopes \<le> max_scopes \<and> distinct scopes \<and> list_all positive_scope scopes"

section \<open>Subscriptions\<close>

record unread_watch =
  uw_request_id :: u32
  uw_generation :: u64
  uw_views :: "conversation_view list"
  uw_app_badge :: bool

record state_watch =
  sw_request_id :: u32
  sw_generation :: u64
  sw_conversations :: "conversation_ref list"

text \<open>A \<open>VersionedPresenceWatch\<close> is the pair of its generation and its scope.\<close>

record bound_session =
  bs_session :: verified_session
  bs_conn_id :: u64
  bs_presence :: "(u64 \<times> presence_watch) option"
  bs_unread :: "unread_watch option"
  bs_states :: "state_watch option"

record session_state =
  ss_opened :: bool
  ss_accepting :: bool
  ss_lifecycle_notified :: bool
  ss_anonymous_until :: "int option"
  ss_anonymous_app_version :: "ustr option"
  ss_bound :: "bound_session option"
  ss_activated :: bool
  ss_next_watch_generation :: u64

definition session_state_default :: session_state where
  "session_state_default =
     \<lparr>ss_opened = False, ss_accepting = True, ss_lifecycle_notified = False, ss_anonymous_until = None,
      ss_anonymous_app_version = None, ss_bound = None, ss_activated = False, ss_next_watch_generation = 0\<rparr>"

definition anonymous_session_timeout :: int where
  "anonymous_session_timeout = 30 * 10 ^ 9"

definition unauthenticated :: rpc_error where
  "unauthenticated = rpc_error_with_message CodeUnauthorized ''Authentication required''"

definition anonymous_expired :: "int \<Rightarrow> session_state \<Rightarrow> bool" where
  "anonymous_expired now s \<longleftrightarrow> (case ss_anonymous_until s of None \<Rightarrow> False | Some deadline \<Rightarrow> deadline \<le> now)"

definition binding_app_version :: "ustr option \<Rightarrow> session_state \<Rightarrow> ustr option" where
  "binding_app_version app_version s =
     (case app_version of Some v \<Rightarrow> Some v | None \<Rightarrow> ss_anonymous_app_version s)"

definition mark_anonymous :: "int \<Rightarrow> ustr option \<Rightarrow> session_state \<Rightarrow> (rpc_error + unit) \<times> session_state" where
  "mark_anonymous now app_version s =
     (if ss_opened s then (Inl (rpc_error_with_message CodeConflict ''Session already opened''), s)
      else (Inr (), s\<lparr>ss_opened := True, ss_anonymous_until := Some (now + anonymous_session_timeout),
                      ss_anonymous_app_version := app_version\<rparr>))"

definition next_watch_generation :: "session_state \<Rightarrow> u64 \<times> session_state" where
  "next_watch_generation s =
     (let g = ss_next_watch_generation s + 1; g' = (if g = 0 then 1 else g)
      in (g', s\<lparr>ss_next_watch_generation := g'\<rparr>))"

text \<open>The three replacements differ in the subscription they set; the generation is spent even
  when nobody is bound.\<close>

definition replace_watch ::
  "(u64 \<Rightarrow> bound_session \<Rightarrow> bound_session) \<Rightarrow> session_state \<Rightarrow> (rpc_error + unit) \<times> session_state" where
  "replace_watch install s =
     (if \<not> ss_accepting s then (Inl unauthenticated, s)
      else let (generation, s') = next_watch_generation s
           in case ss_bound s' of
                None \<Rightarrow> (Inl unauthenticated, s')
              | Some bound \<Rightarrow> (Inr (), s'\<lparr>ss_bound := Some (install generation bound)\<rparr>))"

definition replace_presence_watch ::
  "presence_watch option \<Rightarrow> session_state \<Rightarrow> (rpc_error + unit) \<times> session_state" where
  "replace_presence_watch watch =
     replace_watch (\<lambda>generation bound. bound\<lparr>bs_presence := map_option (\<lambda>w. (generation, w)) watch\<rparr>)"

definition replace_unread_watch ::
  "unread_watch option \<Rightarrow> session_state \<Rightarrow> (rpc_error + unit) \<times> session_state" where
  "replace_unread_watch watch =
     replace_watch (\<lambda>generation bound. bound\<lparr>bs_unread := map_option (\<lambda>w. w\<lparr>uw_generation := generation\<rparr>) watch\<rparr>)"

definition replace_states_watch ::
  "state_watch option \<Rightarrow> session_state \<Rightarrow> (rpc_error + unit) \<times> session_state" where
  "replace_states_watch watch =
     replace_watch (\<lambda>generation bound. bound\<lparr>bs_states := map_option (\<lambda>w. w\<lparr>sw_generation := generation\<rparr>) watch\<rparr>)"

datatype watch_identity =
    PresenceIdentity u64 "u64 option"
  | UnreadIdentity u64 u32
  | StatesIdentity u64 u32

fun current_watch_matches :: "bound_session \<Rightarrow> watch_identity \<Rightarrow> bool" where
  "current_watch_matches bound (PresenceIdentity generation request_id) \<longleftrightarrow>
     (case bs_presence bound of None \<Rightarrow> False
      | Some (g, w) \<Rightarrow> g = generation \<and> pw_request_id w = request_id)"
| "current_watch_matches bound (UnreadIdentity generation request_id) \<longleftrightarrow>
     (case bs_unread bound of None \<Rightarrow> False
      | Some w \<Rightarrow> uw_generation w = generation \<and> uw_request_id w = request_id)"
| "current_watch_matches bound (StatesIdentity generation request_id) \<longleftrightarrow>
     (case bs_states bound of None \<Rightarrow> False
      | Some w \<Rightarrow> sw_generation w = generation \<and> sw_request_id w = request_id)"

definition activate :: "session_state \<Rightarrow> session_state" where
  "activate s =
     (if \<not> ss_accepting s \<or> ss_activated s \<or> ss_bound s = None then s else s\<lparr>ss_activated := True\<rparr>)"

definition suspend_authorized_work :: "session_state \<Rightarrow> session_state" where
  "suspend_authorized_work s = s\<lparr>ss_accepting := False\<rparr>"

end
