(* ===== verification/Rpc_Session.thy ===== *)
theory Rpc_Session
  imports Rpc_Watches "HOL-Library.AList"
begin

text \<open>
  The RPC session engine (\<open>backend/src/rpc/session.rs\<close>, \<open>rpc/methods/control.rs\<close>): the session
  loop with its admission, batches and answers, the dispatcher tasks, the serial control lane
  and the forwarders of events, as a machine over the events that drive them. One event is one
  iteration of a task's loop and is atomic.

  Parameters (\<open>session_env\<close>): the JSON parser, the lengths of serialized answers and
  notifications (\<open>None\<close> when serialization fails), the typed decoding of control parameters, and
  the outcomes of what depends on other tasks: the n-th attempt to reserve bytes, to enqueue a
  frame within the deadline, or to get a permit of the process-wide semaphore.
\<close>

section \<open>Limits\<close>

definition max_frame_bytes :: nat where
  "max_frame_bytes = 50 * 1024 * 1024"

definition max_batch_items :: nat where
  "max_batch_items = 32"

definition max_in_flight :: nat where
  "max_in_flight = 16"

definition max_queued_bytes :: nat where
  "max_queued_bytes = 64 * 1024 * 1024"

definition control_queue :: nat where
  "control_queue = 8"

section \<open>State\<close>

datatype control_command =
    OpenSession "8 word" "ustr option" "ustr option"
  | CreateDevSession uid "ustr option"
  | Refresh
  | Ping "online_client_status option"
  | SetAppState "online_client_status option"
  | WatchPresence "u64 option" "uid list option" "ustr list option"
  | WatchUnread u32 "conversation_view list" bool
  | WatchStates u32 "conversation_ref list"

record prepared =
  pp_response :: rpc_response
  pp_bytes :: nat
  pp_success :: bool
  pp_oversized :: bool
  pp_lifecycle :: "rpc_lifecycle_failure option"

datatype rpc_io_error = IoClosed | FrameTooLarge | BudgetExhausted

datatype 'p frame =
    FrameResponse prepared
  | FrameBatch "prepared list"
  | FrameEvent "'p server_ws_message"
  | FrameWatch watch_identity "'p server_ws_message"
  | FrameLifecycle rpc_lifecycle_failure

datatype destination = ToSingle | ToBatch u64

text \<open>A dispatcher task waits for the control lane once its command is queued.\<close>

datatype work_stage = Spawned | Waiting | Replied "rpc_error + json"

record work =
  wk_no :: nat
  wk_call :: rpc_call
  wk_context :: rpc_call_context
  wk_destination :: destination
  wk_close_after_error :: bool
  wk_stage :: work_stage

record work_result =
  wr_id :: "rpc_id option"
  wr_destination :: destination
  wr_response :: "prepared option"
  wr_close_after_error :: bool
  wr_activate_after_success :: bool
  wr_counts_toward_batch :: bool

record batch_assembly =
  ba_pending :: nat
  ba_responses :: "prepared list"
  ba_request_ids :: "rpc_id list"
  ba_lifecycle :: "rpc_lifecycle_failure option"
  ba_close_after_error :: bool
  ba_activate_after_success :: bool

text \<open>
  \<open>sn_detached\<close> is the session's connection entry once somebody else removed it from the registry:
  the session keeps its own reference. \<open>sn_taken\<close> and \<open>sn_sent\<close> are the log: the ids of the
  requests taken from frames, and the frames handed to the transport.
\<close>

record 'p rpc_session =
  sn_state :: session_state
  sn_closed :: bool
  sn_stopped :: bool
  sn_first_message :: bool
  sn_handshake_pending :: bool
  sn_next_batch :: u64
  sn_batches :: "(u64 \<times> batch_assembly) list"
  sn_outstanding :: "rpc_id set"
  sn_work :: "work list"
  sn_next_work :: nat
  sn_lane :: "(nat \<times> control_command) list"
  sn_executing :: "(nat \<times> control_command) option"
  sn_results :: "work_result list"
  sn_guard :: "rpc_lifecycle_failure list"
  sn_registry :: "'p registry"
  sn_detached :: "'p connection_entry option"
  sn_taken :: "rpc_id list"
  sn_sent :: "'p frame list"
  sn_tosses :: nat

record ('t, 'p) session_env =
  se_parse :: "'t \<Rightarrow> json option"
  se_size :: "rpc_response \<Rightarrow> nat option"
  se_event_size :: "'p server_ws_message \<Rightarrow> nat option"
  se_lifecycle_size :: "rpc_lifecycle_failure \<Rightarrow> nat option"
  se_decode :: "ustr \<Rightarrow> json option \<Rightarrow> rpc_error + control_command"
  se_toss :: "nat \<Rightarrow> bool"

definition session_start :: "'p registry \<Rightarrow> 'p rpc_session" where
  "session_start registry =
     \<lparr>sn_state = session_state_default, sn_closed = False, sn_stopped = False, sn_first_message = True,
      sn_handshake_pending = False, sn_next_batch = 0, sn_batches = [], sn_outstanding = {}, sn_work = [],
      sn_next_work = 0, sn_lane = [], sn_executing = None, sn_results = [], sn_guard = [],
      sn_registry = registry, sn_detached = None, sn_taken = [], sn_sent = [], sn_tosses = 0\<rparr>"

definition on_state :: "(session_state \<Rightarrow> session_state) \<Rightarrow> 'p rpc_session \<Rightarrow> 'p rpc_session" where
  "on_state f st = st\<lparr>sn_state := f (sn_state st)\<rparr>"

section \<open>Transport\<close>

definition toss :: "('t, 'p) session_env \<Rightarrow> 'p rpc_session \<Rightarrow> bool \<times> 'p rpc_session" where
  "toss env st = (se_toss env (sn_tosses st), st\<lparr>sn_tosses := Suc (sn_tosses st)\<rparr>)"

definition close :: "'p rpc_session \<Rightarrow> 'p rpc_session" where
  "close st = st\<lparr>sn_closed := True\<rparr>"

definition reserve :: "('t, 'p) session_env \<Rightarrow> nat \<Rightarrow> 'p rpc_session \<Rightarrow> (rpc_io_error + unit) \<times> 'p rpc_session" where
  "reserve env bytes st =
     (if bytes > max_queued_bytes then (Inl BudgetExhausted, st)
      else if bytes = 0 then (Inr (), st)
      else case toss env st of (granted, st') \<Rightarrow> (if granted then Inr () else Inl BudgetExhausted, st'))"

definition send_prepared :: "('t, 'p) session_env \<Rightarrow> 'p frame \<Rightarrow> 'p rpc_session \<Rightarrow> bool \<times> 'p rpc_session" where
  "send_prepared env frame st =
     (if sn_closed st then (False, st)
      else case toss env st of (in_time, st') \<Rightarrow>
        (if in_time then (True, st'\<lparr>sn_sent := sn_sent st' @ [frame]\<rparr>) else (False, close st')))"

definition send_text :: "('t, 'p) session_env \<Rightarrow> nat \<Rightarrow> 'p frame \<Rightarrow> 'p rpc_session \<Rightarrow> bool \<times> 'p rpc_session" where
  "send_text env bytes frame st =
     (if bytes > max_frame_bytes then (False, close st)
      else case reserve env bytes st of
        (Inl _, st') \<Rightarrow> (False, close st')
      | (Inr _, st') \<Rightarrow> send_prepared env frame st')"

definition prepare_response ::
  "('t, 'p) session_env \<Rightarrow> rpc_response \<Rightarrow> 'p rpc_session \<Rightarrow> (rpc_io_error + prepared) \<times> 'p rpc_session" where
  "prepare_response env response st =
     (case se_size env response of
        None \<Rightarrow> (Inl IoClosed, st)
      | Some bytes \<Rightarrow>
          let p = (if bytes > max_frame_bytes
                   then let e = response_error (rr_id response) (rpc_error_new CodePayloadTooLarge)
                        in map_option (\<lambda>n. \<lparr>pp_response = e, pp_bytes = n, pp_success = False,
                             pp_oversized = True, pp_lifecycle = None\<rparr>) (se_size env e)
                   else Some \<lparr>pp_response = response, pp_bytes = bytes,
                     pp_success = (case rr_outcome response of Success _ \<Rightarrow> True | Failure _ \<Rightarrow> False),
                     pp_oversized = False, pp_lifecycle = lifecycle_failure response\<rparr>)
          in case p of
               None \<Rightarrow> (Inl IoClosed, st)
             | Some p \<Rightarrow> (case reserve env (pp_bytes p) st of
                   (Inl e, st') \<Rightarrow> (Inl e, st') | (Inr _, st') \<Rightarrow> (Inr p, st')))"

text \<open>\<open>prepare_recorded\<close>, \<open>record_rejection\<close>: metrics aside, an optional answer is prepared.\<close>

definition prepare_recorded ::
  "('t, 'p) session_env \<Rightarrow> rpc_response option \<Rightarrow> 'p rpc_session \<Rightarrow>
   (rpc_io_error + prepared option) \<times> 'p rpc_session" where
  "prepare_recorded env response st =
     (case response of None \<Rightarrow> (Inr None, st)
      | Some r \<Rightarrow> apfst (map_sum id Some) (prepare_response env r st))"

definition flat_ok :: "'e + 'a option \<Rightarrow> 'a option" where
  "flat_ok r = (case r of Inl _ \<Rightarrow> None | Inr v \<Rightarrow> v)"

definition send_answer :: "('t, 'p) session_env \<Rightarrow> prepared \<Rightarrow> 'p rpc_session \<Rightarrow> bool \<times> 'p rpc_session" where
  "send_answer env p = send_prepared env (FrameResponse p)"

section \<open>The bound connection\<close>

definition session_entry :: "'p rpc_session \<Rightarrow> 'p connection_entry option" where
  "session_entry st =
     Option.bind (ss_bound (sn_state st)) (\<lambda>b.
       case find (\<lambda>e. ce_conn_id e = bs_conn_id b) (entries_of (sn_registry st) (vs_uid (bs_session b))) of
         Some e \<Rightarrow> Some e | None \<Rightarrow> sn_detached st)"

definition on_session_entry ::
  "('p connection_entry \<Rightarrow> 'p connection_entry) \<Rightarrow> 'p rpc_session \<Rightarrow> 'p rpc_session" where
  "on_session_entry f st =
     (case ss_bound (sn_state st) of None \<Rightarrow> st
      | Some b \<Rightarrow> st\<lparr>sn_registry := on_entry (vs_uid (bs_session b)) (bs_conn_id b) f (sn_registry st),
                       sn_detached := map_option f (sn_detached st)\<rparr>)"

definition bind_session :: "u64 \<Rightarrow> verified_session \<Rightarrow> 'p rpc_session \<Rightarrow> (rpc_error + unit) \<times> 'p rpc_session" where
  "bind_session now_secs session st =
     (if sn_closed st then (Inl (rpc_error_with_message Unavailable ''Session unavailable''), st)
      else let (conn_id, registry) = register (vs_uid session) (vs_client_id session) now_secs (sn_registry st)
           in if \<not> ss_accepting (sn_state st) \<or> ss_bound (sn_state st) \<noteq> None
              then (Inl (rpc_error_with_message CodeConflict ''Session already authenticated''),
                    st\<lparr>sn_registry := remove_connection (vs_uid session) conn_id registry\<rparr>)
              else (Inr (), on_state (\<lambda>s. s\<lparr>ss_anonymous_app_version := None, ss_opened := True,
                       ss_anonymous_until := None,
                       ss_bound := Some \<lparr>bs_session = session, bs_conn_id = conn_id, bs_presence = None,
                         bs_unread = None, bs_states = None\<rparr>\<rparr>)
                     (st\<lparr>sn_registry := registry\<rparr>)))"

definition remove_registration :: "'p rpc_session \<Rightarrow> 'p rpc_session" where
  "remove_registration st =
     (case ss_bound (sn_state st) of None \<Rightarrow> st
      | Some b \<Rightarrow> on_state (\<lambda>s. s\<lparr>ss_bound := None\<rparr>)
          (st\<lparr>sn_registry := remove_connection (vs_uid (bs_session b)) (bs_conn_id b) (sn_registry st)\<rparr>))"

text \<open>What follows the loop: every \<open>break\<close>.\<close>

definition stop :: "'p rpc_session \<Rightarrow> 'p rpc_session" where
  "stop st = remove_registration ((close st)\<lparr>sn_stopped := True\<rparr>)"

section \<open>The control lane\<close>

text \<open>
  What the services answered a command: the verified token, the generation guard, the activity
  record of a bind, a new development session with its token, a refreshed token, the clocks, and
  the interference on the connection's state word.
\<close>

record control_answers =
  ca_verify :: "rpc_error + verified_session"
  ca_guard :: "rpc_error + unit"
  ca_activity :: "rpc_error + unit"
  ca_issue :: "rpc_error + ustr \<times> verified_session"
  ca_token :: "rpc_error + ustr"
  ca_now :: int
  ca_now_secs :: u64
  ca_observed :: "u64 list"

definition session_open_json :: "verified_session option \<Rightarrow> json" where
  "session_open_json session =
     JObj ([(ascii ''protocolVersion'', JNumber (Integer 1)), (ascii ''authenticated'', JBool (session \<noteq> None))] @
       (case session of None \<Rightarrow> []
        | Some s \<Rightarrow> [(ascii ''uid'', JNumber (Integer (vs_uid s))), (ascii ''clientId'', JStr (vs_client_id s))]))"

definition auth_token_json :: "ustr \<Rightarrow> json" where
  "auth_token_json token = JObj [(ascii ''token'', JStr token)]"

definition guard_bound ::
  "control_answers \<Rightarrow> 'p rpc_session \<Rightarrow> rpc_error + bound_session" where
  "guard_bound ca st =
     and_then (ok_or (ss_bound (sn_state st)) unauthenticated) (\<lambda>b. and_then (ca_guard ca) (\<lambda>_. Inr b))"

definition bind_authenticated ::
  "control_answers \<Rightarrow> json \<Rightarrow> verified_session \<Rightarrow> 'p rpc_session \<Rightarrow> (rpc_error + json) \<times> 'p rpc_session" where
  "bind_authenticated ca response session st =
     (case ca_activity ca of
        Inl e \<Rightarrow> (Inl e, st)
      | Inr _ \<Rightarrow> apfst (map_sum id (\<lambda>_. response)) (bind_session (ca_now_secs ca) session st))"

definition report_app_state ::
  "control_answers \<Rightarrow> app_presence_state \<Rightarrow> 'p rpc_session \<Rightarrow> (rpc_error + json) \<times> 'p rpc_session" where
  "report_app_state ca state st =
     (case guard_bound ca st of
        Inl e \<Rightarrow> (Inl e, st)
      | Inr _ \<Rightarrow>
          let st' = on_session_entry (update_app_state_at state (ca_now_secs ca) (ca_observed ca)) st
          in (Inr JNull, st'\<lparr>sn_registry := update_metrics (sn_registry st')\<rparr>))"

definition app_presence_state_or :: "app_presence_state \<Rightarrow> online_client_status option \<Rightarrow> app_presence_state" where
  "app_presence_state_or fallback status =
     (case status of None \<Rightarrow> fallback | Some s \<Rightarrow> app_presence_state_of s)"

text \<open>A watch replacement as a command: guarded, validated, then installed.\<close>

definition replace_with ::
  "(session_state \<Rightarrow> (rpc_error + unit) \<times> session_state) \<Rightarrow> 'p rpc_session \<Rightarrow> (rpc_error + json) \<times> 'p rpc_session" where
  "replace_with replace st =
     (case replace (sn_state st) of (r, s) \<Rightarrow> (map_sum id (\<lambda>_. JNull) r, st\<lparr>sn_state := s\<rparr>))"

definition watch_control ::
  "control_answers \<Rightarrow> bool \<Rightarrow> (session_state \<Rightarrow> (rpc_error + unit) \<times> session_state) \<Rightarrow> 'p rpc_session \<Rightarrow>
   (rpc_error + json) \<times> 'p rpc_session" where
  "watch_control ca valid replace st =
     (case guard_bound ca st of
        Inl e \<Rightarrow> (Inl e, st)
      | Inr _ \<Rightarrow> if \<not> valid then (Inl (rpc_error_new InvalidParams), st) else replace_with replace st)"

fun handle_control ::
  "control_answers \<Rightarrow> control_command \<Rightarrow> 'p rpc_session \<Rightarrow> (rpc_error + json) \<times> 'p rpc_session" where
  "handle_control ca (OpenSession protocol_version token app_version) st =
     (if protocol_version \<noteq> 1 then (Inl (rpc_error_new InvalidParams), st)
      else if ss_opened (sn_state st)
      then (case (if ss_bound (sn_state st) = None then Inr () else map_sum id (\<lambda>_. ()) (guard_bound ca st)) of
              Inl e \<Rightarrow> (Inl e, st)
            | Inr _ \<Rightarrow> (Inl (rpc_error_with_message CodeConflict ''Session already opened''), st))
      else case token of
          Some _ \<Rightarrow>
            (case ca_verify ca of
               Inl e \<Rightarrow> (Inl e, st)
             | Inr session \<Rightarrow> bind_authenticated ca (session_open_json (Some session)) session st)
        | None \<Rightarrow>
            (case mark_anonymous (ca_now ca) app_version (sn_state st) of
               (r, s) \<Rightarrow> (map_sum id (\<lambda>_. session_open_json None) r, st\<lparr>sn_state := s\<rparr>)))"
| "handle_control ca (CreateDevSession uid client_id) st =
     (if \<not> ss_opened (sn_state st) then (Inl unauthenticated, st)
      else if ss_bound (sn_state st) \<noteq> None
      then (case guard_bound ca st of
              Inl e \<Rightarrow> (Inl e, st)
            | Inr _ \<Rightarrow> (Inl (rpc_error_with_message CodeConflict ''Session already authenticated''), st))
      else case ca_issue ca of
          Inl e \<Rightarrow> (Inl e, st)
        | Inr (token, session) \<Rightarrow> bind_authenticated ca (auth_token_json token) session st)"
| "handle_control ca Refresh st =
     (and_then (guard_bound ca st) (\<lambda>_. and_then (ca_activity ca) (\<lambda>_.
        map_sum id auth_token_json (ca_token ca))), st)"
| "handle_control ca (Ping state) st = report_app_state ca (app_presence_state_or Active state) st"
| "handle_control ca (SetAppState state) st = report_app_state ca (app_presence_state_or Inactive state) st"
| "handle_control ca (WatchPresence request_id user_ids chat_ids) st =
     watch_control ca
       (list_all (\<lambda>uid. 0 < uid) (or_default user_ids) \<and>
        (case validate_presence_watch request_id user_ids chat_ids of Inl _ \<Rightarrow> False | Inr _ \<Rightarrow> True))
       (replace_presence_watch
         (case validate_presence_watch request_id user_ids chat_ids of Inl _ \<Rightarrow> None | Inr w \<Rightarrow> w)) st"
| "handle_control ca (WatchUnread request_id views app_badge) st =
     watch_control ca (validate_conversation_views views = Inr ())
       (replace_unread_watch
         (if views \<noteq> [] \<or> app_badge
          then Some \<lparr>uw_request_id = request_id, uw_generation = 0, uw_views = views, uw_app_badge = app_badge\<rparr>
          else None)) st"
| "handle_control ca (WatchStates request_id conversations) st =
     watch_control ca (valid_scopes conversations)
       (replace_states_watch
         (if conversations \<noteq> []
          then Some \<lparr>sw_request_id = request_id, sw_generation = 0, sw_conversations = conversations\<rparr>
          else None)) st"

section \<open>Dispatcher tasks\<close>

definition find_work :: "nat \<Rightarrow> 'p rpc_session \<Rightarrow> work option" where
  "find_work no st = find (\<lambda>w. wk_no w = no) (sn_work st)"

definition drop_work :: "nat \<Rightarrow> 'p rpc_session \<Rightarrow> 'p rpc_session" where
  "drop_work no st = st\<lparr>sn_work := filter (\<lambda>w. wk_no w \<noteq> no) (sn_work st)\<rparr>"

definition set_stage :: "nat \<Rightarrow> work_stage \<Rightarrow> 'p rpc_session \<Rightarrow> 'p rpc_session" where
  "set_stage no stage st =
     st\<lparr>sn_work := map (\<lambda>w. if wk_no w = no then w\<lparr>wk_stage := stage\<rparr> else w) (sn_work st)\<rparr>"

definition activates :: "rpc_call \<Rightarrow> bool" where
  "activates call \<longleftrightarrow> opens_session (rc_method call)"

definition counts_toward_batch :: "rpc_call \<Rightarrow> bool" where
  "counts_toward_batch call \<longleftrightarrow> rc_id call \<noteq> None \<or> activates call"

text \<open>The end of a task: its answer is prepared and its result queued; its permits and its input
  lease are dropped with it. A task that panics, or whose answer cannot be prepared, closes the
  transport.\<close>

definition finish_work ::
  "('t, 'p) session_env \<Rightarrow> work \<Rightarrow> rpc_error + json \<Rightarrow> rpc_lifecycle_failure list \<Rightarrow>
   'p rpc_session \<Rightarrow> 'p rpc_session" where
  "finish_work env w result failures st =
     (let st1 = drop_work (wk_no w) (st\<lparr>sn_guard := sn_guard st @ failures\<rparr>)
      in case prepare_recorded env (respond (rc_id (wk_call w)) result) st1 of
           (Inl _, st2) \<Rightarrow> close st2
         | (Inr response, st2) \<Rightarrow>
             st2\<lparr>sn_results := sn_results st2 @
               [\<lparr>wr_id = rc_id (wk_call w), wr_destination = wk_destination w, wr_response = response,
                 wr_close_after_error = wk_close_after_error w, wr_activate_after_success = activates (wk_call w),
                 wr_counts_toward_batch = counts_toward_batch (wk_call w)\<rparr>]\<rparr>)"

text \<open>\<open>command\<close>: what an unanswered call reports out of band.\<close>

definition reported_failures :: "rpc_call_context \<Rightarrow> rpc_error + json \<Rightarrow> rpc_lifecycle_failure list" where
  "reported_failures ctx result =
     (case result of Inr _ \<Rightarrow> []
      | Inl e \<Rightarrow> if cx_rpc_id ctx \<noteq> None then []
                 else (case re_lifecycle e of None \<Rightarrow> [] | Some f \<Rightarrow> [f]))"

definition queue_command ::
  "('t, 'p) session_env \<Rightarrow> work \<Rightarrow> control_command \<Rightarrow> 'p rpc_session \<Rightarrow> 'p rpc_session" where
  "queue_command env w command st =
     (if length (sn_lane st) < control_queue
      then set_stage (wk_no w) Waiting (st\<lparr>sn_lane := sn_lane st @ [(wk_no w, command)]\<rparr>)
      else finish_work env w (Inl (rpc_error_new Overloaded)) [] (close st))"

definition run_work ::
  "('t, 'p) session_env \<Rightarrow> 'w dispatch_ops \<Rightarrow> 'w \<Rightarrow> work \<Rightarrow> 'p rpc_session \<Rightarrow> 'p rpc_session" where
  "run_work env ops world w st =
     (let call = wk_call w; ctx = wk_context w
      in case method_class (rc_method call) of
           Some k \<Rightarrow>
             if k = ReadCall \<or> k = MutationCall \<or> call_refused ctx (rc_method call) \<noteq> None
             then (case dispatch_result ops ctx (rc_method call) (rc_params call) world of
                     ((result, failures), _) \<Rightarrow> finish_work env w result failures st)
             else (case se_decode env (rc_method call) (rc_params call) of
                     Inl e \<Rightarrow> finish_work env w (Inl e) [] st
                   | Inr command \<Rightarrow> queue_command env w command st)
         | None \<Rightarrow> finish_work env w (Inl (rpc_error_new MethodNotFound)) [] st)"

text \<open>The lane takes a command, and answers it; the answer wakes the task that queued it. A lane
  that ended with the session drops its commands.\<close>

definition lane_take :: "'p rpc_session \<Rightarrow> 'p rpc_session" where
  "lane_take st =
     (if sn_closed st \<or> sn_executing st \<noteq> None then st
      else case sn_lane st of
          [] \<Rightarrow> st
        | c # cs \<Rightarrow> st\<lparr>sn_executing := Some c, sn_lane := cs\<rparr>)"

definition lane_answer :: "control_answers \<Rightarrow> 'p rpc_session \<Rightarrow> 'p rpc_session" where
  "lane_answer ca st =
     (case sn_executing st of
        None \<Rightarrow> st
      | Some (no, command) \<Rightarrow>
          (case handle_control ca command st of
             (result, st') \<Rightarrow> set_stage no (Replied result) (st'\<lparr>sn_executing := None\<rparr>)))"

definition finish_control :: "('t, 'p) session_env \<Rightarrow> work \<Rightarrow> 'p rpc_session \<Rightarrow> 'p rpc_session" where
  "finish_control env w st =
     (case wk_stage w of
        Replied result \<Rightarrow> finish_work env w result (reported_failures (wk_context w) result) st
      | Waiting \<Rightarrow>
          if sn_closed st
          then finish_work env w (Inl (rpc_error_with_message Unavailable ''Session unavailable'')) [] st
          else st
      | Spawned \<Rightarrow> st)"

section \<open>Admission\<close>

definition is_ordinary :: "work \<Rightarrow> bool" where
  "is_ordinary w \<longleftrightarrow> method_class (rc_method (wk_call w)) \<in> {Some ReadCall, Some MutationCall}"

definition ordinary_permits :: "'p rpc_session \<Rightarrow> nat" where
  "ordinary_permits st = max_in_flight - length (filter is_ordinary (sn_work st))"

definition control_permits :: "'p rpc_session \<Rightarrow> nat" where
  "control_permits st = control_queue + 1 - length (filter (\<lambda>w. \<not> is_ordinary w) (sn_work st))"

definition admit :: "('t, 'p) session_env \<Rightarrow> 'p rpc_session \<Rightarrow> bool \<times> 'p rpc_session" where
  "admit env st = (if ordinary_permits st = 0 then (False, st) else toss env st)"

definition call_context :: "rpc_id option \<Rightarrow> 'p rpc_session \<Rightarrow> rpc_call_context option" where
  "call_context rpc_id st =
     (if sn_closed st \<or> \<not> ss_accepting (sn_state st) then None
      else Some \<lparr>cx_session = (if ss_activated (sn_state st)
                               then map_option bs_session (ss_bound (sn_state st)) else None),
                 cx_connection_id = (case ss_bound (sn_state st) of None \<Rightarrow> 0 | Some b \<Rightarrow> bs_conn_id b),
                 cx_rpc_id = rpc_id\<rparr>)"

datatype scheduled =
    Pending'
  | Immediate "prepared option"
  | Duplicate "prepared option"

definition forget_id :: "rpc_id option \<Rightarrow> 'p rpc_session \<Rightarrow> 'p rpc_session" where
  "forget_id i st = st\<lparr>sn_outstanding := sn_outstanding st - set_option i\<rparr>"

definition forget_single :: "destination \<Rightarrow> rpc_id option \<Rightarrow> 'p rpc_session \<Rightarrow> 'p rpc_session" where
  "forget_single destination i st = (if destination = ToSingle then forget_id i st else st)"

text \<open>An answer without a task; one that cannot be prepared closes the transport.\<close>

definition answer_now ::
  "('t, 'p) session_env \<Rightarrow> destination \<Rightarrow> rpc_id option \<Rightarrow> rpc_error \<Rightarrow> 'p rpc_session \<Rightarrow>
   scheduled \<times> 'p rpc_session" where
  "answer_now env destination i e st =
     (case prepare_recorded env (respond i (Inl e)) (forget_single destination i st) of
        (Inl _, st') \<Rightarrow> (Immediate None, close st')
      | (Inr response, st') \<Rightarrow> (Immediate response, st'))"

definition spawn_work ::
  "rpc_call \<Rightarrow> rpc_call_context \<Rightarrow> destination \<Rightarrow> bool \<Rightarrow> 'p rpc_session \<Rightarrow> 'p rpc_session" where
  "spawn_work call ctx destination close_after_error st =
     st\<lparr>sn_work := sn_work st @
          [\<lparr>wk_no = sn_next_work st, wk_call = call, wk_context = ctx, wk_destination = destination,
            wk_close_after_error = close_after_error, wk_stage = Spawned\<rparr>],
        sn_next_work := Suc (sn_next_work st)\<rparr>"

definition schedule_admitted ::
  "('t, 'p) session_env \<Rightarrow> rpc_call \<Rightarrow> destination \<Rightarrow> bool \<Rightarrow> 'p rpc_session \<Rightarrow>
   scheduled \<times> 'p rpc_session" where
  "schedule_admitted env call destination close_after_error st =
     (case call_context (rc_id call) st of
        None \<Rightarrow> (Immediate None, forget_id (rc_id call) st)
      | Some ctx \<Rightarrow>
          if method_class (rc_method call) = None
          then answer_now env destination (rc_id call)
                 (if cx_session ctx \<noteq> None then rpc_error_new MethodNotFound else unauthenticated) st
          else (Pending', spawn_work call ctx destination close_after_error st))"

definition schedule_call ::
  "('t, 'p) session_env \<Rightarrow> rpc_call \<Rightarrow> destination \<Rightarrow> bool \<Rightarrow> 'p rpc_session \<Rightarrow>
   scheduled \<times> 'p rpc_session" where
  "schedule_call env call destination close_after_error st =
     (if set_option (rc_id call) \<inter> sn_outstanding st \<noteq> {}
      then (case prepare_recorded env (Some invalid_request) st of (r, st') \<Rightarrow> (Duplicate (flat_ok r), st'))
      else
        let st1 = st\<lparr>sn_outstanding := sn_outstanding st \<union> set_option (rc_id call)\<rparr>
        in case method_class (rc_method call) of
             Some k \<Rightarrow>
               if k = ReadCall \<or> k = MutationCall
               then (case admit env st1 of
                       (False, st2) \<Rightarrow> answer_now env destination (rc_id call) (rpc_error_new Overloaded) st2
                     | (True, st2) \<Rightarrow> schedule_admitted env call destination close_after_error st2)
               else if control_permits st1 = 0 then (Immediate None, close st1)
               else schedule_admitted env call destination close_after_error st1
           | None \<Rightarrow> schedule_admitted env call destination close_after_error st1)"

section \<open>Batches\<close>

definition batch_new :: batch_assembly where
  "batch_new = \<lparr>ba_pending = 0, ba_responses = [], ba_request_ids = [], ba_lifecycle = None,
     ba_close_after_error = False, ba_activate_after_success = False\<rparr>"

definition batch_push :: "prepared \<Rightarrow> bool \<Rightarrow> batch_assembly \<Rightarrow> batch_assembly" where
  "batch_push response close_after_error b =
     b\<lparr>ba_lifecycle := (if ba_lifecycle b \<noteq> None then ba_lifecycle b else pp_lifecycle response),
       ba_close_after_error := ba_close_after_error b \<or> close_after_error \<and> \<not> pp_success response,
       ba_responses := ba_responses b @ [response]\<rparr>"

definition batch_bytes :: "batch_assembly \<Rightarrow> nat" where
  "batch_bytes b =
     2 + sum_list (map pp_bytes (ba_responses b)) + (length (ba_responses b) - 1)"

text \<open>\<open>None\<close> is an error, \<open>Some lifecycle\<close> the lifecycle failure of a sent batch.\<close>

definition flush_batch ::
  "('t, 'p) session_env \<Rightarrow> batch_assembly \<Rightarrow> 'p rpc_session \<Rightarrow>
   rpc_lifecycle_failure option option \<times> 'p rpc_session" where
  "flush_batch env b st =
     (if ba_responses b = [] then (Some (ba_lifecycle b), st)
      else if batch_bytes b > max_frame_bytes then (None, st)
      else case reserve env (batch_bytes b) st of
          (Inl _, st') \<Rightarrow> (None, st')
        | (Inr _, st') \<Rightarrow>
            (case send_prepared env (FrameBatch (ba_responses b)) st' of
               (sent, st'') \<Rightarrow> (if sent then Some (ba_lifecycle b) else None, st'')))"

section \<open>The session loop\<close>

definition handle_lifecycle_failure ::
  "('t, 'p) session_env \<Rightarrow> rpc_lifecycle_failure \<Rightarrow> 'p rpc_session \<Rightarrow> 'p rpc_session" where
  "handle_lifecycle_failure env f st =
     (if ss_lifecycle_notified (sn_state st) then st
      else let st1 = on_state (\<lambda>s. s\<lparr>ss_accepting := False, ss_lifecycle_notified := True\<rparr>) st
           in close (case se_lifecycle_size env f of
                       None \<Rightarrow> st1
                     | Some n \<Rightarrow> snd (send_text env n (FrameLifecycle f) st1)))"

definition suspend_if :: "bool \<Rightarrow> 'p rpc_session \<Rightarrow> 'p rpc_session" where
  "suspend_if b st = (if b then on_state suspend_authorized_work st else st)"

definition activate_if :: "bool \<Rightarrow> 'p rpc_session \<Rightarrow> 'p rpc_session" where
  "activate_if b st = (if b then on_state activate st else st)"

text \<open>A single answer was taken off the result queue.\<close>

definition take_single :: "('t, 'p) session_env \<Rightarrow> work_result \<Rightarrow> 'p rpc_session \<Rightarrow> 'p rpc_session" where
  "take_single env r st =
     (case wr_response r of
        None \<Rightarrow> activate_if (wr_activate_after_success r) st
      | Some p \<Rightarrow>
          (case send_answer env p (suspend_if (pp_lifecycle p \<noteq> None) st) of
             (False, st1) \<Rightarrow> stop st1
           | (True, st1) \<Rightarrow>
               let st2 = activate_if (wr_activate_after_success r \<and> pp_success p) st1
               in case pp_lifecycle p of
                    Some f \<Rightarrow> stop (handle_lifecycle_failure env f st2)
                  | None \<Rightarrow> if wr_close_after_error r \<and> \<not> pp_success p then stop st2 else st2))"

definition batch_result :: "work_result \<Rightarrow> batch_assembly \<Rightarrow> batch_assembly" where
  "batch_result r b =
     (let b1 = b\<lparr>ba_activate_after_success := ba_activate_after_success b \<or>
                   wr_activate_after_success r \<and> (case wr_response r of None \<Rightarrow> True | Some p \<Rightarrow> pp_success p),
                 ba_pending := (if wr_counts_toward_batch r then ba_pending b - 1 else ba_pending b)\<rparr>
      in case wr_response r of None \<Rightarrow> b1 | Some p \<Rightarrow> batch_push p (wr_close_after_error r) b1)"

definition forget_ids :: "rpc_id list \<Rightarrow> 'p rpc_session \<Rightarrow> 'p rpc_session" where
  "forget_ids ids st = st\<lparr>sn_outstanding := sn_outstanding st - set ids\<rparr>"

text \<open>A complete batch is sent; then its ids are free again.\<close>

definition batch_ready :: "('t, 'p) session_env \<Rightarrow> batch_assembly \<Rightarrow> 'p rpc_session \<Rightarrow> 'p rpc_session" where
  "batch_ready env b st =
     (case flush_batch env b st of
        (None, st1) \<Rightarrow> stop st1
      | (Some lifecycle, st1) \<Rightarrow>
          let st2 = forget_ids (ba_request_ids b) st1
          in case lifecycle of
               Some f \<Rightarrow> stop (handle_lifecycle_failure env f st2)
             | None \<Rightarrow>
                 let st3 = activate_if (ba_activate_after_success b) st2
                 in if ba_close_after_error b then stop st3 else st3)"

definition take_batched ::
  "('t, 'p) session_env \<Rightarrow> u64 \<Rightarrow> work_result \<Rightarrow> 'p rpc_session \<Rightarrow> 'p rpc_session" where
  "take_batched env batch_id r st =
     (let st1 = suspend_if (case wr_response r of None \<Rightarrow> False | Some p \<Rightarrow> pp_lifecycle p \<noteq> None) st
      in case map_of (sn_batches st1) batch_id of
           None \<Rightarrow> st1
         | Some b \<Rightarrow>
             let b' = batch_result r b
             in if ba_pending b' = 0
                then batch_ready env b' (st1\<lparr>sn_batches := AList.delete batch_id (sn_batches st1)\<rparr>)
                else st1\<lparr>sn_batches := AList.update batch_id b' (sn_batches st1)\<rparr>)"

text \<open>The next result of the queue; \<open>handshake_pending\<close> is cleared at the end of the branch.\<close>

definition take_result :: "('t, 'p) session_env \<Rightarrow> 'p rpc_session \<Rightarrow> 'p rpc_session" where
  "take_result env st =
     (case sn_results st of
        [] \<Rightarrow> st
      | r # rs \<Rightarrow>
          let st1 = st\<lparr>sn_results := rs\<rparr>;
              st2 = (case wr_destination r of
                       ToSingle \<Rightarrow> take_single env r (forget_id (wr_id r) st1)
                     | ToBatch batch_id \<Rightarrow> take_batched env batch_id r st1)
          in if sn_stopped st2 then st2 else st2\<lparr>sn_handshake_pending := False\<rparr>)"

text \<open>An answer that needs no task, sent by the loop itself.\<close>

definition answer_or_stop :: "('t, 'p) session_env \<Rightarrow> rpc_response \<Rightarrow> 'p rpc_session \<Rightarrow> 'p rpc_session" where
  "answer_or_stop env response st =
     (case prepare_recorded env (Some response) st of
        (Inr (Some p), st1) \<Rightarrow>
          (case send_answer env p st1 of (sent, st2) \<Rightarrow> if sent then st2 else stop st2)
      | (_, st1) \<Rightarrow> stop st1)"

definition opt_list :: "'a option \<Rightarrow> 'a list" where
  "opt_list v = (case v of None \<Rightarrow> [] | Some x \<Rightarrow> [x])"

lemma opt_list_simps [simp]: "opt_list None = []" "opt_list (Some x) = [x]"
  by (simp_all add: opt_list_def)

definition log_request :: "rpc_id option \<Rightarrow> 'p rpc_session \<Rightarrow> 'p rpc_session" where
  "log_request i st = st\<lparr>sn_taken := sn_taken st @ opt_list i\<rparr>"

text \<open>A last answer before the session ends: its failure does not matter.\<close>

definition last_answer :: "('t, 'p) session_env \<Rightarrow> rpc_response option \<Rightarrow> 'p rpc_session \<Rightarrow> 'p rpc_session" where
  "last_answer env response st =
     (case prepare_recorded env response st of
        (Inr (Some p), st1) \<Rightarrow> stop (snd (send_answer env p st1))
      | (_, st1) \<Rightarrow> stop st1)"


definition take_call :: "('t, 'p) session_env \<Rightarrow> rpc_call \<Rightarrow> bool \<Rightarrow> 'p rpc_session \<Rightarrow> 'p rpc_session" where
  "take_call env call close_after_error st =
     (case schedule_call env call ToSingle close_after_error (log_request (rc_id call) st) of
        (Pending', st1) \<Rightarrow> st1
      | (Immediate None, st1) \<Rightarrow> st1
      | (Immediate (Some p), st1) \<Rightarrow>
          (case send_answer env p st1 of (sent, st2) \<Rightarrow> if sent then st2 else stop st2)
      | (Duplicate None, st1) \<Rightarrow> stop st1
      | (Duplicate (Some p), st1) \<Rightarrow> stop (snd (send_answer env p st1)))"

text \<open>The items of a batch in order; \<open>None\<close> is \<open>break 'session\<close>.\<close>

fun take_items ::
  "('t, 'p) session_env \<Rightarrow> u64 \<Rightarrow> rpc_item list \<Rightarrow> batch_assembly \<Rightarrow> 'p rpc_session \<Rightarrow>
   batch_assembly option \<times> 'p rpc_session" where
  "take_items env batch_id [] b st = (Some b, st)"
| "take_items env batch_id (ItemResponse # items) b st = take_items env batch_id items b st"
| "take_items env batch_id (ItemInvalid response # items) b st =
     (case prepare_recorded env (Some response) st of
        (Inr (Some p), st1) \<Rightarrow> take_items env batch_id items (batch_push p False b) st1
      | (_, st1) \<Rightarrow> (None, close st1))"
| "take_items env batch_id (ItemCall call # items) b st =
     (let b1 = b\<lparr>ba_request_ids := ba_request_ids b @ opt_list (rc_id call)\<rparr>
      in case schedule_call env call (ToBatch batch_id) False (log_request (rc_id call) st) of
           (Pending', st1) \<Rightarrow>
             take_items env batch_id items
               (if counts_toward_batch call then b1\<lparr>ba_pending := ba_pending b1 + 1\<rparr> else b1) st1
         | (Immediate response, st1) \<Rightarrow>
             take_items env batch_id items
               (case response of
                  Some p \<Rightarrow> if counts_toward_batch call then batch_push p False b1 else b1
                | None \<Rightarrow> b1) st1
         | (Duplicate None, st1) \<Rightarrow> (None, close st1)
         | (Duplicate (Some p), st1) \<Rightarrow> (None, close (snd (send_answer env p st1))))"

text \<open>After the items, a batch with nothing pending is sent at once; its answers cannot activate
  the session.\<close>

definition take_batch :: "('t, 'p) session_env \<Rightarrow> rpc_item list \<Rightarrow> 'p rpc_session \<Rightarrow> 'p rpc_session" where
  "take_batch env items st =
     (let batch_id = sn_next_batch st
      in case take_items env batch_id items batch_new (st\<lparr>sn_next_batch := batch_id + 1\<rparr>) of
           (None, st1) \<Rightarrow> stop st1
         | (Some b, st1) \<Rightarrow>
             if ba_pending b = 0
             then (case flush_batch env b st1 of
                     (None, st2) \<Rightarrow> stop st2
                   | (Some lifecycle, st2) \<Rightarrow>
                       let st3 = forget_ids (ba_request_ids b) st2
                       in case lifecycle of
                            Some f \<Rightarrow> stop (handle_lifecycle_failure env f st3)
                          | None \<Rightarrow> st3)
             else st1\<lparr>sn_batches := AList.update batch_id b (sn_batches st1)\<rparr>)"

fun valid_open :: "rpc_message \<Rightarrow> bool" where
  "valid_open (Single (ItemCall call)) \<longleftrightarrow>
     rc_id call \<noteq> None \<and> rc_id call \<noteq> Some IdNull \<and> rc_method call = ascii ''session.open''"
| "valid_open _ \<longleftrightarrow> False"

fun take_message :: "('t, 'p) session_env \<Rightarrow> bool \<Rightarrow> rpc_message \<Rightarrow> 'p rpc_session \<Rightarrow> 'p rpc_session" where
  "take_message env opening (Single ItemResponse) st = st"
| "take_message env opening (Single (ItemInvalid response)) st = answer_or_stop env response st"
| "take_message env opening (Single (ItemCall call)) st = take_call env call opening st"
| "take_message env opening (Batch items) st = take_batch env items st"

definition take_frame :: "('t, 'p) session_env \<Rightarrow> 't \<Rightarrow> 'p rpc_session \<Rightarrow> 'p rpc_session" where
  "take_frame env text st =
     (if sn_handshake_pending st then st
      else case parse_message (se_parse env) text max_batch_items of
          Inl response \<Rightarrow> answer_or_stop env response st
        | Inr message \<Rightarrow>
            let opening = sn_first_message st; st1 = st\<lparr>sn_first_message := False\<rparr>
            in if opening \<and> \<not> valid_open message then last_answer env (Some invalid_request) st1
               else take_message env opening message
                 (if opening then st1\<lparr>sn_handshake_pending := True\<rparr> else st1))"

definition oversized_request_id :: "('t \<Rightarrow> json option) \<Rightarrow> 't \<Rightarrow> rpc_id option" where
  "oversized_request_id parse_json text =
     (case parse_json text of
        Some (JObj obj) \<Rightarrow>
          if Option.bind (map_of obj (ascii ''jsonrpc'')) json_as_str \<noteq> Some (ascii ''2.0'') then None
          else Option.bind (map_of obj (ascii ''id'')) rpc_id_from_value
      | _ \<Rightarrow> None)"

definition take_oversized :: "('t, 'p) session_env \<Rightarrow> 't \<Rightarrow> 'p rpc_session \<Rightarrow> 'p rpc_session" where
  "take_oversized env text st =
     (if sn_handshake_pending st then st
      else let i = oversized_request_id (se_parse env) text
           in last_answer env (map_option (\<lambda>i. response_error i (rpc_error_new CodePayloadTooLarge)) i)
                (log_request i st))"

definition take_guard_failure :: "('t, 'p) session_env \<Rightarrow> 'p rpc_session \<Rightarrow> 'p rpc_session" where
  "take_guard_failure env st =
     (case sn_guard st of
        [] \<Rightarrow> st
      | f # fs \<Rightarrow> stop (handle_lifecycle_failure env f (st\<lparr>sn_guard := fs\<rparr>)))"

definition anonymous_tick :: "int \<Rightarrow> 'p rpc_session \<Rightarrow> 'p rpc_session" where
  "anonymous_tick now st = (if anonymous_expired now (sn_state st) then stop st else st)"

section \<open>Events\<close>

definition send_authorized_event ::
  "('t, 'p) session_env \<Rightarrow> 'p server_ws_message \<Rightarrow> 'p rpc_session \<Rightarrow> bool \<times> 'p rpc_session" where
  "send_authorized_event env m st =
     (if sn_closed st \<or> \<not> ss_accepting (sn_state st) then (True, st)
      else case se_event_size env m of
          None \<Rightarrow> (False, st)
        | Some n \<Rightarrow> send_text env n (FrameEvent m) st)"

definition send_current_watch_event ::
  "('t, 'p) session_env \<Rightarrow> watch_identity \<Rightarrow> 'p server_ws_message \<Rightarrow> 'p rpc_session \<Rightarrow> bool \<times> 'p rpc_session" where
  "send_current_watch_event env identity m st =
     (if sn_closed st \<or> \<not> ss_accepting (sn_state st) \<or> \<not> ss_activated (sn_state st) \<or>
        (case ss_bound (sn_state st) of None \<Rightarrow> True | Some b \<Rightarrow> \<not> current_watch_matches b identity)
      then (True, st)
      else case se_event_size env m of
          None \<Rightarrow> (False, st)
        | Some n \<Rightarrow> send_text env n (FrameWatch identity m) st)"

definition close_unless :: "bool \<times> 'p rpc_session \<Rightarrow> 'p rpc_session" where
  "close_unless r = (if fst r then snd r else close (snd r))"

text \<open>\<open>forward_registry_events\<close>, spawned by the activation: the next message of the connection's
  own queue, or the report that one was dropped.\<close>

definition forward_registry_event :: "('t, 'p) session_env \<Rightarrow> 'p rpc_session \<Rightarrow> 'p rpc_session" where
  "forward_registry_event env st =
     (if sn_closed st \<or> \<not> ss_activated (sn_state st) then st
      else case session_entry st of
          None \<Rightarrow> st
        | Some e \<Rightarrow>
            (case ch_queue (ce_tx e) of
               [] \<Rightarrow> st
             | m # ms \<Rightarrow> close_unless (send_authorized_event env m
                 (on_session_entry (\<lambda>e. e\<lparr>ce_tx := (ce_tx e)\<lparr>ch_queue := tl (ch_queue (ce_tx e))\<rparr>\<rparr>) st))))"

definition registry_lagged :: "'p rpc_session \<Rightarrow> 'p rpc_session" where
  "registry_lagged st =
     (if sn_closed st \<or> \<not> ss_activated (sn_state st) then st
      else case session_entry st of
          None \<Rightarrow> st
        | Some e \<Rightarrow> if ce_lagged e then close st else st)"

text \<open>Other sessions and the pruning task use the registry; what they remove from it, this session
  still holds.\<close>

definition registry_elsewhere :: "'p registry_op \<Rightarrow> 'p rpc_session \<Rightarrow> 'p rpc_session" where
  "registry_elsewhere op st =
     (let st' = st\<lparr>sn_registry := registry_step op (sn_registry st)\<rparr>
      in case session_entry (st'\<lparr>sn_detached := None\<rparr>) of
           None \<Rightarrow> st'\<lparr>sn_detached := session_entry st\<rparr>
         | Some _ \<Rightarrow> st')"

section \<open>The machine\<close>

datatype ('t, 'p, 'w) session_event =
    FrameArrives 't                       \<comment> \<open>the session loop\<close>
  | OversizedFrame 't
  | InputEnds
  | ResultReady
  | GuardReady
  | AnonymousTick int
  | RunWork nat "'w dispatch_ops" 'w      \<comment> \<open>the dispatcher task of that number\<close>
  | PanicWork nat
  | ControlAnswered nat
  | LaneTakes                             \<comment> \<open>the control lane\<close>
  | LaneAnswers control_answers
  | GenerationCheckFails rpc_lifecycle_failure  \<comment> \<open>the periodic check of the bound session\<close>
  | RegistryMessage                       \<comment> \<open>the forwarders\<close>
  | RegistryLagged
  | WatchMessage watch_identity "'p server_ws_message"
  | TransportCloses                       \<comment> \<open>the transport's reader or writer\<close>
  | RegistryElsewhere "'p registry_op"

definition loop_step :: "('p rpc_session \<Rightarrow> 'p rpc_session) \<Rightarrow> 'p rpc_session \<Rightarrow> 'p rpc_session" where
  "loop_step f st = (if sn_stopped st then st else if sn_closed st then stop st else f st)"

definition on_work :: "nat \<Rightarrow> (work \<Rightarrow> 'p rpc_session \<Rightarrow> 'p rpc_session) \<Rightarrow> 'p rpc_session \<Rightarrow> 'p rpc_session" where
  "on_work no f st = (case find_work no st of None \<Rightarrow> st | Some w \<Rightarrow> f w st)"

fun session_step ::
  "('t, 'p) session_env \<Rightarrow> ('t, 'p, 'w) session_event \<Rightarrow> 'p rpc_session \<Rightarrow> 'p rpc_session" where
  "session_step env (FrameArrives text) st = loop_step (take_frame env text) st"
| "session_step env (OversizedFrame text) st = loop_step (take_oversized env text) st"
| "session_step env InputEnds st =
     loop_step (\<lambda>st. if sn_handshake_pending st then st else stop st) st"
| "session_step env ResultReady st = loop_step (take_result env) st"
| "session_step env GuardReady st = loop_step (take_guard_failure env) st"
| "session_step env (AnonymousTick now) st = loop_step (anonymous_tick now) st"
| "session_step env (RunWork no ops world) st =
     on_work no (\<lambda>w st. if wk_stage w = Spawned then run_work env ops world w st else st) st"
| "session_step env (PanicWork no) st = on_work no (\<lambda>w st. close (drop_work no st)) st"
| "session_step env (ControlAnswered no) st = on_work no (finish_control env) st"
| "session_step env LaneTakes st = lane_take st"
| "session_step env (LaneAnswers ca) st = lane_answer ca st"
| "session_step env (GenerationCheckFails f) st =
     (if sn_closed st \<or> \<not> ss_activated (sn_state st) then st else st\<lparr>sn_guard := sn_guard st @ [f]\<rparr>)"
| "session_step env RegistryMessage st = forward_registry_event env st"
| "session_step env RegistryLagged st = registry_lagged st"
| "session_step env (WatchMessage identity m) st =
     close_unless (send_current_watch_event env identity m st)"
| "session_step env TransportCloses st = close st"
| "session_step env (RegistryElsewhere op) st = registry_elsewhere op st"

definition session_run ::
  "('t, 'p) session_env \<Rightarrow> ('t, 'p, 'w) session_event list \<Rightarrow> 'p registry \<Rightarrow> 'p rpc_session" where
  "session_run env es registry = fold (session_step env) es (session_start registry)"

end
