(* ===== verification/Rpc_Session_Frames.thy ===== *)
theory Rpc_Session_Frames
  imports Rpc_Session
begin

text \<open>
  What each step of the RPC session engine changes and what it leaves alone, as case rules over
  the outcomes of the parameters; shared by the proofs about answers, admission and events.
\<close>

section \<open>What the transport primitives leave alone\<close>

definition tossed :: "'p rpc_session \<Rightarrow> 'p rpc_session \<Rightarrow> bool" where
  "tossed st st' \<longleftrightarrow> (\<exists>k. st' = st\<lparr>sn_tosses := k\<rparr>)"

lemma tossed_refl [simp]: "tossed st st"
  unfolding tossed_def by (rule exI [of _ "sn_tosses st"]) simp

lemma reserve_frame: "reserve env n st = (r, st') \<Longrightarrow> tossed st st'"
  by (auto simp: reserve_def toss_def tossed_def [of _ "_\<lparr>sn_tosses := _\<rparr>"] split: if_splits)

lemma prepare_response_frame:
  assumes "prepare_response env response st = (r, st')"
  shows "tossed st st'" and "r = Inr p \<Longrightarrow> rr_id (pp_response p) = rr_id response"
  using assms
  by (auto simp: prepare_response_def response_error_def Let_def split: option.splits if_splits prod.splits sum.splits
      dest: reserve_frame)

lemma prepare_recorded_frame:
  assumes "prepare_recorded env response st = (r, st')"
  shows "tossed st st'"
    and "r = Inr (Some p) \<Longrightarrow> \<exists>x. response = Some x \<and> rr_id (pp_response p) = rr_id x"
    and "r = Inr None \<Longrightarrow> response = None"
proof -
  have "tossed st st' \<and> (r = Inr (Some p) \<longrightarrow> (\<exists>x. response = Some x \<and> rr_id (pp_response p) = rr_id x)) \<and>
      (r = Inr None \<longrightarrow> response = None)"
  proof (cases response)
    case None
    with assms show ?thesis by (auto simp: prepare_recorded_def)
  next
    case (Some x)
    obtain r0 where "prepare_response env x st = (r0, st')" "r = map_sum id Some r0"
      using assms Some by (auto simp: prepare_recorded_def apfst_def map_prod_def split: prod.splits)
    with prepare_response_frame [OF this(1)] Some show ?thesis by (cases r0) auto
  qed
  then show "tossed st st'" "r = Inr (Some p) \<Longrightarrow> \<exists>x. response = Some x \<and> rr_id (pp_response p) = rr_id x"
    "r = Inr None \<Longrightarrow> response = None" by blast+
qed

lemma send_prepared_frame:
  assumes "send_prepared env frame st = (sent, st')"
  obtains (sent) k where "sent" "\<not> sn_closed st" "st' = st\<lparr>sn_tosses := k, sn_sent := sn_sent st @ [frame]\<rparr>"
  | (failed) k where "\<not> sent" "st' = st\<lparr>sn_tosses := k, sn_closed := True\<rparr>"
proof (cases "sn_closed st")
  case True
  then have "\<not> sent" "st' = st" using assms by (simp_all add: send_prepared_def)
  moreover have "st = st\<lparr>sn_tosses := sn_tosses st, sn_closed := True\<rparr>" using True by (cases st) simp
  ultimately show ?thesis using failed by metis
next
  case running: False
  show ?thesis
  proof (cases "se_toss env (sn_tosses st)")
    case True
    with running assms show ?thesis by (intro sent) (auto simp: send_prepared_def toss_def)
  next
    case False
    with running assms show ?thesis by (intro failed) (auto simp: send_prepared_def toss_def close_def)
  qed
qed

lemma send_answer_frame:
  assumes "send_answer env p st = (sent, st')"
  obtains (sent) k where "sent" "\<not> sn_closed st"
      "st' = st\<lparr>sn_tosses := k, sn_sent := sn_sent st @ [FrameResponse p]\<rparr>"
  | (failed) k where "\<not> sent" "st' = st\<lparr>sn_tosses := k, sn_closed := True\<rparr>"
  using assms unfolding send_answer_def by (rule send_prepared_frame)

lemma ordinary_permits_cong [simp]:
  "ordinary_permits (st\<lparr>sn_tosses := k\<rparr>) = ordinary_permits st"
  "ordinary_permits (st\<lparr>sn_outstanding := os\<rparr>) = ordinary_permits st"
  "control_permits (st\<lparr>sn_outstanding := os\<rparr>) = control_permits st"
  by (simp_all add: ordinary_permits_def control_permits_def)

lemma call_context_cong [simp]:
  "call_context i (st\<lparr>sn_tosses := k\<rparr>) = call_context i st"
  "call_context i (st\<lparr>sn_outstanding := os\<rparr>) = call_context i st"
  by (simp_all add: call_context_def)

lemma answer_now_cases:
  assumes "answer_now env destination i e st = (r, st')"
  obtains (answered) k response where "r = Immediate response"
      "map_option (\<lambda>p. rr_id (pp_response p)) response = i"
      "st' = (forget_single destination i st)\<lparr>sn_tosses := k\<rparr>"
  | (closing) k where "r = Immediate None" "st' = (forget_single destination i st)\<lparr>sn_tosses := k, sn_closed := True\<rparr>"
proof -
  let ?st = "forget_single destination i st"
  obtain q st1 where q: "prepare_recorded env (respond i (Inl e)) ?st = (q, st1)" by fastforce
  note frame = prepare_recorded_frame [OF q]
  from frame(1) obtain k where st1: "st1 = ?st\<lparr>sn_tosses := k\<rparr>" by (auto simp: tossed_def)
  show ?thesis
  proof (cases q)
    case (Inl x)
    with assms q st1 show ?thesis by (intro closing) (auto simp: answer_now_def close_def)
  next
    case (Inr response)
    have "map_option (\<lambda>p. rr_id (pp_response p)) response = i"
      using frame(2,3) Inr by (cases response) (auto simp: respond_def response_error_def)
    with Inr assms q st1 show ?thesis by (intro answered) (auto simp: answer_now_def)
  qed
qed

lemma forget_after_insert:
  "S \<inter> T = {} \<Longrightarrow> (T \<union> S) - S = T"
  by blast

lemma schedule_cases:
  assumes "schedule_call env call destination c st = (r, st')"
  obtains (duplicate) k p i where "rc_id call = Some i" "i \<in> sn_outstanding st" "r = Duplicate p"
      "\<And>q. p = Some q \<Longrightarrow> rr_id (pp_response q) = IdNull" "st' = st\<lparr>sn_tosses := k\<rparr>"
  | (answered) k response where "r = Immediate response"
      "map_option (\<lambda>p. rr_id (pp_response p)) response = rc_id call"
      "set_option (rc_id call) \<inter> sn_outstanding st = {}"
      "st' = st\<lparr>sn_tosses := k, sn_outstanding := sn_outstanding st \<union>
         (if destination = ToSingle then {} else set_option (rc_id call))\<rparr>"
  | (closing) k os where "r = Immediate None" "st' = st\<lparr>sn_tosses := k, sn_outstanding := os, sn_closed := True\<rparr>"
  | (suspended) k os where "r = Immediate None" "sn_closed st \<or> \<not> ss_accepting (sn_state st)"
      "st' = st\<lparr>sn_tosses := k, sn_outstanding := os\<rparr>"
  | (spawned) k ctx where "r = Pending'" "set_option (rc_id call) \<inter> sn_outstanding st = {}"
      "call_context (rc_id call) st = Some ctx"
      "if method_class (rc_method call) \<in> {Some ReadCall, Some MutationCall}
       then ordinary_permits st > 0 else control_permits st > 0"
      "st' = spawn_work call ctx destination c
         (st\<lparr>sn_outstanding := sn_outstanding st \<union> set_option (rc_id call), sn_tosses := k\<rparr>)"
proof (cases "set_option (rc_id call) \<inter> sn_outstanding st = {}")
  case False
  then obtain i where i: "rc_id call = Some i" "i \<in> sn_outstanding st" by (cases "rc_id call") auto
  obtain q st1 where q: "prepare_recorded env (Some invalid_request) st = (q, st1)" by fastforce
  from prepare_recorded_frame(1) [OF q] obtain k where st1: "st1 = st\<lparr>sn_tosses := k\<rparr>" by (auto simp: tossed_def)
  have "rr_id (pp_response p) = IdNull" if "flat_ok q = Some p" for p
    using that prepare_recorded_frame(2) [OF q]
    by (cases q) (auto simp: flat_ok_def invalid_request_def response_error_def)
  with st1 False assms q i show ?thesis
    by (intro duplicate) (auto simp: schedule_call_def)
next
  case fresh: True
  let ?os = "sn_outstanding st \<union> set_option (rc_id call)"
  note outer_answered = answered and outer_closing = closing
  have now: ?thesis if "answer_now env destination (rc_id call) e (st\<lparr>sn_outstanding := ?os, sn_tosses := n\<rparr>) = (r, st')" for e n
    using that
  proof (cases rule: answer_now_cases)
    case (answered k response)
    then show ?thesis
      using fresh by (intro outer_answered [where response = response and k = k])
        (auto simp: forget_single_def forget_id_def forget_after_insert)
  next
    case (closing k)
    then show ?thesis
      by (intro outer_closing [where k = k and os = "if destination = ToSingle then ?os - set_option (rc_id call) else ?os"])
        (auto simp: forget_single_def forget_id_def)
  qed
  have admitted: ?thesis
    if "schedule_admitted env call destination c (st\<lparr>sn_outstanding := ?os, sn_tosses := n\<rparr>) = (r, st')"
      and "method_class (rc_method call) \<noteq> None \<Longrightarrow>
        if method_class (rc_method call) \<in> {Some ReadCall, Some MutationCall}
        then ordinary_permits st > 0 else control_permits st > 0" for n
  proof (cases "call_context (rc_id call) st")
    case None
    then show ?thesis
      using that(1) by (intro suspended [where k = n and os = "?os - set_option (rc_id call)"])
        (auto simp: schedule_admitted_def forget_id_def call_context_def split: if_splits)
  next
    case (Some ctx)
    show ?thesis
    proof (cases "method_class (rc_method call) = None")
      case True
      with that(1) Some show ?thesis by (intro now) (simp add: schedule_admitted_def)
    next
      case False
      then show ?thesis
        using that Some fresh by (intro spawned [where ctx = ctx and k = n]) (auto simp: schedule_admitted_def)
    qed
  qed
  have same: "st\<lparr>sn_outstanding := ?os\<rparr> = st\<lparr>sn_outstanding := ?os, sn_tosses := sn_tosses st\<rparr>" by simp
  show ?thesis
  proof (cases "method_class (rc_method call)")
    case None
    with assms fresh show ?thesis
      by (intro admitted [of "sn_tosses st"]) (simp_all add: schedule_call_def)
  next
    case (Some k)
    show ?thesis
    proof (cases "k = ReadCall \<or> k = MutationCall")
      case True
      then have S: "schedule_call env call destination c st =
          (case admit env (st\<lparr>sn_outstanding := ?os\<rparr>) of
             (False, st2) \<Rightarrow> answer_now env destination (rc_id call) (rpc_error_new Overloaded) st2
           | (True, st2) \<Rightarrow> schedule_admitted env call destination c st2)"
        using Some fresh by (auto simp: schedule_call_def)
      show ?thesis
      proof (cases "ordinary_permits st = 0")
        case True
        then show ?thesis
          using assms unfolding S by (intro now [of "rpc_error_new Overloaded" "sn_tosses st"]) (simp add: admit_def)
      next
        case free: False
        show ?thesis
        proof (cases "se_toss env (sn_tosses st)")
          case True
          then show ?thesis
            using assms free Some \<open>k = ReadCall \<or> k = MutationCall\<close> unfolding S
            by (intro admitted [of "Suc (sn_tosses st)"]) (auto simp: admit_def toss_def)
        next
          case False
          then show ?thesis
            using assms free unfolding S
            by (intro now [of "rpc_error_new Overloaded" "Suc (sn_tosses st)"]) (auto simp: admit_def toss_def)
        qed
      qed
    next
      case False
      show ?thesis
      proof (cases "control_permits st = 0")
        case True
        with False Some assms fresh show ?thesis
          by (intro closing [where k = "sn_tosses st" and os = ?os]) (auto simp: schedule_call_def close_def)
      next
        case free: False
        with False Some assms fresh show ?thesis
          by (intro admitted [of "sn_tosses st"]) (auto simp: schedule_call_def)
      qed
    qed
  qed
qed

section \<open>The other steps\<close>

lemma flush_batch_cases:
  assumes "flush_batch env b st = (r, st')"
  obtains (failed) k c where "r = None" "st' = st\<lparr>sn_tosses := k, sn_closed := c\<rparr>"
  | (empty) "ba_responses b = []" "r = Some (ba_lifecycle b)" "st' = st"
  | (sent) k where "\<not> sn_closed st" "r = Some (ba_lifecycle b)" "ba_responses b \<noteq> []"
      "st' = st\<lparr>sn_tosses := k, sn_sent := sn_sent st @ [FrameBatch (ba_responses b)]\<rparr>"
proof -
  have id: "st = st\<lparr>sn_tosses := sn_tosses st, sn_closed := sn_closed st\<rparr>" by simp
  show ?thesis
  proof (cases "ba_responses b = []")
    case True
    with assms show ?thesis by (intro empty) (auto simp: flush_batch_def)
  next
    case some: False
    show ?thesis
    proof (cases "batch_bytes b > max_frame_bytes")
      case True
      with some assms have "r = None" "st' = st" by (auto simp: flush_batch_def)
      with id show ?thesis using failed by metis
    next
      case False
      obtain q st1 where q: "reserve env (batch_bytes b) st = (q, st1)" by fastforce
      from reserve_frame [OF q] obtain k where st1: "st1 = st\<lparr>sn_tosses := k\<rparr>" by (auto simp: tossed_def)
      show ?thesis
      proof (cases q)
        case (Inl e)
        with False some assms q st1 have "r = None" "st' = st\<lparr>sn_tosses := k, sn_closed := sn_closed st\<rparr>"
          by (auto simp: flush_batch_def)
        then show ?thesis by (rule failed)
      next
        case (Inr u)
        obtain ok st2 where send: "send_prepared env (FrameBatch (ba_responses b)) st1 = (ok, st2)" by fastforce
        have r: "r = (if ok then Some (ba_lifecycle b) else None)" "st' = st2"
          using False some assms q Inr send by (auto simp: flush_batch_def)
        from send show ?thesis
        proof (cases rule: send_prepared_frame)
          case (sent k)
          with r st1 some show ?thesis by (intro that(3)) auto
        next
          case (failed k)
          with r st1 show ?thesis by (intro that(1)) auto
        qed
      qed
    qed
  qed
qed

lemma stop_simps [simp]:
  "sn_closed (stop st)" "sn_stopped (stop st)" "sn_sent (stop st) = sn_sent st"
  "sn_work (stop st) = sn_work st" "sn_results (stop st) = sn_results st"
  "sn_taken (stop st) = sn_taken st" "sn_batches (stop st) = sn_batches st"
  "sn_next_work (stop st) = sn_next_work st" "sn_next_batch (stop st) = sn_next_batch st"
  "sn_outstanding (stop st) = sn_outstanding st" "sn_lane (stop st) = sn_lane st"
  "sn_executing (stop st) = sn_executing st" "sn_first_message (stop st) = sn_first_message st"
  "sn_handshake_pending (stop st) = sn_handshake_pending st" "sn_guard (stop st) = sn_guard st"
  "ss_activated (sn_state (stop st)) = ss_activated (sn_state st)"
  "ss_accepting (sn_state (stop st)) = ss_accepting (sn_state st)"
  "ss_lifecycle_notified (sn_state (stop st)) = ss_lifecycle_notified (sn_state st)"
  "ss_next_watch_generation (sn_state (stop st)) = ss_next_watch_generation (sn_state st)"
  "ss_bound (sn_state (stop st)) = None"
  by (simp_all add: stop_def remove_registration_def close_def on_state_def split: option.split)

text \<open>A lifecycle failure ends the session, with at most one last notification.\<close>

lemma end_with_lifecycle:
  defines "end f env st \<equiv> stop (handle_lifecycle_failure env f st)"
  shows "sn_work (end f env st) = sn_work st" "sn_results (end f env st) = sn_results st"
    "sn_taken (end f env st) = sn_taken st" "sn_batches (end f env st) = sn_batches st"
    "sn_next_work (end f env st) = sn_next_work st" "sn_next_batch (end f env st) = sn_next_batch st"
    "sn_lane (end f env st) = sn_lane st" "sn_executing (end f env st) = sn_executing st"
    "ss_activated (sn_state (end f env st)) = ss_activated (sn_state st)"
    "sn_handshake_pending (end f env st) = sn_handshake_pending st"
    "sn_first_message (end f env st) = sn_first_message st"
    "sn_sent (end f env st) = sn_sent st \<or>
     sn_sent (end f env st) = sn_sent st @ [FrameLifecycle f] \<and> \<not> sn_closed st \<and>
       \<not> ss_lifecycle_notified (sn_state st)"
proof -
  let ?st1 = "on_state (\<lambda>s. s\<lparr>ss_accepting := False, ss_lifecycle_notified := True\<rparr>) st"
  obtain k frames where send: "handle_lifecycle_failure env f st =
      (if ss_lifecycle_notified (sn_state st) then st
       else ?st1\<lparr>sn_tosses := k, sn_closed := True, sn_sent := sn_sent st @ frames\<rparr>) \<and>
      (frames = [] \<or> frames = [FrameLifecycle f] \<and> \<not> sn_closed st)"
  proof (cases "ss_lifecycle_notified (sn_state st)")
    case True
    then show ?thesis by (intro that [where k = 0 and frames = "[]"]) (simp add: handle_lifecycle_failure_def)
  next
    case fresh: False
    show ?thesis
    proof (cases "se_lifecycle_size env f")
      case None
      with fresh show ?thesis
        by (intro that [where k = "sn_tosses st" and frames = "[]"]) (simp add: handle_lifecycle_failure_def close_def on_state_def)
    next
      case (Some n)
      obtain ok st2 where s: "send_text env n (FrameLifecycle f) ?st1 = (ok, st2)" by fastforce
      have H: "handle_lifecycle_failure env f st = close st2"
        using fresh Some s by (simp add: handle_lifecycle_failure_def Let_def)
      show ?thesis
      proof (cases "n > max_frame_bytes")
        case True
        with s H fresh show ?thesis
          by (intro that [where k = "sn_tosses st" and frames = "[]"]) (auto simp: send_text_def close_def on_state_def)
      next
        case False
        obtain q st3 where q: "reserve env n ?st1 = (q, st3)" by fastforce
        from reserve_frame [OF q] obtain k where st3: "st3 = ?st1\<lparr>sn_tosses := k\<rparr>" by (auto simp: tossed_def)
        show ?thesis
        proof (cases q)
          case (Inl e)
          with False s q st3 H fresh show ?thesis
            by (intro that [where k = k and frames = "[]"]) (auto simp: send_text_def close_def on_state_def)
        next
          case (Inr u)
          then have "send_prepared env (FrameLifecycle f) st3 = (ok, st2)"
            using False s q by (simp add: send_text_def)
          then show ?thesis
          proof (cases rule: send_prepared_frame)
            case (sent j)
            with st3 H fresh show ?thesis
              by (intro that [where k = j and frames = "[FrameLifecycle f]"]) (auto simp: close_def on_state_def)
          next
            case (failed j)
            with st3 H fresh show ?thesis
              by (intro that [where k = j and frames = "[]"]) (auto simp: close_def on_state_def)
          qed
        qed
      qed
    qed
  qed
  show "sn_work (end f env st) = sn_work st" "sn_results (end f env st) = sn_results st"
    "sn_taken (end f env st) = sn_taken st" "sn_batches (end f env st) = sn_batches st"
    "sn_next_work (end f env st) = sn_next_work st" "sn_next_batch (end f env st) = sn_next_batch st"
    "sn_lane (end f env st) = sn_lane st" "sn_executing (end f env st) = sn_executing st"
    "ss_activated (sn_state (end f env st)) = ss_activated (sn_state st)"
    "sn_handshake_pending (end f env st) = sn_handshake_pending st"
    "sn_first_message (end f env st) = sn_first_message st"
    "sn_sent (end f env st) = sn_sent st \<or>
     sn_sent (end f env st) = sn_sent st @ [FrameLifecycle f] \<and> \<not> sn_closed st \<and>
       \<not> ss_lifecycle_notified (sn_state st)"
    using send by (auto simp: end_def on_state_def)
qed

text \<open>The control lane only touches the shared state, never the admission of calls, and the
  registry.\<close>

definition lane_frame :: "'p rpc_session \<Rightarrow> 'p rpc_session \<Rightarrow> bool" where
  "lane_frame st st' \<longleftrightarrow>
     sn_closed st' = sn_closed st \<and> sn_stopped st' = sn_stopped st \<and> sn_first_message st' = sn_first_message st \<and>
     sn_handshake_pending st' = sn_handshake_pending st \<and> sn_next_batch st' = sn_next_batch st \<and>
     sn_batches st' = sn_batches st \<and> sn_outstanding st' = sn_outstanding st \<and> sn_work st' = sn_work st \<and>
     sn_next_work st' = sn_next_work st \<and> sn_lane st' = sn_lane st \<and> sn_executing st' = sn_executing st \<and>
     sn_results st' = sn_results st \<and> sn_guard st' = sn_guard st \<and> sn_taken st' = sn_taken st \<and>
     sn_sent st' = sn_sent st \<and> ss_accepting (sn_state st') = ss_accepting (sn_state st) \<and>
     ss_activated (sn_state st') = ss_activated (sn_state st) \<and>
     ss_lifecycle_notified (sn_state st') = ss_lifecycle_notified (sn_state st)"

lemma lane_frame_refl [simp]: "lane_frame st st"
  by (simp add: lane_frame_def)

lemma on_session_entry_frame [simp]:
  "lane_frame st (on_session_entry f st)" "sn_state (on_session_entry f st) = sn_state st"
  by (auto simp: lane_frame_def on_session_entry_def split: option.split)

lemma registry_frame [simp]: "lane_frame st (st'\<lparr>sn_registry := r\<rparr>) = lane_frame st st'"
  by (simp add: lane_frame_def)

lemma bind_session_frame: "bind_session n session st = (r, st') \<Longrightarrow> lane_frame st st'"
  by (auto simp: bind_session_def on_state_def lane_frame_def split: if_splits prod.splits)

lemma bind_authenticated_frame: "bind_authenticated ca response session st = (r, st') \<Longrightarrow> lane_frame st st'"
  by (auto simp: bind_authenticated_def apfst_def map_prod_def split: sum.splits prod.splits
      dest: bind_session_frame)

lemma replace_watch_frame:
  "replace_watch install s = (r, s') \<Longrightarrow> ss_accepting s' = ss_accepting s \<and> ss_activated s' = ss_activated s \<and>
   ss_lifecycle_notified s' = ss_lifecycle_notified s"
  by (auto simp: replace_watch_def next_watch_generation_def Let_def split: if_splits option.splits)

lemma watch_control_frame:
  assumes "\<And>s r s'. replace s = (r, s') \<Longrightarrow> ss_accepting s' = ss_accepting s \<and>
      ss_activated s' = ss_activated s \<and> ss_lifecycle_notified s' = ss_lifecycle_notified s"
    and "watch_control ca valid replace st = (r, st')"
  shows "lane_frame st st'"
  using assms(2) assms(1) [of "sn_state st"]
  by (auto simp: watch_control_def replace_with_def lane_frame_def split: sum.splits if_splits prod.splits)

lemma handle_control_frame:
  assumes "handle_control ca command st = (r, st')"
  shows "lane_frame st st'"
proof (cases command)
  case (OpenSession v token app)
  with assms show ?thesis
    by (auto simp: mark_anonymous_def split: if_splits sum.splits option.splits
        dest: bind_authenticated_frame) (auto simp: lane_frame_def)
next
  case (CreateDevSession uid client)
  with assms show ?thesis
    by (auto split: if_splits sum.splits dest: bind_authenticated_frame)
next
  case (Ping state)
  with assms show ?thesis by (auto simp: report_app_state_def Let_def split: sum.splits)
next
  case (SetAppState state)
  with assms show ?thesis by (auto simp: report_app_state_def Let_def split: sum.splits)
next
  case (WatchPresence i u c)
  with assms show ?thesis
    by (simp only: handle_control.simps) (erule watch_control_frame [rotated],
      simp add: replace_presence_watch_def replace_watch_frame)
next
  case (WatchUnread i v b)
  with assms show ?thesis
    by (simp only: handle_control.simps) (erule watch_control_frame [rotated],
      simp add: replace_unread_watch_def replace_watch_frame)
next
  case (WatchStates i c)
  with assms show ?thesis
    by (simp only: handle_control.simps) (erule watch_control_frame [rotated],
      simp add: replace_states_watch_def replace_watch_frame)
qed (use assms in auto)

end
