(* ===== verification/Rpc_Answers.thy ===== *)
theory Rpc_Answers
  imports Rpc_Session_Frames "HOL-Library.Multiset"
begin

text \<open>
  Every call is answered once: the books of an RPC session. Each call taken from a frame is, until
  its answer is sent, with a dispatcher task, in the result queue or in an unfinished batch; a
  batch waits for exactly the tasks it started; and the session remembers exactly the ids whose
  answers are due.
\<close>

section \<open>The books\<close>

definition answers_in :: "rpc_id \<Rightarrow> prepared list \<Rightarrow> nat" where
  "answers_in i ps = length (filter (\<lambda>p. rr_id (pp_response p) = i) ps)"

fun frame_answers :: "rpc_id \<Rightarrow> 'p frame \<Rightarrow> nat" where
  "frame_answers i (FrameResponse p) = answers_in i [p]"
| "frame_answers i (FrameBatch ps) = answers_in i ps"
| "frame_answers i _ = 0"

definition answered :: "rpc_id \<Rightarrow> 'p frame list \<Rightarrow> nat" where
  "answered i frames = sum_list (map (frame_answers i) frames)"

definition taken :: "rpc_id \<Rightarrow> rpc_id list \<Rightarrow> nat" where
  "taken i ids = count_list ids i"

definition works_due :: "rpc_id \<Rightarrow> work list \<Rightarrow> nat" where
  "works_due i ws = length (filter (\<lambda>w. rc_id (wk_call w) = Some i) ws)"

definition results_due :: "rpc_id \<Rightarrow> work_result list \<Rightarrow> nat" where
  "results_due i rs =
     length (filter (\<lambda>r. wr_id r = Some i) rs)"

definition batches_due :: "rpc_id \<Rightarrow> (u64 \<times> batch_assembly) list \<Rightarrow> nat" where
  "batches_due i bs = sum_list (map (\<lambda>(k, b). answers_in i (ba_responses b)) bs)"

text \<open>The tasks and results a batch waits for, and where an id is remembered.\<close>

definition flying :: "u64 \<Rightarrow> work list \<Rightarrow> work_result list \<Rightarrow> nat" where
  "flying k ws rs =
     length (filter (\<lambda>w. wk_destination w = ToBatch k \<and> counts_toward_batch (wk_call w)) ws) +
     length (filter (\<lambda>r. wr_destination r = ToBatch k \<and> wr_counts_toward_batch r) rs)"

definition ids_due :: "rpc_id \<Rightarrow> work list \<Rightarrow> work_result list \<Rightarrow> (u64 \<times> batch_assembly) list \<Rightarrow> nat" where
  "ids_due i ws rs bs =
     length (filter (\<lambda>w. wk_destination w = ToSingle \<and> rc_id (wk_call w) = Some i) ws) +
     length (filter (\<lambda>r. wr_destination r = ToSingle \<and> wr_id r = Some i) rs) +
     sum_list (map (\<lambda>(k, b). count_list (ba_request_ids b) i) bs)"

text \<open>\<open>bs\<close> are the unfinished batches: those stored, and the one whose items are being read.\<close>

definition due :: "rpc_id \<Rightarrow> (u64 \<times> batch_assembly) list \<Rightarrow> 'p rpc_session \<Rightarrow> nat" where
  "due i bs st = works_due i (sn_work st) + results_due i (sn_results st) + batches_due i bs"

definition open_session :: "'p rpc_session \<Rightarrow> bool" where
  "open_session st \<longleftrightarrow> \<not> sn_closed st \<and> ss_accepting (sn_state st)"

definition books :: "(u64 \<times> batch_assembly) list \<Rightarrow> 'p rpc_session \<Rightarrow> bool" where
  "books bs st \<longleftrightarrow> (\<forall>i. i \<noteq> IdNull \<longrightarrow>
     answered i (sn_sent st) + due i bs st \<le> taken i (sn_taken st) \<and>
     (open_session st \<longrightarrow> answered i (sn_sent st) + due i bs st = taken i (sn_taken st)))"

definition pending_in :: "u64 \<Rightarrow> (u64 \<times> batch_assembly) list \<Rightarrow> nat" where
  "pending_in k bs = sum_list (map (\<lambda>(j, b). if j = k then ba_pending b else 0) bs)"

definition batches_ok :: "(u64 \<times> batch_assembly) list \<Rightarrow> 'p rpc_session \<Rightarrow> bool" where
  "batches_ok bs st \<longleftrightarrow> distinct (map fst bs) \<and>
     (\<forall>k. flying k (sn_work st) (sn_results st) = pending_in k bs)"

definition result_ok :: "work_result \<Rightarrow> bool" where
  "result_ok r \<longleftrightarrow> map_option (\<lambda>p. rr_id (pp_response p)) (wr_response r) = wr_id r \<and>
     (wr_id r \<noteq> None \<longrightarrow> wr_counts_toward_batch r)"

definition ids_ok :: "(u64 \<times> batch_assembly) list \<Rightarrow> 'p rpc_session \<Rightarrow> bool" where
  "ids_ok bs st \<longleftrightarrow> (\<forall>i. ids_due i (sn_work st) (sn_results st) bs = of_bool (i \<in> sn_outstanding st))"

definition numbers_ok :: "nat \<Rightarrow> (u64 \<times> batch_assembly) list \<Rightarrow> 'p rpc_session \<Rightarrow> bool" where
  "numbers_ok n bs st \<longleftrightarrow> distinct (map wk_no (sn_work st)) \<and>
     (\<forall>w \<in> set (sn_work st). wk_no w < sn_next_work st) \<and> unat (sn_next_batch st) \<le> n \<and>
     (\<forall>(k, b) \<in> set bs. k < sn_next_batch st) \<and>
     (\<forall>w \<in> set (sn_work st). \<forall>k. wk_destination w = ToBatch k \<longrightarrow> k < sn_next_batch st) \<and>
     (\<forall>r \<in> set (sn_results st). \<forall>k. wr_destination r = ToBatch k \<longrightarrow> k < sn_next_batch st) \<and>
     (\<forall>r \<in> set (sn_results st). result_ok r)"

definition accounts :: "nat \<Rightarrow> (u64 \<times> batch_assembly) list \<Rightarrow> 'p rpc_session \<Rightarrow> bool" where
  "accounts n bs st \<longleftrightarrow> books bs st \<and> numbers_ok n bs st \<and>
     (\<not> sn_closed st \<longrightarrow> batches_ok bs st) \<and>
     (open_session st \<longrightarrow> ids_ok bs st)"

definition answers_inv :: "nat \<Rightarrow> 'p rpc_session \<Rightarrow> bool" where
  "answers_inv n st \<longleftrightarrow> accounts n (sn_batches st) st \<and>
     (\<not> sn_closed st \<longrightarrow> (\<forall>(k, b) \<in> set (sn_batches st). 0 < ba_pending b))"

lemma measures_simps [simp]:
  "answers_in i [] = 0" "answers_in i (p # ps) = of_bool (rr_id (pp_response p) = i) + answers_in i ps"
  "answers_in i (ps @ qs) = answers_in i ps + answers_in i qs"
  "answered i [] = 0" "answered i (fs @ [f]) = answered i fs + frame_answers i f"
  "taken i [] = 0" "taken i (ids @ opt_list v) = taken i ids + of_bool (v = Some i)"
  "works_due i [] = 0" "works_due i (ws @ [w]) = works_due i ws + of_bool (rc_id (wk_call w) = Some i)"
  "results_due i [] = 0"
  "results_due i (r # rs) = of_bool (wr_id r = Some i) + results_due i rs"
  "results_due i (rs @ [r]) = results_due i rs + of_bool (wr_id r = Some i)"
  "batches_due i [] = 0" "batches_due i (bs @ [(k, b)]) = batches_due i bs + answers_in i (ba_responses b)"
  "pending_in k [] = 0" "pending_in k (bs @ [(j, b)]) = pending_in k bs + (if j = k then ba_pending b else 0)"
  by (simp_all add: answers_in_def answered_def taken_def works_due_def results_due_def batches_due_def
      pending_in_def opt_list_def split: option.split)

lemma ids_due_snoc [simp]:
  "ids_due i ws rs (bs @ [(k, b)]) = ids_due i ws rs bs + count_list (ba_request_ids b) i"
  by (simp add: ids_due_def)

lemma filter_drop_one:
  assumes "distinct (map f xs)" and "x \<in> set xs"
  shows "length (filter P xs) = length (filter P (filter (\<lambda>y. f y \<noteq> f x) xs)) + of_bool (P x)"
  using assms
proof (induction xs)
  case Nil
  then show ?case by simp
next
  case (Cons y ys)
  show ?case
  proof (cases "x = y")
    case True
    have "filter (\<lambda>z. f z \<noteq> f y) ys = ys"
      using Cons.prems(1) by (simp add: filter_id_conv) (metis image_eqI)
    with True show ?thesis by simp
  next
    case False
    then have "x \<in> set ys" "f y \<noteq> f x" using Cons.prems by auto
    with Cons show ?thesis by simp
  qed
qed

lemma booksI:
  assumes "\<And>i. i \<noteq> IdNull \<Longrightarrow> answered i (sn_sent st) + due i bs st \<le> taken i (sn_taken st)"
    and "\<And>i. i \<noteq> IdNull \<Longrightarrow> open_session st \<Longrightarrow> answered i (sn_sent st) + due i bs st = taken i (sn_taken st)"
  shows "books bs st"
  using assms unfolding books_def by blast

lemma books_le: "books bs st \<Longrightarrow> i \<noteq> IdNull \<Longrightarrow> answered i (sn_sent st) + due i bs st \<le> taken i (sn_taken st)"
  by (simp add: books_def)

lemma books_eq:
  "books bs st \<Longrightarrow> i \<noteq> IdNull \<Longrightarrow> open_session st \<Longrightarrow> answered i (sn_sent st) + due i bs st = taken i (sn_taken st)"
  by (simp add: books_def)

text \<open>An entry moves the same amount on both sides.\<close>

lemma books_shift:
  assumes "books bs st"
    and "\<And>i. i \<noteq> IdNull \<Longrightarrow> answered i (sn_sent st') + due i bs' st' + taken i (sn_taken st) =
      answered i (sn_sent st) + due i bs st + taken i (sn_taken st')"
    and "open_session st' \<Longrightarrow> open_session st"
  shows "books bs' st'"
proof (rule booksI)
  fix i assume i: "i \<noteq> IdNull"
  from books_le [OF assms(1) i] assms(2) [OF i]
  show "answered i (sn_sent st') + due i bs' st' \<le> taken i (sn_taken st')" by linarith
  assume "open_session st'"
  from books_eq [OF assms(1) i assms(3) [OF this]] assms(2) [OF i]
  show "answered i (sn_sent st') + due i bs' st' = taken i (sn_taken st')" by linarith
qed

lemma books_drop:
  assumes "books bs st"
    and "\<And>i. i \<noteq> IdNull \<Longrightarrow> answered i (sn_sent st') + due i bs' st' + taken i (sn_taken st) \<le>
      answered i (sn_sent st) + due i bs st + taken i (sn_taken st')"
    and "\<not> open_session st'"
  shows "books bs' st'"
proof (rule booksI)
  fix i assume i: "i \<noteq> IdNull"
  from books_le [OF assms(1) i] assms(2) [OF i]
  show "answered i (sn_sent st') + due i bs' st' \<le> taken i (sn_taken st')" by linarith
qed (use assms(3) in blast)

text \<open>A closed session only has to respect the upper bound.\<close>

lemma accounts_closed:
  "sn_closed st \<Longrightarrow> accounts n bs st \<longleftrightarrow> books bs st \<and> numbers_ok n bs st"
  by (simp add: accounts_def open_session_def)

lemma answers_inv_closed:
  "sn_closed st \<Longrightarrow> answers_inv n st \<longleftrightarrow> accounts n (sn_batches st) st"
  by (simp add: answers_inv_def)

section \<open>Tasks\<close>

lemma find_work_Some: "find_work no st = Some w \<Longrightarrow> w \<in> set (sn_work st) \<and> wk_no w = no"
  by (auto simp: find_work_def find_Some_iff)

lemma staged_work [simp]:
  "wk_call (if c then w\<lparr>wk_stage := s\<rparr> else w) = wk_call w"
  "wk_destination (if c then w\<lparr>wk_stage := s\<rparr> else w) = wk_destination w"
  "wk_no (if c then w\<lparr>wk_stage := s\<rparr> else w) = wk_no w"
  by simp_all

lemma set_stage_fields [simp]:
  "sn_state (set_stage no stage st) = sn_state st" "sn_closed (set_stage no stage st) = sn_closed st"
  "sn_batches (set_stage no stage st) = sn_batches st" "sn_results (set_stage no stage st) = sn_results st"
  "sn_taken (set_stage no stage st) = sn_taken st" "sn_sent (set_stage no stage st) = sn_sent st"
  "sn_outstanding (set_stage no stage st) = sn_outstanding st"
  "sn_next_work (set_stage no stage st) = sn_next_work st"
  "sn_next_batch (set_stage no stage st) = sn_next_batch st"
  by (simp_all add: set_stage_def)

lemma set_stage_work:
  "works_due i (sn_work (set_stage no stage st)) = works_due i (sn_work st)"
  "flying k (sn_work (set_stage no stage st)) rs = flying k (sn_work st) rs"
  "ids_due i (sn_work (set_stage no stage st)) rs bs = ids_due i (sn_work st) rs bs"
  "map wk_no (sn_work (set_stage no stage st)) = map wk_no (sn_work st)"
  "(\<forall>w \<in> set (sn_work (set_stage no stage st)). P (wk_no w)) \<longleftrightarrow> (\<forall>w \<in> set (sn_work st). P (wk_no w))"
  "(\<forall>w \<in> set (sn_work (set_stage no stage st)). Q (wk_destination w)) \<longleftrightarrow>
   (\<forall>w \<in> set (sn_work st). Q (wk_destination w))"
  by (simp_all add: works_due_def flying_def ids_due_def set_stage_def comp_def del: if_image_distrib)

lemma accounts_set_stage [simp]: "accounts n bs (set_stage no stage st) = accounts n bs st"
  unfolding accounts_def books_def batches_ok_def ids_ok_def numbers_ok_def due_def open_session_def
  by (simp only: set_stage_fields set_stage_work(1-4)
      set_stage_work(5) [where P = "\<lambda>x. x < sn_next_work st"]
      set_stage_work(6) [where Q = "\<lambda>y. \<forall>k. y = ToBatch k \<longrightarrow> k < sn_next_batch st"])

text \<open>A task that ends hands its answer over to the result queue.\<close>

lemma accounts_finish_work:
  assumes "accounts n bs st" and "find_work no st = Some w"
  shows "accounts n bs (finish_work env w result failures st)"
    and "sn_batches (finish_work env w result failures st) = sn_batches st"
proof -
  obtain q st2 where q: "prepare_recorded env (respond (rc_id (wk_call w)) result)
      (drop_work (wk_no w) (st\<lparr>sn_guard := sn_guard st @ failures\<rparr>)) = (q, st2)" by fastforce
  note frame = prepare_recorded_frame [OF q]
  let ?ws = "filter (\<lambda>v. wk_no v \<noteq> wk_no w) (sn_work st)"
  from frame(1) obtain k where st2: "st2 = st\<lparr>sn_guard := sn_guard st @ failures, sn_work := ?ws, sn_tosses := k\<rparr>"
    by (auto simp: tossed_def drop_work_def)
  have w: "w \<in> set (sn_work st)" using find_work_Some [OF assms(2)] by simp
  have nos: "distinct (map wk_no (sn_work st))" using assms(1) by (simp add: accounts_def numbers_ok_def)
  have distinct: "distinct (map wk_no ?ws)" using nos by (rule distinct_map_filter)
  note drop = filter_drop_one [OF nos w]
  have works: "works_due i (sn_work st) = works_due i ?ws + of_bool (rc_id (wk_call w) = Some i)" for i
    unfolding works_due_def by (rule drop)
  show "accounts n bs (finish_work env w result failures st)"
  proof (cases q)
    case (Inl e)
    then have st': "finish_work env w result failures st = close st2"
      using q by (simp add: finish_work_def Let_def)
    have "books bs (close st2)"
      by (rule books_drop [where st = st and bs = bs])
        (use assms(1) works in \<open>simp_all add: accounts_def st2 close_def due_def open_session_def\<close>)
    moreover have "numbers_ok n bs (close st2)"
      using assms(1) distinct by (auto simp: accounts_def numbers_ok_def st2 close_def)
    ultimately show ?thesis unfolding st' by (simp add: accounts_closed close_def)
  next
    case (Inr response)
    let ?r = "\<lparr>wr_id = rc_id (wk_call w), wr_destination = wk_destination w, wr_response = response,
                 wr_close_after_error = wk_close_after_error w, wr_activate_after_success = activates (wk_call w),
                 wr_counts_toward_batch = counts_toward_batch (wk_call w)\<rparr>"
    have st': "finish_work env w result failures st = st2\<lparr>sn_results := sn_results st2 @ [?r]\<rparr>"
      using q Inr by (simp add: finish_work_def Let_def)
    have resp: "map_option (\<lambda>p. rr_id (pp_response p)) response = rc_id (wk_call w)"
      using frame(2,3) Inr
      by (cases response; cases result) (auto simp: respond_def response_success_def response_error_def)
    have counts: "result_ok ?r"
      using resp by (auto simp: result_ok_def counts_toward_batch_def)
    have "books bs (finish_work env w result failures st)"
      by (rule books_shift [where st = st and bs = bs])
        (use assms(1) works resp in \<open>simp_all add: accounts_def st' st2 due_def open_session_def\<close>)
    moreover have "numbers_ok n bs (finish_work env w result failures st)"
      using assms(1) distinct w counts unfolding accounts_def numbers_ok_def st' st2 by auto
    moreover have "flying k ?ws (sn_results st @ [?r]) = flying k (sn_work st) (sn_results st)" for k
      unfolding flying_def by (subst drop) simp
    then have "batches_ok bs (finish_work env w result failures st)" if "\<not> sn_closed st"
      using assms(1) that unfolding accounts_def batches_ok_def st' st2 by auto
    moreover have "ids_due i ?ws (sn_results st @ [?r]) bs = ids_due i (sn_work st) (sn_results st) bs" for i
      unfolding ids_due_def by (subst drop) simp
    then have "ids_ok bs (finish_work env w result failures st)"
      if "open_session st"
      using assms(1) that unfolding accounts_def ids_ok_def st' st2 by simp
    ultimately show ?thesis unfolding accounts_def by (simp add: st' st2 open_session_def)
  qed
  show "sn_batches (finish_work env w result failures st) = sn_batches st"
    using q st2 by (auto simp: finish_work_def Let_def close_def split: sum.splits)
qed

section \<open>Calls\<close>

text \<open>Nothing due changes when frames without answers are sent, the session closes, or the
  oracles advance.\<close>

lemma accounts_toss [simp]:
  "accounts n bs (st\<lparr>sn_tosses := k\<rparr>) = accounts n bs st"
  by (simp add: accounts_def books_def numbers_ok_def batches_ok_def ids_ok_def due_def open_session_def)

lemma accounts_close:
  assumes "accounts n bs st"
  shows "accounts n bs (st\<lparr>sn_closed := True\<rparr>)"
proof -
  have "books bs (st\<lparr>sn_closed := True\<rparr>)"
    by (rule books_drop [where st = st and bs = bs])
      (use assms in \<open>simp_all add: accounts_def due_def open_session_def\<close>)
  with assms show ?thesis by (simp add: accounts_def numbers_ok_def open_session_def)
qed

lemma accounts_stop: "accounts n bs st \<Longrightarrow> accounts n bs (stop st)"
  by (auto simp: accounts_def books_def numbers_ok_def due_def open_session_def)

text \<open>What is due when a call has been logged and is being scheduled.\<close>

lemma accounts_log_unanswered:
  assumes "accounts n bs st" and "\<not> open_session st'" and "sn_taken st' = sn_taken st @ ids"
    and "sn_work st' = sn_work st" and "sn_results st' = sn_results st"
    and "\<And>i. i \<noteq> IdNull \<Longrightarrow> answered i (sn_sent st') = answered i (sn_sent st)"
    and "sn_next_work st' = sn_next_work st" and "sn_next_batch st' = sn_next_batch st"
    and "\<not> sn_closed st' \<Longrightarrow> \<not> sn_closed st"
  shows "accounts n bs st'"
proof -
  have "books bs st'"
    by (rule books_drop [where st = st and bs = bs])
      (use assms in \<open>simp_all add: accounts_def due_def taken_def\<close>)
  with assms show ?thesis by (auto simp: accounts_def numbers_ok_def batches_ok_def)
qed

lemma accounts_spawn_single:
  assumes "accounts n bs st" and "set_option (rc_id call) \<inter> sn_outstanding st = {}" and "\<not> sn_closed st"
  shows "accounts n bs (spawn_work call ctx ToSingle c
    (log_request (rc_id call) st\<lparr>sn_outstanding := sn_outstanding st \<union> set_option (rc_id call), sn_tosses := k\<rparr>))"
    (is "accounts n bs ?st'")
proof -
  have "books bs ?st'"
    by (rule books_shift [where st = st and bs = bs])
      (use assms(1) in \<open>simp_all add: accounts_def spawn_work_def log_request_def due_def open_session_def\<close>)
  moreover have "numbers_ok n bs ?st'"
    using assms(1) by (fastforce simp: accounts_def numbers_ok_def spawn_work_def log_request_def)
  moreover have "batches_ok bs ?st'"
    using assms(1,3) by (simp add: accounts_def batches_ok_def spawn_work_def log_request_def flying_def)
  moreover have "ids_ok bs ?st'" if "ids_ok bs st"
    using that assms(2) by (auto simp: ids_ok_def spawn_work_def log_request_def ids_due_def)
  ultimately show ?thesis
    using assms(1,3) by (simp add: accounts_def) (simp add: spawn_work_def log_request_def open_session_def)
qed

section \<open>Batches\<close>

lemma accounts_forget_batch:
  assumes "accounts n (bs @ [(k, b)]) st" and "sn_closed st"
  shows "accounts n bs st"
proof -
  have "books bs st"
    by (rule books_drop [where st = st and bs = "bs @ [(k, b)]"])
      (use assms in \<open>simp_all add: accounts_def due_def open_session_def\<close>)
  with assms show ?thesis by (auto simp: accounts_closed numbers_ok_def)
qed

text \<open>The items of a batch: an answer to an unidentified item, a call that got its answer at once,
  and a call that got a task.\<close>

lemma accounts_push_null:
  assumes "accounts n (bs @ [(k, b)]) st" and "rr_id (pp_response p) = IdNull"
  shows "accounts n (bs @ [(k, batch_push p False b)]) st"
proof -
  have "books (bs @ [(k, batch_push p False b)]) st"
    by (rule books_shift [where st = st and bs = "bs @ [(k, b)]"])
      (use assms in \<open>auto simp: accounts_def due_def batch_push_def\<close>)
  with assms(1) show ?thesis
    by (auto simp: accounts_def numbers_ok_def batches_ok_def ids_ok_def ids_due_def batch_push_def )
qed

lemma accounts_answered_item:
  assumes "accounts n (bs @ [(k, b)]) st" and "set_option (rc_id call) \<inter> sn_outstanding st = {}"
    and "map_option (\<lambda>p. rr_id (pp_response p)) response = rc_id call"
  defines "b' \<equiv> b\<lparr>ba_request_ids := ba_request_ids b @ opt_list (rc_id call)\<rparr>"
  shows "accounts n (bs @ [(k, case response of Some p \<Rightarrow> batch_push p False b' | None \<Rightarrow> b')])
    (log_request (rc_id call) st\<lparr>sn_tosses := j, sn_outstanding := sn_outstanding st \<union> set_option (rc_id call)\<rparr>)"
    (is "accounts n (bs @ [(k, ?b)]) ?st'")
proof -
  have b: "ba_pending ?b = ba_pending b" "ba_request_ids ?b = ba_request_ids b @ opt_list (rc_id call)"
    by (simp_all add: b'_def batch_push_def split: option.split)
  have answers: "answers_in i (ba_responses ?b) = answers_in i (ba_responses b) + of_bool (rc_id call = Some i)" for i
    using assms(3) by (cases response) (auto simp: b'_def batch_push_def)
  have "books (bs @ [(k, ?b)]) ?st'"
    by (rule books_shift [where st = st and bs = "bs @ [(k, b)]"])
      (use assms(1) answers in \<open>auto simp: accounts_def due_def log_request_def open_session_def\<close>)
  moreover have "numbers_ok n (bs @ [(k, ?b)]) ?st'"
    using assms(1) by (auto simp: accounts_def numbers_ok_def log_request_def)
  moreover have "batches_ok (bs @ [(k, ?b)]) ?st'" if "\<not> sn_closed st"
    using assms(1) that b(1)
    by (simp add: accounts_def batches_ok_def log_request_def)
  moreover have "ids_ok (bs @ [(k, ?b)]) ?st'" if "open_session st"
    using assms(1,2) that b(2)
    by (cases "rc_id call") (auto simp: accounts_def ids_ok_def ids_due_def log_request_def)
  ultimately show ?thesis by (simp add: accounts_def) (simp add: log_request_def open_session_def)
qed

lemma accounts_spawned_item:
  assumes "accounts n (bs @ [(k, b)]) st" and "set_option (rc_id call) \<inter> sn_outstanding st = {}"
  defines "b' \<equiv> b\<lparr>ba_request_ids := ba_request_ids b @ opt_list (rc_id call),
    ba_pending := (if counts_toward_batch call then ba_pending b + 1 else ba_pending b)\<rparr>"
  shows "accounts n (bs @ [(k, b')]) (spawn_work call ctx (ToBatch k) c
    (log_request (rc_id call) st\<lparr>sn_outstanding := sn_outstanding st \<union> set_option (rc_id call), sn_tosses := j\<rparr>))"
    (is "accounts n (bs @ [(k, ?b)]) ?st'")
proof -
  have "books (bs @ [(k, ?b)]) ?st'"
    by (rule books_shift [where st = st and bs = "bs @ [(k, b)]"])
      (use assms(1) in \<open>simp_all add: accounts_def due_def log_request_def open_session_def spawn_work_def b'_def\<close>)
  moreover have "numbers_ok n (bs @ [(k, ?b)]) ?st'"
    using assms(1) by (fastforce simp: accounts_def numbers_ok_def log_request_def spawn_work_def)
  moreover have "batches_ok (bs @ [(k, ?b)]) ?st'" if "\<not> sn_closed st"
    using assms(1) that
    by (auto simp: accounts_def batches_ok_def log_request_def spawn_work_def flying_def b'_def)
  moreover have "ids_ok (bs @ [(k, ?b)]) ?st'" if "open_session st"
    using assms(1,2) that
    by (cases "rc_id call") (auto simp: accounts_def ids_ok_def ids_due_def log_request_def spawn_work_def b'_def)
  ultimately show ?thesis by (simp add: accounts_def) (simp add: log_request_def open_session_def spawn_work_def)
qed

text \<open>The order in which the unfinished batches are listed does not matter.\<close>

lemma accounts_mset:
  assumes "mset bs = mset bs'"
  shows "accounts n bs st = accounts n bs' st"
proof -
  have sums: "sum_list (map f bs) = sum_list (map f bs')" for f :: "_ \<Rightarrow> nat"
    using assms by (metis mset_map sum_mset_sum_list)
  have "set bs = set bs'" using assms by (metis set_mset_mset)
  moreover have "distinct (map fst bs) = distinct (map fst bs')"
    using assms by (metis mset_map mset_eq_imp_distinct_iff)
  ultimately show ?thesis
    unfolding accounts_def books_def due_def batches_due_def batches_ok_def pending_in_def ids_ok_def ids_due_def
      numbers_ok_def sums by simp
qed

lemma delete_new: "k \<notin> fst ` set bs \<Longrightarrow> AList.delete k bs = bs"
  by (force simp: AList.delete_eq filter_id_conv)

lemma mset_delete:
  assumes "distinct (map fst bs)" and "map_of bs k = Some b"
  shows "mset (AList.delete k bs @ [(k, b)]) = mset bs"
  using assms
proof (induction bs)
  case Nil
  then show ?case by simp
next
  case (Cons x xs)
  obtain j c where x: "x = (j, c)" by (cases x)
  show ?case
  proof (cases "j = k")
    case True
    then have "AList.delete k xs = xs"
      using Cons.prems(1) x by (intro delete_new) simp
    with True Cons.prems(2) x show ?thesis by (simp add: AList.delete_eq)
  next
    case False
    with Cons x show ?thesis by (simp add: AList.delete_eq)
  qed
qed

lemma mset_update:
  "distinct (map fst bs) \<Longrightarrow> mset (AList.update k b bs) = mset (AList.delete k bs @ [(k, b)])"
proof (induction bs)
  case Nil
  then show ?case by (simp add: AList.delete_eq)
next
  case (Cons x xs)
  obtain j c where x: "x = (j, c)" by (cases x)
  show ?case
  proof (cases "j = k")
    case True
    then have "AList.delete k xs = xs"
      using Cons.prems x by (intro delete_new) simp
    with True x show ?thesis by (simp add: AList.delete_eq)
  next
    case False
    with Cons x show ?thesis by (simp add: AList.delete_eq)
  qed
qed

section \<open>Results\<close>

lemma accounts_on_state:
  "ss_accepting (f (sn_state st)) \<longrightarrow> ss_accepting (sn_state st) \<Longrightarrow> accounts n bs st \<Longrightarrow>
   accounts n bs (on_state f st)"
  by (auto simp: accounts_def books_def numbers_ok_def batches_ok_def ids_ok_def due_def open_session_def
      on_state_def)

lemma accounts_activate_if: "accounts n bs st \<Longrightarrow> accounts n bs (activate_if c st)"
  by (auto simp: activate_if_def activate_def intro!: accounts_on_state split: if_splits)

lemma accounts_suspend_if: "accounts n bs st \<Longrightarrow> accounts n bs (suspend_if c st)"
  by (auto simp: suspend_if_def suspend_authorized_work_def intro!: accounts_on_state)

lemma small_steps_fields [simp]:
  "sn_batches (activate_if c st) = sn_batches st" "sn_closed (activate_if c st) = sn_closed st"
  "sn_batches (suspend_if c st) = sn_batches st" "sn_closed (suspend_if c st) = sn_closed st"
  "sn_results (suspend_if c st) = sn_results st" "sn_sent (suspend_if c st) = sn_sent st"
  "sn_batches (forget_ids is st) = sn_batches st" "sn_closed (forget_ids is st) = sn_closed st"
  "sn_batches (forget_id i st) = sn_batches st" "sn_closed (forget_id i st) = sn_closed st"
  by (simp_all add: activate_if_def suspend_if_def forget_ids_def forget_id_def on_state_def)

lemma accounts_single_sent:
  assumes "accounts n bs st" and "sn_results st = r # rs" and "wr_destination r = ToSingle"
  defines "frames \<equiv> map FrameResponse (opt_list (wr_response r))"
  shows "accounts n bs (st\<lparr>sn_results := rs, sn_outstanding := sn_outstanding st - set_option (wr_id r),
    sn_tosses := k, sn_sent := sn_sent st @ frames\<rparr>)" (is "accounts n bs ?st'")
proof -
  have ok: "result_ok r" using assms(1,2) by (simp add: accounts_def numbers_ok_def)
  have frames: "answered i (sn_sent st @ frames) = answered i (sn_sent st) + of_bool (wr_id r = Some i)" for i
    using ok by (cases "wr_response r") (auto simp: frames_def result_ok_def)
  have "books bs ?st'"
    by (rule books_shift [where st = st and bs = bs])
      (use assms(1,2) frames in \<open>simp_all add: accounts_def due_def open_session_def\<close>)
  moreover have "numbers_ok n bs ?st'"
    using assms(1,2) by (simp add: accounts_def numbers_ok_def)
  moreover have "batches_ok bs ?st'" if "\<not> sn_closed st"
    using assms(1-3) that by (simp add: accounts_def batches_ok_def flying_def)
  moreover have "ids_ok bs ?st'" if "open_session st"
  proof -
    have old: "ids_due i (sn_work st) (r # rs) bs = of_bool (i \<in> sn_outstanding st)" for i
      using assms(1,2) that by (simp add: accounts_def ids_ok_def)
    have "ids_due i (sn_work st) rs bs = of_bool (i \<in> sn_outstanding st - set_option (wr_id r))" for i
      using old [of i] assms(3)
      by (cases "wr_id r = Some i"; cases "i \<in> sn_outstanding st") (auto simp: ids_due_def)
    then show ?thesis by (simp add: ids_ok_def)
  qed
  ultimately show ?thesis by (simp add: accounts_def open_session_def)
qed

lemma accounts_result_lost:
  assumes "accounts n bs st" and "sn_results st = r # rs"
  shows "accounts n bs (st\<lparr>sn_results := rs, sn_outstanding := os, sn_tosses := k, sn_closed := True\<rparr>)"
    (is "accounts n bs ?st'")
proof -
  have "books bs ?st'"
    by (rule books_drop [where st = st and bs = bs])
      (use assms in \<open>simp_all add: accounts_def due_def open_session_def\<close>)
  with assms show ?thesis by (simp add: accounts_closed) (simp add: accounts_def numbers_ok_def)
qed

lemma accounts_batch_result:
  assumes "accounts n (bs @ [(k, b)]) st" and "sn_results st = r # rs" and "wr_destination r = ToBatch k"
    and "\<not> sn_closed st"
  shows "accounts n (bs @ [(k, batch_result r b)]) (st\<lparr>sn_results := rs\<rparr>)"
    (is "accounts n ?bs ?st'")
proof -
  have ok: "result_ok r" using assms(1,2) by (simp add: accounts_def numbers_ok_def)
  have b: "ba_request_ids (batch_result r b) = ba_request_ids b"
    "ba_pending (batch_result r b) = (if wr_counts_toward_batch r then ba_pending b - 1 else ba_pending b)"
    by (simp_all add: batch_result_def batch_push_def Let_def split: option.split)
  have answers: "answers_in i (ba_responses (batch_result r b)) = answers_in i (ba_responses b) + of_bool (wr_id r = Some i)" for i
    using ok by (cases "wr_response r") (auto simp: batch_result_def batch_push_def Let_def result_ok_def)
  have "books ?bs ?st'"
    by (rule books_shift [where st = st and bs = "bs @ [(k, b)]"])
      (use assms(1,2) answers in \<open>simp_all add: accounts_def due_def open_session_def\<close>)
  moreover have "numbers_ok n ?bs ?st'"
    using assms(1,2) by (simp add: accounts_def numbers_ok_def)
  moreover have "batches_ok ?bs ?st'"
  proof -
    have old: "flying j (sn_work st) (r # rs) = pending_in j (bs @ [(k, b)])" for j
      using assms(1,2,4) by (simp add: accounts_def batches_ok_def)
    have distinct: "distinct (map fst (bs @ [(k, b)]))"
      using assms(1,4) by (simp add: accounts_def batches_ok_def)
    then have "pending_in k bs = 0"
      by (force simp: pending_in_def sum_list_eq_0_iff)
    with old [of k] assms(3) have "wr_counts_toward_batch r \<Longrightarrow> 0 < ba_pending b"
      by (auto simp: flying_def)
    then have "flying j (sn_work st) rs = pending_in j ?bs" for j
      using old [of j] assms(3) b(2) by (auto simp: flying_def split: if_splits)
    with distinct show ?thesis by (simp add: batches_ok_def)
  qed
  moreover have "ids_ok ?bs ?st'" if "open_session st"
    using assms(1-3) that b(1) by (simp add: accounts_def ids_ok_def ids_due_def)
  ultimately show ?thesis by (simp add: accounts_def open_session_def)
qed

lemma accounts_stray_result:
  assumes "accounts n bs st" and "sn_results st = r # rs" and "wr_destination r = ToBatch k"
    and "\<not> sn_closed st" and "k \<notin> fst ` set bs"
  shows "accounts n bs (st\<lparr>sn_results := rs\<rparr>)" (is "accounts n bs ?st'")
proof -
  have "flying k (sn_work st) (r # rs) = pending_in k bs"
    using assms(1,2,4) by (simp add: accounts_def batches_ok_def)
  moreover have "pending_in k bs = 0"
    using assms(5) by (force simp: pending_in_def sum_list_eq_0_iff)
  ultimately have counts: "\<not> wr_counts_toward_batch r" using assms(3) by (auto simp: flying_def)
  moreover have "result_ok r" using assms(1,2) by (simp add: accounts_def numbers_ok_def)
  ultimately have none: "wr_id r = None" by (auto simp: result_ok_def)
  have "books bs ?st'"
    by (rule books_shift [where st = st and bs = bs])
      (use assms(1,2) none in \<open>simp_all add: accounts_def due_def open_session_def\<close>)
  then show ?thesis
    using assms(1-4) counts none
    by (simp add: accounts_def numbers_ok_def batches_ok_def ids_ok_def flying_def ids_due_def open_session_def)
qed

lemma accounts_flushed:
  assumes "accounts n (bs @ [(k, b)]) st" and "ba_pending b = 0"
    and "frames = [FrameBatch (ba_responses b)] \<or> frames = [] \<and> ba_responses b = []"
  shows "accounts n bs (forget_ids (ba_request_ids b) (st\<lparr>sn_tosses := j, sn_sent := sn_sent st @ frames\<rparr>))"
    (is "accounts n bs ?st'")
proof -
  have frames: "answered i (sn_sent st @ frames) = answered i (sn_sent st) + answers_in i (ba_responses b)" for i
    using assms(3) by auto
  have "books bs ?st'"
    by (rule books_shift [where st = st and bs = "bs @ [(k, b)]"])
      (use assms(1) frames in \<open>simp_all add: accounts_def due_def open_session_def forget_ids_def\<close>)
  moreover have "numbers_ok n bs ?st'"
    using assms(1) by (simp add: accounts_def numbers_ok_def forget_ids_def)
  moreover have "batches_ok bs ?st'" if "\<not> sn_closed st"
    using assms(1,2) that by (simp add: accounts_def batches_ok_def forget_ids_def)
  moreover have "ids_ok bs ?st'" if "open_session st"
  proof -
    have old: "ids_due i (sn_work st) (sn_results st) bs + count_list (ba_request_ids b) i =
        of_bool (i \<in> sn_outstanding st)" for i
      using assms(1) that by (simp add: accounts_def ids_ok_def)
    have "ids_due i (sn_work st) (sn_results st) bs =
        of_bool (i \<in> sn_outstanding st - set (ba_request_ids b))" for i
    proof (cases "i \<in> set (ba_request_ids b)")
      case True
      then have "count_list (ba_request_ids b) i \<noteq> 0" by (simp add: count_list_0_iff)
      with old [of i] True show ?thesis by (cases "i \<in> sn_outstanding st") auto
    next
      case False
      then have "count_list (ba_request_ids b) i = 0" by (simp add: count_list_0_iff)
      with old [of i] False show ?thesis by simp
    qed
    then show ?thesis by (simp add: ids_ok_def forget_ids_def)
  qed
  ultimately show ?thesis by (simp add: accounts_def open_session_def) (simp add: forget_ids_def)
qed

text \<open>Ending the session keeps the upper bound, with or without the batch at hand.\<close>

lemma answers_inv_stop:
  assumes "accounts n (sn_batches st) st"
  shows "answers_inv n (stop (st\<lparr>sn_tosses := k, sn_closed := c\<rparr>))" and "answers_inv n (stop st)"
proof -
  have "accounts n (sn_batches st) (stop (st\<lparr>sn_tosses := k, sn_closed := c\<rparr>))"
    using assms by (auto simp: accounts_def books_def numbers_ok_def due_def open_session_def)
  then show "answers_inv n (stop (st\<lparr>sn_tosses := k, sn_closed := c\<rparr>))"
    by (simp add: answers_inv_closed)
  show "answers_inv n (stop st)"
    using accounts_stop [OF assms] by (simp add: answers_inv_closed)
qed

lemma answers_inv_stop_batch:
  assumes "accounts n (sn_batches st @ [(k, b)]) st"
  shows "answers_inv n (stop (st\<lparr>sn_tosses := j, sn_closed := c\<rparr>))" and "answers_inv n (stop st)"
proof -
  have "accounts n (sn_batches st @ [(k, b)]) (stop (st\<lparr>sn_tosses := j, sn_closed := c\<rparr>))"
    using assms by (auto simp: accounts_def books_def numbers_ok_def due_def open_session_def)
  from accounts_forget_batch [OF this] show "answers_inv n (stop (st\<lparr>sn_tosses := j, sn_closed := c\<rparr>))"
    by (simp add: answers_inv_closed)
  from accounts_forget_batch [OF accounts_stop [OF assms]] show "answers_inv n (stop st)"
    by (simp add: answers_inv_closed)
qed

lemma answers_inv_lifecycle:
  assumes "accounts n (sn_batches st) st"
  shows "answers_inv n (stop (handle_lifecycle_failure env f st))"
proof -
  note frame = end_with_lifecycle [where env = env and f = f and st = st]
  have sent: "answered i (sn_sent (stop (handle_lifecycle_failure env f st))) = answered i (sn_sent st)" for i
    using frame(12) by auto
  have "books (sn_batches st) (stop (handle_lifecycle_failure env f st))"
    by (rule books_drop [where st = st and bs = "sn_batches st"])
      (use assms sent frame in \<open>simp_all add: accounts_def due_def open_session_def\<close>)
  moreover have "numbers_ok n (sn_batches st) (stop (handle_lifecycle_failure env f st))"
    using assms frame by (simp add: accounts_def numbers_ok_def)
  ultimately show ?thesis
    unfolding answers_inv_closed [OF stop_simps(1)] accounts_closed [OF stop_simps(1)] frame(4) by blast
qed

definition all_pending :: "(u64 \<times> batch_assembly) list \<Rightarrow> bool" where
  "all_pending bs \<longleftrightarrow> (\<forall>(k, b) \<in> set bs. 0 < ba_pending b)"

lemma answers_invI:
  "accounts n (sn_batches st) st \<Longrightarrow> (\<not> sn_closed st \<Longrightarrow> all_pending (sn_batches st)) \<Longrightarrow> answers_inv n st"
  by (simp add: answers_inv_def all_pending_def)

lemma answers_inv_mono: "answers_inv n st \<Longrightarrow> n \<le> m \<Longrightarrow> answers_inv m st"
  by (auto simp: answers_inv_def accounts_def numbers_ok_def)

lemma answers_inv_later: "answers_inv n st \<Longrightarrow> answers_inv (Suc n) st"
  by (erule answers_inv_mono) simp

lemma answers_invD:
  assumes "answers_inv n st"
  shows "accounts n (sn_batches st) st" and "\<not> sn_closed st \<Longrightarrow> all_pending (sn_batches st)"
  using assms by (simp_all add: answers_inv_def all_pending_def)

lemma batch_ready_inv:
  assumes "accounts n (sn_batches st @ [(k, b)]) st" and "ba_pending b = 0"
    and "\<not> sn_closed st \<Longrightarrow> all_pending (sn_batches st)"
  shows "answers_inv n (batch_ready env b st)"
proof -
  obtain q st1 where q: "flush_batch env b st = (q, st1)" by fastforce
  then show ?thesis
  proof (cases rule: flush_batch_cases)
    case (failed j c)
    then show ?thesis using answers_inv_stop_batch(1) [OF assms(1)] q by (simp add: batch_ready_def)
  next
    case empty
    have acc: "accounts n (sn_batches st) (forget_ids (ba_request_ids b) st)"
      using accounts_flushed [OF assms(1,2), of "[]" "sn_tosses st"] empty(1) by simp
    show ?thesis
    proof (cases "ba_lifecycle b")
      case None
      let ?st = "activate_if (ba_activate_after_success b) (forget_ids (ba_request_ids b) st)"
      have "accounts n (sn_batches ?st) ?st" and "sn_batches ?st = sn_batches st"
        using accounts_activate_if [OF acc] by simp_all
      then show ?thesis
        using None empty q assms(3) by (auto simp: batch_ready_def Let_def intro: answers_inv_stop(2) answers_invI)
    next
      case (Some f)
      have "accounts n (sn_batches (forget_ids (ba_request_ids b) st)) (forget_ids (ba_request_ids b) st)"
        using acc by simp
      from answers_inv_lifecycle [OF this] show ?thesis
        using Some empty q by (simp add: batch_ready_def)
    qed
  next
    case (sent j)
    have acc: "accounts n (sn_batches st) (forget_ids (ba_request_ids b) st1)"
      using accounts_flushed [OF assms(1,2), of "[FrameBatch (ba_responses b)]" j] sent by simp
    have bs: "sn_batches st1 = sn_batches st" using sent by simp
    show ?thesis
    proof (cases "ba_lifecycle b")
      case None
      let ?st = "activate_if (ba_activate_after_success b) (forget_ids (ba_request_ids b) st1)"
      have "accounts n (sn_batches ?st) ?st" and "sn_batches ?st = sn_batches st"
        using accounts_activate_if [OF acc] bs by simp_all
      then show ?thesis
        using None sent(1,2) q assms(3) bs by (auto simp: batch_ready_def Let_def intro: answers_inv_stop(2) answers_invI)
    next
      case (Some f)
      have "accounts n (sn_batches (forget_ids (ba_request_ids b) st1)) (forget_ids (ba_request_ids b) st1)"
        using acc bs by simp
      from answers_inv_lifecycle [OF this] show ?thesis
        using Some sent(2) q by (simp add: batch_ready_def)
    qed
  qed
qed

lemma take_single_inv:
  assumes "answers_inv n st" and "\<not> sn_closed st" and "sn_results st = r # rs" and "wr_destination r = ToSingle"
  shows "answers_inv n (take_single env r (forget_id (wr_id r) (st\<lparr>sn_results := rs\<rparr>)))"
proof -
  note acc = answers_invD(1) [OF assms(1)] and pending = answers_invD(2) [OF assms(1,2)]
  let ?st = "st\<lparr>sn_results := rs, sn_outstanding := sn_outstanding st - set_option (wr_id r)\<rparr>"
  have start: "forget_id (wr_id r) (st\<lparr>sn_results := rs\<rparr>) = ?st"
    by (simp add: forget_id_def)
  show ?thesis
  proof (cases "wr_response r")
    case None
    then have "accounts n (sn_batches st) ?st"
      using accounts_single_sent [OF acc assms(3,4), of "sn_tosses st"] by simp
    then have "accounts n (sn_batches ?st) (activate_if (wr_activate_after_success r) ?st)"
      by (simp add: accounts_activate_if)
    with None pending show ?thesis by (simp add: take_single_def start answers_invI)
  next
    case (Some p)
    let ?sus = "suspend_if (pp_lifecycle p \<noteq> None) ?st"
    obtain ok st1 where send: "send_answer env p ?sus = (ok, st1)" by fastforce
    then show ?thesis
    proof (cases rule: send_answer_frame)
      case (failed k)
      have "accounts n (sn_batches st) (stop (?sus\<lparr>sn_tosses := k, sn_closed := True\<rparr>))"
      proof -
        have "accounts n (sn_batches st) (st\<lparr>sn_results := rs,
            sn_outstanding := sn_outstanding st - set_option (wr_id r), sn_tosses := k, sn_closed := True\<rparr>)"
          by (rule accounts_result_lost [OF acc assms(3)])
        note lost = accounts_stop [OF accounts_suspend_if [OF this, of "pp_lifecycle p \<noteq> None"]]
        have "suspend_if (pp_lifecycle p \<noteq> None) (st\<lparr>sn_results := rs,
            sn_outstanding := sn_outstanding st - set_option (wr_id r), sn_tosses := k, sn_closed := True\<rparr>) =
          ?sus\<lparr>sn_tosses := k, sn_closed := True\<rparr>" by (simp add: suspend_if_def on_state_def)
        with lost show ?thesis by simp
      qed
      with Some failed send show ?thesis
        by (simp add: take_single_def start answers_inv_closed)
    next
      case (sent k)
      have "accounts n (sn_batches st) (st\<lparr>sn_results := rs,
          sn_outstanding := sn_outstanding st - set_option (wr_id r), sn_tosses := k,
          sn_sent := sn_sent st @ [FrameResponse p]\<rparr>)"
        using accounts_single_sent [OF acc assms(3,4), of k] Some by simp
      note sus = accounts_suspend_if [OF this, of "pp_lifecycle p \<noteq> None"]
      have "suspend_if (pp_lifecycle p \<noteq> None) (st\<lparr>sn_results := rs,
          sn_outstanding := sn_outstanding st - set_option (wr_id r), sn_tosses := k,
          sn_sent := sn_sent st @ [FrameResponse p]\<rparr>) = st1"
        unfolding sent by (simp add: suspend_if_def on_state_def)
      with sus have acc1: "accounts n (sn_batches st) st1" by simp
      let ?st2 = "activate_if (wr_activate_after_success r \<and> pp_success p) st1"
      have bs: "sn_batches st1 = sn_batches st" using sent by simp
      have acc2: "accounts n (sn_batches ?st2) ?st2" using accounts_activate_if [OF acc1] bs by simp
      show ?thesis
      proof (cases "pp_lifecycle p")
        case None
        then show ?thesis
          using Some sent(1) send acc2 pending bs
          by (auto simp: take_single_def start Let_def intro: answers_inv_stop(2) answers_invI)
      next
        case lifecycle: (Some f)
        then show ?thesis
          using Some sent(1) send answers_inv_lifecycle [OF acc2]
          by (simp add: take_single_def start Let_def)
      qed
    qed
  qed
qed

lemma take_batched_inv:
  assumes "answers_inv n st" and "\<not> sn_closed st" and "sn_results st = r # rs" and "wr_destination r = ToBatch k"
  shows "answers_inv n (take_batched env k r (st\<lparr>sn_results := rs\<rparr>))"
proof -
  note acc = answers_invD(1) [OF assms(1)] and pending = answers_invD(2) [OF assms(1,2)]
  let ?c = "case wr_response r of None \<Rightarrow> False | Some p \<Rightarrow> pp_lifecycle p \<noteq> None"
  let ?st1 = "suspend_if ?c (st\<lparr>sn_results := rs\<rparr>)"
  have distinct: "distinct (map fst (sn_batches st))"
    using acc assms(2) by (simp add: accounts_def batches_ok_def)
  show ?thesis
  proof (cases "map_of (sn_batches st) k")
    case None
    then have "k \<notin> fst ` set (sn_batches st)" by (simp add: map_of_eq_None_iff)
    from accounts_suspend_if [OF accounts_stray_result [OF acc assms(3,4,2) this]]
    show ?thesis using None pending by (simp add: take_batched_def answers_invI)
  next
    case (Some b)
    let ?rest = "AList.delete k (sn_batches st)" and ?b = "batch_result r b"
    have "accounts n (?rest @ [(k, b)]) st"
      using acc by (simp only: accounts_mset [OF mset_delete [OF distinct Some]])
    from accounts_suspend_if [OF accounts_batch_result [OF this assms(3,4,2)]]
    have acc1: "accounts n (?rest @ [(k, ?b)]) ?st1" .
    have rest: "all_pending ?rest"
      using pending by (auto simp: all_pending_def AList.delete_eq)
    show ?thesis
    proof (cases "ba_pending ?b = 0")
      case True
      have "accounts n (?rest @ [(k, ?b)]) (?st1\<lparr>sn_batches := ?rest\<rparr>)"
        using acc1 by (simp add: accounts_def books_def numbers_ok_def batches_ok_def ids_ok_def due_def open_session_def)
      then have "answers_inv n (batch_ready env ?b (?st1\<lparr>sn_batches := ?rest\<rparr>))"
        using rest assms(2) True by (intro batch_ready_inv) auto
      with True Some show ?thesis by (simp add: take_batched_def Let_def)
    next
      case False
      have bs: "mset (AList.update k ?b (sn_batches st)) = mset (?rest @ [(k, ?b)])"
        by (rule mset_update [OF distinct])
      have "accounts n (AList.update k ?b (sn_batches st)) ?st1"
        using acc1 by (simp only: accounts_mset [OF bs])
      then have "accounts n (AList.update k ?b (sn_batches st)) (?st1\<lparr>sn_batches := AList.update k ?b (sn_batches st)\<rparr>)"
        by (simp add: accounts_def books_def numbers_ok_def batches_ok_def ids_ok_def due_def open_session_def)
      moreover have "all_pending (AList.update k ?b (sn_batches st))"
        using rest False mset_eq_setD [OF bs] by (auto simp: all_pending_def)
      ultimately show ?thesis
        using False Some by (simp add: take_batched_def Let_def answers_invI)
    qed
  qed
qed

lemma answers_inv_handshake [simp]:
  "answers_inv n (st\<lparr>sn_handshake_pending := h\<rparr>) = answers_inv n st"
  "answers_inv n (st\<lparr>sn_first_message := h\<rparr>) = answers_inv n st"
  by (simp_all add: answers_inv_def accounts_def books_def numbers_ok_def batches_ok_def ids_ok_def due_def
      open_session_def)

lemma take_result_inv:
  assumes "answers_inv n st" and "\<not> sn_closed st"
  shows "answers_inv n (take_result env st)"
proof (cases "sn_results st")
  case Nil
  with assms show ?thesis by (simp add: take_result_def)
next
  case (Cons r rs)
  have "answers_inv n (case wr_destination r of
      ToSingle \<Rightarrow> take_single env r (forget_id (wr_id r) (st\<lparr>sn_results := rs\<rparr>))
    | ToBatch k \<Rightarrow> take_batched env k r (st\<lparr>sn_results := rs\<rparr>))"
    by (cases "wr_destination r")
      (simp_all add: take_single_inv [OF assms Cons] take_batched_inv [OF assms Cons])
  with Cons show ?thesis by (simp add: take_result_def Let_def)
qed

section \<open>Frames\<close>

text \<open>Unidentified requests are answered with the null id.\<close>

fun null_item :: "rpc_item \<Rightarrow> bool" where
  "null_item (ItemInvalid response) \<longleftrightarrow> rr_id response = IdNull"
| "null_item _ \<longleftrightarrow> True"

lemma parse_item_null: "null_item (parse_item v)"
  by (cases v) (auto simp: invalid_request_def response_error_def split: option.splits json.splits)

lemma parse_message_null:
  "parse_message parse_json text n = Inl response \<Longrightarrow> rr_id response = IdNull"
  "parse_message parse_json text n = Inr (Single x) \<Longrightarrow> null_item x"
  "parse_message parse_json text n = Inr (Batch items) \<Longrightarrow> list_all null_item items"
  by (auto simp: parse_message_def invalid_request_def response_error_def list_all_iff parse_item_null
      split: option.splits json.splits if_splits)

lemma accounts_send_null:
  assumes "accounts n bs st" and "\<And>i. i \<noteq> IdNull \<Longrightarrow> frame_answers i f = 0"
  shows "accounts n bs (st\<lparr>sn_tosses := k, sn_sent := sn_sent st @ [f]\<rparr>)"
proof -
  have "books bs (st\<lparr>sn_tosses := k, sn_sent := sn_sent st @ [f]\<rparr>)"
    by (rule books_shift [where st = st and bs = bs])
      (use assms in \<open>simp_all add: accounts_def due_def open_session_def\<close>)
  with assms(1) show ?thesis
    by (simp add: accounts_def numbers_ok_def batches_ok_def ids_ok_def open_session_def)
qed

lemma answers_inv_send_null:
  assumes "answers_inv n st" and "\<And>i. i \<noteq> IdNull \<Longrightarrow> frame_answers i f = 0"
  shows "answers_inv n (st\<lparr>sn_tosses := k, sn_sent := sn_sent st @ [f]\<rparr>)"
  using accounts_send_null [OF answers_invD(1) [OF assms(1)] assms(2)] assms(1)
  by (simp add: answers_inv_def)

lemma answers_inv_toss [simp]: "answers_inv n (st\<lparr>sn_tosses := k\<rparr>) = answers_inv n st"
  by (simp add: answers_inv_def)

lemma answers_inv_close: "answers_inv n st \<Longrightarrow> answers_inv n (close st)"
  using accounts_close by (auto simp: answers_inv_def close_def)

lemma answers_inv_stop': "answers_inv n st \<Longrightarrow> answers_inv n (stop st)"
  by (rule answers_inv_stop(2)) (rule answers_invD(1))

lemma send_null_inv:
  assumes "answers_inv n st" and "rr_id (pp_response p) = IdNull" and "send_answer env p st = (ok, st')"
  shows "answers_inv n st'"
  using assms(3)
proof (cases rule: send_answer_frame)
  case (sent k)
  with answers_inv_send_null [OF assms(1), of "FrameResponse p" k] assms(2) show ?thesis by simp
next
  case (failed k)
  with answers_inv_close [of n "st\<lparr>sn_tosses := k\<rparr>"] assms(1) show ?thesis by (simp add: close_def)
qed

lemma answer_or_stop_inv:
  assumes "answers_inv n st" and "rr_id response = IdNull"
  shows "answers_inv n (answer_or_stop env response st)"
proof -
  obtain q st1 where q: "prepare_recorded env (Some response) st = (q, st1)" by fastforce
  note frame = prepare_recorded_frame [OF q]
  from frame(1) assms(1) have inv: "answers_inv n st1" by (auto simp: tossed_def)
  show ?thesis
  proof (cases "\<exists>p. q = Inr (Some p)")
    case True
    then obtain p where p: "q = Inr (Some p)" ..
    obtain ok st2 where send: "send_answer env p st1 = (ok, st2)" by fastforce
    have "answers_inv n st2" by (rule send_null_inv [OF inv _ send]) (use frame(2) p assms(2) in auto)
    with q p send show ?thesis by (simp add: answer_or_stop_def answers_inv_stop')
  next
    case False
    with inv q show ?thesis
      by (auto simp: answer_or_stop_def answers_inv_stop' split: sum.split option.split)
  qed
qed

lemma stop_after_close: "stop (close st) = stop st"
  by (simp add: stop_def close_def)

text \<open>A last answer to a request that was just logged.\<close>

lemma last_answer_inv:
  assumes "answers_inv n st" and "\<And>x. response = Some x \<Longrightarrow> rr_id x = IdNull \<or> i = Some (rr_id x)"
  shows "answers_inv n (last_answer env response (log_request i st))"
proof -
  obtain q st1 where q: "prepare_recorded env response (log_request i st) = (q, st1)" by fastforce
  note frame = prepare_recorded_frame [OF q]
  from frame(1) obtain k where st1: "st1 = st\<lparr>sn_taken := sn_taken st @ opt_list i, sn_tosses := k\<rparr>"
    by (auto simp: tossed_def log_request_def)
  note acc = answers_invD(1) [OF assms(1)]
  have plain: "answers_inv n (stop st1)"
  proof -
    have "accounts n (sn_batches st) (stop st1)"
      by (rule accounts_log_unanswered [OF acc, where ids = "opt_list i"]) (simp_all add: st1 open_session_def)
    then show ?thesis by (simp add: answers_inv_closed st1)
  qed
  show ?thesis
  proof (cases "\<exists>p. q = Inr (Some p)")
    case True
    then obtain p where p: "q = Inr (Some p)" ..
    obtain ok st2 where send: "send_answer env p st1 = (ok, st2)" by fastforce
    have "answers_inv n (stop st2)"
      using send
    proof (cases rule: send_answer_frame)
      case (failed j)
      have "accounts n (sn_batches st) (stop st2)"
        by (rule accounts_log_unanswered [OF acc, where ids = "opt_list i"])
          (simp_all add: st1 failed open_session_def)
      then show ?thesis by (simp add: answers_inv_closed st1 failed)
    next
      case (sent j)
      have id: "rr_id (pp_response p) = IdNull \<or> i = Some (rr_id (pp_response p))"
        using frame(2) p assms(2) by auto
      have "books (sn_batches st) (stop st2)"
        by (rule books_drop [where st = st and bs = "sn_batches st"])
          (use acc id in \<open>auto simp: accounts_def due_def open_session_def st1 sent\<close>)
      moreover have "numbers_ok n (sn_batches st) (stop st2)"
        using acc by (simp add: accounts_def numbers_ok_def st1 sent)
      ultimately show ?thesis by (simp add: answers_inv_closed accounts_closed st1 sent)
    qed
    with q p send show ?thesis by (simp add: last_answer_def)
  next
    case False
    with plain q show ?thesis
      by (auto simp: last_answer_def split: sum.split option.split)
  qed
qed

lemma take_call_inv:
  assumes "answers_inv n st" and "\<not> sn_closed st"
  shows "answers_inv n (take_call env call c st)"
proof -
  note acc = answers_invD(1) [OF assms(1)] and pending = answers_invD(2) [OF assms]
  obtain r st1 where s: "schedule_call env call ToSingle c (log_request (rc_id call) st) = (r, st1)" by fastforce
  from s show ?thesis
  proof (cases rule: schedule_cases)
    case (duplicate k p i)
    have "answers_inv n (stop st1)"
    proof -
      have "accounts n (sn_batches st) (stop st1)"
        by (rule accounts_log_unanswered [OF acc, where ids = "opt_list (rc_id call)"])
          (simp_all add: duplicate(5) log_request_def open_session_def)
      then show ?thesis by (simp add: answers_inv_closed duplicate(5) log_request_def)
    qed
    moreover have "answers_inv n (stop (snd (send_answer env q st1)))" if "p = Some q" for q
    proof -
      obtain ok st2 where send: "send_answer env q st1 = (ok, st2)" by fastforce
      have null: "rr_id (pp_response q) = IdNull" using duplicate(4) that by simp
      from send have "accounts n (sn_batches st) (stop st2)"
      proof (cases rule: send_answer_frame)
        case (sent j)
        show ?thesis
          by (rule accounts_log_unanswered [OF acc, where ids = "opt_list (rc_id call)"])
            (use null in \<open>auto simp add: sent duplicate(5) log_request_def open_session_def\<close>)
      next
        case (failed j)
        show ?thesis
          by (rule accounts_log_unanswered [OF acc, where ids = "opt_list (rc_id call)"])
            (simp_all add: failed duplicate(5) log_request_def open_session_def)
      qed
      moreover have "sn_batches st2 = sn_batches st"
        using send by (cases rule: send_answer_frame) (simp_all add: duplicate(5) log_request_def)
      ultimately show ?thesis using send by (simp add: answers_inv_closed)
    qed
    ultimately show ?thesis using s duplicate(3) by (cases p) (simp_all add: take_call_def)
  next
    case (answered k response)
    have st1: "st1 = st\<lparr>sn_taken := sn_taken st @ opt_list (rc_id call), sn_tosses := k\<rparr>"
      by (simp add: answered(4) log_request_def)
    show ?thesis
    proof (cases response)
      case None
      then have "rc_id call = None" using answered(2) by simp
      then have "st1 = st\<lparr>sn_tosses := k\<rparr>" by (simp add: st1)
      with None s answered(1) assms(1) show ?thesis by (simp add: take_call_def)
    next
      case (Some p)
      then have id: "rc_id call = Some (rr_id (pp_response p))" using answered(2) by simp
      obtain ok st2 where send: "send_answer env p st1 = (ok, st2)" by fastforce
      then have "answers_inv n (if ok then st2 else stop st2)"
      proof (cases rule: send_answer_frame)
        case (failed j)
        have "accounts n (sn_batches st) (stop st2)"
          by (rule accounts_log_unanswered [OF acc, where ids = "opt_list (rc_id call)"])
            (simp_all add: failed st1 open_session_def)
        then show ?thesis by (simp add: answers_inv_closed failed st1)
      next
        case (sent j)
        have "books (sn_batches st) st2"
          by (rule books_shift [where st = st and bs = "sn_batches st"])
            (use acc id in \<open>auto simp: accounts_def due_def open_session_def st1 sent simp del: opt_list_simps\<close>)
        then have "accounts n (sn_batches st) st2"
          using acc by (simp add: accounts_def numbers_ok_def batches_ok_def ids_ok_def open_session_def st1 sent)
        with pending show ?thesis by (simp add: sent st1 answers_invI)
      qed
      with s answered(1) Some send show ?thesis by (simp add: take_call_def)
    qed
  next
    case (closing k os)
    have "accounts n (sn_batches st) st1"
      by (rule accounts_log_unanswered [OF acc, where ids = "opt_list (rc_id call)"])
        (simp_all add: closing log_request_def open_session_def)
    with s closing show ?thesis by (simp add: take_call_def answers_inv_closed log_request_def)
  next
    case (suspended k os)
    have "accounts n (sn_batches st) st1"
      by (rule accounts_log_unanswered [OF acc, where ids = "opt_list (rc_id call)"])
        (use suspended(2) in \<open>auto simp: suspended(3) log_request_def open_session_def\<close>)
    with s suspended pending show ?thesis by (simp add: take_call_def answers_invI log_request_def)
  next
    case (spawned k ctx)
    have "accounts n (sn_batches st) st1"
      using accounts_spawn_single [OF acc, of call ctx c k] spawned(2) assms(2)
      by (simp add: spawned(5) log_request_def)
    moreover have "sn_batches st1 = sn_batches st"
      by (simp add: spawned(5) log_request_def spawn_work_def)
    ultimately show ?thesis
      using s spawned(1) pending by (simp add: take_call_def answers_invI)
  qed
qed

text \<open>The items of a batch, with the batch so far as the last of the unfinished ones.\<close>

lemma accounts_more_ids:
  "accounts n (bs @ [(k, b)]) st \<Longrightarrow> \<not> open_session st \<Longrightarrow>
   accounts n (bs @ [(k, b\<lparr>ba_request_ids := ids\<rparr>)]) st"
  by (auto simp: accounts_def books_def due_def numbers_ok_def batches_ok_def)

lemma take_items_inv:
  assumes "accounts n (sn_batches st @ [(k, b)]) st" and "list_all null_item items"
    and "take_items env k items b st = (r, st')"
  shows "case r of
      Some b' \<Rightarrow> accounts n (sn_batches st @ [(k, b')]) st' \<and> sn_batches st' = sn_batches st
    | None \<Rightarrow> answers_inv n (stop st')"
  using assms
proof (induction items arbitrary: b st)
  case Nil
  then show ?case by auto
next
  case (Cons item items)
  note acc = Cons.prems(1)
  show ?case
  proof (cases item)
    case ItemResponse
    with Cons show ?thesis by simp
  next
    case (ItemInvalid response)
    obtain q st1 where q: "prepare_recorded env (Some response) st = (q, st1)" by fastforce
    note frame = prepare_recorded_frame [OF q]
    from frame(1) obtain j where st1: "st1 = st\<lparr>sn_tosses := j\<rparr>" by (auto simp: tossed_def)
    show ?thesis
    proof (cases "\<exists>p. q = Inr (Some p)")
      case True
      then obtain p where p: "q = Inr (Some p)" ..
      have null: "rr_id (pp_response p) = IdNull"
        using frame(2) p Cons.prems(2) ItemInvalid by auto
      have "take_items env k items (batch_push p False b) st1 = (r, st')"
        using Cons.prems(3) ItemInvalid q p by simp
      moreover have "accounts n (sn_batches st1 @ [(k, batch_push p False b)]) st1"
        using accounts_push_null [OF acc null] by (simp add: st1)
      ultimately show ?thesis
        using Cons.IH [of st1 "batch_push p False b"] Cons.prems(2) by (simp add: st1 split: option.splits)
    next
      case False
      then have "r = None" "st' = close st1"
        using Cons.prems(3) ItemInvalid q by (auto split: sum.splits option.splits)
      with answers_inv_stop_batch(1) [OF acc, where j = j and c = "sn_closed st"] show ?thesis
        by (simp add: stop_after_close st1)
    qed
  next
    case (ItemCall call)
    let ?b1 = "b\<lparr>ba_request_ids := ba_request_ids b @ opt_list (rc_id call)\<rparr>"
    obtain x st1 where s: "schedule_call env call (ToBatch k) False (log_request (rc_id call) st) = (x, st1)" by fastforce
    have next_item: ?thesis
      if "take_items env k items b' st1 = (r, st')" "accounts n (sn_batches st @ [(k, b')]) st1"
        "sn_batches st1 = sn_batches st" for b'
      using Cons.IH [of st1 b'] Cons.prems(2) that by (auto split: option.splits)
    from s show ?thesis
    proof (cases rule: schedule_cases)
      case (duplicate j p i)
      have none: "r = None"
        using Cons.prems(3) ItemCall s duplicate(3) by (cases p) (auto simp: Let_def)
      have ended: "answers_inv n (stop st2)"
        if "sn_taken st2 = sn_taken st1" "sn_work st2 = sn_work st1" "sn_results st2 = sn_results st1"
          "sn_next_work st2 = sn_next_work st1" "sn_next_batch st2 = sn_next_batch st1"
          "sn_batches st2 = sn_batches st1"
          "\<And>i. i \<noteq> IdNull \<Longrightarrow> answered i (sn_sent st2) = answered i (sn_sent st)" for st2
      proof -
        have "accounts n (sn_batches st @ [(k, b)]) (stop st2)"
          by (rule accounts_log_unanswered [OF acc, where ids = "opt_list (rc_id call)"])
            (use that in \<open>simp_all add: duplicate(5) log_request_def open_session_def\<close>)
        from accounts_forget_batch [OF this] that(6) show ?thesis
          by (simp add: answers_inv_closed duplicate(5) log_request_def)
      qed
      show ?thesis
      proof (cases p)
        case None
        then have "st' = close st1" using Cons.prems(3) ItemCall s duplicate(3) by (auto simp: Let_def)
        with none ended [of st1] show ?thesis by (simp add: stop_after_close duplicate(5) log_request_def)
      next
        case (Some q)
        obtain ok st2 where send: "send_answer env q st1 = (ok, st2)" by fastforce
        then have "answers_inv n (stop st2)"
        proof (cases rule: send_answer_frame)
          case (sent m)
          show ?thesis
            by (rule ended) (use duplicate(4) Some in \<open>auto simp: sent duplicate(5) log_request_def\<close>)
        next
          case (failed m)
          show ?thesis by (rule ended) (simp_all add: failed duplicate(5) log_request_def)
        qed
        moreover have "st' = close st2"
          using Cons.prems(3) ItemCall s duplicate(3) Some send by (auto simp: Let_def)
        ultimately show ?thesis using none by (simp add: stop_after_close)
      qed
    next
      case (answered j response)
      let ?b = "case response of Some p \<Rightarrow> batch_push p False ?b1 | None \<Rightarrow> ?b1"
      have "counts_toward_batch call" if "response \<noteq> None"
        using that answered(2) by (cases "rc_id call") (auto simp: counts_toward_batch_def)
      then have "take_items env k items ?b st1 = (r, st')"
        using Cons.prems(3) ItemCall s answered(1) by (cases response) (simp_all add: Let_def)
      moreover have "accounts n (sn_batches st @ [(k, ?b)]) st1"
        using accounts_answered_item [OF acc, of call response j] answered(2,3)
        by (simp add: answered(4) log_request_def)
      ultimately show ?thesis by (rule next_item) (simp_all add: answered(4) log_request_def)
    next
      case (closing j os)
      have "take_items env k items ?b1 st1 = (r, st')"
        using Cons.prems(3) ItemCall s closing(1) by (simp add: Let_def)
      moreover have "accounts n (sn_batches st @ [(k, ?b1)]) st1"
        by (rule accounts_more_ids, rule accounts_log_unanswered [OF acc, where ids = "opt_list (rc_id call)"])
          (simp_all add: closing(2) log_request_def open_session_def)
      ultimately show ?thesis by (rule next_item) (simp_all add: closing(2) log_request_def)
    next
      case (suspended j os)
      have "take_items env k items ?b1 st1 = (r, st')"
        using Cons.prems(3) ItemCall s suspended(1) by (simp add: Let_def)
      moreover have "accounts n (sn_batches st @ [(k, ?b1)]) st1"
        by (rule accounts_more_ids, rule accounts_log_unanswered [OF acc, where ids = "opt_list (rc_id call)"])
          (use suspended(2) in \<open>auto simp: suspended(3) log_request_def open_session_def\<close>)
      ultimately show ?thesis by (rule next_item) (simp_all add: suspended(3) log_request_def)
    next
      case (spawned j ctx)
      let ?b = "if counts_toward_batch call then ?b1\<lparr>ba_pending := ba_pending ?b1 + 1\<rparr> else ?b1"
      have "take_items env k items ?b st1 = (r, st')"
        using Cons.prems(3) ItemCall s spawned(1) by (simp add: Let_def)
      moreover have "accounts n (sn_batches st @ [(k, ?b)]) st1"
        using accounts_spawned_item [OF acc, of call ctx False j] spawned(2)
        by (cases "counts_toward_batch call") (simp_all add: spawned(5) log_request_def)
      ultimately show ?thesis by (rule next_item) (simp_all add: spawned(5) log_request_def spawn_work_def)
    qed
  qed
qed

lemma flush_batch_same:
  assumes "ba_responses b' = ba_responses b" and "ba_lifecycle b' = ba_lifecycle b"
  shows "flush_batch env b' st = flush_batch env b st"
  unfolding flush_batch_def batch_bytes_def assms ..

text \<open>A batch that is complete when its items are read is flushed like the others, except that it
  neither activates nor closes the session.\<close>

lemma take_batch_at_once:
  assumes "take_items env (sn_next_batch st) items batch_new (st\<lparr>sn_next_batch := sn_next_batch st + 1\<rparr>) = (Some b, st1)"
    and "ba_pending b = 0"
  shows "take_batch env items st =
    batch_ready env (b\<lparr>ba_activate_after_success := False, ba_close_after_error := False\<rparr>) st1"
proof -
  have same: "flush_batch env (b\<lparr>ba_activate_after_success := False, ba_close_after_error := False\<rparr>) st1 =
      flush_batch env b st1"
    by (rule flush_batch_same) simp_all
  obtain q st2 where q: "flush_batch env b st1 = (q, st2)" by fastforce
  show ?thesis
  proof (cases q)
    case None
    with q same assms show ?thesis by (simp add: take_batch_def batch_ready_def)
  next
    case (Some lifecycle)
    with q same assms show ?thesis
      by (cases lifecycle) (simp_all add: take_batch_def batch_ready_def activate_if_def)
  qed
qed

lemma unat_Suc:
  fixes k :: u64
  assumes "unat k \<le> n" and "n + 1 < 2 ^ 64"
  shows "unat (k + 1) = unat k + 1"
  using assms unat_add_lem [of k 1] by simp

lemma take_batch_inv:
  assumes "answers_inv n st" and "\<not> sn_closed st" and "list_all null_item items" and "n + 1 < 2 ^ 64"
  shows "answers_inv (n + 1) (take_batch env items st)"
proof -
  note acc = answers_invD(1) [OF assms(1)] and pending = answers_invD(2) [OF assms(1,2)]
  let ?k = "sn_next_batch st"
  let ?st = "st\<lparr>sn_next_batch := ?k + 1\<rparr>"
  have "unat ?k \<le> n" using acc by (simp add: accounts_def numbers_ok_def)
  from unat_Suc [OF this assms(4)] have k: "?k < ?k + 1" "unat (?k + 1) \<le> n + 1" "\<And>j. j < ?k \<Longrightarrow> j < ?k + 1"
    using \<open>unat ?k \<le> n\<close> by (auto simp: word_less_nat_alt)
  have start: "accounts (n + 1) (sn_batches ?st @ [(?k, batch_new)]) ?st"
  proof -
    have "books (sn_batches st @ [(?k, batch_new)]) ?st"
      by (rule books_shift [where st = st and bs = "sn_batches st"])
        (use acc in \<open>simp_all add: accounts_def due_def open_session_def batch_new_def\<close>)
    moreover have "numbers_ok (n + 1) (sn_batches st @ [(?k, batch_new)]) ?st"
      using acc k by (fastforce simp: accounts_def numbers_ok_def)
    moreover have "?k \<notin> fst ` set (sn_batches st)"
      using acc by (force simp: accounts_def numbers_ok_def)
    then have "batches_ok (sn_batches st @ [(?k, batch_new)]) ?st"
      using acc assms(2) by (simp add: accounts_def batches_ok_def batch_new_def)
    moreover have "ids_ok (sn_batches st @ [(?k, batch_new)]) ?st" if "open_session st"
      using acc that by (simp add: accounts_def ids_ok_def batch_new_def)
    ultimately show ?thesis by (simp add: accounts_def) (simp add: open_session_def)
  qed
  obtain r st1 where items: "take_items env ?k items batch_new ?st = (r, st1)" by fastforce
  note inv = take_items_inv [OF start assms(3) items]
  show ?thesis
  proof (cases r)
    case None
    with inv items show ?thesis by (simp add: take_batch_def)
  next
    case (Some b)
    with inv have acc1: "accounts (n + 1) (sn_batches st @ [(?k, b)]) st1" and bs: "sn_batches st1 = sn_batches st"
      by simp_all
    show ?thesis
    proof (cases "ba_pending b = 0")
      case False
      have new: "?k \<notin> fst ` set (sn_batches st)"
        using acc by (force simp: accounts_def numbers_ok_def)
      have distinct: "distinct (map fst (sn_batches st))"
        using acc assms(2) by (simp add: accounts_def batches_ok_def)
      have "mset (AList.update ?k b (sn_batches st)) = mset (sn_batches st @ [(?k, b)])"
        using mset_update [OF distinct] delete_new [OF new] by simp
      note same = accounts_mset [OF this] and elems = mset_eq_setD [OF this]
      have "accounts (n + 1) (AList.update ?k b (sn_batches st)) (st1\<lparr>sn_batches := AList.update ?k b (sn_batches st)\<rparr>)"
        using acc1 unfolding same [symmetric]
        by (simp add: accounts_def books_def numbers_ok_def batches_ok_def ids_ok_def due_def open_session_def)
      moreover have "all_pending (AList.update ?k b (sn_batches st))"
        using pending elems False by (auto simp: all_pending_def)
      ultimately show ?thesis
        using False Some items bs by (simp add: take_batch_def answers_invI)
    next
      case True
      let ?b = "b\<lparr>ba_activate_after_success := False, ba_close_after_error := False\<rparr>"
      have "accounts (n + 1) (sn_batches st1 @ [(?k, ?b)]) st1"
        using acc1 bs by (simp add: accounts_def books_def numbers_ok_def batches_ok_def ids_ok_def due_def)
      then have "answers_inv (n + 1) (batch_ready env ?b st1)"
        by (rule batch_ready_inv) (use True pending bs in simp_all)
      then show ?thesis
        using take_batch_at_once [of env st items b st1] True Some items by simp
    qed
  qed
qed

text \<open>A frame: the messages that end the session, the handshake, calls and batches.\<close>

lemma take_message_inv:
  assumes "answers_inv n st" and "\<not> sn_closed st" and "n + 1 < 2 ^ 64"
    and "\<And>x. message = Single x \<Longrightarrow> null_item x" and "\<And>xs. message = Batch xs \<Longrightarrow> list_all null_item xs"
  shows "answers_inv (n + 1) (take_message env opening message st)"
proof (cases message)
  case (Batch items)
  with take_batch_inv [OF assms(1,2) _ assms(3), of items env] assms(5) show ?thesis by simp
next
  case (Single item)
  with assms(4) have null: "null_item item" by simp
  have "answers_inv n (take_message env opening message st)"
  proof (cases item)
    case (ItemInvalid response)
    with Single null answer_or_stop_inv [OF assms(1)] show ?thesis by simp
  next
    case (ItemCall call)
    with Single take_call_inv [OF assms(1,2)] show ?thesis by simp
  qed (use Single assms(1) in simp)
  then show ?thesis by (simp add: answers_inv_later)
qed

lemma take_frame_inv:
  assumes "answers_inv n st" and "\<not> sn_closed st" and "n + 1 < 2 ^ 64"
  shows "answers_inv (n + 1) (take_frame env text st)"
proof (cases "parse_message (se_parse env) text max_batch_items")
  case (Inl response)
  with answer_or_stop_inv [OF assms(1), of response env] parse_message_null(1) [OF Inl] assms(1)
  show ?thesis by (auto simp: take_frame_def intro: answers_inv_later)
next
  case (Inr message)
  let ?st1 = "st\<lparr>sn_first_message := False\<rparr>"
  let ?st2 = "if sn_first_message st then ?st1\<lparr>sn_handshake_pending := True\<rparr> else ?st1"
  have inv: "answers_inv n ?st1" "answers_inv n ?st2" using assms(1) by simp_all
  have "\<not> sn_closed ?st2" using assms(2) by simp
  from take_message_inv [OF inv(2) this assms(3), of message env "sn_first_message st"]
  have "answers_inv (n + 1) (take_message env (sn_first_message st) message ?st2)"
    using parse_message_null(2,3) [of "se_parse env" "text" max_batch_items] Inr by simp
  moreover have "answers_inv n (last_answer env (Some invalid_request) ?st1)"
    using last_answer_inv [OF inv(1), of "Some invalid_request" None env]
    by (simp add: invalid_request_def response_error_def log_request_def)
  ultimately show ?thesis
    using Inr assms(1) by (auto simp: take_frame_def Let_def intro: answers_inv_later)
qed

lemma take_oversized_inv:
  "answers_inv n st \<Longrightarrow> answers_inv n (take_oversized env text st)"
  by (auto simp: take_oversized_def response_error_def Let_def intro!: last_answer_inv)

lemma take_guard_failure_inv:
  assumes "answers_inv n st"
  shows "answers_inv n (take_guard_failure env st)"
proof (cases "sn_guard st")
  case (Cons f fs)
  have "accounts n (sn_batches (st\<lparr>sn_guard := fs\<rparr>)) (st\<lparr>sn_guard := fs\<rparr>)"
    using answers_invD(1) [OF assms]
    by (simp add: accounts_def books_def numbers_ok_def batches_ok_def ids_ok_def due_def open_session_def)
  from answers_inv_lifecycle [OF this] Cons show ?thesis by (simp add: take_guard_failure_def)
qed (use assms in \<open>simp add: take_guard_failure_def\<close>)

section \<open>Every step\<close>

text \<open>What the books do not mention.\<close>

definition same_books :: "'p rpc_session \<Rightarrow> 'p rpc_session \<Rightarrow> bool" where
  "same_books st st' \<longleftrightarrow> sn_closed st' = sn_closed st \<and>
     ss_accepting (sn_state st') = ss_accepting (sn_state st) \<and> sn_next_batch st' = sn_next_batch st \<and>
     sn_batches st' = sn_batches st \<and> sn_outstanding st' = sn_outstanding st \<and> sn_work st' = sn_work st \<and>
     sn_next_work st' = sn_next_work st \<and> sn_results st' = sn_results st \<and> sn_taken st' = sn_taken st \<and>
     sn_sent st' = sn_sent st"

lemma answers_inv_same: "same_books st st' \<Longrightarrow> answers_inv n st' = answers_inv n st"
  by (simp add: same_books_def answers_inv_def accounts_def books_def numbers_ok_def batches_ok_def ids_ok_def
      due_def open_session_def)

lemma lane_frame_same: "lane_frame st st' \<Longrightarrow> same_books st st'"
  by (simp add: lane_frame_def same_books_def)

lemma answers_inv_set_stage [simp]: "answers_inv n (set_stage no stage st) = answers_inv n st"
  by (simp add: answers_inv_def)

lemma finish_work_inv:
  assumes "answers_inv n st" and "find_work no st = Some w"
  shows "answers_inv n (finish_work env w result failures st)"
proof (rule answers_invI)
  show "accounts n (sn_batches (finish_work env w result failures st)) (finish_work env w result failures st)"
    using accounts_finish_work [OF answers_invD(1) [OF assms(1)] assms(2), of env result failures] by simp
  assume "\<not> sn_closed (finish_work env w result failures st)"
  then have "\<not> sn_closed st"
    by (auto simp: finish_work_def Let_def close_def drop_work_def tossed_def split: sum.splits prod.splits
        dest!: prepare_recorded_frame(1))
  then show "all_pending (sn_batches (finish_work env w result failures st))"
    using answers_invD(2) [OF assms(1)]
      accounts_finish_work(2) [OF answers_invD(1) [OF assms(1)] assms(2), of env result failures]
    by simp
qed

lemma find_work_close [simp]: "find_work no (close st) = find_work no st"
  by (simp add: find_work_def close_def)

lemma queue_command_inv:
  assumes "answers_inv n st" and "find_work no st = Some w"
  shows "answers_inv n (queue_command env w command st)"
proof -
  have "same_books st (st\<lparr>sn_lane := l\<rparr>)" for l by (simp add: same_books_def)
  from answers_inv_same [OF this] assms(1)
  have "answers_inv n (st\<lparr>sn_lane := l\<rparr>)" for l by blast
  moreover have "answers_inv n (finish_work env w r [] (close st))" for r
    by (rule finish_work_inv [where no = no]) (simp_all add: answers_inv_close assms)
  ultimately show ?thesis by (simp add: queue_command_def)
qed

lemma run_work_inv:
  "answers_inv n st \<Longrightarrow> find_work no st = Some w \<Longrightarrow> answers_inv n (run_work env ops world w st)"
  by (auto simp: run_work_def Let_def finish_work_inv queue_command_inv split: option.split sum.split prod.split)

lemma finish_control_inv:
  "answers_inv n st \<Longrightarrow> find_work no st = Some w \<Longrightarrow> answers_inv n (finish_control env w st)"
  by (auto simp: finish_control_def finish_work_inv split: work_stage.split)

lemma drop_work_inv:
  assumes "answers_inv n st" and "find_work no st = Some w"
  shows "answers_inv n (close (drop_work no st))"
proof -
  note acc = answers_invD(1) [OF assms(1)]
  have le: "works_due i (filter P ws) \<le> works_due i ws" for i P ws
    by (induction ws) (auto simp: works_due_def)
  have "books (sn_batches st) (close (drop_work no st))"
    by (rule books_drop [where st = st and bs = "sn_batches st"])
      (use acc le in \<open>simp_all add: accounts_def due_def open_session_def close_def drop_work_def\<close>)
  moreover have "numbers_ok n (sn_batches st) (close (drop_work no st))"
    using acc by (auto simp: accounts_def numbers_ok_def close_def drop_work_def distinct_map_filter)
  ultimately show ?thesis
    by (simp add: answers_inv_closed accounts_closed close_def drop_work_def)
qed

end
