(* ===== verification/Rpc_Example.thy ===== *)
theory Rpc_Example
  imports Rpc_Session
begin

text \<open>
  A concrete environment of an RPC session and a short conversation in it: the handshake with a
  token, then a batch of two calls. Texts are numbers that stand for JSON documents.
\<close>

definition call_json :: "string option \<Rightarrow> string \<Rightarrow> json" where
  "call_json i method =
     JObj ([(ascii ''jsonrpc'', JStr (ascii ''2.0'')), (ascii ''method'', JStr (ascii method))] @
       (case i of None \<Rightarrow> [] | Some s \<Rightarrow> [(ascii ''id'', JStr (ascii s))]))"

definition example_parse :: "nat \<Rightarrow> json option" where
  "example_parse n =
     (if n = 0 then Some (call_json (Some ''a'') ''session.open'')
      else if n = 1
      then Some (JArr [call_json (Some ''b'') ''messages.list'', call_json None ''messages.list''])
      else if n = 2 then Some (call_json (Some ''c'') ''session.ping'')
      else None)"

definition example_decode :: "ustr \<Rightarrow> json option \<Rightarrow> rpc_error + control_command" where
  "example_decode name params =
     (if name = ascii ''session.open'' then Inr (OpenSession 1 (Some (ascii ''token'')) None)
      else if name = ascii ''session.ping'' then Inr (Ping None)
      else Inl (rpc_error_new InvalidParams))"

definition example_env :: "(nat, unit) session_env" where
  "example_env =
     \<lparr>se_parse = example_parse, se_size = (\<lambda>_. Some 100), se_event_size = (\<lambda>_. Some 100),
      se_lifecycle_size = (\<lambda>_. Some 100), se_decode = example_decode, se_toss = (\<lambda>_. True)\<rparr>"

definition example_session :: verified_session where
  "example_session = \<lparr>vs_uid = 7, vs_client_id = ascii ''phone'', vs_generation = 0, vs_version = V2\<rparr>"

text \<open>The services accept the token at second 1000.\<close>

definition example_answers :: control_answers where
  "example_answers =
     \<lparr>ca_verify = Inr example_session, ca_guard = Inr (), ca_activity = Inr (),
      ca_issue = Inl (rpc_error_new CodeForbidden), ca_token = Inr (ascii ''token''), ca_now = 1000,
      ca_now_secs = 1000, ca_observed = []\<rparr>"

definition example_ops :: "unit dispatch_ops" where
  "example_ops =
     \<lparr>op_check = (\<lambda>_ w. (Inr (), w)), op_activity = (\<lambda>_ w. (Inr (), w)),
      op_handler = (\<lambda>_ _ _ w. (Inr JNull, w))\<rparr>"

definition control_round :: "nat \<Rightarrow> nat \<Rightarrow> (nat, unit, unit) session_event list" where
  "control_round frame no =
     [FrameArrives frame, RunWork no example_ops (), LaneTakes, LaneAnswers example_answers,
      ControlAnswered no, ResultReady]"

definition opening_events :: "(nat, unit, unit) session_event list" where
  "opening_events = control_round 0 0"

definition batch_events :: "(nat, unit, unit) session_event list" where
  "batch_events =
     opening_events @ [FrameArrives 1, RunWork 2 example_ops (), ResultReady, RunWork 1 example_ops (), ResultReady]"

text \<open>After the handshake.\<close>

definition open_id :: rpc_id where
  "open_id = IdString (ascii ''a'')"

definition example_registry :: "unit registry" where
  "example_registry = snd (register 7 (ascii ''phone'') 1000 registry_new)"

definition opened_session :: "unit rpc_session" where
  "opened_session = (session_start example_registry)
     \<lparr>sn_state := session_state_default
        \<lparr>ss_opened := True, ss_activated := True,
         ss_bound := Some \<lparr>bs_session = example_session, bs_conn_id = 0, bs_presence = None,
           bs_unread = None, bs_states = None\<rparr>\<rparr>,
      sn_first_message := False, sn_next_work := 1, sn_taken := [open_id],
      sn_sent := [FrameResponse \<lparr>pp_response = response_success open_id (session_open_json (Some example_session)),
        pp_bytes = 100, pp_success = True, pp_oversized = False, pp_lifecycle = None\<rparr>],
      sn_tosses := 2\<rparr>"

lemma open_id_not_null [simp]: "open_id \<noteq> IdNull"
  by (simp add: open_id_def)

lemma register_example: "register 7 (ascii ''phone'') 1000 (registry_new :: unit registry) = (0, example_registry)"
  by (simp add: example_registry_def register_def registry_new_def Let_def)

lemma example_open_call:
  "parse_message example_parse 0 n = Inr (Single (ItemCall
     \<lparr>rc_id = Some open_id, rc_method = ascii ''session.open'', rc_params = None\<rparr>))"
  by (simp add: parse_message_def example_parse_def call_json_def contains_key_def json_as_str_def ascii_def
      open_id_def)

lemma example_classes:
  "method_class (ascii ''session.open'') = Some SessionCall"
  "method_class (ascii ''session.ping'') = Some ControlCall"
  "method_class (ascii ''messages.list'') = Some ReadCall"
  by (simp_all add: method_class_def method_table_def ascii_def)

lemmas session_evaluation =
  session_run_def loop_step_def take_frame_def schedule_call_def schedule_admitted_def call_context_def
  control_permits_def ordinary_permits_def control_queue_def max_in_flight_def spawn_work_def take_call_def
  log_request_def on_work_def find_work_def run_work_def call_refused_def opens_session_def queue_command_def
  set_stage_def lane_take_def lane_answer_def bind_authenticated_def bind_session_def on_state_def
  finish_control_def finish_work_def drop_work_def prepare_recorded_def prepare_response_def respond_def
  reserve_def toss_def max_frame_bytes_def max_queued_bytes_def response_success_def lifecycle_failure_def
  reported_failures_def counts_toward_batch_def activates_def take_result_def take_single_def send_answer_def
  send_prepared_def suspend_if_def activate_if_def activate_def forget_id_def session_start_def
  session_state_default_def take_message.simps Let_def is_ordinary_def

lemmas example_evaluation =
  example_env_def example_decode_def example_answers_def example_ops_def example_open_call example_classes

lemma ascii_inject [simp]: "ascii s = ascii t \<longleftrightarrow> s = t"
  by (auto simp: ascii_def inj_map_eq_map inj_of_char)

definition opening_call :: rpc_call where
  "opening_call = \<lparr>rc_id = Some open_id, rc_method = ascii ''session.open'', rc_params = None\<rparr>"

definition opening_work :: "work_stage \<Rightarrow> work" where
  "opening_work stage =
     \<lparr>wk_no = 0, wk_call = opening_call,
      wk_context = \<lparr>cx_session = None, cx_connection_id = 0, cx_rpc_id = Some open_id\<rparr>,
      wk_destination = ToSingle, wk_close_after_error = True, wk_stage = stage\<rparr>"

definition handshake :: "work_stage \<Rightarrow> unit rpc_session" where
  "handshake stage = (session_start registry_new)
     \<lparr>sn_first_message := False, sn_handshake_pending := True, sn_outstanding := {open_id},
      sn_work := [opening_work stage], sn_next_work := 1, sn_taken := [open_id]\<rparr>"

definition opening_command :: control_command where
  "opening_command = OpenSession 1 (Some (ascii ''token'')) None"

lemmas handshake_simps = handshake_def opening_work_def opening_call_def opening_command_def

lemma example_1: "session_step example_env (FrameArrives 0) (session_start registry_new) = handshake Spawned"
  by (simp add: session_evaluation example_evaluation handshake_simps)

lemma example_2: "session_step example_env (RunWork 0 example_ops ()) (handshake Spawned) =
    (handshake Waiting)\<lparr>sn_lane := [(0, opening_command)]\<rparr>"
  by (simp add: session_evaluation example_evaluation handshake_simps)

lemma example_3: "session_step example_env LaneTakes ((handshake Waiting)\<lparr>sn_lane := [(0, opening_command)]\<rparr>) =
    (handshake Waiting)\<lparr>sn_executing := Some (0, opening_command)\<rparr>"
  by (simp add: session_evaluation example_evaluation handshake_simps)

definition bound_state :: session_state where
  "bound_state = session_state_default
     \<lparr>ss_opened := True,
      ss_bound := Some \<lparr>bs_session = example_session, bs_conn_id = 0, bs_presence = None,
        bs_unread = None, bs_states = None\<rparr>\<rparr>"

lemma example_4: "session_step example_env (LaneAnswers example_answers)
      ((handshake Waiting)\<lparr>sn_executing := Some (0, opening_command)\<rparr>) =
    (handshake (Replied (Inr (session_open_json (Some example_session)))))
      \<lparr>sn_state := bound_state, sn_registry := example_registry\<rparr>"
  by (simp add: session_evaluation example_evaluation handshake_simps bound_state_def example_session_def register_example)

lemma example_5: "session_step example_env (ControlAnswered 0)
    ((handshake (Replied (Inr (session_open_json (Some example_session)))))
      \<lparr>sn_state := bound_state, sn_registry := example_registry\<rparr>) =
    (handshake Spawned)\<lparr>sn_state := bound_state, sn_registry := example_registry, sn_work := [],
      sn_tosses := 1,
      sn_results := [\<lparr>wr_id = Some open_id, wr_destination = ToSingle,
        wr_response = Some \<lparr>pp_response = response_success open_id (session_open_json (Some example_session)),
          pp_bytes = 100, pp_success = True, pp_oversized = False, pp_lifecycle = None\<rparr>,
        wr_close_after_error = True, wr_activate_after_success = True, wr_counts_toward_batch = True\<rparr>]\<rparr>"
  by (simp add: session_evaluation example_evaluation handshake_simps)

lemma example_6: "session_step example_env ResultReady
    ((handshake Spawned)\<lparr>sn_state := bound_state, sn_registry := example_registry, sn_work := [],
      sn_tosses := 1,
      sn_results := [\<lparr>wr_id = Some open_id, wr_destination = ToSingle,
        wr_response = Some \<lparr>pp_response = response_success open_id (session_open_json (Some example_session)),
          pp_bytes = 100, pp_success = True, pp_oversized = False, pp_lifecycle = None\<rparr>,
        wr_close_after_error = True, wr_activate_after_success = True, wr_counts_toward_batch = True\<rparr>]\<rparr>) =
    opened_session"
  by (simp add: session_evaluation example_evaluation handshake_simps opened_session_def bound_state_def)

lemma example_opened: "session_run example_env opening_events registry_new = opened_session"
  unfolding session_run_def opening_events_def control_round_def
  by (simp only: fold_simps example_1 example_2 example_3 example_4 example_5 example_6)

end
