(* ===== verification/Rpc_Guarantees.thy ===== *)
theory Rpc_Guarantees
  imports Rpc_Answers Rpc_Example
begin

text \<open>
  The guarantees of an RPC session over whole runs: every step of the machine keeps the books of
  \<open>Rpc_Answers\<close>.
\<close>

section \<open>Events\<close>

lemma send_text_cases:
  assumes "send_text env n frame st = (ok, st')"
  obtains (sent) k where "ok" "\<not> sn_closed st" "st' = st\<lparr>sn_tosses := k, sn_sent := sn_sent st @ [frame]\<rparr>"
  | (failed) k where "\<not> ok" "st' = st\<lparr>sn_tosses := k, sn_closed := True\<rparr>"
proof (cases "n > max_frame_bytes")
  case True
  with assms show ?thesis by (intro failed [of "sn_tosses st"]) (auto simp: send_text_def close_def)
next
  case False
  obtain q st1 where q: "reserve env n st = (q, st1)" by fastforce
  from reserve_frame [OF q] obtain j where st1: "st1 = st\<lparr>sn_tosses := j\<rparr>" by (auto simp: tossed_def)
  show ?thesis
  proof (cases q)
    case (Inl e)
    with False assms q st1 show ?thesis by (intro failed [of j]) (auto simp: send_text_def close_def)
  next
    case (Inr u)
    with False assms q have "send_prepared env frame st1 = (ok, st')" by (simp add: send_text_def)
    then show ?thesis
    proof (cases rule: send_prepared_frame)
      case (sent k)
      with st1 show ?thesis by (intro that(1) [of k]) simp_all
    next
      case (failed k)
      with st1 show ?thesis by (intro that(2) [of k]) simp_all
    qed
  qed
qed

text \<open>Forwarding to the client sends at most the one event, and closes the session when it cannot.\<close>

lemma close_unless_cases:
  assumes "close_unless (send_text env n frame st) = st'"
  obtains (sent) k where "\<not> sn_closed st" "st' = st\<lparr>sn_tosses := k, sn_sent := sn_sent st @ [frame]\<rparr>"
  | (failed) k where "st' = st\<lparr>sn_tosses := k, sn_closed := True\<rparr>"
proof -
  obtain ok st1 where s: "send_text env n frame st = (ok, st1)" by fastforce
  then show ?thesis
  proof (cases rule: send_text_cases)
    case (sent k)
    with assms s show ?thesis by (intro that(1) [of k]) (simp_all add: close_unless_def)
  next
    case (failed k)
    with assms s show ?thesis by (intro that(2) [of k]) (simp_all add: close_unless_def close_def)
  qed
qed

lemma authorized_event_cases:
  assumes "close_unless (send_authorized_event env m st) = st'"
  obtains (sent) k where "open_session st" "st' = st\<lparr>sn_tosses := k, sn_sent := sn_sent st @ [FrameEvent m]\<rparr>"
  | (failed) k where "st' = st\<lparr>sn_tosses := k, sn_closed := True\<rparr>"
  | (skipped) "st' = st"
proof (cases "open_session st")
  case False
  with assms show ?thesis
    by (intro skipped) (auto simp: send_authorized_event_def close_unless_def open_session_def)
next
  case op: True
  show ?thesis
  proof (cases "se_event_size env m")
    case None
    with op assms show ?thesis
      by (intro failed [of "sn_tosses st"])
        (auto simp: send_authorized_event_def close_unless_def open_session_def close_def)
  next
    case (Some n)
    with op assms have "close_unless (send_text env n (FrameEvent m) st) = st'"
      by (simp add: send_authorized_event_def open_session_def)
    then show ?thesis
    proof (cases rule: close_unless_cases)
      case (sent k)
      with op show ?thesis by (intro that(1) [of k])
    next
      case (failed k)
      then show ?thesis by (rule that(2))
    qed
  qed
qed

lemma watch_event_cases:
  assumes "close_unless (send_current_watch_event env identity m st) = st'"
  obtains (sent) b k where "open_session st" "ss_activated (sn_state st)" "ss_bound (sn_state st) = Some b"
      "current_watch_matches b identity"
      "st' = st\<lparr>sn_tosses := k, sn_sent := sn_sent st @ [FrameWatch identity m]\<rparr>"
  | (failed) k where "st' = st\<lparr>sn_tosses := k, sn_closed := True\<rparr>"
  | (skipped) "st' = st"
proof (cases "open_session st \<and> ss_activated (sn_state st) \<and>
    (\<exists>b. ss_bound (sn_state st) = Some b \<and> current_watch_matches b identity)")
  case False
  with assms show ?thesis
    by (intro skipped)
      (auto simp: send_current_watch_event_def close_unless_def open_session_def split: option.splits)
next
  case True
  then obtain b where b: "ss_bound (sn_state st) = Some b" "current_watch_matches b identity" by blast
  show ?thesis
  proof (cases "se_event_size env m")
    case None
    with True b assms show ?thesis
      by (intro failed [of "sn_tosses st"])
        (auto simp: send_current_watch_event_def close_unless_def open_session_def close_def)
  next
    case (Some n)
    with True b assms have "close_unless (send_text env n (FrameWatch identity m) st) = st'"
      by (simp add: send_current_watch_event_def open_session_def)
    then show ?thesis
    proof (cases rule: close_unless_cases)
      case (sent k)
      with True b show ?thesis by (intro that(1) [of b k]) simp_all
    next
      case (failed k)
      then show ?thesis by (rule that(2))
    qed
  qed
qed

section \<open>Every step keeps the books\<close>

lemma answers_inv_closing: "answers_inv n st \<Longrightarrow> answers_inv n (st\<lparr>sn_tosses := k, sn_closed := True\<rparr>)"
  using answers_inv_close [of n "st\<lparr>sn_tosses := k\<rparr>"] by (simp add: close_def)

lemma on_session_entry_same [simp]: "same_books st (on_session_entry f st)"
  by (rule lane_frame_same) simp

lemma forward_registry_event_inv:
  assumes "answers_inv n st"
  shows "answers_inv n (forward_registry_event env st)"
proof -
  have inv: "answers_inv n (on_session_entry f st)" for f
    using answers_inv_same [OF on_session_entry_same] assms by blast
  have "answers_inv n (close_unless (send_authorized_event env m (on_session_entry f st)))" for m f
    by (rule authorized_event_cases [OF refl, where env = env and m = m and st = "on_session_entry f st"])
      (use inv in \<open>auto simp: answers_inv_closing answers_inv_send_null\<close>)
  with assms show ?thesis
    by (auto simp: forward_registry_event_def split: option.split list.split)
qed

lemma watch_message_inv:
  "answers_inv n st \<Longrightarrow> answers_inv n (close_unless (send_current_watch_event env identity m st))"
  by (rule watch_event_cases [OF refl, where env = env and identity = identity and m = m and st = st])
    (auto simp: answers_inv_closing answers_inv_send_null)

lemma lane_take_same: "same_books st (lane_take st)"
  by (auto simp: lane_take_def same_books_def split: list.split)

lemma lane_answer_inv:
  assumes "answers_inv n st"
  shows "answers_inv n (lane_answer ca st)"
proof (cases "sn_executing st")
  case (Some e)
  obtain no command where e: "e = (no, command)" by (cases e)
  obtain result st' where h: "handle_control ca command st = (result, st')" by fastforce
  have "same_books st' (st'\<lparr>sn_executing := None\<rparr>)" by (simp add: same_books_def)
  then have "answers_inv n (st'\<lparr>sn_executing := None\<rparr>)"
    using answers_inv_same [OF lane_frame_same [OF handle_control_frame [OF h]]] assms answers_inv_same by blast
  with Some e h show ?thesis by (simp add: lane_answer_def)
qed (use assms in \<open>simp add: lane_answer_def\<close>)

lemma registry_elsewhere_same: "same_books st (registry_elsewhere op st)"
  by (auto simp: registry_elsewhere_def same_books_def Let_def split: option.split)

lemma loop_step_inv:
  assumes "answers_inv n st" and "n \<le> m"
    and "\<not> sn_closed st \<Longrightarrow> answers_inv m (f st)"
  shows "answers_inv m (loop_step f st)"
  using assms answers_inv_mono [OF assms(1,2)] by (simp add: loop_step_def answers_inv_stop')

lemma session_step_inv:
  assumes "answers_inv n st" and "n + 1 < 2 ^ 64"
  shows "answers_inv (Suc n) (session_step env e st)"
proof (cases "\<exists>t. e = FrameArrives t")
  case True
  then obtain t where "e = FrameArrives t" ..
  with take_frame_inv [OF assms(1) _ assms(2), of env t] assms(1) show ?thesis by (simp add: loop_step_inv)
next
  case False
  have same: "answers_inv n st'" if "same_books st st'" for st'
    using answers_inv_same [OF that] assms(1) by simp
  have "same_books st (st\<lparr>sn_guard := g\<rparr>)" for g by (simp add: same_books_def)
  note guard = same [OF this] and other = same [OF lane_take_same] same [OF registry_elsewhere_same]
  have "answers_inv n (session_step env e st)"
    using False
    by (cases e) (use assms(1) in \<open>simp_all add: loop_step_inv on_work_def run_work_inv finish_control_inv
        drop_work_inv take_result_inv take_oversized_inv take_guard_failure_inv lane_answer_inv
        forward_registry_event_inv watch_message_inv answers_inv_close answers_inv_stop' anonymous_tick_def
        registry_lagged_def guard other split: option.split\<close>)
  then show ?thesis by (rule answers_inv_later)
qed

lemma answers_inv_start: "answers_inv 0 (session_start registry)"
  by (auto simp: answers_inv_def accounts_def books_def numbers_ok_def batches_ok_def ids_ok_def due_def
      session_start_def open_session_def flying_def ids_due_def batches_due_def works_due_def results_due_def
      answered_def taken_def pending_in_def)

lemma session_run_inv: "length es < 2 ^ 64 \<Longrightarrow> answers_inv (length es) (session_run env es registry)"
proof (induction es rule: rev_induct)
  case Nil
  show ?case by (simp add: session_run_def answers_inv_start)
next
  case (snoc e es)
  then show ?case
    using session_step_inv [of "length es" "session_run env es registry" env e]
    by (simp add: session_run_def)
qed

section \<open>Properties of runs\<close>

lemma flying_none [simp]: "flying k [] [] = 0"
  by (simp add: flying_def)

lemma idle_session_has_no_batch:
  assumes "answers_inv n st" and "\<not> sn_closed st" and "sn_work st = []" and "sn_results st = []"
  shows "sn_batches st = []"
proof (rule ccontr)
  assume "sn_batches st \<noteq> []"
  then obtain k b where kb: "(k, b) \<in> set (sn_batches st)" by (cases "sn_batches st") auto
  then have "0 < ba_pending b"
    using answers_invD(2) [OF assms(1,2)] by (auto simp: all_pending_def)
  moreover have "pending_in k (sn_batches st) = 0"
    using answers_invD(1) [OF assms(1)] assms(2-4) by (auto simp: accounts_def batches_ok_def)
  ultimately show False using kb by (auto simp: pending_in_def)
qed


lemma opened_frames: "sn_sent (session_run example_env opening_events registry_new) =
    [FrameResponse \<lparr>pp_response = response_success open_id (session_open_json (Some example_session)),
      pp_bytes = 100, pp_success = True, pp_oversized = False, pp_lifecycle = None\<rparr>]"
  by (simp add: example_opened opened_session_def)

lemma opening_length: "length opening_events < 2 ^ 64"
  by (simp add: opening_events_def control_round_def)


text \<open>C12: The duplicate check is exact. While a session is open, an id counts as outstanding exactly
  when one task, one queued result or one unfinished batch still owes its answer, and never two of them.\<close>

theorem outstanding_ids_exact:
  assumes "length es < 2 ^ 64" and "open_session (session_run env es registry)"
  shows "let st = session_run env es registry in
    ids_due i (sn_work st) (sn_results st) (sn_batches st) = of_bool (i \<in> sn_outstanding st)"
proof -
  have "answers_inv (length es) (session_run env es registry)" by (rule session_run_inv [OF assms(1)])
  with assms(2) show ?thesis by (simp add: answers_inv_def accounts_def ids_ok_def Let_def)
qed

lemma example_run_1: "session_run example_env [FrameArrives 0 :: (nat, unit, unit) session_event] registry_new =
    handshake Spawned"
  by (simp only: session_run_def fold_simps example_1)

theorem outstanding_ids_exact_witness:
  "ids_due open_id (sn_work (handshake Spawned)) [] [] = 1"
proof -
  have "open_session (handshake Spawned)" "open_id \<in> sn_outstanding (handshake Spawned)"
    "sn_results (handshake Spawned) = []" "sn_batches (handshake Spawned) = []"
    by (simp_all add: handshake_def open_session_def session_start_def session_state_default_def)
  with outstanding_ids_exact [of "[FrameArrives 0 :: (nat, unit, unit) session_event]" example_env registry_new open_id]
  show ?thesis by (simp add: example_run_1 Let_def)
qed

section \<open>A pruned session\<close>

text \<open>The registry after the pruning task ran at second 1301, 301 seconds after the last ping, with the
  entry that only the session still holds.\<close>

definition pruned_registry :: "unit registry" where
  "pruned_registry = prune_stale stale_connection_timeout_secs 1301 example_registry"

definition pruned_entry :: "unit connection_entry" where
  "pruned_entry = send_to_entry (WsPresenceUpdate 1) (new_entry 0 (ascii ''phone'') 1000)"

lemma example_inner: "rg_inner example_registry = [(7, [pruned_entry])]"
  by (simp add: example_registry_def pruned_entry_def register_def registry_new_def Let_def
      broadcast_presence_to_user_def map_entries_def update_metrics_def)

lemma pruned_inner: "rg_inner pruned_registry = []"
  by (simp add: pruned_registry_def prune_stale_def example_inner uids_to_trim_def Let_def is_stale_def pruned_entry_def
      send_to_entry_def new_entry_def saturating_sub_def stale_connection_timeout_secs_def retain_entries_def
      ol_delete_def broadcast_presence_to_user_def update_metrics_def)

lemma invalidate_nobody: "rg_inner r = [] \<Longrightarrow> rg_inner (invalidate_unread us r) = []"
  by (induction us arbitrary: r) (simp_all add: map_entries_def)

lemma deliver_nobody: "rg_inner r = [] \<Longrightarrow> rg_inner (deliver_all m us r) = []"
  by (induction us arbitrary: r) (simp_all add: deliver_to_uid_def map_entries_def Let_def)

lemma broadcast_nobody: "rg_inner r = [] \<Longrightarrow> rg_inner (broadcast_to_uids uids m r) = []"
  by (simp add: broadcast_to_uids_def invalidate_nobody deliver_nobody)

text \<open>Pruning a connection that has not pinged for five minutes does not end its session: the session
  stays open and authenticated, but no later broadcast, to whatever accounts, is queued for it, and it is not
  told that it lost events.\<close>

theorem pruned_session_deaf:
  "let st = session_run example_env (opening_events @
        [RegistryElsewhere (OpPrune stale_connection_timeout_secs 1301),
         RegistryElsewhere (OpBroadcast uids m)]) registry_new
   in open_session st \<and> ss_activated (sn_state st) \<and> ss_bound (sn_state st) \<noteq> None \<and>
      session_entry st = Some pruned_entry \<and> \<not> ce_lagged pruned_entry"
proof -
  let ?st1 = "opened_session\<lparr>sn_registry := pruned_registry, sn_detached := Some pruned_entry\<rparr>"
  have fields: "sn_registry opened_session = example_registry"
    "ss_bound (sn_state opened_session) = Some \<lparr>bs_session = example_session, bs_conn_id = 0, bs_presence = None,
       bs_unread = None, bs_states = None\<rparr>" "sn_detached opened_session = None"
    by (simp_all add: opened_session_def session_start_def)
  have found: "session_entry opened_session = Some pruned_entry"
    by (simp add: session_entry_def fields example_session_def entries_of_def example_inner)
       (simp add: pruned_entry_def send_to_entry_def new_entry_def)
  have lost: "session_entry (opened_session\<lparr>sn_registry := r, sn_detached := d\<rparr>) = d" if "rg_inner r = []" for r d
    using that by (simp add: session_entry_def fields entries_of_def)
  have pruned: "session_step example_env
      (RegistryElsewhere (OpPrune stale_connection_timeout_secs 1301) :: (nat, unit, unit) session_event)
      opened_session = ?st1"
  proof -
    have "registry_step (OpPrune stale_connection_timeout_secs 1301) example_registry = pruned_registry"
      by (simp add: pruned_registry_def)
    then show ?thesis
      using lost [OF pruned_inner, of None] found fields(1)
      by (simp add: registry_elsewhere_def Let_def)
  qed
  let ?r2 = "broadcast_to_uids uids m pruned_registry"
  have told: "session_step example_env
      (RegistryElsewhere (OpBroadcast uids m) :: (nat, unit, unit) session_event) ?st1 =
      opened_session\<lparr>sn_registry := ?r2, sn_detached := Some pruned_entry\<rparr>"
    using lost [OF broadcast_nobody [OF pruned_inner], of None uids m] lost [OF pruned_inner, of "Some pruned_entry"]
    by (simp add: registry_elsewhere_def Let_def)
  have "session_run example_env (opening_events @
        [RegistryElsewhere (OpPrune stale_connection_timeout_secs 1301),
         RegistryElsewhere (OpBroadcast uids m)]) registry_new =
      opened_session\<lparr>sn_registry := ?r2, sn_detached := Some pruned_entry\<rparr>"
    using pruned told by (simp add: session_run_def example_opened [unfolded session_run_def] del: session_step.simps)
  then show ?thesis
    using lost [OF broadcast_nobody [OF pruned_inner], of "Some pruned_entry" uids m]
    by (simp add: Let_def opened_session_def open_session_def session_start_def session_state_default_def)
       (simp add: pruned_entry_def send_to_entry_def new_entry_def)
qed

end
