(* ===== verification/Rpc_Steps.thy ===== *)
theory Rpc_Steps
  imports Rpc_Guarantees
begin

text \<open>
  The effect of a step of the RPC session on what the client and the server's resources see: the
  frames sent, the running tasks and the command queue. Every step is a sequence of three kinds
  of small effects, so that a statement about all of them needs three cases.
\<close>

section \<open>Small effects\<close>

text \<open>The first message is read once, and only reading it starts the handshake; the loop only ends with
  the transport closed.\<close>

definition handshake_order :: "'p rpc_session \<Rightarrow> 'p rpc_session \<Rightarrow> bool" where
  "handshake_order st st' \<longleftrightarrow> (sn_first_message st' \<longrightarrow> sn_first_message st) \<and>
     (sn_handshake_pending st' \<longrightarrow> sn_handshake_pending st \<or> sn_first_message st) \<and>
     ((sn_stopped st \<longrightarrow> sn_closed st) \<longrightarrow> sn_stopped st' \<longrightarrow> sn_closed st')"

definition quiet :: "'p rpc_session \<Rightarrow> 'p rpc_session \<Rightarrow> bool" where
  "quiet st st' \<longleftrightarrow> handshake_order st st' \<and> sn_sent st' = sn_sent st \<and> (sn_closed st \<longrightarrow> sn_closed st') \<and>
     (\<exists>P. map wk_call (sn_work st') = map wk_call (filter P (sn_work st))) \<and>
     length (sn_lane st') \<le> max (length (sn_lane st)) control_queue"

fun is_lifecycle :: "'p frame \<Rightarrow> bool" where
  "is_lifecycle (FrameLifecycle _) \<longleftrightarrow> True"
| "is_lifecycle _ \<longleftrightarrow> False"

inductive effect :: "'p rpc_session \<Rightarrow> 'p rpc_session \<Rightarrow> bool" where
  quiet: "quiet st st' \<Longrightarrow> effect st st'"
| send: "handshake_order st st' \<Longrightarrow> \<not> sn_closed st \<Longrightarrow> sn_sent st' = sn_sent st @ [f] \<Longrightarrow> is_lifecycle f \<longrightarrow> sn_closed st' \<Longrightarrow>
    sn_work st' = sn_work st \<Longrightarrow> sn_lane st' = sn_lane st \<Longrightarrow> effect st st'"
| spawn: "handshake_order st st' \<Longrightarrow> sn_sent st' = sn_sent st \<Longrightarrow> sn_closed st' = sn_closed st \<Longrightarrow> sn_lane st' = sn_lane st \<Longrightarrow>
    sn_work st' = sn_work st @ [w] \<Longrightarrow>
    (if is_ordinary w then 0 < ordinary_permits st else 0 < control_permits st) \<Longrightarrow> effect st st'"

abbreviation effects :: "'p rpc_session \<Rightarrow> 'p rpc_session \<Rightarrow> bool" where
  "effects \<equiv> effect\<^sup>*\<^sup>*"

lemma effects_trans [trans]: "effects a b \<Longrightarrow> effects b c \<Longrightarrow> effects a c"
  by (rule rtranclp_trans)

lemma effects_quiet: "quiet st st' \<Longrightarrow> effects st st'"
  by (blast intro: effect.quiet)

lemma unseen:
  assumes "sn_sent st' = sn_sent st" and "sn_closed st \<longrightarrow> sn_closed st'" and "sn_work st' = sn_work st"
    and "sn_lane st' = sn_lane st" and "sn_first_message st' \<longrightarrow> sn_first_message st"
    and "sn_handshake_pending st' \<longrightarrow> sn_handshake_pending st \<or> sn_first_message st"
    and "sn_stopped st' \<longrightarrow> sn_stopped st \<or> sn_closed st'"
  shows "effects st st'"
proof (rule effects_quiet)
  have "map wk_call (sn_work st') = map wk_call (filter (\<lambda>_. True) (sn_work st))" using assms(3) by simp
  with assms show "quiet st st'" unfolding quiet_def handshake_order_def by (metis max.cobounded1)
qed

lemma sent_effect:
  assumes "\<not> sn_closed st" and "sn_sent st' = sn_sent st @ [f]" and "\<not> is_lifecycle f" and "sn_work st' = sn_work st"
    and "sn_lane st' = sn_lane st" and "sn_first_message st' = sn_first_message st"
    and "sn_handshake_pending st' = sn_handshake_pending st" and "sn_stopped st' = sn_stopped st"
  shows "effects st st'"
proof -
  have "handshake_order st st'" using assms(1,6-8) by (simp add: handshake_order_def)
  with assms show ?thesis by (blast intro: effect.send)
qed

section \<open>The primitives\<close>

lemma send_answer_effects:
  assumes "send_answer env p st = (ok, st')"
  shows "effects st st'"
  using assms
proof (cases rule: send_answer_frame)
  case (sent k)
  then show ?thesis by (intro sent_effect [where f = "FrameResponse p"]) simp_all
next
  case (failed k)
  then show ?thesis by (intro unseen) simp_all
qed

lemma stop_effects: "effects st (stop st)"
  by (rule unseen) simp_all

lemma close_effects: "effects st (close st)"
  by (rule unseen) (simp_all add: close_def)

lemma tossed_effects: "tossed st st' \<Longrightarrow> effects st st'"
  by (auto simp: tossed_def intro!: unseen)

lemma prepare_effects: "prepare_recorded env response st = (r, st') \<Longrightarrow> effects st st'"
  by (rule tossed_effects) (rule prepare_recorded_frame(1))

lemma lifecycle_effects: "effects st (stop (handle_lifecycle_failure env f st))"
proof -
  note frame = end_with_lifecycle [where env = env and f = f and st = st]
  from frame(12) show ?thesis
  proof
    assume "sn_sent (stop (handle_lifecycle_failure env f st)) = sn_sent st"
    then show ?thesis by (intro unseen) (use frame in simp_all)
  next
    assume "sn_sent (stop (handle_lifecycle_failure env f st)) = sn_sent st @ [FrameLifecycle f] \<and>
      \<not> sn_closed st \<and> \<not> ss_lifecycle_notified (sn_state st)"
    then have "effect st (stop (handle_lifecycle_failure env f st))"
      by (intro effect.send [where f = "FrameLifecycle f"]) (use frame in \<open>simp_all add: handshake_order_def\<close>)
    then show ?thesis by blast
  qed
qed

lemma schedule_effects:
  assumes "schedule_call env call destination c st = (r, st')"
  shows "effects st st'"
  using assms
proof (cases rule: schedule_cases)
  case (spawned k ctx)
  have "effect st st'"
    by (rule effect.spawn [where w = "\<lparr>wk_no = sn_next_work st, wk_call = call, wk_context = ctx,
          wk_destination = destination, wk_close_after_error = c, wk_stage = Spawned\<rparr>"])
      (use spawned in \<open>simp_all add: spawn_work_def is_ordinary_def handshake_order_def\<close>)
  then show ?thesis by blast
qed (auto intro!: unseen)

lemma flush_effects:
  assumes "flush_batch env b st = (r, st')"
  obtains "effects st st'" | "r = None" "effects st (stop st')"
  using assms
proof (cases rule: flush_batch_cases)
  case (failed k c)
  have "effects st (stop st')" by (rule unseen) (simp_all add: failed)
  with failed that(2) show ?thesis by blast
next
  case empty
  with that(1) show ?thesis by blast
next
  case (sent k)
  have "effects st st'" by (rule sent_effect [where f = "FrameBatch (ba_responses b)"]) (simp_all add: sent)
  with that(1) show ?thesis by blast
qed

section \<open>The session loop\<close>

lemma state_only [simp]:
  "sn_sent (activate_if c st) = sn_sent st" "sn_work (activate_if c st) = sn_work st" "sn_lane (activate_if c st) = sn_lane st"
  "sn_work (suspend_if c st) = sn_work st" "sn_lane (suspend_if c st) = sn_lane st"
  "sn_sent (forget_ids ids st) = sn_sent st" "sn_work (forget_ids ids st) = sn_work st" "sn_lane (forget_ids ids st) = sn_lane st"
  "sn_sent (forget_id i st) = sn_sent st" "sn_work (forget_id i st) = sn_work st" "sn_lane (forget_id i st) = sn_lane st"
  "sn_first_message (activate_if c st) = sn_first_message st" "sn_first_message (suspend_if c st) = sn_first_message st"
  "sn_first_message (forget_ids ids st) = sn_first_message st" "sn_first_message (forget_id i st) = sn_first_message st"
  "sn_handshake_pending (activate_if c st) = sn_handshake_pending st"
  "sn_handshake_pending (suspend_if c st) = sn_handshake_pending st"
  "sn_handshake_pending (forget_ids ids st) = sn_handshake_pending st"
  "sn_handshake_pending (forget_id i st) = sn_handshake_pending st"
  "sn_stopped (activate_if c st) = sn_stopped st" "sn_stopped (suspend_if c st) = sn_stopped st"
  "sn_stopped (forget_ids ids st) = sn_stopped st" "sn_stopped (forget_id i st) = sn_stopped st"
  by (simp_all add: activate_if_def suspend_if_def forget_ids_def forget_id_def on_state_def)

lemma activate_effects: "effects st (activate_if c st)"
  by (rule unseen) simp_all

lemma forget_effects: "effects st (forget_ids ids st)" "effects st (forget_id i st)" "effects st (suspend_if c st)"
  by (rule unseen, simp_all)+

lemma take_single_effects: "effects st (take_single env r st)"
proof (cases "wr_response r")
  case None
  then show ?thesis by (simp add: take_single_def activate_effects)
next
  case (Some p)
  obtain ok st1 where send: "send_answer env p (suspend_if (pp_lifecycle p \<noteq> None) st) = (ok, st1)" by fastforce
  let ?st2 = "activate_if (wr_activate_after_success r \<and> pp_success p) st1"
  note forget_effects(3) also note send_answer_effects [OF send]
  finally have st1: "effects st st1" .
  then have st2: "effects st ?st2" by (rule effects_trans) (rule activate_effects)
  show ?thesis
    using Some send effects_trans [OF st1 stop_effects] st2 effects_trans [OF st2 stop_effects]
      effects_trans [OF st2 lifecycle_effects]
    by (cases ok) (auto simp: take_single_def Let_def split: option.split)
qed

lemma batch_ready_effects: "effects st (batch_ready env b st)"
proof -
  obtain q st1 where q: "flush_batch env b st = (q, st1)" by fastforce
  then show ?thesis
  proof (cases rule: flush_effects)
    case 2
    with q show ?thesis by (simp add: batch_ready_def)
  next
    case 1
    note st2 = effects_trans [OF 1 forget_effects(1) [where ids = "ba_request_ids b"]]
    note st3 = effects_trans [OF st2 activate_effects]
    show ?thesis
      using q effects_trans [OF 1 stop_effects] st3 effects_trans [OF st3 stop_effects]
        effects_trans [OF st2 lifecycle_effects]
      by (auto simp: batch_ready_def Let_def split: option.split)
  qed
qed

lemma batches_effects: "effects st (st\<lparr>sn_batches := bs\<rparr>)" "effects st (st\<lparr>sn_results := rs\<rparr>)"
  by (rule unseen, simp_all)+

lemma take_batched_effects: "effects st (take_batched env k r st)"
proof -
  let ?st1 = "suspend_if (case wr_response r of None \<Rightarrow> False | Some p \<Rightarrow> pp_lifecycle p \<noteq> None) st"
  note st1 = forget_effects(3) [where st = st and
      c = "case wr_response r of None \<Rightarrow> False | Some p \<Rightarrow> pp_lifecycle p \<noteq> None"]
  show ?thesis
    using st1 effects_trans [OF st1 batches_effects(1)]
      effects_trans [OF effects_trans [OF st1 batches_effects(1)] batch_ready_effects]
    by (auto simp: take_batched_def Let_def split: option.split)
qed

lemma handshake_effects:
  "effects st (st\<lparr>sn_handshake_pending := False\<rparr>)" "effects st (st\<lparr>sn_first_message := False\<rparr>)"
  "sn_first_message st \<Longrightarrow> effects st (st\<lparr>sn_first_message := False, sn_handshake_pending := True\<rparr>)"
  by (rule unseen, simp_all)+

lemma take_result_effects: "effects st (take_result env st)"
proof (cases "sn_results st")
  case Nil
  then show ?thesis by (simp add: take_result_def)
next
  case (Cons r rs)
  let ?st2 = "case wr_destination r of
      ToSingle \<Rightarrow> take_single env r (forget_id (wr_id r) (st\<lparr>sn_results := rs\<rparr>))
    | ToBatch k \<Rightarrow> take_batched env k r (st\<lparr>sn_results := rs\<rparr>)"
  note start = batches_effects(2) [of st rs]
  have st2: "effects st ?st2"
    using effects_trans [OF effects_trans [OF start forget_effects(2)] take_single_effects]
      effects_trans [OF start take_batched_effects]
    by (auto split: destination.split)
  with Cons effects_trans [OF st2 handshake_effects(1)] show ?thesis by (simp add: take_result_def Let_def)
qed

text \<open>Preparing an answer, sending it, and perhaps stopping.\<close>

lemma answered_effects:
  assumes "prepare_recorded env response st = (Inr (Some p), st1)" and "send_answer env p st1 = (ok, st2)"
  shows "effects st st2" and "effects st (stop st2)"
proof -
  show st2: "effects st st2"
    using assms by (rule effects_trans [OF prepare_effects send_answer_effects])
  show "effects st (stop st2)" by (rule effects_trans [OF st2 stop_effects])
qed

lemma answer_or_stop_effects: "effects st (answer_or_stop env response st)"
proof -
  obtain q st1 where q: "prepare_recorded env (Some response) st = (q, st1)" by fastforce
  then show ?thesis
    using effects_trans [OF prepare_effects [OF q] stop_effects] answered_effects
    by (auto simp: answer_or_stop_def split: sum.split option.split prod.split)
qed

lemma log_effects: "effects st (log_request i st)"
  by (rule unseen) (simp_all add: log_request_def)

lemma last_answer_effects: "effects st (last_answer env response st)"
proof -
  obtain q st1 where q: "prepare_recorded env response st = (q, st1)" by fastforce
  show ?thesis
  proof (cases "\<exists>p. q = Inr (Some p)")
    case True
    then obtain p where p: "q = Inr (Some p)" ..
    obtain ok st2 where send: "send_answer env p st1 = (ok, st2)" by fastforce
    with q p answered_effects(2) [OF q [unfolded p] send] show ?thesis by (simp add: last_answer_def)
  next
    case False
    then show ?thesis
      using q effects_trans [OF prepare_effects [OF q] stop_effects]
      by (auto simp: last_answer_def split: sum.split option.split)
  qed
qed

section \<open>Frames\<close>

lemma answer_then_stop_effects:
  "effects st st1 \<Longrightarrow> effects st (case send_answer env p st1 of (sent, st2) \<Rightarrow> if sent then st2 else stop st2)"
  "effects st st1 \<Longrightarrow> effects st (stop (snd (send_answer env p st1)))"
  "effects st st1 \<Longrightarrow> effects st (close (snd (send_answer env p st1)))"
proof -
  obtain ok st2 where send: "send_answer env p st1 = (ok, st2)" by fastforce
  assume "effects st st1"
  from effects_trans [OF this send_answer_effects [OF send]] have st2: "effects st st2" .
  from st2 effects_trans [OF st2 stop_effects] effects_trans [OF st2 close_effects]
  show "effects st (case send_answer env p st1 of (sent, st2) \<Rightarrow> if sent then st2 else stop st2)"
    "effects st (stop (snd (send_answer env p st1)))" "effects st (close (snd (send_answer env p st1)))"
    by (simp_all add: send)
qed

lemma take_call_effects: "effects st (take_call env call c st)"
proof -
  obtain r st1 where s: "schedule_call env call ToSingle c (log_request (rc_id call) st) = (r, st1)" by fastforce
  note st1 = effects_trans [OF log_effects schedule_effects [OF s]]
  show ?thesis
    using s st1
    by (simp add: take_call_def answer_then_stop_effects [OF st1] effects_trans [OF st1 stop_effects]
        split: scheduled.split option.split)
qed

lemma take_items_effects: "take_items env k items b st = (r, st') \<Longrightarrow> effects st st'"
proof (induction items arbitrary: b st)
  case Nil
  then show ?case by simp
next
  case (Cons item items)
  show ?case
  proof (cases item)
    case ItemResponse
    with Cons show ?thesis by simp
  next
    case (ItemInvalid response)
    obtain q st1 where q: "prepare_recorded env (Some response) st = (q, st1)" by fastforce
    note st1 = prepare_effects [OF q]
    from Cons.prems ItemInvalid q have "st' = close st1 \<or> (\<exists>b. take_items env k items b st1 = (r, st'))"
      by (auto split: sum.splits option.splits)
    with effects_trans [OF st1 close_effects] effects_trans [OF st1 Cons.IH] show ?thesis by blast
  next
    case (ItemCall call)
    obtain x st1 where s: "schedule_call env call (ToBatch k) False (log_request (rc_id call) st) = (x, st1)" by fastforce
    note st1 = effects_trans [OF log_effects schedule_effects [OF s]]
    from Cons.prems ItemCall s
    have "st' = close st1 \<or> (\<exists>p. st' = close (snd (send_answer env p st1))) \<or>
        (\<exists>b. take_items env k items b st1 = (r, st'))"
      by (auto simp: Let_def split: scheduled.splits option.splits if_splits)
    with effects_trans [OF st1 close_effects] answer_then_stop_effects(3) [OF st1] effects_trans [OF st1 Cons.IH]
    show ?thesis by blast
  qed
qed

lemma take_batch_effects: "effects st (take_batch env items st)"
proof -
  let ?st = "st\<lparr>sn_next_batch := sn_next_batch st + 1\<rparr>"
  obtain r st1 where items: "take_items env (sn_next_batch st) items batch_new ?st = (r, st1)" by fastforce
  have "effects st ?st" by (rule unseen) simp_all
  note st1 = effects_trans [OF this take_items_effects [OF items]]
  show ?thesis
  proof (cases r)
    case None
    with items effects_trans [OF st1 stop_effects] show ?thesis by (simp add: take_batch_def)
  next
    case (Some b)
    show ?thesis
    proof (cases "ba_pending b = 0")
      case True
      with take_batch_at_once [OF items [unfolded Some]] effects_trans [OF st1 batch_ready_effects]
      show ?thesis by simp
    next
      case False
      with items Some effects_trans [OF st1 batches_effects(1)] show ?thesis by (simp add: take_batch_def)
    qed
  qed
qed

lemma take_message_effects: "effects st (take_message env opening message st)"
proof (cases message)
  case (Single item)
  then show ?thesis by (cases item) (simp_all add: answer_or_stop_effects take_call_effects)
qed (simp add: take_batch_effects)

lemma take_frame_effects: "effects st (take_frame env t st)"
proof -
  note first = handshake_effects(2) [of st]
  note handshake = effects_trans [OF handshake_effects(3)]
  show ?thesis
    by (simp add: take_frame_def Let_def answer_or_stop_effects effects_trans [OF first last_answer_effects]
        effects_trans [OF first take_message_effects] handshake [OF _ take_message_effects]
        split: sum.split)
qed

lemma take_oversized_effects: "effects st (take_oversized env t st)"
  by (simp add: take_oversized_def Let_def effects_trans [OF log_effects last_answer_effects])

lemma guard_effects: "effects st (st\<lparr>sn_guard := g\<rparr>)"
  by (rule unseen) simp_all

lemma take_guard_failure_effects: "effects st (take_guard_failure env st)"
  by (simp add: take_guard_failure_def effects_trans [OF guard_effects lifecycle_effects] split: list.split)

section \<open>Tasks, lane and forwarders\<close>

lemma drop_work_quiet:
  "sn_work st' = filter P (sn_work st) \<Longrightarrow> sn_sent st' = sn_sent st \<Longrightarrow> sn_closed st \<longrightarrow> sn_closed st' \<Longrightarrow>
   sn_lane st' = sn_lane st \<Longrightarrow> handshake_order st st' \<Longrightarrow> effects st st'"
  by (intro effects_quiet) (auto simp: quiet_def)

lemma drop_work_effects: "effects st (drop_work no st)"
  by (rule drop_work_quiet [where P = "\<lambda>w. wk_no w \<noteq> no"]) (simp_all add: drop_work_def handshake_order_def)

lemma finish_work_effects: "effects st (finish_work env w result failures st)"
proof -
  let ?st1 = "drop_work (wk_no w) (st\<lparr>sn_guard := sn_guard st @ failures\<rparr>)"
  obtain q st2 where q: "prepare_recorded env (respond (rc_id (wk_call w)) result) ?st1 = (q, st2)" by fastforce
  note st2 = effects_trans [OF effects_trans [OF guard_effects drop_work_effects] prepare_effects [OF q]]
  show ?thesis
    using q st2 effects_trans [OF st2 close_effects] effects_trans [OF st2 batches_effects(2)]
    by (simp add: finish_work_def Let_def split: sum.split)
qed

lemma set_stage_quiet:
  assumes "length (sn_lane st') \<le> max (length (sn_lane st)) control_queue" and "sn_sent st' = sn_sent st"
    and "sn_closed st \<longrightarrow> sn_closed st'" and "sn_work st' = sn_work st" and "handshake_order st st'"
  shows "effects st (set_stage no stage st')"
proof (rule effects_quiet)
  have "map wk_call (sn_work (set_stage no stage st')) = map wk_call (filter (\<lambda>_. True) (sn_work st'))"
    by (simp add: set_stage_def)
  moreover have "sn_lane (set_stage no stage st') = sn_lane st'" "handshake_order st (set_stage no stage st')"
    using assms(5) by (simp_all add: set_stage_def handshake_order_def)
  ultimately show "quiet st (set_stage no stage st')"
    using assms unfolding quiet_def by (metis set_stage_fields(2,6))
qed

lemma queue_command_effects: "effects st (queue_command env w command st)"
proof (cases "length (sn_lane st) < control_queue")
  case True
  then show ?thesis by (simp add: queue_command_def) (rule set_stage_quiet; simp add: handshake_order_def)
next
  case False
  then show ?thesis by (simp add: queue_command_def effects_trans [OF close_effects finish_work_effects])
qed

lemma run_work_effects: "effects st (run_work env ops world w st)"
  by (auto simp: run_work_def Let_def finish_work_effects queue_command_effects split: option.split sum.split prod.split)

lemma finish_control_effects: "effects st (finish_control env w st)"
  by (simp add: finish_control_def finish_work_effects split: work_stage.split)

lemma lane_take_effects: "effects st (lane_take st)"
proof -
  have "quiet st (st\<lparr>sn_executing := e, sn_lane := l\<rparr>)" if "length l \<le> length (sn_lane st)" for e l
    using that unfolding quiet_def by (auto simp: handshake_order_def intro: exI [of _ "\<lambda>_. True"])
  from effects_quiet [OF this] show ?thesis by (auto simp: lane_take_def split: list.split)
qed

lemma lane_answer_effects: "effects st (lane_answer ca st)"
proof (cases "sn_executing st")
  case None
  then show ?thesis by (simp add: lane_answer_def)
next
  case (Some e)
  obtain no command where e: "e = (no, command)" by (cases e)
  obtain result st' where h: "handle_control ca command st = (result, st')" by fastforce
  have "effects st (set_stage no (Replied result) (st'\<lparr>sn_executing := None\<rparr>))"
    by (rule set_stage_quiet) (use handle_control_frame [OF h] in \<open>simp_all add: lane_frame_def handshake_order_def\<close>)
  with Some e h show ?thesis by (simp add: lane_answer_def)
qed

lemma entry_effects: "effects st (on_session_entry f st)"
  by (rule unseen) (simp_all add: on_session_entry_def split: option.split)

lemma authorized_event_effects: "effects st (close_unless (send_authorized_event env m st))"
  by (rule authorized_event_cases [OF refl, where env = env and m = m and st = st])
    (auto simp: open_session_def intro: sent_effect [where f = "FrameEvent m"] unseen)

lemma watch_event_effects: "effects st (close_unless (send_current_watch_event env identity m st))"
  by (rule watch_event_cases [OF refl, where env = env and identity = identity and m = m and st = st])
    (auto simp: open_session_def intro: sent_effect [where f = "FrameWatch identity m"] unseen)

lemma forward_effects: "effects st (forward_registry_event env st)"
  by (simp add: forward_registry_event_def effects_trans [OF entry_effects authorized_event_effects]
      split: option.split list.split)

lemma registry_elsewhere_effects: "effects st (registry_elsewhere op st)"
  by (rule unseen) (simp_all add: registry_elsewhere_def Let_def split: option.split)

lemma loop_step_effects: "effects st (f st) \<Longrightarrow> effects st (loop_step f st)"
  by (simp add: loop_step_def stop_effects)

lemmas step_effects = take_frame_effects take_oversized_effects take_result_effects take_guard_failure_effects
  stop_effects run_work_effects finish_control_effects lane_take_effects lane_answer_effects forward_effects
  watch_event_effects close_effects registry_elsewhere_effects guard_effects
  effects_trans [OF drop_work_effects close_effects]

lemma session_step_effects: "effects st (session_step env e st)"
  by (cases e)
    (simp_all add: loop_step_effects on_work_def anonymous_tick_def registry_lagged_def step_effects split: option.split)

lemma session_run_effects: "effects (session_start registry) (session_run env es registry)"
proof (induction es rule: rev_induct)
  case (snoc e es)
  from effects_trans [OF this session_step_effects] show ?case by (simp add: session_run_def)
qed (simp add: session_run_def)

section \<open>Consequences\<close>

definition within_limits :: "'p rpc_session \<Rightarrow> bool" where
  "within_limits st \<longleftrightarrow> length (filter is_ordinary (sn_work st)) \<le> max_in_flight \<and>
     length (filter (\<lambda>w. \<not> is_ordinary w) (sn_work st)) \<le> control_queue + 1 \<and>
     length (sn_lane st) \<le> control_queue"

lemma length_ordinary:
  assumes "map wk_call ws' = map wk_call (filter P ws)"
  shows "length (filter is_ordinary ws') \<le> length (filter is_ordinary ws)"
    and "length (filter (\<lambda>w. \<not> is_ordinary w) ws') \<le> length (filter (\<lambda>w. \<not> is_ordinary w) ws)"
proof -
  have count: "length (filter (\<lambda>w. Q (wk_call w)) ws') \<le> length (filter (\<lambda>w. Q (wk_call w)) ws)" for Q
  proof -
    have "length (filter (\<lambda>w. Q (wk_call w)) xs) = length (filter Q (map wk_call xs))" for xs
      by (simp add: filter_map comp_def)
    then have "length (filter (\<lambda>w. Q (wk_call w)) ws') = length (filter (\<lambda>w. Q (wk_call w)) (filter P ws))"
      using assms by metis
    also have "length (filter R (filter P xs)) \<le> length (filter R xs)" for R :: "work \<Rightarrow> bool" and xs
      by (induction xs) auto
    finally show ?thesis .
  qed
  from count [of "\<lambda>c. method_class (rc_method c) \<in> {Some ReadCall, Some MutationCall}"]
    count [of "\<lambda>c. method_class (rc_method c) \<notin> {Some ReadCall, Some MutationCall}"]
  show "length (filter is_ordinary ws') \<le> length (filter is_ordinary ws)"
    "length (filter (\<lambda>w. \<not> is_ordinary w) ws') \<le> length (filter (\<lambda>w. \<not> is_ordinary w) ws)"
    by (simp_all add: is_ordinary_def [abs_def])
qed

lemma effects_within_limits: "effects st st' \<Longrightarrow> within_limits st \<Longrightarrow> within_limits st'"
proof (induction rule: rtranclp_induct)
  case base
  then show ?case .
next
  case (step y z)
  then have y: "within_limits y" by blast
  from step(2) show ?case
  proof cases
    case quiet
    then obtain P where "map wk_call (sn_work z) = map wk_call (filter P (sn_work y))" by (auto simp: quiet_def)
    from length_ordinary [OF this] quiet y show ?thesis by (auto simp: within_limits_def quiet_def)
  next
    case (send f)
    with y show ?thesis by (simp add: within_limits_def)
  next
    case (spawn w)
    with y show ?thesis
      by (auto simp: within_limits_def ordinary_permits_def control_permits_def split: if_splits)
  qed
qed

text \<open>C20: A session never exceeds its limits. Whatever frames arrive and however the tasks interleave,
  at most 16 read and mutation calls and at most 9 control calls run at once, and at most 8 commands wait.\<close>

theorem session_within_limits:
  "let st = session_run env es registry in
   length (filter is_ordinary (sn_work st)) \<le> 16 \<and> length (filter (\<lambda>w. \<not> is_ordinary w) (sn_work st)) \<le> 9 \<and>
   length (sn_lane st) \<le> 8"
proof -
  have "within_limits (session_start registry)" by (simp add: within_limits_def session_start_def)
  from effects_within_limits [OF session_run_effects this] show ?thesis
    by (simp add: within_limits_def max_in_flight_def control_queue_def Let_def)
qed

definition notice_last :: "'p rpc_session \<Rightarrow> bool" where
  "notice_last st \<longleftrightarrow> filter is_lifecycle (butlast (sn_sent st)) = [] \<and>
     (sn_closed st \<or> filter is_lifecycle (sn_sent st) = [])"

lemma effects_notice_last: "effects st st' \<Longrightarrow> notice_last st \<Longrightarrow> notice_last st'"
proof (induction rule: rtranclp_induct)
  case base
  then show ?case .
next
  case (step y z)
  then have y: "notice_last y" by blast
  from step(2) show ?case by cases (use y in \<open>auto simp: notice_last_def quiet_def\<close>)
qed

lemma effects_silent: "effects st st' \<Longrightarrow> sn_closed st \<Longrightarrow> sn_closed st' \<and> sn_sent st' = sn_sent st"
proof (induction rule: rtranclp_induct)
  case (step y z)
  then have "sn_closed y \<and> sn_sent y = sn_sent st" by blast
  with step(2) show ?case by (auto simp: quiet_def elim: effect.cases)
qed simp

text \<open>C37: The lifecycle notification is the last word. It is sent at most once, nothing follows it, and a
  session that sent it is closed; and a closed session sends nothing more, whatever still happens to it.\<close>

theorem lifecycle_notice_last:
  "let st = session_run env es registry in
   filter is_lifecycle (butlast (sn_sent st)) = [] \<and>
   (sn_closed st \<or> filter is_lifecycle (sn_sent st) = []) \<and>
   (sn_closed st \<longrightarrow> sn_sent (session_run env (es @ es') registry) = sn_sent st)"
proof -
  have "notice_last (session_run env es registry)"
    by (rule effects_notice_last [OF session_run_effects]) (simp add: notice_last_def session_start_def)
  moreover have "effects (session_run env es registry) (session_run env (es @ es') registry)"
  proof (induction es' rule: rev_induct)
    case (snoc e es')
    from effects_trans [OF this session_step_effects] show ?case by (simp add: session_run_def)
  qed simp
  ultimately show ?thesis using effects_silent by (auto simp: notice_last_def Let_def)
qed

theorem lifecycle_notice_last_witness:
  "sn_sent (session_run example_env [TransportCloses, FrameArrives 0 :: (nat, unit, unit) session_event] registry_new) = []"
proof -
  have "sn_closed (session_run example_env [TransportCloses :: (nat, unit, unit) session_event] registry_new)"
    by (simp add: session_run_def close_def)
  with lifecycle_notice_last [of example_env "[TransportCloses]" registry_new "[FrameArrives 0 :: (nat, unit, unit) session_event]"]
  show ?thesis by (simp add: session_run_def close_def session_start_def Let_def)
qed

end
