(* ===== verification/Rpc_Handshake.thy ===== *)
theory Rpc_Handshake
  imports Rpc_Steps
begin

text \<open>
  The opening of an RPC session: nothing but the first \<open>session.open\<close> call runs until its answer
  is settled, and the handshake cannot get stuck without a task or a result in flight.
\<close>

definition unopened :: "'p rpc_session \<Rightarrow> bool" where
  "unopened st \<longleftrightarrow> sn_first_message st \<and> \<not> sn_handshake_pending st \<and> sn_work st = [] \<and> sn_results st = [] \<and>
     sn_batches st = [] \<and> sn_lane st = [] \<and> sn_executing st = None \<and> sn_outstanding st = {} \<and> ss_accepting (sn_state st)"

definition opening_task :: "'p rpc_session \<Rightarrow> bool" where
  "opening_task st \<longleftrightarrow> sn_batches st = [] \<and>
     (sn_results st = [] \<and> (\<exists>w. sn_work st = [w] \<and> rc_method (wk_call w) = ascii ''session.open'') \<or>
      sn_work st = [] \<and> length (sn_results st) = 1)"

definition handshake_ok :: "'p rpc_session \<Rightarrow> bool" where
  "handshake_ok st \<longleftrightarrow> sn_closed st \<or> unopened st \<or>
     \<not> sn_first_message st \<and> (\<not> sn_handshake_pending st \<or> opening_task st)"

lemma handshake_ok_closed: "sn_closed st \<Longrightarrow> handshake_ok st"
  by (simp add: handshake_ok_def)

text \<open>Past the handshake every effect keeps it past.\<close>

lemma handshake_order_effects: "effects st st' \<Longrightarrow> handshake_order st st'"
proof (induction rule: rtranclp_induct)
  case base
  then show ?case by (simp add: handshake_order_def)
next
  case (step y z)
  from step(2) have "handshake_order y z" by cases (simp_all add: quiet_def)
  with step.IH show ?case by (auto simp: handshake_order_def)
qed

lemma after_handshake:
  assumes "\<not> sn_first_message st" and "\<not> sn_handshake_pending st" and "effects st st'"
  shows "handshake_ok st'"
  using handshake_order_effects [OF assms(3)] assms(1,2) by (simp add: handshake_ok_def handshake_order_def)

text \<open>What neither opens nor works leaves the opening alone.\<close>

definition same_opening :: "'p rpc_session \<Rightarrow> 'p rpc_session \<Rightarrow> bool" where
  "same_opening st st' \<longleftrightarrow> sn_first_message st' = sn_first_message st \<and>
     sn_handshake_pending st' = sn_handshake_pending st \<and> sn_work st' = sn_work st \<and> sn_results st' = sn_results st \<and>
     sn_batches st' = sn_batches st \<and> sn_lane st' = sn_lane st \<and> sn_executing st' = sn_executing st \<and>
     sn_outstanding st' = sn_outstanding st \<and> ss_accepting (sn_state st') = ss_accepting (sn_state st)"

lemma same_opening_ok: "same_opening st st' \<Longrightarrow> handshake_ok st \<Longrightarrow> \<not> sn_closed st \<Longrightarrow> handshake_ok st'"
  by (auto simp: same_opening_def handshake_ok_def unopened_def opening_task_def)

lemma send_answer_opening:
  assumes "send_answer env p st = (ok, st')"
  shows "same_opening st st'"
  using assms by (cases rule: send_answer_frame) (simp_all add: same_opening_def)

lemma answer_or_stop_ok:
  assumes "handshake_ok st" and "\<not> sn_closed st"
  shows "handshake_ok (answer_or_stop env response st)"
proof -
  obtain q st1 where q: "prepare_recorded env (Some response) st = (q, st1)" by fastforce
  show ?thesis
  proof (cases "\<exists>p. q = Inr (Some p)")
    case True
    then obtain p where p: "q = Inr (Some p)" ..
    obtain ok st2 where send: "send_answer env p st1 = (ok, st2)" by fastforce
    have "same_opening st st1"
      using prepare_recorded_frame(1) [OF q] by (auto simp: tossed_def same_opening_def)
    with send_answer_opening [OF send] have "same_opening st st2" by (simp add: same_opening_def)
    from same_opening_ok [OF this assms] q p send show ?thesis
      by (simp add: answer_or_stop_def handshake_ok_closed)
  next
    case False
    with q show ?thesis
      by (auto simp: answer_or_stop_def handshake_ok_closed split: sum.split option.split)
  qed
qed

text \<open>The first call is admitted: the session is new, so its permits are free.\<close>

lemma take_first_call:
  assumes "sn_work st = []" and "sn_outstanding st = {}" and "ss_accepting (sn_state st)" and "\<not> sn_closed st"
    and "rc_method call = ascii ''session.open''" and "sn_results st = []" and "sn_batches st = []"
    and "\<not> sn_first_message st"
  shows "handshake_ok (take_call env call c st)"
proof -
  obtain ctx where ctx: "call_context (rc_id call) (log_request (rc_id call) st) = Some ctx"
    using assms(3,4) by (auto simp: call_context_def log_request_def)
  let ?st = "(log_request (rc_id call) st)\<lparr>sn_outstanding := set_option (rc_id call)\<rparr>"
  have "take_call env call c st = spawn_work call ctx ToSingle c ?st"
    using assms ctx
    by (simp add: take_call_def schedule_call_def schedule_admitted_def control_permits_def control_queue_def
        example_classes log_request_def)
  then show ?thesis
    using assms by (simp add: handshake_ok_def opening_task_def spawn_work_def log_request_def)
qed

lemma valid_open_call:
  "valid_open message \<Longrightarrow> \<exists>call. message = Single (ItemCall call) \<and> rc_method call = ascii ''session.open''"
  by (induction message rule: valid_open.induct) auto

lemma last_answer_closed: "sn_closed (last_answer env response st)"
  by (auto simp: last_answer_def split: prod.split sum.split option.split)

lemma take_frame_ok:
  assumes "handshake_ok st" and "\<not> sn_closed st"
  shows "handshake_ok (take_frame env t st)"
proof (cases "unopened st")
  case new: True
  show ?thesis
  proof (cases "parse_message (se_parse env) t max_batch_items")
    case (Inl response)
    with answer_or_stop_ok [OF assms] new show ?thesis by (simp add: take_frame_def unopened_def)
  next
    case (Inr message)
    show ?thesis
    proof (cases "valid_open message")
      case False
      with Inr new show ?thesis
        by (simp add: take_frame_def unopened_def handshake_ok_closed last_answer_closed)
    next
      case True
      then obtain call where call: "message = Single (ItemCall call)" "rc_method call = ascii ''session.open''"
        using valid_open_call by blast
      have "handshake_ok (take_call env call True (st\<lparr>sn_first_message := False, sn_handshake_pending := True\<rparr>))"
        by (rule take_first_call) (use new call assms(2) in \<open>simp_all add: unopened_def\<close>)
      with Inr True call(1) new show ?thesis by (simp add: take_frame_def unopened_def)
    qed
  qed
next
  case False
  show ?thesis
  proof (cases "sn_handshake_pending st")
    case True
    with assms show ?thesis by (simp add: take_frame_def)
  next
    case settled: False
    with False assms after_handshake [OF _ settled take_frame_effects] show ?thesis
      by (simp add: handshake_ok_def)
  qed
qed

text \<open>During the handshake a task that ends leaves its result, and taking the result ends the handshake.\<close>

lemma finish_work_ok:
  assumes "opening_task st" and "\<not> sn_first_message st" and "find_work no st = Some w"
  shows "handshake_ok (finish_work env w result failures st)"
proof -
  have w: "sn_work st = [w]" "sn_results st = []" "sn_batches st = []"
    using assms find_work_Some [OF assms(3)] by (auto simp: opening_task_def)
  let ?st1 = "drop_work (wk_no w) (st\<lparr>sn_guard := sn_guard st @ failures\<rparr>)"
  obtain q st2 where q: "prepare_recorded env (respond (rc_id (wk_call w)) result) ?st1 = (q, st2)" by fastforce
  from prepare_recorded_frame(1) [OF q] obtain k where "st2 = ?st1\<lparr>sn_tosses := k\<rparr>" by (auto simp: tossed_def)
  then have "sn_work st2 = []" "sn_results st2 = []" "sn_batches st2 = []" "\<not> sn_first_message st2"
    using w assms(2) by (simp_all add: drop_work_def)
  with q show ?thesis
    by (simp add: finish_work_def Let_def handshake_ok_def opening_task_def close_def split: sum.split)
qed

lemma set_stage_ok:
  assumes "opening_task st" and "\<not> sn_first_message st" and "sn_work st' = sn_work st" and "sn_results st' = sn_results st"
    and "sn_batches st' = sn_batches st" and "sn_first_message st' = sn_first_message st"
  shows "handshake_ok (set_stage no stage st')"
  using assms by (auto simp: handshake_ok_def opening_task_def set_stage_def)

lemma queue_command_ok:
  assumes "opening_task st" and "\<not> sn_first_message st" and "find_work no st = Some w"
  shows "handshake_ok (queue_command env w command st)"
proof (cases "length (sn_lane st) < control_queue")
  case True
  have "handshake_ok (set_stage (wk_no w) Waiting (st\<lparr>sn_lane := sn_lane st @ [(wk_no w, command)]\<rparr>))"
    by (rule set_stage_ok [OF assms(1,2)]) simp_all
  with True show ?thesis by (simp add: queue_command_def)
next
  case False
  have "sn_closed (finish_work env w r [] (close st))" for r
    using finish_work_effects [of "close st" env w r "[]"] effects_silent [of "close st"] by (simp add: close_def)
  with False show ?thesis by (simp add: queue_command_def handshake_ok_closed)
qed

lemma run_work_ok:
  "opening_task st \<Longrightarrow> \<not> sn_first_message st \<Longrightarrow> find_work no st = Some w \<Longrightarrow>
   handshake_ok (run_work env ops world w st)"
  by (auto simp: run_work_def Let_def finish_work_ok queue_command_ok split: option.split sum.split prod.split)

lemma take_result_ok:
  assumes "opening_task st" and "\<not> sn_first_message st" and "\<not> sn_stopped st"
  shows "handshake_ok (take_result env st)"
proof (cases "sn_results st")
  case Nil
  with assms show ?thesis by (simp add: take_result_def handshake_ok_def)
next
  case (Cons r rs)
  have order: "handshake_order st (take_result env st)"
    by (rule handshake_order_effects [OF take_result_effects])
  let ?st2 = "case wr_destination r of
      ToSingle \<Rightarrow> take_single env r (forget_id (wr_id r) (st\<lparr>sn_results := rs\<rparr>))
    | ToBatch k \<Rightarrow> take_batched env k r (st\<lparr>sn_results := rs\<rparr>)"
  have "take_result env st = (if sn_stopped ?st2 then ?st2 else ?st2\<lparr>sn_handshake_pending := False\<rparr>)"
    using Cons by (simp add: take_result_def Let_def)
  then show ?thesis
    using order assms(2,3) by (cases "sn_stopped ?st2") (auto simp: handshake_ok_def handshake_order_def)
qed

section \<open>Every step\<close>

lemma lane_answer_ok:
  assumes "handshake_ok st" and "\<not> sn_closed st"
  shows "handshake_ok (lane_answer ca st)"
proof (cases "sn_executing st")
  case None
  with assms show ?thesis by (simp add: lane_answer_def)
next
  case (Some e)
  obtain no command where e: "e = (no, command)" by (cases e)
  obtain result st' where h: "handle_control ca command st = (result, st')" by fastforce
  note frame = handle_control_frame [OF h, unfolded lane_frame_def]
  have answer: "lane_answer ca st = set_stage no (Replied result) (st'\<lparr>sn_executing := None\<rparr>)"
    using Some e h by (simp add: lane_answer_def)
  from assms Some have "\<not> sn_first_message st" "\<not> sn_handshake_pending st \<or> opening_task st"
    by (auto simp: handshake_ok_def unopened_def)
  then show ?thesis
  proof (cases "sn_handshake_pending st")
    case True
    then have task: "opening_task st" using \<open>\<not> sn_handshake_pending st \<or> opening_task st\<close> by blast
    show ?thesis
      unfolding answer by (rule set_stage_ok [OF task \<open>\<not> sn_first_message st\<close>]) (use frame in simp_all)
  next
    case False
    from after_handshake [OF \<open>\<not> sn_first_message st\<close> this lane_answer_effects] show ?thesis .
  qed
qed

lemma forward_opening: "\<not> sn_closed (forward_registry_event env st) \<Longrightarrow> same_opening st (forward_registry_event env st)"
proof -
  have entry: "same_opening st (on_session_entry f st)" for f
    by (simp add: same_opening_def on_session_entry_def split: option.split)
  have "\<not> sn_closed (close_unless (send_authorized_event env m st1)) \<Longrightarrow>
      same_opening st1 (close_unless (send_authorized_event env m st1))" for m st1
    by (rule authorized_event_cases [OF refl, where env = env and m = m and st = st1]) (auto simp: same_opening_def)
  with entry show "\<not> sn_closed (forward_registry_event env st) \<Longrightarrow> same_opening st (forward_registry_event env st)"
    by (auto simp: forward_registry_event_def same_opening_def split: option.splits list.splits)
qed

lemma watch_opening:
  "\<not> sn_closed (close_unless (send_current_watch_event env identity m st)) \<Longrightarrow>
   same_opening st (close_unless (send_current_watch_event env identity m st))"
  by (rule watch_event_cases [OF refl, where env = env and identity = identity and m = m and st = st])
    (auto simp: same_opening_def)

lemma handshake_ok_same:
  "(\<not> sn_closed st' \<Longrightarrow> same_opening st st') \<Longrightarrow> handshake_ok st \<Longrightarrow> \<not> sn_closed st \<Longrightarrow> handshake_ok st'"
  using same_opening_ok handshake_ok_closed by blast

lemma lane_take_ok: "handshake_ok st \<Longrightarrow> \<not> sn_closed st \<Longrightarrow> handshake_ok (lane_take st)"
  by (auto simp: lane_take_def handshake_ok_def unopened_def opening_task_def split: list.split)

lemma take_oversized_ok: "handshake_ok st \<Longrightarrow> handshake_ok (take_oversized env t st)"
  by (simp add: take_oversized_def Let_def handshake_ok_closed last_answer_closed)

lemma take_guard_failure_ok: "handshake_ok st \<Longrightarrow> handshake_ok (take_guard_failure env st)"
  by (simp add: take_guard_failure_def handshake_ok_closed split: list.split)

lemma loop_step_ok:
  "handshake_ok st \<Longrightarrow> (\<not> sn_closed st \<Longrightarrow> handshake_ok (f st)) \<Longrightarrow> handshake_ok (loop_step f st)"
  by (simp add: loop_step_def handshake_ok_closed)

lemma work_step_ok:
  assumes "handshake_ok st" and "\<not> sn_closed st"
    and "\<And>w. opening_task st \<Longrightarrow> \<not> sn_first_message st \<Longrightarrow> find_work no st = Some w \<Longrightarrow> handshake_ok (f w st)"
    and "\<And>w. effects st (f w st)"
  shows "handshake_ok (on_work no f st)"
proof (cases "find_work no st")
  case None
  with assms show ?thesis by (simp add: on_work_def)
next
  case (Some w)
  then have "sn_work st \<noteq> []" by (auto simp: find_work_def)
  with assms(1,2) have "\<not> sn_first_message st" "\<not> sn_handshake_pending st \<or> opening_task st"
    by (auto simp: handshake_ok_def unopened_def)
  then show ?thesis
    using assms(3) [OF _ _ Some] after_handshake [OF _ _ assms(4)] Some by (auto simp: on_work_def)
qed

lemma session_step_ok:
  assumes "handshake_ok st" and "sn_stopped st \<longrightarrow> sn_closed st"
  shows "handshake_ok (session_step env e st)"
proof (cases "sn_closed st")
  case True
  then have "sn_closed (session_step env e st)" using effects_silent [OF session_step_effects] by blast
  then show ?thesis by (rule handshake_ok_closed)
next
  case False
  show ?thesis
  proof (cases e)
    case (FrameArrives t)
    with assms(1) False show ?thesis by (simp add: loop_step_ok take_frame_ok)
  next
    case ResultReady
    have "handshake_ok (take_result env st)"
    proof (cases "\<not> sn_first_message st \<and> sn_handshake_pending st")
      case True
      with assms False show ?thesis by (intro take_result_ok) (auto simp: handshake_ok_def unopened_def)
    next
      case past: False
      show ?thesis
      proof (cases "sn_first_message st")
        case True
        with assms(1) False show ?thesis by (auto simp: handshake_ok_def unopened_def take_result_def)
      next
        case False
        with past after_handshake [OF _ _ take_result_effects] show ?thesis by blast
      qed
    qed
    with ResultReady assms(1) show ?thesis by (simp add: loop_step_ok)
  next
    case (RunWork no ops world)
    show ?thesis
      unfolding RunWork session_step.simps
      by (rule work_step_ok) (use assms(1) False in \<open>auto simp: run_work_ok run_work_effects\<close>)
  next
    case (PanicWork no)
    show ?thesis
      unfolding PanicWork session_step.simps
      by (rule work_step_ok) (use assms(1) False in \<open>simp_all add: handshake_ok_closed close_def
          effects_trans [OF drop_work_effects close_effects, unfolded close_def]\<close>)
  next
    case (ControlAnswered no)
    have "handshake_ok (finish_control env w st)"
      if "opening_task st" "\<not> sn_first_message st" "find_work no st = Some w" for w
      using that assms(1) by (simp add: finish_control_def finish_work_ok split: work_stage.split)
    then show ?thesis
      unfolding ControlAnswered session_step.simps
      by (intro work_step_ok) (use assms(1) False in \<open>simp_all add: finish_control_effects\<close>)
  next
    case (GenerationCheckFails f)
    have "same_opening st (st\<lparr>sn_guard := g\<rparr>)" for g by (simp add: same_opening_def)
    from same_opening_ok [OF this assms(1) False] GenerationCheckFails assms(1) show ?thesis by simp
  next
    case (RegistryElsewhere op)
    have "same_opening st (registry_elsewhere op st)"
      by (simp add: same_opening_def registry_elsewhere_def Let_def split: option.split)
    from same_opening_ok [OF this assms(1) False] RegistryElsewhere show ?thesis by simp
  qed (use assms(1) False in \<open>simp_all add: loop_step_ok take_oversized_ok take_guard_failure_ok anonymous_tick_def
      handshake_ok_closed lane_take_ok lane_answer_ok registry_lagged_def close_def
      handshake_ok_same [OF forward_opening] handshake_ok_same [OF watch_opening] split: option.split\<close>)
qed

lemma session_run_ok: "handshake_ok (session_run env es registry) \<and>
    (sn_stopped (session_run env es registry) \<longrightarrow> sn_closed (session_run env es registry))"
proof (induction es rule: rev_induct)
  case Nil
  show ?case
    by (simp add: session_run_def session_start_def handshake_ok_def unopened_def session_state_default_def)
next
  case (snoc e es)
  let ?st = "session_run env es registry"
  have "session_run env (es @ [e]) registry = session_step env e ?st" by (simp add: session_run_def)
  moreover have "handshake_order ?st (session_step env e ?st)"
    by (rule handshake_order_effects [OF session_step_effects])
  ultimately show ?case using snoc session_step_ok [of ?st env e] by (auto simp: handshake_order_def)
qed

text \<open>C38: The handshake excludes everything else and cannot wedge. While an open session is waiting for the
  answer to its first message, exactly one task or result is in flight, no batch exists, and what runs is
  \<open>session.open\<close>; before the first message nothing runs at all.\<close>

theorem handshake_exclusive:
  assumes "\<not> sn_closed (session_run env es registry)"
    and "sn_first_message (session_run env es registry) \<or> sn_handshake_pending (session_run env es registry)"
  shows "let st = session_run env es registry in sn_batches st = [] \<and>
    length (sn_work st) + length (sn_results st) = of_bool (sn_handshake_pending st) \<and>
    list_all (\<lambda>w. rc_method (wk_call w) = ascii ''session.open'') (sn_work st)"
  using assms session_run_ok [of env es registry]
  by (auto simp: Let_def handshake_ok_def unopened_def opening_task_def)

theorem handshake_exclusive_witness:
  "length (sn_work (handshake Spawned)) = 1"
proof -
  have "\<not> sn_closed (handshake Spawned)" "sn_handshake_pending (handshake Spawned)"
    "sn_results (handshake Spawned) = []"
    by (simp_all add: handshake_def session_start_def)
  with handshake_exclusive [of example_env "[FrameArrives 0 :: (nat, unit, unit) session_event]" registry_new]
  show ?thesis by (simp add: example_run_1 Let_def)
qed

end
