(* ===== verification/Chat_Tables.thy ===== *)
theory Chat_Tables
  imports Models
begin

text \<open>
  The tables that hold a chat's contents (\<open>backend/src/schema/primary.rs\<close>) with their row
  structs of \<open>backend/src/models.rs\<close>: messages, attachments, mentions, reactions, the threads'
  bookkeeping, pins and invites, beside the tables of accounts and memberships (\<open>core\<close>).
\<close>

section \<open>Rows\<close>

datatype mention_kind = MentionRow | ReplyRow

record attachment =
  at_id :: snowflake
  at_message_id :: "snowflake option"
  at_uploader_uid :: "uid option"
  at_file_name :: ustr
  at_kind :: ustr
  at_external_reference :: ustr
  at_size :: int
  at_created_at :: timestamp
  at_deleted_at :: "timestamp option"
  at_width :: "int option"
  at_height :: "int option"
  at_order :: int

record message_mention =
  mm_message_id :: snowflake
  mm_mentioned_uid :: uid
  mm_chat_id :: snowflake
  mm_thread_root_id :: "snowflake option"
  mm_created_at :: timestamp
  mm_kind :: mention_kind

record message_reaction =
  mr_message_id :: snowflake
  mr_user_uid :: uid
  mr_emoji :: ustr
  mr_created_at :: timestamp
  mr_message_author_uid :: uid

record pinned_message =
  pin_id :: snowflake
  pin_chat_id :: snowflake
  pin_message_id :: snowflake
  pin_pinned_by :: uid
  pin_pinned_at :: timestamp
  pin_expires_at :: "timestamp option"
  pin_thread_root_id :: "snowflake option"

record thread_meta =
  tm_chat_id :: snowflake
  tm_thread_root_id :: snowflake
  tm_reply_count :: int
  tm_last_reply_at :: "timestamp option"

record thread_user_state =
  ts_chat_id :: snowflake
  ts_thread_root_id :: snowflake
  ts_uid :: uid
  ts_subscribed_at :: timestamp
  ts_archived :: bool
  ts_last_read_message_id :: "snowflake option"
  ts_subscribed :: bool

record thread_user_state_row = thread_user_state +
  ts_last_reactions_read_at :: timestamp
  ts_last_read_receipt_message_id :: "snowflake option"

datatype invite_type = InviteGeneric | InviteTargeted | InviteMembership

record invite =
  inv_id :: snowflake
  inv_code :: ustr
  inv_chat_id :: snowflake
  inv_invite_type :: invite_type
  inv_creator_uid :: "uid option"
  inv_target_uid :: "uid option"
  inv_required_chat_id :: "snowflake option"
  inv_created_at :: timestamp
  inv_expires_at :: "timestamp option"
  inv_revoked_at :: "timestamp option"
  inv_used_at :: "timestamp option"

section \<open>Tables\<close>

record chat_db =
  core :: tables
  messages :: "message_row list"
  attachments :: "attachment list"
  message_mentions :: "message_mention list"
  message_reactions :: "message_reaction list"
  pinned_messages :: "pinned_message list"
  thread_metas :: "thread_meta list"
  thread_user_states :: "thread_user_state_row list"
  invites :: "invite list"

definition empty_chat_db :: chat_db where
  "empty_chat_db =
     \<lparr>core = empty_tables, messages = [], attachments = [], message_mentions = [],
      message_reactions = [], pinned_messages = [], thread_metas = [], thread_user_states = [],
      invites = []\<rparr>"

section \<open>Keys\<close>

definition mention_key :: "message_mention \<Rightarrow> snowflake \<times> uid" where
  "mention_key r = (mm_message_id r, mm_mentioned_uid r)"

definition is_mention_of :: "snowflake \<times> uid \<Rightarrow> message_mention \<Rightarrow> bool" where
  "is_mention_of k r \<longleftrightarrow> mm_message_id r = fst k \<and> mm_mentioned_uid r = snd k"

definition thread_meta_key :: "thread_meta \<Rightarrow> snowflake \<times> snowflake" where
  "thread_meta_key r = (tm_chat_id r, tm_thread_root_id r)"

definition is_thread_meta_of :: "snowflake \<times> snowflake \<Rightarrow> thread_meta \<Rightarrow> bool" where
  "is_thread_meta_of k r \<longleftrightarrow> tm_chat_id r = fst k \<and> tm_thread_root_id r = snd k"

definition thread_state_key :: "thread_user_state_row \<Rightarrow> snowflake \<times> snowflake \<times> uid" where
  "thread_state_key r = (ts_chat_id r, ts_thread_root_id r, ts_uid r)"

definition is_thread_state_of ::
  "snowflake \<times> snowflake \<times> uid \<Rightarrow> thread_user_state_row \<Rightarrow> bool" where
  "is_thread_state_of k r \<longleftrightarrow>
     ts_chat_id r = fst k \<and> ts_thread_root_id r = fst (snd k) \<and> ts_uid r = snd (snd k)"

interpretation message_table: keyed_table m_id "\<lambda>k r. m_id r = k"
  by unfold_locales simp

interpretation attachment_table: keyed_table at_id "\<lambda>k r. at_id r = k"
  by unfold_locales simp

interpretation mention_table: keyed_table mention_key is_mention_of
  by unfold_locales (auto simp: mention_key_def is_mention_of_def)

interpretation thread_meta_table: keyed_table thread_meta_key is_thread_meta_of
  by unfold_locales (auto simp: thread_meta_key_def is_thread_meta_of_def)

interpretation thread_state_table: keyed_table thread_state_key is_thread_state_of
  by unfold_locales (auto simp: thread_state_key_def is_thread_state_of_def)

text \<open>The primary keys and unique indexes of these tables.\<close>

definition keys_ok :: "chat_db \<Rightarrow> bool" where
  "keys_ok db \<longleftrightarrow>
     distinct_keys g_id (groups (core db)) \<and> distinct_keys membership_key (memberships (core db)) \<and>
     distinct_keys m_id (messages db) \<and> distinct_keys m_client_generated_id (messages db) \<and>
     distinct_keys at_id (attachments db) \<and> distinct_keys mention_key (message_mentions db) \<and>
     distinct_keys thread_meta_key (thread_metas db) \<and>
     distinct_keys thread_state_key (thread_user_states db)"

section \<open>The newest row\<close>

text \<open>\<open>ORDER BY key DESC LIMIT 1\<close>, for a key that the rows do not share.\<close>

definition top_by :: "('r \<Rightarrow> 'k::linorder) \<Rightarrow> 'r list \<Rightarrow> 'r option" where
  "top_by key rows = first_row (\<lambda>r. list_all (\<lambda>r'. key r' \<le> key r) rows) rows"

lemma top_by_Some:
  "top_by key rows = Some r \<Longrightarrow> r \<in> set rows \<and> (\<forall>r' \<in> set rows. key r' \<le> key r)"
  unfolding top_by_def by (drule first_row_Some) (simp add: list_all_iff)

lemma top_by_None [row_simps]: "top_by key rows = None \<longleftrightarrow> rows = []"
proof
  assume none: "top_by key rows = None"
  show "rows = []"
  proof (rule ccontr)
    assume "rows \<noteq> []"
    then have "Max (key ` set rows) \<in> key ` set rows" by (intro Max_in) auto
    then obtain r where r: "r \<in> set rows" "key r = Max (key ` set rows)" by auto
    then have "\<forall>r' \<in> set rows. key r' \<le> key r" by simp
    with r(1) have "\<exists>r \<in> set rows. list_all (\<lambda>r'. key r' \<le> key r) rows"
      by (auto simp: list_all_iff)
    with none show False by (simp add: top_by_def first_row_None)
  qed
qed (simp add: top_by_def)

text \<open>The id of the newest message that satisfies a condition.\<close>

definition newest_id :: "(message_row \<Rightarrow> bool) \<Rightarrow> message_row list \<Rightarrow> snowflake option" where
  "newest_id P ms = map_option m_id (top_by m_id (filter P ms))"

lemma newest_id_Some:
  "newest_id P ms = Some i \<Longrightarrow>
   (\<exists>m \<in> set ms. P m \<and> m_id m = i) \<and> (\<forall>m \<in> set ms. P m \<longrightarrow> m_id m \<le> i)"
  by (fastforce simp: newest_id_def dest: top_by_Some)

lemma newest_id_None [row_simps]: "newest_id P ms = None \<longleftrightarrow> (\<forall>m \<in> set ms. \<not> P m)"
  by (simp add: newest_id_def top_by_None filter_empty_conv)

lemma newest_id_iff:
  "newest_id P ms = Some i \<longleftrightarrow>
   (\<exists>m \<in> set ms. P m \<and> m_id m = i) \<and> (\<forall>m \<in> set ms. P m \<longrightarrow> m_id m \<le> i)"
proof
  assume r: "(\<exists>m \<in> set ms. P m \<and> m_id m = i) \<and> (\<forall>m \<in> set ms. P m \<longrightarrow> m_id m \<le> i)"
  then obtain j where "newest_id P ms = Some j" by (metis newest_id_None option.exhaust)
  with newest_id_Some [OF this] r show "newest_id P ms = Some i" by (metis order_antisym)
qed (rule newest_id_Some)

end
