(* ===== verification/Dto_Chat.thy ===== *)
theory Dto_Chat
  imports Chat_Tables Dto_Ws Users
begin

text \<open>
  What clients are sent about messages: \<open>backend/src/dto/messages.rs\<close>, \<open>dto/users.rs\<close>,
  \<open>dto/attachments.rs\<close>, \<open>dto/pins.rs\<close>, \<open>dto/threads.rs\<close> and the payloads of \<open>dto/ws.rs\<close>
  that carry them (the instance of the event type's parameter for the chat components).
\<close>

record user =
  u_uid :: uid
  u_avatar_url :: "ustr option"
  u_name :: "ustr option"
  u_gender :: int
  u_user_group :: "user_group_tag_info option"

record mention_info =
  mi_uid :: uid
  mi_username :: "ustr option"
  mi_avatar_url :: "ustr option"
  mi_gender :: int
  mi_user_group :: "user_group_tag_info option"

record system_message_links =
  sl_uid :: "uid option"
  sl_message_id :: "snowflake option"

record attachment_response =
  ar_id :: snowflake
  ar_url :: ustr
  ar_kind :: ustr
  ar_size :: int
  ar_file_name :: ustr
  ar_width :: "int option"
  ar_height :: "int option"

record sticker_media_response =
  smr_id :: snowflake
  smr_url :: ustr
  smr_content_type :: ustr
  smr_size :: int
  smr_width :: "int option"
  smr_height :: "int option"

record message_sticker_response =
  msr_id :: snowflake
  msr_emoji :: ustr
  msr_name :: "ustr option"
  msr_description :: "ustr option"
  msr_created_at :: timestamp
  msr_is_favorited :: bool
  msr_media :: sticker_media_response

text \<open>\<open>MessagePreviewSticker\<close> and \<open>MessagePreviewAttachment\<close> have one field each: the emoji and
  the content type.\<close>

record message_preview =
  pv_system_kind :: "system_message_kind option"
  pv_system_links :: "system_message_links option"
  pv_forwarded_from_name :: "ustr option"
  pv_id :: snowflake
  pv_client_generated_id :: ustr
  pv_created_at :: timestamp
  pv_sender :: user
  pv_message :: "ustr option"
  pv_message_type :: message_type
  pv_sticker :: "ustr option"
  pv_attachments :: "ustr list"
  pv_is_deleted :: bool
  pv_mentions :: "mention_info list"

record forwarded_from_info =
  ff_sender :: user
  ff_original_chat_id :: snowflake
  ff_original_message_id :: snowflake
  ff_original_reply_to :: "message_preview option"

record forwarded_message_preview_response =
  fpr_original_message_id :: snowflake
  fpr_original_chat_id :: snowflake
  fpr_message :: "ustr option"
  fpr_message_type :: message_type
  fpr_sender :: user
  fpr_original_created_at :: timestamp
  fpr_attachments :: "ustr list"
  fpr_sticker :: "ustr option"
  fpr_mentions :: "mention_info list"

record forwarded_messages_preview_response =
  fmp_total :: nat
  fmp_contains_forwarded_messages :: bool
  fmp_messages :: "forwarded_message_preview_response list"

record reaction_reactor =
  rr_uid :: uid
  rr_name :: "ustr option"
  rr_avatar_url :: "ustr option"
  rr_sort_index :: "int option"

record reaction_summary =
  rs_emoji :: ustr
  rs_count :: int
  rs_reacted_by_me :: "bool option"
  rs_reactors :: "reaction_reactor list option"

record message_response =
  r_system_kind :: "system_message_kind option"
  r_system_links :: "system_message_links option"
  r_forwarded_from :: "forwarded_from_info option"
  r_id :: snowflake
  r_message :: "ustr option"
  r_message_type :: message_type
  r_sticker :: "message_sticker_response option"
  r_reply_root_id :: "snowflake option"
  r_client_generated_id :: ustr
  r_sender :: user
  r_chat_id :: snowflake
  r_created_at :: timestamp
  r_is_edited :: bool
  r_is_deleted :: bool
  r_has_attachments :: bool
  r_thread_info :: "int option" \<comment> \<open>\<open>ThreadInfo::reply_count\<close>\<close>
  r_reply_to_message :: "message_preview option"
  r_attachments :: "attachment_response list"
  r_reactions :: "reaction_summary list"
  r_mentions :: "mention_info list"
  r_forwarded_bundle_id :: "snowflake option"
  r_forwarded_preview :: "forwarded_messages_preview_response option"

record bulk_deleted_payload =
  bd_complete :: "bool option"
  bd_thread_root_ids :: "snowflake list option"
  bd_chat_id :: snowflake
  bd_message_ids :: "snowflake list"

record reaction_update_payload =
  ru_message_id :: snowflake
  ru_chat_id :: snowflake
  ru_reactions :: "reaction_summary list"

record thread_update_payload =
  tu_thread_root_id :: snowflake
  tu_chat_id :: snowflake
  tu_last_reply_at :: timestamp
  tu_reply_count :: int

record thread_subscription_status =
  st_subscribed :: bool
  st_archived :: bool

record thread_membership_changed_payload =
  tc_thread_root_id :: snowflake
  tc_chat_id :: snowflake
  tc_status :: "thread_subscription_status option"

record read_receipt_changed_payload =
  rc_chat_id :: snowflake
  rc_privacy_changed :: "bool option"
  rc_reader_uid :: "uid option"
  rc_thread_root_id :: "snowflake option"

record pin_response =
  pr_id :: snowflake
  pr_chat_id :: snowflake
  pr_thread_root_id :: "snowflake option"
  pr_message :: message_response
  pr_pinned_by :: uid
  pr_pinned_at :: timestamp
  pr_expires_at :: "timestamp option"

record pin_update_payload =
  pu_chat_id :: snowflake
  pu_pin_id :: snowflake
  pu_message_id :: snowflake
  pu_thread_root_id :: "snowflake option"
  pu_pin :: "pin_response option"

datatype notification_type = NotifyMention | NotifyReply | NotifyReaction

record notification_payload =
  np_notification_type :: notification_type
  np_chat_id :: snowflake
  np_message_id :: snowflake
  np_thread_root_id :: "snowflake option"
  np_actor_uid :: uid
  np_actor_name :: "ustr option"

datatype chat_payload =
    MessagePayload message_response
  | BulkDeletedPayload bulk_deleted_payload
  | ReactionUpdatePayload reaction_update_payload
  | ThreadUpdatePayload thread_update_payload
  | ThreadMembershipPayload thread_membership_changed_payload
  | ReadReceiptPayload read_receipt_changed_payload
  | PinUpdatePayload pin_update_payload
  | NotificationPayload notification_payload

end
