(* ===== verification/Message_Text.thy ===== *)
theory Message_Text
  imports Dto_Chat
begin

text \<open>
  The text of messages (\<open>backend/src/services/messages.rs\<close>): mention tokens, the previews shown
  in pushes, and the attachment ids of a request. Text is a list of scalar values; the code
  scans bytes, and a byte equal to an ASCII character is always that character, so the two
  scans find the same tokens. A position in the text is the suffix that starts there.
\<close>

section \<open>Mention tokens\<close>

definition strip_prefix :: "ustr \<Rightarrow> ustr \<Rightarrow> ustr option" where
  "strip_prefix p s = (if take (length p) s = p then Some (drop (length p) s) else None)"

definition parse_mention_token :: "ustr \<Rightarrow> (uid \<times> ustr) option" where
  "parse_mention_token s =
     (case strip_prefix (ascii ''@['') s of None \<Rightarrow> None
      | Some rest \<Rightarrow>
          if 93 \<notin> set rest then None
          else let inner = takeWhile (\<lambda>c. c \<noteq> 93) rest
               in Option.bind (strip_prefix (ascii ''uid:'') inner) (\<lambda>number.
                    map_option (\<lambda>uid. (uid, drop (Suc (length inner)) rest)) (parse_i32 number)))"

lemma strip_prefix_Some: "strip_prefix p s = Some r \<longleftrightarrow> s = p @ r"
  by (auto simp: strip_prefix_def) (metis append_take_drop_id)

lemma parse_mention_token_Nil [simp]: "parse_mention_token [] = None"
  by (simp add: parse_mention_token_def strip_prefix_def ascii_def)

lemma parse_signed_chars:
  assumes "parse_signed b s = Some v" and "c \<in> set s"
  shows "is_digit c \<or> c = 45 \<or> c = 43"
proof (cases s)
  case Nil
  with assms(2) show ?thesis by simp
next
  case (Cons d ds)
  with assms have "list_all is_digit ds \<and> (d = 45 \<or> d = 43 \<or> is_digit d)"
    by (auto simp: parse_signed_def Let_def split: if_splits)
  with assms(2) Cons show ?thesis by (auto simp: list_all_iff)
qed

lemma number_chars:
  assumes "parse_i32 s = Some v"
  shows "93 \<notin> set s" and "64 \<notin> set s"
  using parse_signed_chars [OF assms [unfolded parse_i32_def], of 93]
    parse_signed_chars [OF assms [unfolded parse_i32_def], of 64]
  by (auto simp: is_digit_def)

text \<open>A token is \<open>@[uid:\<close>, a number in range, \<open>]\<close>.\<close>

lemma parse_mention_token_iff:
  "parse_mention_token s = Some (uid, next') \<longleftrightarrow>
   (\<exists>n. s = ascii ''@[uid:'' @ n @ 93 # next' \<and> parse_i32 n = Some uid)"
proof
  assume "parse_mention_token s = Some (uid, next')"
  then obtain rest n where rest: "s = ascii ''@['' @ rest" "93 \<in> set rest"
      "takeWhile (\<lambda>c. c \<noteq> 93) rest = ascii ''uid:'' @ n" "parse_i32 n = Some uid"
      "next' = drop (Suc (length (takeWhile (\<lambda>c. c \<noteq> 93) rest))) rest"
    by (auto simp: parse_mention_token_def Let_def bind_eq_Some_conv strip_prefix_Some
        split: option.splits if_splits)
  from rest(2) obtain xs ys where xs: "rest = xs @ 93 # ys" "93 \<notin> set xs"
    by (metis split_list_first)
  then have "takeWhile (\<lambda>c. c \<noteq> 93) rest = xs" by (auto simp: takeWhile_append intro!: takeWhile_eq_all_conv [THEN iffD2])
  with rest xs show "\<exists>n. s = ascii ''@[uid:'' @ n @ 93 # next' \<and> parse_i32 n = Some uid"
    by (auto simp: ascii_def)
next
  assume "\<exists>n. s = ascii ''@[uid:'' @ n @ 93 # next' \<and> parse_i32 n = Some uid"
  then obtain n where n: "s = ascii ''@[uid:'' @ n @ 93 # next'" "parse_i32 n = Some uid" by auto
  let ?rest = "ascii ''uid:'' @ n @ 93 # next'"
  have "takeWhile (\<lambda>c. c \<noteq> 93) (n @ 93 # next') = n"
    using number_chars [OF n(2)] by (auto simp: takeWhile_append intro!: takeWhile_eq_all_conv [THEN iffD2])
  then have "takeWhile (\<lambda>c. c \<noteq> 93) ?rest = ascii ''uid:'' @ n" by (simp add: ascii_def)
  moreover have "strip_prefix (ascii ''@['') s = Some ?rest"
    by (simp add: strip_prefix_Some n(1) ascii_def)
  moreover have "strip_prefix (ascii ''uid:'') (ascii ''uid:'' @ n) = Some n"
    by (simp add: strip_prefix_Some)
  ultimately show "parse_mention_token s = Some (uid, next')"
    using n(2) by (simp add: parse_mention_token_def Let_def)
qed

lemma parse_mention_token_shorter:
  "parse_mention_token s = Some (uid, next') \<Longrightarrow> length next' < length s"
  by (auto simp: parse_mention_token_iff)

function extract_mentions :: "uid list \<Rightarrow> ustr \<Rightarrow> uid list" where
  "extract_mentions uids [] = uids"
| "extract_mentions uids (c # cs) =
     (case parse_mention_token (c # cs) of
        Some (uid, next') \<Rightarrow>
          extract_mentions (if uid \<in> set uids then uids else uids @ [uid]) next'
      | None \<Rightarrow> extract_mentions uids cs)"
  by pat_completeness auto

termination
  by (relation "measure (\<lambda>(uids, s). length s)") (auto dest: parse_mention_token_shorter)

definition extract_mention_uids :: "ustr \<Rightarrow> uid list" where
  "extract_mention_uids s = extract_mentions [] s"

section \<open>Rendering mentions\<close>

function render_from :: "(uid \<rightharpoonup> ustr) \<Rightarrow> ustr \<Rightarrow> ustr" where
  "render_from names [] = []"
| "render_from names (c # cs) =
     (case parse_mention_token (c # cs) of
        Some (uid, next') \<Rightarrow>
          ascii ''@'' @ (case names uid of None \<Rightarrow> ascii ''Unknown User'' | Some n \<Rightarrow> n) @
          render_from names next'
      | None \<Rightarrow> c # render_from names cs)"
  by pat_completeness auto

termination
  by (relation "measure (\<lambda>(names, s). length s)") (auto dest: parse_mention_token_shorter)

definition mention_names :: "mention_info list \<Rightarrow> uid \<rightharpoonup> ustr" where
  "mention_names mentions =
     fold (\<lambda>m names. case mi_username m of None \<Rightarrow> names | Some n \<Rightarrow> names(mi_uid m \<mapsto> n))
       mentions Map.empty"

definition render_mentions_as_text :: "ustr \<Rightarrow> mention_info list \<Rightarrow> ustr" where
  "render_mentions_as_text s mentions =
     (if mentions = [] then s else render_from (mention_names mentions) s)"

section \<open>Previews\<close>

definition sticker_preview_text :: "ustr option \<Rightarrow> ustr" where
  "sticker_preview_text emoji =
     (case emoji of
        Some e \<Rightarrow> if trim e = [] then ascii ''[Sticker]'' else ascii ''[Sticker] '' @ e
      | None \<Rightarrow> ascii ''[Sticker]'')"

definition starts_with :: "string \<Rightarrow> ustr \<Rightarrow> bool" where
  "starts_with p s \<longleftrightarrow> strip_prefix (ascii p) s \<noteq> None"

definition attachment_preview_text :: "ustr option \<Rightarrow> ustr" where
  "attachment_preview_text kind =
     (case kind of
        None \<Rightarrow> ascii ''[Attachment]''
      | Some k \<Rightarrow>
          if starts_with ''image/'' k then ascii ''[Image]''
          else if starts_with ''video/'' k then ascii ''[Video]''
          else if starts_with ''audio/'' k then ascii ''[Voice message]''
          else ascii ''[Attachment]'')"

record push_message_preview =
  pm_message :: "ustr option"
  pm_message_type :: message_type
  pm_sticker :: "ustr option"
  pm_attachments :: "ustr list"
  pm_is_deleted :: bool

record push_preview_bundle =
  pb_message_preview :: push_message_preview
  pb_body_preview :: "ustr option"

definition placeholder_of_text :: "ustr \<Rightarrow> forward_placeholder option" where
  "placeholder_of_text s =
     (if s = ascii (placeholder_code PendingAudio) then Some PendingAudio
      else if s = ascii (placeholder_code NestedForward) then Some NestedForward else None)"

definition build_push_preview_bundle :: "message_response \<Rightarrow> push_preview_bundle" where
  "build_push_preview_bundle r =
     (let rendered = map_option (\<lambda>s. render_mentions_as_text s (r_mentions r)) (r_message r);
          sticker = Option.bind (r_sticker r)
            (\<lambda>s. if trim (msr_emoji s) \<noteq> [] then Some (msr_emoji s) else None);
          body = (if r_is_deleted r then None
            else case r_message_type r of
                Invite \<Rightarrow> Some (ascii ''sent an invite'')
              | Sticker \<Rightarrow> Some (sticker_preview_text (map_option msr_emoji (r_sticker r)))
              | File \<Rightarrow> Some (attachment_preview_text
                  (case r_attachments r of [] \<Rightarrow> None | a # _ \<Rightarrow> Some (ar_kind a)))
              | Forwarded \<Rightarrow> Some (ascii ''forwarded messages'')
              | Placeholder \<Rightarrow> Some
                  (case Option.bind (r_message r) placeholder_of_text of
                     None \<Rightarrow> ascii ''[Unavailable message]''
                   | Some p \<Rightarrow> ascii (placeholder_text p))
              | _ \<Rightarrow> rendered);
          shown = (if r_is_deleted r then None
            else case r_message_type r of Invite \<Rightarrow> None | Forwarded \<Rightarrow> None | _ \<Rightarrow> rendered)
      in \<lparr>pb_message_preview =
            \<lparr>pm_message = shown, pm_message_type = r_message_type r, pm_sticker = sticker,
             pm_attachments = map ar_kind (r_attachments r), pm_is_deleted = r_is_deleted r\<rparr>,
          pb_body_preview = body\<rparr>)"

section \<open>Attachment ids of a request\<close>

definition max_attachments_per_message :: nat where
  "max_attachments_per_message = 20"

fun parse_distinct_ids :: "snowflake list \<Rightarrow> ustr list \<Rightarrow> app_error + snowflake list" where
  "parse_distinct_ids parsed [] = Inr parsed"
| "parse_distinct_ids parsed (raw # raws) =
     (case parse_i64 raw of
        None \<Rightarrow> Inl (BadRequest ''Invalid attachment ID'')
      | Some i \<Rightarrow> if i \<in> set parsed then Inl (BadRequest ''Invalid attachment ID'')
                  else parse_distinct_ids (parsed @ [i]) raws)"

definition parse_attachment_ids :: "ustr list \<Rightarrow> app_error + snowflake list" where
  "parse_attachment_ids raw_ids =
     and_then (parse_distinct_ids [] raw_ids) (\<lambda>parsed.
       if length parsed > max_attachments_per_message
       then Inl (BadRequest ''Too many attachments (maximum of 20 allowed)'')
       else Inr parsed)"

section \<open>Which mentions a text has\<close>

text \<open>A mention of \<open>uid\<close> occurs in a text when a token for it is a substring.\<close>

definition mentions_uid :: "uid \<Rightarrow> ustr \<Rightarrow> bool" where
  "mentions_uid uid s \<longleftrightarrow>
     (\<exists>before n rest. s = before @ ascii ''@[uid:'' @ n @ 93 # rest \<and> parse_i32 n = Some uid)"

lemma mentions_uid_skip:
  assumes "parse_mention_token (c # cs) = None"
  shows "mentions_uid uid (c # cs) \<longleftrightarrow> mentions_uid uid cs"
proof
  assume "mentions_uid uid (c # cs)"
  then obtain pre n rest where s: "c # cs = pre @ ascii ''@[uid:'' @ n @ 93 # rest"
      and n: "parse_i32 n = Some uid"
    by (auto simp: mentions_uid_def)
  show "mentions_uid uid cs"
  proof (cases pre)
    case Nil
    with s n have "parse_mention_token (c # cs) = Some (uid, rest)"
      by (auto simp: parse_mention_token_iff)
    with assms show ?thesis by simp
  next
    case (Cons _ pre')
    with s have "cs = pre' @ ascii ''@[uid:'' @ n @ 93 # rest" by simp
    with n show ?thesis unfolding mentions_uid_def by blast
  qed
next
  assume "mentions_uid uid cs"
  then obtain pre n rest where "cs = pre @ ascii ''@[uid:'' @ n @ 93 # rest" "parse_i32 n = Some uid"
    by (auto simp: mentions_uid_def)
  then have "c # cs = (c # pre) @ ascii ''@[uid:'' @ n @ 93 # rest \<and> parse_i32 n = Some uid" by simp
  then show "mentions_uid uid (c # cs)" unfolding mentions_uid_def by blast
qed

lemma append_past:
  "t @ a = p @ x # b \<Longrightarrow> x \<notin> set t \<Longrightarrow> \<exists>us. p = t @ us \<and> a = us @ x # b"
proof (induction t arbitrary: p)
  case Nil
  then show ?case by simp
next
  case (Cons y t)
  from Cons.prems obtain p' where "p = y # p'" by (cases p) auto
  with Cons show ?case by auto
qed

lemma mentions_uid_token:
  assumes "parse_mention_token s = Some (u, next')"
  shows "mentions_uid uid s \<longleftrightarrow> uid = u \<or> mentions_uid uid next'"
proof -
  from assms obtain n where s: "s = ascii ''@[uid:'' @ n @ 93 # next'" and n: "parse_i32 n = Some u"
    by (auto simp: parse_mention_token_iff)
  let ?t = "ascii ''[uid:'' @ n @ [93]"
  have s': "s = 64 # ?t @ next'" by (simp add: s ascii_def)
  have no_at: "64 \<notin> set ?t" using number_chars(2) [OF n] by (simp add: ascii_def)
  show ?thesis
  proof
    assume "mentions_uid uid s"
    then obtain pre n' rest where o: "s = pre @ ascii ''@[uid:'' @ n' @ 93 # rest"
        and n': "parse_i32 n' = Some uid"
      by (auto simp: mentions_uid_def)
    show "uid = u \<or> mentions_uid uid next'"
    proof (cases pre)
      case Nil
      with o n' have "parse_mention_token s = Some (uid, rest)" by (auto simp: parse_mention_token_iff)
      with assms show ?thesis by simp
    next
      case (Cons _ pre')
      with o s' have "?t @ next' = pre' @ 64 # ascii ''[uid:'' @ n' @ 93 # rest"
        by (simp add: ascii_def)
      then obtain us where "next' = us @ 64 # ascii ''[uid:'' @ n' @ 93 # rest"
        using append_past [OF _ no_at] by metis
      then have "next' = us @ ascii ''@[uid:'' @ n' @ 93 # rest" by (simp add: ascii_def)
      with n' show ?thesis unfolding mentions_uid_def by blast
    qed
  next
    assume "uid = u \<or> mentions_uid uid next'"
    then show "mentions_uid uid s"
    proof
      assume "uid = u"
      with s n have "s = [] @ ascii ''@[uid:'' @ n @ 93 # next' \<and> parse_i32 n = Some uid" by simp
      then show ?thesis unfolding mentions_uid_def by blast
    next
      assume "mentions_uid uid next'"
      then obtain pre n' rest where "next' = pre @ ascii ''@[uid:'' @ n' @ 93 # rest"
          "parse_i32 n' = Some uid"
        by (auto simp: mentions_uid_def)
      then have "s = (64 # ?t @ pre) @ ascii ''@[uid:'' @ n' @ 93 # rest \<and> parse_i32 n' = Some uid"
        by (simp add: s')
      then show ?thesis unfolding mentions_uid_def by blast
    qed
  qed
qed

lemma mentions_uid_Nil [simp]: "\<not> mentions_uid uid []"
  by (simp add: mentions_uid_def)

lemma extract_mentions_spec:
  "distinct uids \<Longrightarrow> distinct (extract_mentions uids s) \<and>
   (uid \<in> set (extract_mentions uids s) \<longleftrightarrow> uid \<in> set uids \<or> mentions_uid uid s)"
proof (induction uids s rule: extract_mentions.induct)
  case (1 uids)
  then show ?case by simp
next
  case (2 uids c cs)
  then show ?case
    by (auto split: option.split simp: mentions_uid_skip mentions_uid_token)
qed

text \<open>Extraction finds exactly the users whose token occurs in the text as a substring, each
  once; scanning on after a token never swallows another one.\<close>

theorem mention_extraction_exact:
  "distinct (extract_mention_uids s) \<and>
   (uid \<in> set (extract_mention_uids s) \<longleftrightarrow> mentions_uid uid s)"
  using extract_mentions_spec [of "[]" s uid] by (simp add: extract_mention_uids_def)

section \<open>Texts written with tokens\<close>

text \<open>
  A text written as plain pieces (\<open>Inl\<close>) and mention tokens (\<open>Inr\<close>, the digits of the token),
  and what the reader of a preview sees of each piece.
\<close>

fun written :: "(ustr + ustr) list \<Rightarrow> ustr" where
  "written [] = []"
| "written (Inl t # ps) = t @ written ps"
| "written (Inr n # ps) = ascii ''@[uid:'' @ n @ 93 # written ps"

fun mentioned :: "(ustr + ustr) list \<Rightarrow> uid list" where
  "mentioned [] = []"
| "mentioned (Inl t # ps) = mentioned ps"
| "mentioned (Inr n # ps) = (case parse_i32 n of None \<Rightarrow> mentioned ps | Some u \<Rightarrow> u # mentioned ps)"

fun shown :: "(uid \<rightharpoonup> ustr) \<Rightarrow> (ustr + ustr) list \<Rightarrow> ustr" where
  "shown names [] = []"
| "shown names (Inl t # ps) = t @ shown names ps"
| "shown names (Inr n # ps) =
     64 # (case Option.bind (parse_i32 n) names of None \<Rightarrow> ascii ''Unknown User'' | Some name \<Rightarrow> name) @
     shown names ps"

definition well_written :: "ustr + ustr \<Rightarrow> bool" where
  "well_written p \<longleftrightarrow> (case p of Inl t \<Rightarrow> 64 \<notin> set t | Inr n \<Rightarrow> parse_i32 n \<noteq> None)"

definition add_new :: "'a list \<Rightarrow> 'a list \<Rightarrow> 'a list" where
  "add_new seen xs = fold (\<lambda>x seen. if x \<in> set seen then seen else seen @ [x]) xs seen"

lemma plain_skip:
  "c \<noteq> 64 \<Longrightarrow> parse_mention_token (c # cs) = None"
  by (auto simp: parse_mention_token_def strip_prefix_def ascii_def)

lemma extract_plain: "64 \<notin> set t \<Longrightarrow> extract_mentions uids (t @ s) = extract_mentions uids s"
  by (induction t) (auto simp: plain_skip)

lemma render_plain: "64 \<notin> set t \<Longrightarrow> render_from names (t @ s) = t @ render_from names s"
  by (induction t) (auto simp: plain_skip)

lemma token_parses:
  "parse_i32 n = Some u \<Longrightarrow>
   parse_mention_token (64 # ascii ''[uid:'' @ n @ 93 # rest) = Some (u, rest)"
  by (auto simp: parse_mention_token_iff ascii_def)

lemma token_Cons: "ascii ''@[uid:'' @ n @ 93 # rest = 64 # ascii ''[uid:'' @ n @ 93 # rest"
  by (simp add: ascii_def)

lemma ascii_at: "ascii ''@'' = [64]"
  by (simp add: ascii_def)

lemma extract_written:
  "\<forall>p \<in> set ps. well_written p \<Longrightarrow> extract_mentions uids (written ps) = add_new uids (mentioned ps)"
  by (induction ps arbitrary: uids rule: written.induct)
    (auto simp: add_new_def well_written_def extract_plain token_Cons token_parses)

lemma render_written:
  "\<forall>p \<in> set ps. well_written p \<Longrightarrow> render_from names (written ps) = shown names ps"
  by (induction ps rule: written.induct)
    (auto simp: well_written_def render_plain token_Cons token_parses ascii_at split: option.split)

text \<open>A text composed of plain pieces and mention tokens reads back: extraction returns the
  mentioned users in the order of their first tokens, and the preview keeps every plain piece
  and replaces each token by the user's name.\<close>

theorem mentions_roundtrip:
  assumes "\<forall>p \<in> set ps. well_written p" and "infos \<noteq> []"
  shows "extract_mention_uids (written ps) = add_new [] (mentioned ps) \<and>
    render_mentions_as_text (written ps) infos = shown (mention_names infos) ps"
  using assms by (simp add: extract_mention_uids_def extract_written render_mentions_as_text_def
      render_written)

lemma mentions_roundtrip_witness:
  "extract_mention_uids (ascii ''hi @[uid:7], @[uid:-3] and @[uid:7]'') = [7, -3] \<and>
   render_mentions_as_text (ascii ''hi @[uid:7], @[uid:-3] and @[uid:7]'')
     [\<lparr>mi_uid = 7, mi_username = Some (ascii ''Ann''), mi_avatar_url = None, mi_gender = 0,
       mi_user_group = None\<rparr>] = ascii ''hi @Ann, @Unknown User and @Ann''"
  (is "extract_mention_uids ?t = _ \<and> render_mentions_as_text _ ?infos = _")
proof -
  let ?ps = "[Inl (ascii ''hi ''), Inr (ascii ''7''), Inl (ascii '', ''), Inr (ascii ''-3''),
    Inl (ascii '' and ''), Inr (ascii ''7'')]"
  have n: "parse_i32 (ascii ''7'') = Some 7" "parse_i32 (ascii ''-3'') = Some (-3)"
    by code_simp+
  have "\<forall>p \<in> set ?ps. well_written p"
    by (simp add: well_written_def n) (simp add: ascii_def)
  from mentions_roundtrip [OF this, of ?infos]
  show ?thesis by (simp add: n add_new_def mention_names_def) (simp add: ascii_def)
qed

end
