(* ===== verification/Read_Receipts.thy ===== *)
theory Read_Receipts
  imports Dto_Chat Social Speaking
begin

text \<open>
  \<open>backend/src/services/read_receipts.rs\<close>: how far the peer of a direct chat has read. The
  marker of a chat is a column of the membership, the marker of a thread a column of the
  thread's user state; both only move forward. Whether a reader's marker is shown to the peer
  depends on the friendship, blocks, both accounts' settings and both per-friend overrides.
\<close>

section \<open>Participants\<close>

definition dm_participants :: "tables \<Rightarrow> snowflake \<Rightarrow> (uid \<times> uid) option" where
  "dm_participants db chat_id =
     Option.bind (first_row (\<lambda>g. g_id g = chat_id \<and> g_kind g = Dm) (groups db)) (\<lambda>g.
       Option.bind (g_dm_uid1 g) (\<lambda>first. map_option (Pair first) (g_dm_uid2 g)))"

definition peer_for :: "uid \<times> uid \<Rightarrow> uid \<Rightarrow> uid option" where
  "peer_for p uid =
     (if uid = fst p then Some (snd p) else if uid = snd p then Some (fst p) else None)"

definition dm_peer_for_member :: "tables \<Rightarrow> snowflake \<Rightarrow> uid \<Rightarrow> uid option" where
  "dm_peer_for_member db chat_id uid =
     Option.bind (dm_participants db chat_id) (\<lambda>p. peer_for p uid)"

section \<open>Visibility\<close>

definition shares_read_receipts :: "read_receipt_visibility \<Rightarrow> bool option \<Rightarrow> bool" where
  "shares_read_receipts visibility override_value =
     (case override_value of Some b \<Rightarrow> b | None \<Rightarrow> visibility = ReceiptFriends)"

definition read_receipt_is_visible ::
  "bool \<Rightarrow> bool \<Rightarrow> read_receipt_visibility \<Rightarrow> bool option \<Rightarrow> read_receipt_visibility \<Rightarrow>
   bool option \<Rightarrow> bool" where
  "read_receipt_is_visible is_friend blocked viewer_visibility viewer_override peer_visibility
     peer_override \<longleftrightarrow>
     is_friend \<and> \<not> blocked \<and> shares_read_receipts viewer_visibility viewer_override \<and>
     shares_read_receipts peer_visibility peer_override"

section \<open>Read targets\<close>

definition validate_chat_read_target :: "chat_db \<Rightarrow> snowflake \<Rightarrow> snowflake \<Rightarrow> app_error + unit" where
  "validate_chat_read_target db chat_id message_id =
     (if exists_row (\<lambda>m. m_id m = message_id \<and> m_chat_id m = chat_id \<and> m_reply_root_id m = None \<and>
           m_is_published m) (messages db)
      then Inr ()
      else Inl (BadRequest ''Read target must be a published top-level message in this chat''))"

definition validate_thread_root_read_target ::
  "chat_db \<Rightarrow> snowflake \<Rightarrow> snowflake \<Rightarrow> app_error + unit" where
  "validate_thread_root_read_target db chat_id thread_root_id =
     validate_chat_read_target db chat_id thread_root_id"

definition validate_thread_read_target ::
  "chat_db \<Rightarrow> snowflake \<Rightarrow> snowflake \<Rightarrow> snowflake \<Rightarrow> app_error + unit" where
  "validate_thread_read_target db chat_id thread_root_id message_id =
     (if exists_row (\<lambda>m. m_id m = message_id \<and> m_chat_id m = chat_id \<and>
           m_reply_root_id m = Some thread_root_id \<and> m_is_published m) (messages db)
      then Inr ()
      else Inl (BadRequest ''Read target must be a published reply in this thread''))"

section \<open>Markers\<close>

text \<open>\<open>col IS NULL OR col < v\<close>\<close>

definition behind :: "snowflake option \<Rightarrow> snowflake \<Rightarrow> bool" where
  "behind marker v = (case marker of None \<Rightarrow> True | Some w \<Rightarrow> w < v)"

definition advance_chat_read_receipt ::
  "snowflake \<Rightarrow> uid \<Rightarrow> snowflake \<Rightarrow> chat_db \<Rightarrow> bool \<times> chat_db" where
  "advance_chat_read_receipt chat_id uid message_id db =
     (let moves = (\<lambda>m. is_membership_of (chat_id, uid) m \<and>
            behind (gm_last_read_receipt_message_id m) message_id);
          rows = memberships (core db)
      in (exists_row moves rows,
          db\<lparr>core := (core db)\<lparr>memberships := update_rows moves
               (\<lambda>m. m\<lparr>gm_last_read_receipt_message_id := Some message_id\<rparr>) rows\<rparr>\<rparr>))"

definition advance_thread_read_receipt ::
  "snowflake \<Rightarrow> snowflake \<Rightarrow> uid \<Rightarrow> snowflake \<Rightarrow> chat_db \<Rightarrow> bool \<times> chat_db" where
  "advance_thread_read_receipt chat_id thread_root_id uid message_id db =
     (let moves = (\<lambda>s. is_thread_state_of (chat_id, thread_root_id, uid) s \<and>
            behind (ts_last_read_receipt_message_id s) message_id);
          rows = thread_user_states db
      in (exists_row moves rows,
          db\<lparr>thread_user_states := update_rows moves
               (\<lambda>s. s\<lparr>ts_last_read_receipt_message_id := Some message_id\<rparr>) rows\<rparr>))"

section \<open>One receipt\<close>

definition visibility_row :: "tables \<Rightarrow> uid \<Rightarrow> read_receipt_visibility" where
  "visibility_row db uid =
     (case first_row (\<lambda>r. ux_uid r = uid) (user_extras db) of
        None \<Rightarrow> ReceiptFriends | Some r \<Rightarrow> ux_read_receipt_visibility r)"

definition get_read_receipt ::
  "chat_db \<Rightarrow> uid \<Rightarrow> snowflake \<Rightarrow> snowflake option \<Rightarrow> app_error + snowflake option" where
  "get_read_receipt db viewer_uid chat_id thread_root_id =
     and_then (ok_or (dm_peer_for_member (core db) chat_id viewer_uid)
       (NotFound ''Read receipts are only available for direct messages'')) (\<lambda>peer_uid.
     let (uid1, uid2) = canonical_pair viewer_uid peer_uid
     in case first_row (is_friendship_of (uid1, uid2)) (friendships (core db)) of
       None \<Rightarrow> Inr None
     | Some f \<Rightarrow>
         let blocked = exists_row (\<lambda>b. bl_blocker_uid b = viewer_uid \<and> bl_blocked_uid b = peer_uid \<or>
               bl_blocker_uid b = peer_uid \<and> bl_blocked_uid b = viewer_uid) (blocks (core db));
             (viewer_override, peer_override) =
               (if viewer_uid = uid1
                then (fs_uid1_shares_read_receipts f, fs_uid2_shares_read_receipts f)
                else (fs_uid2_shares_read_receipts f, fs_uid1_shares_read_receipts f))
         in if \<not> read_receipt_is_visible True blocked (visibility_row (core db) viewer_uid)
               viewer_override (visibility_row (core db) peer_uid) peer_override
            then Inr None
            else Inr (case thread_root_id of
                Some thread_root \<Rightarrow> Option.bind
                  (first_row (is_thread_state_of (chat_id, thread_root, peer_uid)) (thread_user_states db))
                  ts_last_read_receipt_message_id
              | None \<Rightarrow> Option.bind
                  (first_row (is_membership_of (chat_id, peer_uid)) (memberships (core db)))
                  gm_last_read_receipt_message_id))"

section \<open>A page of receipts\<close>

text \<open>
  The \<open>HashMap\<close>s of the code are association lists; their keys are keys of the tables that
  the rows were loaded from.
\<close>

definition dm_peers :: "tables \<Rightarrow> uid \<Rightarrow> snowflake list \<Rightarrow> (snowflake \<times> uid) list" where
  "dm_peers db viewer_uid chat_ids =
     List.map_filter (\<lambda>g. case (g_dm_uid1 g, g_dm_uid2 g) of
         (Some first, Some second) \<Rightarrow>
           (if first = viewer_uid then Some (g_id g, second)
            else if second = viewer_uid then Some (g_id g, first) else None)
       | _ \<Rightarrow> None)
       (select_rows (\<lambda>g. g_id g \<in> set chat_ids \<and> g_kind g = Dm) (groups db))"

definition visible_peer ::
  "uid \<Rightarrow> ((uid \<times> uid) \<times> bool option \<times> bool option) list \<Rightarrow> (uid \<times> uid) list \<Rightarrow>
   (uid \<times> read_receipt_visibility) list \<Rightarrow> uid \<Rightarrow> bool" where
  "visible_peer viewer_uid friendship_map blocked_pairs visibility_map peer =
     (let pair = canonical_pair viewer_uid peer;
          visibility = (\<lambda>uid. case map_of visibility_map uid of None \<Rightarrow> ReceiptFriends | Some v \<Rightarrow> v)
      in case map_of friendship_map pair of
           None \<Rightarrow> False
         | Some (uid1_override, uid2_override) \<Rightarrow>
             let (viewer_override, peer_override) =
               (if fst pair = viewer_uid then (uid1_override, uid2_override)
                else (uid2_override, uid1_override))
             in read_receipt_is_visible True (pair \<in> set blocked_pairs) (visibility viewer_uid)
                  viewer_override (visibility peer) peer_override)"

definition visible_dm_peers :: "tables \<Rightarrow> uid \<Rightarrow> snowflake list \<Rightarrow> (snowflake \<times> uid) list" where
  "visible_dm_peers db viewer_uid chat_ids =
     (let peers = dm_peers db viewer_uid chat_ids;
          peer_uids = map snd peers;
          friendship_map = map (\<lambda>f. ((fs_uid1 f, fs_uid2 f),
              fs_uid1_shares_read_receipts f, fs_uid2_shares_read_receipts f))
            (select_rows (\<lambda>f. fs_uid1 f = viewer_uid \<and> fs_uid2 f \<in> set peer_uids \<or>
               fs_uid2 f = viewer_uid \<and> fs_uid1 f \<in> set peer_uids) (friendships db));
          blocked_pairs = map (\<lambda>b. canonical_pair (bl_blocker_uid b) (bl_blocked_uid b))
            (select_rows (\<lambda>b. bl_blocker_uid b = viewer_uid \<and> bl_blocked_uid b \<in> set peer_uids \<or>
               bl_blocker_uid b \<in> set peer_uids \<and> bl_blocked_uid b = viewer_uid) (blocks db));
          visibility_map = map (\<lambda>r. (ux_uid r, ux_read_receipt_visibility r))
            (select_rows (\<lambda>r. ux_uid r \<in> set (peer_uids @ [viewer_uid])) (user_extras db))
      in filter (\<lambda>(_, peer). visible_peer viewer_uid friendship_map blocked_pairs visibility_map peer)
           peers)"

definition visible_chat_receipts ::
  "chat_db \<Rightarrow> uid \<Rightarrow> snowflake list \<Rightarrow> (snowflake \<times> snowflake) list" where
  "visible_chat_receipts db viewer_uid chat_ids =
     (let peers = visible_dm_peers (core db) viewer_uid chat_ids;
          rows = select_rows (\<lambda>m. gm_chat_id m \<in> set (map fst peers) \<and> gm_uid m \<in> set (map snd peers))
            (memberships (core db))
      in List.map_filter (\<lambda>m. map_option (Pair (gm_chat_id m)) (gm_last_read_receipt_message_id m))
           (filter (\<lambda>m. map_of peers (gm_chat_id m) = Some (gm_uid m)) rows))"

definition visible_thread_receipts ::
  "chat_db \<Rightarrow> uid \<Rightarrow> (snowflake \<times> snowflake) list \<Rightarrow> (snowflake \<times> snowflake) list" where
  "visible_thread_receipts db viewer_uid scopes =
     (let peers = visible_dm_peers (core db) viewer_uid (map fst scopes);
          rows = select_rows (\<lambda>s. ts_chat_id s \<in> set (map fst peers) \<and>
              ts_thread_root_id s \<in> set (map snd scopes) \<and> ts_uid s \<in> set (map snd peers))
            (thread_user_states db)
      in List.map_filter
           (\<lambda>s. map_option (Pair (ts_thread_root_id s)) (ts_last_read_receipt_message_id s))
           (filter (\<lambda>s. map_of peers (ts_chat_id s) = Some (ts_uid s)) rows))"

section \<open>Invalidation\<close>

definition dm_chat_id_for_pair :: "tables \<Rightarrow> uid \<Rightarrow> uid \<Rightarrow> snowflake option" where
  "dm_chat_id_for_pair db uid peer_uid =
     (let (uid1, uid2) = canonical_pair uid peer_uid
      in map_option g_id (first_row (\<lambda>g. g_kind g = Dm \<and> g_dm_uid1 g = Some uid1 \<and>
           g_dm_uid2 g = Some uid2) (groups db)))"

definition broadcast_read_receipt_changed_if_dm ::
  "tables \<Rightarrow> snowflake \<Rightarrow> bool \<Rightarrow> uid option \<Rightarrow> snowflake option \<Rightarrow> chat_payload registry \<Rightarrow>
   chat_payload registry" where
  "broadcast_read_receipt_changed_if_dm db chat_id privacy_changed reader_uid thread_root_id r =
     (case dm_participants db chat_id of
        None \<Rightarrow> r
      | Some (first, second) \<Rightarrow>
          broadcast_to_uids [first, second] (WsReadReceiptChanged (ReadReceiptPayload
            \<lparr>rc_chat_id = chat_id,
             rc_privacy_changed = (if privacy_changed then Some True else None),
             rc_reader_uid = reader_uid, rc_thread_root_id = thread_root_id\<rparr>)) r)"

definition broadcast_privacy_changed_for_peers ::
  "tables \<Rightarrow> uid \<Rightarrow> uid list \<Rightarrow> chat_payload registry \<Rightarrow> chat_payload registry" where
  "broadcast_privacy_changed_for_peers db uid peer_uids r =
     (let greater = filter (\<lambda>p. p > uid) peer_uids;
          lesser = filter (\<lambda>p. \<not> p > uid) peer_uids;
          dm_chats =
            List.map_filter (\<lambda>g. case g_dm_uid2 g of
                Some peer \<Rightarrow> if g_kind g = Dm \<and> g_dm_uid1 g = Some uid \<and> peer \<in> set greater
                             then Some (g_id g, peer) else None
              | None \<Rightarrow> None) (groups db) @
            List.map_filter (\<lambda>g. case g_dm_uid1 g of
                Some peer \<Rightarrow> if g_kind g = Dm \<and> g_dm_uid2 g = Some uid \<and> peer \<in> set lesser
                             then Some (g_id g, peer) else None
              | None \<Rightarrow> None) (groups db)
      in fold (\<lambda>(chat_id, peer) r. broadcast_to_uids [uid, peer] (WsReadReceiptChanged
             (ReadReceiptPayload \<lparr>rc_chat_id = chat_id, rc_privacy_changed = Some True,
                rc_reader_uid = None, rc_thread_root_id = None\<rparr>)) r)
           dm_chats r)"

definition broadcast_global_privacy_changed ::
  "tables \<Rightarrow> uid \<Rightarrow> chat_payload registry \<Rightarrow> chat_payload registry" where
  "broadcast_global_privacy_changed db uid r =
     broadcast_privacy_changed_for_peers db uid
       (map fs_uid2 (select_rows (\<lambda>f. fs_uid1 f = uid) (friendships db)) @
        map fs_uid1 (select_rows (\<lambda>f. fs_uid2 f = uid) (friendships db))) r"

definition broadcast_pair_privacy_changed ::
  "tables \<Rightarrow> uid \<Rightarrow> uid \<Rightarrow> chat_payload registry \<Rightarrow> chat_payload registry" where
  "broadcast_pair_privacy_changed db uid peer_uid r =
     (case dm_chat_id_for_pair db uid peer_uid of
        None \<Rightarrow> r
      | Some chat_id \<Rightarrow> broadcast_read_receipt_changed_if_dm db chat_id True None None r)"

section \<open>Rows by key\<close>

lemma distinct_keys_Cons [simp]:
  "distinct_keys key (r # rows) \<longleftrightarrow> (\<forall>r' \<in> set rows. key r' \<noteq> key r) \<and> distinct_keys key rows"
  by (auto simp: distinct_keys_def) (metis image_eqI)

lemma first_row_conj_key:
  assumes "distinct_keys key rows"
  shows "first_row (\<lambda>r. Q r \<and> key r = k) rows =
    Option.bind (first_row (\<lambda>r. key r = k) rows) (\<lambda>r. if Q r then Some r else None)"
  using assms
proof (induction rows)
  case Nil
  then show ?case by simp
next
  case (Cons r rows)
  show ?case
  proof (cases "key r = k")
    case True
    with Cons.prems have "first_row (\<lambda>r. Q r \<and> key r = k) rows = None"
        and "first_row (\<lambda>r. key r = k) rows = None"
      by (auto simp: first_row_None)
    with True show ?thesis by simp
  next
    case False
    with Cons show ?thesis by simp
  qed
qed

text \<open>A \<open>HashMap\<close> collected from keyed rows.\<close>

definition collect_rows :: "('r \<Rightarrow> 'k) \<Rightarrow> ('r \<Rightarrow> 'v option) \<Rightarrow> 'r list \<Rightarrow> ('k \<times> 'v) list" where
  "collect_rows key g rows = List.map_filter (\<lambda>r. map_option (Pair (key r)) (g r)) rows"

lemma collect_rows_simps [simp]:
  "collect_rows key g [] = []"
  "collect_rows key g (r # rows) =
     (case g r of None \<Rightarrow> [] | Some v \<Rightarrow> [(key r, v)]) @ collect_rows key g rows"
  by (simp_all add: collect_rows_def List.map_filter_simps split: option.split)

lemma map_of_collect_rows:
  "distinct_keys key rows \<Longrightarrow>
   map_of (collect_rows key g rows) k = Option.bind (first_row (\<lambda>r. key r = k) rows) g"
proof (induction rows)
  case Nil
  then show ?case by simp
next
  case (Cons r rows)
  show ?case
  proof (cases "key r = k")
    case True
    with Cons.prems have "first_row (\<lambda>r. key r = k) rows = None" by (auto simp: first_row_None)
    with True Cons show ?thesis by (cases "g r") auto
  next
    case False
    with Cons show ?thesis by (cases "g r") auto
  qed
qed

lemma distinct_collect_rows:
  "distinct_keys key rows \<Longrightarrow> distinct (map fst (collect_rows key g rows))"
proof (induction rows)
  case Nil
  then show ?case by simp
next
  case (Cons r rows)
  have "fst ` set (collect_rows key g rows) \<subseteq> key ` set rows"
    by (induction rows) (auto split: option.splits)
  with Cons show ?case by (cases "g r") force+
qed

lemma distinct_keys_select: "distinct_keys key rows \<Longrightarrow> distinct_keys key (select_rows P rows)"
  by (auto simp: distinct_keys_def select_rows_def distinct_map inj_on_def)

lemma map_of_filtered_pairs:
  "distinct (map fst ps) \<Longrightarrow>
   map_of (filter (\<lambda>(k, v). P v) ps) k = Option.bind (map_of ps k) (\<lambda>v. if P v then Some v else None)"
proof (induction ps)
  case Nil
  then show ?case by simp
next
  case (Cons p ps)
  obtain k' v where p: "p = (k', v)" by (cases p)
  have "k' = k \<Longrightarrow> map_of (filter (\<lambda>(k, v). P v) ps) k = None \<and> map_of ps k = None"
    using Cons.prems p by (auto simp: map_of_eq_None_iff image_iff)
  with Cons p show ?case by auto
qed

section \<open>The page agrees with the single receipts\<close>

text \<open>Whether the receipts of \<open>peer\<close> are shown to \<open>viewer\<close>.\<close>

definition receipts_shared :: "tables \<Rightarrow> uid \<Rightarrow> uid \<Rightarrow> bool" where
  "receipts_shared db viewer peer \<longleftrightarrow>
     (\<exists>f \<in> set (friendships db). friendship_key f = canonical_pair viewer peer \<and>
        (let own = (if fs_uid1 f = viewer then fs_uid1_shares_read_receipts f
               else fs_uid2_shares_read_receipts f);
             other = (if fs_uid1 f = viewer then fs_uid2_shares_read_receipts f
               else fs_uid1_shares_read_receipts f)
         in shares_read_receipts (visibility_row db viewer) own \<and>
            shares_read_receipts (visibility_row db peer) other)) \<and>
     \<not> (\<exists>b \<in> set (blocks db). block_key b = (viewer, peer) \<or> block_key b = (peer, viewer))"

definition receipts_keys :: "tables \<Rightarrow> bool" where
  "receipts_keys db \<longleftrightarrow> distinct_keys g_id (groups db) \<and> distinct_keys membership_key (memberships db) \<and>
     distinct_keys friendship_key (friendships db) \<and> distinct_keys ux_uid (user_extras db)"

lemma get_read_receipt_eq:
  assumes "receipts_keys (core db)"
  shows "get_read_receipt db viewer chat_id thread =
    (case dm_peer_for_member (core db) chat_id viewer of
       None \<Rightarrow> Inl (NotFound ''Read receipts are only available for direct messages'')
     | Some peer \<Rightarrow> Inr (if receipts_shared (core db) viewer peer
         then case thread of
             Some t \<Rightarrow> Option.bind (first_row (is_thread_state_of (chat_id, t, peer))
               (thread_user_states db)) ts_last_read_receipt_message_id
           | None \<Rightarrow> Option.bind (first_row (is_membership_of (chat_id, peer)) (memberships (core db)))
               gm_last_read_receipt_message_id
         else None))"
proof (cases "dm_peer_for_member (core db) chat_id viewer")
  case None
  then show ?thesis by (simp add: get_read_receipt_def)
next
  case (Some peer)
  let ?f = "first_row (is_friendship_of (canonical_pair viewer peer)) (friendships (core db))"
  have keys: "distinct_keys friendship_key (friendships (core db))"
    using assms by (simp add: receipts_keys_def)
  have blocked: "exists_row (\<lambda>b. bl_blocker_uid b = viewer \<and> bl_blocked_uid b = peer \<or>
        bl_blocker_uid b = peer \<and> bl_blocked_uid b = viewer) (blocks (core db)) \<longleftrightarrow>
      (\<exists>b \<in> set (blocks (core db)). block_key b = (viewer, peer) \<or> block_key b = (peer, viewer))"
    by (simp add: row_simps block_key_def)
  show ?thesis
  proof (cases ?f)
    case None
    then have "\<not> receipts_shared (core db) viewer peer"
      by (auto simp: receipts_shared_def first_row_None friendship_table.matches_iff)
    with Some None show ?thesis
      by (simp add: get_read_receipt_def Let_def case_prod_beta)
  next
    case (Some f)
    have f: "f \<in> set (friendships (core db))" "friendship_key f = canonical_pair viewer peer"
      using friendship_table.find_unique [OF keys] Some by simp_all
    have only: "f' \<in> set (friendships (core db)) \<Longrightarrow>
        friendship_key f' = canonical_pair viewer peer \<Longrightarrow> f' = f" for f'
      using distinct_keys_eq [OF keys _ f(1)] f(2) by simp
    have uid1: "fst (canonical_pair viewer peer) = fs_uid1 f"
      using f(2) by (simp flip: f(2) add: friendship_key_def)
    have shared: "receipts_shared (core db) viewer peer \<longleftrightarrow>
        (let own = (if fs_uid1 f = viewer then fs_uid1_shares_read_receipts f
               else fs_uid2_shares_read_receipts f);
             other = (if fs_uid1 f = viewer then fs_uid2_shares_read_receipts f
               else fs_uid1_shares_read_receipts f)
         in shares_read_receipts (visibility_row (core db) viewer) own \<and>
            shares_read_receipts (visibility_row (core db) peer) other) \<and>
        \<not> exists_row (\<lambda>b. bl_blocker_uid b = viewer \<and> bl_blocked_uid b = peer \<or>
            bl_blocker_uid b = peer \<and> bl_blocked_uid b = viewer) (blocks (core db))"
      unfolding receipts_shared_def blocked using only f by blast
    show ?thesis
      unfolding get_read_receipt_def \<open>dm_peer_for_member (core db) chat_id viewer = Some peer\<close>
      by (simp add: shared Some Let_def case_prod_beta uid1 read_receipt_is_visible_def eq_commute [of viewer])
        blast
  qed
qed

definition peer_in_row :: "uid \<Rightarrow> group_row \<Rightarrow> uid option" where
  "peer_in_row viewer g =
     (case (g_dm_uid1 g, g_dm_uid2 g) of
        (Some first, Some second) \<Rightarrow> peer_for (first, second) viewer | _ \<Rightarrow> None)"

lemma dm_peers_eq:
  "dm_peers db viewer chat_ids = collect_rows g_id (peer_in_row viewer)
     (select_rows (\<lambda>g. g_id g \<in> set chat_ids \<and> g_kind g = Dm) (groups db))"
  unfolding dm_peers_def collect_rows_def
  by (rule arg_cong [where f = "\<lambda>f. List.map_filter f _"])
    (auto simp: fun_eq_iff peer_for_def peer_in_row_def split: option.split)

lemma dm_peers_lookup:
  assumes "distinct_keys g_id (groups db)"
  shows "map_of (dm_peers db viewer chat_ids) chat =
    (if chat \<in> set chat_ids then dm_peer_for_member db chat viewer else None)"
proof -
  have "map_of (dm_peers db viewer chat_ids) chat =
      Option.bind (first_row (\<lambda>g. (g_id g \<in> set chat_ids \<and> g_kind g = Dm) \<and> g_id g = chat)
        (groups db)) (peer_in_row viewer)"
    by (simp add: dm_peers_eq map_of_collect_rows [OF distinct_keys_select [OF assms]]
        first_row_select)
  also have "\<dots> = (if chat \<in> set chat_ids
      then Option.bind (first_row (\<lambda>g. g_id g = chat \<and> g_kind g = Dm) (groups db))
        (peer_in_row viewer) else None)"
  proof (cases "chat \<in> set chat_ids")
    case True
    then have "first_row (\<lambda>g. (g_id g \<in> set chat_ids \<and> g_kind g = Dm) \<and> g_id g = chat) (groups db) =
        first_row (\<lambda>g. g_id g = chat \<and> g_kind g = Dm) (groups db)"
      by (intro first_row_cong) auto
    with True show ?thesis by simp
  next
    case False
    then have "first_row (\<lambda>g. (g_id g \<in> set chat_ids \<and> g_kind g = Dm) \<and> g_id g = chat) (groups db) = None"
      by (auto simp: first_row_None)
    with False show ?thesis by simp
  qed
  also have "\<dots> = (if chat \<in> set chat_ids then dm_peer_for_member db chat viewer else None)"
    by (auto simp: dm_peer_for_member_def dm_participants_def peer_in_row_def split: option.split
        Option.bind_split)
  finally show ?thesis .
qed

lemma map_of_map_rows:
  "map_of (map (\<lambda>r. (key r, v r)) rows) k = map_option v (first_row (\<lambda>r. key r = k) rows)"
  by (induction rows) auto

lemma visible_peer_exact:
  assumes keys: "receipts_keys db" and peer: "peer \<in> set peer_uids"
  shows "visible_peer viewer
      (map (\<lambda>f. ((fs_uid1 f, fs_uid2 f), fs_uid1_shares_read_receipts f,
            fs_uid2_shares_read_receipts f))
        (select_rows (\<lambda>f. fs_uid1 f = viewer \<and> fs_uid2 f \<in> set peer_uids \<or>
           fs_uid2 f = viewer \<and> fs_uid1 f \<in> set peer_uids) (friendships db)))
      (map (\<lambda>b. canonical_pair (bl_blocker_uid b) (bl_blocked_uid b))
        (select_rows (\<lambda>b. bl_blocker_uid b = viewer \<and> bl_blocked_uid b \<in> set peer_uids \<or>
           bl_blocker_uid b \<in> set peer_uids \<and> bl_blocked_uid b = viewer) (blocks db)))
      (map (\<lambda>r. (ux_uid r, ux_read_receipt_visibility r))
        (select_rows (\<lambda>r. ux_uid r \<in> set (peer_uids @ [viewer])) (user_extras db))) peer \<longleftrightarrow>
    receipts_shared db viewer peer"
    (is "visible_peer _ ?fmap ?blocked ?vmap _ \<longleftrightarrow> _")
proof -
  let ?pair = "canonical_pair viewer peer"
  have fkeys: "distinct_keys friendship_key (friendships db)"
    using keys by (simp add: receipts_keys_def)
  have fmap: "map_of ?fmap ?pair = map_option (\<lambda>f. (fs_uid1_shares_read_receipts f,
      fs_uid2_shares_read_receipts f)) (first_row (\<lambda>f. friendship_key f = ?pair) (friendships db))"
  proof -
    have "map_of ?fmap ?pair = map_option (\<lambda>f. (fs_uid1_shares_read_receipts f,
        fs_uid2_shares_read_receipts f)) (first_row (\<lambda>f. (fs_uid1 f = viewer \<and> fs_uid2 f \<in> set peer_uids \<or>
           fs_uid2 f = viewer \<and> fs_uid1 f \<in> set peer_uids) \<and> friendship_key f = ?pair) (friendships db))"
      by (simp add: map_of_map_rows first_row_select friendship_key_def)
    moreover have "first_row (\<lambda>f. (fs_uid1 f = viewer \<and> fs_uid2 f \<in> set peer_uids \<or>
          fs_uid2 f = viewer \<and> fs_uid1 f \<in> set peer_uids) \<and> friendship_key f = ?pair) (friendships db) =
        first_row (\<lambda>f. friendship_key f = ?pair) (friendships db)"
      using peer by (intro first_row_cong) (auto simp: friendship_key_def canonical_pair_def)
    ultimately show ?thesis by simp
  qed
  have blocked: "?pair \<in> set ?blocked \<longleftrightarrow>
      (\<exists>b \<in> set (blocks db). block_key b = (viewer, peer) \<or> block_key b = (peer, viewer))"
    using peer by (auto simp: row_simps block_key_def image_iff canonical_pair_eq)
  have vis: "(case map_of ?vmap uid of None \<Rightarrow> ReceiptFriends | Some v \<Rightarrow> v) = visibility_row db uid"
    if "uid = viewer \<or> uid = peer" for uid
  proof -
    have "first_row (\<lambda>r. ux_uid r \<in> set (peer_uids @ [viewer]) \<and> ux_uid r = uid) (user_extras db) =
        first_row (\<lambda>r. ux_uid r = uid) (user_extras db)"
      using that peer by (intro first_row_cong) auto
    then show ?thesis
      by (simp add: map_of_map_rows first_row_select visibility_row_def split: option.split)
  qed
  show ?thesis
  proof (cases "first_row (\<lambda>f. friendship_key f = ?pair) (friendships db)")
    case None
    then have "\<not> receipts_shared db viewer peer"
      by (auto simp: receipts_shared_def first_row_None)
    with None show ?thesis by (simp add: visible_peer_def fmap Let_def)
  next
    case (Some f)
    from first_row_Some [OF Some] have f: "f \<in> set (friendships db)" "friendship_key f = ?pair" by auto
    have only: "f' \<in> set (friendships db) \<Longrightarrow> friendship_key f' = ?pair \<Longrightarrow> f' = f" for f'
      using distinct_keys_eq [OF fkeys _ f(1)] f(2) by simp
    have uid1: "fst ?pair = fs_uid1 f" by (simp flip: f(2) add: friendship_key_def)
    have "receipts_shared db viewer peer \<longleftrightarrow>
        (let own = (if fs_uid1 f = viewer then fs_uid1_shares_read_receipts f
               else fs_uid2_shares_read_receipts f);
             other = (if fs_uid1 f = viewer then fs_uid2_shares_read_receipts f
               else fs_uid1_shares_read_receipts f)
         in shares_read_receipts (visibility_row db viewer) own \<and>
            shares_read_receipts (visibility_row db peer) other) \<and> \<not> (?pair \<in> set ?blocked)"
      unfolding receipts_shared_def blocked using f only by blast
    then show ?thesis
      unfolding visible_peer_def Let_def fmap vis [OF disjI1 [OF refl]] vis [OF disjI2 [OF refl]]
      by (simp add: Some uid1 read_receipt_is_visible_def del: set_map) blast
  qed
qed

lemma in_map_snd: "(a, b) \<in> set ps \<Longrightarrow> b \<in> set (map snd ps)"
  by force

lemma visible_dm_peers_lookup:
  assumes keys: "receipts_keys db"
  shows "map_of (visible_dm_peers db viewer chat_ids) chat =
    (if chat \<in> set chat_ids
     then Option.bind (dm_peer_for_member db chat viewer)
       (\<lambda>peer. if receipts_shared db viewer peer then Some peer else None)
     else None)"
proof -
  let ?peers = "dm_peers db viewer chat_ids"
  have groups: "distinct_keys g_id (groups db)" using keys by (simp add: receipts_keys_def)
  have "visible_dm_peers db viewer chat_ids = filter (\<lambda>(_, peer). receipts_shared db viewer peer) ?peers"
    unfolding visible_dm_peers_def Let_def
    by (rule filter_cong) (auto simp del: set_map set_append intro!: visible_peer_exact [OF keys] in_map_snd)
  moreover have "distinct (map fst ?peers)"
    unfolding dm_peers_eq by (rule distinct_collect_rows [OF distinct_keys_select [OF groups]])
  ultimately show ?thesis
    by (simp add: map_of_filtered_pairs dm_peers_lookup [OF groups])
qed

lemma visible_dm_peers_distinct:
  assumes "receipts_keys db"
  shows "distinct (map fst (visible_dm_peers db viewer chat_ids))"
proof -
  have "distinct (map fst (dm_peers db viewer chat_ids))"
    using assms unfolding dm_peers_eq receipts_keys_def
    by (intro distinct_collect_rows distinct_keys_select) simp
  then show ?thesis
    by (simp add: visible_dm_peers_def Let_def distinct_map_filter)
qed

lemma distinct_keys_finer:
  "distinct_keys key rows \<Longrightarrow>
   (\<And>r r'. r \<in> set rows \<Longrightarrow> r' \<in> set rows \<Longrightarrow> key' r = key' r' \<Longrightarrow> key r = key r') \<Longrightarrow>
   distinct_keys key' rows"
  unfolding distinct_keys_def distinct_map
  by (blast intro: inj_onI dest: inj_onD)

lemma visible_peers_ran:
  "map_of peers chat = Some peer \<Longrightarrow> chat \<in> set (map fst peers) \<and> peer \<in> set (map snd peers)"
  by (force dest: map_of_SomeD)

lemma chat_receipt_lookup:
  assumes keys: "receipts_keys (core db)"
  shows "map_of (visible_chat_receipts db viewer chat_ids) chat =
    Option.bind (map_of (visible_dm_peers (core db) viewer chat_ids) chat) (\<lambda>peer.
      Option.bind (first_row (is_membership_of (chat, peer)) (memberships (core db)))
        gm_last_read_receipt_message_id)"
proof -
  let ?peers = "visible_dm_peers (core db) viewer chat_ids"
  let ?rows = "select_rows (\<lambda>m. map_of ?peers (gm_chat_id m) = Some (gm_uid m))
    (select_rows (\<lambda>m. gm_chat_id m \<in> set (map fst ?peers) \<and> gm_uid m \<in> set (map snd ?peers))
       (memberships (core db)))"
  have "distinct_keys membership_key ?rows"
    using keys by (intro distinct_keys_select) (simp add: receipts_keys_def)
  then have "distinct_keys gm_chat_id ?rows"
    by (rule distinct_keys_finer) (auto simp: row_simps membership_key_def)
  moreover have "visible_chat_receipts db viewer chat_ids =
      collect_rows gm_chat_id gm_last_read_receipt_message_id ?rows"
    by (simp add: visible_chat_receipts_def collect_rows_def Let_def select_rows_def)
  ultimately have "map_of (visible_chat_receipts db viewer chat_ids) chat =
      Option.bind (first_row (\<lambda>m. gm_chat_id m = chat) ?rows) gm_last_read_receipt_message_id"
    by (simp add: map_of_collect_rows del: set_map)
  moreover have "first_row (\<lambda>m. gm_chat_id m = chat) ?rows =
      Option.bind (map_of ?peers chat)
        (\<lambda>peer. first_row (is_membership_of (chat, peer)) (memberships (core db)))"
  proof (cases "map_of ?peers chat")
    case None
    then show ?thesis by (auto simp: first_row_select first_row_None)
  next
    case (Some peer)
    with visible_peers_ran [OF Some] show ?thesis
      by (simp add: first_row_select del: set_map)
        (rule first_row_cong, auto simp: is_membership_of_def simp del: set_map)
  qed
  ultimately show ?thesis by (simp add: Option.bind_assoc)
qed

lemma thread_receipt_lookup:
  assumes keys: "receipts_keys (core db)" and states: "distinct_keys thread_state_key (thread_user_states db)"
    and one_chat: "\<And>s s'. s \<in> set (thread_user_states db) \<Longrightarrow> s' \<in> set (thread_user_states db) \<Longrightarrow>
      ts_thread_root_id s = ts_thread_root_id s' \<Longrightarrow> ts_chat_id s = ts_chat_id s'"
    and scope: "(chat, thread) \<in> set scopes"
    and in_chat: "\<And>s. s \<in> set (thread_user_states db) \<Longrightarrow> ts_thread_root_id s = thread \<Longrightarrow> ts_chat_id s = chat"
  shows "map_of (visible_thread_receipts db viewer scopes) thread =
    Option.bind (map_of (visible_dm_peers (core db) viewer (map fst scopes)) chat) (\<lambda>peer.
      Option.bind (first_row (is_thread_state_of (chat, thread, peer)) (thread_user_states db))
        ts_last_read_receipt_message_id)"
proof -
  let ?peers = "visible_dm_peers (core db) viewer (map fst scopes)"
  let ?rows = "select_rows (\<lambda>s. map_of ?peers (ts_chat_id s) = Some (ts_uid s))
    (select_rows (\<lambda>s. ts_chat_id s \<in> set (map fst ?peers) \<and>
        ts_thread_root_id s \<in> set (map snd scopes) \<and> ts_uid s \<in> set (map snd ?peers))
       (thread_user_states db))"
  have "distinct_keys thread_state_key ?rows"
    using states by (intro distinct_keys_select)
  then have "distinct_keys ts_thread_root_id ?rows"
    by (rule distinct_keys_finer) (auto simp: row_simps thread_state_key_def dest: one_chat)
  moreover have "visible_thread_receipts db viewer scopes =
      collect_rows ts_thread_root_id ts_last_read_receipt_message_id ?rows"
    by (simp add: visible_thread_receipts_def collect_rows_def Let_def select_rows_def)
  ultimately have "map_of (visible_thread_receipts db viewer scopes) thread =
      Option.bind (first_row (\<lambda>s. ts_thread_root_id s = thread) ?rows) ts_last_read_receipt_message_id"
    by (simp add: map_of_collect_rows del: set_map)
  moreover have "first_row (\<lambda>s. ts_thread_root_id s = thread) ?rows =
      Option.bind (map_of ?peers chat)
        (\<lambda>peer. first_row (is_thread_state_of (chat, thread, peer)) (thread_user_states db))"
  proof (cases "map_of ?peers chat")
    case None
    then show ?thesis by (auto simp: first_row_select first_row_None dest: in_chat)
  next
    case (Some peer)
    with visible_peers_ran [OF Some] in_map_snd [OF scope] show ?thesis
      by (simp add: first_row_select del: set_map)
        (rule first_row_cong, auto simp: is_thread_state_of_def simp del: set_map dest: in_chat)
  qed
  ultimately show ?thesis by (simp add: Option.bind_assoc)
qed

text \<open>C40: The batched receipts of a page show exactly what the single-chat endpoint shows for each
  chat or thread of the page: the same privacy decision and the same marker, and nothing for
  chats that are not direct chats of the viewer.\<close>

theorem receipt_page_agrees:
  assumes "receipts_keys (core db)" and "distinct_keys thread_state_key (thread_user_states db)"
    and "\<forall>s \<in> set (thread_user_states db). \<forall>s' \<in> set (thread_user_states db).
      ts_thread_root_id s = ts_thread_root_id s' \<longrightarrow> ts_chat_id s = ts_chat_id s'"
    and "(chat, thread) \<in> set scopes"
    and "\<forall>s \<in> set (thread_user_states db). ts_thread_root_id s = thread \<longrightarrow> ts_chat_id s = chat"
  shows "map_of (visible_chat_receipts db viewer (map fst scopes)) chat =
      (case get_read_receipt db viewer chat None of Inr receipt \<Rightarrow> receipt | Inl _ \<Rightarrow> None) \<and>
    map_of (visible_thread_receipts db viewer scopes) thread =
      (case get_read_receipt db viewer chat (Some thread) of Inr receipt \<Rightarrow> receipt | Inl _ \<Rightarrow> None)"
proof
  have chat: "chat \<in> set (map fst scopes)" using assms(4) by force
  show "map_of (visible_chat_receipts db viewer (map fst scopes)) chat =
      (case get_read_receipt db viewer chat None of Inr receipt \<Rightarrow> receipt | Inl _ \<Rightarrow> None)"
    using chat
    by (cases "dm_peer_for_member (core db) chat viewer")
      (simp_all add: chat_receipt_lookup [OF assms(1)] visible_dm_peers_lookup [OF assms(1)]
        get_read_receipt_eq [OF assms(1)] del: set_map)
  have one_chat: "ts_chat_id s = ts_chat_id s'"
    if "s \<in> set (thread_user_states db)" "s' \<in> set (thread_user_states db)"
      "ts_thread_root_id s = ts_thread_root_id s'" for s s'
    using assms(3) that by blast
  have in_chat: "ts_chat_id s = chat"
    if "s \<in> set (thread_user_states db)" "ts_thread_root_id s = thread" for s
    using assms(5) that by blast
  show "map_of (visible_thread_receipts db viewer scopes) thread =
      (case get_read_receipt db viewer chat (Some thread) of Inr receipt \<Rightarrow> receipt | Inl _ \<Rightarrow> None)"
    using chat
    by (cases "dm_peer_for_member (core db) chat viewer")
      (simp_all add: thread_receipt_lookup [OF assms(1,2) one_chat assms(4) in_chat]
        visible_dm_peers_lookup [OF assms(1)] get_read_receipt_eq [OF assms(1)] del: set_map)
qed

section \<open>A direct chat\<close>

definition sample_dm_group :: group_row where
  "sample_dm_group = group_row_of \<lparr>ng_id = 10, ng_name = [], ng_description = None,
     ng_avatar_image_id = None, ng_created_at = 0, ng_visibility = Private, ng_kind = Dm,
     ng_dm_uid1 = Some 1, ng_dm_uid2 = Some 2\<rparr>"

definition sample_member :: "snowflake \<Rightarrow> uid \<Rightarrow> membership_row" where
  "sample_member chat_id uid = membership_row_of 0 \<lparr>ngm_chat_id = chat_id, ngm_uid = uid,
     ngm_role = Member, ngm_joined_at = 0, ngm_join_reason = JoinOther,
     ngm_join_reason_extra = None, ngm_last_read_message_id = None\<rparr>"

definition sample_friends :: friendship_row where
  "sample_friends = friendship_row_of \<lparr>nfs_uid1 = 1, nfs_uid2 = 2, nfs_initiated_by = 1,
     nfs_created_at = 0, nfs_uid1_shares_presence = None, nfs_uid2_shares_presence = None\<rparr>"

definition sample_dm :: chat_db where
  "sample_dm = empty_chat_db\<lparr>
     core := empty_tables\<lparr>groups := [sample_dm_group],
       memberships := [sample_member 10 1,
         (sample_member 10 2)\<lparr>gm_last_read_receipt_message_id := Some 101\<rparr>],
       friendships := [sample_friends]\<rparr>,
     thread_user_states := [\<lparr>ts_chat_id = 10, ts_thread_root_id = 100, ts_uid = 2,
       ts_subscribed_at = 0, ts_archived = False, ts_last_read_message_id = None,
       ts_subscribed = True, ts_last_reactions_read_at = 0,
       ts_last_read_receipt_message_id = Some 105\<rparr>]\<rparr>"

lemmas sample_dm_simps = sample_dm_def sample_dm_group_def sample_member_def sample_friends_def
  group_row_of_def membership_row_of_def friendship_row_of_def empty_chat_db_def empty_tables_def

lemma receipt_page_agrees_witness:
  "map_of (visible_chat_receipts sample_dm 1 [10]) 10 = Some 101 \<and>
   map_of (visible_thread_receipts sample_dm 1 [(10, 100)]) 100 = Some 105"
proof -
  have "receipts_keys (core sample_dm)"
    by (simp add: receipts_keys_def sample_dm_simps membership_key_def)
      (simp add: distinct_keys_def)
  moreover have "get_read_receipt sample_dm 1 10 None = Inr (Some 101)"
    and "get_read_receipt sample_dm 1 10 (Some 100) = Inr (Some 105)"
    by code_simp+
  ultimately show ?thesis
    using receipt_page_agrees [of sample_dm 10 100 "[(10, 100)]" 1]
    by (simp add: sample_dm_simps distinct_keys_def)
qed

end
