(* ===== verification/Threads.thy ===== *)
theory Threads
  imports Message_Text Read_Receipts
begin

text \<open>
  \<open>backend/src/services/threads.rs\<close>: subscriptions and read positions of a thread's users, the
  thread's bookkeeping row (\<open>thread_meta\<close>), the thread lists and the unread counts. A thread is
  named by its root message; replies carry the root's id in \<open>reply_root_id\<close>. The last section
  of \<open>threads.rs\<close>, which joins a page of threads with profiles and previews, is not modelled.
\<close>

definition max_unread_count :: int where
  "max_unread_count = 1000"

text \<open>A surviving published reply of a thread.\<close>

definition live_reply :: "snowflake \<Rightarrow> message_row \<Rightarrow> bool" where
  "live_reply thread_root_id m \<longleftrightarrow>
     m_reply_root_id m = Some thread_root_id \<and> m_deleted_at m = None \<and> m_is_published m"

section \<open>Subscriptions\<close>

text \<open>\<open>now\<close> is \<open>Utc::now()\<close>, \<open>db_now\<close> the column default of \<open>last_reactions_read_at\<close>;
  \<open>DateTime::UNIX_EPOCH\<close> is 0.\<close>

definition new_thread_state ::
  "snowflake \<Rightarrow> snowflake \<Rightarrow> uid \<Rightarrow> timestamp \<Rightarrow> bool \<Rightarrow> timestamp \<Rightarrow> thread_user_state_row" where
  "new_thread_state chat_id thread_root_id uid subscribed_at subscribed db_now =
     \<lparr>ts_chat_id = chat_id, ts_thread_root_id = thread_root_id, ts_uid = uid,
      ts_subscribed_at = subscribed_at, ts_archived = False, ts_last_read_message_id = None,
      ts_subscribed = subscribed, ts_last_reactions_read_at = db_now,
      ts_last_read_receipt_message_id = None\<rparr>"

definition ensure_thread_user_state ::
  "snowflake \<Rightarrow> snowflake \<Rightarrow> uid \<Rightarrow> bool \<Rightarrow> timestamp \<Rightarrow> timestamp \<Rightarrow> chat_db \<Rightarrow> bool \<times> chat_db" where
  "ensure_thread_user_state chat_id thread_root_id uid subscribed now db_now db =
     (let subscribed_at = (if subscribed then now else 0);
          same = is_thread_state_of (chat_id, thread_root_id, uid)
      in (\<not> exists_row same (thread_user_states db),
          db\<lparr>thread_user_states := insert_or_ignore same
               (new_thread_state chat_id thread_root_id uid subscribed_at subscribed db_now)
               (thread_user_states db)\<rparr>))"

definition get_subscription_state ::
  "chat_db \<Rightarrow> snowflake \<Rightarrow> snowflake \<Rightarrow> uid \<Rightarrow> (bool \<times> bool) option" where
  "get_subscription_state db chat_id thread_root_id uid =
     map_option (\<lambda>s. (ts_archived s, ts_subscribed s))
       (first_row (is_thread_state_of (chat_id, thread_root_id, uid)) (thread_user_states db))"

definition ensure_thread_subscription ::
  "snowflake \<Rightarrow> snowflake \<Rightarrow> uid \<Rightarrow> timestamp \<Rightarrow> timestamp \<Rightarrow> chat_db \<Rightarrow> bool \<times> chat_db" where
  "ensure_thread_subscription chat_id thread_root_id uid now db_now db =
     (let same = is_thread_state_of (chat_id, thread_root_id, uid)
      in case get_subscription_state db chat_id thread_root_id uid of
           Some (_, subscribed) \<Rightarrow>
             if subscribed then (False, db)
             else (exists_row same (thread_user_states db),
               db\<lparr>thread_user_states := update_rows same
                    (\<lambda>s. s\<lparr>ts_subscribed_at := now, ts_subscribed := True\<rparr>) (thread_user_states db)\<rparr>)
         | None \<Rightarrow>
             (\<not> exists_row same (thread_user_states db),
              db\<lparr>thread_user_states := insert_or_ignore same
                   (new_thread_state chat_id thread_root_id uid now True db_now)
                   (thread_user_states db)\<rparr>))"

definition unsubscribe_from_thread ::
  "snowflake \<Rightarrow> snowflake \<Rightarrow> uid \<Rightarrow> chat_db \<Rightarrow> bool \<times> chat_db" where
  "unsubscribe_from_thread chat_id thread_root_id uid db =
     (let P = (\<lambda>s. is_thread_state_of (chat_id, thread_root_id, uid) s \<and> ts_subscribed s)
      in (exists_row P (thread_user_states db),
          db\<lparr>thread_user_states := update_rows P (\<lambda>s. s\<lparr>ts_subscribed := False\<rparr>)
               (thread_user_states db)\<rparr>))"

definition unsubscribe_user_from_chat :: "snowflake \<Rightarrow> uid \<Rightarrow> chat_db \<Rightarrow> nat \<times> chat_db" where
  "unsubscribe_user_from_chat chat_id uid db =
     (let P = (\<lambda>s. ts_chat_id s = chat_id \<and> ts_uid s = uid \<and> ts_subscribed s)
      in (count_rows P (thread_user_states db),
          db\<lparr>thread_user_states := update_rows P (\<lambda>s. s\<lparr>ts_subscribed := False\<rparr>)
               (thread_user_states db)\<rparr>))"

definition get_thread_subscriber_uids :: "chat_db \<Rightarrow> snowflake \<Rightarrow> snowflake \<Rightarrow> uid list" where
  "get_thread_subscriber_uids db chat_id thread_root_id =
     map ts_uid (select_rows (\<lambda>s. ts_chat_id s = chat_id \<and> ts_thread_root_id s = thread_root_id \<and>
       ts_subscribed s) (thread_user_states db))"

section \<open>Read positions\<close>

definition after_cursor :: "snowflake option \<Rightarrow> snowflake \<Rightarrow> bool" where
  "after_cursor cursor i \<longleftrightarrow> i > (case cursor of None \<Rightarrow> 0 | Some c \<Rightarrow> c)"

text \<open>The joined rows, cut at the cap.\<close>

definition get_thread_unread_count ::
  "chat_db \<Rightarrow> snowflake \<Rightarrow> uid \<Rightarrow> snowflake option \<Rightarrow> int" where
  "get_thread_unread_count db thread_root_id uid last_read =
     (let rows = concat (map (\<lambda>ts. filter (\<lambda>m. live_reply (ts_thread_root_id ts) m \<and>
              after_cursor last_read (m_id m)) (messages db))
            (select_rows (\<lambda>ts. ts_thread_root_id ts = thread_root_id \<and> ts_uid ts = uid)
              (thread_user_states db)))
      in min (int (length (take (nat max_unread_count) rows))) max_unread_count)"

definition mark_thread_as_read ::
  "snowflake \<Rightarrow> snowflake \<Rightarrow> uid \<Rightarrow> snowflake \<Rightarrow> chat_db \<Rightarrow> bool \<times> chat_db" where
  "mark_thread_as_read chat_id thread_root_id uid message_id db =
     (let moves = (\<lambda>s. is_thread_state_of (chat_id, thread_root_id, uid) s \<and>
            behind (ts_last_read_message_id s) message_id)
      in (exists_row moves (thread_user_states db),
          db\<lparr>thread_user_states := update_rows moves
               (\<lambda>s. s\<lparr>ts_last_read_message_id := Some message_id\<rparr>) (thread_user_states db)\<rparr>))"

definition get_thread_last_read_message_id ::
  "chat_db \<Rightarrow> snowflake \<Rightarrow> snowflake \<Rightarrow> uid \<Rightarrow> snowflake option" where
  "get_thread_last_read_message_id db chat_id thread_root_id uid =
     Option.bind (first_row (is_thread_state_of (chat_id, thread_root_id, uid)) (thread_user_states db))
       ts_last_read_message_id"

record thread_read_state =
  trs_last_read_message_id :: "snowflake option"
  trs_unread_count :: int
  trs_receipt_advanced :: bool

definition mark_thread_read ::
  "snowflake \<Rightarrow> snowflake \<Rightarrow> uid \<Rightarrow> snowflake \<Rightarrow> chat_db \<Rightarrow> thread_read_state \<times> chat_db" where
  "mark_thread_read chat_id thread_root_id uid message_id db =
     (let (_, db) = mark_thread_as_read chat_id thread_root_id uid message_id db;
          (advanced, db) = advance_thread_read_receipt chat_id thread_root_id uid message_id db;
          last_read = get_thread_last_read_message_id db chat_id thread_root_id uid
      in (\<lparr>trs_last_read_message_id = last_read,
           trs_unread_count = get_thread_unread_count db thread_root_id uid last_read,
           trs_receipt_advanced = advanced\<rparr>, db))"

definition anchored :: "snowflake option \<Rightarrow> snowflake list \<Rightarrow> bool" where
  "anchored marker ids = (case marker of None \<Rightarrow> False | Some i \<Rightarrow> i \<in> set ids)"

definition shift_thread_read_pointers_on_delete ::
  "snowflake \<Rightarrow> snowflake list \<Rightarrow> chat_db \<Rightarrow> nat \<times> chat_db" where
  "shift_thread_read_pointers_on_delete thread_root_id deleted_message_ids db =
     (if deleted_message_ids = [] then (0, db)
      else let P = (\<lambda>s. ts_thread_root_id s = thread_root_id \<and>
                 anchored (ts_last_read_message_id s) deleted_message_ids)
           in (count_rows P (thread_user_states db),
               db\<lparr>thread_user_states := update_rows P
                    (\<lambda>s. s\<lparr>ts_last_read_message_id := newest_id
                       (\<lambda>m. live_reply thread_root_id m \<and>
                          (case ts_last_read_message_id s of None \<Rightarrow> False | Some l \<Rightarrow> m_id m < l))
                       (messages db)\<rparr>)
                    (thread_user_states db)\<rparr>))"

section \<open>Browsing threads\<close>

datatype thread_order = OldestFirst | NewestFirst

definition get_chat_threads ::
  "chat_db \<Rightarrow> snowflake \<Rightarrow> snowflake option \<Rightarrow> thread_order \<Rightarrow> nat \<Rightarrow> message_row list" where
  "get_chat_threads db chat_id cursor order limit =
     (let rows = select_rows (\<lambda>m. m_chat_id m = chat_id \<and> m_reply_root_id m = None \<and>
            m_has_thread m \<and> m_is_published m \<and>
            (case cursor of None \<Rightarrow> True
             | Some c \<Rightarrow> (case order of OldestFirst \<Rightarrow> m_id m > c | NewestFirst \<Rightarrow> m_id m < c)))
            (messages db)
      in take limit (case order of OldestFirst \<Rightarrow> sort_key m_id rows
           | NewestFirst \<Rightarrow> sort_key (\<lambda>m. - m_id m) rows))"

definition past_uid :: "uid option \<Rightarrow> uid \<Rightarrow> bool" where
  "past_uid cursor uid = (case cursor of None \<Rightarrow> True | Some c \<Rightarrow> uid > c)"

text \<open>\<open>(SELECT DISTINCT .. LIMIT n) UNION (SELECT ..) ORDER BY 1 LIMIT n\<close>\<close>

definition get_thread_participant_uids ::
  "chat_db \<Rightarrow> snowflake \<Rightarrow> uid option \<Rightarrow> nat \<Rightarrow> uid list" where
  "get_thread_participant_uids db thread_root_id cursor limit =
     (let replies = select_rows (\<lambda>m. live_reply thread_root_id m \<and> past_uid cursor (m_sender_uid m))
            (messages db);
          roots = select_rows (\<lambda>m. m_id m = thread_root_id \<and> m_reply_root_id m = None \<and>
              m_has_thread m \<and> m_is_published m \<and> past_uid cursor (m_sender_uid m)) (messages db);
          reply_uids = take limit (sort (remdups (map m_sender_uid replies)))
      in take limit (sort (remdups (reply_uids @ map m_sender_uid roots))))"

section \<open>Archiving\<close>

definition archive_thread :: "snowflake \<Rightarrow> snowflake \<Rightarrow> uid \<Rightarrow> chat_db \<Rightarrow> bool \<times> chat_db" where
  "archive_thread chat_id thread_root_id uid db =
     (let same = is_thread_state_of (chat_id, thread_root_id, uid)
      in (exists_row same (thread_user_states db),
          db\<lparr>thread_user_states := update_rows same (\<lambda>s. s\<lparr>ts_archived := True\<rparr>)
               (thread_user_states db)\<rparr>))"

definition unarchive_thread :: "snowflake \<Rightarrow> snowflake \<Rightarrow> uid \<Rightarrow> chat_db \<Rightarrow> bool \<times> chat_db" where
  "unarchive_thread chat_id thread_root_id uid db =
     (let same = is_thread_state_of (chat_id, thread_root_id, uid)
      in (exists_row same (thread_user_states db),
          db\<lparr>thread_user_states := update_rows same (\<lambda>s. s\<lparr>ts_archived := False\<rparr>)
               (thread_user_states db)\<rparr>))"

section \<open>Bookkeeping\<close>

definition increment_thread_meta ::
  "snowflake \<Rightarrow> snowflake \<Rightarrow> timestamp \<Rightarrow> chat_db \<Rightarrow> chat_db" where
  "increment_thread_meta chat_id thread_root_id reply_at db =
     db\<lparr>thread_metas := upsert_row (is_thread_meta_of (chat_id, thread_root_id))
          \<lparr>tm_chat_id = chat_id, tm_thread_root_id = thread_root_id, tm_reply_count = 1,
           tm_last_reply_at = Some reply_at\<rparr>
          (\<lambda>r. r\<lparr>tm_reply_count := tm_reply_count r + 1, tm_last_reply_at := Some reply_at\<rparr>)
          (thread_metas db)\<rparr>"

definition set_has_thread :: "snowflake \<Rightarrow> bool \<Rightarrow> chat_db \<Rightarrow> chat_db" where
  "set_has_thread thread_root_id b db =
     db\<lparr>messages := update_rows (\<lambda>m. m_id m = thread_root_id) (\<lambda>m. m\<lparr>m_has_thread := b\<rparr>)
          (messages db)\<rparr>"

definition recalculate_thread_meta :: "snowflake \<Rightarrow> snowflake \<Rightarrow> chat_db \<Rightarrow> chat_db" where
  "recalculate_thread_meta chat_id thread_root_id db =
     (let replies = select_rows (live_reply thread_root_id) (messages db);
          same = is_thread_meta_of (chat_id, thread_root_id);
          last_at = map_option m_created_at (top_by m_created_at replies)
      in if replies \<noteq> []
         then db\<lparr>thread_metas := upsert_row same
                \<lparr>tm_chat_id = chat_id, tm_thread_root_id = thread_root_id,
                 tm_reply_count = int (length replies), tm_last_reply_at = last_at\<rparr>
                (\<lambda>r. r\<lparr>tm_reply_count := int (length replies), tm_last_reply_at := last_at\<rparr>)
                (thread_metas db)\<rparr>
         else set_has_thread thread_root_id False
                (db\<lparr>thread_metas := delete_rows same (thread_metas db)\<rparr>))"

section \<open>Sending in a thread\<close>

record thread_send_state =
  tss_receipt_advanced :: bool
  tss_subscription_changes :: "uid list"

text \<open>The loop over the mentions of the reply.\<close>

fun subscribe_mentioned ::
  "(uid \<Rightarrow> bool) \<Rightarrow> snowflake \<Rightarrow> snowflake \<Rightarrow> timestamp \<Rightarrow> timestamp \<Rightarrow> uid list \<Rightarrow>
   uid list \<times> chat_db \<Rightarrow> uid list \<times> chat_db" where
  "subscribe_mentioned wanted chat_id thread_id now db_now [] s = s"
| "subscribe_mentioned wanted chat_id thread_id now db_now (u # us) (changes, db) =
     (if wanted u
      then let (changed, db) = ensure_thread_subscription chat_id thread_id u now db_now db
           in subscribe_mentioned wanted chat_id thread_id now db_now us
                (if changed then changes @ [u] else changes, db)
      else subscribe_mentioned wanted chat_id thread_id now db_now us (changes, db))"

definition record_thread_send ::
  "message_response \<Rightarrow> uid list \<Rightarrow> message_row \<Rightarrow> bool \<Rightarrow> bool \<Rightarrow> timestamp \<Rightarrow> timestamp \<Rightarrow>
   chat_db \<Rightarrow> thread_send_state \<times> chat_db" where
  "record_thread_send response members thread_root publish_immediately notify_mentions now db_now db =
     (let chat_id = r_chat_id response;
          thread_id = m_id thread_root;
          uid = u_uid (r_sender response);
          (subscribed, db) = ensure_thread_subscription chat_id thread_id uid now db_now db;
          changes = (if subscribed then [uid] else []);
          (_, db) = mark_thread_as_read chat_id thread_id uid (r_id response) db;
          (advanced, db) = advance_thread_read_receipt chat_id thread_id uid (r_id response) db;
          (changes, db) =
            (if m_sender_uid thread_root \<noteq> uid \<and> m_sender_uid thread_root \<in> set members
             then let (created, db) = ensure_thread_user_state chat_id thread_id
                        (m_sender_uid thread_root) True now db_now db
                  in (if created then changes @ [m_sender_uid thread_root] else changes, db)
             else (changes, db));
          (changes, db) =
            (case (notify_mentions, r_message response) of
               (True, Some txt) \<Rightarrow> subscribe_mentioned (\<lambda>u. u \<noteq> uid \<and> u \<in> set members)
                  chat_id thread_id now db_now (extract_mention_uids txt) (changes, db)
             | _ \<Rightarrow> (changes, db));
          db = (if publish_immediately
                then set_has_thread thread_id True
                       (increment_thread_meta chat_id thread_id (r_created_at response) db)
                else db)
      in (\<lparr>tss_receipt_advanced = advanced, tss_subscription_changes = changes\<rparr>, db))"

section \<open>Announcements\<close>

definition build_thread_update_payload ::
  "chat_db \<Rightarrow> snowflake \<Rightarrow> snowflake \<Rightarrow> thread_update_payload option" where
  "build_thread_update_payload db chat_id thread_root_id =
     map_option (\<lambda>root_msg.
         let (reply_count, last_reply_at) =
           (case first_row (is_thread_meta_of (chat_id, thread_root_id)) (thread_metas db) of
              Some tm \<Rightarrow> (tm_reply_count tm,
                case tm_last_reply_at tm of Some t \<Rightarrow> t | None \<Rightarrow> m_created_at root_msg)
            | None \<Rightarrow> (0, m_created_at root_msg))
         in \<lparr>tu_thread_root_id = thread_root_id, tu_chat_id = chat_id,
             tu_last_reply_at = last_reply_at, tu_reply_count = reply_count\<rparr>)
       (first_row (\<lambda>m. m_id m = thread_root_id \<and> m_chat_id m = chat_id \<and> m_reply_root_id m = None \<and>
          m_is_published m) (messages db))"

definition broadcast_thread_update_to_uids ::
  "chat_db \<Rightarrow> uid list \<Rightarrow> snowflake \<Rightarrow> snowflake \<Rightarrow> chat_payload registry \<Rightarrow> chat_payload registry" where
  "broadcast_thread_update_to_uids db target_uids chat_id thread_root_id r =
     (if target_uids = [] then r
      else case build_thread_update_payload db chat_id thread_root_id of
          None \<Rightarrow> r
        | Some payload \<Rightarrow> broadcast_to_uids target_uids (WsThreadUpdate (ThreadUpdatePayload payload)) r)"

definition broadcast_thread_update_to_subscribers ::
  "chat_db \<Rightarrow> snowflake \<Rightarrow> snowflake \<Rightarrow> chat_payload registry \<Rightarrow> chat_payload registry" where
  "broadcast_thread_update_to_subscribers db chat_id thread_root_id r =
     broadcast_thread_update_to_uids db (get_thread_subscriber_uids db chat_id thread_root_id)
       chat_id thread_root_id r"

definition broadcast_thread_membership_changed_to_user ::
  "chat_db \<Rightarrow> uid \<Rightarrow> snowflake \<Rightarrow> snowflake \<Rightarrow> chat_payload registry \<Rightarrow> chat_payload registry" where
  "broadcast_thread_membership_changed_to_user db uid chat_id thread_root_id r =
     (let (archived, subscribed) =
        (case get_subscription_state db chat_id thread_root_id uid of
           None \<Rightarrow> (False, False) | Some s \<Rightarrow> s)
      in broadcast_to_uids [uid] (WsThreadMembershipChanged (ThreadMembershipPayload
           \<lparr>tc_thread_root_id = thread_root_id, tc_chat_id = chat_id,
            tc_status = Some \<lparr>st_subscribed = subscribed, st_archived = archived\<rparr>\<rparr>)) r)"

section \<open>The inbox\<close>

record thread_list_row =
  tl_chat_id :: snowflake
  tl_chat_kind :: group_kind
  tl_dm_uid1 :: "uid option"
  tl_dm_uid2 :: "uid option"
  tl_thread_root_id :: snowflake
  tl_chat_name :: ustr
  tl_chat_avatar_image_id :: "snowflake option"
  tl_reply_count :: int
  tl_last_reply_at :: timestamp
  tl_subscribed_at :: timestamp
  tl_archived :: bool
  tl_last_read_message_id :: "snowflake option"

text \<open>\<open>COALESCE(tm.last_reply_at, ts.subscribed_at)\<close>\<close>

definition activity_at :: "chat_db \<Rightarrow> thread_user_state_row \<Rightarrow> timestamp" where
  "activity_at db ts =
     (case Option.bind (first_row (is_thread_meta_of (ts_chat_id ts, ts_thread_root_id ts))
             (thread_metas db)) tm_last_reply_at of
        Some t \<Rightarrow> t | None \<Rightarrow> ts_subscribed_at ts)"

text \<open>The subscriptions whose root can be shown.\<close>

definition listed_subscription :: "chat_db \<Rightarrow> uid \<Rightarrow> thread_user_state_row \<Rightarrow> bool" where
  "listed_subscription db uid ts \<longleftrightarrow>
     ts_uid ts = uid \<and> ts_subscribed ts \<and>
     exists_row (\<lambda>m. m_id m = ts_thread_root_id ts \<and> m_reply_root_id m = None \<and> m_has_thread m \<and>
       m_is_published m) (messages db)"

text \<open>The avatar's storage key is left as the id of the media row it is looked up with.\<close>

definition get_user_threads ::
  "chat_db \<Rightarrow> uid \<Rightarrow> nat \<Rightarrow> timestamp option \<Rightarrow> bool \<Rightarrow> snowflake option \<Rightarrow> thread_list_row list" where
  "get_user_threads db uid limit before_cursor archived root_id =
     (let states = select_rows (\<lambda>ts. listed_subscription db uid ts \<and> ts_archived ts = archived \<and>
            (case root_id of None \<Rightarrow> True | Some i \<Rightarrow> ts_thread_root_id ts = i) \<and>
            (case before_cursor of None \<Rightarrow> True | Some c \<Rightarrow> activity_at db ts < c))
            (thread_user_states db);
          rows = concat (map (\<lambda>ts. map (\<lambda>g.
              \<lparr>tl_chat_id = ts_chat_id ts, tl_chat_kind = g_kind g, tl_dm_uid1 = g_dm_uid1 g,
               tl_dm_uid2 = g_dm_uid2 g, tl_thread_root_id = ts_thread_root_id ts,
               tl_chat_name = g_name g, tl_chat_avatar_image_id = g_avatar_image_id g,
               tl_reply_count = (case first_row (is_thread_meta_of (ts_chat_id ts, ts_thread_root_id ts))
                   (thread_metas db) of None \<Rightarrow> 0 | Some tm \<Rightarrow> tm_reply_count tm),
               tl_last_reply_at = activity_at db ts, tl_subscribed_at = ts_subscribed_at ts,
               tl_archived = ts_archived ts, tl_last_read_message_id = ts_last_read_message_id ts\<rparr>)
             (select_rows (\<lambda>g. g_id g = ts_chat_id ts) (groups (core db)))) states)
      in take limit (sort_key (\<lambda>row. - tl_last_reply_at row) rows))"

record unread_thread_summary =
  uts_unread_thread_count :: int
  uts_archived_unread_thread_count :: int
  uts_unread_message_count :: int
  uts_archived_unread_message_count :: int

definition unread_replies :: "chat_db \<Rightarrow> thread_user_state_row \<Rightarrow> message_row list" where
  "unread_replies db ts = select_rows (\<lambda>m. live_reply (ts_thread_root_id ts) m \<and>
     after_cursor (ts_last_read_message_id ts) (m_id m)) (messages db)"

text \<open>Threads with an unread reply are counted exactly; the lateral join stops at the cap in
  each thread, and the outer query stops at the cap again.\<close>

definition unread_threads :: "chat_db \<Rightarrow> thread_user_state_row list \<Rightarrow> int" where
  "unread_threads db subs = int (length (filter (\<lambda>ts. unread_replies db ts \<noteq> []) subs))"

definition unread_messages_capped :: "chat_db \<Rightarrow> thread_user_state_row list \<Rightarrow> int" where
  "unread_messages_capped db subs =
     int (length (take (nat max_unread_count)
       (concat (map (\<lambda>ts. take (nat max_unread_count) (unread_replies db ts)) subs))))"

definition get_unread_summary_counts :: "chat_db \<Rightarrow> uid \<Rightarrow> unread_thread_summary" where
  "get_unread_summary_counts db uid =
     (let subs = select_rows (listed_subscription db uid) (thread_user_states db);
          active = filter (\<lambda>ts. \<not> ts_archived ts) subs;
          archived = filter ts_archived subs
      in \<lparr>uts_unread_thread_count = unread_threads db active,
          uts_archived_unread_thread_count = unread_threads db archived,
          uts_unread_message_count = unread_messages_capped db active,
          uts_archived_unread_message_count = unread_messages_capped db archived\<rparr>)"

end
