(* ===== verification/System_Messages.thy ===== *)
theory System_Messages
  imports Threads
begin

text \<open>
  \<open>backend/src/services/system_messages.rs\<close>: who sees the notices about members joining and
  leaving, and the link destinations stored in the text of a system message. The JSON printer
  and parser (\<open>serde_json\<close>) are parameters.
\<close>

section \<open>Membership notices\<close>

text \<open>\<open>NON_MEMBERSHIP_PREDICATE\<close> and \<open>MEMBERSHIP_ALLOWED_PREDICATE\<close> of the SQL queries.\<close>

definition not_membership :: "message_row \<Rightarrow> bool" where
  "not_membership m = (case m_system_kind m of None \<Rightarrow> True | Some k \<Rightarrow> \<not> is_membership k)"

definition membership_allowed :: "group_row \<Rightarrow> membership_row \<Rightarrow> bool" where
  "membership_allowed g m \<longleftrightarrow>
     g_kind g = Dm \<or> g_membership_message_visibility g = VisMembers \<or>
     g_membership_message_visibility g = VisAdmins \<and> gm_role m = Admin"

definition hides_membership_messages :: "bool \<Rightarrow> group_kind \<Rightarrow> snowflake option \<Rightarrow> bool" where
  "hides_membership_messages show kind thread_id \<longleftrightarrow> \<not> show \<and> kind = Group \<and> thread_id = None"

definition load_membership_message_filter :: "tables \<Rightarrow> uid \<Rightarrow> snowflake \<Rightarrow> db_error + bool" where
  "load_membership_message_filter db uid chat_id =
     and_then (load_chat_settings_for_chat db uid chat_id) (\<lambda>(show, kind, policy).
       Inr (hides_membership_messages (show \<and> mp_can_view policy) kind None))"

definition broadcast_policy :: "tables \<Rightarrow> snowflake \<Rightarrow> 'p registry \<Rightarrow> 'p registry" where
  "broadcast_policy db chat_id r =
     (let uids = member_uids db chat_id (\<lambda>_. True)
      in invalidate_unread uids (broadcast_to_uids uids (WsMembershipMessagePolicyChanged chat_id) r))"

section \<open>Stored link destinations\<close>

fun decimal_digits :: "nat \<Rightarrow> ustr" where
  "decimal_digits n = (if n < 10 then [48 + n] else decimal_digits (n div 10) @ [48 + n mod 10])"

declare decimal_digits.simps [simp del]

definition show_int :: "int \<Rightarrow> ustr" where
  "show_int i = (if i < 0 then 45 # decimal_digits (nat (- i)) else decimal_digits (nat i))"

text \<open>\<open>serde_json\<close> keeps the keys of an object in order.\<close>

definition with_user_json :: "ustr \<Rightarrow> uid \<Rightarrow> json" where
  "with_user_json txt uid =
     JObj [(ascii ''links'', JObj [(ascii ''uid'', JNumber (Integer uid))]), (ascii ''text'', JStr txt)]"

definition with_message_json :: "ustr \<Rightarrow> snowflake \<Rightarrow> json" where
  "with_message_json txt message_id =
     JObj [(ascii ''links'', JObj [(ascii ''messageId'', JStr (show_int message_id))]),
       (ascii ''text'', JStr txt)]"

definition with_user :: "(json \<Rightarrow> ustr) \<Rightarrow> ustr \<Rightarrow> uid \<Rightarrow> ustr" where
  "with_user print_json txt uid = print_json (with_user_json txt uid)"

definition with_message :: "(json \<Rightarrow> ustr) \<Rightarrow> ustr \<Rightarrow> snowflake \<Rightarrow> ustr" where
  "with_message print_json txt message_id = print_json (with_message_json txt message_id)"

definition obj_field :: "string \<Rightarrow> (ustr \<times> json) list \<Rightarrow> json option" where
  "obj_field k kvs = map_of kvs (ascii k)"

text \<open>\<open>Option<i32>\<close> and \<open>serde_i64_string::opt\<close>; \<open>None\<close> is a decoding error.\<close>

definition decode_opt_uid :: "json option \<Rightarrow> uid option option" where
  "decode_opt_uid v =
     (case v of None \<Rightarrow> Some None | Some JNull \<Rightarrow> Some None
      | Some (JNumber (Integer n)) \<Rightarrow> if - (2 ^ 31) \<le> n \<and> n < 2 ^ 31 then Some (Some n) else None
      | _ \<Rightarrow> None)"

definition decode_opt_i64 :: "json option \<Rightarrow> snowflake option option" where
  "decode_opt_i64 v =
     (case v of None \<Rightarrow> Some None | Some JNull \<Rightarrow> Some None
      | Some (JNumber (Integer n)) \<Rightarrow> if - (2 ^ 63) \<le> n \<and> n < 2 ^ 63 then Some (Some n) else None
      | Some (JStr s) \<Rightarrow> map_option Some (parse_i64 s)
      | _ \<Rightarrow> None)"

definition decode_links :: "json \<Rightarrow> system_message_links option" where
  "decode_links v =
     (case v of
        JObj kvs \<Rightarrow>
          Option.bind (decode_opt_uid (obj_field ''uid'' kvs)) (\<lambda>uid.
            map_option (\<lambda>i. \<lparr>sl_uid = uid, sl_message_id = i\<rparr>)
              (decode_opt_i64 (obj_field ''messageId'' kvs)))
      | _ \<Rightarrow> None)"

definition decode_stored :: "json \<Rightarrow> (ustr \<times> system_message_links) option" where
  "decode_stored v =
     (case v of
        JObj kvs \<Rightarrow>
          (case (obj_field ''text'' kvs, obj_field ''links'' kvs) of
             (Some (JStr txt), Some links) \<Rightarrow> map_option (Pair txt) (decode_links links)
           | _ \<Rightarrow> None)
      | _ \<Rightarrow> None)"

definition decode ::
  "(ustr \<Rightarrow> json option) \<Rightarrow> message_type \<Rightarrow> ustr option \<Rightarrow> ustr option \<times> system_message_links option" where
  "decode parse_json kind body =
     (case (if kind = System then Option.bind (Option.bind body parse_json) decode_stored else None) of
        Some (txt, links) \<Rightarrow> (Some txt, Some links)
      | None \<Rightarrow> (body, None))"

section \<open>Numbers\<close>

lemma foldl_digits: "foldl (\<lambda>n c. 10 * n + (int c - 48)) k (ds @ [d]) =
    10 * foldl (\<lambda>n c. 10 * n + (int c - 48)) k ds + (int d - 48)"
  by simp

lemma decimal_digits_value: "digits_value (decimal_digits n) = int n"
proof (induction n rule: less_induct)
  case (less n)
  show ?case
  proof (cases "n < 10")
    case True
    then show ?thesis by (simp add: decimal_digits.simps [of n] digits_value_def)
  next
    case False
    then have "digits_value (decimal_digits (n div 10)) = int (n div 10)" by (intro less.IH) simp
    then show ?thesis using False
      by (simp add: decimal_digits.simps [of n] digits_value_def) (simp add: zdiv_int zmod_int)
  qed
qed

lemma decimal_digits_ok: "decimal_digits n \<noteq> [] \<and> list_all is_digit (decimal_digits n)"
proof (induction n rule: less_induct)
  case (less n)
  show ?case
  proof (cases "n < 10")
    case True
    then show ?thesis by (simp add: decimal_digits.simps [of n] is_digit_def)
  next
    case False
    then have "list_all is_digit (decimal_digits (n div 10))" using less.IH [of "n div 10"] by simp
    moreover have "is_digit (48 + n mod 10)"
      using mod_less_divisor [of 10 n] by (simp add: is_digit_def)
    ultimately show ?thesis using False by (simp add: decimal_digits.simps [of n])
  qed
qed

lemma parse_signed_show:
  assumes "- b \<le> i" and "i < b"
  shows "parse_signed b (show_int i) = Some i"
proof -
  obtain c cs where c: "decimal_digits (nat i) = c # cs"
    using decimal_digits_ok [of "nat i"] by (cases "decimal_digits (nat i)") auto
  then have "is_digit c" using decimal_digits_ok [of "nat i"] by simp
  then show ?thesis
    using assms decimal_digits_ok [of "nat i"] decimal_digits_ok [of "nat (- i)"]
      decimal_digits_value [of "nat i"] decimal_digits_value [of "nat (- i)"] c
    by (auto simp: parse_signed_def show_int_def is_digit_def Let_def split: list.split)
qed

text \<open>Link destinations survive storage, ids included whatever their size.\<close>

lemma stored_links_roundtrip:
  assumes "\<And>v. parse_json (print_json v) = Some v"
  shows "- (2 ^ 31) \<le> uid \<Longrightarrow> uid < 2 ^ 31 \<Longrightarrow>
      decode parse_json System (Some (with_user print_json txt uid)) =
        (Some txt, Some \<lparr>sl_uid = Some uid, sl_message_id = None\<rparr>)"
    and "- (2 ^ 63) \<le> i \<Longrightarrow> i < 2 ^ 63 \<Longrightarrow>
      decode parse_json System (Some (with_message print_json txt i)) =
        (Some txt, Some \<lparr>sl_uid = None, sl_message_id = Some i\<rparr>)"
  using assms
  by (simp_all add: decode_def with_user_def with_user_json_def with_message_def
      with_message_json_def decode_stored_def decode_links_def obj_field_def decode_opt_uid_def
      decode_opt_i64_def parse_i64_def parse_signed_show ascii_def)

end
