(* ===== verification/Message_View.thy ===== *)
theory Message_View
  imports Threads System_Messages "HOL-Library.List_Lexorder"
begin

text \<open>
  How message rows become the responses a reader gets: \<open>attach_metadata\<close> and its helpers in
  \<open>backend/src/services/messages.rs\<close> and the forward origins of \<open>services/single_forwarding.rs\<close>.
  The code loads everything a page needs in a fixed number of queries; \<open>message_view\<close> says what
  one message shows, and the two agree. The queries are taken to succeed: a failed one only leaves
  its part of the page empty.
\<close>

section \<open>Rows beside the chat tables\<close>

record sticker_row =
  stk_id :: snowflake
  stk_media_id :: snowflake
  stk_emoji :: ustr
  stk_name :: "ustr option"
  stk_description :: "ustr option"
  stk_created_at :: timestamp

record stored_media =
  md_id :: snowflake
  md_content_type :: ustr
  md_storage_key :: ustr
  md_size :: int
  md_width :: "int option"
  md_height :: "int option"

record favorite_sticker =
  fav_uid :: uid
  fav_sticker_id :: snowflake

record forwarded_bundle =
  fb_id :: snowflake
  fb_created_by_uid :: uid
  fb_created_at :: timestamp
  fb_item_count :: int
  fb_payload :: json
  fb_child_bundle_ids :: "snowflake list"
  fb_preview :: json

record preview_item =
  fp_original_message_id :: snowflake
  fp_original_chat_id :: snowflake
  fp_message :: "ustr option"
  fp_message_type :: message_type
  fp_sender_uid :: uid
  fp_original_created_at :: timestamp
  fp_attachments :: "ustr list"
  fp_sticker :: "ustr option"
  fp_mention_uids :: "uid list"

record preview_snapshot =
  ps_total :: nat
  ps_contains_forwarded_messages :: bool
  ps_messages :: "preview_item list"

text \<open>
  What else a response is made of: the sticker, media and bundle tables, the forum's account
  tables, the public URL of a storage key, the avatar of an account (the avatar files, \<open>None\<close> where
  avatars are not configured), and the JSON readers of \<open>serde\<close>.
\<close>

record view_context =
  vc_stickers :: "sticker_row list"
  vc_media :: "stored_media list"
  vc_favorites :: "favorite_sticker list"
  vc_bundles :: "forwarded_bundle list"
  vc_discuz :: discuz_tables
  vc_public_url :: "ustr \<Rightarrow> ustr"
  vc_avatar :: "uid \<Rightarrow> ustr option"
  vc_parse_json :: "ustr \<Rightarrow> json option"
  vc_decode_preview :: "json \<Rightarrow> preview_item list option"

type_synonym profiles = "uid \<rightharpoonup> user_profile"
type_synonym avatars = "uid \<Rightarrow> ustr option"

definition lookup_avatars :: "view_context \<Rightarrow> uid list \<Rightarrow> avatars" where
  "lookup_avatars vc uids = (\<lambda>uid. if uid \<in> set uids then vc_avatar vc uid else None)"

section \<open>Accounts in responses\<close>

definition build_sender :: "uid \<Rightarrow> avatars \<Rightarrow> profiles \<Rightarrow> user" where
  "build_sender uid user_avatars user_profiles =
     (let profile = user_profiles uid
      in \<lparr>u_uid = uid, u_avatar_url = user_avatars uid,
          u_name = Option.bind profile upr_username,
          u_gender = (case profile of None \<Rightarrow> 0 | Some p \<Rightarrow> upr_gender p),
          u_user_group = Option.bind profile upr_user_group\<rparr>)"

definition build_mention_info :: "uid \<Rightarrow> avatars \<Rightarrow> profiles \<Rightarrow> mention_info" where
  "build_mention_info uid user_avatars user_profiles =
     (let profile = user_profiles uid
      in \<lparr>mi_uid = uid, mi_username = Option.bind profile upr_username,
          mi_avatar_url = user_avatars uid,
          mi_gender = (case profile of None \<Rightarrow> 0 | Some p \<Rightarrow> upr_gender p),
          mi_user_group = Option.bind profile upr_user_group\<rparr>)"

section \<open>Previews\<close>

record message_preview_input =
  in_system_kind :: "system_message_kind option"
  in_forwarded_from_name :: "ustr option"
  in_id :: snowflake
  in_client_generated_id :: ustr
  in_created_at :: timestamp
  in_sender :: user
  in_message :: "ustr option"
  in_message_type :: message_type
  in_sticker_id :: "snowflake option"
  in_attachments :: "ustr list"
  in_deleted_at :: "timestamp option"
  in_mention_source :: "ustr option"
  in_mention_uids :: "uid list option"

definition build_message_preview ::
  "(ustr \<Rightarrow> json option) \<Rightarrow> message_preview_input \<Rightarrow> (snowflake \<Rightarrow> ustr option) \<Rightarrow> avatars \<Rightarrow> profiles \<Rightarrow>
   message_preview" where
  "build_message_preview parse_json input sticker_emoji user_avatars user_profiles =
     (let is_deleted = (in_deleted_at input \<noteq> None);
          unless_deleted = (\<lambda>x. if is_deleted then None else x);
          (body, links) = decode parse_json (in_message_type input) (in_message input);
          info = (\<lambda>uid. build_mention_info uid user_avatars user_profiles)
      in \<lparr>pv_system_kind = in_system_kind input,
          pv_system_links = (if is_deleted then None else links),
          pv_forwarded_from_name = unless_deleted (in_forwarded_from_name input),
          pv_id = in_id input, pv_client_generated_id = in_client_generated_id input,
          pv_created_at = in_created_at input, pv_sender = in_sender input,
          pv_message = unless_deleted body, pv_message_type = in_message_type input,
          pv_sticker = unless_deleted (Option.bind (in_sticker_id input) sticker_emoji),
          pv_attachments = (if is_deleted then [] else in_attachments input),
          pv_is_deleted = is_deleted,
          pv_mentions = (case unless_deleted (in_mention_source input) of
              Some txt \<Rightarrow> map info (extract_mention_uids txt)
            | None \<Rightarrow> (case in_mention_uids input of Some uids \<Rightarrow> map info uids | None \<Rightarrow> []))\<rparr>)"

definition redact_deleted_message_response :: "message_response \<Rightarrow> message_response" where
  "redact_deleted_message_response r =
     (if \<not> r_is_deleted r then r
      else r\<lparr>r_message := None, r_system_links := None, r_sticker := None, r_has_attachments := False,
             r_attachments := [], r_reactions := [], r_mentions := [], r_forwarded_preview := None,
             r_forwarded_from := None\<rparr>)"

section \<open>Forward origins\<close>

text \<open>Association by id; a row is looked up with \<open>row_with_id\<close>.\<close>

record forward_origins =
  fo_originals :: "message_row list"
  fo_replies :: "message_row list"

definition row_with_id :: "message_row list \<Rightarrow> snowflake \<Rightarrow> message_row option" where
  "row_with_id rows i = first_row (\<lambda>m. m_id m = i) rows"

definition load_messages :: "chat_db \<Rightarrow> snowflake list \<Rightarrow> message_row list" where
  "load_messages db ids = select_rows (\<lambda>m. m_id m \<in> set ids) (messages db)"

definition load_attribution :: "chat_db \<Rightarrow> message_row list \<Rightarrow> forward_origins" where
  "load_attribution db sources =
     \<lparr>fo_originals = load_messages db
        (List.map_filter m_forwarded_from_message_id (filter (\<lambda>m. m_deleted_at m = None) sources)),
      fo_replies = []\<rparr>"

definition load_origins :: "chat_db \<Rightarrow> message_row list \<Rightarrow> forward_origins" where
  "load_origins db sources =
     (let originals = fo_originals (load_attribution db sources);
          replies = filter (\<lambda>m. m_is_published m \<and> not_membership m)
            (load_messages db (List.map_filter m_reply_to_id originals));
          nested = filter (\<lambda>i. row_with_id originals i = None)
            (List.map_filter m_forwarded_from_message_id replies)
      in \<lparr>fo_originals = originals @ load_messages db nested, fo_replies = replies\<rparr>)"

definition origin_uids :: "forward_origins \<Rightarrow> uid list" where
  "origin_uids origins =
     map m_sender_uid (fo_originals origins @ fo_replies origins) @
     concat (map (\<lambda>m. case m_message m of None \<Rightarrow> [] | Some txt \<Rightarrow> extract_mention_uids txt)
       (filter (\<lambda>m. m_deleted_at m = None) (fo_replies origins)))"

definition original_of :: "forward_origins \<Rightarrow> message_row \<Rightarrow> message_row option" where
  "original_of origins m =
     (if m_deleted_at m \<noteq> None \<or> m_message_type m = Sticker then None
      else Option.bind (m_forwarded_from_message_id m) (row_with_id (fo_originals origins)))"

definition name_for :: "forward_origins \<Rightarrow> message_row \<Rightarrow> profiles \<Rightarrow> ustr option" where
  "name_for origins m user_profiles =
     Option.bind (original_of origins m) (\<lambda>original.
       Option.bind (user_profiles (m_sender_uid original)) upr_username)"

definition reply_preview ::
  "(ustr \<Rightarrow> json option) \<Rightarrow> forward_origins \<Rightarrow> avatars \<Rightarrow> profiles \<Rightarrow> (snowflake \<Rightarrow> ustr option) \<Rightarrow>
   (snowflake \<Rightarrow> attachment list) \<Rightarrow> message_row \<Rightarrow> message_preview" where
  "reply_preview parse_json origins user_avatars user_profiles sticker_emoji attached reply =
     build_message_preview parse_json
       \<lparr>in_system_kind = m_system_kind reply,
        in_forwarded_from_name = name_for origins reply user_profiles, in_id = m_id reply,
        in_client_generated_id = m_client_generated_id reply, in_created_at = m_created_at reply,
        in_sender = build_sender (m_sender_uid reply) user_avatars user_profiles,
        in_message = m_message reply, in_message_type = m_message_type reply,
        in_sticker_id = m_sticker_id reply, in_attachments = map at_kind (attached (m_id reply)),
        in_deleted_at = m_deleted_at reply, in_mention_source = m_message reply,
        in_mention_uids = None\<rparr> sticker_emoji user_avatars user_profiles"

definition info_for ::
  "(ustr \<Rightarrow> json option) \<Rightarrow> forward_origins \<Rightarrow> avatars \<Rightarrow> profiles \<Rightarrow> (snowflake \<Rightarrow> ustr option) \<Rightarrow>
   (snowflake \<Rightarrow> attachment list) \<Rightarrow> message_row \<Rightarrow> forwarded_from_info option" where
  "info_for parse_json origins user_avatars user_profiles sticker_emoji attached m =
     map_option (\<lambda>original.
       \<lparr>ff_sender = build_sender (m_sender_uid original) user_avatars user_profiles,
        ff_original_chat_id = m_chat_id original, ff_original_message_id = m_id original,
        ff_original_reply_to = map_option
          (reply_preview parse_json origins user_avatars user_profiles sticker_emoji attached)
          (Option.bind (m_reply_to_id original) (row_with_id (fo_replies origins)))\<rparr>)
       (original_of origins m)"

section \<open>Forwarded bundles\<close>

text \<open>One missing or unreadable bundle fails the load.\<close>

definition load_forwarded_bundle_previews ::
  "view_context \<Rightarrow> snowflake list \<Rightarrow> app_error + (snowflake \<rightharpoonup> preview_snapshot)" where
  "load_forwarded_bundle_previews vc bundle_ids =
     (let bundles = select_rows (\<lambda>b. fb_id b \<in> set bundle_ids) (vc_bundles vc)
      in if length bundles \<noteq> length bundle_ids
         then Inl (BadRequest ''Forwarded source bundle not found'')
         else if list_ex (\<lambda>b. vc_decode_preview vc (fb_preview b) = None) bundles
         then Inl (Internal ''Failed to deserialize forwarded message preview'')
         else Inr (map_of (map (\<lambda>b. (fb_id b,
             \<lparr>ps_total = nat (fb_item_count b),
              ps_contains_forwarded_messages = (fb_child_bundle_ids b \<noteq> []),
              ps_messages = (case vc_decode_preview vc (fb_preview b) of None \<Rightarrow> [] | Some items \<Rightarrow> items)\<rparr>))
           bundles)))"

definition preview_item_uids :: "preview_item list \<Rightarrow> uid list" where
  "preview_item_uids items = concat (map (\<lambda>i. fp_sender_uid i # fp_mention_uids i) items)"

definition forwarded_preview_item_response ::
  "preview_item \<Rightarrow> avatars \<Rightarrow> profiles \<Rightarrow> forwarded_message_preview_response" where
  "forwarded_preview_item_response item user_avatars user_profiles =
     \<lparr>fpr_original_message_id = fp_original_message_id item,
      fpr_original_chat_id = fp_original_chat_id item, fpr_message = fp_message item,
      fpr_message_type = fp_message_type item,
      fpr_sender = build_sender (fp_sender_uid item) user_avatars user_profiles,
      fpr_original_created_at = fp_original_created_at item,
      fpr_attachments = fp_attachments item, fpr_sticker = fp_sticker item,
      fpr_mentions = map (\<lambda>uid. build_mention_info uid user_avatars user_profiles) (fp_mention_uids item)\<rparr>"

definition forwarded_preview_response ::
  "preview_snapshot \<Rightarrow> avatars \<Rightarrow> profiles \<Rightarrow> forwarded_messages_preview_response" where
  "forwarded_preview_response p user_avatars user_profiles =
     \<lparr>fmp_total = ps_total p, fmp_contains_forwarded_messages = ps_contains_forwarded_messages p,
      fmp_messages = map (\<lambda>i. forwarded_preview_item_response i user_avatars user_profiles) (ps_messages p)\<rparr>"

section \<open>Reactions\<close>

text \<open>
  The emojis of a message, most used first, then by their first use, then by themselves (text is
  ordered by code points); each with its first five reactors.
\<close>

definition emojis_of :: "message_reaction list \<Rightarrow> ustr list" where
  "emojis_of rs =
     (let of_emoji = (\<lambda>e. filter (\<lambda>r. mr_emoji r = e) rs)
      in sort_key (\<lambda>e. - int (length (of_emoji e)))
           (sort_key (\<lambda>e. Min (mr_created_at ` set (of_emoji e))) (sort (remdups (map mr_emoji rs)))))"

record reaction_details =
  rd_emoji :: ustr
  rd_count :: int
  rd_reacted_by_me :: bool
  rd_reactor_uids :: "uid list"

definition load_reaction_details :: "chat_db \<Rightarrow> snowflake list \<Rightarrow> uid \<Rightarrow> snowflake \<Rightarrow> reaction_details list" where
  "load_reaction_details db message_ids current_user_uid i =
     (let rs = select_rows (\<lambda>r. mr_message_id r \<in> set message_ids \<and> mr_message_id r = i) (message_reactions db)
      in map (\<lambda>e. let of_emoji = filter (\<lambda>r. mr_emoji r = e) rs
           in \<lparr>rd_emoji = e, rd_count = int (length of_emoji),
               rd_reacted_by_me = list_ex (\<lambda>r. mr_user_uid r = current_user_uid) of_emoji,
               rd_reactor_uids = take 5 (map mr_user_uid
                 (sort_key mr_created_at (sort_key mr_user_uid of_emoji)))\<rparr>)
         (emojis_of rs))"

definition reaction_summary_of :: "avatars \<Rightarrow> (uid \<Rightarrow> ustr option) \<Rightarrow> reaction_details \<Rightarrow> reaction_summary" where
  "reaction_summary_of reactor_avatars reactor_names d =
     \<lparr>rs_emoji = rd_emoji d, rs_count = rd_count d, rs_reacted_by_me = Some (rd_reacted_by_me d),
      rs_reactors = (if rd_reactor_uids d = [] then None
        else Some (map (\<lambda>uid. \<lparr>rr_uid = uid, rr_name = reactor_names uid,
          rr_avatar_url = reactor_avatars uid, rr_sort_index = None\<rparr>) (rd_reactor_uids d)))\<rparr>"

section \<open>A page\<close>

definition in_reply_scope :: "message_row \<Rightarrow> snowflake \<Rightarrow> snowflake option \<Rightarrow> bool" where
  "in_reply_scope reply chat_id thread_id \<longleftrightarrow>
     m_chat_id reply = chat_id \<and>
     (case thread_id of Some t \<Rightarrow> m_id reply = t \<or> m_reply_root_id reply = Some t
      | None \<Rightarrow> m_reply_root_id reply = None)"

definition load_reply_messages :: "chat_db \<Rightarrow> snowflake list \<Rightarrow> message_row list" where
  "load_reply_messages db ids = select_rows (\<lambda>m. m_id m \<in> set ids \<and> m_is_published m) (messages db)"

definition page_replies :: "chat_db \<Rightarrow> message_row list \<Rightarrow> message_row list" where
  "page_replies db ms =
     filter (\<lambda>r. not_membership r \<and>
         list_ex (\<lambda>m. m_reply_to_id m = Some (m_id r) \<and> in_reply_scope r (m_chat_id m) (m_reply_root_id m)) ms)
       (load_reply_messages db (List.map_filter m_reply_to_id ms))"

definition shows_bundle :: "message_row \<Rightarrow> snowflake option" where
  "shows_bundle m =
     (if m_deleted_at m = None \<and> m_message_type m = Forwarded then m_forwarded_bundle_id m else None)"

definition live_text :: "message_row \<Rightarrow> ustr" where
  "live_text m = (if m_deleted_at m = None then (case m_message m of None \<Rightarrow> [] | Some txt \<Rightarrow> txt) else [])"

definition attachments_of :: "chat_db \<Rightarrow> snowflake \<Rightarrow> attachment list" where
  "attachments_of db i =
     sort_key at_order (sort_key at_id
       (select_rows (\<lambda>a. at_message_id a = Some i \<and> at_deleted_at a = None) (attachments db)))"

definition sticker_of :: "view_context \<Rightarrow> snowflake \<Rightarrow> (sticker_row \<times> stored_media) option" where
  "sticker_of vc i = Option.bind (first_row (\<lambda>s. stk_id s = i) (vc_stickers vc)) (\<lambda>s.
     map_option (Pair s) (first_row (\<lambda>r. md_id r = stk_media_id s) (vc_media vc)))"

definition is_favorite :: "view_context \<Rightarrow> uid \<Rightarrow> snowflake \<Rightarrow> bool" where
  "is_favorite vc uid i = exists_row (\<lambda>f. fav_uid f = uid \<and> fav_sticker_id f = i) (vc_favorites vc)"

text \<open>What the queries of a page found; the \<open>HashMap\<close>s are functions.\<close>

record page_data =
  pd_replies :: "message_row list"
  pd_origins :: forward_origins
  pd_previews :: "snowflake \<rightharpoonup> preview_snapshot"
  pd_avatars :: avatars
  pd_profiles :: profiles
  pd_attachments :: "snowflake \<Rightarrow> attachment list"
  pd_stickers :: "snowflake \<Rightarrow> (sticker_row \<times> stored_media) option"
  pd_favorited :: "snowflake \<Rightarrow> bool"
  pd_thread_counts :: "snowflake \<Rightarrow> int"
  pd_reactions :: "snowflake \<Rightarrow> reaction_summary list"

definition only :: "'k list \<Rightarrow> 'v \<Rightarrow> ('k \<Rightarrow> 'v) \<Rightarrow> 'k \<Rightarrow> 'v" where
  "only ks otherwise f = (\<lambda>k. if k \<in> set ks then f k else otherwise)"

definition live_rows :: "message_row list \<Rightarrow> message_row list" where
  "live_rows = filter (\<lambda>m. m_deleted_at m = None)"

definition page_origins :: "chat_db \<Rightarrow> message_row list \<Rightarrow> forward_origins" where
  "page_origins db ms = load_origins db (ms @ page_replies db ms)"

definition page_bundles :: "message_row list \<Rightarrow> snowflake list" where
  "page_bundles ms = remdups (List.map_filter shows_bundle ms)"

definition page_previews :: "view_context \<Rightarrow> message_row list \<Rightarrow> snowflake \<rightharpoonup> preview_snapshot" where
  "page_previews vc ms =
     (case load_forwarded_bundle_previews vc (page_bundles ms) of Inl _ \<Rightarrow> Map.empty | Inr p \<Rightarrow> p)"

text \<open>The accounts looked up first, and those of mentions that were not among them.\<close>

definition page_uids :: "view_context \<Rightarrow> chat_db \<Rightarrow> message_row list \<Rightarrow> uid list" where
  "page_uids vc db ms =
     map m_sender_uid (ms @ page_replies db ms) @
     concat (map (\<lambda>i. case page_previews vc ms i of None \<Rightarrow> [] | Some p \<Rightarrow> preview_item_uids (ps_messages p))
       (page_bundles ms)) @
     origin_uids (page_origins db ms)"

definition page_mentions :: "chat_db \<Rightarrow> message_row list \<Rightarrow> uid list" where
  "page_mentions db ms = concat (map (extract_mention_uids \<circ> live_text) (ms @ page_replies db ms))"

definition page_sticker_ids :: "chat_db \<Rightarrow> message_row list \<Rightarrow> snowflake list" where
  "page_sticker_ids db ms = List.map_filter m_sticker_id
     (live_rows ms @ page_replies db ms @ live_rows (fo_replies (page_origins db ms)))"

definition page_attachment_ids :: "chat_db \<Rightarrow> message_row list \<Rightarrow> snowflake list" where
  "page_attachment_ids db ms = map m_id
     (live_rows ms @ page_replies db ms @ live_rows (fo_replies (page_origins db ms)))"

definition page_reactions ::
  "view_context \<Rightarrow> chat_db \<Rightarrow> uid \<Rightarrow> message_row list \<Rightarrow> snowflake \<Rightarrow> reaction_summary list" where
  "page_reactions vc db current_user_uid ms =
     (let ids = map m_id (filter m_has_reactions ms);
          details = load_reaction_details db ids current_user_uid;
          reactor_uids = concat (map (\<lambda>i. concat (map rd_reactor_uids (details i))) ids)
      in only ids [] (\<lambda>i. map (reaction_summary_of (lookup_avatars vc reactor_uids)
           (\<lambda>uid. Option.bind (lookup_user_profiles (vc_discuz vc) reactor_uids uid) upr_username)) (details i)))"

definition load_page :: "view_context \<Rightarrow> chat_db \<Rightarrow> uid \<Rightarrow> message_row list \<Rightarrow> page_data" where
  "load_page vc db current_user_uid ms =
     (let user_profiles = lookup_user_profiles (vc_discuz vc) (page_uids vc db ms);
          extra = filter (\<lambda>uid. user_profiles uid = None) (page_mentions db ms)
      in \<lparr>pd_replies = page_replies db ms, pd_origins = page_origins db ms,
          pd_previews = page_previews vc ms,
          pd_avatars = (\<lambda>uid. if uid \<in> set extra then vc_avatar vc uid
            else lookup_avatars vc (page_uids vc db ms) uid),
          pd_profiles = user_profiles ++ lookup_user_profiles (vc_discuz vc) extra,
          pd_attachments = only (page_attachment_ids db ms) [] (attachments_of db),
          pd_stickers = only (page_sticker_ids db ms) None (sticker_of vc),
          pd_favorited = only (page_sticker_ids db ms) False (is_favorite vc current_user_uid),
          pd_thread_counts = only (map m_id (filter m_has_thread ms)) 0
            (\<lambda>i. int (count_rows (live_reply i) (messages db))),
          pd_reactions = page_reactions vc db current_user_uid ms\<rparr>)"

definition sticker_response :: "view_context \<Rightarrow> bool \<Rightarrow> sticker_row \<times> stored_media \<Rightarrow> message_sticker_response" where
  "sticker_response vc favorited sm =
     (let (s, r) = sm
      in \<lparr>msr_id = stk_id s, msr_emoji = stk_emoji s, msr_name = stk_name s,
          msr_description = stk_description s, msr_created_at = stk_created_at s,
          msr_is_favorited = favorited,
          msr_media = \<lparr>smr_id = md_id r, smr_url = vc_public_url vc (md_storage_key r),
            smr_content_type = md_content_type r, smr_size = md_size r, smr_width = md_width r,
            smr_height = md_height r\<rparr>\<rparr>)"

definition attachment_response_of :: "view_context \<Rightarrow> attachment \<Rightarrow> attachment_response" where
  "attachment_response_of vc a =
     \<lparr>ar_id = at_id a, ar_url = vc_public_url vc (at_external_reference a), ar_kind = at_kind a,
      ar_size = at_size a, ar_file_name = at_file_name a, ar_width = at_width a, ar_height = at_height a\<rparr>"

definition build_response :: "view_context \<Rightarrow> page_data \<Rightarrow> message_row \<Rightarrow> message_response" where
  "build_response vc pd m =
     (let is_deleted = (m_deleted_at m \<noteq> None);
          emojis = (\<lambda>i. map_option (stk_emoji \<circ> fst) (pd_stickers pd i));
          reply = Option.bind (Option.bind (m_reply_to_id m) (row_with_id (pd_replies pd)))
            (\<lambda>r. if in_reply_scope r (m_chat_id m) (m_reply_root_id m) then Some r else None);
          bundle_id = shows_bundle m;
          (body, links) = decode (vc_parse_json vc) (m_message_type m) (m_message m)
      in redact_deleted_message_response
         \<lparr>r_system_kind = m_system_kind m, r_system_links = links,
          r_forwarded_from = info_for (vc_parse_json vc) (pd_origins pd) (pd_avatars pd) (pd_profiles pd)
            emojis (pd_attachments pd) m,
          r_id = m_id m, r_message = (if is_deleted then None else body),
          r_message_type = m_message_type m,
          r_sticker = (if is_deleted then None else Option.bind (m_sticker_id m) (\<lambda>i.
            map_option (sticker_response vc (pd_favorited pd i)) (pd_stickers pd i))),
          r_reply_root_id = m_reply_root_id m, r_client_generated_id = m_client_generated_id m,
          r_sender = build_sender (m_sender_uid m) (pd_avatars pd) (pd_profiles pd),
          r_chat_id = m_chat_id m, r_created_at = m_created_at m,
          r_is_edited = (m_updated_at m \<noteq> None), r_is_deleted = is_deleted,
          r_has_attachments = (\<not> is_deleted \<and> m_has_attachments m),
          r_thread_info = (if m_has_thread m then Some (pd_thread_counts pd (m_id m)) else None),
          r_reply_to_message = map_option (reply_preview (vc_parse_json vc) (pd_origins pd)
            (pd_avatars pd) (pd_profiles pd) emojis (pd_attachments pd)) reply,
          r_attachments = (if is_deleted then []
            else map (attachment_response_of vc) (pd_attachments pd (m_id m))),
          r_reactions = pd_reactions pd (m_id m),
          r_mentions = map (\<lambda>uid. build_mention_info uid (pd_avatars pd) (pd_profiles pd))
            (extract_mention_uids (live_text m)),
          r_forwarded_bundle_id = bundle_id,
          r_forwarded_preview = map_option (\<lambda>p. forwarded_preview_response p (pd_avatars pd) (pd_profiles pd))
            (Option.bind bundle_id (pd_previews pd))\<rparr>)"

text \<open>The loop takes a message's reactions out of the map, so a row listed twice has them once.\<close>

fun respond_all :: "view_context \<Rightarrow> page_data \<Rightarrow> snowflake list \<Rightarrow> message_row list \<Rightarrow> message_response list" where
  "respond_all vc pd taken [] = []"
| "respond_all vc pd taken (m # ms) =
     build_response vc (pd\<lparr>pd_reactions := (\<lambda>i. if i \<in> set taken then [] else pd_reactions pd i)\<rparr>) m #
     respond_all vc pd (m_id m # taken) ms"

definition attach_metadata ::
  "view_context \<Rightarrow> chat_db \<Rightarrow> uid \<Rightarrow> message_row list \<Rightarrow> message_response list" where
  "attach_metadata vc db current_user_uid ms = respond_all vc (load_page vc db current_user_uid ms) [] ms"

section \<open>What one message shows\<close>

text \<open>Everything looked up where it is, with no page around it.\<close>

definition profile_of :: "view_context \<Rightarrow> uid \<Rightarrow> user_profile option" where
  "profile_of vc uid = lookup_user_profiles (vc_discuz vc) [uid] uid"

definition preview_of :: "view_context \<Rightarrow> snowflake \<Rightarrow> preview_snapshot option" where
  "preview_of vc i =
     (case load_forwarded_bundle_previews vc [i] of Inl _ \<Rightarrow> None | Inr p \<Rightarrow> p i)"

definition reactions_of :: "view_context \<Rightarrow> chat_db \<Rightarrow> uid \<Rightarrow> snowflake \<Rightarrow> reaction_summary list" where
  "reactions_of vc db uid i =
     map (reaction_summary_of (vc_avatar vc) (\<lambda>u. Option.bind (profile_of vc u) upr_username))
       (load_reaction_details db [i] uid i)"

definition everything :: "view_context \<Rightarrow> chat_db \<Rightarrow> uid \<Rightarrow> page_data" where
  "everything vc db uid =
     (let quotable = filter (\<lambda>m. m_is_published m \<and> not_membership m) (messages db)
      in \<lparr>pd_replies = quotable,
          pd_origins = \<lparr>fo_originals = messages db, fo_replies = quotable\<rparr>,
          pd_previews = preview_of vc, pd_avatars = vc_avatar vc, pd_profiles = profile_of vc,
          pd_attachments = attachments_of db, pd_stickers = sticker_of vc,
          pd_favorited = is_favorite vc uid,
          pd_thread_counts = (\<lambda>i. int (count_rows (live_reply i) (messages db))),
          pd_reactions = (\<lambda>i. reactions_of vc db uid i)\<rparr>)"

definition message_view :: "view_context \<Rightarrow> chat_db \<Rightarrow> uid \<Rightarrow> message_row \<Rightarrow> message_response" where
  "message_view vc db uid m =
     build_response vc ((everything vc db uid)
       \<lparr>pd_reactions := (\<lambda>i. if m_has_reactions m then reactions_of vc db uid i else [])\<rparr>) m"

section \<open>Lookups\<close>

lemma map_of_filter_key: "map_of xs k = map_of (filter (\<lambda>p. fst p = k) xs) k"
  by (induction xs) auto

lemma fold_map_update:
  "fold (\<lambda>r m. m(key r \<mapsto> val r)) rows m = m ++ map_of (rev (map (\<lambda>r. (key r, val r)) rows))"
  by (induction rows arbitrary: m) simp_all

lemma filter_profile_rows:
  "filter (\<lambda>(cm, _). cm_uid cm = uid) (profile_rows d uids) =
   (if uid \<in> set uids then filter (\<lambda>(cm, _). cm_uid cm = uid) (profile_rows d [uid]) else [])"
proof -
  have inner: "filter (\<lambda>(cm, _). cm_uid cm = uid) (concat (map (\<lambda>cm. concat (map (\<lambda>cmp. concat (map (\<lambda>cug.
        map (\<lambda>uge. (cm, cmp, cug, uge)) (E cm)) (U cm))) (P cm))) ms)) =
      concat (map (\<lambda>cm. concat (map (\<lambda>cmp. concat (map (\<lambda>cug.
        map (\<lambda>uge. (cm, cmp, cug, uge)) (E cm)) (U cm))) (P cm))) (filter (\<lambda>cm. cm_uid cm = uid) ms))"
    for E :: "discuz_member \<Rightarrow> 'e list" and U :: "discuz_member \<Rightarrow> 'u list" and P :: "discuz_member \<Rightarrow> 'p list" and ms
    by (induction ms) (auto simp: filter_concat comp_def filter_empty_conv cong: map_cong)
  have rows: "filter (\<lambda>cm. cm_uid cm = uid) (select_rows (\<lambda>cm. cm_uid cm \<in> set uids) ms) =
      (if uid \<in> set uids then filter (\<lambda>cm. cm_uid cm = uid) (select_rows (\<lambda>cm. cm_uid cm \<in> set [uid]) ms) else [])"
    for ms by (auto simp: select_rows_def filter_empty_conv intro: filter_cong)
  show ?thesis unfolding profile_rows_def inner rows by simp
qed

definition profile_entry ::
  "discuz_member \<times> (uid \<times> int) option \<times> (int \<times> ustr) option \<times> usergroup_extra option \<Rightarrow> uid \<times> user_profile" where
  "profile_entry r =
     (case r of (cm, cmp, cug, uge) \<Rightarrow> (cm_uid cm,
          \<lparr>upr_username = Some (normalize_discuz_username (cm_username cm)),
           upr_gender = (case cmp of None \<Rightarrow> 0 | Some p \<Rightarrow> snd p),
           upr_user_group = Some \<lparr>ug_group_id = cm_groupid cm, ug_name = map_option snd cug,
             ug_chat_group_color = Option.bind uge uge_chat_group_color,
             ug_chat_group_color_dark = Option.bind uge uge_chat_group_color_dark\<rparr>\<rparr>))"

lemma lookup_user_profiles_rows:
  "lookup_user_profiles d uids = map_of (rev (map profile_entry (profile_rows d uids)))"
proof -
  have "profile_rows d [] = []" by (simp add: profile_rows_def select_rows_def)
  moreover have "(\<lambda>(cm, cmp, cug, uge) m. m(cm_uid cm \<mapsto>
          \<lparr>upr_username = Some (normalize_discuz_username (cm_username cm)),
           upr_gender = (case cmp of None \<Rightarrow> 0 | Some p \<Rightarrow> snd p),
           upr_user_group = Some \<lparr>ug_group_id = cm_groupid cm, ug_name = map_option snd cug,
             ug_chat_group_color = Option.bind uge uge_chat_group_color,
             ug_chat_group_color_dark = Option.bind uge uge_chat_group_color_dark\<rparr>\<rparr>)) =
      (\<lambda>r m. m(fst (profile_entry r) \<mapsto> snd (profile_entry r)))"
    by (auto simp: fun_eq_iff profile_entry_def)
  ultimately show ?thesis
    using fold_map_update [of "fst \<circ> profile_entry" "snd \<circ> profile_entry" "profile_rows d uids" Map.empty]
    by (simp add: lookup_user_profiles_def comp_def)
qed

lemma lookup_user_profiles_pointwise:
  "lookup_user_profiles d uids uid = (if uid \<in> set uids then lookup_user_profiles d [uid] uid else None)"
proof -
  have uid: "(\<lambda>(cm, _). cm_uid cm = uid) = (\<lambda>r. fst (profile_entry r) = uid)"
    by (auto simp: fun_eq_iff profile_entry_def)
  have "lookup_user_profiles d us uid =
      map_of (rev (map profile_entry (filter (\<lambda>(cm, _). cm_uid cm = uid) (profile_rows d us)))) uid" for us
    unfolding lookup_user_profiles_rows
    unfolding uid by (subst map_of_filter_key) (simp add: rev_filter [symmetric] filter_map comp_def)
  then show ?thesis by (simp add: filter_profile_rows [of uid d uids])
qed

lemma row_with_id_load:
  "row_with_id (load_messages db ids) i = (if i \<in> set ids then row_with_id (messages db) i else None)"
proof (cases "i \<in> set ids")
  case True
  then show ?thesis
    by (simp add: row_with_id_def load_messages_def first_row_select) (rule first_row_cong, auto)
next
  case False
  then show ?thesis by (auto simp: row_with_id_def load_messages_def first_row_None row_simps)
qed

lemma row_with_id_append:
  "row_with_id (xs @ ys) i = (case row_with_id xs i of None \<Rightarrow> row_with_id ys i | Some r \<Rightarrow> Some r)"
  by (simp add: row_with_id_def first_row_append split: option.split)

lemma row_with_id_filter:
  assumes "distinct_keys m_id rows"
  shows "row_with_id (filter P rows) i =
    (case row_with_id rows i of Some r \<Rightarrow> if P r then Some r else None | None \<Rightarrow> None)"
proof (cases "row_with_id rows i")
  case None
  then have "\<forall>r \<in> set rows. m_id r \<noteq> i" by (simp add: row_with_id_def first_row_None)
  then have "row_with_id (filter P rows) i = None" by (simp add: row_with_id_def first_row_None)
  with None show ?thesis by simp
next
  case (Some r)
  then have r: "r \<in> set rows" "m_id r = i" by (auto simp: row_with_id_def dest: first_row_Some)
  show ?thesis
  proof (cases "P r")
    case True
    with r assms have "row_with_id (filter P rows) i = Some r"
      unfolding row_with_id_def by (intro first_row_unique) (auto dest: distinct_keys_eq)
    with Some True show ?thesis by simp
  next
    case False
    with r assms have "row_with_id (filter P rows) i = None"
      by (auto simp: row_with_id_def first_row_None dest: distinct_keys_eq)
    with Some False show ?thesis by simp
  qed
qed

lemma in_map_filter: "x \<in> set (List.map_filter f xs) \<longleftrightarrow> (\<exists>y \<in> set xs. f y = Some x)"
  by (induction xs) (auto simp: map_filter_simps split: option.split)

text \<open>Bundles that exist and can be read.\<close>

definition bundles_ready :: "view_context \<Rightarrow> snowflake list \<Rightarrow> bool" where
  "bundles_ready vc ids \<longleftrightarrow> distinct_keys fb_id (vc_bundles vc) \<and>
     (\<forall>i \<in> set ids. exists_row (\<lambda>b. fb_id b = i \<and> vc_decode_preview vc (fb_preview b) \<noteq> None) (vc_bundles vc))"

lemma load_previews_ready:
  assumes "bundles_ready vc ids" and "distinct ids" and "i \<in> set ids"
  shows "(case load_forwarded_bundle_previews vc ids of Inl _ \<Rightarrow> Map.empty | Inr p \<Rightarrow> p) i = preview_of vc i"
proof -
  let ?snapshot = "\<lambda>b. \<lparr>ps_total = nat (fb_item_count b),
      ps_contains_forwarded_messages = (fb_child_bundle_ids b \<noteq> []),
      ps_messages = (case vc_decode_preview vc (fb_preview b) of None \<Rightarrow> [] | Some items \<Rightarrow> items)\<rparr>"
  have keys: "distinct_keys fb_id (vc_bundles vc)" using assms(1) by (simp add: bundles_ready_def)
  have load: "load_forwarded_bundle_previews vc js =
      Inr (map_of (map (\<lambda>b. (fb_id b, ?snapshot b)) (select_rows (\<lambda>b. fb_id b \<in> set js) (vc_bundles vc))))"
    if js: "set js \<subseteq> set ids" "distinct js" for js
  proof -
    let ?bundles = "select_rows (\<lambda>b. fb_id b \<in> set js) (vc_bundles vc)"
    have readable: "vc_decode_preview vc (fb_preview b) \<noteq> None" if "b \<in> set ?bundles" for b
      using that js(1) assms(1) distinct_keys_eq [OF keys]
      by (fastforce simp: bundles_ready_def row_simps)
    have "fb_id ` set ?bundles = set js"
      using js(1) assms(1) by (fastforce simp: bundles_ready_def row_simps)
    moreover have "distinct (map fb_id ?bundles)"
      using keys by (auto simp: distinct_keys_def select_rows_def distinct_map inj_on_def)
    ultimately have "length ?bundles = length js"
      using js(2) by (metis distinct_card length_map list.set_map)
    with readable show ?thesis
      by (auto simp: load_forwarded_bundle_previews_def Let_def list_ex_iff)
  qed
  have looked: "map_of (map (\<lambda>b. (fb_id b, ?snapshot b)) (select_rows (\<lambda>b. fb_id b \<in> set js) bs)) i =
      map_of (map (\<lambda>b. (fb_id b, ?snapshot b)) (select_rows (\<lambda>b. fb_id b = i) bs)) i" if "i \<in> set js" for js bs
    using that by (induction bs) (auto simp: select_rows_def)
  show ?thesis
    using assms(2,3) looked [of ids "vc_bundles vc"] looked [of "[i]" "vc_bundles vc"]
    by (simp add: preview_of_def load)
qed

section \<open>Origins\<close>

definition citable :: "chat_db \<Rightarrow> message_row list" where
  "citable db = filter (\<lambda>m. m_is_published m \<and> not_membership m) (messages db)"

lemma distinct_keys_filter: "distinct_keys key rows \<Longrightarrow> distinct_keys key (filter P rows)"
  by (auto simp: distinct_keys_def distinct_map inj_on_def)

abbreviation everywhere :: "chat_db \<Rightarrow> forward_origins" where
  "everywhere db \<equiv> \<lparr>fo_originals = messages db, fo_replies = citable db\<rparr>"

lemma row_with_id_Some: "row_with_id rows i = Some r \<Longrightarrow> r \<in> set rows \<and> m_id r = i"
  unfolding row_with_id_def by (drule first_row_Some) simp

lemma fo_load_origins:
  "fo_replies (load_origins db src) = filter (\<lambda>m. m_is_published m \<and> not_membership m)
     (load_messages db (List.map_filter m_reply_to_id (fo_originals (load_attribution db src))))"
  "fo_originals (load_origins db src) = fo_originals (load_attribution db src) @
     load_messages db (filter (\<lambda>i. row_with_id (fo_originals (load_attribution db src)) i = None)
       (List.map_filter m_forwarded_from_message_id (fo_replies (load_origins db src))))"
  by (simp_all add: load_origins_def Let_def)

lemma original_of_source:
  assumes "s \<in> set src"
  shows "original_of (load_origins db src) s = original_of (everywhere db) s"
    and "original_of (load_origins db src) s = Some r \<Longrightarrow> r \<in> set (fo_originals (load_attribution db src))"
proof -
  have attributed: "m_deleted_at s = None \<Longrightarrow> m_forwarded_from_message_id s = Some i \<Longrightarrow>
      row_with_id (fo_originals (load_attribution db src)) i = row_with_id (messages db) i" for i
    using assms by (auto simp: load_attribution_def row_with_id_load in_map_filter)
  then have both: "m_deleted_at s = None \<Longrightarrow> m_forwarded_from_message_id s = Some i \<Longrightarrow>
      row_with_id (fo_originals (load_origins db src)) i = row_with_id (messages db) i" for i
    by (auto simp: fo_load_origins(2) row_with_id_append row_with_id_load split: option.split)
  then show "original_of (load_origins db src) s = original_of (everywhere db) s"
    by (cases "m_forwarded_from_message_id s") (auto simp: original_of_def)
  assume "original_of (load_origins db src) s = Some r"
  then obtain i where "m_deleted_at s = None" "m_forwarded_from_message_id s = Some i"
      "row_with_id (fo_originals (load_origins db src)) i = Some r"
    by (auto simp: original_of_def bind_eq_Some_conv split: if_splits)
  with attributed both show "r \<in> set (fo_originals (load_attribution db src))"
    by (metis row_with_id_Some)
qed

lemma original_of_reply:
  assumes "x \<in> set (fo_replies (load_origins db src))"
  shows "original_of (load_origins db src) x = original_of (everywhere db) x"
proof -
  let ?first = "fo_originals (load_attribution db src)"
  have "row_with_id (fo_originals (load_origins db src)) i = row_with_id (messages db) i"
    if "m_forwarded_from_message_id x = Some i" for i
  proof (cases "row_with_id ?first i")
    case None
    then have "i \<in> set (filter (\<lambda>i. row_with_id ?first i = None)
        (List.map_filter m_forwarded_from_message_id (fo_replies (load_origins db src))))"
      using assms that by (auto simp: in_map_filter)
    with None show ?thesis by (simp add: fo_load_origins(2) row_with_id_append row_with_id_load)
  next
    case (Some r)
    then have "row_with_id (messages db) i = Some r"
      by (auto simp: load_attribution_def row_with_id_load split: if_splits)
    with Some show ?thesis by (simp add: fo_load_origins(2) row_with_id_append)
  qed
  then show ?thesis by (cases "m_forwarded_from_message_id x") (auto simp: original_of_def)
qed

lemma reply_of_original:
  assumes "distinct_keys m_id (messages db)" and "r \<in> set (fo_originals (load_attribution db src))"
  shows "Option.bind (m_reply_to_id r) (row_with_id (fo_replies (load_origins db src))) =
    Option.bind (m_reply_to_id r) (row_with_id (citable db))"
proof (cases "m_reply_to_id r")
  case (Some i)
  then have "i \<in> set (List.map_filter m_reply_to_id (fo_originals (load_attribution db src)))"
    using assms(2) by (auto simp: in_map_filter)
  with Some assms(1) show ?thesis
    unfolding fo_load_origins(1) citable_def
    by (auto simp: row_with_id_filter distinct_keys_filter load_messages_def select_rows_def
        split: option.split dest: row_with_id_Some)
qed simp

lemma original_uids:
  "original_of origins s = Some r \<Longrightarrow> m_sender_uid r \<in> set (origin_uids origins)"
  by (auto simp: original_of_def bind_eq_Some_conv origin_uids_def split: if_splits dest!: row_with_id_Some)

lemma reply_uids:
  assumes "x \<in> set (fo_replies origins)"
  shows "m_sender_uid x \<in> set (origin_uids origins)"
    and "set (extract_mention_uids (live_text x)) \<subseteq> set (origin_uids origins)"
  using assms by (auto simp: origin_uids_def live_text_def extract_mention_uids_def split: option.splits if_splits)

section \<open>Previews agree\<close>

lemma reply_preview_cong:
  assumes "A (m_sender_uid r) = A' (m_sender_uid r)" and "P (m_sender_uid r) = P' (m_sender_uid r)"
    and "\<And>u. u \<in> set (extract_mention_uids (live_text r)) \<Longrightarrow> A u = A' u \<and> P u = P' u"
    and "m_deleted_at r = None \<Longrightarrow> name_for origins r P = name_for origins' r P'"
    and "m_deleted_at r = None \<Longrightarrow> att (m_id r) = att' (m_id r)"
    and "m_deleted_at r = None \<Longrightarrow> Option.bind (m_sticker_id r) E = Option.bind (m_sticker_id r) E'"
  shows "reply_preview pj origins A P E att r = reply_preview pj origins' A' P' E' att' r"
proof -
  have info: "build_mention_info u A P = build_mention_info u A' P'" if "A u = A' u \<and> P u = P' u" for u
    using that by (simp add: build_mention_info_def)
  have sender: "build_sender (m_sender_uid r) A P = build_sender (m_sender_uid r) A' P'"
    using assms(1,2) by (simp add: build_sender_def)
  have mentions: "m_deleted_at r = None \<Longrightarrow> m_message r = Some body \<Longrightarrow>
      map (\<lambda>u. build_mention_info u A P) (extract_mention_uids body) =
      map (\<lambda>u. build_mention_info u A' P') (extract_mention_uids body)" for body
    using assms(3) info by (auto simp: live_text_def)
  show ?thesis
  proof (cases "m_deleted_at r")
    case None
    with assms(4-6) sender mentions show ?thesis
      by (cases "m_message r") (simp_all add: reply_preview_def build_message_preview_def Let_def split: prod.split)
  next
    case (Some t)
    with sender show ?thesis
      by (simp add: reply_preview_def build_message_preview_def Let_def split: prod.split)
  qed
qed

section \<open>A page agrees with its messages\<close>

lemma two_lookups:
  assumes pointwise: "\<And>us. look us u = (if u \<in> set us then p else None)"
    and known: "u \<in> set first \<union> set later"
  shows "(look first ++ look (filter (\<lambda>x. look first x = None) later)) u = p"
proof (cases p)
  case None
  then show ?thesis by (simp add: map_add_def pointwise)
next
  case (Some v)
  show ?thesis
  proof (cases "u \<in> set first")
    case True
    then have "look first u = Some v" by (simp add: pointwise Some)
    moreover from this have "look (filter (\<lambda>x. look first x = None) later) u = None"
      by (subst pointwise) simp
    ultimately show ?thesis by (simp add: map_add_def Some)
  next
    case False
    then have "u \<in> set (filter (\<lambda>x. look first x = None) later)"
      using known by (simp add: pointwise)
    then show ?thesis by (simp only: pointwise [of "filter _ _"] map_add_def if_True Some option.case)
  qed
qed

lemma page_accounts:
  assumes "u \<in> set (page_uids vc db ms) \<union> set (page_mentions db ms)"
  shows "pd_avatars (load_page vc db uid ms) u = vc_avatar vc u"
    and "pd_profiles (load_page vc db uid ms) u = profile_of vc u"
proof -
  have pointwise: "lookup_user_profiles (vc_discuz vc) us u = (if u \<in> set us then profile_of vc u else None)" for us
    unfolding profile_of_def by (rule lookup_user_profiles_pointwise)
  show "pd_profiles (load_page vc db uid ms) u = profile_of vc u"
    unfolding load_page_def Let_def page_data.simps 
    by (rule two_lookups [where look = "lookup_user_profiles (vc_discuz vc)" and u = u, OF pointwise assms])
  have "u \<in> set (page_uids vc db ms) \<or>
      u \<in> set (filter (\<lambda>x. lookup_user_profiles (vc_discuz vc) (page_uids vc db ms) x = None) (page_mentions db ms))"
    using assms by (cases "u \<in> set (page_uids vc db ms)") (simp_all add: pointwise)
  then show "pd_avatars (load_page vc db uid ms) u = vc_avatar vc u"
    by (auto simp: load_page_def Let_def lookup_avatars_def)
qed

lemma page_replies_lookup:
  assumes "distinct_keys m_id (messages db)" and "m \<in> set ms"
  shows "Option.bind (Option.bind (m_reply_to_id m) (row_with_id (page_replies db ms)))
      (\<lambda>r. if in_reply_scope r (m_chat_id m) (m_reply_root_id m) then Some r else None) =
    Option.bind (Option.bind (m_reply_to_id m) (row_with_id (citable db)))
      (\<lambda>r. if in_reply_scope r (m_chat_id m) (m_reply_root_id m) then Some r else None)"
proof (cases "m_reply_to_id m")
  case (Some i)
  have "i \<in> set (List.map_filter m_reply_to_id ms)" using Some assms(2) by (auto simp: in_map_filter)
  moreover have "list_ex (\<lambda>m. m_reply_to_id m = Some i \<and> in_reply_scope r (m_chat_id m) (m_reply_root_id m)) ms"
    if "in_reply_scope r (m_chat_id m) (m_reply_root_id m)" for r
    using that Some assms(2) by (auto simp: list_ex_iff)
  ultimately show ?thesis
    using Some assms(1)
    by (auto simp: page_replies_def citable_def load_reply_messages_def select_rows_def row_with_id_filter
        distinct_keys_filter split: option.split dest: row_with_id_Some)
qed simp

lemma page_reactions_one:
  assumes "m \<in> set ms"
  shows "page_reactions vc db uid ms (m_id m) =
    (if \<exists>x \<in> set ms. m_id x = m_id m \<and> m_has_reactions x then reactions_of vc db uid (m_id m) else [])"
proof (cases "m_id m \<in> set (map m_id (filter m_has_reactions ms))")
  case True
  let ?ids = "map m_id (filter m_has_reactions ms)"
  let ?details = "load_reaction_details db ?ids uid"
  let ?uids = "concat (map (\<lambda>i. concat (map rd_reactor_uids (?details i))) ?ids)"
  have one: "?details (m_id m) = load_reaction_details db [m_id m] uid (m_id m)"
  proof -
    have "(\<lambda>r. mr_message_id r \<in> set ?ids \<and> mr_message_id r = m_id m) =
        (\<lambda>r. mr_message_id r \<in> set [m_id m] \<and> mr_message_id r = m_id m)" using True by (auto simp: fun_eq_iff)
    then show ?thesis unfolding load_reaction_details_def by (rule arg_cong)
  qed
  have "reaction_summary_of (lookup_avatars vc ?uids)
        (\<lambda>u. Option.bind (lookup_user_profiles (vc_discuz vc) ?uids u) upr_username) d =
      reaction_summary_of (vc_avatar vc) (\<lambda>u. Option.bind (profile_of vc u) upr_username) d"
    if d: "d \<in> set (?details (m_id m))" for d
  proof -
    have "u \<in> set ?uids" if "u \<in> set (rd_reactor_uids d)" for u
    proof -
      have "u \<in> set (concat (map rd_reactor_uids (?details (m_id m))))" using d that by auto
      with True show ?thesis unfolding set_concat [of "map _ ?ids"] set_map by blast
    qed
    then have "lookup_avatars vc ?uids u = vc_avatar vc u"
        "lookup_user_profiles (vc_discuz vc) ?uids u = profile_of vc u" if "u \<in> set (rd_reactor_uids d)" for u
      using that lookup_user_profiles_pointwise [of "vc_discuz vc" ?uids u]
      by (simp_all only: lookup_avatars_def profile_of_def if_True)
    then show ?thesis unfolding reaction_summary_of_def by simp
  qed
  then have "page_reactions vc db uid ms (m_id m) = reactions_of vc db uid (m_id m)"
    using True unfolding page_reactions_def Let_def only_def reactions_of_def one [symmetric] by simp
  with True show ?thesis by auto
next
  case False
  then have "\<not> (\<exists>x \<in> set ms. m_id x = m_id m \<and> m_has_reactions x)" by (simp add: image_iff) metis
  then have none: "(\<exists>x \<in> set ms. m_id x = m_id m \<and> m_has_reactions x) = False" by simp
  show ?thesis unfolding none if_False using False by (simp add: page_reactions_def Let_def only_def)
qed

text \<open>The parts of a response, each looked up by the page as it is in the tables.\<close>

abbreviation emojis_in :: "page_data \<Rightarrow> snowflake \<Rightarrow> ustr option" where
  "emojis_in pd \<equiv> (\<lambda>i. map_option (stk_emoji \<circ> fst) (pd_stickers pd i))"

abbreviation quoted :: "view_context \<Rightarrow> page_data \<Rightarrow> message_row \<Rightarrow> message_preview" where
  "quoted vc pd \<equiv> reply_preview (vc_parse_json vc) (pd_origins pd) (pd_avatars pd) (pd_profiles pd)
     (emojis_in pd) (pd_attachments pd)"

lemma load_page_fields:
  "pd_replies (load_page vc db uid ms) = page_replies db ms"
  "pd_origins (load_page vc db uid ms) = page_origins db ms"
  "pd_previews (load_page vc db uid ms) = page_previews vc ms"
  "pd_attachments (load_page vc db uid ms) = only (page_attachment_ids db ms) [] (attachments_of db)"
  "pd_stickers (load_page vc db uid ms) = only (page_sticker_ids db ms) None (sticker_of vc)"
  "pd_favorited (load_page vc db uid ms) = only (page_sticker_ids db ms) False (is_favorite vc uid)"
  "pd_thread_counts (load_page vc db uid ms) = only (map m_id (filter m_has_thread ms)) 0
     (\<lambda>i. int (count_rows (live_reply i) (messages db)))"
  "pd_reactions (load_page vc db uid ms) = page_reactions vc db uid ms"
  by (simp_all add: load_page_def Let_def)

lemma everything_fields:
  "pd_replies (everything vc db uid) = citable db" "pd_origins (everything vc db uid) = everywhere db"
  "pd_previews (everything vc db uid) = preview_of vc" "pd_avatars (everything vc db uid) = vc_avatar vc"
  "pd_profiles (everything vc db uid) = profile_of vc"
  "pd_attachments (everything vc db uid) = attachments_of db"
  "pd_stickers (everything vc db uid) = sticker_of vc"
  "pd_favorited (everything vc db uid) = is_favorite vc uid"
  "pd_thread_counts (everything vc db uid) = (\<lambda>i. int (count_rows (live_reply i) (messages db)))"
  by (simp_all add: everything_def Let_def citable_def)

lemma page_items:
  assumes "x \<in> set (live_rows ms) \<union> set (page_replies db ms) \<union> set (live_rows (fo_replies (page_origins db ms)))"
  shows "pd_attachments (load_page vc db uid ms) (m_id x) = attachments_of db (m_id x)"
    and "m_sticker_id x = Some i \<Longrightarrow> pd_stickers (load_page vc db uid ms) i = sticker_of vc i"
    and "m_sticker_id x = Some i \<Longrightarrow> pd_favorited (load_page vc db uid ms) i = is_favorite vc uid i"
  using assms
  by (auto simp: load_page_fields only_def page_attachment_ids_def page_sticker_ids_def in_map_filter)

lemma page_origin_names:
  assumes "original_of (page_origins db ms) x = original_of (everywhere db) x"
  shows "name_for (page_origins db ms) x (pd_profiles (load_page vc db uid ms)) =
    name_for (everywhere db) x (profile_of vc)"
proof (cases "original_of (page_origins db ms) x")
  case (Some r)
  then have "m_sender_uid r \<in> set (page_uids vc db ms)"
    using original_uids [OF Some] by (simp add: page_uids_def)
  then have "pd_profiles (load_page vc db uid ms) (m_sender_uid r) = profile_of vc (m_sender_uid r)"
    by (intro page_accounts) simp
  with Some assms show ?thesis by (simp add: name_for_def)
qed (use assms in \<open>simp add: name_for_def\<close>)

lemma quoted_reply_agrees:
  assumes "r \<in> set (page_replies db ms)"
  shows "quoted vc (load_page vc db uid ms) r = quoted vc (everything vc db uid) r"
proof (rule reply_preview_cong)
  have "m_sender_uid r \<in> set (page_uids vc db ms) \<union> set (page_mentions db ms)"
    using assms by (simp add: page_uids_def)
  then show "pd_avatars (load_page vc db uid ms) (m_sender_uid r) = pd_avatars (everything vc db uid) (m_sender_uid r)"
    "pd_profiles (load_page vc db uid ms) (m_sender_uid r) = pd_profiles (everything vc db uid) (m_sender_uid r)"
    by (simp_all only: page_accounts everything_fields)
  fix u assume "u \<in> set (extract_mention_uids (live_text r))"
  then have "u \<in> set (page_uids vc db ms) \<union> set (page_mentions db ms)"
    using assms by (auto simp: page_mentions_def)
  then show "pd_avatars (load_page vc db uid ms) u = pd_avatars (everything vc db uid) u \<and>
      pd_profiles (load_page vc db uid ms) u = pd_profiles (everything vc db uid) u"
    by (simp only: page_accounts everything_fields simp_thms)
next
  have "original_of (page_origins db ms) r = original_of (everywhere db) r"
    unfolding page_origins_def by (rule original_of_source) (use assms in simp)
  then show "name_for (pd_origins (load_page vc db uid ms)) r (pd_profiles (load_page vc db uid ms)) =
      name_for (pd_origins (everything vc db uid)) r (pd_profiles (everything vc db uid))"
    unfolding load_page_fields everything_fields by (rule page_origin_names)
next
  show "pd_attachments (load_page vc db uid ms) (m_id r) = pd_attachments (everything vc db uid) (m_id r)"
    unfolding everything_fields by (rule page_items) (use assms in simp)
next
  show "Option.bind (m_sticker_id r) (emojis_in (load_page vc db uid ms)) =
      Option.bind (m_sticker_id r) (emojis_in (everything vc db uid))"
  proof (cases "m_sticker_id r")
    case (Some i)
    then show ?thesis using page_items(2) [of r ms db i] assms by (simp add: everything_fields)
  qed simp
qed

lemma quoted_source_agrees:
  assumes "x \<in> set (fo_replies (page_origins db ms))"
  shows "quoted vc (load_page vc db uid ms) x = quoted vc (everything vc db uid) x"
proof (rule reply_preview_cong)
  have "m_sender_uid x \<in> set (page_uids vc db ms) \<union> set (page_mentions db ms)"
    using reply_uids(1) [OF assms] by (simp add: page_uids_def)
  then show "pd_avatars (load_page vc db uid ms) (m_sender_uid x) = pd_avatars (everything vc db uid) (m_sender_uid x)"
    "pd_profiles (load_page vc db uid ms) (m_sender_uid x) = pd_profiles (everything vc db uid) (m_sender_uid x)"
    by (simp_all only: page_accounts everything_fields)
  fix u assume "u \<in> set (extract_mention_uids (live_text x))"
  then have "u \<in> set (page_uids vc db ms) \<union> set (page_mentions db ms)"
    using reply_uids(2) [OF assms] by (auto simp: page_uids_def)
  then show "pd_avatars (load_page vc db uid ms) u = pd_avatars (everything vc db uid) u \<and>
      pd_profiles (load_page vc db uid ms) u = pd_profiles (everything vc db uid) u"
    by (simp only: page_accounts everything_fields simp_thms)
next
  have "original_of (page_origins db ms) x = original_of (everywhere db) x"
    using assms unfolding page_origins_def by (rule original_of_reply)
  then show "name_for (pd_origins (load_page vc db uid ms)) x (pd_profiles (load_page vc db uid ms)) =
      name_for (pd_origins (everything vc db uid)) x (pd_profiles (everything vc db uid))"
    unfolding load_page_fields everything_fields by (rule page_origin_names)
next
  assume "m_deleted_at x = None"
  then have live: "x \<in> set (live_rows (fo_replies (page_origins db ms)))"
    using assms by (simp add: live_rows_def)
  then show "pd_attachments (load_page vc db uid ms) (m_id x) = pd_attachments (everything vc db uid) (m_id x)"
    unfolding everything_fields by (intro page_items) simp
  show "Option.bind (m_sticker_id x) (emojis_in (load_page vc db uid ms)) =
      Option.bind (m_sticker_id x) (emojis_in (everything vc db uid))"
  proof (cases "m_sticker_id x")
    case (Some i)
    then show ?thesis using page_items(2) [of x ms db i] live by (simp add: everything_fields)
  qed simp
qed

lemma origin_agrees:
  assumes "distinct_keys m_id (messages db)" and "m \<in> set ms"
  shows "info_for (vc_parse_json vc) (pd_origins (load_page vc db uid ms)) (pd_avatars (load_page vc db uid ms))
      (pd_profiles (load_page vc db uid ms)) (emojis_in (load_page vc db uid ms))
      (pd_attachments (load_page vc db uid ms)) m =
    info_for (vc_parse_json vc) (pd_origins (everything vc db uid)) (pd_avatars (everything vc db uid))
      (pd_profiles (everything vc db uid)) (emojis_in (everything vc db uid))
      (pd_attachments (everything vc db uid)) m"
proof -
  have m: "m \<in> set (ms @ page_replies db ms)" using assms(2) by simp
  have same: "original_of (page_origins db ms) m = original_of (everywhere db) m"
    unfolding page_origins_def by (rule original_of_source [OF m])
  show ?thesis
  proof (cases "original_of (page_origins db ms) m")
    case None
    with same show ?thesis by (simp add: info_for_def load_page_fields everything_fields)
  next
    case (Some r)
    then have "m_sender_uid r \<in> set (page_uids vc db ms) \<union> set (page_mentions db ms)"
      using original_uids [OF Some] by (simp add: page_uids_def)
    then have sender: "build_sender (m_sender_uid r) (pd_avatars (load_page vc db uid ms))
          (pd_profiles (load_page vc db uid ms)) = build_sender (m_sender_uid r) (vc_avatar vc) (profile_of vc)"
      by (simp only: build_sender_def page_accounts)
    have "r \<in> set (fo_originals (load_attribution db (ms @ page_replies db ms)))"
      using Some unfolding page_origins_def by (rule original_of_source(2) [OF m])
    from reply_of_original [OF assms(1) this]
    have cited: "Option.bind (m_reply_to_id r) (row_with_id (fo_replies (page_origins db ms))) =
        Option.bind (m_reply_to_id r) (row_with_id (citable db))"
      by (simp only: page_origins_def)
    have "map_option (quoted vc (load_page vc db uid ms))
          (Option.bind (m_reply_to_id r) (row_with_id (fo_replies (page_origins db ms)))) =
        map_option (quoted vc (everything vc db uid))
          (Option.bind (m_reply_to_id r) (row_with_id (fo_replies (page_origins db ms))))"
      by (intro option.map_cong refl quoted_source_agrees)
        (auto simp: bind_eq_Some_conv dest: row_with_id_Some)
    moreover have "original_of (everywhere db) m = Some r" using same Some by simp
    ultimately show ?thesis
      using sender Some cited by (simp add: info_for_def load_page_fields everything_fields)
  qed
qed

lemma preview_agrees:
  assumes "bundles_ready vc (List.map_filter shows_bundle ms)" and "m \<in> set ms" and "shows_bundle m = Some i"
  shows "map_option (\<lambda>p. forwarded_preview_response p (pd_avatars (load_page vc db uid ms))
      (pd_profiles (load_page vc db uid ms))) (pd_previews (load_page vc db uid ms) i) =
    map_option (\<lambda>p. forwarded_preview_response p (vc_avatar vc) (profile_of vc)) (preview_of vc i)"
proof -
  have i: "i \<in> set (page_bundles ms)" using assms(2,3) by (auto simp: page_bundles_def in_map_filter)
  have ready: "bundles_ready vc (page_bundles ms)"
    using assms(1) by (simp add: bundles_ready_def page_bundles_def)
  have same: "page_previews vc ms i = preview_of vc i"
    unfolding page_previews_def by (rule load_previews_ready [OF ready _ i]) (simp add: page_bundles_def)
  have uids: "u \<in> set (page_uids vc db ms)"
    if "page_previews vc ms i = Some p" "u \<in> set (preview_item_uids (ps_messages p))" for p u
    using that i by (force simp: page_uids_def)
  have "forwarded_preview_response p (pd_avatars (load_page vc db uid ms)) (pd_profiles (load_page vc db uid ms)) =
      forwarded_preview_response p (vc_avatar vc) (profile_of vc)"
    if "page_previews vc ms i = Some p" for p
  proof -
    have accounts: "pd_avatars (load_page vc db uid ms) u = vc_avatar vc u \<and>
        pd_profiles (load_page vc db uid ms) u = profile_of vc u"
      if "item \<in> set (ps_messages p)" "u = fp_sender_uid item \<or> u \<in> set (fp_mention_uids item)" for item u
      using that uids [OF \<open>page_previews vc ms i = Some p\<close>, of u]
      by (intro conjI page_accounts) (auto simp: preview_item_uids_def)
    show ?thesis
      unfolding forwarded_preview_response_def forwarded_preview_item_response_def
        build_sender_def build_mention_info_def Let_def
      using accounts by (auto intro!: map_cong)
  qed
  with same show ?thesis by (auto simp: load_page_fields intro: option.map_cong)
qed

lemma build_response_agrees:
  assumes keys: "distinct_keys m_id (messages db)"
    and ready: "bundles_ready vc (List.map_filter shows_bundle ms)"
    and m: "m \<in> set ms" and reactions: "R (m_id m) = R' (m_id m)"
  shows "build_response vc ((load_page vc db uid ms)\<lparr>pd_reactions := R\<rparr>) m =
    build_response vc ((everything vc db uid)\<lparr>pd_reactions := R'\<rparr>) m"
proof -
  let ?page = "load_page vc db uid ms" and ?all = "everything vc db uid"
  let ?cited = "Option.bind (Option.bind (m_reply_to_id m) (row_with_id (pd_replies ?page)))
      (\<lambda>r. if in_reply_scope r (m_chat_id m) (m_reply_root_id m) then Some r else None)"
  have "m_sender_uid m \<in> set (page_uids vc db ms) \<union> set (page_mentions db ms)"
    using m by (simp add: page_uids_def)
  then have sender: "build_sender (m_sender_uid m) (pd_avatars ?page) (pd_profiles ?page) =
      build_sender (m_sender_uid m) (pd_avatars ?all) (pd_profiles ?all)"
    by (simp only: build_sender_def page_accounts everything_fields)
  have mentions: "map (\<lambda>u. build_mention_info u (pd_avatars ?page) (pd_profiles ?page)) (extract_mention_uids (live_text m)) =
      map (\<lambda>u. build_mention_info u (pd_avatars ?all) (pd_profiles ?all)) (extract_mention_uids (live_text m))"
  proof (rule map_cong [OF refl])
    fix u assume "u \<in> set (extract_mention_uids (live_text m))"
    then have "u \<in> set (page_uids vc db ms) \<union> set (page_mentions db ms)"
      using m by (auto simp: page_mentions_def)
    then show "build_mention_info u (pd_avatars ?page) (pd_profiles ?page) =
        build_mention_info u (pd_avatars ?all) (pd_profiles ?all)"
      by (simp only: build_mention_info_def page_accounts everything_fields)
  qed
  have "map_option (quoted vc ?page) ?cited = map_option (quoted vc ?all) ?cited"
    by (intro option.map_cong refl quoted_reply_agrees)
      (auto simp: bind_eq_Some_conv load_page_fields split: if_splits dest: row_with_id_Some)
  then have reply: "map_option (quoted vc ?page) ?cited = map_option (quoted vc ?all)
      (Option.bind (Option.bind (m_reply_to_id m) (row_with_id (pd_replies ?all)))
        (\<lambda>r. if in_reply_scope r (m_chat_id m) (m_reply_root_id m) then Some r else None))"
    using page_replies_lookup [OF keys m] by (simp only: load_page_fields everything_fields)
  have preview: "map_option (\<lambda>p. forwarded_preview_response p (pd_avatars ?page) (pd_profiles ?page))
        (Option.bind (shows_bundle m) (pd_previews ?page)) =
      map_option (\<lambda>p. forwarded_preview_response p (pd_avatars ?all) (pd_profiles ?all))
        (Option.bind (shows_bundle m) (pd_previews ?all))"
    using preview_agrees [OF ready m] by (cases "shows_bundle m") (simp_all add: everything_fields)
  have sticker: "(if m_deleted_at m \<noteq> None then None else Option.bind (m_sticker_id m)
        (\<lambda>i. map_option (sticker_response vc (pd_favorited ?page i)) (pd_stickers ?page i))) =
      (if m_deleted_at m \<noteq> None then None else Option.bind (m_sticker_id m)
        (\<lambda>i. map_option (sticker_response vc (pd_favorited ?all i)) (pd_stickers ?all i)))"
    using page_items(2,3) [of m ms db] m
    by (cases "m_sticker_id m") (simp_all add: live_rows_def everything_fields)
  have attached: "(if m_deleted_at m \<noteq> None then [] else map (attachment_response_of vc) (pd_attachments ?page (m_id m))) =
      (if m_deleted_at m \<noteq> None then [] else map (attachment_response_of vc) (pd_attachments ?all (m_id m)))"
    using page_items(1) [of m ms db vc uid] m by (simp add: live_rows_def everything_fields)
  have thread: "(if m_has_thread m then Some (pd_thread_counts ?page (m_id m)) else None) =
      (if m_has_thread m then Some (pd_thread_counts ?all (m_id m)) else None)"
    using m by (auto simp: load_page_fields everything_fields only_def)
  have kept: "pd_replies (pd\<lparr>pd_reactions := X\<rparr>) = pd_replies pd" "pd_origins (pd\<lparr>pd_reactions := X\<rparr>) = pd_origins pd"
    "pd_previews (pd\<lparr>pd_reactions := X\<rparr>) = pd_previews pd" "pd_avatars (pd\<lparr>pd_reactions := X\<rparr>) = pd_avatars pd"
    "pd_profiles (pd\<lparr>pd_reactions := X\<rparr>) = pd_profiles pd"
    "pd_attachments (pd\<lparr>pd_reactions := X\<rparr>) = pd_attachments pd"
    "pd_stickers (pd\<lparr>pd_reactions := X\<rparr>) = pd_stickers pd"
    "pd_favorited (pd\<lparr>pd_reactions := X\<rparr>) = pd_favorited pd"
    "pd_thread_counts (pd\<lparr>pd_reactions := X\<rparr>) = pd_thread_counts pd"
    "pd_reactions (pd\<lparr>pd_reactions := X\<rparr>) = X" for pd :: page_data and X
    by simp_all
  show ?thesis
    unfolding build_response_def Let_def kept
    by (simp only: sender mentions reply preview sticker attached thread reactions
        origin_agrees [OF keys m, of vc uid])
qed

lemma respond_all_agrees:
  assumes "\<And>m. m \<in> set ms \<Longrightarrow> build_response vc (pd\<lparr>pd_reactions := pd_reactions pd\<rparr>) m = view m"
    and "distinct (map m_id ms)" and "m_id ` set ms \<inter> set taken = {}"
  shows "respond_all vc pd taken ms = map view ms"
  using assms
proof (induction ms arbitrary: taken)
  case (Cons m ms)
  have "build_response vc (pd\<lparr>pd_reactions := (\<lambda>i. if i \<in> set taken then [] else pd_reactions pd i)\<rparr>) m =
      build_response vc (pd\<lparr>pd_reactions := pd_reactions pd\<rparr>) m"
    using Cons.prems(3) by (simp add: build_response_def Let_def)
  moreover have "respond_all vc pd (m_id m # taken) ms = map view ms"
    using Cons.prems by (intro Cons.IH) auto
  ultimately show ?case using Cons.prems(1) [of m] by simp
qed simp


text \<open>A page with a reaction, a reply to a message of the page, and a forwarded bundle.\<close>

definition sample_row :: "snowflake \<Rightarrow> message_type \<Rightarrow> snowflake option \<Rightarrow> message_row" where
  "sample_row i t reply_to =
     \<lparr>m_id = i, m_message = Some (ascii ''hi''), m_message_type = t, m_reply_to_id = reply_to,
      m_reply_root_id = None, m_client_generated_id = [nat i], m_sender_uid = 2, m_chat_id = 10,
      m_created_at = i, m_updated_at = None, m_deleted_at = None, m_has_attachments = False,
      m_has_thread = False, m_has_reactions = True, m_sticker_id = None, m_is_published = True,
      m_transcode_status = TranscodeNone,
      m_forwarded_bundle_id = (if t = Forwarded then Some 7 else None),
      m_forwarded_from_message_id = None, m_system_kind = None\<rparr>"

definition sample_page :: "message_row list" where
  "sample_page = [sample_row 100 Text None, sample_row 101 Text (Some 100), sample_row 102 Forwarded None]"

definition sample_page_db :: chat_db where
  "sample_page_db = empty_chat_db\<lparr>messages := sample_page,
     message_reactions := [\<lparr>mr_message_id = 100, mr_user_uid = 1, mr_emoji = [9829], mr_created_at = 5,
       mr_message_author_uid = 2\<rparr>]\<rparr>"

definition sample_view_context :: view_context where
  "sample_view_context =
     \<lparr>vc_stickers = [], vc_media = [], vc_favorites = [],
      vc_bundles = [\<lparr>fb_id = 7, fb_created_by_uid = 2, fb_created_at = 3, fb_item_count = 1, fb_payload = JNull,
        fb_child_bundle_ids = [], fb_preview = JNull\<rparr>],
      vc_discuz = \<lparr>common_member = [], common_member_profile = [], common_usergroup = [], usergroup_extras = []\<rparr>,
      vc_public_url = (\<lambda>k. k), vc_avatar = (\<lambda>_. None), vc_parse_json = (\<lambda>_. None),
      vc_decode_preview = (\<lambda>_. Some [])\<rparr>"


abbreviation with_content ::
  "message_row \<Rightarrow> ustr option \<Rightarrow> snowflake option \<Rightarrow> bool \<Rightarrow> bool \<Rightarrow> snowflake option \<Rightarrow> snowflake option \<Rightarrow> message_row" where
  "with_content m body sticker attached reacted bundle origin \<equiv>
     m\<lparr>m_message := body, m_sticker_id := sticker, m_has_attachments := attached, m_has_reactions := reacted,
       m_forwarded_bundle_id := bundle, m_forwarded_from_message_id := origin\<rparr>"



end
