(* ===== verification/Chat_Read.thy ===== *)
theory Chat_Read
  imports System_Messages
begin

text \<open>
  \<open>backend/src/services/chat.rs\<close>: the read position of a member in a chat, the chat's pointer to
  its last message, and the correction of both when messages are deleted. \<open>count_unread\<close> is the
  unread count of \<open>services/unread\<close>.
\<close>

definition publish_membership_changed :: "uid \<Rightarrow> snowflake \<Rightarrow> 'p registry \<Rightarrow> 'p registry" where
  "publish_membership_changed uid chat_id r =
     broadcast_to_uids [uid] (WsChatMembershipChanged chat_id) r"

text \<open>A row of the chat's main timeline.\<close>

definition timeline_row :: "snowflake \<Rightarrow> message_row \<Rightarrow> bool" where
  "timeline_row chat_id m \<longleftrightarrow>
     m_chat_id m = chat_id \<and> m_is_published m \<and> m_reply_root_id m = None \<and>
     (m_deleted_at m = None \<or> m_has_thread m)"

section \<open>Reading\<close>

definition get_chat_last_read_message_id ::
  "tables \<Rightarrow> snowflake \<Rightarrow> uid \<Rightarrow> db_error + snowflake option" where
  "get_chat_last_read_message_id db chat_id uid =
     map_sum id gm_last_read_message_id
       (ok_or (first_row (is_membership_of (chat_id, uid)) (memberships db)) DbNotFound)"

definition oldest_id :: "(message_row \<Rightarrow> bool) \<Rightarrow> message_row list \<Rightarrow> snowflake option" where
  "oldest_id P ms = map_option m_id (top_by (\<lambda>m. - m_id m) (filter P ms))"

definition skip_hidden_membership_tail :: "chat_db \<Rightarrow> snowflake \<Rightarrow> snowflake \<Rightarrow> snowflake" where
  "skip_hidden_membership_tail db chat_id message_id =
     (let next_visible = oldest_id (\<lambda>m. timeline_row chat_id m \<and> m_id m > message_id \<and> not_membership m)
            (messages db);
          bound = (case next_visible of None \<Rightarrow> 9223372036854775807 | Some i \<Rightarrow> i)
      in case newest_id (\<lambda>m. timeline_row chat_id m \<and> m_id m > message_id \<and> m_id m < bound)
             (messages db) of
           None \<Rightarrow> message_id | Some i \<Rightarrow> i)"

definition mark_chat_as_read ::
  "snowflake \<Rightarrow> uid \<Rightarrow> snowflake \<Rightarrow> chat_db \<Rightarrow> db_error + bool \<times> chat_db" where
  "mark_chat_as_read chat_id uid message_id db =
     and_then (load_membership_message_filter (core db) uid chat_id) (\<lambda>hides.
       let message_id = (if hides then skip_hidden_membership_tail db chat_id message_id else message_id);
           moves = (\<lambda>m. is_membership_of (chat_id, uid) m \<and> behind (gm_last_read_message_id m) message_id);
           rows = memberships (core db)
       in Inr (exists_row moves rows,
            db\<lparr>core := (core db)\<lparr>memberships := update_rows moves
                 (\<lambda>m. m\<lparr>gm_last_read_message_id := Some message_id\<rparr>) rows\<rparr>\<rparr>))"

record chat_read_state =
  crs_last_read_message_id :: "snowflake option"
  crs_unread_count :: int
  crs_receipt_advanced :: bool

definition mark_chat_as_read_state ::
  "(chat_db \<Rightarrow> uid \<Rightarrow> snowflake \<Rightarrow> snowflake option \<Rightarrow> db_error + int) \<Rightarrow>
   snowflake \<Rightarrow> uid \<Rightarrow> snowflake \<Rightarrow> chat_db \<Rightarrow> db_error + chat_read_state \<times> chat_db" where
  "mark_chat_as_read_state count_unread chat_id uid message_id db =
     and_then (mark_chat_as_read chat_id uid message_id db) (\<lambda>(_, db).
     let (advanced, db) = advance_chat_read_receipt chat_id uid message_id db
     in and_then (get_chat_last_read_message_id (core db) chat_id uid) (\<lambda>last_read.
        and_then (count_unread db uid chat_id last_read) (\<lambda>unread.
          Inr (\<lparr>crs_last_read_message_id = last_read, crs_unread_count = unread,
                crs_receipt_advanced = advanced\<rparr>, db))))"

section \<open>The last message of a chat\<close>

definition recalculate_group_last_message :: "snowflake \<Rightarrow> chat_db \<Rightarrow> chat_db" where
  "recalculate_group_last_message chat_id db =
     (let last = top_by m_id (select_rows (\<lambda>m. m_chat_id m = chat_id \<and> m_deleted_at m = None \<and>
            m_is_published m \<and> m_reply_root_id m = None) (messages db))
      in db\<lparr>core := (core db)\<lparr>groups := update_rows (\<lambda>g. g_id g = chat_id)
           (\<lambda>g. g\<lparr>g_last_message_id := map_option m_id last,
                  g_last_message_at := map_option m_created_at last\<rparr>) (groups (core db))\<rparr>\<rparr>)"

definition shift_chat_read_pointers_on_delete ::
  "snowflake \<Rightarrow> snowflake list \<Rightarrow> chat_db \<Rightarrow> nat \<times> chat_db" where
  "shift_chat_read_pointers_on_delete chat_id deleted_message_ids db =
     (if deleted_message_ids = [] then (0, db)
      else let P = (\<lambda>m. gm_chat_id m = chat_id \<and> anchored (gm_last_read_message_id m) deleted_message_ids);
               rows = memberships (core db)
           in (count_rows P rows,
               db\<lparr>core := (core db)\<lparr>memberships := update_rows P
                    (\<lambda>r. r\<lparr>gm_last_read_message_id := newest_id
                       (\<lambda>m. timeline_row chat_id m \<and>
                          (case gm_last_read_message_id r of None \<Rightarrow> False | Some l \<Rightarrow> m_id m < l))
                       (messages db)\<rparr>) rows\<rparr>\<rparr>))"

end
