(* ===== verification/Membership_Checks.thy ===== *)
theory Membership_Checks
  imports Chat_Read
begin

text \<open>
  The checks that the endpoints of a chat start with: \<open>backend/src/services/api/members.rs\<close>,
  \<open>services/api/groups.rs\<close>, \<open>services/api/threads.rs\<close>, and \<open>utils/pagination.rs\<close>.
\<close>

definition check_membership :: "tables \<Rightarrow> snowflake \<Rightarrow> uid \<Rightarrow> app_error + unit" where
  "check_membership db chat_id uid =
     (if count_rows (is_membership_of (chat_id, uid)) (memberships db) = 0
      then Inl (Forbidden ''Not a member of this chat'') else Inr ())"

definition load_requester_group_role :: "tables \<Rightarrow> snowflake \<Rightarrow> uid \<Rightarrow> group_role option" where
  "load_requester_group_role db chat_id uid =
     map_option gm_role (first_row (is_membership_of (chat_id, uid)) (memberships db))"

definition require_admin_role :: "tables \<Rightarrow> snowflake \<Rightarrow> uid \<Rightarrow> app_error + unit" where
  "require_admin_role db chat_id uid =
     (case load_requester_group_role db chat_id uid of
        Some Admin \<Rightarrow> Inr ()
      | Some _ \<Rightarrow> Inl (Forbidden ''Admin role required'')
      | None \<Rightarrow> Inl (Forbidden ''Not a member of this chat''))"

definition authorize_thread_in_chat :: "chat_db \<Rightarrow> snowflake \<Rightarrow> snowflake \<Rightarrow> uid \<Rightarrow> app_error + unit" where
  "authorize_thread_in_chat db chat_id thread_root_id uid =
     and_then (check_membership (core db) chat_id uid) (\<lambda>_.
       if exists_row (\<lambda>m. m_id m = thread_root_id \<and> m_chat_id m = chat_id \<and> m_reply_root_id m = None)
            (messages db)
       then Inr () else Inl (NotFound ''Thread root message not found''))"

definition resolve_chat_id_for_thread :: "chat_db \<Rightarrow> snowflake \<Rightarrow> app_error + snowflake" where
  "resolve_chat_id_for_thread db thread_root_id =
     ok_or (map_option m_chat_id (first_row (\<lambda>m. m_id m = thread_root_id) (messages db)))
       (NotFound ''Thread root message not found'')"

text \<open>\<open>validate_limit\<close>: at least 1, at most \<open>max\<close>.\<close>

definition validate_limit :: "int option \<Rightarrow> int \<Rightarrow> nat" where
  "validate_limit limit maximum =
     nat (max (case limit of None \<Rightarrow> maximum | Some l \<Rightarrow> min l maximum) 1)"

text \<open>A database error becomes an \<open>AppError\<close> through \<open>?\<close>.\<close>

definition db_result :: "db_error + 'a \<Rightarrow> app_error + 'a" where
  "db_result r = map_sum DbQuery (\<lambda>x. x) r"

lemma db_result_simps [simp]:
  "db_result (Inl e) = Inl (DbQuery e)"
  "db_result (Inr x) = Inr x"
  by (simp_all add: db_result_def)

lemma db_result_eq_Inr [result_simps]: "db_result r = Inr x \<longleftrightarrow> r = Inr x"
  by (cases r) simp_all

lemma validate_limit_bounds:
  "1 \<le> maximum \<Longrightarrow> 1 \<le> validate_limit limit maximum \<and> int (validate_limit limit maximum) \<le> maximum"
  by (auto simp: validate_limit_def split: option.split)

lemma check_membership_iff [result_simps]:
  "check_membership db chat_id uid = Inr x \<longleftrightarrow>
   (\<exists>m \<in> set (memberships db). membership_key m = (chat_id, uid))"
  by (auto simp: check_membership_def row_simps membership_table.matches_iff)

end
