(* ===== verification/Message_Send.thy ===== *)
theory Message_Send
  imports Message_View Membership_Checks
begin

text \<open>
  Sending a message: the composition rules, the authorization, \<open>send_prepared_message\<close> and its side
  effects in \<open>backend/src/services/messages.rs\<close>, and the endpoints \<open>post_message\<close> and
  \<open>post_thread_message\<close> of \<open>services/api/chats/messages.rs\<close>. A failed call leaves the database as
  it was (its transaction is rolled back), so only successes carry a new state. The message id is
  an argument, \<open>None\<close> when the generator failed.
\<close>

section \<open>Composition rules\<close>

definition validate_message_shape ::
  "message_type \<Rightarrow> ustr option \<Rightarrow> snowflake option \<Rightarrow> app_error + unit" where
  "validate_message_shape kind body sticker_id =
     (if kind = Placeholder \<and> Option.bind body placeholder_of_text = None
      then Inl (BadRequest ''Invalid placeholder reason'')
      else if sticker_id \<noteq> None \<and> kind \<noteq> Sticker
      then Inl (BadRequest ''Sticker ID is only valid for sticker messages'')
      else if kind = Sticker \<and> sticker_id = None then Inl (BadRequest ''Sticker ID is required'')
      else if kind = Sticker \<and> trimmed_nonempty body \<noteq> None
      then Inl (BadRequest ''Sticker messages cannot include text'')
      else Inr ())"

definition is_visual :: "attachment \<Rightarrow> bool" where
  "is_visual a \<longleftrightarrow> starts_with ''image/'' (at_kind a) \<or> starts_with ''video/'' (at_kind a)"

definition validate_attachments ::
  "message_type \<Rightarrow> bool \<Rightarrow> attachment list \<Rightarrow> app_error + unit" where
  "validate_attachments kind has_text files =
     (case kind of
        Text \<Rightarrow>
          if \<not> has_text \<and> files = [] then Inl (BadRequest ''Message cannot be empty'')
          else if list_ex (\<lambda>a. \<not> is_visual a) files
          then Inl (BadRequest ''Text messages can only include images or videos'') else Inr ()
      | File \<Rightarrow>
          if has_text then Inl (BadRequest ''File messages cannot include text'')
          else if files = [] then Inl (BadRequest ''File messages must include a file'') else Inr ()
      | Audio \<Rightarrow>
          if has_text \<or> length files \<noteq> 1 \<or> \<not> starts_with ''audio/'' (at_kind (hd files))
          then Inl (BadRequest ''Voice messages require one audio attachment'') else Inr ()
      | Sticker \<Rightarrow>
          if files = [] then Inr () else Inl (BadRequest ''Sticker messages cannot include attachments'')
      | Placeholder \<Rightarrow>
          if files = [] then Inr () else Inl (BadRequest ''Placeholder messages cannot include attachments'')
      | _ \<Rightarrow> Inr ())"

definition validate_message ::
  "message_type \<Rightarrow> ustr option \<Rightarrow> snowflake option \<Rightarrow> attachment list \<Rightarrow> app_error + unit" where
  "validate_message kind body sticker_id files =
     and_then (validate_message_shape kind body sticker_id) (\<lambda>_.
       if length files > max_attachments_per_message
       then Inl (BadRequest ''Too many attachments (maximum of 20 allowed)'')
       else validate_attachments kind (trimmed_nonempty body \<noteq> None) files)"

definition validate_client_message_type :: "message_type \<Rightarrow> app_error + unit" where
  "validate_client_message_type kind =
     (case kind of
        System \<Rightarrow> Inl (BadRequest ''System messages cannot be sent by clients'')
      | Invite \<Rightarrow> Inl (BadRequest ''Invite messages must be sent through invite APIs'')
      | Forwarded \<Rightarrow> Inl (BadRequest ''Forwarded messages must be sent through forward APIs'')
      | Placeholder \<Rightarrow> Inl (BadRequest ''Placeholder messages must be created through forward APIs'')
      | _ \<Rightarrow> Inr ())"

section \<open>Authorization\<close>

datatype message_send_authorization_error =
    NotChatMember | ThreadRootNotFound | ThreadRootNotText | InvalidDmParticipants
  | SendRestricted speaking_mode | DirectMessage dm_send_authorization_error

definition app_error_of_send :: "message_send_authorization_error \<Rightarrow> app_error" where
  "app_error_of_send e =
     (case e of
        NotChatMember \<Rightarrow> Forbidden ''Not a member of this chat''
      | ThreadRootNotFound \<Rightarrow> NotFound ''Thread root message not found''
      | ThreadRootNotText \<Rightarrow> BadRequest ''Threads can only be created on text messages''
      | InvalidDmParticipants \<Rightarrow> Forbidden ''Not a participant of this chat''
      | SendRestricted mode \<Rightarrow> SpeakingRestricted mode
      | DirectMessage e \<Rightarrow> app_error_of_dm e)"

record authorized_message_target =
  amt_kind :: group_kind
  amt_thread_root :: "message_row option"

definition dm_participant ::
  "tables \<Rightarrow> group_row \<Rightarrow> uid \<Rightarrow> message_send_authorization_error + unit" where
  "dm_participant db g uid =
     (if g_kind g \<noteq> Dm then Inr ()
      else and_then
        (case (g_dm_uid1 g, g_dm_uid2 g) of
           (Some uid1, Some uid2) \<Rightarrow>
             if uid1 = uid then Inr uid2 else if uid2 = uid then Inr uid1 else Inl InvalidDmParticipants
         | _ \<Rightarrow> Inl InvalidDmParticipants)
        (\<lambda>peer. map_sum DirectMessage id (check_can_dm db uid peer)))"

definition sendable_root :: "snowflake \<Rightarrow> snowflake \<Rightarrow> message_row \<Rightarrow> bool" where
  "sendable_root chat_id thread_id m \<longleftrightarrow>
     m_id m = thread_id \<and> m_chat_id m = chat_id \<and> m_reply_root_id m = None \<and> m_is_published m \<and>
     (m_deleted_at m = None \<or> m_has_thread m)"

definition load_thread_root ::
  "chat_db \<Rightarrow> snowflake \<Rightarrow> snowflake option \<Rightarrow> message_send_authorization_error + message_row option" where
  "load_thread_root db chat_id thread_id =
     (case thread_id of
        None \<Rightarrow> Inr None
      | Some t \<Rightarrow>
          and_then (ok_or (first_row (sendable_root chat_id t) (messages db)) ThreadRootNotFound) (\<lambda>thread.
            if m_message_type thread \<noteq> Text then Inl ThreadRootNotText else Inr (Some thread)))"

definition send_action :: "message_row option \<Rightarrow> speaking_action" where
  "send_action thread =
     (case thread of None \<Rightarrow> ChatMessage | Some r \<Rightarrow> if m_has_thread r then ThreadReply else CreateThread)"

definition authorize_message_send ::
  "chat_db \<Rightarrow> snowflake \<Rightarrow> snowflake option \<Rightarrow> uid \<Rightarrow>
   message_send_authorization_error + authorized_message_target" where
  "authorize_message_send db chat_id thread_id uid =
     and_then (ok_or (joined_member (core db) chat_id uid) NotChatMember) (\<lambda>(g, m).
     and_then (dm_participant (core db) g uid) (\<lambda>_.
     and_then (load_thread_root db chat_id thread_id) (\<lambda>thread.
       let mode = effective_mode (gm_role m) (g_speaking_mode g) (gm_speaking_mode m)
       in if g_kind g = Group \<and> \<not> allows mode (send_action thread) then Inl (SendRestricted mode)
          else Inr \<lparr>amt_kind = g_kind g, amt_thread_root = thread\<rparr>)))"

definition validate_reply_target ::
  "chat_db \<Rightarrow> snowflake \<Rightarrow> snowflake option \<Rightarrow> snowflake \<Rightarrow> app_error + unit" where
  "validate_reply_target db chat_id thread_id reply_to_id =
     and_then (ok_or (first_row (\<lambda>m. m_id m = reply_to_id \<and> m_chat_id m = chat_id \<and>
         m_deleted_at m = None \<and> m_is_published m) (messages db))
       (NotFound ''Reply target message not found'')) (\<lambda>m.
     and_then (guard_or (not_membership m) (BadRequest ''Cannot reply to membership messages'')) (\<lambda>_.
       guard_or (case thread_id of Some t \<Rightarrow> m_id m = t \<or> m_reply_root_id m = Some t
                 | None \<Rightarrow> m_reply_root_id m = None)
         (NotFound ''Reply target message not found'')))"

section \<open>Side effects\<close>

record push_job =
  pj_chat_id :: snowflake
  pj_sender_uid :: uid
  pj_sender_username :: ustr
  pj_chat_name :: ustr
  pj_message_preview :: push_message_preview
  pj_body_preview :: "ustr option"
  pj_message_id :: snowflake
  pj_thread_root_id :: "snowflake option"
  pj_mentioned_uids :: "uid list"
  pj_reply_target_uid :: "uid option"

record pending_side_effects =
  fx_ws_msg :: "chat_payload server_ws_message"
  fx_broadcast_uids :: "uid list"
  fx_push_job :: "push_job option"
  fx_notifications :: "(uid \<times> chat_payload server_ws_message) list"

definition load_username_by_uid :: "view_context \<Rightarrow> uid \<Rightarrow> ustr option" where
  "load_username_by_uid vc uid =
     Option.bind (lookup_user_profiles (vc_discuz vc) [uid] uid) upr_username"

definition someone :: "view_context \<Rightarrow> uid \<Rightarrow> ustr" where
  "someone vc uid = (case load_username_by_uid vc uid of None \<Rightarrow> ascii ''Someone'' | Some n \<Rightarrow> n)"

definition mentioned_members :: "uid list \<Rightarrow> uid \<Rightarrow> bool \<Rightarrow> message_response \<Rightarrow> uid list" where
  "mentioned_members members sender notify_mentions r =
     (if r_message_type r = System \<or> \<not> notify_mentions then []
      else filter (\<lambda>u. u \<noteq> sender \<and> u \<in> set members)
        (case r_message r of None \<Rightarrow> [] | Some txt \<Rightarrow> extract_mention_uids txt))"

definition reply_target :: "uid list \<Rightarrow> uid \<Rightarrow> message_response \<Rightarrow> uid option" where
  "reply_target members sender r =
     (if r_message_type r = System then None
      else case r_reply_to_message r of
          None \<Rightarrow> None
        | Some target \<Rightarrow>
            let u = u_uid (pv_sender target)
            in if pv_message_type target \<noteq> System \<and> u \<noteq> sender \<and> u \<in> set members then Some u else None)"

definition mention_row :: "message_response \<Rightarrow> snowflake \<Rightarrow> mention_kind \<Rightarrow> uid \<Rightarrow> message_mention" where
  "mention_row r chat_id kind uid =
     \<lparr>mm_message_id = r_id r, mm_mentioned_uid = uid, mm_chat_id = chat_id,
      mm_thread_root_id = r_reply_root_id r, mm_created_at = r_created_at r, mm_kind = kind\<rparr>"

definition insert_mentions :: "message_mention list \<Rightarrow> chat_db \<Rightarrow> chat_db" where
  "insert_mentions rows db =
     db\<lparr>message_mentions :=
       fold (\<lambda>r. insert_or_ignore (is_mention_of (mention_key r)) r) rows (message_mentions db)\<rparr>"

definition notice :: "message_response \<Rightarrow> snowflake \<Rightarrow> uid \<Rightarrow> ustr \<Rightarrow> notification_type \<Rightarrow>
    chat_payload server_ws_message" where
  "notice r chat_id sender actor_name kind =
     WsNotification (NotificationPayload
       \<lparr>np_notification_type = kind, np_chat_id = chat_id, np_message_id = r_id r,
        np_thread_root_id = r_reply_root_id r, np_actor_uid = sender, np_actor_name = Some actor_name\<rparr>)"

definition membership_recipients :: "chat_db \<Rightarrow> snowflake \<Rightarrow> uid list" where
  "membership_recipients db chat_id =
     map (gm_uid \<circ> snd) (filter (\<lambda>(g, m). g_id g = chat_id \<and> membership_allowed g m)
       (joined_chats (core db)))"

definition build_message_side_effects ::
  "view_context \<Rightarrow> message_response \<Rightarrow> uid \<Rightarrow> snowflake \<Rightarrow> bool \<Rightarrow> bool \<Rightarrow> chat_db \<Rightarrow>
   pending_side_effects \<times> chat_db" where
  "build_message_side_effects vc r sender chat_id enqueue_push notify_mentions db =
     (let members = member_uids (core db) chat_id (\<lambda>_. True);
          mentioned = mentioned_members members sender notify_mentions r;
          target = reply_target members sender r;
          preview = build_push_preview_bundle r;
          job = (if enqueue_push \<and> r_message_type r \<noteq> System
            then Some \<lparr>pj_chat_id = chat_id, pj_sender_uid = sender, pj_sender_username = someone vc sender,
              pj_chat_name = (case first_row (\<lambda>g. g_id g = chat_id) (groups (core db)) of
                None \<Rightarrow> ascii ''Chat'' | Some g \<Rightarrow> g_name g),
              pj_message_preview = pb_message_preview preview, pj_body_preview = pb_body_preview preview,
              pj_message_id = r_id r, pj_thread_root_id = r_reply_root_id r,
              pj_mentioned_uids = mentioned, pj_reply_target_uid = target\<rparr>
            else None);
          notified = filter (\<lambda>u. u \<notin> set mentioned) (case target of None \<Rightarrow> [] | Some u \<Rightarrow> [u]);
          told = (\<lambda>kind u. (u, notice r chat_id sender (someone vc sender) kind))
      in (\<lparr>fx_ws_msg = WsMessage (MessagePayload r),
           fx_broadcast_uids = (case r_system_kind r of
               Some k \<Rightarrow> if is_membership k then membership_recipients db chat_id else members
             | None \<Rightarrow> members),
           fx_push_job = job,
           fx_notifications = map (told NotifyMention) mentioned @ map (told NotifyReply) notified\<rparr>,
          insert_mentions (map (mention_row r chat_id MentionRow) mentioned @
            map (mention_row r chat_id ReplyRow) notified) db))"

text \<open>
  Firing: the chat's broadcast, the push job, and the notifications, adjacent ones with the same
  payload in one broadcast. (The code compares the payloads' pointers; the mention and the reply
  notification are the only two and differ.)
\<close>

fun batch_notifications ::
  "('u list \<times> 'm) list \<Rightarrow> ('u \<times> 'm) list \<Rightarrow> ('u list \<times> 'm) list" where
  "batch_notifications batches [] = batches"
| "batch_notifications batches ((uid, msg) # rest) =
     batch_notifications
       (case rev batches of
          (uids, m) # earlier \<Rightarrow> if m = msg then rev earlier @ [(uids @ [uid], m)] else batches @ [([uid], msg)]
        | [] \<Rightarrow> [([uid], msg)])
       rest"

definition fire ::
  "pending_side_effects \<Rightarrow> chat_payload registry \<times> push_job list \<Rightarrow>
   chat_payload registry \<times> push_job list" where
  "fire fx s =
     (case s of (r, jobs) \<Rightarrow>
        (fold (\<lambda>(uids, msg). broadcast_to_uids uids msg) (batch_notifications [] (fx_notifications fx))
           (broadcast_to_uids (fx_broadcast_uids fx) (fx_ws_msg fx) r),
         case fx_push_job fx of None \<Rightarrow> jobs | Some j \<Rightarrow> jobs @ [j]))"

section \<open>Sending\<close>

record prepared_message_send =
  p_system_kind :: "system_message_kind option"
  p_forwarded_from_message_id :: "snowflake option"
  p_chat_id :: snowflake
  p_chat_kind :: group_kind
  p_sender_uid :: uid
  p_message :: "ustr option"
  p_message_type :: message_type
  p_sticker_id :: "snowflake option"
  p_reply_to_id :: "snowflake option"
  p_reply_root_id :: "snowflake option"
  p_client_generated_id :: ustr
  p_attachment_ids :: "snowflake list"
  p_publish_immediately :: bool
  p_forwarded_bundle_id :: "snowflake option"
  p_forwarded_preview :: "preview_snapshot option"

text \<open>The three \<open>forwarded_preview_*\<close> fields are set together.\<close>

record send_message_result =
  sr_inserted_message :: message_row
  sr_response :: message_response
  sr_member_uids :: "uid list"
  sr_side_effects :: pending_side_effects

datatype send_message_outcome = Created send_message_result | Duplicate message_response

definition stored_text :: "prepared_message_send \<Rightarrow> ustr option" where
  "stored_text p = (if p_message_type p = Sticker then None else p_message p)"

definition new_message :: "prepared_message_send \<Rightarrow> snowflake \<Rightarrow> timestamp \<Rightarrow> message_row" where
  "new_message p i now =
     \<lparr>m_id = i, m_message = stored_text p, m_message_type = p_message_type p,
      m_reply_to_id = p_reply_to_id p, m_reply_root_id = p_reply_root_id p,
      m_client_generated_id = p_client_generated_id p, m_sender_uid = p_sender_uid p,
      m_chat_id = p_chat_id p, m_created_at = now, m_updated_at = None, m_deleted_at = None,
      m_has_attachments = (p_attachment_ids p \<noteq> []), m_has_thread = False, m_has_reactions = False,
      m_sticker_id = p_sticker_id p, m_is_published = p_publish_immediately p,
      m_transcode_status = (if p_message_type p = Audio
        then if p_publish_immediately p then TranscodeDone else TranscodePending else TranscodeNone),
      m_forwarded_bundle_id = p_forwarded_bundle_id p,
      m_forwarded_from_message_id = p_forwarded_from_message_id p, m_system_kind = p_system_kind p\<rparr>"

definition load_message_attachment_ids :: "chat_db \<Rightarrow> snowflake \<Rightarrow> snowflake list" where
  "load_message_attachment_ids db message_id = map at_id (attachments_of db message_id)"

definition validate_idempotent_message_payload ::
  "message_row \<Rightarrow> prepared_message_send \<Rightarrow> snowflake list \<Rightarrow> app_error + unit" where
  "validate_idempotent_message_payload existing p existing_attachment_ids =
     (if m_chat_id existing = p_chat_id p \<and> m_sender_uid existing = p_sender_uid p \<and>
         m_message existing = stored_text p \<and> m_message_type existing = p_message_type p \<and>
         m_system_kind existing = p_system_kind p \<and> m_sticker_id existing = p_sticker_id p \<and>
         m_reply_to_id existing = p_reply_to_id p \<and> m_reply_root_id existing = p_reply_root_id p \<and>
         m_forwarded_from_message_id existing = p_forwarded_from_message_id p \<and>
         m_forwarded_bundle_id existing = p_forwarded_bundle_id p \<and>
         existing_attachment_ids = p_attachment_ids p
      then Inr () else Inl (Conflict ''clientGeneratedId already exists with different payload''))"

definition apply_forwarded_preview_override ::
  "view_context \<Rightarrow> preview_snapshot option \<Rightarrow> message_response \<Rightarrow> message_response" where
  "apply_forwarded_preview_override vc preview r =
     (case preview of
        None \<Rightarrow> r
      | Some p \<Rightarrow>
          if r_is_deleted r then r
          else let uids = preview_item_uids (ps_messages p)
               in r\<lparr>r_forwarded_preview := Some (forwarded_preview_response p
                    (lookup_avatars vc uids) (lookup_user_profiles (vc_discuz vc) uids))\<rparr>)"

definition response_for ::
  "view_context \<Rightarrow> prepared_message_send \<Rightarrow> message_row \<Rightarrow> chat_db \<Rightarrow> app_error + message_response" where
  "response_for vc p m db =
     (case attach_metadata vc db (p_sender_uid p) [m] of
        [] \<Rightarrow> Inl (Internal ''Failed to build message response'')
      | r # _ \<Rightarrow> Inr (apply_forwarded_preview_override vc (p_forwarded_preview p) r))"

definition point_at_last :: "message_row \<Rightarrow> chat_db \<Rightarrow> chat_db" where
  "point_at_last m db =
     db\<lparr>core := (core db)\<lparr>groups := update_rows (\<lambda>g. g_id g = m_chat_id m)
          (\<lambda>g. g\<lparr>g_last_message_id := Some (m_id m), g_last_message_at := Some (m_created_at m)\<rparr>)
          (groups (core db))\<rparr>\<rparr>"

text \<open>\<open>array_position\<close> counts from 1.\<close>

definition attachment_position :: "snowflake list \<Rightarrow> snowflake \<Rightarrow> int" where
  "attachment_position ids i = int (length (takeWhile (\<lambda>j. j \<noteq> i) ids)) + 1"

definition associate_attachments ::
  "snowflake list \<Rightarrow> (attachment \<Rightarrow> bool) \<Rightarrow> snowflake \<Rightarrow> chat_db \<Rightarrow> app_error + chat_db" where
  "associate_attachments ids wanted message_id db =
     (if ids = [] then Inr db
      else let P = (\<lambda>a. at_id a \<in> set ids \<and> at_message_id a = None \<and> wanted a)
           in if count_rows P (attachments db) \<noteq> length ids
              then Inl (BadRequest ''Invalid attachment selection'')
              else Inr (db\<lparr>attachments := update_rows P
                (\<lambda>a. a\<lparr>at_message_id := Some message_id, at_order := attachment_position ids (at_id a) - 1\<rparr>)
                (attachments db)\<rparr>))"

definition valid_selection :: "snowflake list \<Rightarrow> (attachment \<Rightarrow> bool) \<Rightarrow> attachment list \<Rightarrow> bool" where
  "valid_selection ids usable locked \<longleftrightarrow>
     length locked = length ids \<and> list_all (\<lambda>a. at_deleted_at a = None \<and> usable a) locked"

definition locked_attachments :: "chat_db \<Rightarrow> snowflake list \<Rightarrow> attachment list" where
  "locked_attachments db ids = sort_key at_id (select_rows (\<lambda>a. at_id a \<in> set ids) (attachments db))"

definition no_side_effects :: "message_response \<Rightarrow> pending_side_effects" where
  "no_side_effects r =
     \<lparr>fx_ws_msg = WsMessage (MessagePayload r), fx_broadcast_uids = [], fx_push_job = None,
      fx_notifications = []\<rparr>"

definition store_message ::
  "view_context \<Rightarrow> prepared_message_send \<Rightarrow> message_row \<Rightarrow> chat_db \<Rightarrow>
   app_error + send_message_outcome \<times> chat_db" where
  "store_message vc p m db =
     (let db = db\<lparr>messages := messages db @ [m]\<rparr>;
          locked = locked_attachments db (p_attachment_ids p)
      in and_then (guard_or (valid_selection (p_attachment_ids p)
             (\<lambda>a. at_message_id a = None \<and> at_uploader_uid a = Some (p_sender_uid p)) locked)
           (BadRequest ''Invalid attachment selection'')) (\<lambda>_.
         and_then (validate_message (p_message_type p) (p_message p) (p_sticker_id p) locked) (\<lambda>_.
         let db = (if p_publish_immediately p \<and> p_reply_root_id p = None then point_at_last m db else db)
         in and_then (associate_attachments (p_attachment_ids p)
                (\<lambda>a. at_uploader_uid a = Some (p_sender_uid p)) (m_id m) db) (\<lambda>db.
            and_then (response_for vc p m db) (\<lambda>r.
              let (fx, db) = (if p_publish_immediately p
                    then build_message_side_effects vc r (p_sender_uid p) (p_chat_id p)
                           (p_message_type p \<noteq> System) (p_forwarded_from_message_id p = None) db
                    else (no_side_effects r, db))
              in Inr (Created \<lparr>sr_inserted_message = m, sr_response = r,
                   sr_member_uids = fx_broadcast_uids fx, sr_side_effects = fx\<rparr>, db))))))"

text \<open>The retry's row is looked up right after the insert found it, so it is there.\<close>

definition send_prepared_message ::
  "view_context \<Rightarrow> snowflake option \<Rightarrow> timestamp \<Rightarrow> prepared_message_send \<Rightarrow> chat_db \<Rightarrow>
   app_error + send_message_outcome \<times> chat_db" where
  "send_prepared_message vc new_id now p db =
     and_then (guard_or (\<not> (p_message_type p = Placeholder \<and>
           (p_attachment_ids p \<noteq> [] \<or> p_forwarded_bundle_id p \<noteq> None)))
         (BadRequest ''Placeholder messages cannot reference media or bundles'')) (\<lambda>_.
     and_then (case p_reply_to_id p of None \<Rightarrow> Inr ()
         | Some i \<Rightarrow> validate_reply_target db (p_chat_id p) (p_reply_root_id p) i) (\<lambda>_.
     and_then (validate_message_shape (p_message_type p) (p_message p) (p_sticker_id p)) (\<lambda>_.
     and_then (ok_or new_id (Internal ''ID generation failed'')) (\<lambda>i.
       case first_row (\<lambda>m. m_client_generated_id m = p_client_generated_id p) (messages db) of
         None \<Rightarrow> store_message vc p (new_message p i now) db
       | Some existing \<Rightarrow>
           and_then (validate_idempotent_message_payload existing p
               (load_message_attachment_ids db (m_id existing))) (\<lambda>_.
           and_then (response_for vc p existing db) (\<lambda>r. Inr (Duplicate r, db)))))))"

section \<open>The endpoints\<close>

record create_message_body =
  cb_message :: "ustr option"
  cb_message_type :: message_type
  cb_sticker_id :: "snowflake option"
  cb_client_generated_id :: ustr
  cb_reply_to_id :: "snowflake option"
  cb_attachment_ids :: "ustr list"

definition prepare_send ::
  "uid \<Rightarrow> snowflake \<Rightarrow> group_kind \<Rightarrow> snowflake option \<Rightarrow> snowflake list \<Rightarrow> create_message_body \<Rightarrow>
   prepared_message_send" where
  "prepare_send uid chat_id kind thread_id attachment_ids body =
     \<lparr>p_system_kind = None, p_forwarded_from_message_id = None, p_chat_id = chat_id, p_chat_kind = kind,
      p_sender_uid = uid, p_message = cb_message body, p_message_type = cb_message_type body,
      p_sticker_id = cb_sticker_id body, p_reply_to_id = cb_reply_to_id body, p_reply_root_id = thread_id,
      p_client_generated_id = cb_client_generated_id body, p_attachment_ids = attachment_ids,
      p_publish_immediately = (cb_message_type body \<noteq> Audio), p_forwarded_bundle_id = None,
      p_forwarded_preview = None\<rparr>"

text \<open>
  \<open>who\<close> is the answer of \<open>require_user_action\<close> for sending on behalf of the account. The result has
  the outcome and whether the sender's read receipt moved.
\<close>

definition post_message ::
  "view_context \<Rightarrow> app_error + uid \<Rightarrow> snowflake \<Rightarrow> create_message_body \<Rightarrow> snowflake option \<Rightarrow>
   timestamp \<Rightarrow> chat_db \<Rightarrow> app_error + (send_message_outcome \<times> bool) \<times> chat_db" where
  "post_message vc who chat_id body new_id now db =
     and_then who (\<lambda>uid.
     and_then (validate_client_message_type (cb_message_type body)) (\<lambda>_.
     and_then (parse_attachment_ids (cb_attachment_ids body)) (\<lambda>attachment_ids.
     and_then (map_sum app_error_of_send id (authorize_message_send db chat_id None uid)) (\<lambda>target.
     and_then (send_prepared_message vc new_id now
         (prepare_send uid chat_id (amt_kind target) None attachment_ids body) db) (\<lambda>(outcome, db).
       case outcome of
         Duplicate r \<Rightarrow> Inr ((outcome, False), db)
       | Created res \<Rightarrow>
           and_then (db_result (mark_chat_as_read chat_id uid (r_id (sr_response res)) db)) (\<lambda>(_, db).
             let (advanced, db) = advance_chat_read_receipt chat_id uid (r_id (sr_response res)) db
             in Inr ((outcome, advanced), db)))))))"

text \<open>After the commit: the sender's unread counters, the side effects, and the read receipt.\<close>

definition announce_post ::
  "uid \<Rightarrow> snowflake \<Rightarrow> send_message_outcome \<times> bool \<Rightarrow> chat_db \<Rightarrow>
   chat_payload registry \<times> push_job list \<Rightarrow> chat_payload registry \<times> push_job list" where
  "announce_post uid chat_id sent db s =
     (let (r, jobs) = s;
          s = (invalidate_unread [uid] r, jobs);
          (r, jobs) = (case fst sent of Created res \<Rightarrow> fire (sr_side_effects res) s | Duplicate _ \<Rightarrow> s)
      in (if snd sent then broadcast_read_receipt_changed_if_dm (core db) chat_id False (Some uid) None r
          else r, jobs))"

definition outcome_response :: "send_message_outcome \<Rightarrow> message_response" where
  "outcome_response outcome = (case outcome of Created res \<Rightarrow> sr_response res | Duplicate r \<Rightarrow> r)"

definition post_thread_message ::
  "view_context \<Rightarrow> uid \<Rightarrow> snowflake \<Rightarrow> snowflake \<Rightarrow> create_message_body \<Rightarrow> snowflake option \<Rightarrow>
   timestamp \<Rightarrow> timestamp \<Rightarrow> chat_db \<Rightarrow>
   app_error + (send_message_outcome \<times> thread_send_state) \<times> chat_db" where
  "post_thread_message vc uid chat_id thread_id body new_id now db_now db =
     and_then (validate_client_message_type (cb_message_type body)) (\<lambda>_.
     and_then (parse_attachment_ids (cb_attachment_ids body)) (\<lambda>attachment_ids.
     and_then (map_sum app_error_of_send id (authorize_message_send db chat_id (Some thread_id) uid)) (\<lambda>target.
     and_then (ok_or (amt_thread_root target)
       (Internal ''Thread authorization did not return a thread root'')) (\<lambda>thread.
     and_then (send_prepared_message vc new_id now
         (prepare_send uid chat_id (amt_kind target) (Some thread_id) attachment_ids body) db) (\<lambda>(outcome, db).
       case outcome of
         Duplicate r \<Rightarrow> Inr ((outcome, \<lparr>tss_receipt_advanced = False, tss_subscription_changes = []\<rparr>), db)
       | Created res \<Rightarrow>
           let (state, db) = record_thread_send (sr_response res) (sr_member_uids res) thread
                 (cb_message_type body \<noteq> Audio) True now db_now db
           in Inr ((outcome, state), db))))))"

definition broadcast_thread_send_updates ::
  "view_context \<Rightarrow> snowflake \<Rightarrow> snowflake \<Rightarrow> uid list \<Rightarrow> uid \<Rightarrow> chat_db \<Rightarrow> chat_payload registry \<Rightarrow>
   chat_payload registry" where
  "broadcast_thread_send_updates vc chat_id thread_id members uid db r =
     (let r = (case first_row (\<lambda>m. m_id m = thread_id \<and> m_chat_id m = chat_id) (messages db) of
            None \<Rightarrow> r
          | Some thread \<Rightarrow>
              (case attach_metadata vc db uid [thread] of
                 [] \<Rightarrow> r
               | root_response # _ \<Rightarrow>
                   broadcast_to_uids members (WsMessageUpdated (MessagePayload root_response)) r))
      in broadcast_thread_update_to_subscribers db chat_id thread_id r)"

text \<open>A retry is announced to nobody.\<close>

definition announce_thread_post ::
  "view_context \<Rightarrow> uid \<Rightarrow> snowflake \<Rightarrow> snowflake \<Rightarrow> send_message_outcome \<times> thread_send_state \<Rightarrow> chat_db \<Rightarrow>
   chat_payload registry \<times> push_job list \<Rightarrow> chat_payload registry \<times> push_job list" where
  "announce_thread_post vc uid chat_id thread_id sent db s =
     (case fst sent of
        Duplicate _ \<Rightarrow> s
      | Created res \<Rightarrow>
          let (r, jobs) = s;
              (r, jobs) = fire (sr_side_effects res) (invalidate_unread [uid] r, jobs);
              r = (if tss_receipt_advanced (snd sent)
                   then broadcast_read_receipt_changed_if_dm (core db) chat_id False (Some uid) (Some thread_id) r
                   else r);
              r = fold (\<lambda>u. broadcast_thread_membership_changed_to_user db u chat_id thread_id)
                    (tss_subscription_changes (snd sent)) r;
              r = (if m_is_published (sr_inserted_message res)
                   then broadcast_thread_send_updates vc chat_id thread_id (sr_member_uids res) uid db r else r)
          in (r, jobs))"

end
