(* ===== verification/Message_Deletion.thy ===== *)
theory Message_Deletion
  imports Membership_Checks
begin

text \<open>
  \<open>backend/src/services/message_deletion.rs\<close>, the deletion endpoints of
  \<open>services/api/chats/messages.rs\<close> and the cleanup job of \<open>services/background/mod.rs\<close>: messages
  are marked deleted, their mentions removed, and the rows that point at them (thread
  bookkeeping, read positions, the chat's last message) brought up to date.
\<close>

section \<open>Batches\<close>

text \<open>\<open>reply_ids\<close> is a \<open>BTreeMap\<close> and \<open>thread_root_ids\<close> a \<open>BTreeSet\<close>: sorted lists.\<close>

record deletion_impact =
  di_message_ids :: "snowflake list"
  di_thread_root_ids :: "snowflake list"
  di_reply_ids :: "(snowflake \<times> snowflake list) list"
  di_chat_message_ids :: "snowflake list"

definition empty_impact :: deletion_impact where
  "empty_impact = \<lparr>di_message_ids = [], di_thread_root_ids = [], di_reply_ids = [],
     di_chat_message_ids = []\<rparr>"

definition entry_extend :: "snowflake \<Rightarrow> snowflake list \<Rightarrow> (snowflake \<times> snowflake list) list \<Rightarrow>
    (snowflake \<times> snowflake list) list" where
  "entry_extend k ids kvs = ol_update k (\<lambda>v. (case v of None \<Rightarrow> [] | Some old \<Rightarrow> old) @ ids) kvs"

definition merge_impact :: "deletion_impact \<Rightarrow> deletion_impact \<Rightarrow> deletion_impact" where
  "merge_impact a b =
     \<lparr>di_message_ids = di_message_ids a @ di_message_ids b,
      di_thread_root_ids = fold List.insort_insert (di_thread_root_ids b) (di_thread_root_ids a),
      di_reply_ids = fold (\<lambda>(k, ids). entry_extend k ids) (di_reply_ids b) (di_reply_ids a),
      di_chat_message_ids = di_chat_message_ids a @ di_chat_message_ids b\<rparr>"

definition validate_deletable_message_type :: "message_type \<Rightarrow> app_error + unit" where
  "validate_deletable_message_type kind =
     (if kind = System then Inl (BadRequest ''Cannot delete system message'') else Inr ())"

definition note_deleted :: "message_row \<Rightarrow> deletion_impact \<Rightarrow> deletion_impact" where
  "note_deleted m impact =
     (let impact = impact\<lparr>di_message_ids := di_message_ids impact @ [m_id m]\<rparr>
      in case m_reply_root_id m of
           Some root_id \<Rightarrow>
             impact\<lparr>di_thread_root_ids := List.insort_insert root_id (di_thread_root_ids impact),
               di_reply_ids := entry_extend root_id [m_id m] (di_reply_ids impact)\<rparr>
         | None \<Rightarrow>
             impact\<lparr>di_chat_message_ids := di_chat_message_ids impact @ [m_id m],
               di_thread_root_ids := (if m_has_thread m
                 then List.insort_insert (m_id m) (di_thread_root_ids impact)
                 else di_thread_root_ids impact)\<rparr>)"

definition impact_of :: "message_row list \<Rightarrow> deletion_impact" where
  "impact_of targets = fold note_deleted targets empty_impact"

definition mark_deleted :: "snowflake list \<Rightarrow> timestamp \<Rightarrow> chat_db \<Rightarrow> chat_db" where
  "mark_deleted ids now db =
     db\<lparr>messages := update_rows (\<lambda>m. m_id m \<in> set ids \<and> m_deleted_at m = None)
          (\<lambda>m. m\<lparr>m_deleted_at := Some now\<rparr>) (messages db),
        message_mentions := delete_rows (\<lambda>r. mm_message_id r \<in> set ids) (message_mentions db),
        attachments := update_rows
          (\<lambda>a. (case at_message_id a of None \<Rightarrow> False | Some i \<Rightarrow> i \<in> set ids) \<and> at_deleted_at a = None)
          (\<lambda>a. a\<lparr>at_deleted_at := Some now\<rparr>) (attachments db)\<rparr>"

definition soft_delete_batch ::
  "message_row list \<Rightarrow> timestamp \<Rightarrow> chat_db \<Rightarrow> app_error + deletion_impact \<times> chat_db" where
  "soft_delete_batch targets now db =
     (case List.find (\<lambda>m. validate_deletable_message_type (m_message_type m) \<noteq> Inr ()) targets of
        Some m \<Rightarrow> Inl (BadRequest ''Cannot delete system message'')
      | None \<Rightarrow>
          let impact = impact_of targets
          in Inr (impact, mark_deleted (di_message_ids impact) now db))"

section \<open>Reconciliation\<close>

definition reconcile_thread ::
  "snowflake \<Rightarrow> snowflake \<times> snowflake list \<Rightarrow> chat_db \<Rightarrow> chat_db" where
  "reconcile_thread chat_id entry db =
     snd (shift_thread_read_pointers_on_delete (fst entry) (snd entry)
       (recalculate_thread_meta chat_id (fst entry) db))"

definition reconcile_deletions ::
  "snowflake \<Rightarrow> deletion_impact \<Rightarrow> chat_db \<Rightarrow> app_error + chat_db" where
  "reconcile_deletions chat_id impact db =
     (let db = fold (reconcile_thread chat_id) (di_reply_ids impact) db;
          chat_ids = di_chat_message_ids impact @ di_thread_root_ids impact;
          hidden = map m_id (select_rows (\<lambda>m. m_id m \<in> set chat_ids \<and> \<not> m_has_thread m \<and>
              m_deleted_at m \<noteq> None) (messages db));
          db = (if hidden \<noteq> [] then snd (shift_chat_read_pointers_on_delete chat_id hidden db) else db)
      in and_then (ok_or (first_row (\<lambda>g. g_id g = chat_id) (groups (core db))) (DbQuery DbNotFound)) (\<lambda>g.
           Inr (case g_last_message_id g of
                  Some last_id \<Rightarrow> if last_id \<in> set (di_message_ids impact)
                    then recalculate_group_last_message chat_id db else db
                | None \<Rightarrow> db)))"

section \<open>Deleting a selection\<close>

definition validate_message_ids :: "snowflake list \<Rightarrow> app_error + snowflake list" where
  "validate_message_ids ids =
     (if ids = [] \<or> length ids > 100 then Inl (BadRequest ''Select between 1 and 100 messages'')
      else Inr (sort (remdups ids)))"

record bulk_deletion =
  bk_impact :: deletion_impact
  bk_member_uids :: "uid list"
  bk_roots :: "message_row list"

definition delete_selection ::
  "snowflake \<Rightarrow> uid \<Rightarrow> bool \<Rightarrow> snowflake list \<Rightarrow> timestamp \<Rightarrow> chat_db \<Rightarrow>
   app_error + bulk_deletion \<times> chat_db" where
  "delete_selection chat_id uid is_admin ids now db =
     (let selected = sort_key m_id (select_rows (\<lambda>m. m_chat_id m = chat_id \<and> m_id m \<in> set ids) (messages db))
      in if length selected \<noteq> length ids then Inl (NotFound ''Message not found'')
         else if \<not> is_admin \<and> list_ex (\<lambda>m. m_sender_uid m \<noteq> uid) selected
         then Inl (Forbidden ''You can only delete your own messages'')
         else if list_ex (\<lambda>m. \<not> m_is_published m) selected
         then Inl (BadRequest ''Cannot delete unpublished message'')
         else and_then (soft_delete_batch selected now db) (\<lambda>(impact, db).
              and_then (reconcile_deletions chat_id impact db) (\<lambda>db.
                Inr (\<lparr>bk_impact = impact,
                      bk_member_uids = member_uids (core db) chat_id (\<lambda>_. True),
                      bk_roots = select_rows (\<lambda>m. m_id m \<in> set (di_thread_root_ids impact)) (messages db)\<rparr>,
                     db))))"

text \<open>The endpoint, up to the broadcasts: the events go to all members.\<close>

definition bulk_delete_messages ::
  "uid \<Rightarrow> snowflake \<Rightarrow> snowflake list \<Rightarrow> timestamp \<Rightarrow> chat_db \<Rightarrow>
   app_error + (bulk_deleted_payload \<times> bulk_deletion) \<times> chat_db" where
  "bulk_delete_messages uid chat_id body_ids now db =
     and_then (validate_message_ids body_ids) (\<lambda>ids.
     and_then (check_membership (core db) chat_id uid) (\<lambda>_.
     and_then (require_chat_writable (core db) chat_id uid) (\<lambda>_.
     let is_admin = (load_requester_group_role (core db) chat_id uid = Some Admin)
     in and_then (delete_selection chat_id uid is_admin ids now db) (\<lambda>(deletion, db).
          Inr ((\<lparr>bd_complete = Some True,
                 bd_thread_root_ids = Some (di_thread_root_ids (bk_impact deletion)),
                 bd_chat_id = chat_id, bd_message_ids = di_message_ids (bk_impact deletion)\<rparr>, deletion),
               db)))))"

definition announce_bulk_deletion ::
  "(chat_db \<Rightarrow> message_row \<Rightarrow> message_response) \<Rightarrow> snowflake \<Rightarrow> bulk_deleted_payload \<Rightarrow> bulk_deletion \<Rightarrow>
   chat_db \<Rightarrow> chat_payload registry \<Rightarrow> chat_payload registry" where
  "announce_bulk_deletion respond chat_id payload deletion db r =
     (let uids = bk_member_uids deletion;
          r = broadcast_to_uids uids (WsMessagesBulkDeleted (BulkDeletedPayload payload)) r;
          r = fold (\<lambda>thread. broadcast_thread_update_to_uids db uids chat_id (m_id thread))
                (bk_roots deletion) r
      in fold (\<lambda>thread. broadcast_to_uids uids (WsMessageUpdated (MessagePayload (respond db thread))))
           (bk_roots deletion) r)"

section \<open>Deleting one message\<close>

definition visible_or_not_found :: "chat_db \<Rightarrow> uid \<Rightarrow> snowflake \<Rightarrow> message_row \<Rightarrow> app_error + unit" where
  "visible_or_not_found db uid chat_id m =
     (if not_membership m then Inr ()
      else and_then (db_result (load_chat_settings_for_chat (core db) uid chat_id)) (\<lambda>(_, _, policy).
             guard_or (mp_can_view policy) (NotFound ''Message not found'')))"

definition authorize_delete :: "chat_db \<Rightarrow> uid \<Rightarrow> snowflake \<Rightarrow> snowflake \<Rightarrow> app_error + message_row" where
  "authorize_delete db uid chat_id message_id =
     and_then (check_membership (core db) chat_id uid) (\<lambda>_.
     and_then (require_chat_writable (core db) chat_id uid) (\<lambda>_.
     and_then (ok_or (first_row (\<lambda>m. m_id m = message_id \<and> m_chat_id m = chat_id) (messages db))
       (NotFound ''Message not found'')) (\<lambda>m.
     and_then (visible_or_not_found db uid chat_id m) (\<lambda>_.
     and_then (guard_or (m_sender_uid m = uid \<or> load_requester_group_role (core db) chat_id uid = Some Admin)
       (Forbidden ''You can only delete your own messages'')) (\<lambda>_.
     and_then (validate_deletable_message_type (m_message_type m)) (\<lambda>_.
     and_then (guard_or (m_deleted_at m = None) (Gone ''Message already deleted'')) (\<lambda>_.
     and_then (guard_or (m_is_published m) (BadRequest ''Cannot delete unpublished message'')) (\<lambda>_.
       Inr m))))))))"

text \<open>The transaction; \<open>None\<close> of the last-message query is a missing chat row.\<close>

definition delete_transaction ::
  "snowflake \<Rightarrow> message_row \<Rightarrow> timestamp \<Rightarrow> chat_db \<Rightarrow> app_error + chat_db" where
  "delete_transaction chat_id message now db =
     (let message_id = m_id message;
          db = db\<lparr>messages := update_rows (\<lambda>m. m_id m = message_id) (\<lambda>m. m\<lparr>m_deleted_at := Some now\<rparr>)
                 (messages db),
               message_mentions := delete_rows (\<lambda>r. mm_message_id r = message_id) (message_mentions db)\<rparr>;
          db = (case m_reply_root_id message of
                  Some root_id \<Rightarrow> recalculate_thread_meta chat_id root_id db | None \<Rightarrow> db)
      in and_then (ok_or (first_row (\<lambda>g. g_id g = chat_id) (groups (core db))) (DbQuery DbNotFound)) (\<lambda>g.
         let db = (if g_last_message_id g = Some message_id
                   then recalculate_group_last_message chat_id db else db)
         in Inr (case m_reply_root_id message of
                  Some root_id \<Rightarrow> snd (shift_thread_read_pointers_on_delete root_id [message_id] db)
                | None \<Rightarrow>
                    if \<not> m_has_thread message
                    then snd (shift_chat_read_pointers_on_delete chat_id [message_id] db) else db)))"

definition delete_message ::
  "uid \<Rightarrow> snowflake \<Rightarrow> snowflake \<Rightarrow> timestamp \<Rightarrow> chat_db \<Rightarrow> app_error + unit \<times> chat_db" where
  "delete_message uid chat_id message_id now db =
     and_then (authorize_delete db uid chat_id message_id) (\<lambda>m.
     and_then (delete_transaction chat_id m now db) (\<lambda>db. Inr ((), db)))"

text \<open>Who is told: membership notices reach only those who may see them.\<close>

definition delete_recipients :: "chat_db \<Rightarrow> snowflake \<Rightarrow> message_row \<Rightarrow> uid list" where
  "delete_recipients db chat_id m =
     (if not_membership m then member_uids (core db) chat_id (\<lambda>_. True)
      else map (gm_uid \<circ> snd) (filter (\<lambda>(g, mem). g_id g = chat_id \<and> membership_allowed g mem)
             (joined_chats (core db))))"

definition announce_deletion ::
  "(chat_db \<Rightarrow> message_row \<Rightarrow> message_response) \<Rightarrow> snowflake \<Rightarrow> message_row \<Rightarrow> chat_db \<Rightarrow>
   chat_payload registry \<Rightarrow> chat_payload registry" where
  "announce_deletion respond chat_id deleted db r =
     (let uids = delete_recipients db chat_id deleted;
          r = broadcast_to_uids uids (WsMessageDeleted (MessagePayload (respond db deleted))) r
      in case m_reply_root_id deleted of
           None \<Rightarrow> r
         | Some root_id \<Rightarrow>
             let r = broadcast_thread_update_to_subscribers db chat_id root_id r
             in case first_row (\<lambda>m. m_id m = root_id \<and> m_chat_id m = chat_id) (messages db) of
                  None \<Rightarrow> r
                | Some thread \<Rightarrow>
                    broadcast_to_uids uids (WsMessageUpdated (MessagePayload (respond db thread))) r)"

section \<open>Cleaning up after a removed member\<close>

datatype delete_scope = DeleteAll | DeleteLast24Hours

definition batch_size :: nat where
  "batch_size = 500"

definition cleanup_targets ::
  "nat \<Rightarrow> snowflake \<Rightarrow> uid \<Rightarrow> delete_scope \<Rightarrow> timestamp \<Rightarrow> chat_db \<Rightarrow> message_row list" where
  "cleanup_targets limit chat_id target_uid scope now db =
     take limit (sort_key m_id (select_rows (\<lambda>m. m_chat_id m = chat_id \<and> m_sender_uid m = target_uid \<and>
       m_message_type m \<noteq> System \<and> m_deleted_at m = None \<and>
       (case scope of DeleteAll \<Rightarrow> True
        | DeleteLast24Hours \<Rightarrow> now - 24 * 3600 * 1000000000 \<le> m_created_at m)) (messages db)))"

text \<open>
  The batch loop; \<open>clock\<close> gives the time of each batch's transaction. Every batch marks at least
  one live message of the member deleted, so the loop ends.
\<close>

definition live_of :: "snowflake \<Rightarrow> uid \<Rightarrow> chat_db \<Rightarrow> message_row list" where
  "live_of chat_id uid db =
     filter (\<lambda>m. m_chat_id m = chat_id \<and> m_sender_uid m = uid \<and> m_deleted_at m = None) (messages db)"

function cleanup_loop ::
  "nat \<Rightarrow> snowflake \<Rightarrow> uid \<Rightarrow> delete_scope \<Rightarrow> (nat \<Rightarrow> timestamp) \<Rightarrow> nat \<Rightarrow> deletion_impact \<Rightarrow> chat_db \<Rightarrow>
   app_error + deletion_impact \<times> chat_db" where
  "cleanup_loop limit chat_id target_uid scope clock i impact db =
     (let targets = cleanup_targets limit chat_id target_uid scope (clock i) db
      in if targets = [] then Inr (impact, db)
         else case soft_delete_batch targets (clock i) db of
                Inl e \<Rightarrow> Inl e
              | Inr (batch, db') \<Rightarrow>
                  if length targets < limit then Inr (merge_impact impact batch, db')
                  else cleanup_loop limit chat_id target_uid scope clock (Suc i)
                         (merge_impact impact batch) db')"
  by pat_completeness auto

lemma cleanup_targets_members:
  "m \<in> set (cleanup_targets limit chat_id uid scope now db) \<Longrightarrow>
   m \<in> set (messages db) \<and> m_chat_id m = chat_id \<and> m_sender_uid m = uid \<and>
   m_message_type m \<noteq> System \<and> m_deleted_at m = None"
  unfolding cleanup_targets_def by (drule in_set_takeD) (simp add: row_simps)

lemma impact_message_ids: "di_message_ids (fold note_deleted targets impact) =
    di_message_ids impact @ map m_id targets"
  by (induction targets arbitrary: impact) (simp_all add: note_deleted_def Let_def split: option.split)

lemma impact_of_message_ids [simp]: "di_message_ids (impact_of targets) = map m_id targets"
  by (simp add: impact_of_def impact_message_ids empty_impact_def)

lemma soft_delete_batch_Inr:
  assumes "soft_delete_batch targets now db = Inr (impact, db')"
  shows "impact = impact_of targets" and "db' = mark_deleted (map m_id targets) now db"
    and "\<And>m. m \<in> set targets \<Longrightarrow> m_message_type m \<noteq> System"
  using assms
  by (auto simp: soft_delete_batch_def Let_def find_None_iff validate_deletable_message_type_def
      split: option.splits if_splits)

lemma live_of_shrinks:
  assumes "m \<in> set (messages db)" and "m_chat_id m = chat_id" and "m_sender_uid m = uid"
    and "m_deleted_at m = None" and "m_id m \<in> set ids"
  shows "length (live_of chat_id uid (mark_deleted ids now db)) < length (live_of chat_id uid db)"
proof -
  let ?P = "\<lambda>m. m_chat_id m = chat_id \<and> m_sender_uid m = uid \<and> m_deleted_at m = None"
  let ?d = "\<lambda>m. m_id m \<in> set ids \<and> m_deleted_at m = None"
  have "length (filter ?P (update_rows ?d (\<lambda>m. m\<lparr>m_deleted_at := Some now\<rparr>) ms)) =
      length (filter (\<lambda>m. ?P m \<and> m_id m \<notin> set ids) ms)" for ms :: "message_row list"
    by (induction ms) (auto simp: update_rows_def)
  moreover have "length (filter (\<lambda>m. ?P m \<and> m_id m \<notin> set ids) (messages db)) < length (filter ?P (messages db))"
  proof -
    have "length (filter (\<lambda>m. m_id m \<notin> set ids) (filter ?P (messages db))) < length (filter ?P (messages db))"
      using assms by (intro length_filter_less [of m]) simp_all
    then show ?thesis by (simp add: conj_ac)
  qed
  ultimately show ?thesis by (simp add: live_of_def mark_deleted_def)
qed

termination cleanup_loop
proof (relation "measure (\<lambda>(limit, chat_id, uid, scope, clock, i, impact, db).
    length (live_of chat_id uid db))", goal_cases)
  case 1
  then show ?case by simp
next
  case (2 limit chat_id target_uid scope clock i impact db targets r batch db')
  from 2(2) obtain m where m: "m \<in> set targets" by (cases targets) auto
  with 2(1) have "m \<in> set (messages db) \<and> m_chat_id m = chat_id \<and> m_sender_uid m = target_uid \<and>
      m_deleted_at m = None"
    using cleanup_targets_members by blast
  moreover have "db' = mark_deleted (map m_id targets) (clock i) db"
    using 2(3,4) by (auto dest: soft_delete_batch_Inr(2))
  ultimately show ?case
    using m by (auto intro!: live_of_shrinks)
qed

definition process_bulk_delete ::
  "snowflake \<Rightarrow> uid \<Rightarrow> delete_scope \<Rightarrow> (nat \<Rightarrow> timestamp) \<Rightarrow> chat_db \<Rightarrow>
   app_error + deletion_impact \<times> chat_db" where
  "process_bulk_delete chat_id target_uid scope clock db =
     and_then (cleanup_loop batch_size chat_id target_uid scope clock 0 empty_impact db) (\<lambda>(impact, db).
       if di_message_ids impact = [] then Inr (impact, db)
       else and_then (reconcile_deletions chat_id impact db) (\<lambda>db. Inr (impact, db)))"

text \<open>What the members are told: each batch as it is committed, and the threads and a closing
  event once the rows are reconciled.\<close>

definition announce_batch ::
  "snowflake \<Rightarrow> uid list \<Rightarrow> deletion_impact \<Rightarrow> chat_payload registry \<Rightarrow> chat_payload registry" where
  "announce_batch chat_id uids batch r =
     broadcast_to_uids uids (WsMessagesBulkDeleted (BulkDeletedPayload
       \<lparr>bd_complete = Some False, bd_thread_root_ids = None, bd_chat_id = chat_id,
        bd_message_ids = di_message_ids batch\<rparr>)) r"

definition announce_cleanup ::
  "chat_db \<Rightarrow> snowflake \<Rightarrow> uid list \<Rightarrow> deletion_impact \<Rightarrow> chat_payload registry \<Rightarrow> chat_payload registry" where
  "announce_cleanup db chat_id uids impact r =
     (if di_message_ids impact = [] then r
      else broadcast_to_uids uids (WsMessagesBulkDeleted (BulkDeletedPayload
          \<lparr>bd_complete = Some True, bd_thread_root_ids = Some (di_thread_root_ids impact),
           bd_chat_id = chat_id, bd_message_ids = []\<rparr>))
        (fold (broadcast_thread_update_to_uids db uids chat_id) (di_thread_root_ids impact) r))"

end
