(* ===== verification/Chat_Books.thy ===== *)
theory Chat_Books
  imports Message_Deletion
begin

text \<open>
  The bookkeeping that sending and deleting messages maintain beside the messages themselves: a
  thread's \<open>has_thread\<close> flag and \<open>thread_meta\<close> row, and the chat's pointer to its last message.
  \<open>books_ok\<close> says what they mean in terms of the messages.
\<close>

section \<open>What the bookkeeping means\<close>

definition live_count :: "chat_db \<Rightarrow> snowflake \<Rightarrow> nat" where
  "live_count db t = count_rows (live_reply t) (messages db)"

definition meta_of :: "chat_db \<Rightarrow> snowflake \<Rightarrow> snowflake \<Rightarrow> thread_meta option" where
  "meta_of db c t = first_row (is_thread_meta_of (c, t)) (thread_metas db)"

text \<open>The row of a thread: present exactly when the thread has a surviving published reply, with
  their number and the time of one of them.\<close>

definition meta_ok :: "chat_db \<Rightarrow> snowflake \<Rightarrow> snowflake \<Rightarrow> bool" where
  "meta_ok db c t \<longleftrightarrow>
     (case meta_of db c t of
        None \<Rightarrow> live_count db t = 0
      | Some tm \<Rightarrow> 0 < live_count db t \<and> tm_reply_count tm = int (live_count db t) \<and>
          (\<exists>m \<in> set (messages db). live_reply t m \<and> tm_last_reply_at tm = Some (m_created_at m)))"

definition thread_ok :: "chat_db \<Rightarrow> message_row \<Rightarrow> bool" where
  "thread_ok db r \<longleftrightarrow> (m_has_thread r \<longleftrightarrow> 0 < live_count db (m_id r)) \<and> meta_ok db (m_chat_id r) (m_id r)"

text \<open>Replies belong to a top-level message of their chat.\<close>

definition replies_ok :: "message_row list \<Rightarrow> bool" where
  "replies_ok ms \<longleftrightarrow> (\<forall>m \<in> set ms. \<forall>t. m_reply_root_id m = Some t \<longrightarrow>
     (\<exists>r \<in> set ms. m_id r = t \<and> m_chat_id r = m_chat_id m \<and> m_reply_root_id r = None))"

definition threads_ok :: "chat_db \<Rightarrow> bool" where
  "threads_ok db \<longleftrightarrow> distinct_keys m_id (messages db) \<and> replies_ok (messages db) \<and>
     (\<forall>r \<in> set (messages db). m_reply_root_id r = None \<longrightarrow> thread_ok db r)"

lemma replies_ok_code [code]:
  "replies_ok ms \<longleftrightarrow> (\<forall>m \<in> set ms. case m_reply_root_id m of None \<Rightarrow> True
     | Some t \<Rightarrow> \<exists>r \<in> set ms. m_id r = t \<and> m_chat_id r = m_chat_id m \<and> m_reply_root_id r = None)"
  by (auto simp: replies_ok_def split: option.split)

definition last_candidate :: "snowflake \<Rightarrow> message_row \<Rightarrow> bool" where
  "last_candidate c m \<longleftrightarrow>
     m_chat_id m = c \<and> m_deleted_at m = None \<and> m_is_published m \<and> m_reply_root_id m = None"

definition last_ok :: "chat_db \<Rightarrow> group_row \<Rightarrow> bool" where
  "last_ok db g \<longleftrightarrow> g_last_message_id g = newest_id (last_candidate (g_id g)) (messages db)"

definition books_ok :: "chat_db \<Rightarrow> bool" where
  "books_ok db \<longleftrightarrow> threads_ok db \<and> distinct_keys g_id (groups (core db)) \<and>
     (\<forall>g \<in> set (groups (core db)). last_ok db g)"

section \<open>Counting under updates\<close>

lemma count_update_same:
  "(\<And>r. Q r \<Longrightarrow> P (f r) = P r) \<Longrightarrow> count_rows P (update_rows Q f rows) = count_rows P rows"
  by (induction rows) (auto simp: count_rows_def update_rows_def)

lemma live_reply_has_thread [simp]: "live_reply t (m\<lparr>m_has_thread := b\<rparr>) = live_reply t m"
  by (simp add: live_reply_def)

lemma live_count_set_has_thread [simp]: "live_count (set_has_thread i b db) t = live_count db t"
  by (simp add: live_count_def set_has_thread_def count_update_same)

lemma live_count_pos: "0 < live_count db t \<longleftrightarrow> (\<exists>m \<in> set (messages db). live_reply t m)"
  by (simp add: live_count_def row_simps)

lemma set_has_thread_simps [simp]:
  "core (set_has_thread i b db) = core db"
  "thread_metas (set_has_thread i b db) = thread_metas db"
  "thread_user_states (set_has_thread i b db) = thread_user_states db"
  "attachments (set_has_thread i b db) = attachments db"
  "message_mentions (set_has_thread i b db) = message_mentions db"
  by (simp_all add: set_has_thread_def)

lemma messages_set_has_thread:
  "messages (set_has_thread i b db) =
   map (\<lambda>m. if m_id m = i then m\<lparr>m_has_thread := b\<rparr> else m) (messages db)"
  by (simp add: set_has_thread_def update_rows_def)

section \<open>Recalculation\<close>

lemma recalculate_simps [simp]:
  "core (recalculate_thread_meta c t db) = core db"
  "thread_user_states (recalculate_thread_meta c t db) = thread_user_states db"
  "attachments (recalculate_thread_meta c t db) = attachments db"
  "message_mentions (recalculate_thread_meta c t db) = message_mentions db"
  by (simp_all add: recalculate_thread_meta_def Let_def)

lemma recalculate_messages:
  "messages (recalculate_thread_meta c t db) =
   map (\<lambda>m. if m_id m = t \<and> live_count db t = 0 then m\<lparr>m_has_thread := False\<rparr> else m) (messages db)"
proof -
  have "select_rows (live_reply t) (messages db) = [] \<longleftrightarrow> live_count db t = 0"
    by (simp add: select_rows_def live_count_def count_rows_def)
  then show ?thesis
    by (auto simp: recalculate_thread_meta_def Let_def messages_set_has_thread)
qed

lemma recalculate_live_reply:
  "(\<exists>m \<in> set (messages (recalculate_thread_meta c t db)). live_reply t' m \<and> Q (m_created_at m)) \<longleftrightarrow>
   (\<exists>m \<in> set (messages db). live_reply t' m \<and> Q (m_created_at m))"
proof -
  have "live_reply t' (if b then m\<lparr>m_has_thread := False\<rparr> else m) = live_reply t' m"
      "m_created_at (if b then m\<lparr>m_has_thread := False\<rparr> else m) = m_created_at m" for b m
    by simp_all
  then show ?thesis by (simp only: recalculate_messages set_map bex_simps)
qed

lemma recalculate_live_count [simp]:
  "live_count (recalculate_thread_meta c t db) t' = live_count db t'"
  by (simp add: recalculate_thread_meta_def Let_def) (simp add: live_count_def)

lemma recalculate_meta:
  "meta_of (recalculate_thread_meta c t db) c' t' =
   (if (c', t') = (c, t)
    then if live_count db t = 0 then None
         else Some (case meta_of db c t of
             None \<Rightarrow> \<lparr>tm_chat_id = c, tm_thread_root_id = t, tm_reply_count = int (live_count db t),
               tm_last_reply_at = map_option m_created_at
                 (top_by m_created_at (select_rows (live_reply t) (messages db)))\<rparr>
           | Some tm \<Rightarrow> tm\<lparr>tm_reply_count := int (live_count db t),
               tm_last_reply_at := map_option m_created_at
                 (top_by m_created_at (select_rows (live_reply t) (messages db)))\<rparr>)
    else meta_of db c' t')"
proof -
  have nil: "select_rows (live_reply t) (messages db) = [] \<longleftrightarrow> live_count db t = 0"
    by (simp add: select_rows_def live_count_def count_rows_def)
  have len: "length (select_rows (live_reply t) (messages db)) = live_count db t"
    by (simp add: select_rows_def live_count_def count_rows_def)
  show ?thesis
  proof (cases "live_count db t = 0")
    case True
    then show ?thesis
      by (simp add: recalculate_thread_meta_def nil meta_of_def thread_meta_table.find_delete)
  next
    case False
    have upsert: "first_row (is_thread_meta_of (c', t')) (upsert_row (is_thread_meta_of (c, t))
          \<lparr>tm_chat_id = c, tm_thread_root_id = t, tm_reply_count = n, tm_last_reply_at = l\<rparr>
          (\<lambda>r. r\<lparr>tm_reply_count := n, tm_last_reply_at := l\<rparr>) rows) =
        (if (c', t') = (c, t) then Some (case first_row (is_thread_meta_of (c, t)) rows of
             None \<Rightarrow> \<lparr>tm_chat_id = c, tm_thread_root_id = t, tm_reply_count = n, tm_last_reply_at = l\<rparr>
           | Some x \<Rightarrow> x\<lparr>tm_reply_count := n, tm_last_reply_at := l\<rparr>)
         else first_row (is_thread_meta_of (c', t')) rows)" for n l rows
      by (rule thread_meta_table.find_upsert_rewrite) (simp_all add: thread_meta_key_def)
    from False show ?thesis
      by (simp add: recalculate_thread_meta_def nil len meta_of_def Let_def upsert)
  qed
qed

lemma recalculate_meta_ok: "meta_ok (recalculate_thread_meta c t db) c t"
proof (cases "live_count db t = 0")
  case True
  then show ?thesis by (simp add: meta_ok_def recalculate_meta)
next
  case False
  let ?replies = "select_rows (live_reply t) (messages db)"
  have "?replies \<noteq> []" using False by (auto simp: select_rows_def live_count_def count_rows_def)
  then obtain m where m: "top_by m_created_at ?replies = Some m" by (metis top_by_None option.exhaust)
  then have "m \<in> set (messages db) \<and> live_reply t m" by (auto dest: top_by_Some simp: row_simps)
  then have "\<exists>m' \<in> set (messages (recalculate_thread_meta c t db)).
      live_reply t m' \<and> m_created_at m' = m_created_at m"
    using recalculate_live_reply [of c t db t "\<lambda>x. x = m_created_at m"] by blast
  with False m show ?thesis
    by (auto simp: meta_ok_def recalculate_meta split: option.split)
qed

lemma recalculate_other_meta_ok:
  assumes "(c', t') \<noteq> (c, t)"
  shows "meta_ok (recalculate_thread_meta c t db) c' t' = meta_ok db c' t'"
proof -
  have "meta_of (recalculate_thread_meta c t db) c' t' = meta_of db c' t'"
    using assms by (auto simp: recalculate_meta)
  then show ?thesis
    using recalculate_live_reply [of c t db t' "\<lambda>x. y = Some x" for y]
    unfolding meta_ok_def recalculate_live_count by (simp split: option.split)
qed

section \<open>Threads whose bookkeeping may be behind\<close>

text \<open>Between the deletion of replies and the recalculation a flag may still be set, but no thread
  with surviving replies has lost its flag.\<close>

definition threads_weak :: "chat_db \<Rightarrow> bool" where
  "threads_weak db \<longleftrightarrow> distinct_keys m_id (messages db) \<and> replies_ok (messages db) \<and>
     (\<forall>r \<in> set (messages db). m_reply_root_id r = None \<longrightarrow> 0 < live_count db (m_id r) \<longrightarrow> m_has_thread r)"

lemma threads_ok_weak: "threads_ok db \<Longrightarrow> threads_weak db"
  by (simp add: threads_ok_def threads_weak_def thread_ok_def)

lemma live_count_cong: "messages db' = messages db \<Longrightarrow> live_count db' = live_count db"
  by (simp add: live_count_def fun_eq_iff)

lemma books_cong:
  assumes "messages db' = messages db" and "thread_metas db' = thread_metas db"
  shows "meta_ok db' = meta_ok db" and "thread_ok db' = thread_ok db"
    and "threads_ok db' = threads_ok db"
proof -
  note live = live_count_cong [OF assms(1)]
  show meta: "meta_ok db' = meta_ok db"
    unfolding fun_eq_iff meta_ok_def meta_of_def live assms by simp
  show thread: "thread_ok db' = thread_ok db"
    unfolding fun_eq_iff thread_ok_def live meta by simp
  show "threads_ok db' = threads_ok db"
    unfolding threads_ok_def thread assms by simp
qed

lemma threads_weak_cong: "messages db' = messages db \<Longrightarrow> threads_weak db' = threads_weak db"
  unfolding threads_weak_def using live_count_cong [of db' db] by simp

text \<open>Updates that keep what a reply is.\<close>

lemma replies_ok_map:
  assumes "replies_ok ms"
    and "\<And>m. m_id (f m) = m_id m \<and> m_chat_id (f m) = m_chat_id m \<and> m_reply_root_id (f m) = m_reply_root_id m"
  shows "replies_ok (map f ms)"
  using assms unfolding replies_ok_def by simp

lemma distinct_keys_map: "(\<And>r. key (f r) = key r) \<Longrightarrow> distinct_keys key (map f rows) = distinct_keys key rows"
  by (simp add: distinct_keys_def comp_def)

lemma recalculate_threads:
  assumes weak: "threads_weak db"
    and r: "r \<in> set (messages db)" "m_id r = t" "m_chat_id r = c" "m_reply_root_id r = None"
  shows "threads_weak (recalculate_thread_meta c t db)"
    and "x \<in> set (messages (recalculate_thread_meta c t db)) \<Longrightarrow> m_reply_root_id x = None \<Longrightarrow>
      m_id x = t \<Longrightarrow> thread_ok (recalculate_thread_meta c t db) x"
    and "x \<in> set (messages (recalculate_thread_meta c t db)) \<Longrightarrow> m_id x \<noteq> t \<Longrightarrow>
      x \<in> set (messages db) \<and> (thread_ok db x \<longrightarrow> thread_ok (recalculate_thread_meta c t db) x)"
proof -
  let ?db = "recalculate_thread_meta c t db"
  let ?f = "\<lambda>m. if m_id m = t \<and> live_count db t = 0 then m\<lparr>m_has_thread := False\<rparr> else m"
  have keep: "m_id (?f m) = m_id m \<and> m_chat_id (?f m) = m_chat_id m \<and> m_reply_root_id (?f m) = m_reply_root_id m"
    for m by simp
  have keys: "distinct_keys m_id (messages db)" using weak by (simp add: threads_weak_def)
  show "threads_weak ?db"
    using weak keep
    unfolding threads_weak_def recalculate_live_count
    by (auto simp: recalculate_messages distinct_keys_map intro!: replies_ok_map)
  show "thread_ok ?db x"
    if x: "x \<in> set (messages ?db)" "m_reply_root_id x = None" "m_id x = t" for x
  proof -
    from x(1) obtain y where y: "y \<in> set (messages db)" "x = ?f y" by (auto simp: recalculate_messages)
    with x(3) have "m_id y = t" by (simp split: if_splits)
    with y(1) r(1,2) keys have "y = r" by (auto dest: distinct_keys_eq)
    then have "x = (if live_count db t = 0 then r\<lparr>m_has_thread := False\<rparr> else r)" using y(2) r(2) by simp
    moreover have "0 < live_count db t \<Longrightarrow> m_has_thread r"
      using weak r(1,2,4) by (auto simp: threads_weak_def)
    ultimately show ?thesis
      using recalculate_meta_ok [of c t db] r(2,3) by (auto simp: thread_ok_def)
  qed
  show "x \<in> set (messages db) \<and> (thread_ok db x \<longrightarrow> thread_ok ?db x)"
    if x: "x \<in> set (messages ?db)" "m_id x \<noteq> t" for x
  proof -
    from x have "x \<in> set (messages db)" by (auto simp: recalculate_messages split: if_splits)
    moreover have "meta_ok ?db (m_chat_id x) (m_id x) = meta_ok db (m_chat_id x) (m_id x)"
      using x(2) by (intro recalculate_other_meta_ok) simp
    ultimately show ?thesis by (simp add: thread_ok_def)
  qed
qed

lemma shift_thread_simps [simp]:
  "core (snd (shift_thread_read_pointers_on_delete t ids db)) = core db"
  "messages (snd (shift_thread_read_pointers_on_delete t ids db)) = messages db"
  "thread_metas (snd (shift_thread_read_pointers_on_delete t ids db)) = thread_metas db"
  "attachments (snd (shift_thread_read_pointers_on_delete t ids db)) = attachments db"
  "message_mentions (snd (shift_thread_read_pointers_on_delete t ids db)) = message_mentions db"
  by (simp_all add: shift_thread_read_pointers_on_delete_def Let_def)

lemma reconcile_thread_simps [simp]:
  "core (reconcile_thread c e db) = core db"
  "messages (reconcile_thread c e db) = messages (recalculate_thread_meta c (fst e) db)"
  "thread_metas (reconcile_thread c e db) = thread_metas (recalculate_thread_meta c (fst e) db)"
  "attachments (reconcile_thread c e db) = attachments db"
  "message_mentions (reconcile_thread c e db) = message_mentions db"
  by (simp_all add: reconcile_thread_def)

definition root_in :: "chat_db \<Rightarrow> snowflake \<Rightarrow> snowflake \<Rightarrow> bool" where
  "root_in db c t \<longleftrightarrow> (\<exists>r \<in> set (messages db). m_id r = t \<and> m_chat_id r = c \<and> m_reply_root_id r = None)"

lemma reconcile_root_in [simp]: "root_in (reconcile_thread c e db) c' t = root_in db c' t"
proof -
  have "m_id (if b then m\<lparr>m_has_thread := False\<rparr> else m) = m_id m"
    "m_chat_id (if b then m\<lparr>m_has_thread := False\<rparr> else m) = m_chat_id m"
    "m_reply_root_id (if b then m\<lparr>m_has_thread := False\<rparr> else m) = m_reply_root_id m"
    for b and m :: message_row
    by simp_all
  then show ?thesis
    by (simp only: root_in_def reconcile_thread_simps recalculate_messages set_map bex_simps)
qed

lemma reconcile_threads:
  assumes "threads_weak db" and "\<forall>e \<in> set entries. root_in db c (fst e)"
    and "\<forall>r \<in> set (messages db). m_reply_root_id r = None \<longrightarrow> m_id r \<notin> fst ` set entries \<longrightarrow> thread_ok db r"
  shows "threads_ok (fold (reconcile_thread c) entries db)"
  using assms
proof (induction entries arbitrary: db)
  case Nil
  then show ?case by (auto simp: threads_ok_def threads_weak_def)
next
  case (Cons e entries)
  let ?db = "reconcile_thread c e db"
  obtain r where r: "r \<in> set (messages db)" "m_id r = fst e" "m_chat_id r = c" "m_reply_root_id r = None"
    using Cons.prems(2) by (auto simp: root_in_def)
  note recalc = recalculate_threads [OF Cons.prems(1) r]
  have cong: "thread_ok ?db = thread_ok (recalculate_thread_meta c (fst e) db)"
    by (rule books_cong) simp_all
  have "threads_weak ?db"
    using recalc(1) threads_weak_cong [of ?db "recalculate_thread_meta c (fst e) db"] by simp
  moreover have "\<forall>e' \<in> set entries. root_in ?db c (fst e')" using Cons.prems(2) by simp
  moreover have "\<forall>x \<in> set (messages ?db). m_reply_root_id x = None \<longrightarrow>
      m_id x \<notin> fst ` set entries \<longrightarrow> thread_ok ?db x"
  proof (intro ballI impI)
    fix x assume x: "x \<in> set (messages ?db)" "m_reply_root_id x = None" "m_id x \<notin> fst ` set entries"
    show "thread_ok ?db x"
    proof (cases "m_id x = fst e")
      case True
      with x recalc(2) show ?thesis by (simp add: cong)
    next
      case False
      with x(1) recalc(3) have "x \<in> set (messages db)"
          "thread_ok db x \<longrightarrow> thread_ok (recalculate_thread_meta c (fst e) db) x" by simp_all
      with Cons.prems(3) x(2,3) False show ?thesis by (simp add: cong)
    qed
  qed
  ultimately show ?case using Cons.IH by simp
qed

section \<open>A small group chat\<close>

definition sample_message :: "snowflake \<Rightarrow> uid \<Rightarrow> snowflake option \<Rightarrow> message_row" where
  "sample_message i sender reply_root =
     \<lparr>m_id = i, m_message = Some (ascii ''hi''), m_message_type = Text, m_reply_to_id = None,
      m_reply_root_id = reply_root, m_client_generated_id = [nat i], m_sender_uid = sender, m_chat_id = 10,
      m_created_at = i, m_updated_at = None, m_deleted_at = None, m_has_attachments = False,
      m_has_thread = False, m_has_reactions = False, m_sticker_id = None, m_is_published = True,
      m_transcode_status = TranscodeNone, m_forwarded_bundle_id = None,
      m_forwarded_from_message_id = None, m_system_kind = None\<rparr>"

text \<open>User 1 administers chat 10; message 100 of user 2 has the replies 101 and 102, and 103 is the
  chat's last message. User 1 has read the chat up to 103, user 2 the thread up to 101.\<close>

definition sample_group_chat :: chat_db where
  "sample_group_chat = empty_chat_db\<lparr>
     core := empty_tables\<lparr>groups := [sample_dm_group\<lparr>g_kind := Group, g_dm_uid1 := None, g_dm_uid2 := None,
         g_last_message_id := Some 103, g_last_message_at := Some 103\<rparr>],
       memberships := [(sample_member 10 1)\<lparr>gm_role := Admin, gm_last_read_message_id := Some 103\<rparr>,
         sample_member 10 2]\<rparr>,
     messages := [(sample_message 100 2 None)\<lparr>m_has_thread := True\<rparr>, sample_message 101 1 (Some 100),
       sample_message 102 2 (Some 100), sample_message 103 2 None],
     thread_metas := [\<lparr>tm_chat_id = 10, tm_thread_root_id = 100, tm_reply_count = 2, tm_last_reply_at = Some 102\<rparr>],
     thread_user_states := [(new_thread_state 10 100 2 0 True 0)\<lparr>ts_last_read_message_id := Some 101\<rparr>]\<rparr>"

lemmas sample_group_simps = sample_group_chat_def sample_message_def sample_dm_group_def sample_member_def
  group_row_of_def membership_row_of_def empty_chat_db_def empty_tables_def new_thread_state_def

lemma sample_group_books: "books_ok sample_group_chat"
  by code_simp

end
