(* ===== verification/Deletion_Guarantees.thy ===== *)
theory Deletion_Guarantees
  imports Chat_Books
begin

text \<open>
  What the deletion paths of \<open>Message_Deletion\<close> keep: the bookkeeping of \<open>Chat_Books\<close> and the
  read positions, which never point at a message that the deletion hid.
\<close>

section \<open>Marking\<close>

definition deleted_row :: "snowflake list \<Rightarrow> timestamp \<Rightarrow> message_row \<Rightarrow> message_row" where
  "deleted_row ids now m =
     (if m_id m \<in> set ids \<and> m_deleted_at m = None then m\<lparr>m_deleted_at := Some now\<rparr> else m)"

lemma deleted_row_simps [simp]:
  "m_id (deleted_row ids now m) = m_id m"
  "m_chat_id (deleted_row ids now m) = m_chat_id m"
  "m_reply_root_id (deleted_row ids now m) = m_reply_root_id m"
  "m_has_thread (deleted_row ids now m) = m_has_thread m"
  "m_is_published (deleted_row ids now m) = m_is_published m"
  "m_created_at (deleted_row ids now m) = m_created_at m"
  "m_sender_uid (deleted_row ids now m) = m_sender_uid m"
  "m_message_type (deleted_row ids now m) = m_message_type m"
  by (simp_all add: deleted_row_def)

lemma deleted_row_deleted [simp]:
  "m_deleted_at (deleted_row ids now m) = None \<longleftrightarrow> m_deleted_at m = None \<and> m_id m \<notin> set ids"
  by (auto simp: deleted_row_def)

lemma live_reply_deleted_row [simp]:
  "live_reply t (deleted_row ids now m) \<longleftrightarrow> live_reply t m \<and> m_id m \<notin> set ids"
  by (auto simp: live_reply_def)

lemma last_candidate_deleted_row [simp]:
  "last_candidate c (deleted_row ids now m) \<longleftrightarrow> last_candidate c m \<and> m_id m \<notin> set ids"
  by (auto simp: last_candidate_def)

lemma mark_deleted_simps [simp]:
  "messages (mark_deleted ids now db) = map (deleted_row ids now) (messages db)"
  "thread_metas (mark_deleted ids now db) = thread_metas db"
  "thread_user_states (mark_deleted ids now db) = thread_user_states db"
  "core (mark_deleted ids now db) = core db"
  by (simp_all add: mark_deleted_def update_rows_def deleted_row_def)

lemma mark_deleted_live_count:
  "live_count (mark_deleted ids now db) t = count_rows (\<lambda>m. live_reply t m \<and> m_id m \<notin> set ids) (messages db)"
  by (simp add: live_count_def count_rows_def filter_map comp_def)

lemma length_filter_strengthen: "(\<And>x. P x \<Longrightarrow> Q x) \<Longrightarrow> length (filter P xs) \<le> length (filter Q xs)"
  by (induction xs) auto

lemma mark_deleted_live_le: "live_count (mark_deleted ids now db) t \<le> live_count db t"
  unfolding mark_deleted_live_count
  by (auto simp: live_count_def count_rows_def intro: length_filter_strengthen)

lemma mark_deleted_weak: "threads_weak db \<Longrightarrow> threads_weak (mark_deleted ids now db)"
  using mark_deleted_live_le [of ids now db]
  by (auto simp: threads_weak_def distinct_keys_map intro!: replies_ok_map)
     (metis less_le_trans)

text \<open>A thread none of whose replies are marked.\<close>

lemma unmarked_replies:
  assumes "\<And>m. m \<in> set (messages db) \<Longrightarrow> m_reply_root_id m = Some t \<Longrightarrow> m_id m \<notin> set ids"
  shows "live_count (mark_deleted ids now db) t = live_count db t"
    and "meta_ok (mark_deleted ids now db) c t = meta_ok db c t"
proof -
  have same: "m \<in> set (messages db) \<Longrightarrow> live_reply t (deleted_row ids now m) = live_reply t m" for m
    using assms by (auto simp: live_reply_def)
  show live: "live_count (mark_deleted ids now db) t = live_count db t"
    unfolding mark_deleted_live_count unfolding live_count_def count_rows_def
    using assms by (intro arg_cong [where f = length] filter_cong) (auto simp: live_reply_def)
  have "(\<exists>m \<in> set (messages (mark_deleted ids now db)). live_reply t m \<and> y = Some (m_created_at m)) \<longleftrightarrow>
      (\<exists>m \<in> set (messages db). live_reply t m \<and> y = Some (m_created_at m))" for y
    using same by (auto simp del: live_reply_deleted_row)
  then show "meta_ok (mark_deleted ids now db) c t = meta_ok db c t"
    by (simp add: meta_ok_def live meta_of_def split: option.split)
qed

lemma unmarked_thread:
  assumes "\<And>m. m \<in> set (messages db) \<Longrightarrow> m_reply_root_id m = Some (m_id r) \<Longrightarrow> m_id m \<notin> set ids"
  shows "thread_ok (mark_deleted ids now db) (deleted_row ids now r) = thread_ok db r"
  using unmarked_replies [of db "m_id r" ids, OF assms]
  by (simp add: thread_ok_def)

section \<open>What a batch records\<close>

definition reply_roots :: "deletion_impact \<Rightarrow> snowflake set" where
  "reply_roots impact = fst ` set (di_reply_ids impact)"

definition reply_pairs :: "deletion_impact \<Rightarrow> (snowflake \<times> snowflake) set" where
  "reply_pairs impact = {(t, i). \<exists>ids. (t, ids) \<in> set (di_reply_ids impact) \<and> i \<in> set ids}"

definition pairs_of :: "(snowflake \<times> snowflake list) list \<Rightarrow> (snowflake \<times> snowflake) set" where
  "pairs_of kvs = {(t, i). \<exists>ids. (t, ids) \<in> set kvs \<and> i \<in> set ids}"

lemma pairs_of_simps [simp]:
  "pairs_of [] = {}"
  "pairs_of ((t, ids) # kvs) = {t} \<times> set ids \<union> pairs_of kvs"
  by (auto simp: pairs_of_def)

lemma pairs_entry_extend [simp]: "pairs_of (entry_extend k ids kvs) = {k} \<times> set ids \<union> pairs_of kvs"
  unfolding entry_extend_def
  by (induction kvs) (auto split: if_splits)

lemma keys_entry_extend [simp]: "fst ` set (entry_extend k ids kvs) = insert k (fst ` set kvs)"
  by (simp add: entry_extend_def)

lemma reply_pairs_pairs_of: "reply_pairs impact = pairs_of (di_reply_ids impact)"
  by (simp add: reply_pairs_def pairs_of_def)

lemma set_insort_all [simp]: "set (fold List.insort_insert xs ys) = set xs \<union> set ys"
  by (induction xs arbitrary: ys) (auto simp: set_insort_insert)

lemma note_deleted_sets:
  "set (di_message_ids (note_deleted m impact)) = insert (m_id m) (set (di_message_ids impact))"
  "set (di_chat_message_ids (note_deleted m impact)) =
   {i. m_reply_root_id m = None \<and> i = m_id m} \<union> set (di_chat_message_ids impact)"
  "reply_roots (note_deleted m impact) = {t. m_reply_root_id m = Some t} \<union> reply_roots impact"
  "reply_pairs (note_deleted m impact) =
   {(t, i). m_reply_root_id m = Some t \<and> i = m_id m} \<union> reply_pairs impact"
  "set (di_thread_root_ids impact) \<union> {t. m_reply_root_id m = Some t} \<subseteq>
   set (di_thread_root_ids (note_deleted m impact))"
proof -
  show "set (di_message_ids (note_deleted m impact)) = insert (m_id m) (set (di_message_ids impact))"
    "set (di_chat_message_ids (note_deleted m impact)) =
     {i. m_reply_root_id m = None \<and> i = m_id m} \<union> set (di_chat_message_ids impact)"
    "set (di_thread_root_ids impact) \<union> {t. m_reply_root_id m = Some t} \<subseteq>
     set (di_thread_root_ids (note_deleted m impact))"
    by (auto simp: note_deleted_def Let_def set_insort_insert split: option.splits)
  show "reply_roots (note_deleted m impact) = {t. m_reply_root_id m = Some t} \<union> reply_roots impact"
    by (cases "m_reply_root_id m") (simp_all add: note_deleted_def Let_def reply_roots_def)
  show "reply_pairs (note_deleted m impact) =
      {(t, i). m_reply_root_id m = Some t \<and> i = m_id m} \<union> reply_pairs impact"
    by (cases "m_reply_root_id m") (auto simp add: note_deleted_def Let_def reply_pairs_pairs_of)
qed

lemma note_deleted_fold:
  "set (di_message_ids (fold note_deleted targets impact)) = m_id ` set targets \<union> set (di_message_ids impact)"
  "set (di_chat_message_ids (fold note_deleted targets impact)) =
   {m_id m |m. m \<in> set targets \<and> m_reply_root_id m = None} \<union> set (di_chat_message_ids impact)"
  "reply_roots (fold note_deleted targets impact) =
   {t. \<exists>m \<in> set targets. m_reply_root_id m = Some t} \<union> reply_roots impact"
  "reply_pairs (fold note_deleted targets impact) =
   {(t, m_id m) |t m. m \<in> set targets \<and> m_reply_root_id m = Some t} \<union> reply_pairs impact"
  by (induction targets arbitrary: impact) (auto simp: note_deleted_sets)

lemma note_deleted_fold_roots:
  "reply_roots impact \<subseteq> set (di_thread_root_ids impact) \<Longrightarrow>
   reply_roots (fold note_deleted targets impact) \<subseteq> set (di_thread_root_ids (fold note_deleted targets impact))"
proof (induction targets arbitrary: impact)
  case (Cons m targets)
  have "reply_roots (note_deleted m impact) \<subseteq> set (di_thread_root_ids (note_deleted m impact))"
    using Cons.prems note_deleted_sets(5) [of impact m] by (auto simp: note_deleted_sets(3))
  then show ?case by (simp add: Cons.IH)
qed simp

lemma merge_sets [simp]:
  "set (di_message_ids (merge_impact a b)) = set (di_message_ids a) \<union> set (di_message_ids b)"
  "set (di_chat_message_ids (merge_impact a b)) = set (di_chat_message_ids a) \<union> set (di_chat_message_ids b)"
  "set (di_thread_root_ids (merge_impact a b)) = set (di_thread_root_ids a) \<union> set (di_thread_root_ids b)"
  by (auto simp: merge_impact_def)

lemma merge_replies [simp]:
  "reply_roots (merge_impact a b) = reply_roots a \<union> reply_roots b"
  "reply_pairs (merge_impact a b) = reply_pairs a \<union> reply_pairs b"
proof -
  have "fst ` set (fold (\<lambda>(k, ids). entry_extend k ids) ys xs) = fst ` set xs \<union> fst ` set ys" for xs ys
    by (induction ys arbitrary: xs) (simp_all add: case_prod_beta)
  then show "reply_roots (merge_impact a b) = reply_roots a \<union> reply_roots b"
    by (simp add: reply_roots_def merge_impact_def)
  have "pairs_of (fold (\<lambda>(k, ids). entry_extend k ids) ys xs) = pairs_of xs \<union> pairs_of ys" for xs ys
    by (induction ys arbitrary: xs) auto
  then show "reply_pairs (merge_impact a b) = reply_pairs a \<union> reply_pairs b"
    by (simp add: reply_pairs_pairs_of merge_impact_def)
qed

section \<open>Read positions\<close>

text \<open>
  A read position names a visible row of the timeline it belongs to, or nothing. A thread is also
  read up to its root.
\<close>

definition chat_position_ok :: "chat_db \<Rightarrow> membership_row \<Rightarrow> bool" where
  "chat_position_ok db gm \<longleftrightarrow>
     (case gm_last_read_message_id gm of None \<Rightarrow> True
      | Some i \<Rightarrow> \<exists>m \<in> set (messages db). m_id m = i \<and> timeline_row (gm_chat_id gm) m)"

definition thread_position_ok :: "chat_db \<Rightarrow> thread_user_state_row \<Rightarrow> bool" where
  "thread_position_ok db ts \<longleftrightarrow>
     (case ts_last_read_message_id ts of None \<Rightarrow> True
      | Some i \<Rightarrow> i = ts_thread_root_id ts \<or>
          (\<exists>m \<in> set (messages db). m_id m = i \<and> live_reply (ts_thread_root_id ts) m))"

definition positions_ok :: "chat_db \<Rightarrow> bool" where
  "positions_ok db \<longleftrightarrow>
     (\<forall>gm \<in> set (memberships (core db)). chat_position_ok db gm) \<and>
     (\<forall>ts \<in> set (thread_user_states db). thread_position_ok db ts)"

section \<open>Between the deletion and its reconciliation\<close>

text \<open>
  What is still right while the marked rows of chat \<open>c\<close> wait for their reconciliation: every
  thread, pointer and position outside the recorded impact.
\<close>

definition pending_chat_position :: "snowflake \<Rightarrow> deletion_impact \<Rightarrow> chat_db \<Rightarrow> membership_row \<Rightarrow> bool" where
  "pending_chat_position c impact db gm \<longleftrightarrow>
     (case gm_last_read_message_id gm of None \<Rightarrow> True
      | Some i \<Rightarrow> \<exists>m \<in> set (messages db). m_id m = i \<and> m_chat_id m = gm_chat_id gm \<and>
          m_is_published m \<and> m_reply_root_id m = None \<and>
          (m_deleted_at m = None \<or> m_has_thread m \<or>
           gm_chat_id gm = c \<and> i \<in> set (di_chat_message_ids impact)))"

definition pending_thread_position ::
  "(snowflake \<times> snowflake) set \<Rightarrow> chat_db \<Rightarrow> thread_user_state_row \<Rightarrow> bool" where
  "pending_thread_position pairs db ts \<longleftrightarrow>
     (case ts_last_read_message_id ts of None \<Rightarrow> True
      | Some i \<Rightarrow> i = ts_thread_root_id ts \<or> (ts_thread_root_id ts, i) \<in> pairs \<or>
          (\<exists>m \<in> set (messages db). m_id m = i \<and> live_reply (ts_thread_root_id ts) m))"

definition pending_last :: "snowflake \<Rightarrow> deletion_impact \<Rightarrow> chat_db \<Rightarrow> group_row \<Rightarrow> bool" where
  "pending_last c impact db g \<longleftrightarrow>
     last_ok db g \<or> g_id g = c \<and> (\<exists>i \<in> set (di_message_ids impact). g_last_message_id g = Some i)"

definition pending :: "snowflake \<Rightarrow> deletion_impact \<Rightarrow> chat_db \<Rightarrow> bool" where
  "pending c impact db \<longleftrightarrow>
     threads_weak db \<and> (\<forall>t \<in> reply_roots impact. root_in db c t) \<and>
     (\<forall>r \<in> set (messages db). m_reply_root_id r = None \<longrightarrow> m_id r \<notin> reply_roots impact \<longrightarrow> thread_ok db r) \<and>
     distinct_keys g_id (groups (core db)) \<and>
     (\<forall>g \<in> set (groups (core db)). pending_last c impact db g) \<and>
     (\<forall>gm \<in> set (memberships (core db)). pending_chat_position c impact db gm) \<and>
     (\<forall>ts \<in> set (thread_user_states db). pending_thread_position (reply_pairs impact) db ts) \<and>
     reply_roots impact \<subseteq> set (di_thread_root_ids impact)"

lemma pending_empty:
  assumes "books_ok db" and "positions_ok db"
  shows "pending c empty_impact db"
proof -
  have empty: "reply_roots empty_impact = {}" "reply_pairs empty_impact = {}"
    by (simp_all add: empty_impact_def reply_roots_def reply_pairs_def)
  have "chat_position_ok db gm \<Longrightarrow> pending_chat_position c empty_impact db gm" for gm
    by (auto simp: chat_position_ok_def pending_chat_position_def timeline_row_def split: option.splits)
  moreover have "thread_position_ok db ts \<Longrightarrow> pending_thread_position {} db ts" for ts
    by (auto simp: thread_position_ok_def pending_thread_position_def split: option.splits)
  ultimately show ?thesis
    using assms threads_ok_weak [of db]
    by (auto simp: pending_def empty books_ok_def positions_ok_def threads_ok_def pending_last_def)
qed

text \<open>Marking more rows, recorded by \<open>impact'\<close>.\<close>

definition records :: "deletion_impact \<Rightarrow> deletion_impact \<Rightarrow> message_row list \<Rightarrow> bool" where
  "records impact' impact targets \<longleftrightarrow>
     set (di_message_ids impact') = m_id ` set targets \<union> set (di_message_ids impact) \<and>
     set (di_chat_message_ids impact') =
       {m_id m |m. m \<in> set targets \<and> m_reply_root_id m = None} \<union> set (di_chat_message_ids impact) \<and>
     reply_roots impact' = {t. \<exists>m \<in> set targets. m_reply_root_id m = Some t} \<union> reply_roots impact \<and>
     reply_pairs impact' =
       {(t, m_id m) |t m. m \<in> set targets \<and> m_reply_root_id m = Some t} \<union> reply_pairs impact \<and>
     reply_roots impact' \<subseteq> set (di_thread_root_ids impact')"

lemma records_impact_of: "records (impact_of targets) empty_impact targets"
proof -
  have "reply_roots empty_impact = {}" by (simp add: empty_impact_def reply_roots_def)
  then show ?thesis
    using note_deleted_fold_roots [of empty_impact targets] note_deleted_fold [of targets empty_impact]
    by (simp add: records_def impact_of_def)
qed

lemma records_merge:
  assumes "reply_roots impact \<subseteq> set (di_thread_root_ids impact)"
  shows "records (merge_impact impact (impact_of targets)) impact targets"
proof -
  have "reply_roots empty_impact = {}" "reply_pairs empty_impact = {}"
    "di_message_ids empty_impact = []" "di_chat_message_ids empty_impact = []"
    by (simp_all add: empty_impact_def reply_roots_def reply_pairs_def)
  with records_impact_of [of targets] assms show ?thesis by (auto simp: records_def)
qed

lemma mark_root_in [simp]: "root_in (mark_deleted ids now db) c t = root_in db c t"
  by (simp add: root_in_def)

lemma mark_last:
  assumes "last_ok db g"
  shows "last_ok (mark_deleted ids now db) g \<or>
    (\<exists>m \<in> set (messages db). last_candidate (g_id g) m \<and> m_id m \<in> set ids \<and> g_last_message_id g = Some (m_id m))"
proof (cases "g_last_message_id g")
  case None
  with assms have "\<forall>m \<in> set (messages db). \<not> last_candidate (g_id g) m"
    by (metis last_ok_def newest_id_None)
  then have "newest_id (last_candidate (g_id g)) (messages (mark_deleted ids now db)) = None"
    by (simp add: newest_id_None)
  with None show ?thesis by (simp add: last_ok_def)
next
  case (Some i)
  with assms have newest: "(\<exists>m \<in> set (messages db). last_candidate (g_id g) m \<and> m_id m = i) \<and>
      (\<forall>m \<in> set (messages db). last_candidate (g_id g) m \<longrightarrow> m_id m \<le> i)"
    by (simp add: last_ok_def newest_id_iff [symmetric])
  then obtain m where m: "m \<in> set (messages db)" "last_candidate (g_id g) m" "m_id m = i" by blast
  show ?thesis
  proof (cases "i \<in> set ids")
    case True
    with m Some show ?thesis by blast
  next
    case False
    with m newest have "newest_id (last_candidate (g_id g)) (messages (mark_deleted ids now db)) = Some i"
      by (auto simp: newest_id_iff)
    with Some show ?thesis by (simp add: last_ok_def)
  qed
qed

lemma pending_mark:
  assumes pending: "pending c impact db" and records: "records impact' impact targets"
    and targets: "set targets \<subseteq> set (messages db)" "\<forall>m \<in> set targets. m_chat_id m = c"
  shows "pending c impact' (mark_deleted (map m_id targets) now db)"
proof -
  let ?db = "mark_deleted (map m_id targets) now db"
  have weak: "threads_weak db" and keys: "distinct_keys m_id (messages db)" and replies: "replies_ok (messages db)"
    using pending by (simp_all add: pending_def threads_weak_def)
  have target: "m \<in> set targets" if "m \<in> set (messages db)" "m_id m \<in> set (map m_id targets)" for m
    using that targets(1) distinct_keys_eq [OF keys] by (auto simp: subset_iff)
  have roots: "reply_roots impact' = {t. \<exists>m \<in> set targets. m_reply_root_id m = Some t} \<union> reply_roots impact"
    using records by (simp add: records_def)
  have "root_in db c t" if "t \<in> reply_roots impact'" for t
  proof (cases "t \<in> reply_roots impact")
    case True
    with pending show ?thesis by (simp add: pending_def)
  next
    case False
    with that roots obtain m where "m \<in> set targets" "m_reply_root_id m = Some t" by auto
    with targets replies show ?thesis by (fastforce simp: replies_ok_def root_in_def)
  qed
  moreover have "thread_ok ?db (deleted_row (map m_id targets) now r)"
    if r: "r \<in> set (messages db)" "m_reply_root_id r = None" "m_id r \<notin> reply_roots impact'" for r
  proof -
    have "m_id m \<notin> set (map m_id targets)"
      if "m \<in> set (messages db)" "m_reply_root_id m = Some (m_id r)" for m
      using target that r(3) roots by blast
    then show ?thesis
      using pending r roots by (subst unmarked_thread) (auto simp: pending_def)
  qed
  moreover have "pending_last c impact' ?db g" if g: "g \<in> set (groups (core db))" for g
  proof (cases "last_ok db g")
    case True
    from mark_last [OF this, of "map m_id targets" now] show ?thesis
      using target targets(2) records by (auto simp: pending_last_def records_def last_candidate_def)
  next
    case False
    with pending g records show ?thesis by (auto simp: pending_def pending_last_def records_def)
  qed
  moreover have "pending_chat_position c impact' ?db gm" if gm: "gm \<in> set (memberships (core db))" for gm
  proof (cases "gm_last_read_message_id gm")
    case None
    then show ?thesis by (simp add: pending_chat_position_def)
  next
    case (Some i)
    with pending gm obtain m where m: "m \<in> set (messages db)" "m_id m = i" "m_chat_id m = gm_chat_id gm"
        "m_is_published m" "m_reply_root_id m = None" and
      "m_deleted_at m = None \<or> m_has_thread m \<or> gm_chat_id gm = c \<and> i \<in> set (di_chat_message_ids impact)"
      by (fastforce simp: pending_def pending_chat_position_def)
    then have "m_deleted_at (deleted_row (map m_id targets) now m) = None \<or> m_has_thread m \<or>
        gm_chat_id gm = c \<and> i \<in> set (di_chat_message_ids impact')"
      using target [OF m(1)] targets(2) records by (auto simp: records_def)
    with m Some show ?thesis by (auto simp: pending_chat_position_def)
  qed
  moreover have "pending_thread_position (reply_pairs impact') ?db ts"
    if ts: "ts \<in> set (thread_user_states db)" for ts
  proof (cases "ts_last_read_message_id ts")
    case None
    then show ?thesis by (simp add: pending_thread_position_def)
  next
    case (Some i)
    have "pending_thread_position (reply_pairs impact) db ts"
      using pending ts by (simp add: pending_def)
    with Some have "i = ts_thread_root_id ts \<or> (ts_thread_root_id ts, i) \<in> reply_pairs impact \<or>
        (\<exists>m \<in> set (messages db). m_id m = i \<and> live_reply (ts_thread_root_id ts) m)"
      by (simp add: pending_thread_position_def)
    then show ?thesis
    proof (elim disjE bexE conjE)
      fix m assume m: "m \<in> set (messages db)" "m_id m = i" "live_reply (ts_thread_root_id ts) m"
      show ?thesis
      proof (cases "i \<in> set (map m_id targets)")
        case True
        with m target have "m \<in> set targets" by blast
        with m Some records show ?thesis
          by (auto simp: pending_thread_position_def records_def live_reply_def)
      next
        case False
        with m Some show ?thesis by (auto simp: pending_thread_position_def)
      qed
    qed (use Some records in \<open>auto simp: pending_thread_position_def records_def\<close>)
  qed
  ultimately show ?thesis
    using pending records mark_deleted_weak [OF weak]
    by (auto simp: pending_def records_def)
qed

section \<open>Reconciliation\<close>

lemma reconcile_live_reply:
  "(\<exists>m \<in> set (messages (reconcile_thread c e db)). m_id m = i \<and> live_reply t m) \<longleftrightarrow>
   (\<exists>m \<in> set (messages db). m_id m = i \<and> live_reply t m)"
proof -
  have "live_reply t (if b then m\<lparr>m_has_thread := False\<rparr> else m) = live_reply t m"
      "m_id (if b then m\<lparr>m_has_thread := False\<rparr> else m) = m_id m" for b and m :: message_row
    by simp_all
  then show ?thesis by (simp only: reconcile_thread_simps recalculate_messages set_map bex_simps)
qed

lemma newest_live_reply:
  assumes "newest_id (\<lambda>m. live_reply t m \<and> P m) ms = Some i"
  shows "\<exists>m \<in> set ms. m_id m = i \<and> live_reply t m"
  using newest_id_Some [OF assms] by blast

lemma anchored_Nil [simp]: "\<not> anchored i []"
  by (simp add: anchored_def split: option.split)

lemma reconcile_positions_step:
  assumes "\<forall>ts \<in> set (thread_user_states db). pending_thread_position ({t} \<times> set ids \<union> pairs) db ts"
  shows "\<forall>ts \<in> set (thread_user_states (reconcile_thread c (t, ids) db)).
    pending_thread_position pairs (reconcile_thread c (t, ids) db) ts"
proof
  let ?mid = "recalculate_thread_meta c t db" and ?db = "reconcile_thread c (t, ids) db"
  let ?P = "\<lambda>s. ts_thread_root_id s = t \<and> anchored (ts_last_read_message_id s) ids"
  let ?f = "\<lambda>s. s\<lparr>ts_last_read_message_id := newest_id (\<lambda>m. live_reply t m \<and>
      (case ts_last_read_message_id s of None \<Rightarrow> False | Some l \<Rightarrow> m_id m < l)) (messages ?mid)\<rparr>"
  have states: "thread_user_states ?db = update_rows ?P ?f (thread_user_states db)"
  proof (cases "ids = []")
    case True
    then show ?thesis
      by (simp add: reconcile_thread_def shift_thread_read_pointers_on_delete_def update_rows_def)
  qed (simp add: reconcile_thread_def shift_thread_read_pointers_on_delete_def Let_def)
  fix ts assume "ts \<in> set (thread_user_states ?db)"
  then obtain s where s: "s \<in> set (thread_user_states db)" "ts = (if ?P s then ?f s else s)"
    unfolding states by (auto simp: update_rows_def)
  with assms have old: "pending_thread_position ({t} \<times> set ids \<union> pairs) db s" by blast
  show "pending_thread_position pairs ?db ts"
  proof (cases "?P s")
    case True
    have "\<exists>m \<in> set (messages ?db). m_id m = i \<and> live_reply t m"
      if "newest_id (\<lambda>m. live_reply t m \<and>
        (case ts_last_read_message_id s of None \<Rightarrow> False | Some l \<Rightarrow> m_id m < l)) (messages ?mid) = Some i" for i
      using newest_live_reply [OF that] by simp
    with True s(2) show ?thesis by (auto simp: pending_thread_position_def split: option.split)
  next
    case False
    then have "ts = s" "\<And>i. ts_last_read_message_id s = Some i \<Longrightarrow> (ts_thread_root_id s, i) \<notin> {t} \<times> set ids"
      using s(2) by (auto simp: anchored_def)
    with old reconcile_live_reply [of c "(t, ids)" db] show ?thesis
      by (auto simp: pending_thread_position_def split: option.split)
  qed
qed

lemma reconcile_positions:
  assumes "\<forall>ts \<in> set (thread_user_states db). pending_thread_position (pairs_of entries \<union> pairs) db ts"
  shows "\<forall>ts \<in> set (thread_user_states (fold (reconcile_thread c) entries db)).
    pending_thread_position pairs (fold (reconcile_thread c) entries db) ts"
  using assms
proof (induction entries arbitrary: db)
  case (Cons e entries)
  then show ?case
    using reconcile_positions_step [of db "fst e" "snd e" "pairs_of entries \<union> pairs" c]
    by (cases e) (simp add: Un_assoc)
qed simp

text \<open>Recalculation only clears flags of the recorded roots.\<close>

definition same_rows :: "snowflake set \<Rightarrow> message_row list \<Rightarrow> message_row list \<Rightarrow> bool" where
  "same_rows roots ms ms' \<longleftrightarrow>
     list_all2 (\<lambda>m m'. m' = m \<or> m_id m \<in> roots \<and> m' = m\<lparr>m_has_thread := False\<rparr>) ms ms'"

lemma same_rows_fold:
  "fst ` set entries \<subseteq> roots \<Longrightarrow>
   same_rows roots (messages db) (messages (fold (reconcile_thread c) entries db)) \<and>
   core (fold (reconcile_thread c) entries db) = core db"
proof (induction entries arbitrary: db)
  case Nil
  then show ?case by (simp add: same_rows_def list.rel_refl)
next
  case (Cons e entries)
  have step: "same_rows roots (messages db) (messages (reconcile_thread c e db))"
    using Cons.prems by (auto simp: same_rows_def recalculate_messages list_all2_conv_all_nth)
  have trans: "same_rows roots ms ms' \<Longrightarrow> same_rows roots ms' ms'' \<Longrightarrow> same_rows roots ms ms''" for ms ms' ms''
    unfolding same_rows_def by (erule (1) list_all2_trans [rotated]) auto
  have "fst ` set entries \<subseteq> roots" using Cons.prems by simp
  note IH = Cons.IH [OF this, of "reconcile_thread c e db"]
  from trans [OF step conjunct1 [OF IH]] conjunct2 [OF IH] show ?case by simp
qed

lemma same_rows_forward:
  "same_rows roots ms ms' \<Longrightarrow> m \<in> set ms \<Longrightarrow>
   \<exists>m' \<in> set ms'. m' = m \<or> m_id m \<in> roots \<and> m' = m\<lparr>m_has_thread := False\<rparr>"
  unfolding same_rows_def by (induction rule: list_all2_induct) auto

lemma same_rows_newest:
  assumes "same_rows roots ms ms'" and "\<And>m b. P (m\<lparr>m_has_thread := b\<rparr>) = P m"
  shows "newest_id P ms' = newest_id P ms"
proof -
  from assms(1) have "map m_id (filter P ms') = map m_id (filter P ms)"
    unfolding same_rows_def by (induction rule: list_all2_induct) (auto simp: assms(2))
  moreover have "map_option m_id (top_by m_id ms) =
      (let ks = map m_id ms in if ks = [] then None else Some (Max (set ks)))" for ms :: "message_row list"
  proof (cases "top_by m_id ms")
    case None
    then show ?thesis by (simp add: top_by_None)
  next
    case (Some m)
    then show ?thesis using top_by_Some [OF Some] by (auto intro!: Max_eqI [symmetric] simp: Let_def top_by_def)
  qed
  ultimately show ?thesis by (simp only: newest_id_def)
qed

text \<open>The chat's own pointers: the positions of its members and its last message.\<close>

lemma shift_chat_simps [simp]:
  "messages (snd (shift_chat_read_pointers_on_delete c ids db)) = messages db"
  "thread_metas (snd (shift_chat_read_pointers_on_delete c ids db)) = thread_metas db"
  "thread_user_states (snd (shift_chat_read_pointers_on_delete c ids db)) = thread_user_states db"
  "groups (core (snd (shift_chat_read_pointers_on_delete c ids db))) = groups (core db)"
  by (simp_all add: shift_chat_read_pointers_on_delete_def Let_def)

lemma recalculate_last_simps [simp]:
  "messages (recalculate_group_last_message c db) = messages db"
  "thread_metas (recalculate_group_last_message c db) = thread_metas db"
  "thread_user_states (recalculate_group_last_message c db) = thread_user_states db"
  "memberships (core (recalculate_group_last_message c db)) = memberships (core db)"
  by (simp_all add: recalculate_group_last_message_def Let_def)

lemma recalculate_last_ok:
  assumes "g \<in> set (groups (core (recalculate_group_last_message c db)))"
    and "\<And>g. g \<in> set (groups (core db)) \<Longrightarrow> g_id g \<noteq> c \<Longrightarrow> last_ok db g"
  shows "last_ok (recalculate_group_last_message c db) g"
proof -
  have candidate: "(\<lambda>m. m_chat_id m = c \<and> m_deleted_at m = None \<and> m_is_published m \<and>
      m_reply_root_id m = None) = last_candidate c"
    by (simp add: fun_eq_iff last_candidate_def)
  from assms(1) obtain h where h: "h \<in> set (groups (core db))"
      "g = (if g_id h = c then h\<lparr>g_last_message_id := newest_id (last_candidate c) (messages db),
         g_last_message_at := map_option m_created_at (top_by m_id (filter (last_candidate c) (messages db)))\<rparr> else h)"
    by (auto simp: recalculate_group_last_message_def Let_def candidate update_rows_def select_rows_def newest_id_def)
  then show ?thesis using assms(2) by (auto simp: last_ok_def)
qed

lemma recalculate_last_keys [simp]:
  "map g_id (groups (core (recalculate_group_last_message c db))) = map g_id (groups (core db))"
  by (simp add: recalculate_group_last_message_def Let_def map_update_rows)

lemma positions_cong:
  assumes "messages db' = messages db"
  shows "chat_position_ok db' = chat_position_ok db" and "thread_position_ok db' = thread_position_ok db"
    and "last_ok db' = last_ok db"
  unfolding fun_eq_iff chat_position_ok_def thread_position_ok_def last_ok_def assms by simp_all

lemma shift_chat_positions:
  assumes "\<And>gm. gm \<in> set (memberships (core db)) \<Longrightarrow>
      chat_position_ok db gm \<or> gm_chat_id gm = c \<and> anchored (gm_last_read_message_id gm) ids"
    and "gm \<in> set (memberships (core (snd (shift_chat_read_pointers_on_delete c ids db))))"
  shows "chat_position_ok (snd (shift_chat_read_pointers_on_delete c ids db)) gm"
proof (cases "ids = []")
  case True
  with assms show ?thesis by (auto simp: shift_chat_read_pointers_on_delete_def)
next
  case False
  let ?P = "\<lambda>m. gm_chat_id m = c \<and> anchored (gm_last_read_message_id m) ids"
  let ?new = "\<lambda>r. newest_id (\<lambda>m. timeline_row c m \<and>
      (case gm_last_read_message_id r of None \<Rightarrow> False | Some l \<Rightarrow> m_id m < l)) (messages db)"
  have cong: "chat_position_ok (snd (shift_chat_read_pointers_on_delete c ids db)) = chat_position_ok db"
    by (rule positions_cong) simp
  from False assms(2) obtain r where r: "r \<in> set (memberships (core db))"
      "gm = (if ?P r then r\<lparr>gm_last_read_message_id := ?new r\<rparr> else r)"
    by (auto simp: shift_chat_read_pointers_on_delete_def Let_def update_rows_def)
  show ?thesis
  proof (cases "?P r")
    case True
    have "\<exists>m \<in> set (messages db). m_id m = i \<and> timeline_row c m" if "?new r = Some i" for i
      using newest_id_Some [OF that] by blast
    with True r(2) show ?thesis
      unfolding cong by (auto simp: chat_position_ok_def split: option.split)
  next
    case False
    with r assms(1) [OF r(1)] show ?thesis by (simp add: cong)
  qed
qed

lemma sample_group_positions: "positions_ok sample_group_chat"
  by code_simp

definition reconciled_threads :: "snowflake \<Rightarrow> deletion_impact \<Rightarrow> chat_db \<Rightarrow> chat_db" where
  "reconciled_threads c impact db = fold (reconcile_thread c) (di_reply_ids impact) db"

definition hidden_ids :: "deletion_impact \<Rightarrow> chat_db \<Rightarrow> snowflake list" where
  "hidden_ids impact db = map m_id (select_rows (\<lambda>m.
     m_id m \<in> set (di_chat_message_ids impact @ di_thread_root_ids impact) \<and>
     \<not> m_has_thread m \<and> m_deleted_at m \<noteq> None) (messages db))"

lemma reconcile_deletions_split:
  assumes "reconcile_deletions c impact db = Inr db'"
  obtains g where "g \<in> set (groups (core db))" "g_id g = c"
    "let shifted = snd (shift_chat_read_pointers_on_delete c (hidden_ids impact (reconciled_threads c impact db))
         (reconciled_threads c impact db))
     in db' = (if \<exists>i \<in> set (di_message_ids impact). g_last_message_id g = Some i
        then recalculate_group_last_message c shifted else shifted)"
proof -
  let ?mid = "reconciled_threads c impact db"
  let ?shifted = "snd (shift_chat_read_pointers_on_delete c (hidden_ids impact ?mid) ?mid)"
  have core: "core ?mid = core db"
    using same_rows_fold [of "di_reply_ids impact" UNIV db c] by (simp add: reconciled_threads_def)
  have shift: "(if hidden_ids impact ?mid \<noteq> [] then ?shifted else ?mid) = ?shifted"
    by (simp add: shift_chat_read_pointers_on_delete_def)
  have "reconcile_deletions c impact db =
      and_then (ok_or (first_row (\<lambda>g. g_id g = c) (groups (core ?shifted))) (DbQuery DbNotFound)) (\<lambda>g.
        Inr (case g_last_message_id g of
               Some last_id \<Rightarrow> if last_id \<in> set (di_message_ids impact)
                 then recalculate_group_last_message c ?shifted else ?shifted
             | None \<Rightarrow> ?shifted))"
    unfolding reconcile_deletions_def Let_def reconciled_threads_def [symmetric]
      hidden_ids_def [symmetric] shift ..
  with assms obtain g where g: "first_row (\<lambda>g. g_id g = c) (groups (core db)) = Some g"
      "db' = (case g_last_message_id g of
               Some last_id \<Rightarrow> if last_id \<in> set (di_message_ids impact)
                 then recalculate_group_last_message c ?shifted else ?shifted
             | None \<Rightarrow> ?shifted)"
    by (auto simp: and_then_def ok_or_def core split: option.splits)
  from first_row_Some [OF g(1)] g(2) show ?thesis
    by (intro that [of g]) (auto split: option.splits)
qed

lemma pending_reconcile_threads:
  assumes "pending c impact db"
  defines "mid \<equiv> reconciled_threads c impact db"
  shows "threads_ok mid" and "core mid = core db"
    and "\<And>ts. ts \<in> set (thread_user_states mid) \<Longrightarrow> thread_position_ok mid ts"
    and "\<And>g. last_ok mid g = last_ok db g"
    and "\<And>gm. gm \<in> set (memberships (core mid)) \<Longrightarrow> chat_position_ok mid gm \<or>
      gm_chat_id gm = c \<and> anchored (gm_last_read_message_id gm) (hidden_ids impact mid)"
proof -
  show "threads_ok mid"
    using assms(1) unfolding mid_def reconciled_threads_def
    by (intro reconcile_threads) (auto simp: pending_def reply_roots_def)
  have rows: "same_rows (reply_roots impact) (messages db) (messages mid)"
    and core: "core mid = core db"
    using same_rows_fold [of "di_reply_ids impact" "reply_roots impact" db c]
    by (simp_all add: mid_def reconciled_threads_def reply_roots_def)
  show "core mid = core db" by (rule core)
  have "\<forall>ts \<in> set (thread_user_states mid). pending_thread_position {} mid ts"
    using assms(1) unfolding mid_def reconciled_threads_def
    by (intro reconcile_positions) (simp add: pending_def reply_pairs_pairs_of)
  then show "thread_position_ok mid ts" if "ts \<in> set (thread_user_states mid)" for ts
    using that by (auto simp: pending_thread_position_def thread_position_ok_def split: option.splits)
  show "last_ok mid g = last_ok db g" for g
    by (simp add: last_ok_def last_candidate_def same_rows_newest [OF rows])
  show "chat_position_ok mid gm \<or>
      gm_chat_id gm = c \<and> anchored (gm_last_read_message_id gm) (hidden_ids impact mid)"
    if gm: "gm \<in> set (memberships (core mid))" for gm
  proof (cases "gm_last_read_message_id gm")
    case None
    then show ?thesis by (simp add: chat_position_ok_def)
  next
    case (Some i)
    have "pending_chat_position c impact db gm" using assms(1) gm core by (simp add: pending_def)
    with Some obtain m where m: "m \<in> set (messages db)" "m_id m = i" "m_chat_id m = gm_chat_id gm"
        "m_is_published m" "m_reply_root_id m = None"
        "m_deleted_at m = None \<or> m_has_thread m \<or> gm_chat_id gm = c \<and> i \<in> set (di_chat_message_ids impact)"
      by (auto simp: pending_chat_position_def)
    obtain m' where m': "m' \<in> set (messages mid)"
        "m' = m \<or> m_id m \<in> reply_roots impact \<and> m' = m\<lparr>m_has_thread := False\<rparr>"
      using same_rows_forward [OF rows m(1)] by blast
    have same: "m_id m' = i" "m_chat_id m' = gm_chat_id gm" "m_is_published m'" "m_reply_root_id m' = None"
        "m_deleted_at m' = m_deleted_at m"
      using m' m by auto
    show ?thesis
    proof (cases "timeline_row (gm_chat_id gm) m'")
      case True
      with same m'(1) Some show ?thesis by (auto simp: chat_position_ok_def)
    next
      case False
      with same have gone: "m_deleted_at m' \<noteq> None" "\<not> m_has_thread m'" by (auto simp: timeline_row_def)
      have "gm_chat_id gm = c \<and> i \<in> set (di_chat_message_ids impact @ di_thread_root_ids impact)"
      proof (cases "m_id m \<in> reply_roots impact")
        case True
        with assms(1) obtain r where "r \<in> set (messages db)" "m_id r = m_id m" "m_chat_id r = c"
          by (auto simp: pending_def root_in_def)
        then have "m_chat_id m = c"
          using assms(1) m(1) by (auto simp: pending_def threads_weak_def dest: distinct_keys_eq)
        with True m(2,3) assms(1) show ?thesis by (auto simp: pending_def)
      next
        case False
        with m' gone m(6) same(5) show ?thesis by auto
      qed
      with gone same m'(1) Some show ?thesis
        by (auto simp: anchored_def hidden_ids_def row_simps image_iff)
    qed
  qed
qed

lemma pending_finish:
  assumes "pending c impact db" and g: "g \<in> set (groups (core db))" "g_id g = c"
    and S: "messages S = messages (reconciled_threads c impact db)"
      "thread_metas S = thread_metas (reconciled_threads c impact db)"
      "thread_user_states S = thread_user_states (reconciled_threads c impact db)"
      "groups (core S) = groups (core db)"
    and db': "db' = (if \<exists>i \<in> set (di_message_ids impact). g_last_message_id g = Some i
        then recalculate_group_last_message c S else S)"
  shows "books_ok db'" and "ts \<in> set (thread_user_states db') \<Longrightarrow> thread_position_ok db' ts"
    and "memberships (core db') = memberships (core S)" and "chat_position_ok db' = chat_position_ok S"
proof -
  let ?mid = "reconciled_threads c impact db"
  note mid = pending_reconcile_threads [OF assms(1)]
  have same: "messages db' = messages ?mid" "thread_metas db' = thread_metas ?mid"
      "thread_user_states db' = thread_user_states ?mid"
    using S db' by simp_all
  have groups: "distinct_keys g_id (groups (core db))" "\<forall>g \<in> set (groups (core db)). pending_last c impact db g"
    using assms(1) by (simp_all add: pending_def)
  have "last_ok S = last_ok ?mid" using S(1) by (rule positions_cong)
  then have last: "last_ok S = last_ok db" using mid(4) by (simp add: fun_eq_iff)
  have "threads_ok db'" using mid(1) books_cong(3) [OF same(1,2)] by simp
  moreover have "distinct_keys g_id (groups (core db'))"
    using groups(1) db' S(4) by (simp add: distinct_keys_def)
  moreover have "last_ok db' h" if h: "h \<in> set (groups (core db'))" for h
  proof (cases "\<exists>i \<in> set (di_message_ids impact). g_last_message_id g = Some i")
    case True
    have "last_ok S k" if "k \<in> set (groups (core S))" "g_id k \<noteq> c" for k
      using that groups(2) S(4) unfolding last by (auto simp: pending_last_def)
    then have "last_ok (recalculate_group_last_message c S) h"
      using h db' True by (intro recalculate_last_ok) simp_all
    with True db' show ?thesis by simp
  next
    case False
    with db' h S(4) have shifted: "db' = S" and old: "h \<in> set (groups (core db))" by simp_all
    have "last_ok db h"
      using groups(2) old g False distinct_keys_eq [OF groups(1)] by (fastforce simp: pending_last_def)
    with shifted show ?thesis by (simp add: last)
  qed
  ultimately show "books_ok db'" by (simp add: books_ok_def)
  show "memberships (core db') = memberships (core S)" using db' by simp
  show "chat_position_ok db' = chat_position_ok S" using S(1) same(1) by (intro positions_cong) simp
  have "thread_position_ok db' = thread_position_ok ?mid" using same(1) by (rule positions_cong)
  then show "ts \<in> set (thread_user_states db') \<Longrightarrow> thread_position_ok db' ts"
    using mid(3) same(3) by simp
qed

lemma pending_reconciled:
  assumes "pending c impact db" and "reconcile_deletions c impact db = Inr db'"
  shows "books_ok db' \<and> positions_ok db'"
proof -
  let ?mid = "reconciled_threads c impact db"
  let ?shifted = "snd (shift_chat_read_pointers_on_delete c (hidden_ids impact ?mid) ?mid)"
  note mid = pending_reconcile_threads [OF assms(1)]
  from reconcile_deletions_split [OF assms(2)] obtain g where g: "g \<in> set (groups (core db))" "g_id g = c"
      "db' = (if \<exists>i \<in> set (di_message_ids impact). g_last_message_id g = Some i
        then recalculate_group_last_message c ?shifted else ?shifted)"
    unfolding Let_def by blast
  have shifted: "messages ?shifted = messages ?mid" "thread_metas ?shifted = thread_metas ?mid"
      "thread_user_states ?shifted = thread_user_states ?mid" "groups (core ?shifted) = groups (core db)"
    using mid(2) by simp_all
  note finish = pending_finish [OF assms(1) g(1,2) shifted g(3)]
  have "chat_position_ok db' gm" if "gm \<in> set (memberships (core db'))" for gm
    using that mid(5) shift_chat_positions [of ?mid c "hidden_ids impact ?mid" gm] finish(3,4) by simp
  with finish(1,2) show ?thesis by (simp add: positions_ok_def)
qed

section \<open>The three ways to delete\<close>

lemma selection_targets:
  assumes "delete_selection c uid adm ids now db = Inr (deletion, db')"
  defines "targets \<equiv> sort_key m_id (select_rows (\<lambda>m. m_chat_id m = c \<and> m_id m \<in> set ids) (messages db))"
  shows "reconcile_deletions c (impact_of targets) (mark_deleted (map m_id targets) now db) = Inr db'"
    and "set targets \<subseteq> set (messages db)" and "\<forall>m \<in> set targets. m_chat_id m = c"
proof -
  from assms(1) obtain impact mid where batch: "soft_delete_batch targets now db = Inr (impact, mid)"
      "reconcile_deletions c impact mid = Inr db'"
    unfolding targets_def
    by (auto simp: delete_selection_def Let_def and_then_def split: if_splits sum.splits)
  with soft_delete_batch_Inr(1,2) [OF batch(1)]
  show "reconcile_deletions c (impact_of targets) (mark_deleted (map m_id targets) now db) = Inr db'" by simp
qed (auto simp: targets_def row_simps)

text \<open>C6: the selection.\<close>

theorem selection_keeps_chat_consistent:
  assumes "books_ok db" and "positions_ok db"
    and "delete_selection c uid adm ids now db = Inr (deletion, db')"
  shows "books_ok db' \<and> positions_ok db'"
  using pending_mark [OF pending_empty [OF assms(1,2)] records_impact_of selection_targets(2,3) [OF assms(3)]]
    selection_targets(1) [OF assms(3)]
  by (rule pending_reconciled)

text \<open>The batches of a cleanup.\<close>

lemma cleanup_loop_pending:
  "cleanup_loop limit c uid scope clock i impact db = Inr (impact', db') \<Longrightarrow> pending c impact db \<Longrightarrow>
   pending c impact' db'"
proof (induction limit c uid scope clock i impact db rule: cleanup_loop.induct)
  case (1 limit c uid scope clock i impact db)
  let ?targets = "cleanup_targets limit c uid scope (clock i) db"
  show ?case
  proof (cases "?targets = []")
    case True
    with 1(2,3) show ?thesis by simp
  next
    case False
    with 1(2) obtain batch mid where batch: "soft_delete_batch ?targets (clock i) db = Inr (batch, mid)"
      by (cases "soft_delete_batch ?targets (clock i) db") auto
    note step = soft_delete_batch_Inr(1,2) [OF batch]
    have "pending c (merge_impact impact batch) mid"
      unfolding step using 1(3) cleanup_targets_members
      by (intro pending_mark [OF 1(3) records_merge]) (auto simp: pending_def)
    with 1 False batch show ?thesis by (auto simp: Let_def split: if_splits)
  qed
qed

lemma cleanup_loop_grows:
  "cleanup_loop limit c uid scope clock i impact db = Inr (impact', db') \<Longrightarrow>
   set (di_message_ids impact) \<subseteq> set (di_message_ids impact') \<and>
   (di_message_ids impact' = [] \<longrightarrow> db' = db)"
proof (induction limit c uid scope clock i impact db rule: cleanup_loop.induct)
  case (1 limit c uid scope clock i impact db)
  let ?targets = "cleanup_targets limit c uid scope (clock i) db"
  show ?case
  proof (cases "?targets = []")
    case True
    with 1(2) show ?thesis by simp
  next
    case False
    with 1(2) obtain batch mid where batch: "soft_delete_batch ?targets (clock i) db = Inr (batch, mid)"
      by (cases "soft_delete_batch ?targets (clock i) db") auto
    note step = soft_delete_batch_Inr(1) [OF batch]
    have ids: "set (di_message_ids (merge_impact impact batch)) \<noteq> {}"
      "set (di_message_ids impact) \<subseteq> set (di_message_ids (merge_impact impact batch))"
      using False by (simp_all add: step)
    show ?thesis
    proof (cases "length ?targets < limit")
      case True
      with 1(2) False batch ids show ?thesis by (simp add: Let_def)
    next
      case full: False
      with 1(2) False batch have "cleanup_loop limit c uid scope clock (Suc i) (merge_impact impact batch) mid =
          Inr (impact', db')" by (simp add: Let_def)
      with 1(1) [OF refl False batch] full ids show ?thesis by auto
    qed
  qed
qed

text \<open>Nothing of the member's that the scope covers is left; with an unlimited scope, nothing.\<close>

lemma cleanup_loop_complete:
  "cleanup_loop limit c uid DeleteAll clock i impact db = Inr (impact', db') \<Longrightarrow>
   m \<in> set (messages db') \<Longrightarrow> m_chat_id m = c \<Longrightarrow> m_sender_uid m = uid \<Longrightarrow> m_message_type m \<noteq> System \<Longrightarrow>
   0 < limit \<Longrightarrow> m_deleted_at m \<noteq> None"
proof (induction limit c uid "DeleteAll" clock i impact db rule: cleanup_loop.induct)
  case (1 limit c uid clock i impact db)
  let ?P = "\<lambda>m. m_chat_id m = c \<and> m_sender_uid m = uid \<and> m_message_type m \<noteq> System \<and> m_deleted_at m = None"
  let ?all = "sort_key m_id (select_rows ?P (messages db))"
  let ?targets = "cleanup_targets limit c uid DeleteAll (clock i) db"
  have targets: "?targets = take limit ?all" by (simp add: cleanup_targets_def)
  show ?case
  proof (cases "?targets = []")
    case True
    with 1(2) have "db' = db" by simp
    moreover from True 1(7) have "?all = []" unfolding targets by simp
    then have "set ?all = {}" by simp
    then have "\<not> ?P m" if "m \<in> set (messages db)" for m
      using that by (simp add: row_simps)
    ultimately show ?thesis using 1(3-6) by auto
  next
    case False
    with 1(2) obtain batch mid where batch: "soft_delete_batch ?targets (clock i) db = Inr (batch, mid)"
      by (cases "soft_delete_batch ?targets (clock i) db") auto
    note step = soft_delete_batch_Inr(2) [OF batch]
    show ?thesis
    proof (cases "length ?targets < limit")
      case True
      then have "?targets = ?all" unfolding targets by simp
      moreover have "db' = mid" using True 1(2) False batch by (simp add: Let_def)
      moreover obtain m0 where "m0 \<in> set (messages db)" "m = deleted_row (map m_id ?targets) (clock i) m0"
        using 1(3) \<open>db' = mid\<close> step by auto
      ultimately show ?thesis using 1(4-6) by (auto simp: row_simps)
    next
      case full: False
      with 1(2) False batch have "cleanup_loop limit c uid DeleteAll clock (Suc i) (merge_impact impact batch) mid =
          Inr (impact', db')" by (simp add: Let_def)
      with 1(1) [OF refl False batch refl] full 1(3-7) show ?thesis by auto
    qed
  qed
qed

lemma same_rows_backward:
  "same_rows roots ms ms' \<Longrightarrow> m' \<in> set ms' \<Longrightarrow>
   \<exists>m \<in> set ms. m' = m \<or> m_id m \<in> roots \<and> m' = m\<lparr>m_has_thread := False\<rparr>"
  unfolding same_rows_def by (induction rule: list_all2_induct) auto

lemma reconcile_deletions_rows:
  assumes "reconcile_deletions c impact db = Inr db'"
  shows "same_rows (reply_roots impact) (messages db) (messages db')"
proof -
  have "messages db' = messages (reconciled_threads c impact db)"
    using reconcile_deletions_split [OF assms] by (metis (no_types, lifting) recalculate_last_simps(1) shift_chat_simps(1))
  then show ?thesis
    using same_rows_fold [of "di_reply_ids impact" "reply_roots impact" db c]
    by (simp add: reconciled_threads_def reply_roots_def)
qed

definition cleaned :: "snowflake \<Rightarrow> uid \<Rightarrow> chat_db \<Rightarrow> bool" where
  "cleaned c uid db \<longleftrightarrow> (\<forall>m \<in> set (messages db). m_chat_id m = c \<longrightarrow> m_sender_uid m = uid \<longrightarrow>
     m_message_type m \<noteq> System \<longrightarrow> m_deleted_at m \<noteq> None)"

lemma cleaned_same_rows:
  assumes "same_rows roots (messages db) (messages db')" and "cleaned c uid db"
  shows "cleaned c uid db'"
  unfolding cleaned_def
proof (intro ballI impI)
  fix m assume m: "m \<in> set (messages db')" "m_chat_id m = c" "m_sender_uid m = uid" "m_message_type m \<noteq> System"
  from same_rows_backward [OF assms(1) m(1)] obtain x where "x \<in> set (messages db)"
      "m = x \<or> m = x\<lparr>m_has_thread := False\<rparr>" by blast
  with m(2-4) assms(2) show "m_deleted_at m \<noteq> None" by (auto simp: cleaned_def)
qed


section \<open>One message\<close>

lemma authorize_delete_Inr:
  assumes "authorize_delete db uid c i = Inr m"
  shows "m \<in> set (messages db)" "m_id m = i" "m_chat_id m = c" "m_deleted_at m = None" "m_is_published m"
  using assms
  by (auto simp: authorize_delete_def and_then_def ok_or_def guard_or_def split: sum.splits option.splits if_splits
      dest!: first_row_Some)

lemma pending_cong:
  assumes "messages db' = messages db" "thread_metas db' = thread_metas db"
    "thread_user_states db' = thread_user_states db" "core db' = core db"
  shows "pending c impact db' = pending c impact db"
  unfolding pending_def pending_last_def pending_chat_position_def pending_thread_position_def root_in_def
    threads_weak_cong [OF assms(1)] books_cong [OF assms(1,2)] positions_cong [OF assms(1)] assms by simp

lemma impact_of_one:
  "impact_of [m] = (case m_reply_root_id m of
     Some t \<Rightarrow> \<lparr>di_message_ids = [m_id m], di_thread_root_ids = [t], di_reply_ids = [(t, [m_id m])],
       di_chat_message_ids = []\<rparr>
   | None \<Rightarrow> \<lparr>di_message_ids = [m_id m], di_thread_root_ids = (if m_has_thread m then [m_id m] else []),
       di_reply_ids = [], di_chat_message_ids = [m_id m]\<rparr>)"
  by (simp add: impact_of_def note_deleted_def empty_impact_def Let_def entry_extend_def
      List.insort_insert_key_def split: option.split)

text \<open>The transaction with its steps in the order of a batch.\<close>

lemma delete_transaction_split:
  assumes keys: "distinct_keys m_id (messages db)" and m: "m \<in> set (messages db)" "m_deleted_at m = None"
    and run: "delete_transaction c m now db = Inr db'"
  obtains db1 g where "messages db1 = map (deleted_row [m_id m] now) (messages db)"
    "thread_metas db1 = thread_metas db" "thread_user_states db1 = thread_user_states db" "core db1 = core db"
    "g \<in> set (groups (core db))" "g_id g = c"
    "let mid = reconciled_threads c (impact_of [m]) db1;
         S = (if m_reply_root_id m = None \<and> \<not> m_has_thread m
              then snd (shift_chat_read_pointers_on_delete c [m_id m] mid) else mid)
     in db' = (if g_last_message_id g = Some (m_id m) then recalculate_group_last_message c S else S)"
proof -
  let ?db1 = "db\<lparr>messages := update_rows (\<lambda>x. m_id x = m_id m) (\<lambda>x. x\<lparr>m_deleted_at := Some now\<rparr>) (messages db),
     message_mentions := delete_rows (\<lambda>r. mm_message_id r = m_id m) (message_mentions db)\<rparr>"
  have rows: "messages ?db1 = map (deleted_row [m_id m] now) (messages db)"
  proof -
    have "m_id x = m_id m \<Longrightarrow> m_deleted_at x = None" if "x \<in> set (messages db)" for x
      using distinct_keys_eq [OF keys m(1) that] m(2) by simp
    then show ?thesis by (auto simp: update_rows_def deleted_row_def)
  qed
  show ?thesis
  proof (cases "m_reply_root_id m")
    case None
    with run obtain g where g: "first_row (\<lambda>g. g_id g = c) (groups (core db)) = Some g"
      "db' = (let x = (if g_last_message_id g = Some (m_id m) then recalculate_group_last_message c ?db1 else ?db1)
        in if \<not> m_has_thread m then snd (shift_chat_read_pointers_on_delete c [m_id m] x) else x)"
      by (auto simp: delete_transaction_def Let_def and_then_def ok_or_def split: option.splits)
    from first_row_Some [OF g(1)] rows g(2) None show ?thesis
      by (intro that [of ?db1 g]) (auto simp: Let_def reconciled_threads_def impact_of_one
          recalculate_group_last_message_def shift_chat_read_pointers_on_delete_def)
  next
    case (Some t)
    with run obtain g where g: "first_row (\<lambda>g. g_id g = c) (groups (core db)) = Some g"
      "db' = (let y = recalculate_thread_meta c t ?db1;
           x = (if g_last_message_id g = Some (m_id m) then recalculate_group_last_message c y else y)
        in snd (shift_thread_read_pointers_on_delete t [m_id m] x))"
      by (auto simp: delete_transaction_def Let_def and_then_def ok_or_def split: option.splits)
    have commute: "snd (shift_thread_read_pointers_on_delete t ids (recalculate_group_last_message c y)) =
        recalculate_group_last_message c (snd (shift_thread_read_pointers_on_delete t ids y))" for ids y
      by (simp add: recalculate_group_last_message_def shift_thread_read_pointers_on_delete_def Let_def)
    from first_row_Some [OF g(1)] rows g(2) Some show ?thesis
      by (intro that [of ?db1 g]) (auto simp: Let_def reconciled_threads_def impact_of_one
          reconcile_thread_def commute)
  qed
qed

text \<open>Deleting one message hides nothing but itself, unless it was the last reply of a deleted root.\<close>

lemma hidden_is_self:
  assumes books: "books_ok db" and m: "m \<in> set (messages db)" "m_id m = i"
    and db1: "messages db1 = map (deleted_row [i] now) (messages db)"
    and threads: "threads_ok (reconciled_threads c (impact_of [m]) db1)"
    and kept: "\<forall>m \<in> set (messages db). m_id m = i \<longrightarrow> (\<forall>r \<in> set (messages db).
        m_reply_root_id m = Some (m_id r) \<longrightarrow> m_deleted_at r = None \<or>
        (\<exists>x \<in> set (messages db). live_reply (m_id r) x \<and> m_id x \<noteq> i))"
    and in_chat: "m_chat_id m = c"
    and h: "h \<in> set (hidden_ids (impact_of [m]) (reconciled_threads c (impact_of [m]) db1))"
  shows "i = h \<and> m_reply_root_id m = None \<and> \<not> m_has_thread m"
proof -
  have keys: "distinct_keys m_id (messages db)" using books by (simp add: books_ok_def threads_ok_def)
  let ?mid = "reconciled_threads c (impact_of [m]) db1"
  show ?thesis
  proof (cases "m_reply_root_id m")
    case None
    then have "?mid = db1" by (simp add: reconciled_threads_def impact_of_one)
    with None h obtain x where x: "x \<in> set (messages db)" "m_id x = h" "m_id x = i" "\<not> m_has_thread x"
      using m(2) by (auto simp: hidden_ids_def impact_of_one db1 row_simps split: if_splits)
    with distinct_keys_eq [OF keys m(1) x(1)] m(2) None show ?thesis by simp
  next
    case (Some t)
    with h obtain x where x: "x \<in> set (messages ?mid)" "m_id x = t" "\<not> m_has_thread x" "m_deleted_at x \<noteq> None"
      by (auto simp: hidden_ids_def impact_of_one row_simps)
    obtain r where r: "r \<in> set (messages db)" "m_id r = t" "m_reply_root_id r = None"
      using books m(1) Some by (fastforce simp: books_ok_def threads_ok_def replies_ok_def)
    have mid_rows: "messages ?mid = messages (recalculate_thread_meta c t db1)"
      using Some by (simp add: reconciled_threads_def impact_of_one)
    from x(1) obtain y where y: "y \<in> set (messages db)" "m_id y = m_id x"
        "m_reply_root_id x = m_reply_root_id y" "m_deleted_at x = m_deleted_at (deleted_row [i] now y)"
      unfolding mid_rows by (auto simp: recalculate_messages db1 split: if_splits)
    then have "y = r" using distinct_keys_eq [OF keys y(1) r(1)] x(2) r(2) by simp
    moreover have "t \<noteq> i"
    proof
      assume "t = i"
      with distinct_keys_eq [OF keys m(1) r(1)] m(2) r(2) have "m = r" by simp
      with r(3) Some show False by simp
    qed
    ultimately have "m_deleted_at r \<noteq> None" using x(4) y(4) r(2) by simp
    with bspec [OF mp [OF bspec [OF kept m(1)] m(2)] r(1)] Some r(2)
    obtain o' where "o' \<in> set (messages db)" "live_reply t o'" "m_id o' \<noteq> i" by auto
    then have "0 < live_count db1 t" unfolding live_count_pos db1 by force
    then have "0 < live_count ?mid t"
      unfolding live_count_cong [OF mid_rows] by simp
    moreover have "thread_ok ?mid x"
      using threads x(1) y(3) r(3) \<open>y = r\<close> by (simp add: threads_ok_def)
    ultimately show ?thesis using x(2,3) by (simp add: thread_ok_def)
  qed
qed

text \<open>C39: one message.\<close>

theorem delete_message_keeps_chat_consistent:
  assumes "books_ok db" and "positions_ok db" and "delete_message uid c i now db = Inr ((), db')"
  shows "books_ok db' \<and>
    ((\<forall>m \<in> set (messages db). m_id m = i \<longrightarrow> (\<forall>r \<in> set (messages db).
        m_reply_root_id m = Some (m_id r) \<longrightarrow> m_deleted_at r = None \<or>
        (\<exists>x \<in> set (messages db). live_reply (m_id r) x \<and> m_id x \<noteq> i)))
     \<longrightarrow> positions_ok db')"
proof -
  from assms(3) obtain m where auth: "authorize_delete db uid c i = Inr m"
      and run: "delete_transaction c m now db = Inr db'"
    by (auto simp: delete_message_def and_then_def split: sum.splits)
  note m = authorize_delete_Inr [OF auth]
  have keys: "distinct_keys m_id (messages db)" using assms(1) by (simp add: books_ok_def threads_ok_def)
  from delete_transaction_split [OF keys m(1,4) run] obtain db1 g where
    db1: "messages db1 = map (deleted_row [i] now) (messages db)" "thread_metas db1 = thread_metas db"
      "thread_user_states db1 = thread_user_states db" "core db1 = core db"
    and g: "g \<in> set (groups (core db1))" "g_id g = c"
    and db': "let mid = reconciled_threads c (impact_of [m]) db1;
         S = (if m_reply_root_id m = None \<and> \<not> m_has_thread m
              then snd (shift_chat_read_pointers_on_delete c [i] mid) else mid)
     in db' = (if g_last_message_id g = Some i then recalculate_group_last_message c S else S)"
    using m(2) by (metis (no_types, lifting))
  let ?impact = "impact_of [m]" and ?mid = "reconciled_threads c (impact_of [m]) db1"
  let ?S = "if m_reply_root_id m = None \<and> \<not> m_has_thread m
      then snd (shift_chat_read_pointers_on_delete c [i] ?mid) else ?mid"
  have "pending c ?impact (mark_deleted [i] now db)"
    using pending_mark [OF pending_empty [OF assms(1,2)] records_impact_of, of "[m]" c now] m by simp
  then have pending: "pending c ?impact db1"
    using pending_cong [of db1 "mark_deleted [i] now db"] db1 by simp
  note mid = pending_reconcile_threads [OF pending]
  have S: "messages ?S = messages ?mid" "thread_metas ?S = thread_metas ?mid"
      "thread_user_states ?S = thread_user_states ?mid" "groups (core ?S) = groups (core db1)"
    using mid(2) by simp_all
  have ids: "di_message_ids ?impact = [i]" using m(2) by simp
  have "db' = (if \<exists>j \<in> set (di_message_ids ?impact). g_last_message_id g = Some j
      then recalculate_group_last_message c ?S else ?S)"
    using db' unfolding Let_def ids by simp
  note finish = pending_finish [OF pending g S this]
  show ?thesis
  proof (intro conjI impI)
    show "books_ok db'" by (rule finish(1))
    assume kept: "\<forall>m \<in> set (messages db). m_id m = i \<longrightarrow> (\<forall>r \<in> set (messages db).
        m_reply_root_id m = Some (m_id r) \<longrightarrow> m_deleted_at r = None \<or>
        (\<exists>x \<in> set (messages db). live_reply (m_id r) x \<and> m_id x \<noteq> i))"
    have hidden: "i = h \<and> m_reply_root_id m = None \<and> \<not> m_has_thread m"
      if "h \<in> set (hidden_ids ?impact ?mid)" for h
      using hidden_is_self [OF assms(1) m(1,2) db1(1) mid(1) kept m(3) that] .
    have "chat_position_ok ?S gm" if gm: "gm \<in> set (memberships (core ?S))" for gm
    proof (cases "m_reply_root_id m = None \<and> \<not> m_has_thread m")
      case True
      have "chat_position_ok ?mid x \<or> gm_chat_id x = c \<and> anchored (gm_last_read_message_id x) [i]"
        if "x \<in> set (memberships (core ?mid))" for x
        using mid(5) [OF that] hidden by (fastforce simp: anchored_def split: option.splits)
      with True gm show ?thesis by (simp add: shift_chat_positions)
    next
      case False
      then have "hidden_ids ?impact ?mid = []" using hidden by (metis list.set_intros(1) neq_Nil_conv)
      with False mid(5) gm show ?thesis by auto
    qed
    with finish show "positions_ok db'" by (auto simp: positions_ok_def)
  qed
qed

section \<open>On the sample chat\<close>

lemma selection_keeps_chat_consistent_witness:
  "case delete_selection 10 1 True [101, 103] 500 sample_group_chat of
     Inl _ \<Rightarrow> False | Inr (_, db') \<Rightarrow> books_ok db' \<and> positions_ok db'"
proof -
  have "\<not> isl (delete_selection 10 1 True [101, 103] 500 sample_group_chat)" by code_simp
  then obtain d db' where run: "delete_selection 10 1 True [101, 103] 500 sample_group_chat = Inr (d, db')"
    by (cases "delete_selection 10 1 True [101, 103] 500 sample_group_chat") auto
  with selection_keeps_chat_consistent [OF sample_group_books sample_group_positions run] show ?thesis by simp
qed

lemma delete_message_keeps_chat_consistent_witness:
  "case delete_message 1 10 103 500 sample_group_chat of Inl _ \<Rightarrow> False | Inr (_, db') \<Rightarrow> books_ok db'"
proof -
  have "\<not> isl (delete_message 1 10 103 500 sample_group_chat)" by code_simp
  then obtain db' where run: "delete_message 1 10 103 500 sample_group_chat = Inr ((), db')"
    by (cases "delete_message 1 10 103 500 sample_group_chat") auto
  with delete_message_keeps_chat_consistent [OF sample_group_books sample_group_positions run] show ?thesis by simp
qed


end
