(* ===== verification/Send_Guarantees.thy ===== *)
theory Send_Guarantees
  imports Message_Send Deletion_Guarantees
begin

text \<open>
  What sending guarantees: the books and read positions of a chat stay right, a retried request
  changes nothing and gets the first answer, and the people a message concerns are recorded and
  told exactly once.
\<close>

section \<open>The response of a stored message\<close>

lemma attach_metadata_one:
  "attach_metadata vc db uid [m] = [build_response vc ((load_page vc db uid [m])
     \<lparr>pd_reactions := (\<lambda>i. pd_reactions (load_page vc db uid [m]) i)\<rparr>) m]"
  by (simp add: attach_metadata_def)

lemma build_response_fields [simp]:
  "r_id (build_response vc pd m) = m_id m"
  "r_chat_id (build_response vc pd m) = m_chat_id m"
  "r_reply_root_id (build_response vc pd m) = m_reply_root_id m"
  "r_created_at (build_response vc pd m) = m_created_at m"
  "u_uid (r_sender (build_response vc pd m)) = m_sender_uid m"
  "r_message_type (build_response vc pd m) = m_message_type m"
  "r_system_kind (build_response vc pd m) = m_system_kind m"
  by (simp_all add: build_response_def Let_def redact_deleted_message_response_def build_sender_def
      split: prod.split)

lemma override_fields [simp]:
  "r_id (apply_forwarded_preview_override vc pv r) = r_id r"
  "r_chat_id (apply_forwarded_preview_override vc pv r) = r_chat_id r"
  "r_reply_root_id (apply_forwarded_preview_override vc pv r) = r_reply_root_id r"
  "r_created_at (apply_forwarded_preview_override vc pv r) = r_created_at r"
  "r_sender (apply_forwarded_preview_override vc pv r) = r_sender r"
  "r_message_type (apply_forwarded_preview_override vc pv r) = r_message_type r"
  "r_message (apply_forwarded_preview_override vc pv r) = r_message r"
  "r_reply_to_message (apply_forwarded_preview_override vc pv r) = r_reply_to_message r"
  "r_system_kind (apply_forwarded_preview_override vc pv r) = r_system_kind r"
  by (simp_all add: apply_forwarded_preview_override_def Let_def split: option.split)

lemma respond_Inr:
  assumes "response_for vc p m db = Inr r"
  shows "r_id r = m_id m" "r_chat_id r = m_chat_id m" "r_reply_root_id r = m_reply_root_id m"
    "r_created_at r = m_created_at m" "u_uid (r_sender r) = m_sender_uid m"
    "r_message_type r = m_message_type m" "r_system_kind r = m_system_kind m"
  using assms by (auto simp: response_for_def attach_metadata_one)

text \<open>A page depends on the messages, attachments and reactions only.\<close>

lemma attach_metadata_cong:
  assumes "messages db' = messages db" and "attachments db' = attachments db"
    and "message_reactions db' = message_reactions db"
  shows "attach_metadata vc db' uid ms = attach_metadata vc db uid ms"
proof -
  have load: "load_messages db' = load_messages db" using assms by (simp add: load_messages_def fun_eq_iff)
  have attribution: "load_attribution db' = load_attribution db"
    by (simp add: load_attribution_def load fun_eq_iff)
  have origins: "load_origins db' = load_origins db"
    by (simp add: load_origins_def load attribution fun_eq_iff)
  have replies: "page_replies db' = page_replies db"
    using assms by (simp add: page_replies_def load_reply_messages_def fun_eq_iff)
  have page_origins: "page_origins db' = page_origins db"
    by (simp add: page_origins_def origins replies fun_eq_iff)
  have reactions: "load_reaction_details db' = load_reaction_details db"
    using assms by (simp add: load_reaction_details_def fun_eq_iff)
  have files: "attachments_of db' = attachments_of db" using assms by (simp add: attachments_of_def fun_eq_iff)
  have "load_page vc db' uid ms = load_page vc db uid ms"
    unfolding load_page_def page_uids_def page_mentions_def page_sticker_ids_def page_attachment_ids_def
      page_reactions_def page_origins replies reactions files assms by simp
  then show ?thesis by (simp add: attach_metadata_def)
qed

lemma respond_cong:
  assumes "messages db' = messages db" and "attachments db' = attachments db"
    and "message_reactions db' = message_reactions db"
  shows "response_for vc p m db' = response_for vc p m db"
  by (simp add: response_for_def attach_metadata_cong [OF assms])

section \<open>What storing a message changes\<close>

lemma insert_mentions_simps [simp]:
  "core (insert_mentions rows db) = core db" "messages (insert_mentions rows db) = messages db"
  "attachments (insert_mentions rows db) = attachments db"
  "message_reactions (insert_mentions rows db) = message_reactions db"
  "thread_metas (insert_mentions rows db) = thread_metas db"
  "thread_user_states (insert_mentions rows db) = thread_user_states db"
  by (simp_all add: insert_mentions_def)

lemma point_at_last_simps [simp]:
  "messages (point_at_last m db) = messages db" "attachments (point_at_last m db) = attachments db"
  "message_reactions (point_at_last m db) = message_reactions db"
  "thread_metas (point_at_last m db) = thread_metas db"
  "thread_user_states (point_at_last m db) = thread_user_states db"
  "memberships (core (point_at_last m db)) = memberships (core db)"
  "message_mentions (point_at_last m db) = message_mentions db"
  by (simp_all add: point_at_last_def)

lemma associate_Inr:
  assumes "associate_attachments ids wanted i db = Inr db'"
  shows "core db' = core db" "messages db' = messages db" "message_reactions db' = message_reactions db"
    "thread_metas db' = thread_metas db" "thread_user_states db' = thread_user_states db"
    "message_mentions db' = message_mentions db"
  using assms by (auto simp: associate_attachments_def Let_def split: if_splits)

text \<open>The steps of \<open>store_message\<close>.\<close>

lemma store_message_Inr:
  assumes "store_message vc p m db = Inr (outcome, db')"
  obtains filed r fx where
    "associate_attachments (p_attachment_ids p) (\<lambda>a. at_uploader_uid a = Some (p_sender_uid p)) (m_id m)
       (if p_publish_immediately p \<and> p_reply_root_id p = None
        then point_at_last m (db\<lparr>messages := messages db @ [m]\<rparr>) else db\<lparr>messages := messages db @ [m]\<rparr>) = Inr filed"
    and "valid_selection (p_attachment_ids p)
       (\<lambda>a. at_message_id a = None \<and> at_uploader_uid a = Some (p_sender_uid p))
       (locked_attachments db (p_attachment_ids p))"
    and "response_for vc p m filed = Inr r"
    and "(fx, db') = (if p_publish_immediately p
       then build_message_side_effects vc r (p_sender_uid p) (p_chat_id p) (p_message_type p \<noteq> System)
         (p_forwarded_from_message_id p = None) filed
       else (no_side_effects r, filed))"
    and "outcome = Created \<lparr>sr_inserted_message = m, sr_response = r,
       sr_member_uids = fx_broadcast_uids fx, sr_side_effects = fx\<rparr>"
proof -
  have locked: "locked_attachments (db\<lparr>messages := messages db @ [m]\<rparr>) = locked_attachments db"
    by (simp add: locked_attachments_def fun_eq_iff)
  let ?effects = "\<lambda>r filed. if p_publish_immediately p
       then build_message_side_effects vc r (p_sender_uid p) (p_chat_id p) (p_message_type p \<noteq> System)
         (p_forwarded_from_message_id p = None) filed
       else (no_side_effects r, filed)"
  have "\<exists>filed r. associate_attachments (p_attachment_ids p) (\<lambda>a. at_uploader_uid a = Some (p_sender_uid p)) (m_id m)
       (if p_publish_immediately p \<and> p_reply_root_id p = None
        then point_at_last m (db\<lparr>messages := messages db @ [m]\<rparr>) else db\<lparr>messages := messages db @ [m]\<rparr>) = Inr filed \<and>
      valid_selection (p_attachment_ids p)
       (\<lambda>a. at_message_id a = None \<and> at_uploader_uid a = Some (p_sender_uid p))
       (locked_attachments db (p_attachment_ids p)) \<and>
      response_for vc p m filed = Inr r \<and>
      (case ?effects r filed of (fx, db) \<Rightarrow> Inr (Created \<lparr>sr_inserted_message = m, sr_response = r,
         sr_member_uids = fx_broadcast_uids fx, sr_side_effects = fx\<rparr>, db)) = (Inr (outcome, db') :: app_error + _)"
    using assms unfolding store_message_def Let_def locked
    by (simp only: and_then_eq_Inr guard_or_eq_Inr) blast
  then obtain filed r where s:
      "associate_attachments (p_attachment_ids p) (\<lambda>a. at_uploader_uid a = Some (p_sender_uid p)) (m_id m)
       (if p_publish_immediately p \<and> p_reply_root_id p = None
        then point_at_last m (db\<lparr>messages := messages db @ [m]\<rparr>) else db\<lparr>messages := messages db @ [m]\<rparr>) = Inr filed"
      "valid_selection (p_attachment_ids p)
       (\<lambda>a. at_message_id a = None \<and> at_uploader_uid a = Some (p_sender_uid p))
       (locked_attachments db (p_attachment_ids p))"
      "response_for vc p m filed = Inr r"
      "(case ?effects r filed of (fx, db) \<Rightarrow> Inr (Created \<lparr>sr_inserted_message = m, sr_response = r,
         sr_member_uids = fx_broadcast_uids fx, sr_side_effects = fx\<rparr>, db)) = (Inr (outcome, db') :: app_error + _)"
    by blast
  obtain fx d where fx: "?effects r filed = (fx, d)" by (rule prod.exhaust)
  show thesis using s(4) unfolding fx by (intro that [OF s(1-3), of fx]) (simp_all add: fx)
qed

lemma side_effects_rows:
  assumes "(fx, db') = (if b then build_message_side_effects vc r sender c push notify db else (no_side_effects r, db))"
  shows "core db' = core db" "messages db' = messages db" "attachments db' = attachments db"
    "message_reactions db' = message_reactions db" "thread_metas db' = thread_metas db"
    "thread_user_states db' = thread_user_states db"
  using assms by (auto simp: build_message_side_effects_def Let_def split: if_splits)

lemma store_message_rows:
  assumes "store_message vc p m db = Inr (outcome, db')"
  shows "messages db' = messages db @ [m]" and "thread_metas db' = thread_metas db"
    and "thread_user_states db' = thread_user_states db"
    and "memberships (core db') = memberships (core db)"
    and "core db' = (if p_publish_immediately p \<and> p_reply_root_id p = None then core (point_at_last m db) else core db)"
    and "\<exists>res. outcome = Created res \<and> sr_inserted_message res = m \<and> response_for vc p m db' = Inr (sr_response res)"
proof -
  obtain filed r fx where s:
      "associate_attachments (p_attachment_ids p) (\<lambda>a. at_uploader_uid a = Some (p_sender_uid p)) (m_id m)
         (if p_publish_immediately p \<and> p_reply_root_id p = None
          then point_at_last m (db\<lparr>messages := messages db @ [m]\<rparr>) else db\<lparr>messages := messages db @ [m]\<rparr>) = Inr filed"
      "response_for vc p m filed = Inr r"
      "(fx, db') = (if p_publish_immediately p
         then build_message_side_effects vc r (p_sender_uid p) (p_chat_id p) (p_message_type p \<noteq> System)
           (p_forwarded_from_message_id p = None) filed
         else (no_side_effects r, filed))"
      "outcome = Created \<lparr>sr_inserted_message = m, sr_response = r,
         sr_member_uids = fx_broadcast_uids fx, sr_side_effects = fx\<rparr>"
    using assms by (rule store_message_Inr) blast
  note filed = associate_Inr [OF s(1)] and rows = side_effects_rows [OF s(3)]
  show "messages db' = messages db @ [m]" "thread_metas db' = thread_metas db"
    "thread_user_states db' = thread_user_states db" "memberships (core db') = memberships (core db)"
    using filed rows by (auto split: if_splits)
  show "core db' = (if p_publish_immediately p \<and> p_reply_root_id p = None then core (point_at_last m db) else core db)"
    using filed rows by (simp add: point_at_last_def)
  have "response_for vc p m db' = response_for vc p m filed" using rows by (intro respond_cong) simp_all
  with s(2,4) show "\<exists>res. outcome = Created res \<and> sr_inserted_message res = m \<and> response_for vc p m db' = Inr (sr_response res)"
    by simp
qed

lemma send_prepared_cases:
  assumes "send_prepared_message vc new_id now p db = Inr (outcome, db')"
  shows "(\<exists>r. outcome = Duplicate r \<and> db' = db) \<or>
    (\<exists>i. new_id = Some i \<and> first_row (\<lambda>m. m_client_generated_id m = p_client_generated_id p) (messages db) = None \<and>
       store_message vc p (new_message p i now) db = Inr (outcome, db'))"
  using assms
  by (auto simp: send_prepared_message_def and_then_eq_Inr ok_or_eq_Inr split: option.splits)

section \<open>Books under a new message\<close>

text \<open>Ids grow (snowflakes), and the rows of \<open>thread_meta\<close> belong to messages.\<close>

definition fresh_id :: "chat_db \<Rightarrow> snowflake \<Rightarrow> bool" where
  "fresh_id db i \<longleftrightarrow> (\<forall>m \<in> set (messages db). m_id m < i) \<and>
     (\<forall>tm \<in> set (thread_metas db). tm_thread_root_id tm < i)"

lemma fresh_replies:
  assumes "fresh_id db (m_id m)" and "replies_ok (messages db)" and "x \<in> set (messages db)"
  shows "m_id x \<noteq> m_id m" and "m_reply_root_id x \<noteq> Some (m_id m)"
proof -
  have older: "m_id y < m_id m" if "y \<in> set (messages db)" for y
    using assms(1) that by (simp add: fresh_id_def)
  then show "m_id x \<noteq> m_id m" using assms(3) by force
  show "m_reply_root_id x \<noteq> Some (m_id m)"
  proof
    assume "m_reply_root_id x = Some (m_id m)"
    then obtain r where "r \<in> set (messages db)" "m_id r = m_id m"
      using assms(2,3) unfolding replies_ok_def by blast
    with older show False by force
  qed
qed

lemma live_count_append:
  assumes "messages db' = messages db @ [m]"
  shows "live_count db' t = live_count db t + of_bool (live_reply t m)"
  using assms by (simp add: live_count_def count_rows_def)

lemma replies_ok_append:
  assumes "replies_ok ms" and "\<And>t. m_reply_root_id m = Some t \<Longrightarrow>
      \<exists>r \<in> set ms. m_id r = t \<and> m_chat_id r = m_chat_id m \<and> m_reply_root_id r = None"
  shows "replies_ok (ms @ [m])"
  using assms unfolding replies_ok_def by (auto; meson)

lemma distinct_keys_append:
  "distinct_keys key (rows @ [r]) \<longleftrightarrow> distinct_keys key rows \<and> (\<forall>x \<in> set rows. key x \<noteq> key r)"
  by (auto simp: distinct_keys_def) (metis image_eqI)

lemma threads_ok_new:
  assumes ok: "threads_ok db" and rows: "messages db' = messages db @ [m]" "thread_metas db' = thread_metas db"
    and fresh: "fresh_id db (m_id m)" and flag: "\<not> m_has_thread m"
    and quiet: "m_reply_root_id m \<noteq> None \<Longrightarrow> \<not> m_is_published m"
    and root: "\<And>t. m_reply_root_id m = Some t \<Longrightarrow> root_in db (m_chat_id m) t"
  shows "threads_ok db'"
proof -
  have replies: "replies_ok (messages db)" using ok by (simp add: threads_ok_def)
  have silent: "\<not> live_reply t m" for t using quiet by (auto simp: live_reply_def)
  then have count: "live_count db' t = live_count db t" for t by (simp add: live_count_append [OF rows(1)])
  have meta: "meta_ok db' c t = meta_ok db c t" for c t
    unfolding meta_ok_def meta_of_def count rows using silent by (simp split: option.split)
  have "live_count db (m_id m) = 0"
    using fresh_replies(2) [OF fresh replies] by (auto simp: live_count_def row_simps live_reply_def)
  moreover have "meta_of db c (m_id m) = None" for c
    using fresh by (auto simp: fresh_id_def meta_of_def first_row_None is_thread_meta_of_def)
  ultimately have own: "thread_ok db' m" using flag by (simp add: thread_ok_def meta count) (simp add: meta_ok_def)
  have "distinct_keys m_id (messages db')"
    using ok fresh_replies(1) [OF fresh replies] by (simp add: rows distinct_keys_append threads_ok_def)
  moreover have "replies_ok (messages db')"
    unfolding rows using root by (intro replies_ok_append replies) (auto simp: root_in_def)
  moreover have "thread_ok db' r" if "r \<in> set (messages db')" "m_reply_root_id r = None" for r
    using that ok own by (auto simp: rows threads_ok_def thread_ok_def count meta)
  ultimately show ?thesis by (simp add: threads_ok_def)
qed

lemma meta_of_increment:
  "meta_of (increment_thread_meta c t sent db) c' t' =
   (if (c', t') = (c, t)
    then Some (case meta_of db c t of
        None \<Rightarrow> \<lparr>tm_chat_id = c, tm_thread_root_id = t, tm_reply_count = 1, tm_last_reply_at = Some sent\<rparr>
      | Some tm \<Rightarrow> tm\<lparr>tm_reply_count := tm_reply_count tm + 1, tm_last_reply_at := Some sent\<rparr>)
    else meta_of db c' t')"
proof -
  have "first_row (is_thread_meta_of (c', t')) (upsert_row (is_thread_meta_of (c, t))
        \<lparr>tm_chat_id = c, tm_thread_root_id = t, tm_reply_count = 1, tm_last_reply_at = l\<rparr>
        (\<lambda>r. r\<lparr>tm_reply_count := tm_reply_count r + 1, tm_last_reply_at := l\<rparr>) rows) =
      (if (c', t') = (c, t) then Some (case first_row (is_thread_meta_of (c, t)) rows of
           None \<Rightarrow> \<lparr>tm_chat_id = c, tm_thread_root_id = t, tm_reply_count = 1, tm_last_reply_at = l\<rparr>
         | Some tm \<Rightarrow> tm\<lparr>tm_reply_count := tm_reply_count tm + 1, tm_last_reply_at := l\<rparr>)
       else first_row (is_thread_meta_of (c', t')) rows)" for l rows
    by (rule thread_meta_table.find_upsert_rewrite) (simp_all add: thread_meta_key_def)
  then show ?thesis by (simp add: meta_of_def increment_thread_meta_def)
qed

lemma threads_ok_reply:
  assumes ok: "threads_ok db"
    and rows: "messages db' = map (\<lambda>x. if m_id x = t then x\<lparr>m_has_thread := True\<rparr> else x) (messages db @ [m])"
      "thread_metas db' = thread_metas (increment_thread_meta (m_chat_id m) t (m_created_at m) db)"
    and fresh: "fresh_id db (m_id m)" and root: "root_in db (m_chat_id m) t"
    and reply: "live_reply t m"
  shows "threads_ok db'"
proof -
  let ?f = "\<lambda>x. if m_id x = t then x\<lparr>m_has_thread := True\<rparr> else x"
  have replies: "replies_ok (messages db)" using ok by (simp add: threads_ok_def)
  have keep: "m_id (?f x) = m_id x" "m_chat_id (?f x) = m_chat_id x" "m_reply_root_id (?f x) = m_reply_root_id x"
    "m_created_at (?f x) = m_created_at x" "live_reply t' (?f x) = live_reply t' x" for x t'
    by (simp_all add: live_reply_def)
  have only: "live_reply t' m \<longleftrightarrow> t' = t" for t' using reply by (auto simp: live_reply_def)
  have own: "m_reply_root_id m = Some t" using reply by (simp add: live_reply_def)
  have other: "m_id m \<noteq> t" using root fresh by (auto simp: root_in_def fresh_id_def)
  have "live_count db' t' = count_rows (live_reply t') (messages db @ [m])" for t'
    unfolding live_count_def rows count_rows_def filter_map comp_def keep by simp
  then have count: "live_count db' t' = live_count db t' + of_bool (t' = t)" for t'
    by (simp add: live_count_def count_rows_def only)
  have some: "(\<exists>x \<in> set (messages db'). live_reply t' x \<and> l = Some (m_created_at x)) \<longleftrightarrow>
      (\<exists>x \<in> set (messages db). live_reply t' x \<and> l = Some (m_created_at x)) \<or> t' = t \<and> l = Some (m_created_at m)"
    for t' l
    unfolding rows set_map bex_simps keep by (auto simp: only)
  have metas: "meta_of db' c t' = meta_of (increment_thread_meta (m_chat_id m) t (m_created_at m) db) c t'" for c t'
    by (simp add: meta_of_def rows)
  have meta: "meta_ok db' (m_chat_id r) (m_id r)"
    if r: "meta_ok db (m_chat_id r) (m_id r)" "m_id r = t \<longrightarrow> m_chat_id r = m_chat_id m" for r
  proof (cases "m_id r = t")
    case True
    with r show ?thesis
      unfolding meta_ok_def some count metas meta_of_increment by (simp split: option.splits)
  next
    case False
    with r show ?thesis
      unfolding meta_ok_def some count metas meta_of_increment by (simp split: option.splits)
  qed
  obtain r0 where r0: "r0 \<in> set (messages db)" "m_id r0 = t" "m_chat_id r0 = m_chat_id m"
    using root by (auto simp: root_in_def)
  have keys: "distinct_keys m_id (messages db)" using ok by (simp add: threads_ok_def)
  have "thread_ok db' x" if x: "x \<in> set (messages db')" "m_reply_root_id x = None" for x
  proof -
    have "x \<in> ?f ` set (messages db @ [m])" using x(1) by (simp only: rows set_map)
    then obtain y where y: "x = ?f y" "y \<in> set (messages db @ [m])" by (rule imageE)
    have "m_reply_root_id y = None" using x(2) by (simp only: y(1) keep)
    then have y': "y \<in> set (messages db)" using y(2) own by auto
    then have old: "thread_ok db y" using ok \<open>m_reply_root_id y = None\<close> by (simp add: threads_ok_def)
    have "m_id y = t \<longrightarrow> m_chat_id y = m_chat_id m" using y' r0 keys distinct_keys_eq by metis
    then have "meta_ok db' (m_chat_id y) (m_id y)" using old by (intro meta) (simp_all add: thread_ok_def)
    moreover have "m_has_thread (?f y) \<longleftrightarrow> 0 < live_count db' (m_id y)"
      using old by (simp add: thread_ok_def count)
    ultimately show ?thesis unfolding thread_ok_def y(1) keep by simp
  qed
  moreover have "distinct_keys m_id (messages db')"
    unfolding rows using keys fresh_replies(1) [OF fresh replies]
    by (simp only: distinct_keys_map keep distinct_keys_append) simp
  moreover have "replies_ok (messages db')"
    unfolding rows using root own
    by (intro replies_ok_map replies_ok_append replies) (auto simp: root_in_def)
  ultimately show ?thesis by (simp add: threads_ok_def)
qed

section \<open>Positions under a new message\<close>

text \<open>A place a read position may name.\<close>

definition names_chat :: "chat_db \<Rightarrow> snowflake \<Rightarrow> snowflake option \<Rightarrow> bool" where
  "names_chat db c pos \<longleftrightarrow>
     (case pos of None \<Rightarrow> True | Some i \<Rightarrow> \<exists>m \<in> set (messages db). m_id m = i \<and> timeline_row c m)"

definition names_thread :: "chat_db \<Rightarrow> snowflake \<Rightarrow> snowflake option \<Rightarrow> bool" where
  "names_thread db t pos \<longleftrightarrow>
     (case pos of None \<Rightarrow> True
      | Some i \<Rightarrow> i = t \<or> (\<exists>m \<in> set (messages db). m_id m = i \<and> live_reply t m))"

lemma positions_ok_iff:
  "positions_ok db \<longleftrightarrow>
   (\<forall>gm \<in> set (memberships (core db)). names_chat db (gm_chat_id gm) (gm_last_read_message_id gm)) \<and>
   (\<forall>ts \<in> set (thread_user_states db). names_thread db (ts_thread_root_id ts) (ts_last_read_message_id ts))"
  by (simp add: positions_ok_def chat_position_ok_def thread_position_ok_def names_chat_def names_thread_def)

text \<open>Rows only get more visible when a message is added and a thread is flagged.\<close>

lemma names_mono:
  assumes rows: "messages db' = messages db @ [m] \<or>
      messages db' = map (\<lambda>x. if m_id x = t then x\<lparr>m_has_thread := True\<rparr> else x) (messages db @ [m])"
  shows "names_chat db c pos \<Longrightarrow> names_chat db' c pos"
    and "names_thread db t' pos \<Longrightarrow> names_thread db' t' pos"
proof -
  have still: "\<exists>x' \<in> set (messages db'). m_id x' = m_id x \<and> (timeline_row c x \<longrightarrow> timeline_row c x') \<and>
      (live_reply t' x \<longrightarrow> live_reply t' x')" if "x \<in> set (messages db)" for x
    using rows
  proof
    assume "messages db' = messages db @ [m]"
    with that show ?thesis by auto
  next
    let ?f = "\<lambda>x. if m_id x = t then x\<lparr>m_has_thread := True\<rparr> else x"
    assume r: "messages db' = map ?f (messages db @ [m])"
    then have "?f x \<in> set (messages db')" using that by simp
    moreover have "m_id (?f x) = m_id x \<and> (timeline_row c x \<longrightarrow> timeline_row c (?f x)) \<and>
        (live_reply t' x \<longrightarrow> live_reply t' (?f x))" by (auto simp: timeline_row_def live_reply_def)
    ultimately show ?thesis by blast
  qed
  show "names_chat db c pos \<Longrightarrow> names_chat db' c pos"
    using still by (auto simp: names_chat_def split: option.splits)
  show "names_thread db t' pos \<Longrightarrow> names_thread db' t' pos"
    using still by (auto simp: names_thread_def split: option.splits)
qed

lemma names_cong:
  assumes "messages db' = messages db"
  shows "names_chat db' = names_chat db" and "names_thread db' = names_thread db"
  by (intro ext, simp only: names_chat_def names_thread_def assms)+

text \<open>Marking a chat as read up to its newest row.\<close>

lemma skip_tail_newest:
  assumes "\<forall>m \<in> set (messages db). m_id m \<le> i"
  shows "skip_hidden_membership_tail db c i = i"
proof -
  have "newest_id (\<lambda>m. timeline_row c m \<and> m_id m > i \<and> Q m) (messages db) = None" for Q
    using assms by (auto simp: newest_id_None)
  then show ?thesis by (simp add: skip_hidden_membership_tail_def Let_def)
qed

lemma mark_chat_newest:
  assumes "mark_chat_as_read c uid i db = Inr (moved, db')" and "\<forall>m \<in> set (messages db). m_id m \<le> i"
  shows "messages db' = messages db" "thread_metas db' = thread_metas db"
    "thread_user_states db' = thread_user_states db" "groups (core db') = groups (core db)"
    and "gm \<in> set (memberships (core db')) \<Longrightarrow> (\<exists>gm' \<in> set (memberships (core db)).
       gm_chat_id gm' = gm_chat_id gm \<and>
       (gm_last_read_message_id gm = gm_last_read_message_id gm' \<or>
        gm_last_read_message_id gm = Some i \<and> gm_chat_id gm = c))"
proof -
  let ?moves = "\<lambda>m. is_membership_of (c, uid) m \<and> behind (gm_last_read_message_id m) i"
  have db': "db' = db\<lparr>core := (core db)\<lparr>memberships := update_rows ?moves
      (\<lambda>m. m\<lparr>gm_last_read_message_id := Some i\<rparr>) (memberships (core db))\<rparr>\<rparr>"
    using assms(1) skip_tail_newest [OF assms(2), of c]
    by (auto simp: mark_chat_as_read_def and_then_eq_Inr Let_def split: if_splits)
  then show "messages db' = messages db" "thread_metas db' = thread_metas db"
    "thread_user_states db' = thread_user_states db" "groups (core db') = groups (core db)" by simp_all
  assume "gm \<in> set (memberships (core db'))"
  then have "gm \<in> (\<lambda>m. if ?moves m then m\<lparr>gm_last_read_message_id := Some i\<rparr> else m) ` set (memberships (core db))"
    unfolding db' by (simp add: set_update_rows)
  then obtain m where "gm = (if ?moves m then m\<lparr>gm_last_read_message_id := Some i\<rparr> else m)"
      "m \<in> set (memberships (core db))" by (rule imageE)
  then show "\<exists>gm' \<in> set (memberships (core db)). gm_chat_id gm' = gm_chat_id gm \<and>
       (gm_last_read_message_id gm = gm_last_read_message_id gm' \<or>
        gm_last_read_message_id gm = Some i \<and> gm_chat_id gm = c)"
    by (intro bexI [of _ m]) (auto simp: is_membership_of_def)
qed

lemma advance_chat_simps [simp]:
  "messages (snd (advance_chat_read_receipt c uid i db)) = messages db"
  "thread_metas (snd (advance_chat_read_receipt c uid i db)) = thread_metas db"
  "thread_user_states (snd (advance_chat_read_receipt c uid i db)) = thread_user_states db"
  "groups (core (snd (advance_chat_read_receipt c uid i db))) = groups (core db)"
  by (simp_all add: advance_chat_read_receipt_def Let_def)

lemma advance_chat_rows:
  "gm \<in> set (memberships (core (snd (advance_chat_read_receipt c uid i db)))) \<Longrightarrow>
   \<exists>gm' \<in> set (memberships (core db)). gm_chat_id gm' = gm_chat_id gm \<and>
     gm_last_read_message_id gm' = gm_last_read_message_id gm"
  by (auto simp: advance_chat_read_receipt_def Let_def row_simps split: if_splits)

section \<open>What a thread send records\<close>

text \<open>Only the positions matter here: \<open>K\<close> is kept by new rows and by the position of the send.\<close>

definition all_states :: "(snowflake \<Rightarrow> snowflake option \<Rightarrow> bool) \<Rightarrow> chat_db \<Rightarrow> bool" where
  "all_states K db \<longleftrightarrow>
     (\<forall>ts \<in> set (thread_user_states db). K (ts_thread_root_id ts) (ts_last_read_message_id ts))"

definition same_but_states :: "chat_db \<Rightarrow> chat_db \<Rightarrow> bool" where
  "same_but_states db db' \<longleftrightarrow> core db' = core db \<and> messages db' = messages db \<and> thread_metas db' = thread_metas db"

lemma same_but_states_trans [trans]:
  "same_but_states a b \<Longrightarrow> same_but_states b c \<Longrightarrow> same_but_states a c"
  by (simp add: same_but_states_def)

lemma state_steps:
  assumes "\<And>t. K t None" and "all_states K db"
  shows "all_states K (snd (ensure_thread_user_state c t u b now db_now db))"
    and "all_states K (snd (ensure_thread_subscription c t u now db_now db))"
    and "all_states K (snd (advance_thread_read_receipt c t u i db))"
    and "K t (Some i) \<Longrightarrow> all_states K (snd (mark_thread_as_read c t u i db))"
  using assms
  by (auto simp: all_states_def ensure_thread_user_state_def ensure_thread_subscription_def
      advance_thread_read_receipt_def mark_thread_as_read_def Let_def row_simps insert_or_ignore_def
      new_thread_state_def is_thread_state_of_def split: option.splits if_splits prod.splits)

lemma state_steps_same:
  "same_but_states db (snd (ensure_thread_user_state c t u b now db_now db))"
  "same_but_states db (snd (ensure_thread_subscription c t u now db_now db))"
  "same_but_states db (snd (advance_thread_read_receipt c t u i db))"
  "same_but_states db (snd (mark_thread_as_read c t u i db))"
  by (auto simp: same_but_states_def ensure_thread_user_state_def ensure_thread_subscription_def
      advance_thread_read_receipt_def mark_thread_as_read_def Let_def split: option.splits prod.splits)

lemma subscribe_mentioned_step:
  assumes "\<And>t. K t None" and "all_states K (snd s)"
  shows "all_states K (snd (subscribe_mentioned wanted c t now db_now us s)) \<and>
    same_but_states (snd s) (snd (subscribe_mentioned wanted c t now db_now us s))"
  using assms(2)
proof (induction wanted c t now db_now us s rule: subscribe_mentioned.induct)
  case (1 wanted c t now db_now s)
  then show ?case by (simp add: same_but_states_def)
next
  case (2 wanted c t now db_now u us changes db)
  obtain b d where e: "ensure_thread_subscription c t u now db_now db = (b, d)" by (rule prod.exhaust)
  have "all_states K d" and "same_but_states db d"
    
    using state_steps(2) [where K = K, OF assms(1), of db c t u now db_now]
      state_steps_same(2) [of db c t u now db_now] 2 e by simp_all
  then show ?case using 2 e by (auto intro: same_but_states_trans)
qed

lemma record_thread_send_effect:
  assumes "record_thread_send r members thread publish notify now db_now db = (state, db')"
    and none: "\<And>t. K t None" and states: "all_states K db" and sent: "K (m_id thread) (Some (r_id r))"
  shows "all_states K db'" and "core db' = core db"
    and "messages db' = (if publish then map (\<lambda>x. if m_id x = m_id thread then x\<lparr>m_has_thread := True\<rparr> else x) (messages db)
      else messages db)"
    and "thread_metas db' = (if publish then thread_metas (increment_thread_meta (r_chat_id r) (m_id thread) (r_created_at r) db)
      else thread_metas db)"
proof -
  let ?c = "r_chat_id r" and ?t = "m_id thread" and ?u = "u_uid (r_sender r)"
  note step = state_steps [where K = K, OF none] and same = state_steps_same
  obtain b1 d1 where e1: "ensure_thread_subscription ?c ?t ?u now db_now db = (b1, d1)" by (rule prod.exhaust)
  obtain b2 d2 where e2: "mark_thread_as_read ?c ?t ?u (r_id r) d1 = (b2, d2)" by (rule prod.exhaust)
  obtain b3 d3 where e3: "advance_thread_read_receipt ?c ?t ?u (r_id r) d2 = (b3, d3)" by (rule prod.exhaust)
  obtain b4 d4 where e4: "ensure_thread_user_state ?c ?t (m_sender_uid thread) True now db_now d3 = (b4, d4)"
    by (rule prod.exhaust)
  let ?mid = "if m_sender_uid thread \<noteq> ?u \<and> m_sender_uid thread \<in> set members
    then (if b4 then (if b1 then [?u] else []) @ [m_sender_uid thread] else if b1 then [?u] else [], d4)
    else (if b1 then [?u] else [], d3)"
  let ?sub = "\<lambda>body. subscribe_mentioned (\<lambda>u. u \<noteq> ?u \<and> u \<in> set members) ?c ?t now db_now (extract_mention_uids body) ?mid"
  let ?d5 = "snd (case (notify, r_message r) of (True, Some body) \<Rightarrow> ?sub body | _ \<Rightarrow> ?mid)"
  have d3: "all_states K d3 \<and> same_but_states db d3"
    using step(2) [OF states, of ?c ?t ?u now db_now] step(4) [OF _ sent, of d1 ?c ?u] step(3) [of d2 ?c ?t ?u "r_id r"]
      same(2) [of db ?c ?t ?u now db_now] same(4) [of d1 ?c ?t ?u "r_id r"] same(3) [of d2 ?c ?t ?u "r_id r"] e1 e2 e3
    by (auto intro: same_but_states_trans)
  moreover have "all_states K d4 \<and> same_but_states d3 d4"
    using step(1) [of d3 ?c ?t "m_sender_uid thread" True now db_now]
      same(1) [of d3 ?c ?t "m_sender_uid thread" True now db_now] e4 d3 by simp
  ultimately have mid: "all_states K (snd ?mid) \<and> same_but_states db (snd ?mid)"
    by (auto intro: same_but_states_trans)
  have "all_states K (snd (?sub body)) \<and> same_but_states db (snd (?sub body))" for body
    using subscribe_mentioned_step [where K = K and s = ?mid, OF none] mid by (blast intro: same_but_states_trans)
  with mid have d5: "all_states K ?d5 \<and> same_but_states db ?d5" by (auto split: option.split bool.split)
  have db': "db' = (if publish then set_has_thread ?t True (increment_thread_meta ?c ?t (r_created_at r) ?d5) else ?d5)"
  proof -
    obtain ch d where m: "?mid = (ch, d)" by (rule prod.exhaust)
    have "db' = snd (case (case (notify, r_message r) of
            (True, Some body) \<Rightarrow> subscribe_mentioned (\<lambda>u. u \<noteq> ?u \<and> u \<in> set members) ?c ?t now db_now
              (extract_mention_uids body) (ch, d)
          | _ \<Rightarrow> (ch, d)) of (changes, d) \<Rightarrow>
         (\<lparr>tss_receipt_advanced = b3, tss_subscription_changes = changes\<rparr>,
          if publish then set_has_thread ?t True (increment_thread_meta ?c ?t (r_created_at r) d) else d))"
      using arg_cong [where f = snd, OF assms(1)]
      unfolding record_thread_send_def Let_def e1 e2 e3 e4 prod.case m snd_conv by (rule sym)
    then show ?thesis unfolding m by (simp only: split_beta snd_conv)
  qed
  have states': "thread_user_states (set_has_thread t b d) = thread_user_states d"
    "thread_user_states (increment_thread_meta c t l d) = thread_user_states d"
    "core (increment_thread_meta c t l d) = core d" "messages (increment_thread_meta c t l d) = messages d" for t b c l d
    by (simp_all add: increment_thread_meta_def)
  show "all_states K db'" using d5 by (simp add: db' all_states_def states')
  show "core db' = core db" using d5 by (simp add: db' same_but_states_def states')
  show "messages db' = (if publish then map (\<lambda>x. if m_id x = m_id thread then x\<lparr>m_has_thread := True\<rparr> else x) (messages db)
      else messages db)"
    using d5 by (simp add: db' same_but_states_def states' messages_set_has_thread)
  show "thread_metas db' = (if publish then thread_metas (increment_thread_meta (r_chat_id r) (m_id thread) (r_created_at r) db)
      else thread_metas db)"
    using d5 by (simp add: db' same_but_states_def increment_thread_meta_def)
qed

section \<open>The last message\<close>

lemma newest_append:
  assumes "\<forall>x \<in> set ms. m_id x < m_id m"
  shows "newest_id P (ms @ [m]) = (if P m then Some (m_id m) else newest_id P ms)"
proof (cases "P m")
  case True
  with assms show ?thesis by (auto simp: newest_id_iff order.strict_implies_order)
next
  case False
  then have "filter P (ms @ [m]) = filter P ms" by simp
  with False show ?thesis by (simp add: newest_id_def)
qed

lemma newest_map:
  assumes "\<And>x. P (f x) = P x" and "\<And>x. m_id (f x) = m_id x"
  shows "newest_id P (map f ms) = newest_id P ms"
proof (cases "newest_id P ms")
  case None
  then have "newest_id P (map f ms) = None" unfolding newest_id_None by (simp add: assms)
  with None show ?thesis by simp
next
  case (Some i)
  then have "newest_id P (map f ms) = Some i" unfolding newest_id_iff by (simp add: assms)
  with Some show ?thesis by simp
qed

lemma newest_flag:
  "newest_id (last_candidate c) (map (\<lambda>x. if m_id x = t then x\<lparr>m_has_thread := True\<rparr> else x) ms) =
   newest_id (last_candidate c) ms"
  by (rule newest_map) (simp_all add: last_candidate_def)

lemma last_ok_new:
  assumes ok: "\<forall>g \<in> set (groups (core db)). last_ok db g" and fresh: "fresh_id db (m_id m)"
    and rows: "messages db' = messages db @ [m] \<or>
      messages db' = map (\<lambda>x. if m_id x = t then x\<lparr>m_has_thread := True\<rparr> else x) (messages db @ [m])"
    and groups: "groups (core db') = (if m_is_published m \<and> m_reply_root_id m = None
       then groups (core (point_at_last m db)) else groups (core db))"
    and live: "m_deleted_at m = None" and g: "g \<in> set (groups (core db'))"
  shows "last_ok db' g"
proof -
  have "newest_id (last_candidate c) (messages db') = newest_id (last_candidate c) (messages db @ [m])" for c
    using rows by (auto simp only: newest_flag)
  moreover have "\<forall>x \<in> set (messages db). m_id x < m_id m" using fresh by (simp add: fresh_id_def)
  ultimately have new: "newest_id (last_candidate c) (messages db') =
      (if last_candidate c m then Some (m_id m) else newest_id (last_candidate c) (messages db))" for c
    by (simp add: newest_append)
  show ?thesis
  proof (cases "m_is_published m \<and> m_reply_root_id m = None")
    case True
    with g groups obtain g0 where "g0 \<in> set (groups (core db))"
        "g = (if g_id g0 = m_chat_id m then g0\<lparr>g_last_message_id := Some (m_id m), g_last_message_at := Some (m_created_at m)\<rparr> else g0)"
      by (auto simp: point_at_last_def set_update_rows)
    moreover have "last_candidate c m \<longleftrightarrow> c = m_chat_id m" for c
      using True live by (auto simp: last_candidate_def)
    moreover from calculation ok have "last_ok db g0" by blast
    ultimately show ?thesis unfolding last_ok_def new by simp
  next
    case False
    with g groups ok have "last_ok db g" by simp
    moreover have "\<not> last_candidate (g_id g) m" using False by (auto simp: last_candidate_def)
    ultimately show ?thesis unfolding last_ok_def new by simp
  qed
qed

lemma point_at_last_keys:
  "distinct_keys g_id (groups (core (point_at_last m db))) = distinct_keys g_id (groups (core db))"
  by (simp add: point_at_last_def update_rows_def distinct_keys_map)

text \<open>Positions after the message is in: every position names a place, and the sender's names the
  new row.\<close>

lemma new_message_simps [simp]:
  "m_id (new_message p i now) = i" "m_chat_id (new_message p i now) = p_chat_id p"
  "m_reply_root_id (new_message p i now) = p_reply_root_id p"
  "m_is_published (new_message p i now) = p_publish_immediately p"
  "m_deleted_at (new_message p i now) = None" "m_has_thread (new_message p i now) = False"
  "m_created_at (new_message p i now) = now" "m_sender_uid (new_message p i now) = p_sender_uid p"
  "m_client_generated_id (new_message p i now) = p_client_generated_id p"
  by (simp_all add: new_message_def)

lemma prepare_send_simps [simp]:
  "p_chat_id (prepare_send uid c k t ids body) = c" "p_reply_root_id (prepare_send uid c k t ids body) = t"
  "p_sender_uid (prepare_send uid c k t ids body) = uid"
  "p_publish_immediately (prepare_send uid c k t ids body) = (cb_message_type body \<noteq> Audio)"
  "p_client_generated_id (prepare_send uid c k t ids body) = cb_client_generated_id body"
  "p_attachment_ids (prepare_send uid c k t ids body) = ids"
  "p_message_type (prepare_send uid c k t ids body) = cb_message_type body"
  "p_forwarded_preview (prepare_send uid c k t ids body) = None"
  by (simp_all add: prepare_send_def)

lemma map_sum_eq_Inr: "map_sum f id r = Inr x \<longleftrightarrow> r = Inr x"
  by (cases r) simp_all

lemma post_message_Inr:
  assumes "post_message vc who c body new_id now db = Inr ((outcome, advanced), db')"
  obtains uid ids target where
    "who = Inr uid" "validate_client_message_type (cb_message_type body) = Inr ()"
    "parse_attachment_ids (cb_attachment_ids body) = Inr ids"
    "authorize_message_send db c None uid = Inr target"
    and "(\<exists>r. outcome = Duplicate r \<and> \<not> advanced \<and> db' = db \<and>
         send_prepared_message vc new_id now (prepare_send uid c (amt_kind target) None ids body) db = Inr (outcome, db)) \<or>
       (\<exists>i res d moved e. new_id = Some i \<and> outcome = Created res \<and>
          send_prepared_message vc new_id now (prepare_send uid c (amt_kind target) None ids body) db = Inr (outcome, d) \<and>
          store_message vc (prepare_send uid c (amt_kind target) None ids body)
            (new_message (prepare_send uid c (amt_kind target) None ids body) i now) db = Inr (outcome, d) \<and>
          mark_chat_as_read c uid i d = Inr (moved, e) \<and> db' = snd (advance_chat_read_receipt c uid i e))"
proof -
  let ?finish = "\<lambda>uid outcome d. case outcome of
      Duplicate r \<Rightarrow> Inr ((outcome, False), d)
    | Created res \<Rightarrow>
        and_then (db_result (mark_chat_as_read c uid (r_id (sr_response res)) d)) (\<lambda>(_, db).
          let (adv, db) = advance_chat_read_receipt c uid (r_id (sr_response res)) db
          in Inr ((outcome, adv), db))"
  obtain uid ids target x where x:
      "who = Inr uid" "validate_client_message_type (cb_message_type body) = Inr ()"
      "parse_attachment_ids (cb_attachment_ids body) = Inr ids"
      "authorize_message_send db c None uid = Inr target"
      "send_prepared_message vc new_id now (prepare_send uid c (amt_kind target) None ids body) db = Inr x"
      "(case x of (outcome, d) \<Rightarrow> ?finish uid outcome d) = Inr ((outcome, advanced), db')"
    using assms unfolding post_message_def by (auto simp only: and_then_eq_Inr map_sum_eq_Inr)
  obtain o' d where o': "x = (o', d)" by (rule prod.exhaust)
  have "o' = outcome"
    using x(6) unfolding o' prod.case
    by (cases o') (auto simp: and_then_eq_Inr Let_def split_beta)
  with x o' have s:
      "who = Inr uid" "validate_client_message_type (cb_message_type body) = Inr ()"
      "parse_attachment_ids (cb_attachment_ids body) = Inr ids"
      "authorize_message_send db c None uid = Inr target"
      "send_prepared_message vc new_id now (prepare_send uid c (amt_kind target) None ids body) db = Inr (outcome, d)"
      "?finish uid outcome d = Inr ((outcome, advanced), db')" by simp_all
  show thesis
  proof (cases outcome)
    case (Duplicate r)
    with s(6) have "\<not> advanced" "db' = d" by auto
    with send_prepared_cases [OF s(5)] Duplicate s(5) have "db' = db" "d = db"
      by (auto dest!: store_message_rows(6))
    with s Duplicate \<open>\<not> advanced\<close> show thesis by (intro that [OF s(1-4)]) simp
  next
    case (Created res)
    with send_prepared_cases [OF s(5)] obtain i where i: "new_id = Some i"
        "store_message vc (prepare_send uid c (amt_kind target) None ids body)
           (new_message (prepare_send uid c (amt_kind target) None ids body) i now) db = Inr (outcome, d)" by auto
    have "r_id (sr_response res) = i"
      using store_message_rows(6) [OF i(2)] Created respond_Inr(1) by fastforce
    with s(6) Created obtain moved e where "mark_chat_as_read c uid i d = Inr (moved, e)"
        "db' = snd (advance_chat_read_receipt c uid i e)"
      by (auto simp: and_then_eq_Inr db_result_eq_Inr Let_def split_beta)
    with i s(5) Created show thesis by (intro that [OF s(1-4)]) blast
  qed
qed

lemma post_thread_message_Inr:
  assumes "post_thread_message vc uid c t body new_id now db_now db = Inr ((outcome, state), db')"
  obtains ids target thread where
    "validate_client_message_type (cb_message_type body) = Inr ()"
    "parse_attachment_ids (cb_attachment_ids body) = Inr ids"
    "authorize_message_send db c (Some t) uid = Inr target" "amt_thread_root target = Some thread"
    and "(\<exists>r. outcome = Duplicate r \<and> db' = db) \<or>
       (\<exists>i res d. new_id = Some i \<and> outcome = Created res \<and>
          store_message vc (prepare_send uid c (amt_kind target) (Some t) ids body)
            (new_message (prepare_send uid c (amt_kind target) (Some t) ids body) i now) db = Inr (outcome, d) \<and>
          record_thread_send (sr_response res) (sr_member_uids res) thread (cb_message_type body \<noteq> Audio) True
            now db_now d = (state, db'))"
proof -
  let ?finish = "\<lambda>thread outcome d. case outcome of
      Duplicate r \<Rightarrow> Inr ((outcome, \<lparr>tss_receipt_advanced = False, tss_subscription_changes = []\<rparr>), d)
    | Created res \<Rightarrow>
        let (state, db) = record_thread_send (sr_response res) (sr_member_uids res) thread
              (cb_message_type body \<noteq> Audio) True now db_now d
        in Inr ((outcome, state), db)"
  obtain ids target thread x where x:
      "validate_client_message_type (cb_message_type body) = Inr ()"
      "parse_attachment_ids (cb_attachment_ids body) = Inr ids"
      "authorize_message_send db c (Some t) uid = Inr target"
      "amt_thread_root target = Some thread"
      "send_prepared_message vc new_id now (prepare_send uid c (amt_kind target) (Some t) ids body) db = Inr x"
      "(case x of (outcome, d) \<Rightarrow> ?finish thread outcome d) = (Inr ((outcome, state), db') :: app_error + _)"
    using assms unfolding post_thread_message_def
    by (auto simp only: and_then_eq_Inr map_sum_eq_Inr ok_or_eq_Inr)
  obtain o' d where o': "x = (o', d)" by (rule prod.exhaust)
  have "o' = outcome"
    using x(6) unfolding o' prod.case by (cases o') (auto simp: Let_def split_beta)
  with x(5,6) o' have s:
      "send_prepared_message vc new_id now (prepare_send uid c (amt_kind target) (Some t) ids body) db = Inr (outcome, d)"
      "?finish thread outcome d = (Inr ((outcome, state), db') :: app_error + _)" by simp_all
  show thesis
  proof (cases outcome)
    case (Duplicate r)
    with s(2) have "db' = d" by auto
    with send_prepared_cases [OF s(1)] Duplicate have "db' = db" by (auto dest!: store_message_rows(6))
    with Duplicate show thesis by (intro that [OF x(1-4)]) simp
  next
    case (Created res)
    with send_prepared_cases [OF s(1)] obtain i where i: "new_id = Some i"
        "store_message vc (prepare_send uid c (amt_kind target) (Some t) ids body)
           (new_message (prepare_send uid c (amt_kind target) (Some t) ids body) i now) db = Inr (outcome, d)" by auto
    have "record_thread_send (sr_response res) (sr_member_uids res) thread (cb_message_type body \<noteq> Audio) True
        now db_now d = (state, db')"
      using s(2) Created by (auto simp: Let_def split_beta intro: prod_eqI)
    with i Created show thesis by (intro that [OF x(1-4)]) blast
  qed
qed

lemma authorized_root:
  assumes "authorize_message_send db c (Some t) uid = Inr target" and "amt_thread_root target = Some thread"
  shows "root_in db c t" and "m_id thread = t"
proof -
  have "first_row (sendable_root c t) (messages db) = Some thread"
    using assms
    by (auto simp: authorize_message_send_def load_thread_root_def and_then_eq_Inr ok_or_eq_Inr Let_def
        split: prod.splits if_splits)
  then have "thread \<in> set (messages db)" "sendable_root c t thread" by (auto dest: first_row_Some)
  then show "root_in db c t" "m_id thread = t" by (auto simp: root_in_def sendable_root_def)
qed

section \<open>Sending keeps the chat consistent\<close>

lemma chat_post_consistent:
  assumes ok: "books_ok db" "positions_ok db" "fresh_id db i"
    and post: "post_message vc who c body (Some i) now db = Inr ((outcome, advanced), db')"
  shows "books_ok db' \<and> (cb_message_type body \<noteq> Audio \<longrightarrow> positions_ok db')"
proof -
  from post obtain uid ids and target :: authorized_message_target where cases:
      "(\<exists>r. outcome = Duplicate r \<and> \<not> advanced \<and> db' = db \<and>
         send_prepared_message vc (Some i) now (prepare_send uid c (amt_kind target) None ids body) db = Inr (outcome, db)) \<or>
       (\<exists>j res d moved e. Some i = Some j \<and> outcome = Created res \<and>
          send_prepared_message vc (Some i) now (prepare_send uid c (amt_kind target) None ids body) db = Inr (outcome, d) \<and>
          store_message vc (prepare_send uid c (amt_kind target) None ids body)
            (new_message (prepare_send uid c (amt_kind target) None ids body) j now) db = Inr (outcome, d) \<and>
          mark_chat_as_read c uid j d = Inr (moved, e) \<and> db' = snd (advance_chat_read_receipt c uid j e))"
    by (rule post_message_Inr) blast
  show ?thesis
  proof (cases "db' = db")
    case True
    with ok show ?thesis by simp
  next
    case False
    let ?p = "prepare_send uid c (amt_kind target) None ids body"
    let ?m = "new_message ?p i now"
    from cases False obtain d moved e where s: "store_message vc ?p ?m db = Inr (outcome, d)"
        "mark_chat_as_read c uid i d = Inr (moved, e)" "db' = snd (advance_chat_read_receipt c uid i e)" by auto
    note d = store_message_rows [OF s(1)]
    have newest: "\<forall>x \<in> set (messages d). m_id x \<le> i" using ok(3) by (auto simp: d fresh_id_def)
    note e = mark_chat_newest [OF s(2) newest]
    have rows: "messages db' = messages db @ [?m]" "thread_metas db' = thread_metas db"
        "thread_user_states db' = thread_user_states db" by (simp_all add: s(3) e d)
    have "threads_ok db'" using ok rows by (intro threads_ok_new [of db db' ?m]) (simp_all add: books_ok_def)
    moreover have groups: "groups (core db') = (if m_is_published ?m \<and> m_reply_root_id ?m = None
        then groups (core (point_at_last ?m db)) else groups (core db))" by (simp add: s(3) e d)
    moreover have "last_ok db' g" if "g \<in> set (groups (core db'))" for g
      using ok rows groups that by (intro last_ok_new [of db ?m db' 0 g]) (simp_all add: books_ok_def)
    moreover have "distinct_keys g_id (groups (core db'))"
      using ok(1) groups by (simp add: books_ok_def point_at_last_keys)
    ultimately have books: "books_ok db'" by (simp add: books_ok_def)
    have new: "names_chat db' c (Some i)" if "cb_message_type body \<noteq> Audio"
      using that by (auto simp: names_chat_def rows timeline_row_def)
    have "names_chat db' (gm_chat_id gm) (gm_last_read_message_id gm)"
      if pub: "cb_message_type body \<noteq> Audio" and gm: "gm \<in> set (memberships (core db'))" for gm
    proof -
      obtain g1 where g1: "g1 \<in> set (memberships (core e))" "gm_chat_id g1 = gm_chat_id gm"
          "gm_last_read_message_id g1 = gm_last_read_message_id gm"
        using advance_chat_rows [of gm c uid i e] gm s(3) by auto
      then obtain g2 where g2: "g2 \<in> set (memberships (core d))" "gm_chat_id g2 = gm_chat_id g1"
          "gm_last_read_message_id g1 = gm_last_read_message_id g2 \<or>
           gm_last_read_message_id g1 = Some i \<and> gm_chat_id g1 = c" using e(5) by blast
      then have "g2 \<in> set (memberships (core db))" using d(4) by simp
      then have "names_chat db' (gm_chat_id g2) (gm_last_read_message_id g2)"
        using ok(2) rows by (intro names_mono(1) [of db' db ?m 0]) (simp_all add: positions_ok_iff)
      with g1 g2 new [OF pub] show ?thesis by auto
    qed
    moreover have "names_thread db' (ts_thread_root_id ts) (ts_last_read_message_id ts)"
      if "ts \<in> set (thread_user_states db')" for ts
      using that ok(2) rows names_mono(2) [of db' db ?m 0] by (simp add: positions_ok_iff)
    ultimately show ?thesis using books by (simp add: positions_ok_iff)
  qed
qed

lemma thread_post_consistent:
  assumes ok: "books_ok db" "positions_ok db" "fresh_id db i"
    and post: "post_thread_message vc uid c t body (Some i) now db_now db = Inr ((outcome, state), db')"
  shows "books_ok db' \<and> (cb_message_type body \<noteq> Audio \<longrightarrow> positions_ok db')"
proof -
  from post obtain ids target thread where s:
      "authorize_message_send db c (Some t) uid = Inr target" "amt_thread_root target = Some thread"
    and cases: "(\<exists>r. outcome = Duplicate r \<and> db' = db) \<or>
       (\<exists>j res d. Some i = Some j \<and> outcome = Created res \<and>
          store_message vc (prepare_send uid c (amt_kind target) (Some t) ids body)
            (new_message (prepare_send uid c (amt_kind target) (Some t) ids body) j now) db = Inr (outcome, d) \<and>
          record_thread_send (sr_response res) (sr_member_uids res) thread (cb_message_type body \<noteq> Audio) True
            now db_now d = (state, db'))"
    by (rule post_thread_message_Inr) blast
  show ?thesis
  proof (cases "db' = db")
    case True
    with ok show ?thesis by simp
  next
    case False
    let ?p = "prepare_send uid c (amt_kind target) (Some t) ids body"
    let ?m = "new_message ?p i now"
    let ?pub = "cb_message_type body \<noteq> Audio"
    from cases False obtain res d where store: "store_message vc ?p ?m db = Inr (Created res, d)"
      and recorded: "record_thread_send (sr_response res) (sr_member_uids res) thread ?pub True now db_now d = (state, db')"
      by auto
    note d = store_message_rows [OF store] and thread = authorized_root [OF s]
    have r: "r_id (sr_response res) = i" "r_chat_id (sr_response res) = c" "r_created_at (sr_response res) = now"
      using d(6) respond_Inr by fastforce+
    have core: "core d = core db" by (simp add: d)
    have none: "names_thread db' t' None" for t' by (simp add: names_thread_def)
    note effect = record_thread_send_effect [where K = "\<lambda>_ _. True", OF recorded]
    have rows: "messages db' = messages db @ [?m] \<or>
        messages db' = map (\<lambda>x. if m_id x = t then x\<lparr>m_has_thread := True\<rparr> else x) (messages db @ [?m])"
      using effect(3) by (simp add: all_states_def d thread)
    have "threads_ok db'"
    proof (cases "?pub")
      case True
      then show ?thesis
        using ok effect(3,4) thread(1)
        by (intro threads_ok_reply [of db db' t ?m])
          (simp_all add: books_ok_def all_states_def d thread r live_reply_def increment_thread_meta_def)
    next
      case False
      then show ?thesis
        using ok effect(3,4) thread(1)
        by (intro threads_ok_new [of db db' ?m]) (simp_all add: books_ok_def all_states_def d)
    qed
    moreover have core': "core db' = core db" using effect(2) core by (simp add: all_states_def)
    moreover have "last_ok db' g" if "g \<in> set (groups (core db'))" for g
      using ok rows core' that by (intro last_ok_new [of db ?m db' t g]) (simp_all add: books_ok_def)
    ultimately have books: "books_ok db'" using ok(1) by (simp add: books_ok_def)
    have "positions_ok db'" if pub: "?pub"
    proof -
      have new: "names_thread db' t (Some i)"
        using effect(3) pub by (auto simp: names_thread_def all_states_def d thread live_reply_def)
      have "all_states (names_thread db') d"
        using ok(2) names_mono(2) [OF rows] by (simp add: all_states_def positions_ok_iff d)
      then have "all_states (names_thread db') db'"
        using none new r thread
        by (intro record_thread_send_effect(1) [where K = "names_thread db'", OF recorded]) simp_all
      moreover have "\<forall>gm \<in> set (memberships (core db')). names_chat db' (gm_chat_id gm) (gm_last_read_message_id gm)"
        using ok(2) names_mono(1) [OF rows] core' by (simp add: positions_ok_iff)
      ultimately show ?thesis by (simp add: positions_ok_iff all_states_def)
    qed
    with books show ?thesis by simp
  qed
qed

text \<open>C1: Posting to a chat or to a thread keeps the books of every thread and the last message of
  every chat; a message that is published at once also keeps every read position on a row its
  reader can see. (A voice message is published later; until then its sender's position names it.)\<close>

theorem posts_keep_chat_consistent:
  assumes "books_ok db" and "positions_ok db" and "fresh_id db i"
  shows "(\<forall>outcome db'. post_message vc who c body (Some i) now db = Inr (outcome, db') \<longrightarrow>
      books_ok db' \<and> (cb_message_type body \<noteq> Audio \<longrightarrow> positions_ok db')) \<and>
    (\<forall>outcome db'. post_thread_message vc uid c t body (Some i) now db_now db = Inr (outcome, db') \<longrightarrow>
      books_ok db' \<and> (cb_message_type body \<noteq> Audio \<longrightarrow> positions_ok db'))"
  using chat_post_consistent [OF assms] thread_post_consistent [OF assms] by (metis surj_pair)

text \<open>A chat of the sample state gets a message and a thread reply.\<close>

definition sample_body :: "ustr \<Rightarrow> snowflake option \<Rightarrow> create_message_body" where
  "sample_body key reply_to =
     \<lparr>cb_message = Some (ascii ''hello @[uid:2]''), cb_message_type = Text, cb_sticker_id = None,
      cb_client_generated_id = key, cb_reply_to_id = reply_to, cb_attachment_ids = []\<rparr>"

lemma store_succeeds:
  assumes "p_attachment_ids p = []" and "validate_message (p_message_type p) (p_message p) (p_sticker_id p) [] = Inr ()"
  shows "\<exists>outcome db'. store_message vc p m db = Inr (outcome, db')"
  using assms
  by (simp add: store_message_def Let_def valid_selection_def locked_attachments_def select_rows_def guard_or_def
      associate_attachments_def response_for_def attach_metadata_one split: prod.split)

lemma mark_chat_succeeds:
  assumes "exists_row (\<lambda>g. g_id g = c) (groups (core db))"
  shows "\<exists>x. mark_chat_as_read c uid i db = Inr x"
  using assms
  by (auto simp: mark_chat_as_read_def load_membership_message_filter_def load_chat_settings_for_chat_def
      exists_row_first ok_or_def Let_def split: option.splits)

lemma send_succeeds:
  assumes "p_attachment_ids p = []" and "p_message_type p \<noteq> Placeholder"
    and "case p_reply_to_id p of None \<Rightarrow> True
      | Some k \<Rightarrow> validate_reply_target db (p_chat_id p) (p_reply_root_id p) k = Inr ()"
    and "validate_message (p_message_type p) (p_message p) (p_sticker_id p) [] = Inr ()"
    and "first_row (\<lambda>m. m_client_generated_id m = p_client_generated_id p) (messages db) = None"
  shows "\<exists>res d. send_prepared_message vc (Some i) now p db = Inr (Created res, d) \<and>
    store_message vc p (new_message p i now) db = Inr (Created res, d)"
proof -
  obtain outcome d where store: "store_message vc p (new_message p i now) db = Inr (outcome, d)"
    using store_succeeds [of p vc "new_message p i now" db] assms(1,4) by auto
  have "validate_message_shape (p_message_type p) (p_message p) (p_sticker_id p) = Inr ()"
    using assms(4) by (auto simp: validate_message_def and_then_eq_Inr)
  then have "send_prepared_message vc (Some i) now p db = Inr (outcome, d)"
    using assms store by (auto simp: send_prepared_message_def guard_or_def split: option.splits)
  moreover obtain res where "outcome = Created res" using store_message_rows(6) [OF store] by blast
  ultimately show ?thesis using store by blast
qed

lemma post_succeeds:
  assumes "validate_client_message_type (cb_message_type body) = Inr ()" and "cb_attachment_ids body = []"
    and "authorize_message_send db c None uid = Inr target"
    and "case cb_reply_to_id body of None \<Rightarrow> True | Some i \<Rightarrow> validate_reply_target db c None i = Inr ()"
    and "validate_message (cb_message_type body) (cb_message body) (cb_sticker_id body) [] = Inr ()"
    and "first_row (\<lambda>m. m_client_generated_id m = cb_client_generated_id body) (messages db) = None"
    and group: "exists_row (\<lambda>g. g_id g = c) (groups (core db))"
  shows "\<exists>res advanced db'. post_message vc (Inr uid) c body (Some i) now db = Inr ((Created res, advanced), db')"
proof -
  let ?p = "prepare_send uid c (amt_kind target) None [] body"
  have ids: "parse_attachment_ids (cb_attachment_ids body) = Inr []"
    using assms(2) by (simp add: parse_attachment_ids_def)
  have fields: "p_message ?p = cb_message body" "p_sticker_id ?p = cb_sticker_id body" "p_reply_to_id ?p = cb_reply_to_id body"
    by (simp_all add: prepare_send_def)
  have "cb_message_type body \<noteq> Placeholder" using assms(1) by (auto simp: validate_client_message_type_def)
  then have "\<exists>res d. send_prepared_message vc (Some i) now ?p db = Inr (Created res, d) \<and>
      store_message vc ?p (new_message ?p i now) db = Inr (Created res, d)"
    using assms(4-6) by (intro send_succeeds) (simp_all add: fields split: option.splits)
  then obtain res d where sent: "send_prepared_message vc (Some i) now ?p db = Inr (Created res, d)"
    and store: "store_message vc ?p (new_message ?p i now) db = Inr (Created res, d)" by blast
  have "map g_id (groups (core d)) = map g_id (groups (core db))"
    using store_message_rows(5) [OF store] by (simp add: point_at_last_def map_update_rows)
  then have "g_id ` set (groups (core d)) = g_id ` set (groups (core db))" by (metis set_map)
  then have "exists_row (\<lambda>g. g_id g = c) (groups (core d))"
    using group unfolding exists_row_iff by (metis (mono_tags, lifting) image_iff)
  then obtain x where "mark_chat_as_read c uid (r_id (sr_response res)) d = Inr x" using mark_chat_succeeds by blast
  with sent ids assms(1,3) show ?thesis
    by (simp add: post_message_def Let_def split: prod.split)
qed

lemma sample_post_checks:
  "validate_client_message_type (cb_message_type (sample_body key reply_to)) = Inr ()"
  "cb_attachment_ids (sample_body key reply_to) = []"
  "validate_message Text (Some (ascii ''hello @[uid:2]'')) None [] = Inr ()"
  by (simp_all add: sample_body_def validate_client_message_type_def validate_message_def
      validate_message_shape_def validate_attachments_def trimmed_nonempty_def trim_def trim_end_def
      ascii_def is_whitespace_def max_attachments_per_message_def)

lemma sample_post:
  "\<exists>res advanced db'. post_message vc (Inr 1) 10 (sample_body [7] (Some 103)) (Some 200) 300 sample_group_chat =
     Inr ((Created res, advanced), db')"
proof (rule post_succeeds)
  show "authorize_message_send sample_group_chat 10 None 1 = Inr \<lparr>amt_kind = Group, amt_thread_root = None\<rparr>"
    by code_simp
  show "case cb_reply_to_id (sample_body [7] (Some 103)) of None \<Rightarrow> True
      | Some i \<Rightarrow> validate_reply_target sample_group_chat 10 None i = Inr ()" by code_simp
  show "first_row (\<lambda>m. m_client_generated_id m = cb_client_generated_id (sample_body [7] (Some 103)))
      (messages sample_group_chat) = None" by code_simp
  show "exists_row (\<lambda>g. g_id g = 10) (groups (core sample_group_chat))" by code_simp
  show "validate_message (cb_message_type (sample_body [7] (Some 103))) (cb_message (sample_body [7] (Some 103)))
      (cb_sticker_id (sample_body [7] (Some 103))) [] = Inr ()"
    using sample_post_checks(3) by (simp add: sample_body_def)
qed (simp_all only: sample_post_checks)

theorem posts_keep_chat_consistent_witness:
  "\<exists>outcome db'. post_message sample_view_context (Inr 1) 10 (sample_body [7] (Some 103)) (Some 200) 300
      sample_group_chat = Inr (outcome, db') \<and> books_ok db' \<and> positions_ok db'"
proof -
  obtain outcome db' where post: "post_message sample_view_context (Inr 1) 10 (sample_body [7] (Some 103)) (Some 200) 300
      sample_group_chat = Inr (outcome, db')"
    using sample_post by blast
  have fresh: "fresh_id sample_group_chat 200" by code_simp
  have "cb_message_type (sample_body [7] (Some 103)) \<noteq> Audio" by (simp add: sample_body_def)
  with post show ?thesis
    using posts_keep_chat_consistent [OF sample_group_books sample_group_positions fresh,
      of sample_view_context "Inr 1" 10 "sample_body [7] (Some 103)" 300] by blast
qed

section \<open>The attachments of a stored message\<close>

lemma parse_distinct_ids_distinct:
  "parse_distinct_ids parsed raws = Inr ids \<Longrightarrow> distinct parsed \<Longrightarrow> distinct ids"
  by (induction parsed raws rule: parse_distinct_ids.induct) (auto split: option.splits if_splits)

lemma parse_attachment_ids_distinct: "parse_attachment_ids raws = Inr ids \<Longrightarrow> distinct ids"
  by (auto simp: parse_attachment_ids_def and_then_eq_Inr split: if_splits intro: parse_distinct_ids_distinct)

lemma position_nth:
  assumes "distinct ids" and "k < length ids"
  shows "attachment_position ids (ids ! k) = int k + 1"
proof -
  have "takeWhile (\<lambda>j. j \<noteq> ids ! k) ids = take k ids"
  proof (rule takeWhile_eq_take_P_nth)
    show "ids ! j \<noteq> ids ! k" if "j < k" "j < length ids" for j
      using that assms by (simp add: nth_eq_iff_index_eq)
  qed simp
  then show ?thesis using assms(2) by (simp add: attachment_position_def)
qed

lemma positions_sorted:
  assumes "distinct ids"
  shows "map (attachment_position ids) ids = map (\<lambda>k. int k + 1) [0..<length ids]"
  using assms by (intro nth_equalityI) (simp_all add: position_nth)

lemma sorted_by_position:
  assumes "distinct ids" and "set (map key ys) = set ids" and "distinct (map key ys)"
    and "sorted (map (attachment_position ids) (map key ys))"
  shows "map key ys = ids"
proof (rule map_sorted_distinct_set_unique [where f = "attachment_position ids"])
  have d: "distinct (map (attachment_position ids) ids)"
    using assms(1) by (simp add: positions_sorted distinct_map inj_on_def)
  then have inj: "inj_on (attachment_position ids) (set ids)" by (simp add: distinct_map)
  then show "inj_on (attachment_position ids) (set (map key ys) \<union> set ids)" by (simp only: assms(2) Un_absorb)
  show "sorted (map (attachment_position ids) (map key ys))" by (rule assms(4))
  show "distinct (map (attachment_position ids) (map key ys))"
    using assms(3) inj by (simp only: distinct_map [of _ "map key ys"] assms(2) simp_thms)
  show "sorted (map (attachment_position ids) ids)"
    unfolding positions_sorted [OF assms(1)] by (simp add: sorted_iff_nth_mono)
  show "distinct (map (attachment_position ids) ids)" by (rule d)
  show "set (map key ys) = set ids" by (rule assms(2))
qed

lemma filter_updated:
  "(\<And>a. a \<in> set xs \<Longrightarrow> P a \<Longrightarrow> Q (f a)) \<Longrightarrow> (\<And>a. a \<in> set xs \<Longrightarrow> \<not> P a \<Longrightarrow> \<not> Q a) \<Longrightarrow>
   filter Q (map (\<lambda>a. if P a then f a else a) xs) = map f (filter P xs)"
  by (induction xs) simp_all

lemma filed_attachment_ids:
  assumes filed: "associate_attachments ids wanted i db = Inr db'"
    and valid: "valid_selection ids (\<lambda>a. at_message_id a = None \<and> wanted a) (locked_attachments db ids)"
    and distinct: "distinct ids" "distinct_keys at_id (attachments db)"
    and free: "\<forall>a \<in> set (attachments db). at_message_id a \<noteq> Some i"
  shows "load_message_attachment_ids db' i = ids"
proof (cases "ids = []")
  case True
  with filed free show ?thesis
    by (simp add: associate_attachments_def load_message_attachment_ids_def attachments_of_def select_rows_def)
next
  case False
  let ?P = "\<lambda>a. at_id a \<in> set ids \<and> at_message_id a = None \<and> wanted a"
  let ?f = "\<lambda>a. a\<lparr>at_message_id := Some i, at_order := attachment_position ids (at_id a) - 1\<rparr>"
  let ?rows = "filter ?P (attachments db)"
  have count: "length ?rows = length ids" and rows': "attachments db' = update_rows ?P ?f (attachments db)"
    using filed False by (auto simp: associate_attachments_def count_rows_def Let_def split: if_splits)
  have live: "at_deleted_at a = None" if "a \<in> set ?rows" for a
    using valid that by (auto simp: valid_selection_def locked_attachments_def list_all_iff select_rows_def)
  have keys: "distinct (map at_id ?rows)"
    using distinct(2) by (auto simp: distinct_keys_def distinct_map inj_on_def)
  have "set (map at_id ?rows) = set ids"
  proof (rule card_subset_eq)
    show "card (set (map at_id ?rows)) = card (set ids)"
      using distinct_card [OF keys] distinct_card [OF distinct(1)] count by (simp only: length_map)
  qed auto
  moreover have "select_rows (\<lambda>a. at_message_id a = Some i \<and> at_deleted_at a = None) (attachments db') = map ?f ?rows"
    unfolding rows' select_rows_def update_rows_def using free live by (intro filter_updated) simp_all
  moreover define ys where "ys = sort_key at_order (sort_key at_id (map ?f ?rows))"
  ultimately have ys: "load_message_attachment_ids db' i = map at_id ys"
    by (simp add: load_message_attachment_ids_def attachments_of_def)
  have set_ys: "set ys = ?f ` set ?rows" by (simp add: ys_def)
  have "map at_id ys = ids"
  proof (rule sorted_by_position)
    show "set (map at_id ys) = set ids"
      using \<open>set (map at_id ?rows) = set ids\<close> by (simp add: set_ys image_image)
    have "distinct (map at_id (map ?f ?rows))" using keys by (simp add: comp_def)
    then have "distinct (map ?f ?rows)" "inj_on at_id (?f ` set ?rows)"
      unfolding distinct_map [of at_id "map ?f ?rows"] by simp_all
    then show "distinct (map at_id ys)"
      unfolding distinct_map [of at_id ys] set_ys by (simp add: ys_def)
    have "map at_order ys = map (\<lambda>a. attachment_position ids (at_id a) - 1) ys" using set_ys by auto
    moreover have "sorted (map at_order ys)" by (simp add: ys_def)
    moreover have "(x - 1 \<le> y - 1) = (x \<le> y)" for x y :: int by presburger
    ultimately show "sorted (map (attachment_position ids) (map at_id ys))"
      by (simp only: sorted_map map_map comp_def)
  qed (rule distinct(1))
  with ys show ?thesis by simp
qed

section \<open>Retries\<close>

lemma first_row_map: "first_row P (map f rows) = map_option f (first_row (P \<circ> f) rows)"
  by (induction rows) simp_all

text \<open>Authorization looks at the kind, participants and modes of a chat and at nothing that
  sending changes.\<close>

lemma joined_member_map:
  assumes "\<And>g. g_id (f g) = g_id g" and "\<And>m. gm_chat_id (h m) = gm_chat_id m \<and> gm_uid (h m) = gm_uid m"
  shows "joined_member (t\<lparr>groups := map f (groups t), memberships := map h (memberships t)\<rparr>) c uid =
    map_option (map_prod f h) (joined_member t c uid)"
proof -
  have "concat (map (\<lambda>g. map (Pair g) (filter (\<lambda>m. gm_chat_id m = g_id g) (map h ms))) (map f gs)) =
      map (map_prod f h) (concat (map (\<lambda>g. map (Pair g) (filter (\<lambda>m. gm_chat_id m = g_id g) ms)) gs))" for gs ms
    by (induction gs) (simp_all add: filter_map comp_def assms)
  moreover have "(\<lambda>(g, m). g_id g = c \<and> gm_uid m = uid) \<circ> map_prod f h = (\<lambda>(g, m). g_id g = c \<and> gm_uid m = uid)"
    by (simp add: fun_eq_iff assms)
  ultimately show ?thesis by (simp add: joined_member_def joined_chats_def first_row_map)
qed

lemma authorize_send_map:
  assumes f: "\<And>g. g_id (f g) = g_id g \<and> g_kind (f g) = g_kind g \<and> g_dm_uid1 (f g) = g_dm_uid1 g \<and>
      g_dm_uid2 (f g) = g_dm_uid2 g \<and> g_speaking_mode (f g) = g_speaking_mode g"
    and h: "\<And>m. gm_chat_id (h m) = gm_chat_id m \<and> gm_uid (h m) = gm_uid m \<and> gm_role (h m) = gm_role m \<and>
      gm_speaking_mode (h m) = gm_speaking_mode m"
    and core: "core db' = (core db)\<lparr>groups := map f (groups (core db)), memberships := map h (memberships (core db))\<rparr>"
  shows "authorize_message_send db' c None uid = authorize_message_send db c None uid"
proof -
  have "check_can_dm (core db') a b = check_can_dm (core db) a b" for a b
    by (simp add: core check_can_dm_def are_mutual_friends_def is_blocked_either_direction_def)
  then have "dm_participant (core db') (f g) uid = dm_participant (core db) g uid" for g
    by (simp add: dm_participant_def f)
  moreover have "joined_member (core db') c uid = map_option (map_prod f h) (joined_member (core db) c uid)"
    unfolding core using f h by (intro joined_member_map) simp_all
  ultimately show ?thesis
    by (cases "joined_member (core db) c uid")
      (auto simp: authorize_message_send_def load_thread_root_def f h ok_or_def Let_def)
qed

lemma validate_reply_append:
  "validate_reply_target db c t i = Inr () \<Longrightarrow> messages db' = messages db @ [m] \<Longrightarrow>
   validate_reply_target db' c t i = Inr ()"
  by (auto simp: validate_reply_target_def and_then_eq_Inr ok_or_eq_Inr first_row_append)

definition keeps_modes :: "(membership_row \<Rightarrow> membership_row) \<Rightarrow> bool" where
  "keeps_modes h \<longleftrightarrow> (\<forall>m. gm_chat_id (h m) = gm_chat_id m \<and> gm_uid (h m) = gm_uid m \<and>
     gm_role (h m) = gm_role m \<and> gm_speaking_mode (h m) = gm_speaking_mode m)"

lemma reading_keeps_modes:
  "mark_chat_as_read c uid i db = Inr (moved, db') \<Longrightarrow> \<exists>h. keeps_modes h \<and>
     db' = db\<lparr>core := (core db)\<lparr>memberships := map h (memberships (core db))\<rparr>\<rparr>"
  "\<exists>h. keeps_modes h \<and> snd (advance_chat_read_receipt c uid i db) =
     db\<lparr>core := (core db)\<lparr>memberships := map h (memberships (core db))\<rparr>\<rparr>"
proof -
  have keeps: "keeps_modes (\<lambda>m. if P m then m\<lparr>gm_last_read_message_id := x\<rparr> else m)"
    "keeps_modes (\<lambda>m. if P m then m\<lparr>gm_last_read_receipt_message_id := x\<rparr> else m)" for P x
    by (simp_all add: keeps_modes_def)
  show "\<exists>h. keeps_modes h \<and> db' = db\<lparr>core := (core db)\<lparr>memberships := map h (memberships (core db))\<rparr>\<rparr>"
    if read: "mark_chat_as_read c uid i db = Inr (moved, db')"
  proof -
    obtain hides where "load_membership_message_filter (core db) uid c = Inr hides"
      using read by (auto simp: mark_chat_as_read_def and_then_eq_Inr)
    let ?i = "if hides then skip_hidden_membership_tail db c i else i"
    have "db' = db\<lparr>core := (core db)\<lparr>memberships := map (\<lambda>m. if is_membership_of (c, uid) m \<and>
        behind (gm_last_read_message_id m) ?i then m\<lparr>gm_last_read_message_id := Some ?i\<rparr> else m)
        (memberships (core db))\<rparr>\<rparr>"
      using read \<open>load_membership_message_filter (core db) uid c = Inr hides\<close>
      by (simp add: mark_chat_as_read_def update_rows_def Let_def)
    with keeps(1) show ?thesis by (intro exI conjI)
  qed
  show "\<exists>h. keeps_modes h \<and> snd (advance_chat_read_receipt c uid i db) =
     db\<lparr>core := (core db)\<lparr>memberships := map h (memberships (core db))\<rparr>\<rparr>"
    unfolding advance_chat_read_receipt_def Let_def update_rows_def snd_conv
    by (intro exI conjI) (rule keeps(2), rule refl)
qed

text \<open>A stored message answers for itself.\<close>

lemma retry_send:
  assumes sent: "send_prepared_message vc (Some i) now p db = Inr (Created res, d)"
    and after: "messages db' = messages d" "attachments db' = attachments d" "message_reactions db' = message_reactions d"
    and keys: "distinct_keys at_id (attachments db)" "distinct (p_attachment_ids p)"
    and free: "\<forall>a \<in> set (attachments db). at_message_id a \<noteq> Some i"
  shows "send_prepared_message vc (Some j) later p db' = Inr (Duplicate (sr_response res), db')"
proof -
  let ?m = "new_message p i now"
  from sent have checks: "\<not> (p_message_type p = Placeholder \<and> (p_attachment_ids p \<noteq> [] \<or> p_forwarded_bundle_id p \<noteq> None))"
      "case p_reply_to_id p of None \<Rightarrow> True | Some k \<Rightarrow> validate_reply_target db (p_chat_id p) (p_reply_root_id p) k = Inr ()"
      "validate_message_shape (p_message_type p) (p_message p) (p_sticker_id p) = Inr ()"
    by (auto simp: send_prepared_message_def and_then_eq_Inr guard_or_eq_Inr split: option.splits)
  from send_prepared_cases [OF sent] have store: "store_message vc p ?m db = Inr (Created res, d)"
    and unsent: "first_row (\<lambda>m. m_client_generated_id m = p_client_generated_id p) (messages db) = None" by auto
  note rows = store_message_rows [OF store]
  have messages: "messages db' = messages db @ [?m]" by (simp add: after rows)
  have found: "first_row (\<lambda>m. m_client_generated_id m = p_client_generated_id p) (messages db') = Some ?m"
    by (simp add: messages first_row_append unsent)
  have files: "load_message_attachment_ids db' i = p_attachment_ids p"
  proof -
    obtain filed r fx where s:
        "associate_attachments (p_attachment_ids p) (\<lambda>a. at_uploader_uid a = Some (p_sender_uid p)) (m_id ?m)
           (if p_publish_immediately p \<and> p_reply_root_id p = None
            then point_at_last ?m (db\<lparr>messages := messages db @ [?m]\<rparr>) else db\<lparr>messages := messages db @ [?m]\<rparr>) = Inr filed"
        "valid_selection (p_attachment_ids p)
           (\<lambda>a. at_message_id a = None \<and> at_uploader_uid a = Some (p_sender_uid p))
           (locked_attachments db (p_attachment_ids p))"
        "(fx, d) = (if p_publish_immediately p
           then build_message_side_effects vc r (p_sender_uid p) (p_chat_id p) (p_message_type p \<noteq> System)
             (p_forwarded_from_message_id p = None) filed
           else (no_side_effects r, filed))"
      using store by (rule store_message_Inr) blast
    let ?start = "if p_publish_immediately p \<and> p_reply_root_id p = None
      then point_at_last ?m (db\<lparr>messages := messages db @ [?m]\<rparr>) else db\<lparr>messages := messages db @ [?m]\<rparr>"
    have start: "attachments ?start = attachments db" by simp
    then have "locked_attachments ?start = locked_attachments db" by (simp add: locked_attachments_def fun_eq_iff)
    then have "load_message_attachment_ids filed i = p_attachment_ids p"
      using s(1,2) keys free start by (intro filed_attachment_ids [of _ _ i ?start]) simp_all
    moreover have "attachments db' = attachments filed" using side_effects_rows(3) [OF s(3)] after(2) by simp
    ultimately show ?thesis by (simp add: load_message_attachment_ids_def attachments_of_def)
  qed
  have same: "validate_idempotent_message_payload ?m p (p_attachment_ids p) = Inr ()"
    by (simp add: validate_idempotent_message_payload_def new_message_def)
  have "response_for vc p ?m db' = response_for vc p ?m d" by (rule respond_cong) (rule after)+
  then have response: "response_for vc p ?m db' = Inr (sr_response res)" using rows(6) by simp
  have "(case p_reply_to_id p of None \<Rightarrow> Inr ()
      | Some k \<Rightarrow> validate_reply_target db' (p_chat_id p) (p_reply_root_id p) k) = Inr ()"
    using checks(2) validate_reply_append [OF _ messages] by (simp split: option.splits)
  then show ?thesis
    using checks(1,3) by (simp add: send_prepared_message_def guard_or_def found files same response)
qed



end
