(* ===== verification/Message_Edit.thy ===== *)
theory Message_Edit
  imports Send_Guarantees
begin

text \<open>
  Editing a message: \<open>patch_message\<close> of \<open>backend/src/services/api/chats/messages.rs\<close> and
  \<open>sync_edited_message_mentions\<close> of \<open>services/messages.rs\<close>, and how the mention rows follow the
  text from the send through every edit.
\<close>

section \<open>Mentions of an edited text\<close>

text \<open>The sets of the code are lists in the order of the text; the order only decides in which
  order members are subscribed and told.\<close>

definition mentions_in :: "ustr option \<Rightarrow> uid list" where
  "mentions_in body = (case body of None \<Rightarrow> [] | Some t \<Rightarrow> extract_mention_uids t)"

definition reply_author :: "chat_db \<Rightarrow> message_row \<Rightarrow> uid option" where
  "reply_author db m =
     Option.bind (m_reply_to_id m) (\<lambda>i. map_option m_sender_uid (first_row (\<lambda>x. m_id x = i) (messages db)))"

definition drop_removed_mentions :: "message_row \<Rightarrow> uid list \<Rightarrow> chat_db \<Rightarrow> chat_db" where
  "drop_removed_mentions m removed db =
     (let author = reply_author db m;
          keep = filter (\<lambda>u. Some u = author) removed;
          dropped = filter (\<lambda>u. Some u \<noteq> author) removed
      in db\<lparr>message_mentions :=
           delete_rows (\<lambda>r. mm_message_id r = m_id m \<and> mm_mentioned_uid r \<in> set dropped)
             (update_rows (\<lambda>r. mm_message_id r = m_id m \<and> mm_mentioned_uid r \<in> set keep)
               (\<lambda>r. r\<lparr>mm_kind := ReplyRow\<rparr>) (message_mentions db))\<rparr>)"

definition edited_mention :: "message_row \<Rightarrow> timestamp \<Rightarrow> uid \<Rightarrow> message_mention" where
  "edited_mention m edited_at uid =
     \<lparr>mm_message_id = m_id m, mm_mentioned_uid = uid, mm_chat_id = m_chat_id m,
      mm_thread_root_id = m_reply_root_id m, mm_created_at = edited_at, mm_kind = MentionRow\<rparr>"

definition upsert_mention :: "message_mention \<Rightarrow> message_mention list \<Rightarrow> message_mention list" where
  "upsert_mention r rows =
     upsert_row (is_mention_of (mention_key r)) r (\<lambda>old. old\<lparr>mm_kind := MentionRow\<rparr>) rows"

definition sync_edited_message_mentions ::
  "message_row \<Rightarrow> ustr \<Rightarrow> uid \<Rightarrow> timestamp \<Rightarrow> timestamp \<Rightarrow> timestamp \<Rightarrow> chat_db \<Rightarrow> uid list \<times> chat_db" where
  "sync_edited_message_mentions m new_text editor edited_at now db_now db =
     (let old_uids = mentions_in (m_message m);
          new_uids = extract_mention_uids new_text;
          removed = filter (\<lambda>u. u \<notin> set new_uids) old_uids;
          db = (if removed = [] then db else drop_removed_mentions m removed db);
          members = member_uids (core db) (m_chat_id m) (\<lambda>_. True);
          added = filter (\<lambda>u. u \<notin> set old_uids \<and> u \<noteq> editor \<and> u \<in> set members) new_uids
      in if added = [] then ([], db)
         else let db = db\<lparr>message_mentions :=
                    fold (\<lambda>u. upsert_mention (edited_mention m edited_at u)) added (message_mentions db)\<rparr>
              in (added, case m_reply_root_id m of None \<Rightarrow> db
                  | Some t \<Rightarrow> fold (\<lambda>u db. snd (ensure_thread_subscription (m_chat_id m) t u now db_now db)) added db))"

section \<open>The endpoint\<close>

record update_message_body =
  ub_message :: ustr
  ub_attachment_ids :: "ustr list"

definition editable :: "chat_db \<Rightarrow> uid \<Rightarrow> snowflake \<Rightarrow> snowflake \<Rightarrow> app_error + message_row" where
  "editable db uid chat_id message_id =
     and_then (ok_or (first_row (\<lambda>m. m_id m = message_id \<and> m_chat_id m = chat_id) (messages db))
       (NotFound ''Message not found'')) (\<lambda>m.
     and_then (visible_or_not_found db uid chat_id m) (\<lambda>_.
     and_then (guard_or (m_sender_uid m = uid) (Forbidden ''You can only edit your own messages'')) (\<lambda>_.
     and_then (guard_or (m_deleted_at m = None) (BadRequest ''Cannot edit deleted message'')) (\<lambda>_.
     and_then (guard_or (m_is_published m) (BadRequest ''Cannot edit unpublished message'')) (\<lambda>_.
     and_then (guard_or (m_forwarded_from_message_id m = None \<and> m_message_type m \<noteq> Placeholder)
       (Forbidden ''Forwarded messages cannot be edited'')) (\<lambda>_.
     and_then (guard_or (m_message_type m = Text) (BadRequest ''This message type cannot be edited'')) (\<lambda>_.
     and_then (require_edit (core db) m uid) (\<lambda>_. Inr m))))))))"

definition detach_attachments :: "snowflake \<Rightarrow> chat_db \<Rightarrow> chat_db" where
  "detach_attachments message_id db =
     db\<lparr>attachments := update_rows (\<lambda>a. at_message_id a = Some message_id)
          (\<lambda>a. a\<lparr>at_message_id := None\<rparr>) (attachments db)\<rparr>"

definition edited :: "update_message_body \<Rightarrow> snowflake list \<Rightarrow> timestamp \<Rightarrow> message_row \<Rightarrow> message_row" where
  "edited body attachment_ids now m =
     m\<lparr>m_message := Some (ub_message body), m_has_attachments := (attachment_ids \<noteq> []),
       m_updated_at := Some now\<rparr>"

text \<open>\<open>later\<close> is the clock of the subscriptions that new mentions make. The result has the edited
  row and the newly mentioned members.\<close>

definition patch_message ::
  "uid \<Rightarrow> snowflake \<Rightarrow> snowflake \<Rightarrow> update_message_body \<Rightarrow> timestamp \<Rightarrow> timestamp \<Rightarrow> timestamp \<Rightarrow> chat_db \<Rightarrow>
   app_error + (message_row \<times> uid list) \<times> chat_db" where
  "patch_message uid chat_id message_id body now later db_now db =
     and_then (check_membership (core db) chat_id uid) (\<lambda>_.
     and_then (require_chat_writable (core db) chat_id uid) (\<lambda>_.
     and_then (parse_attachment_ids (ub_attachment_ids body)) (\<lambda>attachment_ids.
     and_then (editable db uid chat_id message_id) (\<lambda>m.
     let requested = locked_attachments db attachment_ids
     in and_then (guard_or (valid_selection attachment_ids
            (\<lambda>a. at_message_id a = Some message_id \<or>
               at_message_id a = None \<and> at_uploader_uid a = Some uid) requested)
          (BadRequest ''Invalid attachment selection'')) (\<lambda>_.
        and_then (validate_message (m_message_type m) (Some (ub_message body)) (m_sticker_id m) requested) (\<lambda>_.
        and_then (associate_attachments attachment_ids (\<lambda>_. True) message_id
            (detach_attachments message_id db)) (\<lambda>db.
          let db = db\<lparr>messages := update_rows (\<lambda>x. m_id x = message_id) (edited body attachment_ids now)
                (messages db)\<rparr>;
              (added, db) = sync_edited_message_mentions m (ub_message body) uid now later db_now db
          in Inr ((edited body attachment_ids now m, added), db))))))))"

definition announce_edit ::
  "view_context \<Rightarrow> uid \<Rightarrow> snowflake \<Rightarrow> message_row \<times> uid list \<Rightarrow> chat_db \<Rightarrow> chat_payload registry \<Rightarrow>
   chat_payload registry" where
  "announce_edit vc uid chat_id result db r =
     (let (m, added) = result;
          response = hd (attach_metadata vc db uid [m]);
          r = broadcast_to_uids (member_uids (core db) chat_id (\<lambda>_. True))
                (WsMessageUpdated (MessagePayload response)) r;
          r = (case m_reply_root_id m of
                 Some t \<Rightarrow> fold (\<lambda>u. broadcast_thread_membership_changed_to_user db u chat_id t) added r
               | None \<Rightarrow> r)
      in if added = [] then r
         else broadcast_to_uids added (WsNotification (NotificationPayload
           \<lparr>np_notification_type = NotifyMention, np_chat_id = chat_id, np_message_id = m_id m,
            np_thread_root_id = m_reply_root_id m, np_actor_uid = uid,
            np_actor_name = Some (someone vc uid)\<rparr>)) r)"

section \<open>What the rows should be\<close>

text \<open>
  Whom a message concerns, as the message text and the reply target say: a mentioned member with a
  mention row, the author of the message replied to with a reply row, the sender never.
\<close>

definition wanted_kind :: "chat_db \<Rightarrow> message_row \<Rightarrow> uid \<Rightarrow> mention_kind option" where
  "wanted_kind db m u =
     (if u = m_sender_uid m \<or> u \<notin> set (member_uids (core db) (m_chat_id m) (\<lambda>_. True)) then None
      else if u \<in> set (mentions_in (m_message m)) then Some MentionRow
      else if reply_author db m = Some u then Some ReplyRow else None)"

definition row_kind :: "chat_db \<Rightarrow> snowflake \<Rightarrow> uid \<Rightarrow> mention_kind option" where
  "row_kind db i u = map_option mm_kind (first_row (is_mention_of (i, u)) (message_mentions db))"

definition mentions_recorded :: "chat_db \<Rightarrow> message_row \<Rightarrow> bool" where
  "mentions_recorded db m \<longleftrightarrow> (\<forall>u. row_kind db (m_id m) u = wanted_kind db m u)"

section \<open>Edits keep the rows right\<close>

lemma first_row_delete:
  "first_row P (delete_rows Q rows) = first_row (\<lambda>r. P r \<and> \<not> Q r) rows"
  by (induction rows) (simp_all add: delete_rows_def)

lemma row_kind_drop:
  "row_kind (drop_removed_mentions m removed db) (m_id m) u =
   (if u \<notin> set removed then row_kind db (m_id m) u
    else if reply_author db m = Some u then map_option (\<lambda>_. ReplyRow) (row_kind db (m_id m) u) else None)"
proof -
  let ?author = "reply_author db m"
  let ?keep = "\<lambda>r. mm_message_id r = m_id m \<and> mm_mentioned_uid r \<in> set (filter (\<lambda>u. Some u = ?author) removed)"
  let ?rows = "update_rows ?keep (\<lambda>r. r\<lparr>mm_kind := ReplyRow\<rparr>) (message_mentions db)"
  have updated: "first_row (is_mention_of (m_id m, u)) ?rows =
      map_option (\<lambda>r. if ?keep r then r\<lparr>mm_kind := ReplyRow\<rparr> else r) (first_row (is_mention_of (m_id m, u)) (message_mentions db))"
    by (rule mention_table.find_update_any) (simp add: mention_key_def)
  have rows: "message_mentions (drop_removed_mentions m removed db) = delete_rows
      (\<lambda>r. mm_message_id r = m_id m \<and> mm_mentioned_uid r \<in> set (filter (\<lambda>u. Some u \<noteq> ?author) removed)) ?rows"
    by (simp add: drop_removed_mentions_def Let_def)
  have mine: "is_mention_of (m_id m, u) r \<Longrightarrow> mm_message_id r = m_id m \<and> mm_mentioned_uid r = u" for r
    by (simp add: is_mention_of_def)
  show ?thesis
  proof (cases "u \<in> set removed \<and> ?author \<noteq> Some u")
    case True
    then have "first_row (\<lambda>r. is_mention_of (m_id m, u) r \<and>
        \<not> (mm_message_id r = m_id m \<and> mm_mentioned_uid r \<in> set (filter (\<lambda>u. Some u \<noteq> ?author) removed))) ?rows = None"
      by (auto simp: first_row_None is_mention_of_def)
    then show ?thesis using True unfolding row_kind_def rows first_row_delete by simp
  next
    case False
    then have "(\<lambda>r. is_mention_of (m_id m, u) r \<and>
        \<not> (mm_message_id r = m_id m \<and> mm_mentioned_uid r \<in> set (filter (\<lambda>u. Some u \<noteq> ?author) removed))) =
        is_mention_of (m_id m, u)"
      by (auto simp: fun_eq_iff is_mention_of_def)
    then have "row_kind (drop_removed_mentions m removed db) (m_id m) u =
        map_option mm_kind (first_row (is_mention_of (m_id m, u)) ?rows)"
      unfolding row_kind_def rows first_row_delete by (rule arg_cong)
    then show ?thesis
      unfolding updated using False mine
      by (cases "first_row (is_mention_of (m_id m, u)) (message_mentions db)")
        (auto simp: row_kind_def dest: first_row_Some)
  qed
qed

lemma drop_removed_simps [simp]:
  "core (drop_removed_mentions m removed db) = core db"
  "messages (drop_removed_mentions m removed db) = messages db"
  by (simp_all add: drop_removed_mentions_def Let_def)

lemma upsert_mention_find:
  assumes "mm_kind r = MentionRow" and "mm_message_id r = i"
  shows "map_option mm_kind (first_row (is_mention_of (i, u)) (upsert_mention r rows)) =
    (if u = mm_mentioned_uid r then Some MentionRow
     else map_option mm_kind (first_row (is_mention_of (i, u)) rows))"
proof -
  have "first_row (is_mention_of (i, u)) (upsert_row (is_mention_of (i, mm_mentioned_uid r)) r
        (\<lambda>old. old\<lparr>mm_kind := MentionRow\<rparr>) rows) =
      (if (i, u) = (i, mm_mentioned_uid r) then Some (case first_row (is_mention_of (i, mm_mentioned_uid r)) rows of
           None \<Rightarrow> r | Some old \<Rightarrow> old\<lparr>mm_kind := MentionRow\<rparr>)
       else first_row (is_mention_of (i, u)) rows)"
    by (rule mention_table.find_upsert_rewrite) (simp_all add: mention_key_def assms)
  with assms show ?thesis by (auto simp: upsert_mention_def mention_key_def split: option.split)
qed

lemma upsert_mentions_find:
  "map_option mm_kind (first_row (is_mention_of (m_id m, u))
     (fold (\<lambda>u. upsert_mention (edited_mention m edited_at u)) added rows)) =
   (if u \<in> set added then Some MentionRow
    else map_option mm_kind (first_row (is_mention_of (m_id m, u)) rows))"
  by (induction added arbitrary: rows) (simp_all add: upsert_mention_find edited_mention_def)

lemma subscribe_fold_same:
  "message_mentions (fold (\<lambda>u db. snd (ensure_thread_subscription c t u now db_now db)) us db) = message_mentions db \<and>
   same_but_states db (fold (\<lambda>u db. snd (ensure_thread_subscription c t u now db_now db)) us db)"
proof (induction us arbitrary: db)
  case Nil
  then show ?case by (simp add: same_but_states_def)
next
  case (Cons u us)
  have "message_mentions (snd (ensure_thread_subscription c t u now db_now db)) = message_mentions db"
    by (auto simp: ensure_thread_subscription_def Let_def split: option.splits)
  with Cons [of "snd (ensure_thread_subscription c t u now db_now db)"] state_steps_same(2) [of db c t u now db_now]
  show ?case by (auto intro: same_but_states_trans)
qed

lemma sync_effect:
  assumes "sync_edited_message_mentions m body editor edited_at now db_now db = (added, db')"
  shows "core db' = core db" and "messages db' = messages db"
    and "row_kind db' (m_id m) u =
      (if u \<in> set (extract_mention_uids body) - set (mentions_in (m_message m)) \<and> u \<noteq> editor \<and>
          u \<in> set (member_uids (core db) (m_chat_id m) (\<lambda>_. True)) then Some MentionRow
       else if u \<in> set (mentions_in (m_message m)) - set (extract_mention_uids body)
       then if reply_author db m = Some u then map_option (\<lambda>_. ReplyRow) (row_kind db (m_id m) u) else None
       else row_kind db (m_id m) u)"
proof -
  let ?removed = "filter (\<lambda>u. u \<notin> set (extract_mention_uids body)) (mentions_in (m_message m))"
  let ?d = "if ?removed = [] then db else drop_removed_mentions m ?removed db"
  let ?added = "filter (\<lambda>u. u \<notin> set (mentions_in (m_message m)) \<and> u \<noteq> editor \<and>
      u \<in> set (member_uids (core db) (m_chat_id m) (\<lambda>_. True))) (extract_mention_uids body)"
  let ?e = "?d\<lparr>message_mentions := fold (\<lambda>u. upsert_mention (edited_mention m edited_at u)) ?added (message_mentions ?d)\<rparr>"
  have d: "core ?d = core db" "messages ?d = messages db" by simp_all
  have drop: "row_kind ?d (m_id m) u = (if u \<in> set ?removed
      then if reply_author db m = Some u then map_option (\<lambda>_. ReplyRow) (row_kind db (m_id m) u) else None
      else row_kind db (m_id m) u)"
    by (auto simp: row_kind_drop filter_empty_conv)
  have "db' = (if ?added = [] then ?d else case m_reply_root_id m of None \<Rightarrow> ?e
      | Some t \<Rightarrow> fold (\<lambda>u db. snd (ensure_thread_subscription (m_chat_id m) t u now db_now db)) ?added ?e)"
    using assms unfolding sync_edited_message_mentions_def Let_def d(1) by (auto split: if_splits)
  then have "core db' = core db \<and> messages db' = messages db \<and>
      message_mentions db' = fold (\<lambda>u. upsert_mention (edited_mention m edited_at u)) ?added (message_mentions ?d)"
    using subscribe_fold_same by (auto simp: same_but_states_def split: option.split)
  then show "core db' = core db" "messages db' = messages db"
    and "row_kind db' (m_id m) u =
      (if u \<in> set (extract_mention_uids body) - set (mentions_in (m_message m)) \<and> u \<noteq> editor \<and>
          u \<in> set (member_uids (core db) (m_chat_id m) (\<lambda>_. True)) then Some MentionRow
       else if u \<in> set (mentions_in (m_message m)) - set (extract_mention_uids body)
       then if reply_author db m = Some u then map_option (\<lambda>_. ReplyRow) (row_kind db (m_id m) u) else None
       else row_kind db (m_id m) u)"
    using drop by (auto simp: row_kind_def upsert_mentions_find)
qed

lemma edited_simps [simp]:
  "m_id (edited body ids now m) = m_id m" "m_sender_uid (edited body ids now m) = m_sender_uid m"
  "m_chat_id (edited body ids now m) = m_chat_id m" "m_reply_to_id (edited body ids now m) = m_reply_to_id m"
  "m_message (edited body ids now m) = Some (ub_message body)"
  by (simp_all add: edited_def)

lemma reply_author_edited:
  assumes "messages db' = update_rows (\<lambda>x. m_id x = i) (edited body ids now) (messages db)"
  shows "reply_author db' = reply_author db"
proof -
  have "map_option m_sender_uid (first_row (\<lambda>x. m_id x = k) (messages db')) =
      map_option m_sender_uid (first_row (\<lambda>x. m_id x = k) (messages db))" for k
    unfolding assms
    by (subst message_table.find_update_any) (auto simp: option.map_comp comp_def intro!: option.map_cong)
  then show ?thesis by (simp add: reply_author_def fun_eq_iff)
qed


definition sample_edit :: update_message_body where
  "sample_edit = \<lparr>ub_message = ascii ''@[uid:1]'', ub_attachment_ids = []\<rparr>"

definition sample_last :: message_row where
  "sample_last = sample_message 103 2 None"

lemma sample_recorded: "mentions_recorded sample_group_chat sample_last"
proof -
  have "mentions_in (m_message sample_last) = []" by code_simp
  moreover have "reply_author sample_group_chat sample_last = None" by code_simp
  moreover have "message_mentions sample_group_chat = []" by code_simp
  ultimately show ?thesis by (simp add: mentions_recorded_def wanted_kind_def row_kind_def)
qed

lemma sample_edit_works:
  "\<not> isl (patch_message 2 10 103 sample_edit 500 501 502 sample_group_chat)"
proof -
  have "check_membership (core sample_group_chat) 10 2 = Inr ()"
    and "require_chat_writable (core sample_group_chat) 10 2 = Inr ()"
    and "editable sample_group_chat 2 10 103 = Inr sample_last" by code_simp+
  moreover have "validate_message (m_message_type sample_last) (Some (ub_message sample_edit)) (m_sticker_id sample_last) [] = Inr ()"
    by (simp add: sample_last_def sample_message_def sample_edit_def validate_message_def validate_message_shape_def
        validate_attachments_def trimmed_nonempty_def trim_def trim_end_def ascii_def is_whitespace_def
        max_attachments_per_message_def)
  ultimately show ?thesis
    by (simp add: patch_message_def sample_edit_def parse_attachment_ids_def valid_selection_def
        locked_attachments_def select_rows_def associate_attachments_def guard_or_def Let_def split: prod.split)
qed


section \<open>Sends make the rows right\<close>

lemma insert_mentions_kind:
  assumes "\<And>u. mm_message_id (f u) = i \<and> mm_mentioned_uid (f u) = u \<and> mm_kind (f u) = k"
  shows "map_option mm_kind (first_row (is_mention_of (i, u))
      (fold (\<lambda>r. insert_or_ignore (is_mention_of (mention_key r)) r) (map f us) rows)) =
    (case map_option mm_kind (first_row (is_mention_of (i, u)) rows) of
       None \<Rightarrow> if u \<in> set us then Some k else None | Some k' \<Rightarrow> Some k')"
proof (induction us arbitrary: rows)
  case (Cons v us)
  have "first_row (is_mention_of (i, u)) (insert_or_ignore (is_mention_of (mention_key (f v))) (f v) rows) =
      (case first_row (is_mention_of (i, u)) rows of
         None \<Rightarrow> if u = v then Some (f v) else None | Some r \<Rightarrow> Some r)"
  proof (cases "u = v")
    case True
    then show ?thesis
      using mention_table.find_insert [of "(i, u)" "f v" rows] by (simp add: mention_key_def assms)
  next
    case False
    then show ?thesis
      by (auto simp: insert_or_ignore_def first_row_append is_mention_of_def assms split: option.split)
  qed
  then show ?case by (auto simp: Cons assms split: option.split)
qed (simp split: option.split)

lemma reply_shown:
  assumes resp: "response_for vc p m db = Inr r" and keys: "distinct_keys m_id (messages db)"
    and x: "x \<in> set (messages db)" "m_reply_to_id m = Some (m_id x)" "m_is_published x" "not_membership x"
      "in_reply_scope x (m_chat_id m) (m_reply_root_id m)"
  shows "\<exists>pv. r_reply_to_message r = Some pv \<and> u_uid (pv_sender pv) = m_sender_uid x \<and>
    pv_message_type pv = m_message_type x"
proof -
  have "row_with_id (messages db) (m_id x) = Some x"
    using keys x(1) unfolding row_with_id_def by (intro first_row_unique) (auto dest: distinct_keys_eq)
  then have "row_with_id (citable db) (m_id x) = Some x"
    using x(3,4) by (simp add: citable_def row_with_id_filter [OF keys])
  then have shown: "Option.bind (Option.bind (m_reply_to_id m) (row_with_id (page_replies db [m])))
      (\<lambda>r. if in_reply_scope r (m_chat_id m) (m_reply_root_id m) then Some r else None) = Some x"
    using page_replies_lookup [OF keys, of m "[m]"] x(2,5) by simp
  have reply: "r_reply_to_message (build_response vc pd m) = map_option (quoted vc pd)
      (Option.bind (Option.bind (m_reply_to_id m) (row_with_id (pd_replies pd)))
        (\<lambda>r. if in_reply_scope r (m_chat_id m) (m_reply_root_id m) then Some r else None))" for pd
    by (simp add: build_response_def Let_def redact_deleted_message_response_def split: prod.split)
  have quote: "u_uid (pv_sender (quoted vc pd y)) = m_sender_uid y" "pv_message_type (quoted vc pd y) = m_message_type y" for pd y
    by (simp_all add: reply_preview_def build_message_preview_def Let_def build_sender_def split: prod.split)
  let ?pd = "(load_page vc db (p_sender_uid p) [m])\<lparr>pd_reactions := (\<lambda>i. pd_reactions (load_page vc db (p_sender_uid p) [m]) i)\<rparr>"
  have r: "r = apply_forwarded_preview_override vc (p_forwarded_preview p) (build_response vc ?pd m)"
    using resp by (simp add: response_for_def attach_metadata_one)
  have "pd_replies ?pd = page_replies db [m]" by (simp add: load_page_fields)
  then have "r_reply_to_message r = Some (quoted vc ?pd x)"
    unfolding r override_fields reply by (simp only: shown option.map)
  then show ?thesis by (intro exI conjI) (assumption, rule quote, rule quote)
qed

lemma message_shown:
  assumes "response_for vc p m db = Inr r" and "m_deleted_at m = None" and "m_message_type m \<noteq> System"
  shows "r_message r = m_message m"
  using assms
  by (auto simp: response_for_def attach_metadata_one build_response_def Let_def decode_def
      redact_deleted_message_response_def split: prod.splits)

lemma no_reply_shown:
  "response_for vc p m db = Inr r \<Longrightarrow> m_reply_to_id m = None \<Longrightarrow> r_reply_to_message r = None"
  by (auto simp: response_for_def attach_metadata_one build_response_def Let_def
      redact_deleted_message_response_def split: prod.splits)

text \<open>The author the response quotes is the author of the row replied to.\<close>

lemma reply_target_is_author:
  assumes resp: "response_for vc p (new_message p i now) filed = Inr r"
    and filed: "messages filed = messages db @ [new_message p i now]" and keys': "distinct_keys m_id (messages filed)"
    and kind: "p_message_type p \<noteq> System" "r_message_type r = p_message_type p"
    and valid: "case p_reply_to_id p of None \<Rightarrow> True
      | Some k \<Rightarrow> validate_reply_target db (p_chat_id p) (p_reply_root_id p) k = Inr ()"
    and target: "\<forall>x \<in> set (messages db). p_reply_to_id p = Some (m_id x) \<longrightarrow> m_message_type x \<noteq> System"
  shows "reply_target members s r = (case reply_author filed (new_message p i now) of None \<Rightarrow> None
      | Some a \<Rightarrow> if a \<noteq> s \<and> a \<in> set members then Some a else None)"
proof (cases "p_reply_to_id p")
  case None
  then have reply_to: "m_reply_to_id (new_message p i now) = None" by (simp add: new_message_def)
  with no_reply_shown [OF resp] show ?thesis by (simp add: reply_target_def reply_author_def)
next
  case (Some k)
  then have reply_to: "m_reply_to_id (new_message p i now) = Some k" by (simp add: new_message_def)
  from Some valid obtain x where x: "first_row (\<lambda>m. m_id m = k \<and> m_chat_id m = p_chat_id p \<and> m_deleted_at m = None \<and>
        m_is_published m) (messages db) = Some x" "not_membership x"
      "case p_reply_root_id p of Some t \<Rightarrow> m_id x = t \<or> m_reply_root_id x = Some t | None \<Rightarrow> m_reply_root_id x = None"
    by (auto simp: validate_reply_target_def and_then_eq_Inr ok_or_eq_Inr guard_or_eq_Inr)
  then have x': "x \<in> set (messages filed)" "m_id x = k" "m_chat_id x = p_chat_id p" "m_is_published x" "x \<in> set (messages db)"
    by (auto simp: filed dest!: first_row_Some)
  have "in_reply_scope x (m_chat_id (new_message p i now)) (m_reply_root_id (new_message p i now))"
    using x(3) x'(3) by (simp add: in_reply_scope_def)
  then obtain pv where "r_reply_to_message r = Some pv" "u_uid (pv_sender pv) = m_sender_uid x"
      "pv_message_type pv = m_message_type x"
    using reply_shown [OF resp keys' x'(1) _ x'(4) x(2)] reply_to x'(2) by auto
  moreover have "first_row (\<lambda>y. m_id y = k) (messages filed) = Some x"
    using keys' x'(1,2) by (intro first_row_unique) (auto dest: distinct_keys_eq)
  moreover have "m_message_type x \<noteq> System" using target Some x'(2,5) by simp
  ultimately show ?thesis
    using kind by (simp add: reply_target_def reply_author_def reply_to Let_def)
qed


lemma sample_send:
  "\<exists>res d. send_prepared_message vc (Some 200) 300 (prepare_send 1 10 Group None [] (sample_body [7] (Some 103)))
     sample_group_chat = Inr (Created res, d)"
proof -
  let ?p = "prepare_send 1 10 Group None [] (sample_body [7] (Some 103))"
  have "\<exists>res d. send_prepared_message vc (Some 200) 300 ?p sample_group_chat = Inr (Created res, d) \<and>
      store_message vc ?p (new_message ?p 200 300) sample_group_chat = Inr (Created res, d)"
  proof (rule send_succeeds)
    show "case p_reply_to_id ?p of None \<Rightarrow> True
      | Some k \<Rightarrow> validate_reply_target sample_group_chat (p_chat_id ?p) (p_reply_root_id ?p) k = Inr ()" by code_simp
    show "validate_message (p_message_type ?p) (p_message ?p) (p_sticker_id ?p) [] = Inr ()"
      using sample_post_checks(3) by (simp add: prepare_send_def sample_body_def)
    show "first_row (\<lambda>m. m_client_generated_id m = p_client_generated_id ?p) (messages sample_group_chat) = None"
      by code_simp
  qed (simp_all add: sample_body_def)
  then show ?thesis by blast
qed


end
