(* ===== verification/Unread_Counts.thy ===== *)
theory Unread_Counts
  imports Chat_Books Notification_Prefs
begin

text \<open>
  The unread counters of \<open>backend/src/services/unread/service.rs\<close>: how many messages of a chat are
  newer than a read position, behind a cache whose keys hold the chat's revision. The database
  advances the revision of a chat in the trigger of the migration \<open>add_chat_unread_revisions\<close>
  whenever a statement changes what the counters count. Requests are interleaved with statements,
  with evictions and with each other; the mutex of \<open>single_flight\<close> only forbids some of these
  interleavings.
\<close>

section \<open>Revisions\<close>

record unread_store =
  us_db :: chat_db
  us_revisions :: "(snowflake \<times> int) list"
  us_sequence :: int

definition revision_of :: "unread_store \<Rightarrow> snowflake \<Rightarrow> int option" where
  "revision_of s c = map_of (us_revisions s) c"

text \<open>The rows the counters count, and the columns that decide it.\<close>

definition main_row :: "message_row \<Rightarrow> bool" where
  "main_row m \<longleftrightarrow> m_reply_root_id m = None \<and> m_is_published m \<and> m_deleted_at m = None"

definition counted_fields ::
  "message_row \<Rightarrow> snowflake \<times> snowflake \<times> snowflake option \<times> bool \<times> timestamp option \<times> system_message_kind option" where
  "counted_fields m =
     (m_id m, m_chat_id m, m_reply_root_id m, m_is_published m, m_deleted_at m, m_system_kind m)"

text \<open>\<open>INSERT ... SELECT nextval\<close> with \<open>ON CONFLICT DO UPDATE SET revision = nextval\<close>: a conflict
  draws twice.\<close>

definition bump_revision :: "snowflake \<Rightarrow> unread_store \<Rightarrow> unread_store" where
  "bump_revision c s =
     (let drawn = us_sequence s + 1
      in case revision_of s c of
           None \<Rightarrow> s\<lparr>us_revisions := us_revisions s @ [(c, drawn)], us_sequence := drawn\<rparr>
         | Some _ \<Rightarrow> s\<lparr>us_revisions := map (\<lambda>(k, r). (k, if k = c then drawn + 1 else r)) (us_revisions s),
                      us_sequence := drawn + 1\<rparr>)"

definition advance_revisions :: "snowflake list \<Rightarrow> unread_store \<Rightarrow> unread_store" where
  "advance_revisions affected s =
     fold bump_revision (sort (map g_id (select_rows (\<lambda>g. g_id g \<in> set affected) (groups (core (us_db s)))))) s"

definition affected_by_rows :: "message_row list \<Rightarrow> snowflake list" where
  "affected_by_rows rows = remdups (map m_chat_id (filter main_row rows))"

definition changed_pair :: "message_row option \<Rightarrow> message_row option \<Rightarrow> bool" where
  "changed_pair previous following \<longleftrightarrow>
     ((case previous of None \<Rightarrow> False | Some m \<Rightarrow> main_row m) \<or>
      (case following of None \<Rightarrow> False | Some m \<Rightarrow> main_row m)) \<and>
     map_option counted_fields previous \<noteq> map_option counted_fields following"

definition affected_by_update :: "message_row list \<Rightarrow> message_row list \<Rightarrow> snowflake list" where
  "affected_by_update old_rows new_rows =
     remdups (concat (map (\<lambda>i.
       let previous = first_row (\<lambda>m. m_id m = i) old_rows; following = first_row (\<lambda>m. m_id m = i) new_rows
       in if changed_pair previous following
          then map m_chat_id (List.map_filter id [previous, following]) else [])
       (remdups (map m_id (old_rows @ new_rows)))))"

text \<open>
  A statement of any component on the messages, or on anything else. It fails when it violates the
  primary key or the reference to the chat; no code deletes a group.
\<close>

datatype statement =
    InsertMessages "message_row list"
  | DeleteMessages "message_row \<Rightarrow> bool"
  | UpdateMessages "message_row \<Rightarrow> bool" "message_row \<Rightarrow> message_row"
  | OtherStatement chat_db

definition constraints_ok :: "chat_db \<Rightarrow> bool" where
  "constraints_ok db \<longleftrightarrow> distinct_keys m_id (messages db) \<and>
     list_all (\<lambda>m. exists_row (\<lambda>g. g_id g = m_chat_id m) (groups (core db))) (messages db)"

definition with_messages :: "message_row list \<Rightarrow> snowflake list \<Rightarrow> unread_store \<Rightarrow> unread_store option" where
  "with_messages rows affected s =
     (let db = (us_db s)\<lparr>messages := rows\<rparr>
      in if constraints_ok db then Some (advance_revisions affected (s\<lparr>us_db := db\<rparr>)) else None)"

definition run_statement :: "statement \<Rightarrow> unread_store \<Rightarrow> unread_store option" where
  "run_statement st s =
     (let rows = messages (us_db s)
      in case st of
           InsertMessages new_rows \<Rightarrow> with_messages (rows @ new_rows) (affected_by_rows new_rows) s
         | DeleteMessages P \<Rightarrow> with_messages (delete_rows P rows) (affected_by_rows (select_rows P rows)) s
         | UpdateMessages P f \<Rightarrow>
             with_messages (update_rows P f rows)
               (affected_by_update (select_rows P rows) (map f (select_rows P rows))) s
         | OtherStatement db \<Rightarrow>
             if messages db = rows \<and> g_id ` set (groups (core (us_db s))) \<subseteq> g_id ` set (groups (core db))
             then Some (s\<lparr>us_db := db\<rparr>) else None)"

section \<open>Counting\<close>

record chat_unread_cursor =
  cu_hide_membership_messages :: bool
  cu_chat_id :: snowflake
  cu_last_read_message_id :: snowflake

definition unread_cursor :: "snowflake option \<Rightarrow> snowflake" where
  "unread_cursor last_read = (case last_read of None \<Rightarrow> - (2 ^ 63) | Some i \<Rightarrow> i)"

definition counted_row :: "chat_unread_cursor \<Rightarrow> message_row \<Rightarrow> bool" where
  "counted_row c m \<longleftrightarrow>
     m_chat_id m = cu_chat_id c \<and> m_id m > cu_last_read_message_id c \<and> m_deleted_at m = None \<and>
     m_is_published m \<and> m_reply_root_id m = None \<and> (m_deleted_at m = None \<or> m_has_thread m) \<and>
     (cu_hide_membership_messages c \<longrightarrow> not_membership m)"

definition count_query :: "chat_db \<Rightarrow> chat_unread_cursor \<Rightarrow> int" where
  "count_query db c = int (length (take (nat max_unread_count) (filter (counted_row c) (messages db))))"

type_synonym count_cache = "chat_unread_cursor \<times> int \<Rightarrow> int option"
type_synonym counts = "chat_unread_cursor \<Rightarrow> int option"

text \<open>\<open>sort_unstable_by_key\<close> and \<open>dedup\<close>.\<close>

definition batch_cursors :: "chat_unread_cursor list \<Rightarrow> chat_unread_cursor list" where
  "batch_cursors cs =
     remdups_adj (sort_key cu_chat_id (sort_key cu_last_read_message_id (sort_key cu_hide_membership_messages cs)))"

definition load_revisions :: "unread_store \<Rightarrow> chat_unread_cursor list \<Rightarrow> snowflake \<Rightarrow> int option" where
  "load_revisions s cs c = (if c \<in> cu_chat_id ` set cs then revision_of s c else None)"

definition cached_count :: "count_cache \<Rightarrow> (snowflake \<Rightarrow> int option) \<Rightarrow> chat_unread_cursor \<Rightarrow> int option" where
  "cached_count cache revisions c = Option.bind (revisions (cu_chat_id c)) (\<lambda>r. cache (c, r))"

definition count_with_filter ::
  "bool \<Rightarrow> bool \<Rightarrow> unread_store \<Rightarrow> chat_unread_cursor list \<Rightarrow> counts \<times> count_cache \<Rightarrow> counts \<times> count_cache" where
  "count_with_filter hidden publish s misses state =
     fold (\<lambda>c (found, cache).
         let n = count_query (us_db s) c
         in (found(c \<mapsto> n),
             case revision_of s (cu_chat_id c) of
               None \<Rightarrow> cache | Some r \<Rightarrow> if publish then cache((c, r) \<mapsto> n) else cache))
       (filter (\<lambda>c. cu_hide_membership_messages c = hidden) misses) state"

text \<open>Without interruption: the whole function, for a connection in a transaction or not.\<close>

definition count_chat_unread_cursors ::
  "bool \<Rightarrow> unread_store \<Rightarrow> chat_unread_cursor list \<Rightarrow> count_cache \<Rightarrow> counts \<times> count_cache" where
  "count_chat_unread_cursors in_transaction s cs cache =
     (let cs = batch_cursors cs;
          revisions = (if in_transaction then \<lambda>_. None else load_revisions s cs);
          found = (\<lambda>c. if c \<in> set cs then cached_count cache revisions c else None);
          misses = filter (\<lambda>c. found c = None) cs
      in count_with_filter False (\<not> in_transaction) s misses
           (count_with_filter True (\<not> in_transaction) s misses (found, cache)))"

section \<open>Interleaved requests\<close>

text \<open>
  A request outside a transaction in its phases: one query for the revisions, a cache lookup for
  each cursor, and one counting query for each kind of visibility. \<open>rd_seen\<close> collects the states
  of the database during the request; the program has no such variable.
\<close>

datatype reader_phase = Asking | Looking "chat_unread_cursor list" | CountingHidden | CountingShown | Answered

record unread_reader =
  rd_cursors :: "chat_unread_cursor list"
  rd_phase :: reader_phase
  rd_revisions :: "snowflake \<Rightarrow> int option"
  rd_counts :: counts
  rd_misses :: "chat_unread_cursor list"
  rd_seen :: "unread_store list"

definition new_reader :: "unread_store \<Rightarrow> chat_unread_cursor list \<Rightarrow> unread_reader" where
  "new_reader s cs =
     \<lparr>rd_cursors = batch_cursors cs, rd_phase = (if cs = [] then Answered else Asking),
      rd_revisions = (\<lambda>_. None), rd_counts = (\<lambda>_. None), rd_misses = [], rd_seen = [s]\<rparr>"

fun reader_step :: "unread_store \<Rightarrow> unread_reader \<Rightarrow> count_cache \<Rightarrow> unread_reader \<times> count_cache" where
  "reader_step s rd cache =
     (case rd_phase rd of
        Asking \<Rightarrow> (rd\<lparr>rd_revisions := load_revisions s (rd_cursors rd), rd_phase := Looking (rd_cursors rd)\<rparr>, cache)
      | Looking (c # cs) \<Rightarrow>
          (case cached_count cache (rd_revisions rd) c of
             Some n \<Rightarrow> (rd\<lparr>rd_counts := (rd_counts rd)(c \<mapsto> n), rd_phase := Looking cs\<rparr>, cache)
           | None \<Rightarrow> (rd\<lparr>rd_misses := rd_misses rd @ [c], rd_phase := Looking cs\<rparr>, cache))
      | Looking [] \<Rightarrow> (rd\<lparr>rd_phase := CountingHidden\<rparr>, cache)
      | CountingHidden \<Rightarrow>
          let (found, cache) = count_with_filter True True s (rd_misses rd) (rd_counts rd, cache)
          in (rd\<lparr>rd_counts := found, rd_phase := CountingShown\<rparr>, cache)
      | CountingShown \<Rightarrow>
          let (found, cache) = count_with_filter False True s (rd_misses rd) (rd_counts rd, cache)
          in (rd\<lparr>rd_counts := found, rd_phase := Answered\<rparr>, cache)
      | Answered \<Rightarrow> (rd, cache))"

declare reader_step.simps [simp del]

record unread_system =
  sys_store :: unread_store
  sys_cache :: count_cache
  sys_readers :: "unread_reader list"

datatype unread_event =
    Execute statement
  | Evict "chat_unread_cursor \<times> int \<Rightarrow> bool"
  | Ask "chat_unread_cursor list"
  | Resume nat

definition see :: "unread_store \<Rightarrow> unread_reader \<Rightarrow> unread_reader" where
  "see s rd = (if rd_phase rd = Answered then rd else rd\<lparr>rd_seen := rd_seen rd @ [s]\<rparr>)"

fun unread_step :: "unread_event \<Rightarrow> unread_system \<Rightarrow> unread_system" where
  "unread_step (Execute st) w =
     (case run_statement st (sys_store w) of
        None \<Rightarrow> w
      | Some s \<Rightarrow> w\<lparr>sys_store := s, sys_readers := map (see s) (sys_readers w)\<rparr>)"
| "unread_step (Evict gone) w =
     w\<lparr>sys_cache := (\<lambda>k. if gone k then None else sys_cache w k)\<rparr>"
| "unread_step (Ask cs) w =
     w\<lparr>sys_readers := sys_readers w @ [new_reader (sys_store w) cs]\<rparr>"
| "unread_step (Resume i) w =
     (if i < length (sys_readers w)
      then let (rd, cache) = reader_step (sys_store w) (sys_readers w ! i) (sys_cache w)
           in w\<lparr>sys_readers := (sys_readers w)[i := rd], sys_cache := cache\<rparr>
      else w)"

definition run_unread :: "unread_event list \<Rightarrow> unread_system \<Rightarrow> unread_system" where
  "run_unread es w = fold unread_step es w"

definition fresh_unread :: "unread_store \<Rightarrow> unread_system" where
  "fresh_unread s = \<lparr>sys_store = s, sys_cache = (\<lambda>_. None), sys_readers = []\<rparr>"

section \<open>A revision stands for what is counted\<close>

definition main_view ::
  "unread_store \<Rightarrow> snowflake \<Rightarrow>
   (snowflake \<times> snowflake \<times> snowflake option \<times> bool \<times> timestamp option \<times> system_message_kind option) set" where
  "main_view s c = counted_fields ` {m \<in> set (messages (us_db s)). main_row m \<and> m_chat_id m = c}"

lemma counted_fields_main:
  "counted_fields m = counted_fields n \<Longrightarrow> main_row m = main_row n \<and> m_chat_id m = m_chat_id n \<and> m_id m = m_id n"
  by (simp add: counted_fields_def main_row_def)

text \<open>The count is a function of the view.\<close>

lemma count_query_view:
  assumes "distinct_keys m_id (messages (us_db s))"
  shows "count_query (us_db s) c =
    min max_unread_count (int (card {v \<in> main_view s (cu_chat_id c). fst v > cu_last_read_message_id c \<and>
      (cu_hide_membership_messages c \<longrightarrow> (case snd (snd (snd (snd (snd v)))) of
         None \<Rightarrow> True | Some k \<Rightarrow> \<not> is_membership k))}))"
proof -
  let ?rows = "filter (counted_row c) (messages (us_db s))"
  have "{v \<in> main_view s (cu_chat_id c). fst v > cu_last_read_message_id c \<and>
      (cu_hide_membership_messages c \<longrightarrow> (case snd (snd (snd (snd (snd v)))) of
         None \<Rightarrow> True | Some k \<Rightarrow> \<not> is_membership k))} = counted_fields ` set ?rows"
    by (auto simp: main_view_def counted_row_def main_row_def counted_fields_def not_membership_def)
  moreover have "inj_on counted_fields (set ?rows)"
    using assms by (auto simp: inj_on_def dest!: counted_fields_main dest: distinct_keys_eq)
  moreover have "distinct ?rows" using assms by (simp add: distinct_keys_def distinct_map)
  moreover have "card (set ?rows) = length ?rows" if "distinct ?rows" using that by (rule distinct_card)
  ultimately show ?thesis
    by (simp only: card_image count_query_def max_unread_count_def) (simp add: min.commute)
qed

lemma revision_of_bump:
  "revision_of (bump_revision c s) c' =
   (if c' = c then Some (us_sequence s + (if revision_of s c = None then 1 else 2)) else revision_of s c')"
proof -
  have "map_of (map (\<lambda>(k, r). (k, if k = c then v else r)) kvs) c' =
      map_option (\<lambda>r. if c' = c then v else r) (map_of kvs c')" for v and kvs :: "(snowflake \<times> int) list"
    by (induction kvs) auto
  then show ?thesis
    by (auto simp: bump_revision_def revision_of_def Let_def map_add_def split: option.split)
qed

lemma bump_revision_simps [simp]:
  "us_db (bump_revision c s) = us_db s"
  "us_sequence (bump_revision c s) = us_sequence s + (if revision_of s c = None then 1 else 2)"
  by (simp_all add: bump_revision_def Let_def split: option.split)

lemma bump_revision_bounded:
  "(\<And>c r. revision_of s c = Some r \<Longrightarrow> r \<le> us_sequence s) \<Longrightarrow>
   revision_of (bump_revision c s) c' = Some r \<Longrightarrow> r \<le> us_sequence (bump_revision c s)"
  by (fastforce simp: revision_of_bump split: if_splits)

definition store_ok :: "unread_store \<Rightarrow> bool" where
  "store_ok s \<longleftrightarrow> constraints_ok (us_db s) \<and> (\<forall>c r. revision_of s c = Some r \<longrightarrow> r \<le> us_sequence s)"

lemma bump_revisions:
  "us_db (fold bump_revision cs s) = us_db s \<and> us_sequence s \<le> us_sequence (fold bump_revision cs s) \<and>
   (\<forall>c. if c \<in> set cs then \<exists>r. revision_of (fold bump_revision cs s) c = Some r \<and> us_sequence s < r
        else revision_of (fold bump_revision cs s) c = revision_of s c) \<and>
   ((\<forall>c r. revision_of s c = Some r \<longrightarrow> r \<le> us_sequence s) \<longrightarrow>
    (\<forall>c r. revision_of (fold bump_revision cs s) c = Some r \<longrightarrow> r \<le> us_sequence (fold bump_revision cs s)))"
proof (induction cs arbitrary: s)
  case (Cons c cs)
  let ?s = "bump_revision c s"
  note rest = Cons.IH [of ?s]
  have grows: "us_sequence s < us_sequence ?s" by simp
  have "\<exists>r. revision_of (fold bump_revision (c # cs) s) c' = Some r \<and> us_sequence s < r"
    if c': "c' \<in> set (c # cs)" for c'
  proof (cases "c' \<in> set cs")
    case True
    with rest obtain r where "revision_of (fold bump_revision cs ?s) c' = Some r" "us_sequence ?s < r" by metis
    with grows show ?thesis by (intro exI [of _ r]) simp
  next
    case False
    with c' have [simp]: "c' = c" by simp
    from rest False have "revision_of (fold bump_revision cs ?s) c = revision_of ?s c" by (metis \<open>c' = c\<close>)
    then show ?thesis by (simp add: revision_of_bump)
  qed
  moreover have "revision_of (fold bump_revision (c # cs) s) c' = revision_of s c'" if "c' \<notin> set (c # cs)" for c'
  proof -
    from that rest have "revision_of (fold bump_revision cs ?s) c' = revision_of ?s c'" by simp
    with that show ?thesis by (simp add: revision_of_bump)
  qed
  moreover have "\<forall>c' r. revision_of ?s c' = Some r \<longrightarrow> r \<le> us_sequence ?s"
    if "\<forall>c r. revision_of s c = Some r \<longrightarrow> r \<le> us_sequence s"
    using bump_revision_bounded [of s c] that by blast
  moreover have "us_sequence s \<le> us_sequence (fold bump_revision (c # cs) s)"
    "us_db (fold bump_revision (c # cs) s) = us_db s"
    using rest grows by simp_all
  ultimately show ?case using rest by (simp del: bump_revision_simps(2))
qed simp

text \<open>Every statement leaves, for each chat, either the revision and what is counted, or a new
  revision that was never used.\<close>

definition chat_moved :: "unread_store \<Rightarrow> unread_store \<Rightarrow> snowflake \<Rightarrow> bool" where
  "chat_moved s s' c \<longleftrightarrow>
     (revision_of s' c = revision_of s c \<and> main_view s' c = main_view s c) \<or>
     (\<exists>r. revision_of s' c = Some r \<and> us_sequence s < r)"

lemma main_view_simps [simp]: "main_view (s\<lparr>us_revisions := r\<rparr>) c = main_view s c"
  "main_view (s\<lparr>us_sequence := i\<rparr>) c = main_view s c"
  by (simp_all add: main_view_def)

lemma main_view_cong: "messages (us_db s) = messages (us_db t) \<Longrightarrow> main_view s c = main_view t c"
  by (simp add: main_view_def)

lemma with_messages_effect:
  assumes ok: "store_ok s" and run: "with_messages rows affected s = Some s'"
    and same: "\<And>c. c \<notin> set affected \<Longrightarrow> main_view (s\<lparr>us_db := (us_db s)\<lparr>messages := rows\<rparr>\<rparr>) c = main_view s c"
  shows "store_ok s' \<and> us_sequence s \<le> us_sequence s' \<and> us_db s' = (us_db s)\<lparr>messages := rows\<rparr> \<and>
    (\<forall>c. chat_moved s s' c)"
proof -
  let ?t = "s\<lparr>us_db := (us_db s)\<lparr>messages := rows\<rparr>\<rparr>"
  let ?cs = "sort (map g_id (select_rows (\<lambda>g. g_id g \<in> set affected) (groups (core (us_db ?t)))))"
  from run have con: "constraints_ok (us_db ?t)" and s': "s' = fold bump_revision ?cs ?t"
    by (auto simp: with_messages_def Let_def advance_revisions_def split: if_splits)
  have keep: "revision_of ?t = revision_of s" by (simp add: revision_of_def fun_eq_iff)
  note bumped = bump_revisions [of ?cs ?t, folded s', unfolded keep]
  have ok': "store_ok s'" using ok con bumped by (simp add: store_ok_def)
  have "chat_moved s s' c" for c
  proof (cases "c \<in> set ?cs")
    case True
    with bumped have "\<exists>r. revision_of s' c = Some r \<and> us_sequence ?t < r" by metis
    then show ?thesis by (simp add: chat_moved_def)
  next
    case False
    with bumped have rev: "revision_of s' c = revision_of s c" by metis
    have "main_view s' c = main_view ?t c" using bumped by (intro main_view_cong) simp
    also have "\<dots> = main_view s c"
    proof (cases "c \<in> set affected")
      case True
      with False have none: "c \<notin> g_id ` set (groups (core (us_db s)))" by (auto simp: row_simps)
      with con have "main_view ?t c = {}"
        by (force simp: main_view_def constraints_ok_def list_all_iff row_simps image_iff)
      moreover from none ok have "main_view s c = {}"
        by (force simp: main_view_def store_ok_def constraints_ok_def list_all_iff row_simps image_iff)
      ultimately show ?thesis by simp
    qed (rule same)
    finally show ?thesis using rev by (simp add: chat_moved_def)
  qed
  with ok' bumped show ?thesis by simp
qed

lemma unchanged_row:
  assumes "c \<notin> set (affected_by_update olds news)"
    and "first_row (\<lambda>m. m_id m = i) olds = p" and "first_row (\<lambda>m. m_id m = i) news = q"
    and "(\<exists>m. p = Some m \<and> main_row m \<and> m_chat_id m = c) \<or> (\<exists>m. q = Some m \<and> main_row m \<and> m_chat_id m = c)"
  shows "map_option counted_fields p = map_option counted_fields q"
proof (rule ccontr)
  assume differ: "map_option counted_fields p \<noteq> map_option counted_fields q"
  have "i \<in> set (map m_id (olds @ news))"
    using assms(2-4) by (auto dest!: first_row_Some)
  moreover have "changed_pair p q" using assms(4) differ by (auto simp: changed_pair_def)
  moreover have "c \<in> set (map m_chat_id (List.map_filter id [p, q]))"
    using assms(4) by (auto simp: List.map_filter_def)
  ultimately have "c \<in> set (affected_by_update olds news)"
    unfolding affected_by_update_def set_remdups set_concat set_map Let_def using assms(2,3) by force
  with assms(1) show False by simp
qed

lemma update_view:
  assumes keys: "distinct_keys m_id rows" "distinct_keys m_id (update_rows P f rows)"
    and c: "c \<notin> set (affected_by_update (select_rows P rows) (map f (select_rows P rows)))"
  shows "counted_fields ` {m \<in> set (update_rows P f rows). main_row m \<and> m_chat_id m = c} =
    counted_fields ` {m \<in> set rows. main_row m \<and> m_chat_id m = c}" (is "?A = ?B")
proof -
  let ?olds = "select_rows P rows" and ?news = "map f (select_rows P rows)"
  have row_of: "first_row (\<lambda>m. m_id m = m_id x) xs = Some x"
    if "distinct_keys m_id ys" "set xs \<subseteq> set ys" "x \<in> set xs" for x and xs ys :: "message_row list"
    using that by (intro first_row_unique) (auto dest: distinct_keys_eq)
  have news: "set ?news \<subseteq> set (update_rows P f rows)" by (force simp: row_simps)
  have olds: "set ?olds \<subseteq> set rows" by (auto simp: row_simps)
  show ?thesis
  proof (intro subset_antisym subsetI)
    fix v assume "v \<in> ?A"
    then obtain m where m: "m \<in> set rows" "v = counted_fields (if P m then f m else m)"
        "main_row (if P m then f m else m)" "m_chat_id (if P m then f m else m) = c"
      by (auto simp: row_simps)
    show "v \<in> ?B"
    proof (cases "P m")
      case True
      with m(1) have new: "f m \<in> set ?news" by (auto simp: row_simps)
      have "map_option counted_fields (first_row (\<lambda>x. m_id x = m_id (f m)) ?olds) = Some (counted_fields (f m))"
        using unchanged_row [OF c refl row_of [OF keys(2) news new]] m True by simp
      then obtain x where "first_row (\<lambda>x. m_id x = m_id (f m)) ?olds = Some x" "counted_fields x = counted_fields (f m)"
        by auto
      with m True olds counted_fields_main [of x "f m"] show ?thesis
        by (auto dest!: first_row_Some intro!: image_eqI [of _ counted_fields x])
    qed (use m in auto)
  next
    fix v assume "v \<in> ?B"
    then obtain m where m: "m \<in> set rows" "v = counted_fields m" "main_row m" "m_chat_id m = c" by auto
    show "v \<in> ?A"
    proof (cases "P m")
      case True
      with m(1) have old: "m \<in> set ?olds" by (auto simp: row_simps)
      have "map_option counted_fields (first_row (\<lambda>x. m_id x = m_id m) ?news) = Some (counted_fields m)"
        using unchanged_row [OF c row_of [OF keys(1) olds old] refl, symmetric] m by simp
      then obtain x where "first_row (\<lambda>x. m_id x = m_id m) ?news = Some x" "counted_fields x = counted_fields m"
        by auto
      with m news counted_fields_main [of x m] show ?thesis
        by (intro image_eqI [of _ counted_fields x]) (auto dest!: first_row_Some)
    next
      case False
      with m show ?thesis by (intro image_eqI [of _ counted_fields m]) (force simp: row_simps)+
    qed
  qed
qed

lemma statement_effect:
  assumes ok: "store_ok s" and run: "run_statement st s = Some s'"
  shows "store_ok s' \<and> us_sequence s \<le> us_sequence s' \<and> (\<forall>c. chat_moved s s' c)"
proof -
  have keys: "distinct_keys m_id (messages (us_db s))" using ok by (simp add: store_ok_def constraints_ok_def)
  show ?thesis
  proof (cases st)
    case (InsertMessages new_rows)
    with run have run: "with_messages (messages (us_db s) @ new_rows) (affected_by_rows new_rows) s = Some s'"
      by (simp add: run_statement_def Let_def)
    show ?thesis
      using with_messages_effect [OF ok run] by (auto simp: main_view_def affected_by_rows_def)
  next
    case (DeleteMessages P)
    with run have run: "with_messages (delete_rows P (messages (us_db s)))
        (affected_by_rows (select_rows P (messages (us_db s)))) s = Some s'"
      by (simp add: run_statement_def Let_def)
    show ?thesis
      using with_messages_effect [OF ok run] by (auto simp: main_view_def affected_by_rows_def row_simps)
  next
    case (UpdateMessages P f)
    with run have run: "with_messages (update_rows P f (messages (us_db s)))
        (affected_by_update (select_rows P (messages (us_db s))) (map f (select_rows P (messages (us_db s))))) s = Some s'"
      by (simp add: run_statement_def Let_def)
    then have "distinct_keys m_id (update_rows P f (messages (us_db s)))"
      by (auto simp: with_messages_def Let_def constraints_ok_def split: if_splits)
    from with_messages_effect [OF ok run] update_view [OF keys this] show ?thesis
      by (simp add: main_view_def)
  next
    case (OtherStatement db)
    with run have s': "s' = s\<lparr>us_db := db\<rparr>" "messages db = messages (us_db s)"
        "g_id ` set (groups (core (us_db s))) \<subseteq> g_id ` set (groups (core db))"
      by (auto simp: run_statement_def Let_def split: if_splits)
    have "revision_of s' = revision_of s" by (simp add: s'(1) revision_of_def fun_eq_iff)
    moreover have "main_view s' c = main_view s c" for c by (rule main_view_cong) (simp add: s')
    moreover have "constraints_ok db"
      using ok s'(2,3) by (fastforce simp: store_ok_def constraints_ok_def list_all_iff row_simps)
    ultimately show ?thesis using ok s'(1) by (simp add: store_ok_def chat_moved_def)
  qed
qed

section \<open>Answers are current\<close>

text \<open>
  What holds between the database now, the cache, and a state of the database that a request has
  seen: where they have a revision in common they have what is counted in common.
\<close>

definition cache_true :: "count_cache \<Rightarrow> unread_store \<Rightarrow> bool" where
  "cache_true cache s \<longleftrightarrow> (\<forall>c r n. cache (c, r) = Some n \<longrightarrow>
     revision_of s (cu_chat_id c) = Some r \<longrightarrow> n = count_query (us_db s) c)"

definition past_of :: "unread_store \<Rightarrow> count_cache \<Rightarrow> unread_store \<Rightarrow> bool" where
  "past_of current cache s \<longleftrightarrow>
     distinct_keys m_id (messages (us_db s)) \<and> cache_true cache s \<and>
     (\<forall>c r. revision_of s c = Some r \<longrightarrow> r \<le> us_sequence current \<and>
        (revision_of current c = Some r \<longrightarrow> main_view s c = main_view current c))"

definition covered :: "unread_reader \<Rightarrow> chat_unread_cursor set" where
  "covered rd = dom (rd_counts rd) \<union>
     (case rd_phase rd of
        Asking \<Rightarrow> set (rd_cursors rd)
      | Looking cs \<Rightarrow> set (rd_misses rd) \<union> set cs
      | CountingHidden \<Rightarrow> set (rd_misses rd)
      | CountingShown \<Rightarrow> {c \<in> set (rd_misses rd). \<not> cu_hide_membership_messages c}
      | Answered \<Rightarrow> {})"

definition reader_ok :: "unread_store \<Rightarrow> count_cache \<Rightarrow> unread_reader \<Rightarrow> bool" where
  "reader_ok current cache rd \<longleftrightarrow>
     (\<forall>s \<in> set (rd_seen rd). past_of current cache s) \<and>
     (rd_phase rd \<noteq> Answered \<longrightarrow> current \<in> set (rd_seen rd)) \<and>
     (\<forall>c r. rd_revisions rd c = Some r \<longrightarrow> (\<exists>s \<in> set (rd_seen rd). revision_of s c = Some r)) \<and>
     (\<forall>c n. rd_counts rd c = Some n \<longrightarrow> (\<exists>s \<in> set (rd_seen rd). n = count_query (us_db s) c)) \<and>
     set (rd_cursors rd) \<subseteq> covered rd"

definition system_ok :: "unread_system \<Rightarrow> bool" where
  "system_ok w \<longleftrightarrow> store_ok (sys_store w) \<and> past_of (sys_store w) (sys_cache w) (sys_store w) \<and>
     (\<forall>c r n. sys_cache w (c, r) = Some n \<longrightarrow> r \<le> us_sequence (sys_store w)) \<and>
     (\<forall>rd \<in> set (sys_readers w). reader_ok (sys_store w) (sys_cache w) rd)"

lemma same_view_same_count:
  "distinct_keys m_id (messages (us_db s)) \<Longrightarrow> distinct_keys m_id (messages (us_db t)) \<Longrightarrow>
   main_view s (cu_chat_id c) = main_view t (cu_chat_id c) \<Longrightarrow> count_query (us_db s) c = count_query (us_db t) c"
  by (simp add: count_query_view)

text \<open>The cache grows by counts of the current state under its revisions.\<close>

definition grown :: "unread_store \<Rightarrow> count_cache \<Rightarrow> count_cache \<Rightarrow> bool" where
  "grown current cache cache' \<longleftrightarrow> (\<forall>c r n. cache' (c, r) = Some n \<longrightarrow> cache (c, r) = Some n \<or>
     (revision_of current (cu_chat_id c) = Some r \<and> n = count_query (us_db current) c))"

lemma past_grown:
  assumes past: "past_of current cache s" and ok: "store_ok current" and grown: "grown current cache cache'"
  shows "past_of current cache' s"
proof -
  have keys: "distinct_keys m_id (messages (us_db current))"
    using ok by (simp add: store_ok_def constraints_ok_def)
  have "n = count_query (us_db s) c"
    if "cache' (c, r) = Some n" and rev: "revision_of s (cu_chat_id c) = Some r" for c r n
    using grown that(1) unfolding grown_def
  proof (elim allE impE disjE)
    assume "revision_of current (cu_chat_id c) = Some r \<and> n = count_query (us_db current) c"
    moreover from this past rev have "main_view s (cu_chat_id c) = main_view current (cu_chat_id c)"
      unfolding past_of_def by blast
    ultimately show ?thesis using past keys same_view_same_count [of s current c] by (simp add: past_of_def)
  qed (use past rev in \<open>auto simp: past_of_def cache_true_def\<close>)
  with past show ?thesis by (simp add: past_of_def cache_true_def)
qed

lemma past_statement:
  assumes past: "past_of current cache s" and ok: "store_ok current" and run: "run_statement st current = Some next_store"
  shows "past_of next_store cache s"
proof -
  note effect = statement_effect [OF ok run]
  have "main_view s c = main_view next_store c"
    if r: "revision_of s c = Some r" "revision_of next_store c = Some r" for c r
  proof -
    from past r(1) have "r \<le> us_sequence current" by (simp add: past_of_def)
    with effect r(2) have "revision_of next_store c = revision_of current c" "main_view next_store c = main_view current c"
      unfolding chat_moved_def by fastforce+
    with past r show ?thesis unfolding past_of_def by metis
  qed
  with past effect show ?thesis by (fastforce simp: past_of_def)
qed

lemma current_statement:
  assumes ok: "store_ok current" and past: "past_of current cache current"
    and bounded: "\<forall>c r n. cache (c, r) = Some n \<longrightarrow> r \<le> us_sequence current"
    and run: "run_statement st current = Some next_store"
  shows "past_of next_store cache next_store"
proof -
  note effect = statement_effect [OF ok run]
  have keys: "distinct_keys m_id (messages (us_db current))" "distinct_keys m_id (messages (us_db next_store))"
    using ok effect by (simp_all add: store_ok_def constraints_ok_def)
  have "n = count_query (us_db next_store) c"
    if n: "cache (c, r) = Some n" and r: "revision_of next_store (cu_chat_id c) = Some r" for c r n
  proof -
    from bounded n have "r \<le> us_sequence current" by blast
    with effect r have same: "revision_of next_store (cu_chat_id c) = revision_of current (cu_chat_id c)"
        "main_view next_store (cu_chat_id c) = main_view current (cu_chat_id c)"
      unfolding chat_moved_def by fastforce+
    from past n r same(1) have "n = count_query (us_db current) c" by (simp add: past_of_def cache_true_def)
    with same(2) keys show ?thesis using same_view_same_count [of next_store current c] by simp
  qed
  with keys effect show ?thesis by (simp add: past_of_def cache_true_def store_ok_def)
qed

lemma count_with_filter_effect:
  "count_with_filter hidden publish s misses (found, cache) = (found', cache') \<Longrightarrow>
   grown s cache cache' \<and>
   found' = (\<lambda>c. if c \<in> set misses \<and> cu_hide_membership_messages c = hidden
     then Some (count_query (us_db s) c) else found c)"
proof -
  let ?f = "\<lambda>c (found, cache). let n = count_query (us_db s) c
         in (found(c \<mapsto> n),
             case revision_of s (cu_chat_id c) of
               None \<Rightarrow> cache | Some r \<Rightarrow> if publish then cache((c, r) \<mapsto> n) else cache)"
  have *: "fold ?f cs (found, cache) = (found', cache') \<Longrightarrow> grown s cache cache' \<and>
      found' = (\<lambda>c. if c \<in> set cs then Some (count_query (us_db s) c) else found c)" for cs found cache
  proof (induction cs arbitrary: found cache)
    case (Cons c cs)
    obtain f1 c1 where one: "?f c (found, cache) = (f1, c1)" by (cases "?f c (found, cache)")
    have "fold ?f cs (f1, c1) = (found', cache')" using Cons.prems unfolding fold_simps one .
    note IH = Cons.IH [OF this]
    from one have "f1 = found(c \<mapsto> count_query (us_db s) c)" "grown s cache c1"
      by (auto simp: grown_def Let_def split: option.splits if_splits)
    moreover from this IH have "grown s cache cache'" unfolding grown_def by metis
    ultimately show ?case using IH by (auto simp: fun_eq_iff)
  qed (simp add: grown_def)
  assume "count_with_filter hidden publish s misses (found, cache) = (found', cache')"
  from * [OF this [unfolded count_with_filter_def]] show ?thesis by (auto simp: fun_eq_iff)
qed

lemma grown_refl [simp]: "grown s cache cache"
  by (simp add: grown_def)

lemma cached_count_true:
  assumes "reader_ok current cache rd" and "cached_count cache (rd_revisions rd) c = Some n"
  shows "\<exists>s \<in> set (rd_seen rd). n = count_query (us_db s) c"
proof -
  from assms(2) obtain r where r: "rd_revisions rd (cu_chat_id c) = Some r" "cache (c, r) = Some n"
    by (auto simp: cached_count_def bind_eq_Some_conv)
  with assms(1) obtain s where s: "s \<in> set (rd_seen rd)" "revision_of s (cu_chat_id c) = Some r"
    unfolding reader_ok_def by metis
  with assms(1) r(2) have "n = count_query (us_db s) c"
    unfolding reader_ok_def past_of_def cache_true_def by metis
  with s(1) show ?thesis by blast
qed

lemma reader_step_ok:
  assumes ok: "store_ok current" and rd: "reader_ok current cache rd"
    and run: "reader_step current rd cache = (rd', cache')"
  shows "grown current cache cache' \<and> reader_ok current cache' rd'"
proof -
  have past: "past_of current cache'' s" if "grown current cache cache''" "s \<in> set (rd_seen rd)" for s cache''
    using rd ok that past_grown unfolding reader_ok_def by blast
  show ?thesis
  proof (cases "rd_phase rd")
    case Asking
    with run have "rd' = rd\<lparr>rd_revisions := load_revisions current (rd_cursors rd), rd_phase := Looking (rd_cursors rd)\<rparr>"
        "cache' = cache" by (auto simp: reader_step.simps)
    with rd Asking show ?thesis
      by (auto simp: reader_ok_def covered_def load_revisions_def split: if_splits)
  next
    case (Looking cs)
    show ?thesis
    proof (cases cs)
      case Nil
      with Looking run have "rd' = rd\<lparr>rd_phase := CountingHidden\<rparr>" "cache' = cache" by (auto simp: reader_step.simps)
      with rd Looking Nil show ?thesis by (auto simp: reader_ok_def covered_def)
    next
      case (Cons c cs')
      show ?thesis
      proof (cases "cached_count cache (rd_revisions rd) c")
        case None
        with Looking Cons run have "rd' = rd\<lparr>rd_misses := rd_misses rd @ [c], rd_phase := Looking cs'\<rparr>" "cache' = cache"
          by (auto simp: reader_step.simps)
        with rd Looking Cons show ?thesis by (auto simp: reader_ok_def covered_def)
      next
        case (Some n)
        with Looking Cons run have "rd' = rd\<lparr>rd_counts := (rd_counts rd)(c \<mapsto> n), rd_phase := Looking cs'\<rparr>" "cache' = cache"
          by (auto simp: reader_step.simps)
        with rd Looking Cons cached_count_true [OF rd Some] show ?thesis
          by (auto simp: reader_ok_def covered_def)
      qed
    qed
  next
    case CountingHidden
    then obtain found where one: "count_with_filter True True current (rd_misses rd) (rd_counts rd, cache) = (found, cache')"
        and rd': "rd' = rd\<lparr>rd_counts := found, rd_phase := CountingShown\<rparr>"
      using run by (auto simp: reader_step.simps split: prod.splits)
    from count_with_filter_effect [OF one] rd past CountingHidden show ?thesis
      unfolding rd' reader_ok_def covered_def by (auto split: if_splits)
  next
    case CountingShown
    then obtain found where one: "count_with_filter False True current (rd_misses rd) (rd_counts rd, cache) = (found, cache')"
        and rd': "rd' = rd\<lparr>rd_counts := found, rd_phase := Answered\<rparr>"
      using run by (auto simp: reader_step.simps split: prod.splits)
    from count_with_filter_effect [OF one] rd past CountingShown show ?thesis
      unfolding rd' reader_ok_def covered_def by (auto split: if_splits)
  next
    case Answered
    with run rd show ?thesis by (auto simp: reader_step.simps)
  qed
qed

lemma reader_grown:
  "store_ok current \<Longrightarrow> grown current cache cache' \<Longrightarrow> reader_ok current cache rd \<Longrightarrow> reader_ok current cache' rd"
  unfolding reader_ok_def using past_grown by blast

lemma covered_seen [simp]: "covered (rd\<lparr>rd_seen := ss\<rparr>) = covered rd"
  by (simp add: covered_def split: reader_phase.split)

lemma reader_statement:
  assumes "store_ok current" and "reader_ok current cache rd" and "run_statement st current = Some next_store"
    and "past_of next_store cache next_store"
  shows "reader_ok next_store cache (see next_store rd)"
  using assms(2,4) past_statement [OF _ assms(1,3)]
  by (cases "rd_phase rd = Answered") (auto simp: reader_ok_def see_def)

lemma system_step_ok:
  assumes "system_ok w"
  shows "system_ok (unread_step e w)"
proof (cases e)
  case (Execute st)
  show ?thesis
  proof (cases "run_statement st (sys_store w)")
    case None
    with assms Execute show ?thesis by simp
  next
    case (Some s)
    from assms have ok: "store_ok (sys_store w)" by (simp add: system_ok_def)
    have now: "past_of s (sys_cache w) s"
      using assms Some by (intro current_statement [OF ok _ _ Some]) (auto simp: system_ok_def)
    have "\<forall>c r n. sys_cache w (c, r) = Some n \<longrightarrow> r \<le> us_sequence s"
      using assms statement_effect [OF ok Some] by (fastforce simp: system_ok_def)
    with now show ?thesis
      using assms Execute Some statement_effect [OF ok Some] reader_statement [OF ok _ Some now]
      by (auto simp: system_ok_def)
  qed
next
  case (Evict gone)
  have "grown (sys_store w) (sys_cache w) (\<lambda>k. if gone k then None else sys_cache w k)"
    by (simp add: grown_def)
  with assms Evict show ?thesis
    by (auto simp: system_ok_def intro: past_grown reader_grown split: if_splits)
next
  case (Ask cs)
  have "reader_ok (sys_store w) (sys_cache w) (new_reader (sys_store w) cs)"
    using assms by (auto simp: system_ok_def reader_ok_def new_reader_def covered_def batch_cursors_def)
  with assms Ask show ?thesis by (auto simp: system_ok_def)
next
  case (Resume i)
  show ?thesis
  proof (cases "i < length (sys_readers w)")
    case True
    obtain rd cache where step: "reader_step (sys_store w) (sys_readers w ! i) (sys_cache w) = (rd, cache)"
      by (cases "reader_step (sys_store w) (sys_readers w ! i) (sys_cache w)")
    have ok: "store_ok (sys_store w)" using assms by (simp add: system_ok_def)
    have "reader_ok (sys_store w) (sys_cache w) (sys_readers w ! i)" using assms True by (simp add: system_ok_def)
    note next_ok = reader_step_ok [OF ok this step]
    have "r \<le> us_sequence (sys_store w)" if "cache (c, r) = Some n" for c r n
      using assms ok next_ok that by (fastforce simp: system_ok_def grown_def store_ok_def)
    then show ?thesis
      using assms Resume True step next_ok
      by (auto simp: system_ok_def intro: past_grown reader_grown dest!: set_update_subset_insert [THEN subsetD])
  qed (use assms Resume in simp)
qed

interpretation unread: total_machine unread_step system_ok
  by unfold_locales (rule system_step_ok)

lemma system_ok_fresh: "store_ok s \<Longrightarrow> system_ok (fresh_unread s)"
  by (auto simp: system_ok_def fresh_unread_def past_of_def cache_true_def store_ok_def constraints_ok_def)

lemma run_unread_ok: "store_ok s \<Longrightarrow> system_ok (run_unread es (fresh_unread s))"
  unfolding run_unread_def by (intro unread.run_inv system_ok_fresh)

text \<open>C5: Whatever statements commit, entries leave the cache and other requests run meanwhile, every
  count that a request for unread counters answers was the number of unread messages, capped, in a
  state the database had during that request; none of the requested counters is missing.\<close>

theorem unread_answers_current:
  assumes "store_ok s" and "rd \<in> set (sys_readers (run_unread es (fresh_unread s)))"
    and "rd_phase rd = Answered" and "c \<in> set (rd_cursors rd)"
  shows "\<exists>t \<in> set (rd_seen rd). rd_counts rd c = Some (count_query (us_db t) c)"
proof -
  have rd: "reader_ok (sys_store (run_unread es (fresh_unread s))) (sys_cache (run_unread es (fresh_unread s))) rd"
    using run_unread_ok [OF assms(1)] assms(2) by (simp add: system_ok_def)
  then have "c \<in> dom (rd_counts rd)" using assms(3,4) by (auto simp: reader_ok_def covered_def)
  with rd show ?thesis unfolding reader_ok_def by (metis domD)
qed

lemma sample_store_ok: "store_ok \<lparr>us_db = sample_group_chat, us_revisions = [(10, 0)], us_sequence = 0\<rparr>"
proof -
  have "constraints_ok sample_group_chat" by code_simp
  then show ?thesis by (simp add: store_ok_def revision_of_def)
qed

theorem unread_answers_current_witness:
  "let c = \<lparr>cu_hide_membership_messages = False, cu_chat_id = 10, cu_last_read_message_id = 100\<rparr>;
       w = run_unread [Ask [c], Resume 0, Resume 0, Execute (DeleteMessages (\<lambda>m. m_id m = 103)), Resume 0, Resume 0, Resume 0]
         (fresh_unread \<lparr>us_db = sample_group_chat, us_revisions = [(10, 0)], us_sequence = 0\<rparr>)
   in \<exists>t \<in> set (rd_seen (hd (sys_readers w))). rd_counts (hd (sys_readers w)) c = Some (count_query (us_db t) c)"
proof -
  let ?c = "\<lparr>cu_hide_membership_messages = False, cu_chat_id = 10, cu_last_read_message_id = 100\<rparr>"
  let ?s = "\<lparr>us_db = sample_group_chat, us_revisions = [(10, 0)], us_sequence = 0\<rparr>"
  let ?es = "[Ask [?c], Resume 0, Resume 0, Execute (DeleteMessages (\<lambda>m. m_id m = 103)), Resume 0, Resume 0, Resume 0]"
  let ?rd = "hd (sys_readers (run_unread ?es (fresh_unread ?s)))"
  have "length (sys_readers (run_unread ?es (fresh_unread ?s))) = 1" by code_simp
  then have "?rd \<in> set (sys_readers (run_unread ?es (fresh_unread ?s)))"
    by (intro hd_in_set) (metis length_0_conv zero_neq_one)
  moreover have "rd_phase ?rd = Answered" by code_simp
  moreover have "list_ex (\<lambda>c. c = ?c) (rd_cursors ?rd)" by code_simp
  then have "?c \<in> set (rd_cursors ?rd)" by (auto simp: list_ex_iff)
  ultimately show ?thesis
    using unread_answers_current [OF sample_store_ok, of ?rd ?es ?c] unfolding Let_def by blast
qed

text \<open>Asking without interruption, inside a transaction or not, and with whatever the cache then
  holds, returns for each cursor exactly what counting its messages returns.\<close>

theorem unread_cache_transparent:
  assumes "store_ok s" and "w = run_unread es (fresh_unread s)"
  shows "fst (count_chat_unread_cursors in_transaction (sys_store w) cs (sys_cache w)) =
    (\<lambda>c. if c \<in> set cs then Some (count_query (us_db (sys_store w)) c) else None)"
proof -
  let ?s = "sys_store w" and ?cache = "sys_cache w" and ?cs = "batch_cursors cs"
  let ?revisions = "if in_transaction then \<lambda>_. None else load_revisions ?s ?cs"
  define found where "found = (\<lambda>c. if c \<in> set ?cs then cached_count ?cache ?revisions c else None)"
  let ?misses = "filter (\<lambda>c. found c = None) ?cs"
  have true: "cache_true ?cache ?s"
    using run_unread_ok [OF assms(1), of es] assms(2) by (simp add: system_ok_def past_of_def)
  have hit: "n = count_query (us_db ?s) c" if "found c = Some n" for c n
    using that true
    by (auto simp: found_def cached_count_def bind_eq_Some_conv load_revisions_def cache_true_def split: if_splits)
  have asked: "set ?cs = set cs" by (simp add: batch_cursors_def)
  then have other: "found c = None" if "c \<notin> set cs" for c using that by (simp add: found_def)
  obtain f1 c1 where one: "count_with_filter True (\<not> in_transaction) ?s ?misses (found, ?cache) = (f1, c1)"
    by (cases "count_with_filter True (\<not> in_transaction) ?s ?misses (found, ?cache)")
  obtain f2 c2 where two: "count_with_filter False (\<not> in_transaction) ?s ?misses (f1, c1) = (f2, c2)"
    by (cases "count_with_filter False (\<not> in_transaction) ?s ?misses (f1, c1)")
  have "fst (count_chat_unread_cursors in_transaction ?s cs ?cache) = f2"
    by (simp only: count_chat_unread_cursors_def Let_def one [unfolded found_def] two [unfolded found_def] fst_conv)
  moreover have "f2 c = (if c \<in> set cs then Some (count_query (us_db ?s) c) else None)" for c
    using count_with_filter_effect [OF one] count_with_filter_effect [OF two] hit [of c] other [of c] asked
    by (cases "found c") auto
  ultimately show ?thesis by (simp add: fun_eq_iff)
qed

theorem unread_cache_transparent_witness:
  "let s = \<lparr>us_db = sample_group_chat, us_revisions = [(10, 0)], us_sequence = 0\<rparr>;
       c = \<lparr>cu_hide_membership_messages = True, cu_chat_id = 10, cu_last_read_message_id = 100\<rparr>;
       w = run_unread [Ask [c], Resume 0, Resume 0, Resume 0, Resume 0] (fresh_unread s)
   in fst (count_chat_unread_cursors False (sys_store w) [c] (sys_cache w)) c =
     Some (count_query (us_db (sys_store w)) c)"
  unfolding Let_def by (subst unread_cache_transparent [OF sample_store_ok refl]) simp

end
