(* ===== verification/Reactions.thy ===== *)
theory Reactions
  imports Message_Send Unread_Counts
begin

text \<open>
  Reactions: \<open>backend/src/services/reactions.rs\<close>, the endpoints of \<open>services/api/chats/reactions.rs\<close>,
  and the unread reactions of \<open>services/unread/service.rs\<close> with their endpoints in
  \<open>services/api/chats/mod.rs\<close>. A message's \<open>has_reactions\<close> flag says whether it has rows; the author
  reads reactions by moving a time in the membership or thread state. Adding a reaction is one
  transaction. Removing one is three statements of their own, so they are steps that other requests
  may come between.
\<close>

section \<open>Rows\<close>

definition reaction_key :: "message_reaction \<Rightarrow> snowflake \<times> uid \<times> ustr" where
  "reaction_key r = (mr_message_id r, mr_user_uid r, mr_emoji r)"

definition is_reaction_of :: "snowflake \<times> uid \<times> ustr \<Rightarrow> message_reaction \<Rightarrow> bool" where
  "is_reaction_of k r \<longleftrightarrow>
     mr_message_id r = fst k \<and> mr_user_uid r = fst (snd k) \<and> mr_emoji r = snd (snd k)"

interpretation reaction_table: keyed_table reaction_key is_reaction_of
  by unfold_locales (auto simp: reaction_key_def is_reaction_of_def)

definition set_has_reactions :: "snowflake \<Rightarrow> bool \<Rightarrow> chat_db \<Rightarrow> chat_db" where
  "set_has_reactions message_id flag db =
     db\<lparr>messages := update_rows (\<lambda>m. m_id m = message_id) (\<lambda>m. m\<lparr>m_has_reactions := flag\<rparr>) (messages db)\<rparr>"

text \<open>\<open>clock\<close> is the database's \<open>clock_timestamp()\<close> once \<open>lock_scope\<close> has its lock. The result is the
  number of rows inserted.\<close>

definition insert_reaction ::
  "message_row \<Rightarrow> uid \<Rightarrow> ustr \<Rightarrow> timestamp \<Rightarrow> chat_db \<Rightarrow> nat \<times> chat_db" where
  "insert_reaction message actor_uid emoji clock db =
     (let db = set_has_reactions (m_id message) True db;
          same = is_reaction_of (m_id message, actor_uid, emoji)
      in (if exists_row same (message_reactions db) then 0 else 1,
          db\<lparr>message_reactions := insert_or_ignore same
               \<lparr>mr_message_id = m_id message, mr_user_uid = actor_uid, mr_emoji = emoji,
                mr_created_at = clock, mr_message_author_uid = m_sender_uid message\<rparr>
               (message_reactions db)\<rparr>))"

section \<open>What is announced and shown\<close>

text \<open>\<open>unicode_segmentation\<close> and \<open>emojis\<close> are libraries.\<close>

record emoji_library =
  el_graphemes :: "ustr \<Rightarrow> ustr list"
  el_is_emoji :: "ustr \<Rightarrow> bool"

definition validate_emoji :: "emoji_library \<Rightarrow> ustr \<Rightarrow> app_error + ustr" where
  "validate_emoji lib input =
     (if input = [] then Inl (BadRequest ''Invalid emoji'')
      else let graphemes = el_graphemes lib input
           in if length graphemes \<noteq> 1 then Inl (BadRequest ''Invalid emoji'')
              else if \<not> list_all (el_is_emoji lib) graphemes then Inl (BadRequest ''Invalid emoji'')
              else Inr input)"

text \<open>The first five reactors of each emoji, in the order of the rows.\<close>

definition push_reactor ::
  "ustr \<times> uid \<Rightarrow> (ustr \<rightharpoonup> uid list) \<Rightarrow> (ustr \<rightharpoonup> uid list)" where
  "push_reactor row entries =
     (case row of (emoji, uid) \<Rightarrow>
        let entry = (case entries emoji of None \<Rightarrow> [] | Some uids \<Rightarrow> uids)
        in entries(emoji \<mapsto> (if length entry < 5 then entry @ [uid] else entry)))"

definition announced_reactions :: "view_context \<Rightarrow> chat_db \<Rightarrow> snowflake \<Rightarrow> reaction_summary list" where
  "announced_reactions vc db message_id =
     (let rs = select_rows (\<lambda>r. mr_message_id r = message_id) (message_reactions db);
          counts = map (\<lambda>e. (e, int (length (filter (\<lambda>r. mr_emoji r = e) rs)))) (emojis_of rs);
          reactor_uids_map = fold push_reactor (map (\<lambda>r. (mr_emoji r, mr_user_uid r)) rs) Map.empty;
          all_uids = remdups (concat (List.map_filter reactor_uids_map (map fst counts)));
          names = lookup_user_profiles (vc_discuz vc) all_uids;
          avatars = lookup_avatars vc all_uids
      in map (\<lambda>(emoji, n).
           \<lparr>rs_emoji = emoji, rs_count = n, rs_reacted_by_me = None,
            rs_reactors = map_option (map (\<lambda>uid. \<lparr>rr_uid = uid, rr_name = Option.bind (names uid) upr_username,
              rr_avatar_url = avatars uid, rr_sort_index = None\<rparr>)) (reactor_uids_map emoji)\<rparr>) counts)"

definition broadcast_reaction_update ::
  "view_context \<Rightarrow> snowflake \<Rightarrow> snowflake \<Rightarrow> chat_db \<Rightarrow> chat_payload registry \<Rightarrow> uid list \<times> chat_payload registry" where
  "broadcast_reaction_update vc chat_id message_id db r =
     (let uids = member_uids (core db) chat_id (\<lambda>_. True)
      in (uids, broadcast_to_uids uids (WsReactionUpdated (ReactionUpdatePayload
           \<lparr>ru_message_id = message_id, ru_chat_id = chat_id, ru_reactions = announced_reactions vc db message_id\<rparr>)) r))"

text \<open>The message a reaction may be put on, removed from or listed of.\<close>

definition reactable :: "snowflake \<Rightarrow> snowflake \<Rightarrow> message_row \<Rightarrow> bool" where
  "reactable chat_id message_id m \<longleftrightarrow>
     m_id m = message_id \<and> not_membership m \<and> m_chat_id m = chat_id \<and> m_deleted_at m = None \<and> m_is_published m"

definition reaction_message :: "chat_db \<Rightarrow> snowflake \<Rightarrow> snowflake \<Rightarrow> app_error + message_row" where
  "reaction_message db chat_id message_id =
     ok_or (first_row (reactable chat_id message_id) (messages db)) (NotFound ''Message not found'')"

record reaction_detail_group =
  dg_emoji :: ustr
  dg_reactors :: "reaction_reactor list"

fun add_to_group :: "ustr \<Rightarrow> reaction_reactor \<Rightarrow> reaction_detail_group list \<Rightarrow> reaction_detail_group list" where
  "add_to_group emoji reactor [] = [\<lparr>dg_emoji = emoji, dg_reactors = [reactor]\<rparr>]"
| "add_to_group emoji reactor (g # gs) =
     (if dg_emoji g = emoji then g\<lparr>dg_reactors := dg_reactors g @ [reactor]\<rparr> # gs
      else g # add_to_group emoji reactor gs)"

definition get_reaction_details ::
  "view_context \<Rightarrow> uid \<Rightarrow> snowflake \<Rightarrow> snowflake \<Rightarrow> chat_db \<Rightarrow> app_error + reaction_detail_group list" where
  "get_reaction_details vc uid chat_id message_id db =
     and_then (check_membership (core db) chat_id uid) (\<lambda>_.
     and_then (reaction_message db chat_id message_id) (\<lambda>_.
       let raw = sort_key mr_created_at (select_rows (\<lambda>r. mr_message_id r = message_id) (message_reactions db));
           grouped = fold (\<lambda>(idx, r). add_to_group (mr_emoji r)
               \<lparr>rr_uid = mr_user_uid r, rr_name = None, rr_avatar_url = None, rr_sort_index = Some (int idx)\<rparr>)
             (enumerate 0 raw) [];
           uids = remdups (map mr_user_uid raw);
           names = lookup_user_profiles (vc_discuz vc) uids;
           avatars = lookup_avatars vc uids
       in Inr (map (\<lambda>g. g\<lparr>dg_reactors := map (\<lambda>x. x\<lparr>rr_name := Option.bind (names (rr_uid x)) upr_username,
            rr_avatar_url := avatars (rr_uid x)\<rparr>) (dg_reactors g)\<rparr>) grouped)))"

section \<open>Adding and removing\<close>

text \<open>The notice that has the author's unread reactions counted again.\<close>

definition notify_author ::
  "snowflake \<Rightarrow> snowflake \<Rightarrow> message_row \<Rightarrow> uid \<Rightarrow> ustr option \<Rightarrow> uid list \<Rightarrow>
   chat_payload registry \<Rightarrow> chat_payload registry" where
  "notify_author chat_id message_id message uid actor_name uids r =
     (if m_sender_uid message \<noteq> uid \<and> m_sender_uid message \<in> set uids
      then broadcast_to_uids [m_sender_uid message] (WsNotification (NotificationPayload
             \<lparr>np_notification_type = NotifyReaction, np_chat_id = chat_id, np_message_id = message_id,
              np_thread_root_id = m_reply_root_id message, np_actor_uid = uid, np_actor_name = actor_name\<rparr>)) r
      else r)"

definition authorize_reaction ::
  "emoji_library \<Rightarrow> uid \<Rightarrow> snowflake \<Rightarrow> snowflake \<Rightarrow> ustr \<Rightarrow> chat_db \<Rightarrow> app_error + ustr \<times> message_row" where
  "authorize_reaction lib uid chat_id message_id emoji db =
     and_then (validate_emoji lib emoji) (\<lambda>emoji.
     and_then (check_membership (core db) chat_id uid) (\<lambda>_.
     and_then (require_chat_writable (core db) chat_id uid) (\<lambda>_.
     and_then (reaction_message db chat_id message_id) (\<lambda>message. Inr (emoji, message)))))"

definition put_reaction ::
  "emoji_library \<Rightarrow> view_context \<Rightarrow> uid \<Rightarrow> snowflake \<Rightarrow> snowflake \<Rightarrow> ustr \<Rightarrow> timestamp \<Rightarrow>
   chat_db \<times> chat_payload registry \<Rightarrow> app_error + unit \<times> chat_db \<times> chat_payload registry" where
  "put_reaction lib vc uid chat_id message_id emoji clock s =
     (case s of (db, r) \<Rightarrow>
        and_then (authorize_reaction lib uid chat_id message_id emoji db) (\<lambda>(emoji, message).
          let (inserted, db) = insert_reaction message uid emoji clock db;
              (uids, r) = broadcast_reaction_update vc chat_id message_id db r
          in Inr ((), db, if 0 < inserted then notify_author chat_id message_id message uid (Some (someone vc uid)) uids r else r)))"

definition delete_reaction_row :: "uid \<Rightarrow> snowflake \<Rightarrow> ustr \<Rightarrow> chat_db \<Rightarrow> nat \<times> chat_db" where
  "delete_reaction_row uid message_id emoji db =
     (let same = is_reaction_of (message_id, uid, emoji)
      in (count_rows same (message_reactions db),
          db\<lparr>message_reactions := delete_rows same (message_reactions db)\<rparr>))"

definition remaining_reactions :: "snowflake \<Rightarrow> chat_db \<Rightarrow> nat" where
  "remaining_reactions message_id db = count_rows (\<lambda>r. mr_message_id r = message_id) (message_reactions db)"

text \<open>The request with nothing between its statements.\<close>

definition delete_reaction ::
  "emoji_library \<Rightarrow> view_context \<Rightarrow> uid \<Rightarrow> snowflake \<Rightarrow> snowflake \<Rightarrow> ustr \<Rightarrow>
   chat_db \<times> chat_payload registry \<Rightarrow> app_error + unit \<times> chat_db \<times> chat_payload registry" where
  "delete_reaction lib vc uid chat_id message_id emoji s =
     (case s of (db, r) \<Rightarrow>
        and_then (authorize_reaction lib uid chat_id message_id emoji db) (\<lambda>(emoji, message).
          let (deleted, db) = delete_reaction_row uid message_id emoji db
          in if deleted = 0 then Inr ((), db, r)
             else let db = (if remaining_reactions message_id db = 0
                            then set_has_reactions message_id False db else db);
                      (uids, r) = broadcast_reaction_update vc chat_id message_id db r
                  in Inr ((), db, notify_author chat_id message_id message uid None uids r)))"

section \<open>Unread reactions\<close>

text \<open>\<open>UNREAD_REACTIONS_FILTER\<close> with the row's scope: \<open>None\<close> is the chat, \<open>Some\<close> of a root its thread.\<close>

definition reaction_in_scope :: "chat_db \<Rightarrow> uid \<Rightarrow> snowflake \<Rightarrow> snowflake option \<Rightarrow> message_reaction \<Rightarrow> bool" where
  "reaction_in_scope db uid chat_id thread_root_id r \<longleftrightarrow>
     mr_message_author_uid r = uid \<and> mr_user_uid r \<noteq> uid \<and>
     exists_row (\<lambda>m. m_id m = mr_message_id r \<and> m_chat_id m = chat_id \<and> m_deleted_at m = None \<and>
       m_is_published m \<and> m_reply_root_id m = thread_root_id) (messages db)"

definition reactions_cursor :: "chat_db \<Rightarrow> uid \<Rightarrow> snowflake \<Rightarrow> snowflake option \<Rightarrow> timestamp option" where
  "reactions_cursor db uid chat_id thread_root_id =
     (case thread_root_id of
        None \<Rightarrow> map_option gm_last_reactions_read_at
          (first_row (is_membership_of (chat_id, uid)) (memberships (core db)))
      | Some thread_id \<Rightarrow> map_option ts_last_reactions_read_at
          (first_row (is_thread_state_of (chat_id, thread_id, uid)) (thread_user_states db)))"

text \<open>\<open>None\<close> is \<open>-infinity\<close>.\<close>

definition later_than :: "timestamp option \<Rightarrow> timestamp \<Rightarrow> bool" where
  "later_than bound instant = (case bound of None \<Rightarrow> True | Some b \<Rightarrow> b < instant)"

definition unread_reaction :: "chat_db \<Rightarrow> uid \<Rightarrow> snowflake \<Rightarrow> snowflake option \<Rightarrow> message_reaction \<Rightarrow> bool" where
  "unread_reaction db uid chat_id thread_root_id r \<longleftrightarrow>
     reaction_in_scope db uid chat_id thread_root_id r \<and>
     later_than (reactions_cursor db uid chat_id thread_root_id) (mr_created_at r)"

definition count_chat_unread_reactions :: "chat_db \<Rightarrow> uid \<Rightarrow> snowflake \<Rightarrow> snowflake option \<Rightarrow> int" where
  "count_chat_unread_reactions db uid chat_id thread_root_id =
     min (int (length (remdups (map mr_message_id
       (select_rows (unread_reaction db uid chat_id thread_root_id) (message_reactions db)))))) max_unread_count"

text \<open>The chats with a positive count, in one query.\<close>

definition count_chat_unread_reactions_for_memberships ::
  "chat_db \<Rightarrow> uid \<Rightarrow> snowflake list \<Rightarrow> (snowflake \<rightharpoonup> int)" where
  "count_chat_unread_reactions_for_memberships db uid chat_ids =
     (if chat_ids = [] then Map.empty
      else let reacted = concat (map (\<lambda>r. map (\<lambda>m. (m_chat_id m, mr_message_id r, mr_created_at r))
                 (select_rows (\<lambda>m. m_id m = mr_message_id r \<and> m_chat_id m \<in> set chat_ids \<and> m_deleted_at m = None \<and>
                    m_is_published m \<and> m_reply_root_id m = None) (messages db)))
               (select_rows (\<lambda>r. mr_message_author_uid r = uid \<and> mr_user_uid r \<noteq> uid) (message_reactions db)));
               joined = filter (\<lambda>(c, _, created_at).
                 exists_row (\<lambda>gm. is_membership_of (c, uid) gm \<and> gm_last_reactions_read_at gm < created_at)
                   (memberships (core db))) reacted
           in map_of (map (\<lambda>c. (c, min (int (length (remdups (map (\<lambda>(_, i, _). i)
                  (filter (\<lambda>(c', _, _). c' = c) joined))))) max_unread_count)) (remdups (map fst joined))))"

definition list_chat_unread_reactions ::
  "chat_db \<Rightarrow> uid \<Rightarrow> snowflake \<Rightarrow> snowflake option \<Rightarrow> nat \<Rightarrow> timestamp \<Rightarrow> timestamp option \<Rightarrow> snowflake list" where
  "list_chat_unread_reactions db uid chat_id thread_root_id limit read_through after =
     take limit (rev (sort (remdups (map mr_message_id (select_rows (\<lambda>r.
       unread_reaction db uid chat_id thread_root_id r \<and> mr_created_at r \<le> read_through \<and>
       later_than after (mr_created_at r)) (message_reactions db))))))"

definition get_chat_reactions ::
  "uid \<Rightarrow> snowflake \<Rightarrow> snowflake option \<Rightarrow> int option \<Rightarrow> timestamp option \<Rightarrow> timestamp \<Rightarrow> chat_db \<Rightarrow>
   app_error + timestamp \<times> snowflake list" where
  "get_chat_reactions uid chat_id thread_id max_ids after clock db =
     and_then (check_membership (core db) chat_id uid) (\<lambda>_.
       Inr (clock, list_chat_unread_reactions db uid chat_id thread_id
         (validate_limit max_ids max_unread_count) clock after))"

definition acknowledge_chat_unread_reactions ::
  "uid \<Rightarrow> snowflake \<Rightarrow> snowflake option \<Rightarrow> timestamp option \<Rightarrow> timestamp \<Rightarrow> timestamp \<Rightarrow> timestamp \<Rightarrow> chat_db \<Rightarrow>
   int \<times> chat_db" where
  "acknowledge_chat_unread_reactions uid chat_id thread_root_id read_through clock now db_now db =
     (let read_through = min (case read_through of None \<Rightarrow> clock | Some t \<Rightarrow> t) clock;
          db = (case thread_root_id of
              Some thread_id \<Rightarrow>
                let (inserted, db) = ensure_thread_user_state chat_id thread_id uid False now db_now db
                in db\<lparr>thread_user_states := update_rows (is_thread_state_of (chat_id, thread_id, uid))
                     (\<lambda>s. s\<lparr>ts_last_reactions_read_at :=
                        if inserted then read_through else max (ts_last_reactions_read_at s) read_through\<rparr>)
                     (thread_user_states db)\<rparr>
            | None \<Rightarrow> db\<lparr>core := (core db)\<lparr>memberships := update_rows (is_membership_of (chat_id, uid))
                     (\<lambda>m. m\<lparr>gm_last_reactions_read_at := max (gm_last_reactions_read_at m) read_through\<rparr>)
                     (memberships (core db))\<rparr>\<rparr>)
      in (count_chat_unread_reactions db uid chat_id thread_root_id, db))"

definition acknowledge_chat_reactions ::
  "uid \<Rightarrow> snowflake \<Rightarrow> snowflake option \<Rightarrow> timestamp option \<Rightarrow> timestamp \<Rightarrow> timestamp \<Rightarrow> timestamp \<Rightarrow>
   chat_db \<times> chat_payload registry \<Rightarrow> app_error + int \<times> chat_db \<times> chat_payload registry" where
  "acknowledge_chat_reactions uid chat_id thread_id read_through clock now db_now s =
     (case s of (db, r) \<Rightarrow>
        and_then (case thread_id of Some t \<Rightarrow> authorize_thread_in_chat db chat_id t uid
                  | None \<Rightarrow> check_membership (core db) chat_id uid) (\<lambda>_.
          let (n, db) = acknowledge_chat_unread_reactions uid chat_id thread_id read_through clock now db_now db
          in Inr (n, db, invalidate_unread [uid] r)))"

section \<open>Statements of concurrent requests\<close>

text \<open>
  What requests do to the database one statement after the other: adding is one transaction; a
  removal deletes its row (and goes on only if there was one), counts the rows left, and clears
  the flag when it counted none. \<open>rx_deciding\<close> and \<open>rx_clearing\<close> hold the messages whose removal
  has still to count or to clear.
\<close>

record reaction_store =
  rx_db :: chat_db
  rx_deciding :: "snowflake list"
  rx_clearing :: "snowflake list"

datatype reaction_statement =
    AddReaction message_row uid ustr timestamp
  | DeleteReactionRow uid snowflake ustr
  | CountReactions snowflake
  | ClearFlag snowflake

fun reaction_step :: "reaction_statement \<Rightarrow> reaction_store \<Rightarrow> reaction_store" where
  "reaction_step (AddReaction message actor emoji clock) s =
     s\<lparr>rx_db := snd (insert_reaction message actor emoji clock (rx_db s))\<rparr>"
| "reaction_step (DeleteReactionRow uid i emoji) s =
     (let (deleted, db) = delete_reaction_row uid i emoji (rx_db s)
      in s\<lparr>rx_db := db, rx_deciding := (if deleted = 0 then rx_deciding s else i # rx_deciding s)\<rparr>)"
| "reaction_step (CountReactions i) s =
     (if i \<in> set (rx_deciding s)
      then s\<lparr>rx_deciding := remove1 i (rx_deciding s),
             rx_clearing := (if remaining_reactions i (rx_db s) = 0 then i # rx_clearing s else rx_clearing s)\<rparr>
      else s)"
| "reaction_step (ClearFlag i) s =
     (if i \<in> set (rx_clearing s)
      then s\<lparr>rx_db := set_has_reactions i False (rx_db s), rx_clearing := remove1 i (rx_clearing s)\<rparr>
      else s)"

definition at_rest :: "chat_db \<Rightarrow> reaction_store" where
  "at_rest db = \<lparr>rx_db = db, rx_deciding = [], rx_clearing = []\<rparr>"

text \<open>A schedule in which nothing is added to a message between the count and the clearing of a
  removal. Added reactions are of messages the store has, under the author stored.\<close>

definition known_message :: "chat_db \<Rightarrow> message_row \<Rightarrow> bool" where
  "known_message db message \<longleftrightarrow>
     exists_row (\<lambda>m. m_id m = m_id message \<and> m_sender_uid m = m_sender_uid message) (messages db)"

definition statement_allowed :: "reaction_statement \<Rightarrow> reaction_store \<Rightarrow> bool" where
  "statement_allowed x s =
     (case x of AddReaction message _ _ _ \<Rightarrow>
        known_message (rx_db s) message \<and> m_id message \<notin> set (rx_clearing s)
      | _ \<Rightarrow> True)"

fun gap_free :: "reaction_statement list \<Rightarrow> reaction_store \<Rightarrow> bool" where
  "gap_free [] s \<longleftrightarrow> True"
| "gap_free (x # xs) s \<longleftrightarrow> statement_allowed x s \<and> gap_free xs (reaction_step x s)"

section \<open>The books\<close>

definition has_reaction_rows :: "chat_db \<Rightarrow> snowflake \<Rightarrow> bool" where
  "has_reaction_rows db i = exists_row (\<lambda>r. mr_message_id r = i) (message_reactions db)"

text \<open>The keys of the migration, and the author copied from the message.\<close>

definition reaction_rows_ok :: "chat_db \<Rightarrow> bool" where
  "reaction_rows_ok db \<longleftrightarrow>
     distinct_keys m_id (messages db) \<and> distinct_keys reaction_key (message_reactions db) \<and>
     list_all (\<lambda>r. exists_row (\<lambda>m. m_id m = mr_message_id r \<and> m_sender_uid m = mr_message_author_uid r)
       (messages db)) (message_reactions db)"

definition reactions_ok :: "chat_db \<Rightarrow> bool" where
  "reactions_ok db \<longleftrightarrow>
     reaction_rows_ok db \<and>
     list_all (\<lambda>m. m_has_reactions m = has_reaction_rows db (m_id m)) (messages db)"

definition reaction_store_ok :: "reaction_store \<Rightarrow> bool" where
  "reaction_store_ok s \<longleftrightarrow>
     reaction_rows_ok (rx_db s) \<and>
     (\<forall>m \<in> set (messages (rx_db s)).
        (has_reaction_rows (rx_db s) (m_id m) \<longrightarrow> m_has_reactions m) \<and>
        (m_has_reactions m \<and> \<not> has_reaction_rows (rx_db s) (m_id m) \<longrightarrow>
           m_id m \<in> set (rx_deciding s) \<union> set (rx_clearing s))) \<and>
     (\<forall>i \<in> set (rx_clearing s). \<not> has_reaction_rows (rx_db s) i)"

lemma store_ok_at_rest: "reaction_store_ok (at_rest db) \<longleftrightarrow> reactions_ok db"
  by (auto simp: reaction_store_ok_def at_rest_def reactions_ok_def list_all_iff)

lemma insert_fields:
  "messages (snd (insert_reaction message uid emoji clock db)) =
   update_rows (\<lambda>m. m_id m = m_id message) (\<lambda>m. m\<lparr>m_has_reactions := True\<rparr>) (messages db)"
  "message_reactions (snd (insert_reaction message uid emoji clock db)) =
   insert_or_ignore (is_reaction_of (m_id message, uid, emoji))
     \<lparr>mr_message_id = m_id message, mr_user_uid = uid, mr_emoji = emoji,
      mr_created_at = clock, mr_message_author_uid = m_sender_uid message\<rparr> (message_reactions db)"
  "core (snd (insert_reaction message uid emoji clock db)) = core db"
  "thread_user_states (snd (insert_reaction message uid emoji clock db)) = thread_user_states db"
  by (simp_all add: insert_reaction_def set_has_reactions_def Let_def)

lemma delete_fields [simp]:
  "messages (snd (delete_reaction_row uid i emoji db)) = messages db"
  "message_reactions (snd (delete_reaction_row uid i emoji db)) =
   delete_rows (is_reaction_of (i, uid, emoji)) (message_reactions db)"
  "core (snd (delete_reaction_row uid i emoji db)) = core db"
  "thread_user_states (snd (delete_reaction_row uid i emoji db)) = thread_user_states db"
  by (simp_all add: delete_reaction_row_def Let_def)

lemma flag_fields [simp]:
  "messages (set_has_reactions i b db) =
   update_rows (\<lambda>m. m_id m = i) (\<lambda>m. m\<lparr>m_has_reactions := b\<rparr>) (messages db)"
  "message_reactions (set_has_reactions i b db) = message_reactions db"
  "core (set_has_reactions i b db) = core db"
  "thread_user_states (set_has_reactions i b db) = thread_user_states db"
  by (simp_all add: set_has_reactions_def)

lemma rows_after_insert:
  "has_reaction_rows (snd (insert_reaction message uid emoji clock db)) i \<longleftrightarrow>
   has_reaction_rows db i \<or> i = m_id message"
  by (auto simp: has_reaction_rows_def insert_fields insert_or_ignore_def is_reaction_of_def row_simps)

lemma rows_after_delete:
  "has_reaction_rows (snd (delete_reaction_row uid j emoji db)) i \<Longrightarrow> has_reaction_rows db i"
  by (auto simp: has_reaction_rows_def row_simps)

lemma rows_after_delete_other:
  "i \<noteq> j \<Longrightarrow> has_reaction_rows db i \<Longrightarrow> has_reaction_rows (snd (delete_reaction_row uid j emoji db)) i"
  by (auto simp: has_reaction_rows_def is_reaction_of_def row_simps)

lemma rows_after_flag [simp]: "has_reaction_rows (set_has_reactions j b db) i = has_reaction_rows db i"
  by (simp add: has_reaction_rows_def set_has_reactions_def)

lemma delete_none:
  "fst (delete_reaction_row uid i emoji db) = 0 \<Longrightarrow> snd (delete_reaction_row uid i emoji db) = db"
  by (auto simp: delete_reaction_row_def Let_def row_simps delete_rows_def filter_id_conv)

lemma remaining_none: "remaining_reactions i db = 0 \<longleftrightarrow> \<not> has_reaction_rows db i"
  by (simp add: remaining_reactions_def has_reaction_rows_def row_simps)

lemma flagged_message:
  "m \<in> set (update_rows (\<lambda>m. m_id m = i) (\<lambda>m. m\<lparr>m_has_reactions := b\<rparr>) ms) \<Longrightarrow>
   \<exists>x \<in> set ms. m = (if m_id x = i then x\<lparr>m_has_reactions := b\<rparr> else x) \<and> m_id x = m_id m \<and>
     m_has_reactions m = (if m_id m = i then b else m_has_reactions x)"
  by (auto simp: row_simps)

lemma flag_keeps_senders:
  "exists_row (\<lambda>m. m_id m = i \<and> m_sender_uid m = u)
     (update_rows P (\<lambda>m. m\<lparr>m_has_reactions := b\<rparr>) ms) \<longleftrightarrow>
   exists_row (\<lambda>m. m_id m = i \<and> m_sender_uid m = u) ms"
  by (induction ms) (simp_all add: exists_row_def update_rows_def)

lemma rows_ok_flag: "reaction_rows_ok (set_has_reactions i b db) = reaction_rows_ok db"
  by (simp add: reaction_rows_ok_def set_has_reactions_def distinct_keys_update flag_keeps_senders)

lemma rows_ok_delete: "reaction_rows_ok db \<Longrightarrow> reaction_rows_ok (snd (delete_reaction_row uid i emoji db))"
  by (auto simp: reaction_rows_ok_def distinct_keys_delete list_all_iff row_simps)

lemma rows_ok_insert:
  assumes "reaction_rows_ok db" and "known_message db message"
  shows "reaction_rows_ok (snd (insert_reaction message uid emoji clock db))"
proof -
  have "distinct_keys m_id (messages db)" and "distinct_keys reaction_key (message_reactions db)"
    and authors: "list_all (\<lambda>r. exists_row (\<lambda>m. m_id m = mr_message_id r \<and> m_sender_uid m = mr_message_author_uid r)
       (messages db)) (message_reactions db)"
    using assms(1) by (simp_all add: reaction_rows_ok_def)
  moreover have "exists_row (\<lambda>m. m_id m = m_id message \<and> m_sender_uid m = m_sender_uid message) (messages db)"
    using assms(2) by (simp add: known_message_def)
  moreover from calculation have "distinct_keys reaction_key (message_reactions (snd (insert_reaction message uid emoji clock db)))"
    unfolding insert_fields by (intro reaction_table.distinct_insert) (simp_all add: reaction_key_def)
  ultimately show ?thesis
    unfolding reaction_rows_ok_def insert_fields flag_keeps_senders
    by (auto simp: list_all_iff insert_or_ignore_def distinct_keys_update)
qed

section \<open>The flag under concurrent requests\<close>

lemma add_keeps_store:
  assumes "reaction_store_ok s" and "statement_allowed (AddReaction message actor emoji clock) s"
  shows "reaction_store_ok (reaction_step (AddReaction message actor emoji clock) s)"
proof -
  let ?db = "snd (insert_reaction message actor emoji clock (rx_db s))"
  have allowed: "known_message (rx_db s) message" "m_id message \<notin> set (rx_clearing s)"
    using assms(2) by (simp_all add: statement_allowed_def)
  have "(has_reaction_rows ?db (m_id m) \<longrightarrow> m_has_reactions m) \<and>
      (m_has_reactions m \<and> \<not> has_reaction_rows ?db (m_id m) \<longrightarrow>
         m_id m \<in> set (rx_deciding s) \<union> set (rx_clearing s))"
    if m: "m \<in> set (messages ?db)" for m
  proof -
    from flagged_message [OF m [unfolded insert_fields]] obtain x
      where "x \<in> set (messages (rx_db s))" "m_id x = m_id m"
        "m_has_reactions m = (if m_id m = m_id message then True else m_has_reactions x)" by blast
    with assms(1) show ?thesis unfolding rows_after_insert reaction_store_ok_def by (metis Un_iff)
  qed
  with assms(1) allowed show ?thesis
    by (auto simp: reaction_store_ok_def rows_ok_insert rows_after_insert)
qed

lemma delete_keeps_store:
  assumes "reaction_store_ok s"
  shows "reaction_store_ok (reaction_step (DeleteReactionRow uid i emoji) s)"
proof (cases "fst (delete_reaction_row uid i emoji (rx_db s)) = 0")
  case True
  with assms show ?thesis by (simp add: split_def Let_def delete_none)
next
  case False
  let ?db = "snd (delete_reaction_row uid i emoji (rx_db s))"
  have step: "reaction_step (DeleteReactionRow uid i emoji) s =
      s\<lparr>rx_db := ?db, rx_deciding := i # rx_deciding s\<rparr>"
    using False by (simp add: split_def Let_def)
  have kept: "has_reaction_rows ?db j \<longrightarrow> has_reaction_rows (rx_db s) j"
    "has_reaction_rows (rx_db s) j \<and> j \<noteq> i \<longrightarrow> has_reaction_rows ?db j" for j
    by (auto intro: rows_after_delete rows_after_delete_other)
  from assms show ?thesis
    unfolding step reaction_store_ok_def
    by (simp add: rows_ok_delete del: delete_fields(2)) (metis kept)
qed

lemma count_keeps_store:
  assumes "reaction_store_ok s"
  shows "reaction_store_ok (reaction_step (CountReactions i) s)"
proof (cases "i \<in> set (rx_deciding s)")
  case True
  have gone: "j \<in> set (rx_deciding s) \<Longrightarrow> j \<noteq> i \<Longrightarrow> j \<in> set (remove1 i (rx_deciding s))" for j by simp
  from True assms show ?thesis
    by (auto simp: reaction_store_ok_def remaining_none intro: gone)
qed (use assms in simp)

lemma clear_keeps_store:
  assumes "reaction_store_ok s"
  shows "reaction_store_ok (reaction_step (ClearFlag i) s)"
proof (cases "i \<in> set (rx_clearing s)")
  case True
  let ?db = "set_has_reactions i False (rx_db s)"
  from True assms have none: "\<not> has_reaction_rows (rx_db s) i" by (simp add: reaction_store_ok_def)
  have "(has_reaction_rows ?db (m_id m) \<longrightarrow> m_has_reactions m) \<and>
      (m_has_reactions m \<and> \<not> has_reaction_rows ?db (m_id m) \<longrightarrow>
         m_id m \<in> set (rx_deciding s) \<union> set (remove1 i (rx_clearing s)))"
    if m: "m \<in> set (messages ?db)" for m
  proof -
    from flagged_message [OF m [unfolded flag_fields]] obtain x
      where "x \<in> set (messages (rx_db s))" "m_id x = m_id m"
        "m_has_reactions m = (if m_id m = i then False else m_has_reactions x)" by blast
    with assms none show ?thesis unfolding rows_after_flag reaction_store_ok_def
      by (metis Un_iff in_set_remove1)
  qed
  moreover have "set (remove1 i (rx_clearing s)) \<subseteq> set (rx_clearing s)" by (rule set_remove1_subset)
  ultimately show ?thesis
    using assms True by (auto simp: reaction_store_ok_def rows_ok_flag simp del: flag_fields(1))
qed (use assms in simp)

lemma statement_keeps_store:
  "reaction_store_ok s \<Longrightarrow> statement_allowed x s \<Longrightarrow> reaction_store_ok (reaction_step x s)"
  by (cases x) (simp_all only: add_keeps_store delete_keeps_store count_keeps_store clear_keeps_store)

lemma schedule_keeps_store:
  "reaction_store_ok s \<Longrightarrow> gap_free xs s \<Longrightarrow> reaction_store_ok (fold reaction_step xs s)"
  by (induction xs arbitrary: s) (simp_all add: statement_keeps_store)

text \<open>What a member sees of a message's reactions.\<close>

lemma built_reactions:
  "m_deleted_at m = None \<Longrightarrow> r_reactions (build_response vc pd m) = pd_reactions pd (m_id m)"
  unfolding build_response_def Let_def split_def redact_deleted_message_response_def by simp

lemma shown_reactions:
  "m_deleted_at m = None \<Longrightarrow>
   r_reactions (message_view vc db uid m) = (if m_has_reactions m then reactions_of vc db uid (m_id m) else [])"
  by (simp add: message_view_def built_reactions)

lemma no_rows_no_reactions: "\<not> has_reaction_rows db i \<Longrightarrow> reactions_of vc db uid i = []"
proof -
  assume none: "\<not> has_reaction_rows db i"
  then have "select_rows (\<lambda>r. mr_message_id r \<in> set [i] \<and> mr_message_id r = i) (message_reactions db) = []"
    by (auto simp: select_rows_def filter_empty_conv has_reaction_rows_def row_simps)
  then show ?thesis by (simp add: reactions_of_def load_reaction_details_def emojis_of_def Let_def)
qed

lemma exact_flags_show_rows:
  assumes "reactions_ok db" and "m \<in> set (messages db)" and "m_deleted_at m = None"
  shows "r_reactions (message_view vc db uid m) = reactions_of vc db uid (m_id m)"
  using assms no_rows_no_reactions [of db "m_id m"]
  by (auto simp: shown_reactions reactions_ok_def list_all_iff)

text \<open>C9: Concurrent requests that add and remove reactions leave every flag exact, and every message
  showing exactly its reaction rows, once the removals are through - provided that nothing is added
  to a message between a removal's count of the rows left and its clearing of the flag.\<close>

theorem reaction_schedule_exact:
  assumes "reactions_ok db" and "gap_free xs (at_rest db)"
    and "fold reaction_step xs (at_rest db) = at_rest db'"
  shows "reactions_ok db' \<and>
    (\<forall>m \<in> set (messages db'). m_deleted_at m = None \<longrightarrow>
       r_reactions (message_view vc db' uid m) = reactions_of vc db' uid (m_id m))"
proof -
  from assms(1,2) have "reaction_store_ok (fold reaction_step xs (at_rest db))"
    by (intro schedule_keeps_store) (simp_all add: store_ok_at_rest)
  with assms(3) have "reactions_ok db'" by (simp add: store_ok_at_rest)
  then show ?thesis by (blast intro: exact_flags_show_rows)
qed

section \<open>Announcements and badges\<close>

lemma collected_reactors:
  "fold push_reactor rows entries e =
   (case (entries e, filter (\<lambda>row. fst row = e) rows) of
      (None, []) \<Rightarrow> None
    | (known, found) \<Rightarrow> let had = (case known of None \<Rightarrow> [] | Some uids \<Rightarrow> uids)
        in Some (had @ take (5 - length had) (map snd found)))"
proof (induction rows arbitrary: entries)
  case Nil
  then show ?case by (simp split: option.split)
next
  case (Cons row rows)
  obtain e' u where row: "row = (e', u)" by (cases row)
  show ?case
    unfolding fold_Cons comp_apply Cons.IH row
    by (auto simp: push_reactor_def Let_def take_Cons' not_less split: option.splits list.splits)
qed

lemma emojis_of_set: "set (emojis_of rs) = mr_emoji ` set rs"
  by (simp add: emojis_of_def Let_def)

text \<open>What is announced has the emojis and counts of what a member is shown.\<close>

lemma announced_as_shown:
  "map (\<lambda>s. (rs_emoji s, rs_count s)) (announced_reactions vc db i) =
   map (\<lambda>s. (rs_emoji s, rs_count s)) (reactions_of vc db uid i)"
proof -
  have "(\<lambda>r. mr_message_id r \<in> set [i] \<and> mr_message_id r = i) = (\<lambda>r. mr_message_id r = i)" by auto
  then show ?thesis
    by (simp add: announced_reactions_def reactions_of_def load_reaction_details_def reaction_summary_of_def
        Let_def split_def)
qed

lemma map_of_tabulate: "map_of (map (\<lambda>c. (c, f c)) cs) c = (if c \<in> set cs then Some (f c) else None)"
  by (induction cs) auto

text \<open>The badges of a list of chats are the counts of the single chats.\<close>

lemma reaction_badges_agree:
  assumes "distinct_keys membership_key (memberships (core db))"
    and "c \<in> set chat_ids" and "check_membership (core db) c uid = Inr ()"
  shows "(case count_chat_unread_reactions_for_memberships db uid chat_ids c of None \<Rightarrow> 0 | Some n \<Rightarrow> n) =
    count_chat_unread_reactions db uid c None"
proof -
  define joined where "joined = filter (\<lambda>(c, _, created_at).
      exists_row (\<lambda>gm. is_membership_of (c, uid) gm \<and> gm_last_reactions_read_at gm < created_at)
        (memberships (core db)))
    (concat (map (\<lambda>r. map (\<lambda>m. (m_chat_id m, mr_message_id r, mr_created_at r))
       (select_rows (\<lambda>m. m_id m = mr_message_id r \<and> m_chat_id m \<in> set chat_ids \<and> m_deleted_at m = None \<and>
          m_is_published m \<and> m_reply_root_id m = None) (messages db)))
     (select_rows (\<lambda>r. mr_message_author_uid r = uid \<and> mr_user_uid r \<noteq> uid) (message_reactions db))))"
  define ids where "ids c = map (\<lambda>(_, i, _). i) (filter (\<lambda>(c', _, _). c' = c) joined)" for c
  from assms(2) have "chat_ids \<noteq> []" by auto
  then have batch: "count_chat_unread_reactions_for_memberships db uid chat_ids =
      map_of (map (\<lambda>c. (c, min (int (length (remdups (ids c)))) max_unread_count)) (remdups (map fst joined)))"
    unfolding count_chat_unread_reactions_for_memberships_def joined_def ids_def by (simp add: Let_def)
  from assms(3) obtain gm where gm: "gm \<in> set (memberships (core db))" "membership_key gm = (c, uid)"
    by (auto simp: result_simps)
  then have cursor: "reactions_cursor db uid c None = Some (gm_last_reactions_read_at gm)"
    by (simp add: reactions_cursor_def membership_table.find_unique [OF assms(1), THEN iffD2, OF conjI, OF gm])
  have later: "exists_row (\<lambda>x. is_membership_of (c, uid) x \<and> gm_last_reactions_read_at x < t) (memberships (core db)) \<longleftrightarrow>
      gm_last_reactions_read_at gm < t" for t
    unfolding exists_row_iff membership_table.matches_iff using gm distinct_keys_eq [OF assms(1)] by metis
  have ids: "i \<in> set (ids c) \<longleftrightarrow> (\<exists>t. (c, i, t) \<in> set joined)" for i by (force simp: ids_def)
  have joined: "(c, i, t) \<in> set joined \<longleftrightarrow> gm_last_reactions_read_at gm < t \<and>
      (\<exists>r \<in> set (message_reactions db). mr_message_author_uid r = uid \<and> mr_user_uid r \<noteq> uid \<and>
        mr_message_id r = i \<and> mr_created_at r = t \<and>
        exists_row (\<lambda>m. m_id m = mr_message_id r \<and> m_chat_id m = c \<and> m_deleted_at m = None \<and>
          m_is_published m \<and> m_reply_root_id m = None) (messages db))" for i t
    using assms(2) unfolding joined_def set_filter mem_Collect_eq prod.case later
    by (auto simp: set_select_rows exists_row_iff)
  have "i \<in> set (ids c) \<longleftrightarrow> (\<exists>r \<in> set (message_reactions db). unread_reaction db uid c None r \<and> mr_message_id r = i)" for i
    unfolding ids joined unread_reaction_def cursor later_than_def reaction_in_scope_def option.case by blast
  then have same: "set (ids c) = mr_message_id ` set (select_rows (unread_reaction db uid c None) (message_reactions db))"
    by (auto simp: row_simps)
  have "c \<notin> set (map fst joined) \<Longrightarrow> ids c = []"
    by (force simp: ids_def filter_empty_conv)
  then show ?thesis
    unfolding batch map_of_tabulate count_chat_unread_reactions_def
    by (auto simp: length_remdups_card_conv same [symmetric] max_unread_count_def)
qed

section \<open>Requests\<close>

lemma authorized:
  assumes "authorize_reaction lib uid chat_id message_id emoji db = Inr (e, message)"
  shows "e = emoji" and "message \<in> set (messages db)" and "reactable chat_id message_id message"
    and "m_id message = message_id" and "known_message db message"
proof -
  have "validate_emoji lib emoji = Inr e" and found: "first_row (reactable chat_id message_id) (messages db) = Some message"
    using assms by (auto simp: authorize_reaction_def reaction_message_def result_simps)
  then show "e = emoji" by (auto simp: validate_emoji_def Let_def split: if_splits)
  from first_row_Some [OF found] show "message \<in> set (messages db)" "reactable chat_id message_id message" by simp_all
  then show "m_id message = message_id" "known_message db message"
    by (auto simp: reactable_def known_message_def row_simps)
qed

text \<open>A request with no others beside it is such a schedule.\<close>

lemma put_as_schedule:
  assumes "put_reaction lib vc uid chat_id message_id emoji clock (db, r) = Inr ((), db', r')"
  obtains message where "message \<in> set (messages db)" "m_id message = message_id"
    "known_message db message"
    "at_rest db' = fold reaction_step [AddReaction message uid emoji clock] (at_rest db)"
proof -
  from assms obtain e message where ok: "authorize_reaction lib uid chat_id message_id emoji db = Inr (e, message)"
    and db': "db' = snd (insert_reaction message uid e clock db)"
    by (cases "authorize_reaction lib uid chat_id message_id emoji db") (auto simp: put_reaction_def Let_def split_def)
  from authorized [OF ok] db' show thesis by (intro that [of message]) (simp_all add: at_rest_def)
qed

lemma delete_as_schedule:
  assumes "delete_reaction lib vc uid chat_id message_id emoji (db, r) = Inr ((), db', r')"
  shows "at_rest db' = fold reaction_step
    [DeleteReactionRow uid message_id emoji, CountReactions message_id, ClearFlag message_id] (at_rest db)"
proof -
  let ?d = "delete_reaction_row uid message_id emoji db"
  from assms obtain e message where ok: "authorize_reaction lib uid chat_id message_id emoji db = Inr (e, message)"
    and db': "db' = (if fst (delete_reaction_row uid message_id e db) = 0 then snd (delete_reaction_row uid message_id e db)
      else if remaining_reactions message_id (snd (delete_reaction_row uid message_id e db)) = 0
      then set_has_reactions message_id False (snd (delete_reaction_row uid message_id e db))
      else snd (delete_reaction_row uid message_id e db))"
    by (cases "authorize_reaction lib uid chat_id message_id emoji db")
      (auto simp: delete_reaction_def Let_def split_def split: if_splits)
  from authorized(1) [OF ok] have e: "e = emoji" .
  show ?thesis unfolding db' e by (simp add: at_rest_def Let_def split_def)
qed

datatype reaction_request =
    PutReaction uid snowflake snowflake ustr timestamp
  | DeleteReaction uid snowflake snowflake ustr

fun exec_reaction ::
  "emoji_library \<Rightarrow> view_context \<Rightarrow> reaction_request \<Rightarrow> chat_db \<times> chat_payload registry \<Rightarrow>
   app_error + unit \<times> chat_db \<times> chat_payload registry" where
  "exec_reaction lib vc (PutReaction uid c i emoji clock) s = put_reaction lib vc uid c i emoji clock s"
| "exec_reaction lib vc (DeleteReaction uid c i emoji) s = delete_reaction lib vc uid c i emoji s"

interpretation reaction_requests: guarded_machine "exec_reaction lib vc" "\<lambda>s. reactions_ok (fst s)" for lib vc
proof unfold_locales
  fix s x and u :: unit and s'
  assume ok: "reactions_ok (fst s)" and ran: "exec_reaction lib vc x s = Inr (u, s')"
  obtain db r db' r' where s: "s = (db, r)" "s' = (db', r')" by fastforce
  have "reaction_store_ok (at_rest db')"
  proof (cases x)
    case (PutReaction uid c i emoji clock)
    with ran s obtain message where "known_message db message"
        "at_rest db' = fold reaction_step [AddReaction message uid emoji clock] (at_rest db)"
      by (auto elim: put_as_schedule)
    moreover from this(1) have "gap_free [AddReaction message uid emoji clock] (at_rest db)"
      by (simp add: statement_allowed_def at_rest_def)
    ultimately show ?thesis using ok s by (simp only: schedule_keeps_store store_ok_at_rest fst_conv)
  next
    case (DeleteReaction uid c i emoji)
    with ran s have "delete_reaction lib vc uid c i emoji (db, r) = Inr ((), db', r')" by simp
    from delete_as_schedule [OF this] have "at_rest db' = fold reaction_step
        [DeleteReactionRow uid i emoji, CountReactions i, ClearFlag i] (at_rest db)" .
    moreover have "gap_free [DeleteReactionRow uid i emoji, CountReactions i, ClearFlag i] (at_rest db)"
      by (simp add: statement_allowed_def del: reaction_step.simps)
    ultimately show ?thesis using ok s by (simp only: schedule_keeps_store store_ok_at_rest fst_conv)
  qed
  with s show "reactions_ok (fst s')" by (simp add: store_ok_at_rest)
qed

text \<open>Requests one after the other need no proviso.\<close>

lemma requests_keep_reactions:
  "reactions_ok (fst s) \<Longrightarrow> reactions_ok (fst (run_ops (exec_reaction lib vc) xs s))"
  by (rule reaction_requests.run_inv)

text \<open>The proviso is needed: a reaction added in that gap keeps its row and is shown to nobody.\<close>

definition removal_gap :: "message_row \<Rightarrow> uid \<Rightarrow> ustr \<Rightarrow> uid \<Rightarrow> ustr \<Rightarrow> timestamp \<Rightarrow> reaction_statement list" where
  "removal_gap m remover emoji actor emoji' clock =
     [DeleteReactionRow remover (m_id m) emoji, CountReactions (m_id m), AddReaction m actor emoji' clock, ClearFlag (m_id m)]"

lemma flag_of_cleared:
  "m \<in> set (messages (set_has_reactions i False db)) \<Longrightarrow> m_id m = i \<Longrightarrow> \<not> m_has_reactions m"
  unfolding flag_fields by (drule flagged_message) auto

lemma single_row_gone:
  assumes "reaction_rows_ok db" and "filter (\<lambda>r. mr_message_id r = i) (message_reactions db) = [r]"
  shows "fst (delete_reaction_row (mr_user_uid r) i (mr_emoji r) db) \<noteq> 0"
    and "remaining_reactions i (snd (delete_reaction_row (mr_user_uid r) i (mr_emoji r) db)) = 0"
proof -
  have row: "r \<in> set (message_reactions db)" "mr_message_id r = i"
    and only: "x \<in> set (message_reactions db) \<Longrightarrow> mr_message_id x = i \<Longrightarrow> x = r" for x
    using arg_cong [OF assms(2), of set] by auto
  have "fst (delete_reaction_row (mr_user_uid r) i (mr_emoji r) db) =
      count_rows (is_reaction_of (i, mr_user_uid r, mr_emoji r)) (message_reactions db)"
    by (simp add: delete_reaction_row_def Let_def)
  moreover from row have "is_reaction_of (i, mr_user_uid r, mr_emoji r) r" by (simp add: is_reaction_of_def)
  ultimately show "fst (delete_reaction_row (mr_user_uid r) i (mr_emoji r) db) \<noteq> 0"
    using row(1) by (metis count_rows_eq_0)
  show "remaining_reactions i (snd (delete_reaction_row (mr_user_uid r) i (mr_emoji r) db)) = 0"
    unfolding remaining_reactions_def count_rows_eq_0 delete_fields
    using only by (auto simp: delete_rows_def is_reaction_of_def)
qed

text \<open>When the last reaction is removed from a message while another one is added between the
  removal's count and its clearing of the flag, the new row stays, but the message's flag is off
  and no member is shown any reaction of it.\<close>

theorem reaction_added_in_gap_hidden:
  assumes "reactions_ok db" and "m \<in> set (messages db)"
    and "filter (\<lambda>r. mr_message_id r = m_id m) (message_reactions db) = [r]"
    and "s = fold reaction_step (removal_gap m (mr_user_uid r) (mr_emoji r) actor emoji clock) (at_rest db)"
  shows "s = at_rest (rx_db s) \<and> has_reaction_rows (rx_db s) (m_id m) \<and>
    (\<forall>x \<in> set (messages (rx_db s)). m_id x = m_id m \<and> m_deleted_at x = None \<longrightarrow>
       r_reactions (message_view vc (rx_db s) uid x) = [])"
proof -
  let ?d = "delete_reaction_row (mr_user_uid r) (m_id m) (mr_emoji r) db"
  let ?db = "set_has_reactions (m_id m) False (snd (insert_reaction m actor emoji clock (snd ?d)))"
  have "fst ?d \<noteq> 0" and "remaining_reactions (m_id m) (snd ?d) = 0"
    using single_row_gone [OF _ assms(3)] assms(1) by (simp_all add: reactions_ok_def)
  then have s: "s = at_rest ?db"
    unfolding assms(4) by (simp add: removal_gap_def at_rest_def Let_def split_def)
  have "has_reaction_rows ?db (m_id m)" unfolding rows_after_flag rows_after_insert by simp
  moreover have "x \<in> set (messages ?db) \<Longrightarrow> m_id x = m_id m \<Longrightarrow> \<not> m_has_reactions x" for x
    by (rule flag_of_cleared)
  ultimately show ?thesis unfolding s by (simp add: at_rest_def shown_reactions del: flag_fields)
qed

section \<open>Reading reactions\<close>

definition added_after :: "timestamp \<Rightarrow> reaction_statement list \<Rightarrow> bool" where
  "added_after t xs = list_all (\<lambda>x. case x of AddReaction _ _ _ clock \<Rightarrow> t < clock | _ \<Rightarrow> True) xs"

lemma step_state [simp]:
  "core (rx_db (reaction_step x s)) = core (rx_db s)"
  "thread_user_states (rx_db (reaction_step x s)) = thread_user_states (rx_db s)"
  by (cases x; simp add: Let_def split_def insert_fields)+

lemma schedule_state [simp]:
  "core (rx_db (fold reaction_step xs s)) = core (rx_db s)"
  "thread_user_states (rx_db (fold reaction_step xs s)) = thread_user_states (rx_db s)"
  by (induction xs arbitrary: s) simp_all

lemma step_rows:
  assumes "r \<in> set (message_reactions (rx_db (reaction_step x s)))" and "added_after t [x]"
  shows "r \<in> set (message_reactions (rx_db s)) \<or> t < mr_created_at r"
  using assms
  by (cases x) (auto simp: added_after_def Let_def split_def insert_fields insert_or_ignore_def row_simps
      split: if_splits)

lemma schedule_rows:
  "r \<in> set (message_reactions (rx_db (fold reaction_step xs s))) \<Longrightarrow> added_after t xs \<Longrightarrow>
   r \<in> set (message_reactions (rx_db s)) \<or> t < mr_created_at r"
proof (induction xs arbitrary: s)
  case Nil
  then show ?case by simp
next
  case (Cons x xs)
  from Cons.prems have "added_after t xs" and x: "added_after t [x]" by (simp_all add: added_after_def)
  with Cons.IH [of "reaction_step x s"] Cons.prems(1)
  have "r \<in> set (message_reactions (rx_db (reaction_step x s))) \<or> t < mr_created_at r" by simp
  with step_rows [OF _ x] show ?case by blast
qed

lemma cursor_unchanged:
  "core db' = core db \<Longrightarrow> thread_user_states db' = thread_user_states db \<Longrightarrow>
   reactions_cursor db' = reactions_cursor db"
  by (simp add: reactions_cursor_def fun_eq_iff split: option.split)

lemma acknowledged_state:
  assumes "acknowledge_chat_reactions uid chat_id scope (Some t) clock now db_now (db, reg) = Inr (n, db', reg')"
    and "t \<le> clock"
  shows "message_reactions db' = message_reactions db \<and> messages db' = messages db \<and>
    n = count_chat_unread_reactions db' uid chat_id scope \<and>
    reactions_cursor db' uid chat_id scope =
      Some (case reactions_cursor db uid chat_id scope of None \<Rightarrow> t | Some b \<Rightarrow> max b t)"
proof (cases scope)
  case None
  have "check_membership (core db) chat_id uid = Inr ()" and ran:
    "(n, db') = acknowledge_chat_unread_reactions uid chat_id None (Some t) clock now db_now db"
    using assms(1) None by (auto simp: acknowledge_chat_reactions_def result_simps Let_def split_def prod_eq_iff)
  then obtain m where "first_row (is_membership_of (chat_id, uid)) (memberships (core db)) = Some m"
    by (cases "first_row (is_membership_of (chat_id, uid)) (memberships (core db))")
      (auto simp: check_membership_def row_simps)
  with ran assms(2) None show ?thesis
    by (simp add: acknowledge_chat_unread_reactions_def Let_def reactions_cursor_def min_absorb1
        membership_table.find_update membership_key_def)
next
  case (Some root_id)
  let ?same = "is_thread_state_of (chat_id, root_id, uid)"
  let ?ensured = "ensure_thread_user_state chat_id root_id uid False now db_now db"
  have ran: "(n, db') = acknowledge_chat_unread_reactions uid chat_id (Some root_id) (Some t) clock now db_now db"
    using assms(1) Some by (auto simp: acknowledge_chat_reactions_def result_simps Let_def split_def prod_eq_iff)
  have ensured: "first_row ?same (thread_user_states (snd ?ensured)) =
      Some (case first_row ?same (thread_user_states db) of
        None \<Rightarrow> new_thread_state chat_id root_id uid 0 False db_now | Some s \<Rightarrow> s)"
    "fst ?ensured \<longleftrightarrow> first_row ?same (thread_user_states db) = None"
    "messages (snd ?ensured) = messages db" "message_reactions (snd ?ensured) = message_reactions db"
    by (simp_all add: ensure_thread_user_state_def Let_def thread_state_table.find_insert exists_row_first
        thread_state_key_def new_thread_state_def split: option.split)
  from ran assms(2) Some show ?thesis
    by (cases "first_row ?same (thread_user_states db)")
      (simp_all add: acknowledge_chat_unread_reactions_def Let_def split_def reactions_cursor_def min_absorb1
        thread_state_table.find_update thread_state_key_def ensured)
qed

lemma listed_ids:
  assumes "length (list_chat_unread_reactions db uid chat_id scope limit t after) < limit"
  shows "set (list_chat_unread_reactions db uid chat_id scope limit t after) =
    mr_message_id ` {r \<in> set (message_reactions db).
      unread_reaction db uid chat_id scope r \<and> mr_created_at r \<le> t \<and> later_than after (mr_created_at r)}"
  using assms unfolding list_chat_unread_reactions_def by (simp add: row_simps min_def split: if_splits)

text \<open>C8: A member who acknowledges the unread reactions through a snapshot, whatever was added or
  removed in between, is left exactly the reactions that were not there at the snapshot; and a
  snapshot shorter than its limit listed every message with an unread reaction.\<close>

theorem acknowledged_snapshot_exact:
  assumes snapshot: "get_chat_reactions uid chat_id scope max_ids None t (rx_db s) = Inr (read_through, ids)"
    and "\<forall>r \<in> set (message_reactions (rx_db s)). mr_created_at r \<le> t"
    and "\<forall>b. reactions_cursor (rx_db s) uid chat_id scope = Some b \<longrightarrow> b \<le> t"
    and "added_after t xs" and "t \<le> clock"
    and ack: "acknowledge_chat_reactions uid chat_id scope (Some read_through) clock now db_now
      (rx_db (fold reaction_step xs s), reg) = Inr (n, db', reg')"
  shows "(\<forall>r \<in> set (message_reactions db'). unread_reaction db' uid chat_id scope r \<longleftrightarrow>
      reaction_in_scope db' uid chat_id scope r \<and> r \<notin> set (message_reactions (rx_db s))) \<and>
    n = count_chat_unread_reactions db' uid chat_id scope \<and>
    (length ids < validate_limit max_ids max_unread_count \<longrightarrow>
      set ids = mr_message_id ` {r \<in> set (message_reactions (rx_db s)). unread_reaction (rx_db s) uid chat_id scope r})"
proof -
  let ?mid = "rx_db (fold reaction_step xs s)"
  from snapshot have read: "read_through = t"
    and ids: "ids = list_chat_unread_reactions (rx_db s) uid chat_id scope (validate_limit max_ids max_unread_count) t None"
    by (auto simp: get_chat_reactions_def result_simps)
  have state: "message_reactions db' = message_reactions ?mid" "n = count_chat_unread_reactions db' uid chat_id scope"
    "reactions_cursor db' uid chat_id scope =
      Some (case reactions_cursor (rx_db s) uid chat_id scope of None \<Rightarrow> t | Some b \<Rightarrow> max b t)"
    using acknowledged_state [OF ack [unfolded read] assms(5)] cursor_unchanged [of ?mid "rx_db s"] by simp_all
  then have "reactions_cursor db' uid chat_id scope = Some t"
    using assms(3) by (auto simp: max_def split: option.split)
  then have "unread_reaction db' uid chat_id scope r \<longleftrightarrow>
      reaction_in_scope db' uid chat_id scope r \<and> t < mr_created_at r" for r
    by (simp add: unread_reaction_def later_than_def)
  moreover have "t < mr_created_at r \<longleftrightarrow> r \<notin> set (message_reactions (rx_db s))"
    if "r \<in> set (message_reactions db')" for r
    using schedule_rows [OF that [unfolded state(1)] assms(4)] assms(2) by fastforce
  moreover have "set ids = mr_message_id ` {r \<in> set (message_reactions (rx_db s)). unread_reaction (rx_db s) uid chat_id scope r}"
    if "length ids < validate_limit max_ids max_unread_count"
    using listed_ids [OF that [unfolded ids]] assms(2) unfolding ids by (simp add: later_than_def) (metis (no_types, lifting))
  ultimately show ?thesis using state(2) by blast
qed

section \<open>A small chat with a reaction\<close>

definition sample_reacted :: chat_db where
  "sample_reacted = sample_group_chat\<lparr>
     messages := [sample_message 100 2 None, (sample_message 103 2 None)\<lparr>m_has_reactions := True\<rparr>],
     message_reactions := [\<lparr>mr_message_id = 103, mr_user_uid = 1, mr_emoji = [33], mr_created_at = 104,
       mr_message_author_uid = 2\<rparr>]\<rparr>"

definition sample_schedule :: "reaction_statement list" where
  "sample_schedule = [DeleteReactionRow 1 103 [33], AddReaction (sample_message 103 2 None) 1 [63] 110,
     CountReactions 103]"

lemma sample_reactions_ok: "reactions_ok sample_reacted"
  by code_simp

lemma at_rest_iff: "s = at_rest (rx_db s) \<longleftrightarrow> length (rx_deciding s) = 0 \<and> length (rx_clearing s) = 0"
  by (cases s) (simp add: at_rest_def)

theorem reaction_schedule_exact_witness:
  "reactions_ok (rx_db (fold reaction_step sample_schedule (at_rest sample_reacted)))"
proof (rule conjunct1, rule reaction_schedule_exact [OF sample_reactions_ok])
  show "gap_free sample_schedule (at_rest sample_reacted)" by code_simp
  have "length (rx_deciding (fold reaction_step sample_schedule (at_rest sample_reacted))) = 0"
    and "length (rx_clearing (fold reaction_step sample_schedule (at_rest sample_reacted))) = 0" by code_simp+
  then show "fold reaction_step sample_schedule (at_rest sample_reacted) =
      at_rest (rx_db (fold reaction_step sample_schedule (at_rest sample_reacted)))" by (simp add: at_rest_iff)
qed

theorem acknowledged_snapshot_exact_witness:
  "\<exists>n db' reg'. acknowledge_chat_reactions 2 10 None (Some 105) 120 0 0
      (rx_db (fold reaction_step sample_schedule (at_rest sample_reacted)), registry_new) = Inr (n, db', reg') \<and>
    (\<forall>r \<in> set (message_reactions db'). unread_reaction db' 2 10 None r \<longleftrightarrow>
      reaction_in_scope db' 2 10 None r \<and> r \<notin> set (message_reactions sample_reacted))"
proof -
  let ?s = "at_rest sample_reacted"
  let ?ack = "acknowledge_chat_reactions 2 10 None (Some 105) 120 0 0 (rx_db (fold reaction_step sample_schedule ?s), registry_new)"
  have "\<not> isl ?ack" by code_simp
  then obtain n db' reg' where ack: "?ack = Inr (n, db', reg')" by (cases ?ack) auto
  have start: "rx_db ?s = sample_reacted" by (simp add: at_rest_def)
  have snapshot: "get_chat_reactions 2 10 None None None 105 (rx_db ?s) = Inr (105, [103])" by code_simp
  have earlier: "\<forall>r \<in> set (message_reactions (rx_db ?s)). mr_created_at r \<le> 105" by code_simp
  have "reactions_cursor (rx_db ?s) 2 10 None = Some 0" by code_simp
  then have cursor: "\<forall>b. reactions_cursor (rx_db ?s) 2 10 None = Some b \<longrightarrow> b \<le> 105" by simp
  have added: "added_after 105 sample_schedule" by code_simp
  have "(105 :: timestamp) \<le> 120" by linarith
  note exact = acknowledged_snapshot_exact [OF snapshot earlier cursor added this ack]
  then have "\<forall>r \<in> set (message_reactions db'). unread_reaction db' 2 10 None r \<longleftrightarrow>
      reaction_in_scope db' 2 10 None r \<and> r \<notin> set (message_reactions (rx_db ?s))" by (rule conjunct1)
  with ack show ?thesis unfolding start by blast
qed

theorem reaction_added_in_gap_hidden_witness:
  "has_reaction_rows (rx_db (fold reaction_step
     (removal_gap ((sample_message 103 2 None)\<lparr>m_has_reactions := True\<rparr>) 1 [33] 2 [63] 110) (at_rest sample_reacted))) 103"
proof -
  let ?m = "(sample_message 103 2 None)\<lparr>m_has_reactions := True\<rparr>"
  let ?r = "\<lparr>mr_message_id = 103, mr_user_uid = 1, mr_emoji = [33], mr_created_at = 104, mr_message_author_uid = 2\<rparr>"
  have "?m \<in> set (messages sample_reacted)" by (simp add: sample_reacted_def)
  moreover have "filter (\<lambda>r. mr_message_id r = m_id ?m) (message_reactions sample_reacted) = [?r]"
    by (simp add: sample_reacted_def sample_message_def)
  ultimately have "has_reaction_rows (rx_db (fold reaction_step
      (removal_gap ?m (mr_user_uid ?r) (mr_emoji ?r) 2 [63] 110) (at_rest sample_reacted))) (m_id ?m)"
    by (rule reaction_added_in_gap_hidden [OF sample_reactions_ok _ _ refl, THEN conjunct2, THEN conjunct1])
  then show ?thesis by (simp add: sample_message_def)
qed

end
