(* ===== verification/Audio_Publication.thy ===== *)
theory Audio_Publication
  imports Send_Guarantees
begin

text \<open>
  The audio worker of \<open>backend/src/services/audio_transcode/mod.rs\<close>: a voice message is stored
  unpublished, queued, brought into the canonical format and then published, which is when its
  thread or chat counts it and the members are told. The object store and the encoder are a
  parameter; other requests run between the moment the worker reads the message and the moment it
  publishes it.
\<close>

section \<open>File names\<close>

text \<open>\<open>std::path::Path\<close>: the last component that is a name, and its parts around the last dot. 47 is the
  slash, 46 the dot.\<close>

fun split_slash :: "ustr \<Rightarrow> ustr list" where
  "split_slash [] = [[]]"
| "split_slash (c # cs) =
     (if c = 47 then [] # split_slash cs
      else case split_slash cs of [] \<Rightarrow> [[c]] | p # ps \<Rightarrow> (c # p) # ps)"

definition path_file_name :: "ustr \<Rightarrow> ustr option" where
  "path_file_name path =
     (case rev (filter (\<lambda>p. p \<noteq> [] \<and> p \<noteq> [46]) (split_slash path)) of
        [] \<Rightarrow> None
      | p # _ \<Rightarrow> if p = [46, 46] then None else Some p)"

definition name_before_dot :: "ustr \<Rightarrow> ustr option" where
  "name_before_dot name =
     (case dropWhile (\<lambda>c. c \<noteq> 46) (rev name) of [] \<Rightarrow> None | _ # before \<Rightarrow> if before = [] then None else Some (rev before))"

definition path_file_stem :: "ustr \<Rightarrow> ustr option" where
  "path_file_stem path =
     map_option (\<lambda>name. case name_before_dot name of None \<Rightarrow> name | Some before \<Rightarrow> before) (path_file_name path)"

definition path_extension :: "ustr \<Rightarrow> ustr option" where
  "path_extension path =
     Option.bind (path_file_name path) (\<lambda>name.
       map_option (\<lambda>_. rev (takeWhile (\<lambda>c. c \<noteq> 46) (rev name))) (name_before_dot name))"

definition ascii_lowercase :: "nat \<Rightarrow> nat" where
  "ascii_lowercase c = (if 65 \<le> c \<and> c \<le> 90 then c + 32 else c)"

definition is_canonical_attachment :: "attachment \<Rightarrow> bool" where
  "is_canonical_attachment a \<longleftrightarrow>
     at_kind a = ascii ''audio/ogg'' \<and>
     (case path_extension (at_file_name a) of None \<Rightarrow> False
      | Some ext \<Rightarrow> map ascii_lowercase ext = ascii ''ogg'')"

definition canonical_file_name :: "ustr \<Rightarrow> ustr" where
  "canonical_file_name original =
     (case path_file_stem original of
        None \<Rightarrow> ascii ''audio''
      | Some stem \<Rightarrow> if stem = [] then ascii ''audio'' else stem) @ ascii ''.ogg''"

section \<open>One message\<close>

text \<open>Downloading, encoding and uploading: the new object's key and size, or a failure.\<close>

type_synonym transcoder = "attachment \<Rightarrow> (ustr \<times> int) option"

datatype audio_publish_outcome = PublishDone "attachment option" | PublishFailed

definition transcode_attachment :: "transcoder \<Rightarrow> attachment \<Rightarrow> attachment option" where
  "transcode_attachment transcode a =
     map_option (\<lambda>(storage_key, size).
       a\<lparr>at_file_name := canonical_file_name (at_file_name a), at_kind := ascii ''audio/ogg'',
         at_external_reference := storage_key, at_size := size, at_width := None, at_height := None\<rparr>)
       (transcode a)"

definition load_primary_attachment :: "chat_db \<Rightarrow> snowflake \<Rightarrow> attachment option" where
  "load_primary_attachment db message_id =
     (case attachments_of db message_id of [] \<Rightarrow> None | a # _ \<Rightarrow> Some a)"

text \<open>What the worker reads first: nothing to do, or the message and its attachment.\<close>

definition load_audio :: "chat_db \<Rightarrow> snowflake \<Rightarrow> app_error + (message_row \<times> attachment option) option" where
  "load_audio db message_id =
     and_then (ok_or (first_row (\<lambda>m. m_id m = message_id) (messages db)) (NotFound ''Message not found'')) (\<lambda>m.
       if m_deleted_at m \<noteq> None \<or> m_message_type m \<noteq> Audio then Inr None
       else if m_transcode_status m = TranscodeDone \<or> m_transcode_status m = TranscodeFailed then Inr None
       else Inr (Some (m, load_primary_attachment db (m_id m))))"

definition transcode_outcome :: "transcoder \<Rightarrow> attachment option \<Rightarrow> audio_publish_outcome" where
  "transcode_outcome transcode current =
     (case current of
        None \<Rightarrow> PublishFailed
      | Some a \<Rightarrow> if is_canonical_attachment a then PublishDone None
          else case transcode_attachment transcode a of
              None \<Rightarrow> PublishFailed
            | Some new_attachment \<Rightarrow> PublishDone (Some new_attachment))"

definition swap_attachment :: "audio_publish_outcome \<Rightarrow> chat_db \<Rightarrow> chat_db" where
  "swap_attachment outcome db =
     (case outcome of
        PublishDone (Some new_attachment) \<Rightarrow>
          db\<lparr>attachments := update_rows (\<lambda>a. at_id a = at_id new_attachment)
               (\<lambda>a. a\<lparr>at_file_name := at_file_name new_attachment, at_kind := at_kind new_attachment,
                      at_external_reference := at_external_reference new_attachment,
                      at_size := at_size new_attachment, at_width := at_width new_attachment,
                      at_height := at_height new_attachment\<rparr>) (attachments db)\<rparr>
      | _ \<Rightarrow> db)"

definition outcome_status :: "audio_publish_outcome \<Rightarrow> transcode_status" where
  "outcome_status outcome = (case outcome of PublishDone _ \<Rightarrow> TranscodeDone | PublishFailed \<Rightarrow> TranscodeFailed)"

definition set_published :: "snowflake \<Rightarrow> transcode_status \<Rightarrow> chat_db \<Rightarrow> chat_db" where
  "set_published message_id status db =
     db\<lparr>messages := update_rows (\<lambda>m. m_id m = message_id)
          (\<lambda>m. m\<lparr>m_is_published := True, m_transcode_status := status\<rparr>) (messages db)\<rparr>"

text \<open>The transaction. \<open>message\<close> is the row read at the beginning.\<close>

definition publish_audio ::
  "message_row \<Rightarrow> audio_publish_outcome \<Rightarrow> chat_db \<Rightarrow> app_error + message_row \<times> chat_db" where
  "publish_audio message outcome db =
     (let db = set_published (m_id message) (outcome_status outcome) (swap_attachment outcome db)
      in and_then (ok_or (first_row (\<lambda>m. m_id m = m_id message) (messages db)) (DbQuery DbNotFound)) (\<lambda>updated.
        let db = (if \<not> m_is_published message \<and> m_reply_root_id updated = None
              then recalculate_group_last_message (m_chat_id updated) db else db);
            db = (if \<not> m_is_published message
              then (case m_reply_root_id updated of None \<Rightarrow> db
                | Some reply_root_id \<Rightarrow> set_has_thread reply_root_id True
                    (increment_thread_meta (m_chat_id updated) reply_root_id (m_created_at updated) db))
              else db)
        in Inr (updated, db)))"

definition swapped :: "audio_publish_outcome \<Rightarrow> bool" where
  "swapped outcome = (case outcome of PublishDone (Some _) \<Rightarrow> True | _ \<Rightarrow> False)"

text \<open>Telling the members: an update when the message was already visible, otherwise what a send
  announces, and for a reply its root and the thread's subscribers.\<close>

definition first_response :: "view_context \<Rightarrow> chat_db \<Rightarrow> uid \<Rightarrow> message_row \<Rightarrow> string \<Rightarrow> app_error + message_response" where
  "first_response vc db uid m failure =
     (case attach_metadata vc db uid [m] of [] \<Rightarrow> Inl (Internal failure) | r # _ \<Rightarrow> Inr r)"

definition announce_root ::
  "view_context \<Rightarrow> message_row \<Rightarrow> uid list \<Rightarrow> snowflake \<Rightarrow> chat_db \<Rightarrow> chat_payload registry \<Rightarrow>
   app_error + chat_payload registry" where
  "announce_root vc message uids thread_root_id db r =
     and_then
       (case first_row (\<lambda>m. m_id m = thread_root_id \<and> m_deleted_at m = None \<and> m_is_published m) (messages db) of
          None \<Rightarrow> Inr r
        | Some root_msg \<Rightarrow>
            and_then (first_response vc db (m_sender_uid message) root_msg ''Failed to build thread root response'')
              (\<lambda>root_response. Inr (broadcast_to_uids uids (WsMessageUpdated (MessagePayload root_response)) r)))
       (\<lambda>r. Inr (broadcast_thread_update_to_subscribers db (m_chat_id message) thread_root_id r))"

definition announce_audio ::
  "view_context \<Rightarrow> message_row \<Rightarrow> audio_publish_outcome \<Rightarrow> message_row \<Rightarrow> chat_db \<Rightarrow>
   chat_payload registry \<times> push_job list \<Rightarrow> app_error + chat_db \<times> chat_payload registry \<times> push_job list" where
  "announce_audio vc message outcome updated db s =
     (case s of (r, jobs) \<Rightarrow>
       and_then (first_response vc db (m_sender_uid message) updated ''Failed to build message response'') (\<lambda>response.
         if m_is_published message
         then Inr (db, if swapped outcome
             then broadcast_to_uids (member_uids (core db) (r_chat_id response) (\<lambda>_. True))
                    (WsMessageUpdated (MessagePayload response)) r else r, jobs)
         else let (fx, db) = build_message_side_effects vc response (m_sender_uid message) (m_chat_id message) True True db;
                  (r, jobs) = fire fx (r, jobs)
              in and_then (case r_reply_root_id response of None \<Rightarrow> Inr r
                   | Some t \<Rightarrow> announce_root vc message (fx_broadcast_uids fx) t db r) (\<lambda>r. Inr (db, r, jobs))))"

text \<open>The job with nothing between its statements.\<close>

definition process_message ::
  "transcoder \<Rightarrow> view_context \<Rightarrow> snowflake \<Rightarrow> chat_db \<times> chat_payload registry \<times> push_job list \<Rightarrow>
   app_error + chat_db \<times> chat_payload registry \<times> push_job list" where
  "process_message transcode vc message_id s =
     (case s of (db, out) \<Rightarrow>
       and_then (load_audio db message_id) (\<lambda>found.
         case found of None \<Rightarrow> Inr s
         | Some (message, current) \<Rightarrow>
             let outcome = transcode_outcome transcode current
             in and_then (publish_audio message outcome db) (\<lambda>(updated, db).
                  announce_audio vc message outcome updated db out)))"

section \<open>The queue\<close>

text \<open>The bounded channel, the ids that are in it or being processed, and the id being processed.\<close>

record audio_transcode_service =
  ats_queue :: "snowflake list"
  ats_scheduled :: "snowflake set"
  ats_processing :: "snowflake option"

definition channel_buffer :: nat where "channel_buffer = 64"
definition backlog_refill_limit :: nat where "backlog_refill_limit = 200"

datatype enqueue_result = Queued | AlreadyScheduled | QueueFull

definition try_schedule :: "snowflake \<Rightarrow> audio_transcode_service \<Rightarrow> bool \<times> audio_transcode_service" where
  "try_schedule i sv =
     (if i \<in> ats_scheduled sv then (False, sv)
      else if ats_processing sv = Some i then (False, sv)
      else (True, sv\<lparr>ats_scheduled := insert i (ats_scheduled sv)\<rparr>))"

definition audio_enqueue :: "snowflake \<Rightarrow> audio_transcode_service \<Rightarrow> enqueue_result \<times> audio_transcode_service" where
  "audio_enqueue i sv =
     (let (fresh, sv) = try_schedule i sv
      in if \<not> fresh then (AlreadyScheduled, sv)
         else if length (ats_queue sv) < channel_buffer then (Queued, sv\<lparr>ats_queue := ats_queue sv @ [i]\<rparr>)
         else (QueueFull, sv\<lparr>ats_scheduled := ats_scheduled sv - {i}\<rparr>))"

definition start_processing :: "snowflake \<Rightarrow> audio_transcode_service \<Rightarrow> audio_transcode_service" where
  "start_processing i sv = sv\<lparr>ats_processing := Some i\<rparr>"

definition finish_processing :: "snowflake \<Rightarrow> audio_transcode_service \<Rightarrow> audio_transcode_service" where
  "finish_processing i sv =
     sv\<lparr>ats_processing := (if ats_processing sv = Some i then None else ats_processing sv),
        ats_scheduled := ats_scheduled sv - {i}\<rparr>"

definition clear_processing_after_panic :: "audio_transcode_service \<Rightarrow> audio_transcode_service" where
  "clear_processing_after_panic sv =
     (case ats_processing sv of None \<Rightarrow> sv
      | Some i \<Rightarrow> sv\<lparr>ats_processing := None, ats_scheduled := ats_scheduled sv - {i}\<rparr>)"

text \<open>The backlog: rows from before the status existed become pending, and the newest pending ones
  are queued until the channel is full.\<close>

definition legacy_audio :: "message_row \<Rightarrow> bool" where
  "legacy_audio m \<longleftrightarrow>
     m_message_type m = Audio \<and> m_deleted_at m = None \<and> m_is_published m \<and> m_transcode_status m = TranscodeNone"

definition pending_audio :: "message_row \<Rightarrow> bool" where
  "pending_audio m \<longleftrightarrow>
     m_message_type m = Audio \<and> m_deleted_at m = None \<and> m_transcode_status m = TranscodePending"

definition newest_audio :: "(message_row \<Rightarrow> bool) \<Rightarrow> chat_db \<Rightarrow> snowflake list" where
  "newest_audio P db = take backlog_refill_limit (rev (sort (map m_id (select_rows P (messages db)))))"

definition mark_legacy_pending :: "chat_db \<Rightarrow> chat_db" where
  "mark_legacy_pending db =
     (let legacy_ids = newest_audio legacy_audio db
      in if legacy_ids = [] then db
         else db\<lparr>messages := update_rows (\<lambda>m. m_id m \<in> set legacy_ids)
                (\<lambda>m. m\<lparr>m_transcode_status := TranscodePending\<rparr>) (messages db)\<rparr>)"

fun enqueue_until_full :: "snowflake list \<Rightarrow> audio_transcode_service \<Rightarrow> audio_transcode_service" where
  "enqueue_until_full [] sv = sv"
| "enqueue_until_full (i # is) sv =
     (case audio_enqueue i sv of (QueueFull, sv) \<Rightarrow> sv | (_, sv) \<Rightarrow> enqueue_until_full is sv)"

definition refill_pending_jobs ::
  "chat_db \<times> audio_transcode_service \<Rightarrow> chat_db \<times> audio_transcode_service" where
  "refill_pending_jobs s =
     (let db = mark_legacy_pending (fst s)
      in (db, enqueue_until_full (newest_audio pending_audio db) (snd s)))"

text \<open>The worker's events: a request queues a message, the worker receives one, finishes it, or
  panics and starts again.\<close>

datatype queue_event = EnqueueMessage snowflake | Receive | Finish | Panic | Refill chat_db

definition queue_step :: "queue_event \<Rightarrow> audio_transcode_service \<Rightarrow> audio_transcode_service" where
  "queue_step e sv =
     (case e of
        EnqueueMessage i \<Rightarrow> snd (audio_enqueue i sv)
      | Receive \<Rightarrow> (if ats_processing sv \<noteq> None then sv
          else case ats_queue sv of [] \<Rightarrow> sv | i # rest \<Rightarrow> start_processing i (sv\<lparr>ats_queue := rest\<rparr>))
      | Finish \<Rightarrow> (case ats_processing sv of None \<Rightarrow> sv | Some i \<Rightarrow> finish_processing i sv)
      | Panic \<Rightarrow> clear_processing_after_panic sv
      | Refill db \<Rightarrow> snd (refill_pending_jobs (db, sv)))"

definition audio_service_new :: audio_transcode_service where
  "audio_service_new = \<lparr>ats_queue = [], ats_scheduled = {}, ats_processing = None\<rparr>"

section \<open>The canonical format\<close>

lemma split_slash_pieces: "p \<in> set (split_slash s) \<Longrightarrow> 47 \<notin> set p"
proof (induction s arbitrary: p)
  case Nil
  then show ?case by simp
next
  case (Cons c cs)
  show ?case
  proof (cases "c = 47")
    case True
    with Cons show ?thesis by auto
  next
    case other: False
    show ?thesis
    proof (cases "split_slash cs")
      case Nil
      with Cons.prems other show ?thesis by simp
    next
      case (Cons q qs)
      then have "47 \<notin> set q" and rest: "x \<in> set qs \<Longrightarrow> 47 \<notin> set x" for x
        using Cons.IH by simp_all
      moreover have "p = c # q \<or> p \<in> set qs" using Cons.prems other Cons by simp
      ultimately show ?thesis using other by auto
    qed
  qed
qed

lemma split_slash_whole: "47 \<notin> set s \<Longrightarrow> split_slash s = [s]"
  by (induction s rule: split_slash.induct) auto

lemma file_name_piece:
  assumes "path_file_name path = Some name"
  shows "47 \<notin> set name" and "name \<noteq> []"
proof -
  from assms obtain rest where "rev (filter (\<lambda>p. p \<noteq> [] \<and> p \<noteq> [46]) (split_slash path)) = name # rest"
    unfolding path_file_name_def by (simp split: list.splits if_splits)
  from arg_cong [OF this, of set] have "name \<in> set (split_slash path) \<and> name \<noteq> []" by auto
  then show "47 \<notin> set name" and "name \<noteq> []" by (auto dest: split_slash_pieces)
qed

lemma before_dot:
  assumes "name_before_dot name = Some before"
  shows "before \<noteq> []" and "set before \<subseteq> set name"
proof -
  from assms obtain c rest where rest: "dropWhile (\<lambda>c. c \<noteq> 46) (rev name) = c # rest" "before = rev rest" "rest \<noteq> []"
    by (auto simp: name_before_dot_def split: list.splits if_splits)
  then show "before \<noteq> []" by simp
  have "set (c # rest) \<subseteq> set (rev name)" unfolding rest(1) [symmetric] by (auto dest: set_dropWhileD)
  then show "set before \<subseteq> set name" by (auto simp: rest(2))
qed

lemma file_stem_piece: "path_file_stem path = Some stem \<Longrightarrow> 47 \<notin> set stem \<and> stem \<noteq> []"
  by (auto simp: path_file_stem_def split: option.splits dest: file_name_piece before_dot)

lemma extension_of_appended:
  assumes "47 \<notin> set stem" and "stem \<noteq> []"
  shows "path_extension (stem @ ascii ''.ogg'') = Some (ascii ''ogg'')"
proof -
  have ascii: "ascii ''.ogg'' = [46, 111, 103, 103]" "ascii ''ogg'' = [111, 103, 103]" by (simp_all add: ascii_def)
  have "split_slash (stem @ [46, 111, 103, 103]) = [stem @ [46, 111, 103, 103]]"
    using assms(1) by (intro split_slash_whole) simp
  then have "path_file_name (stem @ [46, 111, 103, 103]) = Some (stem @ [46, 111, 103, 103])"
    by (simp add: path_file_name_def append_eq_Cons_conv)
  moreover have "name_before_dot (stem @ [46, 111, 103, 103]) = Some stem"
    using assms(2) by (simp add: name_before_dot_def)
  ultimately show ?thesis unfolding ascii path_extension_def by simp
qed

lemma canonical_name_extension: "path_extension (canonical_file_name original) = Some (ascii ''ogg'')"
proof -
  have "47 \<notin> set (ascii ''audio'')" and "ascii ''audio'' \<noteq> []" by (simp_all add: ascii_def)
  moreover have "path_file_stem original = Some stem \<Longrightarrow> 47 \<notin> set stem \<and> stem \<noteq> []" for stem
    by (rule file_stem_piece)
  ultimately show ?thesis unfolding canonical_file_name_def
    by (cases "path_file_stem original") (simp_all add: extension_of_appended)
qed

text \<open>What the encoder produced is not encoded again.\<close>

lemma transcoded_is_canonical:
  "transcode_attachment transcode a = Some b \<Longrightarrow> is_canonical_attachment b"
  by (auto simp: transcode_attachment_def is_canonical_attachment_def canonical_name_extension ascii_def
      ascii_lowercase_def)

section \<open>Publication and the books\<close>

lemma audio_fields [simp]:
  "messages (swap_attachment outcome db) = messages db"
  "core (swap_attachment outcome db) = core db"
  "thread_metas (swap_attachment outcome db) = thread_metas db"
  "thread_user_states (swap_attachment outcome db) = thread_user_states db"
  "core (set_published i st db) = core db"
  "thread_metas (set_published i st db) = thread_metas db"
  "thread_user_states (set_published i st db) = thread_user_states db"
  by (simp_all add: swap_attachment_def set_published_def split: audio_publish_outcome.split option.split)

definition published_row :: "snowflake \<Rightarrow> transcode_status \<Rightarrow> message_row \<Rightarrow> message_row" where
  "published_row i st y = (if m_id y = i then y\<lparr>m_is_published := True, m_transcode_status := st\<rparr> else y)"

lemma published_messages: "messages (set_published i st db) = map (published_row i st) (messages db)"
  by (simp add: set_published_def update_rows_def published_row_def)

lemma published_row_fields [simp]:
  "m_id (published_row i st y) = m_id y" "m_chat_id (published_row i st y) = m_chat_id y"
  "m_reply_root_id (published_row i st y) = m_reply_root_id y" "m_has_thread (published_row i st y) = m_has_thread y"
  "m_created_at (published_row i st y) = m_created_at y" "m_deleted_at (published_row i st y) = m_deleted_at y"
  "m_is_published (published_row i st y) = (m_id y = i \<or> m_is_published y)"
  "m_transcode_status (published_row i st y) = (if m_id y = i then st else m_transcode_status y)"
  by (simp_all add: published_row_def)

lemma publish_audio_Inr:
  assumes "publish_audio m outcome db = Inr (u, db')" and "distinct_keys m_id (messages db)"
  obtains x where "x \<in> set (messages db)" "m_id x = m_id m" "u = published_row (m_id m) (outcome_status outcome) x"
    "let db1 = set_published (m_id m) (outcome_status outcome) (swap_attachment outcome db)
     in db' = (if m_is_published m then db1
       else case m_reply_root_id x of None \<Rightarrow> recalculate_group_last_message (m_chat_id x) db1
         | Some t \<Rightarrow> set_has_thread t True (increment_thread_meta (m_chat_id x) t (m_created_at x) db1))"
proof -
  let ?db = "set_published (m_id m) (outcome_status outcome) (swap_attachment outcome db)"
  from assms(1) have u: "first_row (\<lambda>x. m_id x = m_id m) (messages ?db) = Some u"
    and db': "db' = (if m_is_published m then ?db
       else case m_reply_root_id u of None \<Rightarrow> recalculate_group_last_message (m_chat_id u) ?db
         | Some t \<Rightarrow> set_has_thread t True (increment_thread_meta (m_chat_id u) t (m_created_at u) ?db))"
    by (auto simp: publish_audio_def Let_def result_simps split: option.splits)
  from first_row_Some [OF u] obtain x where "x \<in> set (messages db)" "u = published_row (m_id m) (outcome_status outcome) x"
      "m_id u = m_id m" unfolding published_messages by auto
  moreover from this(2) have "m_chat_id u = m_chat_id x" "m_reply_root_id u = m_reply_root_id x"
      "m_created_at u = m_created_at x" by simp_all
  ultimately show thesis using db' by (intro that [of x]) (simp_all add: Let_def split: option.split)
qed

lemma threads_ok_map:
  assumes ok: "threads_ok db" and rows: "messages db' = map f (messages db)" "thread_metas db' = thread_metas db"
    and keep: "\<And>y. m_id (f y) = m_id y" "\<And>y. m_chat_id (f y) = m_chat_id y" "\<And>y. m_reply_root_id (f y) = m_reply_root_id y"
      "\<And>y. m_has_thread (f y) = m_has_thread y" "\<And>y. m_created_at (f y) = m_created_at y"
    and live: "\<And>y t. y \<in> set (messages db) \<Longrightarrow> live_reply t (f y) = live_reply t y"
  shows "threads_ok db'"
proof -
  have count: "live_count db' t = live_count db t" for t
    unfolding live_count_def rows count_rows_def filter_map length_map comp_def using live by (metis (mono_tags, lifting) filter_cong)
  have some: "(\<exists>m \<in> set (messages db'). live_reply t m \<and> l = Some (m_created_at m)) \<longleftrightarrow>
      (\<exists>m \<in> set (messages db). live_reply t m \<and> l = Some (m_created_at m))" for t l
    unfolding rows using live by (auto simp: keep)
  have "meta_ok db' c t = meta_ok db c t" for c t
    unfolding meta_ok_def meta_of_def count some rows(2) ..
  then have "thread_ok db' (f y) = thread_ok db y" for y by (simp add: thread_ok_def count keep)
  moreover have "replies_ok (messages db')"
    using ok keep by (auto simp: rows threads_ok_def intro: replies_ok_map)
  ultimately show ?thesis using ok by (auto simp: threads_ok_def rows distinct_keys_map keep)
qed

lemma names_map:
  assumes rows: "messages db' = map f (messages db)" and keep: "\<And>y. m_id (f y) = m_id y"
    and up: "\<And>y c. timeline_row c y \<Longrightarrow> timeline_row c (f y)" "\<And>y t. live_reply t y \<Longrightarrow> live_reply t (f y)"
  shows "names_chat db c pos \<Longrightarrow> names_chat db' c pos" and "names_thread db t pos \<Longrightarrow> names_thread db' t pos"
  unfolding names_chat_def names_thread_def rows using keep up by (auto split: option.splits)

lemma live_published:
  "live_reply t (published_row i st y) \<longleftrightarrow>
   live_reply t y \<or> m_id y = i \<and> m_reply_root_id y = Some t \<and> m_deleted_at y = None"
  by (auto simp: live_reply_def)

lemma count_one_more:
  assumes "distinct_keys m_id ms" and "x \<in> set ms" and "\<not> P x" and "P (f x)"
    and "\<And>y. y \<in> set ms \<Longrightarrow> m_id y \<noteq> m_id x \<Longrightarrow> P (f y) = P y"
  shows "count_rows P (map f ms) = count_rows P ms + 1"
  using assms
proof (induction ms)
  case Nil
  then show ?case by simp
next
  case (Cons y ms)
  show ?case
  proof (cases "y = x")
    case True
    then have "m_id x \<notin> m_id ` set ms" using Cons.prems(1) by (simp add: distinct_keys_def)
    then have "P (f z) = P z" if "z \<in> set ms" for z using Cons.prems(5) [of z] that by (metis image_eqI list.set_intros(2))
    then have "filter (P \<circ> f) ms = filter P ms" by (intro filter_cong) simp_all
    then have "length (filter P (map f ms)) = length (filter P ms)" by (simp add: filter_map)
    with True Cons.prems show ?thesis by (simp add: count_rows_def)
  next
    case False
    with Cons.prems have "x \<in> set ms" by simp
    with Cons.prems False have "m_id y \<noteq> m_id x" by (auto simp: distinct_keys_def)
    with Cons.prems have "P (f y) = P y" by simp
    moreover have "count_rows P (map f ms) = count_rows P ms + 1"
      using Cons.prems \<open>x \<in> set ms\<close> by (intro Cons.IH) (simp_all add: distinct_keys_def)
    ultimately show ?thesis by (simp add: count_rows_def)
  qed
qed

text \<open>What publication does to the threads: \<open>x\<close> is the row as it is then, \<open>published\<close> as it was read.\<close>

lemma published_books_quiet:
  assumes ok: "books_ok db" and x: "x \<in> set (messages db)" "m_id x = i"
    and quiet: "m_is_published x \<or> m_deleted_at x \<noteq> None \<or> m_reply_root_id x = None"
    and rows: "messages db' = map (published_row i st) (messages db)" "thread_metas db' = thread_metas db"
  shows "threads_ok db'"
proof (rule threads_ok_map [OF _ rows])
  show "threads_ok db" using ok by (simp add: books_ok_def)
  fix y t
  assume "y \<in> set (messages db)"
  moreover have "distinct_keys m_id (messages db)" using ok by (simp add: books_ok_def threads_ok_def)
  ultimately have "m_id y = i \<Longrightarrow> y = x" using x distinct_keys_eq by metis
  then show "live_reply t (published_row i st y) = live_reply t y"
    unfolding live_published using quiet by (auto simp: live_reply_def)
qed simp_all

lemma published_reply_counted:
  assumes ok: "threads_ok db" and x: "x \<in> set (messages db)" "m_id x = i" "m_reply_root_id x = Some t"
      "m_deleted_at x = None" "\<not> m_is_published x"
    and rows: "messages db' = map (\<lambda>y. if m_id y = t then y\<lparr>m_has_thread := True\<rparr> else y)
        (map (published_row i st) (messages db))"
      "thread_metas db' = thread_metas (increment_thread_meta (m_chat_id x) t (m_created_at x) db)"
  shows "threads_ok db'"
proof -
  let ?f = "\<lambda>y. if m_id y = t then y\<lparr>m_has_thread := True\<rparr> else y"
  let ?g = "\<lambda>y. ?f (published_row i st y)"
  have rows': "messages db' = map ?g (messages db)" by (simp add: rows)
  have keys: "distinct_keys m_id (messages db)" and replies: "replies_ok (messages db)"
    using ok by (simp_all add: threads_ok_def)
  have same: "y \<in> set (messages db) \<Longrightarrow> m_id y = i \<Longrightarrow> y = x" for y
    using keys x(1,2) distinct_keys_eq by metis
  have keep: "m_id (?g y) = m_id y" "m_chat_id (?g y) = m_chat_id y" "m_reply_root_id (?g y) = m_reply_root_id y"
    "m_created_at (?g y) = m_created_at y" "m_has_thread (?g y) = (m_id y = t \<or> m_has_thread y)" for y
    by simp_all
  have live: "live_reply t' (?g y) \<longleftrightarrow> live_reply t' y \<or> y = x \<and> t' = t" if "y \<in> set (messages db)" for y t'
    using same [OF that] x by (auto simp: live_published live_reply_def)
  have fresh: "\<not> live_reply t' x" for t' using x(5) by (simp add: live_reply_def)
  have count: "live_count db' t' = live_count db t' + of_bool (t' = t)" for t'
  proof (cases "t' = t")
    case True
    then show ?thesis
      unfolding live_count_def rows' using count_one_more [OF keys x(1), of "live_reply t" ?g] live [OF x(1)] fresh live
      by force
  next
    case False
    then have "live_reply t' (?g y) = live_reply t' y" if "y \<in> set (messages db)" for y
      unfolding live [OF that] by simp
    then have "filter (live_reply t' \<circ> ?g) (messages db) = filter (live_reply t') (messages db)"
      by (intro filter_cong refl) (simp only: comp_apply)
    with False show ?thesis by (simp add: live_count_def rows' count_rows_def filter_map)
  qed
  have some: "(\<exists>y \<in> set (messages db'). live_reply t' y \<and> l = Some (m_created_at y)) \<longleftrightarrow>
      (\<exists>y \<in> set (messages db). live_reply t' y \<and> l = Some (m_created_at y)) \<or> t' = t \<and> l = Some (m_created_at x)"
    for t' l
    unfolding rows' set_map bex_simps keep using live x(1) by blast
  have metas: "meta_of db' c t' = meta_of (increment_thread_meta (m_chat_id x) t (m_created_at x) db) c t'" for c t'
    by (simp add: meta_of_def rows)
  obtain r where r: "r \<in> set (messages db)" "m_id r = t" "m_chat_id r = m_chat_id x" "m_reply_root_id r = None"
    using replies x(1,3) unfolding replies_ok_def by blast
  have meta: "meta_ok db' (m_chat_id y) (m_id y)"
    if "meta_ok db (m_chat_id y) (m_id y)" "m_id y = t \<longrightarrow> m_chat_id y = m_chat_id x" for y
    using that unfolding meta_ok_def some count metas meta_of_increment
    by (cases "m_id y = t") (simp_all split: option.splits)
  have "thread_ok db' (?g y)" if y: "y \<in> set (messages db)" "m_reply_root_id y = None" for y
  proof -
    have old: "thread_ok db y" using ok y by (simp add: threads_ok_def)
    moreover have "m_id y = t \<longrightarrow> m_chat_id y = m_chat_id x" using y r keys distinct_keys_eq by metis
    ultimately have "meta_ok db' (m_chat_id y) (m_id y)" by (intro meta) (simp_all add: thread_ok_def)
    with old show ?thesis unfolding thread_ok_def keep by (auto simp: count)
  qed
  moreover have "distinct_keys m_id (messages db')" unfolding rows' using keys by (simp only: distinct_keys_map keep)
  moreover have "replies_ok (messages db')" unfolding rows' by (rule replies_ok_map [OF replies]) (simp_all only: keep)
  ultimately show ?thesis unfolding threads_ok_def rows' by (auto simp only: set_map keep image_iff)
qed

text \<open>Counting a reply that was deleted in the meantime.\<close>

lemma published_reply_overcounted:
  assumes ok: "threads_ok db" and x: "x \<in> set (messages db)" "m_id x = i" "m_reply_root_id x = Some t"
      "m_deleted_at x \<noteq> None"
    and rows: "messages db' = map (\<lambda>y. if m_id y = t then y\<lparr>m_has_thread := True\<rparr> else y)
        (map (published_row i st) (messages db))"
      "thread_metas db' = thread_metas (increment_thread_meta (m_chat_id x) t (m_created_at x) db)"
  shows "\<not> threads_ok db'"
proof
  assume "threads_ok db'"
  let ?g = "\<lambda>y. if m_id (published_row i st y) = t then (published_row i st y)\<lparr>m_has_thread := True\<rparr> else published_row i st y"
  have keys: "distinct_keys m_id (messages db)" using ok by (simp add: threads_ok_def)
  have "live_reply t (?g y) = live_reply t y" if "y \<in> set (messages db)" for y
    using that x keys distinct_keys_eq [OF keys that x(1)] by (auto simp: live_published)
  then have "filter (live_reply t \<circ> ?g) (messages db) = filter (live_reply t) (messages db)"
    by (intro filter_cong) simp_all
  then have count: "live_count db' t = live_count db t"
    by (simp add: live_count_def rows count_rows_def filter_map comp_def)
  obtain r where r: "r \<in> set (messages db)" "m_id r = t" "m_chat_id r = m_chat_id x" "m_reply_root_id r = None"
    using ok x(1,3) unfolding threads_ok_def replies_ok_def by blast
  have "?g r \<in> set (messages db')"
    unfolding rows set_map image_image by (rule imageI) (rule r(1))
  moreover have "m_id (?g r) = t" "m_chat_id (?g r) = m_chat_id x" "m_reply_root_id (?g r) = None"
    using r(2-4) by simp_all
  ultimately obtain r' where "r' \<in> set (messages db')" "m_id r' = t" "m_chat_id r' = m_chat_id x" "m_reply_root_id r' = None"
    by blast
  with \<open>threads_ok db'\<close> have "meta_ok db' (m_chat_id x) t" by (auto simp: threads_ok_def thread_ok_def)
  moreover have "meta_ok db (m_chat_id x) t" using ok r by (metis threads_ok_def thread_ok_def)
  moreover have "meta_of db' (m_chat_id x) t = meta_of (increment_thread_meta (m_chat_id x) t (m_created_at x) db) (m_chat_id x) t"
    by (simp add: meta_of_def rows)
  ultimately show False unfolding meta_ok_def count meta_of_increment by (simp split: option.splits)
qed

lemma increment_fields [simp]:
  "messages (increment_thread_meta c t sent db) = messages db" "core (increment_thread_meta c t sent db) = core db"
  "thread_user_states (increment_thread_meta c t sent db) = thread_user_states db"
  by (simp_all add: increment_thread_meta_def)

lemma increment_metas_cong:
  "thread_metas db' = thread_metas db \<Longrightarrow>
   thread_metas (increment_thread_meta c t sent db') = thread_metas (increment_thread_meta c t sent db)"
  by (simp add: increment_thread_meta_def)

lemma candidate_published:
  "last_candidate c (published_row i st y) \<longleftrightarrow>
   last_candidate c y \<or> m_id y = i \<and> m_chat_id y = c \<and> m_deleted_at y = None \<and> m_reply_root_id y = None"
  by (auto simp: last_candidate_def)

lemma last_unmoved:
  assumes "messages db' = map f (messages db)" and "\<And>y. m_id (f y) = m_id y"
    and "\<And>y. y \<in> set (messages db) \<Longrightarrow> last_candidate (g_id g) (f y) = last_candidate (g_id g) y"
  shows "last_ok db' g = last_ok db g"
proof -
  have "newest_id P (map f ms) = newest_id P ms" if "\<forall>y \<in> set ms. P (f y) = P y" for P ms
  proof (cases "newest_id P ms")
    case None
    then have "newest_id P (map f ms) = None" using that unfolding newest_id_None by simp
    with None show ?thesis by simp
  next
    case (Some i)
    then have "newest_id P (map f ms) = Some i" using that unfolding newest_id_iff by (auto simp: assms(2))
    with Some show ?thesis by simp
  qed
  with assms(3) show ?thesis by (simp add: last_ok_def assms(1))
qed

lemma published_positions:
  assumes "positions_ok db" and "messages db' = map f (messages db)"
    and "f = published_row i st \<or> f = (\<lambda>y. if m_id y = t then y\<lparr>m_has_thread := True\<rparr> else y) \<circ> published_row i st"
    and "memberships (core db') = memberships (core db)" "thread_user_states db' = thread_user_states db"
  shows "positions_ok db'"
proof -
  have "m_id (f y) = m_id y" "timeline_row c y \<Longrightarrow> timeline_row c (f y)" "live_reply r y \<Longrightarrow> live_reply r (f y)" for y c r
    using assms(3) by (auto simp: timeline_row_def live_reply_def split: if_splits)
  from names_map [OF assms(2) this] assms(1,4,5) show ?thesis unfolding positions_ok_iff by auto
qed

lemma published_chat_message:
  assumes ok: "books_ok db" "positions_ok db" and x: "x \<in> set (messages db)" "m_id x = i"
    and quiet: "m_is_published x \<or> m_reply_root_id x = None"
    and db1: "messages db1 = map (published_row i st) (messages db)" "core db1 = core db"
      "thread_metas db1 = thread_metas db" "thread_user_states db1 = thread_user_states db"
    and db': "db' = (if m_is_published x then db1 else recalculate_group_last_message (m_chat_id x) db1)"
  shows "books_ok db' \<and> positions_ok db'"
proof -
  have keys: "distinct_keys m_id (messages db)" using ok by (simp add: books_ok_def threads_ok_def)
  then have same: "y \<in> set (messages db) \<Longrightarrow> m_id y = i \<Longrightarrow> y = x" for y using x distinct_keys_eq by metis
  have "threads_ok db'" unfolding db'
    using quiet by (intro published_books_quiet [OF ok(1) x, of _ st]) (auto simp: db1)
  moreover have "positions_ok db'" unfolding db'
    by (rule published_positions [OF ok(2), of _ "published_row i st" i st]) (simp_all add: db1)
  moreover have "map g_id (groups (core db')) = map g_id (groups (core db))" by (simp add: db' db1)
  then have "distinct_keys g_id (groups (core db'))" using ok(1) by (simp add: books_ok_def distinct_keys_def)
  moreover have "last_ok db' g" if g: "g \<in> set (groups (core db'))" for g
  proof (cases "m_is_published x")
    case True
    have "last_ok db1 g = last_ok db g"
      by (rule last_unmoved [OF db1(1)]) (use same True in \<open>auto simp: candidate_published last_candidate_def\<close>)
    with g ok(1) True show ?thesis by (simp add: db' db1 books_ok_def)
  next
    case False
    have "last_ok db1 h" if "h \<in> set (groups (core db1))" "g_id h \<noteq> m_chat_id x" for h
    proof -
      have "last_ok db1 h = last_ok db h"
        by (rule last_unmoved [OF db1(1)]) (use same that(2) in \<open>auto simp: candidate_published\<close>)
      with that(1) ok(1) show ?thesis by (simp add: db1 books_ok_def)
    qed
    with g False show ?thesis by (simp add: db' recalculate_last_ok)
  qed
  ultimately show ?thesis by (simp add: books_ok_def)
qed

lemma published_reply:
  assumes ok: "books_ok db" "positions_ok db" and x: "x \<in> set (messages db)" "m_id x = i" "m_reply_root_id x = Some t"
      "\<not> m_is_published x"
    and db1: "messages db1 = map (published_row i st) (messages db)" "core db1 = core db"
      "thread_metas db1 = thread_metas db" "thread_user_states db1 = thread_user_states db"
    and db': "db' = set_has_thread t True (increment_thread_meta (m_chat_id x) t (m_created_at x) db1)"
  shows "(books_ok db' \<longleftrightarrow> m_deleted_at x = None) \<and> positions_ok db'"
proof -
  let ?f = "\<lambda>y. if m_id y = t then y\<lparr>m_has_thread := True\<rparr> else y"
  have threads: "threads_ok db" using ok by (simp add: books_ok_def)
  then have same: "y \<in> set (messages db) \<Longrightarrow> m_id y = i \<Longrightarrow> y = x" for y
    using x distinct_keys_eq unfolding threads_ok_def by metis
  have rows: "messages db' = map ?f (map (published_row i st) (messages db))"
    "thread_metas db' = thread_metas (increment_thread_meta (m_chat_id x) t (m_created_at x) db)"
    unfolding db' messages_set_has_thread set_has_thread_simps increment_fields db1(1)
    by (simp, rule increment_metas_cong, rule db1(3))
  have state: "core db' = core db" "thread_user_states db' = thread_user_states db" by (simp_all add: db' db1)
  have "positions_ok db'"
    by (rule published_positions [OF ok(2), of _ "?f \<circ> published_row i st" i st t]) (simp_all add: rows state)
  moreover have "last_ok db' g = last_ok db g" for g
  proof (rule last_unmoved [of _ "?f \<circ> published_row i st"])
    show "messages db' = map (?f \<circ> published_row i st) (messages db)" by (simp add: rows)
    fix y
    assume "y \<in> set (messages db)"
    then have "m_id y = i \<Longrightarrow> m_reply_root_id y \<noteq> None" using same x(3) by blast
    then have "last_candidate (g_id g) (published_row i st y) = last_candidate (g_id g) y"
      by (auto simp: candidate_published)
    moreover have "last_candidate (g_id g) (?f z) = last_candidate (g_id g) z" for z
      by (simp add: last_candidate_def)
    ultimately show "last_candidate (g_id g) ((?f \<circ> published_row i st) y) = last_candidate (g_id g) y"
      by (simp only: comp_apply)
  qed simp
  moreover have "threads_ok db' \<longleftrightarrow> m_deleted_at x = None"
    using published_reply_counted [OF threads x(1-3) _ x(4) rows] published_reply_overcounted [OF threads x(1-3) _ rows]
    by blast
  ultimately show ?thesis using ok(1) by (simp add: books_ok_def state)
qed


definition sample_voice :: chat_db where
  "sample_voice = sample_group_chat\<lparr>messages := messages sample_group_chat @
     [(sample_message 104 1 (Some 100))\<lparr>m_message_type := Audio, m_is_published := False,
        m_transcode_status := TranscodePending\<rparr>]\<rparr>"


section \<open>Processing a message once\<close>

lemma announce_keeps_messages:
  assumes "announce_audio vc m outcome u db (r, jobs) = Inr (db', out)"
  shows "messages db' = messages db"
proof -
  have "messages (snd (build_message_side_effects vc resp a b c d db)) = messages db" for resp a b c d
    by (simp add: build_message_side_effects_def Let_def insert_mentions_def)
  with assms show ?thesis
    by (auto simp: announce_audio_def result_simps Let_def split_def split: if_splits option.splits)
qed

lemma published_statuses:
  assumes "publish_audio m outcome db = Inr (u, db')" and "distinct_keys m_id (messages db)"
  shows "map (\<lambda>y. (m_id y, m_transcode_status y)) (messages db') =
    map (\<lambda>y. (m_id y, if m_id y = m_id m then outcome_status outcome else m_transcode_status y)) (messages db)"
proof -
  define db1 where "db1 = set_published (m_id m) (outcome_status outcome) (swap_attachment outcome db)"
  obtain x where "x \<in> set (messages db)" "m_id x = m_id m" "u = published_row (m_id m) (outcome_status outcome) x"
    and ran: "let db1 = set_published (m_id m) (outcome_status outcome) (swap_attachment outcome db)
     in db' = (if m_is_published m then db1
       else case m_reply_root_id x of None \<Rightarrow> recalculate_group_last_message (m_chat_id x) db1
         | Some t \<Rightarrow> set_has_thread t True (increment_thread_meta (m_chat_id x) t (m_created_at x) db1))"
    by (rule publish_audio_Inr [OF assms])
  from ran have cases: "messages db' = messages db1 \<or>
      (\<exists>t. messages db' = map (\<lambda>m. if m_id m = t then m\<lparr>m_has_thread := True\<rparr> else m) (messages db1))"
    unfolding Let_def db1_def [symmetric] by (auto simp: messages_set_has_thread split: if_splits option.splits)
  have here: "map (\<lambda>y. (m_id y, m_transcode_status y)) (messages db1) =
      map (\<lambda>y. (m_id y, if m_id y = m_id m then outcome_status outcome else m_transcode_status y)) (messages db)"
    by (simp add: db1_def published_messages)
  have flagged: "map (\<lambda>y. (m_id y, m_transcode_status y)) (map (\<lambda>m. if m_id m = t then m\<lparr>m_has_thread := True\<rparr> else m) ms) =
      map (\<lambda>y. (m_id y, m_transcode_status y)) ms" for t ms
    by simp
  from cases show ?thesis
  proof (elim disjE exE)
    assume "messages db' = messages db1"
    then show ?thesis by (simp only: here)
  next
    fix t
    assume "messages db' = map (\<lambda>m. if m_id m = t then m\<lparr>m_has_thread := True\<rparr> else m) (messages db1)"
    then show ?thesis by (simp only: flagged here)
  qed
qed

text \<open>After its job a message is settled: another job for it finds nothing to do.\<close>

lemma processed_once:
  assumes "process_message transcode vc i (db, r, jobs) = Inr (db', r', jobs')" and "distinct_keys m_id (messages db)"
  shows "process_message transcode vc i (db', r', jobs') = Inr (db', r', jobs')"
proof -
  have "load_audio db' i = Inr None"
  proof (cases "load_audio db i")
    case (Inl e)
    with assms show ?thesis by (simp add: process_message_def)
  next
    case (Inr found)
    show ?thesis
    proof (cases found)
      case None
      with assms Inr show ?thesis by (simp add: process_message_def)
    next
      case (Some p)
      obtain m current where p: "p = (m, current)" by (cases p)
      let ?outcome = "transcode_outcome transcode current"
      from assms(1) Inr Some p obtain u db1
        where published: "publish_audio m ?outcome db = Inr (u, db1)"
          and told: "announce_audio vc m ?outcome u db1 (r, jobs) = Inr (db', r', jobs')"
        by (auto simp: process_message_def result_simps Let_def)
      from Inr Some p have m: "m_id m = i"
        by (auto simp: load_audio_def result_simps split: if_splits dest: first_row_Some)
      have st: "outcome_status ?outcome = TranscodeDone \<or> outcome_status ?outcome = TranscodeFailed"
        by (simp add: outcome_status_def split: audio_publish_outcome.split)
      have rows: "map (\<lambda>y. (m_id y, m_transcode_status y)) (messages db1) =
          map (\<lambda>y. (m_id y, if m_id y = i then outcome_status ?outcome else m_transcode_status y)) (messages db)"
        using published_statuses [OF published assms(2)] unfolding m .
      have settled: "m_transcode_status y = outcome_status ?outcome" if "y \<in> set (messages db1)" "m_id y = i" for y
      proof -
        have "(m_id y, m_transcode_status y) \<in> set (map (\<lambda>y. (m_id y, m_transcode_status y)) (messages db1))"
          using that(1) by simp
        with that(2) show ?thesis unfolding rows by auto
      qed
      from Inr obtain x where "x \<in> set (messages db)" "m_id x = i"
        by (auto simp: load_audio_def result_simps dest: first_row_Some)
      moreover have "map m_id (messages db1) = map m_id (messages db)"
        using arg_cong [OF rows, of "map fst"] by (simp add: comp_def)
      ultimately have "i \<in> set (map m_id (messages db1))" by force
      then obtain y where "first_row (\<lambda>y. m_id y = i) (messages db1) = Some y"
        by (cases "first_row (\<lambda>y. m_id y = i) (messages db1)") (auto simp: first_row_None)
      with first_row_Some [OF this] settled st show ?thesis
        unfolding load_audio_def announce_keeps_messages [OF told] by auto
    qed
  qed
  then show ?thesis by (simp add: process_message_def)
qed

section \<open>The queue\<close>

definition in_hand :: "audio_transcode_service \<Rightarrow> snowflake list" where
  "in_hand sv = (case ats_processing sv of None \<Rightarrow> [] | Some i \<Rightarrow> [i])"

definition queue_ok :: "audio_transcode_service \<Rightarrow> bool" where
  "queue_ok sv \<longleftrightarrow> distinct (in_hand sv @ ats_queue sv) \<and> length (ats_queue sv) \<le> channel_buffer \<and>
     ats_scheduled sv = set (in_hand sv @ ats_queue sv)"

lemma enqueue_cases:
  assumes "queue_ok sv"
  shows "audio_enqueue i sv =
    (if i \<in> ats_scheduled sv then (AlreadyScheduled, sv)
     else if length (ats_queue sv) < channel_buffer
     then (Queued, sv\<lparr>ats_queue := ats_queue sv @ [i], ats_scheduled := insert i (ats_scheduled sv)\<rparr>)
     else (QueueFull, sv))"
proof -
  have "ats_processing sv = Some i \<Longrightarrow> i \<in> ats_scheduled sv" using assms by (simp add: queue_ok_def in_hand_def)
  then show ?thesis by (auto simp: audio_enqueue_def try_schedule_def)
qed

lemma enqueue_ok:
  assumes "queue_ok sv" and "audio_enqueue i sv = (res, sv')"
  shows "queue_ok sv'" and "ats_scheduled sv \<subseteq> ats_scheduled sv'"
    and "res = QueueFull \<Longrightarrow> length (ats_queue sv') = channel_buffer" and "res \<noteq> QueueFull \<Longrightarrow> i \<in> ats_scheduled sv'"
proof -
  have out: "(res, sv') =
      (if i \<in> ats_scheduled sv then (AlreadyScheduled, sv)
       else if length (ats_queue sv) < channel_buffer
       then (Queued, sv\<lparr>ats_queue := ats_queue sv @ [i], ats_scheduled := insert i (ats_scheduled sv)\<rparr>)
       else (QueueFull, sv))"
    using assms(2) unfolding enqueue_cases [OF assms(1)] by (rule sym)
  have "queue_ok sv' \<and> ats_scheduled sv \<subseteq> ats_scheduled sv' \<and>
      (res = QueueFull \<longrightarrow> length (ats_queue sv') = channel_buffer) \<and> (res \<noteq> QueueFull \<longrightarrow> i \<in> ats_scheduled sv')"
  proof (cases "i \<in> ats_scheduled sv \<or> \<not> length (ats_queue sv) < channel_buffer")
    case True
    with out assms(1) show ?thesis by (cases "i \<in> ats_scheduled sv") (simp_all add: queue_ok_def)
  next
    case False
    then have "i \<notin> ats_scheduled sv" "length (ats_queue sv) < channel_buffer" by simp_all
    moreover from this out have fresh: "res = Queued"
      "sv' = sv\<lparr>ats_queue := ats_queue sv @ [i], ats_scheduled := insert i (ats_scheduled sv)\<rparr>" by simp_all
    moreover have "in_hand sv' = in_hand sv" by (simp add: fresh in_hand_def)
    ultimately show ?thesis using assms(1) by (auto simp: queue_ok_def)
  qed
  then show "queue_ok sv'" and "ats_scheduled sv \<subseteq> ats_scheduled sv'"
    and "res = QueueFull \<Longrightarrow> length (ats_queue sv') = channel_buffer" and "res \<noteq> QueueFull \<Longrightarrow> i \<in> ats_scheduled sv'"
    by simp_all
qed

lemma enqueue_until_full_ok:
  assumes "queue_ok sv"
  shows "queue_ok (enqueue_until_full is sv) \<and> ats_scheduled sv \<subseteq> ats_scheduled (enqueue_until_full is sv) \<and>
    (length (ats_queue (enqueue_until_full is sv)) = channel_buffer \<or> set is \<subseteq> ats_scheduled (enqueue_until_full is sv))"
  using assms
proof (induction "is" arbitrary: sv)
  case Nil
  then show ?case by simp
next
  case (Cons i rest)
  obtain res sv' where enq: "audio_enqueue i sv = (res, sv')" by fastforce
  note step = enqueue_ok [OF Cons.prems enq]
  show ?case
  proof (cases "res = QueueFull")
    case True
    with enq step show ?thesis by simp
  next
    case False
    then have "enqueue_until_full (i # rest) sv = enqueue_until_full rest sv'"
      using enq by (cases res) simp_all
    with Cons.IH [OF step(1)] step(2) step(4) [OF False] show ?thesis by auto
  qed
qed

lemma queue_step_ok: "queue_ok sv \<Longrightarrow> queue_ok (queue_step e sv)"
proof (cases e)
  case (EnqueueMessage i)
  assume "queue_ok sv"
  with EnqueueMessage show ?thesis by (cases "audio_enqueue i sv") (simp add: queue_step_def enqueue_ok(1))
next
  case (Refill db)
  assume "queue_ok sv"
  with Refill show ?thesis by (simp add: queue_step_def refill_pending_jobs_def Let_def enqueue_until_full_ok)
qed (auto simp: queue_step_def queue_ok_def in_hand_def start_processing_def finish_processing_def
    clear_processing_after_panic_def split: option.splits list.splits)

interpretation audio_queue: total_machine queue_step queue_ok
  by unfold_locales (rule queue_step_ok)

lemma refill_ok:
  assumes "queue_ok sv" and "refill_pending_jobs (db, sv) = (db', sv')"
  shows "length (ats_queue sv') = channel_buffer \<or> set (newest_audio pending_audio db') \<subseteq> ats_scheduled sv'"
  using assms enqueue_until_full_ok [OF assms(1), of "newest_audio pending_audio db'"]
  by (auto simp: refill_pending_jobs_def Let_def)

text \<open>C19: Whatever requests, jobs, panics and refills have happened, no message is queued twice or
  queued while it is being processed, the channel is within its bound, exactly these messages are
  marked as scheduled, and a refill from any database then leaves the channel full or has every one
  of the newest pending voice messages scheduled.\<close>

theorem audio_queue_exact:
  "let sv = fold queue_step events audio_service_new; (db', sv') = refill_pending_jobs (db, sv)
   in distinct (in_hand sv @ ats_queue sv) \<and> length (ats_queue sv) \<le> 64 \<and>
      ats_scheduled sv = set (in_hand sv @ ats_queue sv) \<and>
      (length (ats_queue sv') = 64 \<or> set (newest_audio pending_audio db') \<subseteq> ats_scheduled sv')"
proof -
  have "queue_ok audio_service_new" by (simp add: queue_ok_def audio_service_new_def in_hand_def)
  then have ok: "queue_ok (fold queue_step events audio_service_new)" by (rule audio_queue.run_inv)
  then show ?thesis using refill_ok [OF ok]
    unfolding Let_def split_def queue_ok_def channel_buffer_def by (metis prod.collapse)
qed

end
