(* ===== verification/Spec2Isabelle.thy ===== *)
theory Spec2Isabelle
  imports Speaking Friend_Requests Push_Policy Client_Tracking Authz Presence_Changes Rpc_Handshake
    Message_Edit Unread_Counts Reactions Audio_Publication
begin

text \<open>
  A verification development for the chahua chat backend (\<open>backend/src\<close>, Rust). Paths below are
  under \<open>backend/src\<close>. Each theory opens with a shorter description of what it holds.

  \<^bold>\<open>The program.\<close> The backend serves a chat application over HTTP and over JSON-RPC on a WebSocket.
  Its state is a PostgreSQL database reached through Diesel, a few process-local structures (the
  connection registry, caches, the last-seen buffer) and the outgoing queues. A request is
  authenticated, authorized, runs one or more statements (usually in a transaction), and after the
  commit announces what happened to the connections concerned, to push delivery and to the search
  index.

  \<^bold>\<open>How the code is modelled.\<close>
    \<^item> A table is the list of its rows, in no promised order; \<open>Prelude\<close> has the statements the code
      runs (select, first row, update with a filter, delete, insert with each kind of conflict
      clause). The tables stand in two records: \<open>tables\<close> of \<open>Social\<close> (accounts, groups, memberships,
      friendships, requests, blocks, settings) and \<open>chat_db\<close> of \<open>Chat_Tables\<close>, which contains the
      former as \<open>core\<close> (messages, threads, mentions, attachments, receipts and the like).
    \<^item> A fallible operation returns \<open>app_error + 'a \<times> state\<close>. \<open>and_then\<close> is the \<open>?\<close> operator; \<open>Inl\<close>
      is every error the code returns. A failed transaction is rolled back, so an error carries no
      new state. The database itself is taken to be reachable: an error of the driver appears only
      where the code turns it into behaviour of its own.
    \<^item> The clock, new ids, the random parts of tokens and database time (\<open>now()\<close>) are arguments.
      Where the code reads the clock twice the model has two arguments.
    \<^item> Texts of users are lists of code points (\<open>ustr\<close>); constants of the code are \<open>ascii ''...''\<close>.
      Numeric ids that the code keeps in 64 bits are integers where nothing is computed with them;
      the packed state word of a connection and the counters that wrap are machine words.
    \<^item> Code of others is a parameter: the JWT library, the JSON printer and parser, the forum's user
      tables, the media store's URLs, the avatar service.
    \<^item> One transaction is one step. Interleavings are modelled where the code is built around them:
      the last-seen buffer, the connection registry and the RPC session.

  \<^bold>\<open>Foundations.\<close> \<open>Prelude\<close>: results, table statements, texts and their lemmas. \<open>Ttl_Cache\<close>: the
  locale of the caches that entries leave by age. \<open>Models\<close>: \<open>models.rs\<close>, \<open>errors.rs\<close>. \<open>Dto_Ws\<close>: the
  events of \<open>dto/ws.rs\<close>. \<open>Chat_Tables\<close>, \<open>Dto_Chat\<close>: the tables of a chat's contents and what clients
  are sent.

  \<^bold>\<open>Connections.\<close> \<open>Ws_Registry\<close> (\<open>services/ws_registry\<close>): registration, broadcast into bounded
  queues, pruning, and the state word of presence. The registry invariant holds in every reachable
  state, and the packed word implements the abstract away clock.

  \<^bold>\<open>Accounts and their relations.\<close> \<open>Speaking\<close> (\<open>services/speaking.rs\<close>), \<open>Social\<close> and
  \<open>Friend_Requests\<close> (\<open>services/social.rs\<close>), \<open>Users\<close> (\<open>services/user.rs\<close>), \<open>Notification_Prefs\<close>
  (\<open>services/notification_preferences.rs\<close> and its transport layer), \<open>Push_Policy\<close>
  (\<open>services/push/policy.rs\<close>), \<open>Presence\<close> and \<open>Presence_Changes\<close> (\<open>services/presence.rs\<close>,
  \<open>presence/changes.rs\<close>, \<open>services/api/friends.rs\<close>, \<open>api/blocks.rs\<close>). The invariants are those the
  migrations declare (keys, checks, one unresolved request for a pair, one direct chat for a pair);
  every operation keeps them. Refinement and equivalence lemmas relate the batched queries to the
  functions on one pair, the push decision to its written contract, and the announced presence
  changes to the change of what each viewer may see.

  \<^bold>\<open>Activity.\<close> \<open>Activity_Metrics\<close>, \<open>Client_Tracking\<close> and \<open>Last_Seen\<close>
  (\<open>services/client_tracking\<close>): throttled writes, the daily rollup, the purge of dead clients in
  batches, and the buffer whose worker persists while requests go on recording. The worker is a
  step relation; no observation is lost in any interleaving and an uninterrupted flush refines it.

  \<^bold>\<open>Sessions and authorization.\<close> \<open>Authentication\<close> (\<open>services/auth_token.rs\<close>,
  \<open>services/token_generation.rs\<close>), \<open>Authz\<close> (\<open>services/authz.rs\<close>, \<open>services/authentication.rs\<close>):
  tokens read back as what was issued, withdrawn permissions stop working when the cache entry
  ages, and the caches are interpretations of the locale of \<open>Ttl_Cache\<close>.

  \<^bold>\<open>JSON-RPC.\<close> \<open>Rpc_Protocol\<close> (\<open>rpc/protocol.rs\<close>, \<open>rpc/error.rs\<close>): the envelope and ids.
  \<open>Rpc_Methods\<close> (\<open>rpc/methods.rs\<close>): the method table and dispatch. \<open>Rpc_Watches\<close> and \<open>Rpc_Session\<close>
  (\<open>rpc/session.rs\<close>, \<open>rpc/methods/control.rs\<close>): the session engine as a transition function
  \<open>session_step\<close> over what can happen next (a frame, a result, a dequeued event, a lapse of a
  deadline). \<open>Rpc_Session_Frames\<close>, \<open>Rpc_Answers\<close>, \<open>Rpc_Steps\<close>: what each step changes, the books of
  unanswered calls, and the effects on frames, tasks and queues. \<open>Rpc_Guarantees\<close>,
  \<open>Rpc_Handshake\<close>: over every run each call is answered once, the remembered ids are the ids due,
  permits and queues stay within their limits, nothing runs beside the handshake, and the
  lifecycle notice is the last frame. \<open>Rpc_Example\<close> is a concrete conversation.

  \<^bold>\<open>Messages.\<close> \<open>Message_Text\<close> (mention tokens and previews of \<open>services/messages.rs\<close>),
  \<open>System_Messages\<close>, \<open>Chat_Read\<close> (\<open>services/chat.rs\<close>), \<open>Threads\<close> (\<open>services/threads.rs\<close>),
  \<open>Read_Receipts\<close>, \<open>Membership_Checks\<close>, \<open>Message_View\<close> (\<open>attach_metadata\<close> and
  \<open>services/single_forwarding.rs\<close>), \<open>Message_Send\<close>, \<open>Message_Edit\<close>, \<open>Message_Deletion\<close> with the
  endpoints of \<open>services/api/chats/messages.rs\<close>. \<open>Chat_Books\<close> states the bookkeeping beside the
  messages: \<open>books_ok\<close> (a root's \<open>has_thread\<close> flag and \<open>thread_meta\<close> row count its visible replies;
  a chat points at its last visible message) and \<open>positions_ok\<close> (every read position names a row
  that can be seen). \<open>Send_Guarantees\<close> and \<open>Deletion_Guarantees\<close> prove that sending, recalling and
  cleaning up keep both. \<open>Message_Edit\<close> compares the mention rows after sends and edits with whom
  the text concerns. \<open>Message_View\<close> shows that a page built with one query for each kind of data
  shows every message as looking it up alone would, and that a deleted message reveals nothing.
  \<open>Audio_Publication\<close> (\<open>services/audio_transcode\<close>) is the worker that publishes voice messages: its
  queue as a step relation, and what publication does to the books when other requests ran since it
  read the message.

  \<^bold>\<open>Unread state.\<close> \<open>Unread_Counts\<close> (\<open>count_chat_unread_cursors\<close> of \<open>services/unread/service.rs\<close> and the
  revision trigger of \<open>migrations/2026-11-04-044733-0000_add_chat_unread_revisions\<close>): counters behind a
  cache whose keys hold the chat's revision. In every interleaving of requests with statements and
  evictions an answer is the count in a state the request ran through. \<open>Reactions\<close>
  (\<open>services/reactions.rs\<close>, \<open>services/api/chats/reactions.rs\<close>, the reaction queries of
  \<open>services/unread/service.rs\<close>): the reactions of a message, their flag and announcements under
  interleaved statements, and the author's snapshots and acknowledgements.

  \<^bold>\<open>Bounds.\<close> Loops that the code ends by exhausting rows (the purge of clients, the cleanup after a
  removed member) are recursions on the rows left, so they are total and the theorems speak of
  their results without fuel. The only fuel is the number of requests of a client that follows the
  cursors of a list (\<open>collect_pages\<close>); any number above the number of rows is enough, as its lemma
  assumes. The constants (batch sizes, queue lengths, permits, time-outs, the
  20 attachments of a message, 100 selected messages) are the code's.

  \<^bold>\<open>Not modelled.\<close> HTTP routing, extractors, OpenAPI and the configuration; metrics other than those
  the activity rollup derives; media, avatars, the audio encoder and image processing; delivery
  of pushes to the vendors; the search index; stickers and their packs; listings of chats and
  threads; the unread totals of a user and their subscriptions; pins; administration of groups and
  invitations; service tokens; saved messages; the frontend. These are queries and transport around the state modelled here, or calls
  of libraries; where modelled code depends on one of them it is a parameter or its effect on the
  modelled state is included. The manifest lists each part with its reason.
\<close>

end
